(* ===== verification/Json.thy ===== *)
theory Json
  imports Prelude
begin

text \<open>
  The part of Python's \<^verbatim>\<open>json\<close> module the repository relies on: the canonical printer
  (\<^verbatim>\<open>canonical_json\<close> of \<^verbatim>\<open>common/hash_chain.py\<close>: sorted keys, no spaces, raw
  non-ASCII) and \<^verbatim>\<open>json.loads\<close>.  The reader is a character machine that produces
  tokens followed by a stack machine, so both are structurally recursive and need no fuel.
  A floating-point number is carried by its \<^verbatim>\<open>repr\<close> text.
  The main fact is the round trip \<open>loads_canonical\<close>.
\<close>

datatype json =
    JNull
  | JBool bool
  | JInt int
  | JFloat string
  | JStr string
  | JArr "json list"
  | JObj "(string \<times> json) list"

type_synonym jdict = "(string, json) dict"

subsection \<open>Numerals\<close>

definition digit :: "nat \<Rightarrow> char" where
  "digit n = char_of (48 + n)"

definition is_digit :: "char \<Rightarrow> bool" where
  "is_digit c \<longleftrightarrow> 48 \<le> code c \<and> code c \<le> 57"

definition digit_val :: "char \<Rightarrow> nat" where
  "digit_val c = code c - 48"

fun show_nat :: "nat \<Rightarrow> string" where
  "show_nat n = (if n < 10 then [digit n] else show_nat (n div 10) @ [digit (n mod 10)])"

declare show_nat.simps [simp del]

definition show_int :: "int \<Rightarrow> string" where
  "show_int i = (if i < 0 then CHR ''-'' # show_nat (nat (- i)) else show_nat (nat i))"

definition read_nat :: "string \<Rightarrow> nat" where
  "read_nat s = foldl (\<lambda>n c. 10 * n + digit_val c) 0 s"

text \<open>The integer part of JSON's number syntax, \<open>0|[1-9]\d*\<close>.\<close>

definition nat_text :: "string \<Rightarrow> bool" where
  "nat_text s \<longleftrightarrow> s \<noteq> [] \<and> list_all is_digit s \<and> (hd s = CHR ''0'' \<longrightarrow> length s = 1)"

lemma digit_digit: "n < 10 \<Longrightarrow> is_digit (digit n) \<and> digit_val (digit n) = n"
  by (simp add: digit_def is_digit_def digit_val_def code_def)

lemma digit_0: "n < 10 \<Longrightarrow> digit n = CHR ''0'' \<longleftrightarrow> n = 0"
proof -
  assume "n < 10"
  then have "digit_val (digit n) = n" by (simp add: digit_digit)
  moreover have "digit_val CHR ''0'' = 0" by (simp add: digit_val_def code_def)
  moreover have "digit 0 = CHR ''0''" by code_simp
  ultimately show ?thesis by metis
qed

lemma show_nat_digits: "list_all is_digit (show_nat n)"
proof (induction n rule: show_nat.induct)
  case (1 n)
  then show ?case
    by (subst show_nat.simps) (simp add: digit_digit)
qed

lemma show_nat_nonempty: "show_nat n \<noteq> []"
  by (subst show_nat.simps) simp

lemma show_nat_hd: "hd (show_nat n) = CHR ''0'' \<Longrightarrow> n = 0"
proof (induction n rule: show_nat.induct)
  case (1 n)
  show ?case
  proof (cases "n < 10")
    case True
    with "1.prems" show ?thesis by (simp add: show_nat.simps [of n] digit_0)
  next
    case False
    then have "hd (show_nat n) = hd (show_nat (n div 10))"
      by (simp add: show_nat.simps [of n] show_nat_nonempty)
    with "1.prems" False have "n div 10 = 0" using "1.IH" by simp
    with False show ?thesis by simp
  qed
qed

lemma nat_text_show: "nat_text (show_nat n)"
proof -
  have "hd (show_nat n) = CHR ''0'' \<longrightarrow> length (show_nat n) = 1"
    using show_nat_hd [of n] by (auto simp: show_nat.simps [of 0])
  then show ?thesis by (simp add: nat_text_def show_nat_nonempty show_nat_digits)
qed

lemma read_show_nat: "read_nat (show_nat n) = n"
proof (induction n rule: show_nat.induct)
  case (1 n)
  show ?case
  proof (cases "n < 10")
    case True
    then show ?thesis by (simp add: show_nat.simps [of n] read_nat_def digit_digit)
  next
    case False
    then have "read_nat (show_nat n) = 10 * read_nat (show_nat (n div 10)) + n mod 10"
      by (simp add: show_nat.simps [of n] read_nat_def digit_digit)
    with False "1.IH" show ?thesis by simp
  qed
qed

subsection \<open>Printing\<close>

definition hex_digit :: "nat \<Rightarrow> char" where
  "hex_digit n = (if n < 10 then digit n else char_of (87 + n))"

text \<open>One character of a string literal, as \<^verbatim>\<open>json.dumps(ensure_ascii=False)\<close> writes it.\<close>

definition escape_char :: "char \<Rightarrow> string" where
  "escape_char c =
     (if c = CHR 0x22 then [CHR 0x5C, CHR 0x22]
      else if c = CHR 0x5C then [CHR 0x5C, CHR 0x5C]
      else if c = CHR 0x0A then [CHR 0x5C, CHR ''n'']
      else if c = CHR 0x0D then [CHR 0x5C, CHR ''r'']
      else if c = CHR 0x09 then [CHR 0x5C, CHR ''t'']
      else if c = CHR 0x08 then [CHR 0x5C, CHR ''b'']
      else if c = CHR 0x0C then [CHR 0x5C, CHR ''f'']
      else if code c < 32
        then [CHR 0x5C, CHR ''u'', CHR ''0'', CHR ''0'',
              hex_digit (code c div 16), hex_digit (code c mod 16)]
      else [c])"

definition quote :: "string \<Rightarrow> string" where
  "quote s = [CHR 0x22] @ concat (map escape_char s) @ [CHR 0x22]"

fun sepby :: "'a \<Rightarrow> 'a list list \<Rightarrow> 'a list" where
  "sepby c [] = []"
| "sepby c [x] = x"
| "sepby c (x # y # xs) = x @ c # sepby c (y # xs)"

text \<open>
  \<open>canonical_json\<close> prints the members first and then sorts them by key, which gives the text
  that sorting the keys first gives, and keeps the recursion on the members of the list.
\<close>

fun canonical_json :: "json \<Rightarrow> string" where
  "canonical_json JNull = ''null''"
| "canonical_json (JBool b) = (if b then ''true'' else ''false'')"
| "canonical_json (JInt i) = show_int i"
| "canonical_json (JFloat t) = t"
| "canonical_json (JStr s) = quote s"
| "canonical_json (JArr vs) = ''['' @ sepby CHR '','' (map canonical_json vs) @ '']''"
| "canonical_json (JObj kvs) =
     ''{'' @ sepby CHR '','' (map (\<lambda>(k, t). quote k @ CHR '':'' # t)
               (sort_key fst (map (\<lambda>(k, v). (k, canonical_json v)) kvs))) @ ''}''"

text \<open>The value with its keys sorted at every level: what reading the printed text gives.\<close>

fun canon :: "json \<Rightarrow> json" where
  "canon (JArr vs) = JArr (map canon vs)"
| "canon (JObj kvs) = JObj (sort_key fst (map (\<lambda>(k, v). (k, canon v)) kvs))"
| "canon v = v"


subsection \<open>Reading: characters to tokens\<close>

datatype token = TLBrack | TRBrack | TLBrace | TRBrace | TComma | TColon | TStr string | TAtom json

definition json_ws :: "char \<Rightarrow> bool" where
  "json_ws c \<longleftrightarrow> code c \<in> {32, 9, 10, 13}"

text \<open>Characters of the literals and numbers; such a run is classified when it ends.\<close>

definition atom_char :: "char \<Rightarrow> bool" where
  "atom_char c \<longleftrightarrow> is_digit c \<or> c = CHR ''+'' \<or> c = CHR ''-'' \<or> c = CHR ''.''
     \<or> (65 \<le> code c \<and> code c \<le> 90) \<or> (97 \<le> code c \<and> code c \<le> 122)"

definition int_text :: "string \<Rightarrow> bool" where
  "int_text s \<longleftrightarrow> (case s of [] \<Rightarrow> False | c # cs \<Rightarrow> if c = CHR ''-'' then nat_text cs else nat_text s)"

definition read_int :: "string \<Rightarrow> int" where
  "read_int s = (case s of [] \<Rightarrow> 0
     | c # cs \<Rightarrow> if c = CHR ''-'' then - int (read_nat cs) else int (read_nat s))"

text \<open>\<open>(-?(?:0|[1-9]\d*))(\.\d+)?([eE][-+]?\d+)?\<close> with a fraction or an exponent.\<close>

definition exp_text :: "string \<Rightarrow> bool" where
  "exp_text s \<longleftrightarrow> (case s of [] \<Rightarrow> False
     | e # r \<Rightarrow> (e = CHR ''e'' \<or> e = CHR ''E'') \<and>
         (let ds = (case r of [] \<Rightarrow> [] | x # xs \<Rightarrow> if x = CHR ''-'' \<or> x = CHR ''+'' then xs else r)
          in ds \<noteq> [] \<and> list_all is_digit ds))"

definition float_text :: "string \<Rightarrow> bool" where
  "float_text s \<longleftrightarrow>
     (let body = (case s of [] \<Rightarrow> [] | c # cs \<Rightarrow> if c = CHR ''-'' then cs else s);
          ip = takeWhile is_digit body; r = dropWhile is_digit body
      in nat_text ip \<and>
         (case r of [] \<Rightarrow> False
          | c # cs \<Rightarrow> if c = CHR ''.''
              then (let fp = takeWhile is_digit cs; r2 = dropWhile is_digit cs
                    in fp \<noteq> [] \<and> (r2 = [] \<or> exp_text r2))
              else exp_text r))"

definition special_float :: "string \<Rightarrow> bool" where
  "special_float s \<longleftrightarrow> s = ''NaN'' \<or> s = ''Infinity'' \<or> s = ''-Infinity''"

definition classify :: "string \<Rightarrow> json option" where
  "classify s =
     (if s = ''null'' then Some JNull
      else if s = ''true'' then Some (JBool True)
      else if s = ''false'' then Some (JBool False)
      else if int_text s then Some (JInt (read_int s))
      else if float_text s \<or> special_float s then Some (JFloat s)
      else None)"

definition hex_val :: "char \<Rightarrow> nat option" where
  "hex_val c = (if is_digit c then Some (code c - 48)
     else if 97 \<le> code c \<and> code c \<le> 102 then Some (code c - 87)
     else if 65 \<le> code c \<and> code c \<le> 70 then Some (code c - 55) else None)"

definition unescape :: "char \<Rightarrow> char option" where
  "unescape c =
     (if c = CHR 0x22 \<or> c = CHR 0x5C \<or> c = CHR ''/'' then Some c
      else if c = CHR ''b'' then Some (CHR 0x08)
      else if c = CHR ''f'' then Some (CHR 0x0C)
      else if c = CHR ''n'' then Some (CHR 0x0A)
      else if c = CHR ''r'' then Some (CHR 0x0D)
      else if c = CHR ''t'' then Some (CHR 0x09)
      else None)"

text \<open>
  The scanner's states: between tokens, inside an atom (its characters reversed), inside a
  string literal, after its backslash, and inside a \<open>\u\<close> escape (digits read and value).
  A code point that does not fit the text model makes the input unreadable.
\<close>

datatype lexst = LStart | LAtom string | LStr string | LEsc string | LHex string nat nat

definition punct :: "char \<Rightarrow> token option" where
  "punct c =
     (if c = CHR ''['' then Some TLBrack else if c = CHR '']'' then Some TRBrack
      else if c = CHR ''{'' then Some TLBrace else if c = CHR ''}'' then Some TRBrace
      else if c = CHR '','' then Some TComma else if c = CHR '':'' then Some TColon else None)"

abbreviation emit :: "token \<Rightarrow> token list option \<Rightarrow> token list option" where
  "emit t \<equiv> map_option ((#) t)"

fun scan :: "lexst \<Rightarrow> string \<Rightarrow> token list option" where
  "scan LStart [] = Some []"
| "scan LStart (c # cs) =
     (case punct c of
        Some t \<Rightarrow> emit t (scan LStart cs)
      | None \<Rightarrow> if json_ws c then scan LStart cs
               else if c = CHR 0x22 then scan (LStr []) cs
               else if atom_char c then scan (LAtom [c]) cs
               else None)"
| "scan (LAtom acc) [] = (case classify (rev acc) of None \<Rightarrow> None | Some v \<Rightarrow> Some [TAtom v])"
| "scan (LAtom acc) (c # cs) =
     (if atom_char c then scan (LAtom (c # acc)) cs
      else case classify (rev acc) of
        None \<Rightarrow> None
      | Some v \<Rightarrow>
          (case punct c of
             Some t \<Rightarrow> emit (TAtom v) (emit t (scan LStart cs))
           | None \<Rightarrow> if json_ws c then emit (TAtom v) (scan LStart cs)
                    else if c = CHR 0x22 then emit (TAtom v) (scan (LStr []) cs)
                    else None))"
| "scan (LStr acc) [] = None"
| "scan (LStr acc) (c # cs) =
     (if c = CHR 0x22 then emit (TStr (rev acc)) (scan LStart cs)
      else if c = CHR 0x5C then scan (LEsc acc) cs
      else if code c < 32 then None
      else scan (LStr (c # acc)) cs)"
| "scan (LEsc acc) [] = None"
| "scan (LEsc acc) (c # cs) =
     (if c = CHR ''u'' then scan (LHex acc 0 0) cs
      else case unescape c of None \<Rightarrow> None | Some d \<Rightarrow> scan (LStr (d # acc)) cs)"
| "scan (LHex acc n v) [] = None"
| "scan (LHex acc n v) (c # cs) =
     (case hex_val c of
        None \<Rightarrow> None
      | Some d \<Rightarrow>
          (let w = 16 * v + d in
           if n < 3 then scan (LHex acc (Suc n) w) cs
           else if w < 256 then scan (LStr (char_of w # acc)) cs
           else None))"

subsection \<open>Reading: tokens to a value\<close>

datatype frame = FArr "json list" | FObj jdict string

datatype pmode = PVal | PValOrClose | PKeyOrClose | PKey jdict | PColon jdict string | PHave json

fun parse :: "pmode \<Rightarrow> frame list \<Rightarrow> token list \<Rightarrow> json option" where
  "parse m stk [] = (case m of PHave v \<Rightarrow> if stk = [] then Some v else None | _ \<Rightarrow> None)"
| "parse m stk (t # ts) =
     (case m of
        PHave v \<Rightarrow>
          (case stk of
             [] \<Rightarrow> None
           | FArr vs # stk' \<Rightarrow>
               (case t of TComma \<Rightarrow> parse PVal (FArr (vs @ [v]) # stk') ts
                | TRBrack \<Rightarrow> parse (PHave (JArr (vs @ [v]))) stk' ts
                | _ \<Rightarrow> None)
           | FObj d k # stk' \<Rightarrow>
               (case t of TComma \<Rightarrow> parse (PKey (dset k v d)) stk' ts
                | TRBrace \<Rightarrow> parse (PHave (JObj (dset k v d))) stk' ts
                | _ \<Rightarrow> None))
      | PKey d \<Rightarrow> (case t of TStr k \<Rightarrow> parse (PColon d k) stk ts | _ \<Rightarrow> None)
      | PKeyOrClose \<Rightarrow>
          (case t of TStr k \<Rightarrow> parse (PColon [] k) stk ts
           | TRBrace \<Rightarrow> parse (PHave (JObj [])) stk ts | _ \<Rightarrow> None)
      | PColon d k \<Rightarrow> (case t of TColon \<Rightarrow> parse PVal (FObj d k # stk) ts | _ \<Rightarrow> None)
      | _ \<Rightarrow>
          (case t of
             TAtom v \<Rightarrow> parse (PHave v) (if m = PValOrClose then FArr [] # stk else stk) ts
           | TStr s \<Rightarrow> parse (PHave (JStr s)) (if m = PValOrClose then FArr [] # stk else stk) ts
           | TLBrack \<Rightarrow> parse PValOrClose (if m = PValOrClose then FArr [] # stk else stk) ts
           | TLBrace \<Rightarrow> parse PKeyOrClose (if m = PValOrClose then FArr [] # stk else stk) ts
           | TRBrack \<Rightarrow> if m = PValOrClose then parse (PHave (JArr [])) stk ts else None
           | _ \<Rightarrow> None))"

definition loads :: "string \<Rightarrow> json option" where
  "loads s = Option.bind (scan LStart s) (parse PVal [])"


subsection \<open>Round trip\<close>

text \<open>Values as Python has them: distinct keys in every object, numbers in \<^verbatim>\<open>repr\<close> form.\<close>

fun wf_json :: "json \<Rightarrow> bool" where
  "wf_json (JFloat t) \<longleftrightarrow> t \<noteq> [] \<and> list_all atom_char t \<and> classify t = Some (JFloat t)"
| "wf_json (JArr vs) \<longleftrightarrow> (\<forall>v \<in> set vs. wf_json v)"
| "wf_json (JObj kvs) \<longleftrightarrow> distinct (map fst kvs) \<and> (\<forall>kv \<in> set kvs. wf_json (snd kv))"
| "wf_json _ \<longleftrightarrow> True"

fun toks :: "json \<Rightarrow> token list" where
  "toks (JStr s) = [TStr s]"
| "toks (JArr vs) = TLBrack # sepby TComma (map toks vs) @ [TRBrack]"
| "toks (JObj kvs) = TLBrace # sepby TComma (map (\<lambda>(k, t). TStr k # TColon # t)
      (sort_key fst (map (\<lambda>(k, v). (k, toks v)) kvs))) @ [TRBrace]"
| "toks v = [TAtom v]"

definition delim :: "string \<Rightarrow> bool" where
  "delim rest \<longleftrightarrow> (case rest of [] \<Rightarrow> True | c # _ \<Rightarrow> punct c \<noteq> None \<or> json_ws c)"

text \<open>\<open>reads text ts\<close>: the scanner turns the text into the tokens, whatever follows it.\<close>

definition reads :: "string \<Rightarrow> token list \<Rightarrow> bool" where
  "reads t ts \<longleftrightarrow> (\<forall>rest. delim rest \<longrightarrow>
     scan LStart (t @ rest) = map_option (\<lambda>r. ts @ r) (scan LStart rest))"

lemma sort_key_map_snd:
  "sort_key fst (map (\<lambda>(k, v). (k, f v)) kvs) = map (\<lambda>(k, v). (k, f v)) (sort_key fst kvs)"
proof (induction kvs)
  case Nil
  then show ?case by simp
next
  case (Cons kv kvs)
  have "insort_key fst (fst kv, f (snd kv)) (map (\<lambda>(k, v). (k, f v)) xs)
      = map (\<lambda>(k, v). (k, f v)) (insort_key fst kv xs)" for xs
    by (induction xs) (auto simp: split_beta)
  with Cons show ?case by (cases kv) simp
qed

lemma punct_not_atom: "punct c = Some t \<Longrightarrow> \<not> atom_char c"
  unfolding punct_def by (auto split: if_splits simp: atom_char_def is_digit_def code_def)

lemma ws_not_atom: "json_ws c \<Longrightarrow> \<not> atom_char c"
proof
  assume ws: "json_ws c" and "atom_char c"
  then consider "is_digit c" | "c = CHR ''+''" | "c = CHR ''-''" | "c = CHR ''.''"
    | "65 \<le> code c" by (auto simp: atom_char_def)
  then show False
    using ws by cases (auto simp: json_ws_def is_digit_def code_def)
qed

lemma quote_not_atom: "\<not> atom_char CHR 0x22"
  by (simp add: atom_char_def is_digit_def code_def)

lemma punct_ws_not_atom: "punct c \<noteq> None \<or> json_ws c \<Longrightarrow> \<not> atom_char c"
  using punct_not_atom ws_not_atom by blast

lemma lex_delim:
  assumes "delim rest" "classify (rev acc) = Some v"
  shows "scan (LAtom acc) rest = emit (TAtom v) (scan LStart rest)"
  using assms punct_ws_not_atom
  by (cases rest) (auto simp: delim_def split: option.splits)

lemma lex_atom_run:
  assumes "list_all atom_char t" "delim rest" "classify (rev acc @ t) = Some v"
  shows "scan (LAtom acc) (t @ rest) = emit (TAtom v) (scan LStart rest)"
  using assms
proof (induction t arbitrary: acc)
  case Nil
  then show ?case by (simp add: lex_delim)
next
  case (Cons c cs)
  then show ?case by simp
qed

lemma reads_atom:
  assumes "t \<noteq> []" "list_all atom_char t" "classify t = Some v"
  shows "reads t [TAtom v]"
proof -
  obtain c cs where t: "t = c # cs" using assms(1) by (cases t) auto
  with assms(2) have c: "atom_char c" by simp
  then have "punct c = None" "\<not> json_ws c" using punct_ws_not_atom by blast+
  moreover from c have "c \<noteq> CHR 0x22" using quote_not_atom by blast
  ultimately show ?thesis
    using assms t c by (auto simp: reads_def lex_atom_run intro!: ext arg_cong2 [where f = map_option])
qed

lemma hex_val_hex_digit: "n < 16 \<Longrightarrow> hex_val (hex_digit n) = Some n"
  by (auto simp: hex_digit_def hex_val_def is_digit_def digit_def code_def)

lemma lex_escape: "scan (LStr acc) (escape_char c @ rest) = scan (LStr (c # acc)) rest"
proof -
  have "char_of (16 * (code c div 16) + code c mod 16) = c"
    by (simp add: code_def)
  moreover have "code c < 256" by (simp add: code_def)
  ultimately show ?thesis
    by (auto simp: escape_char_def unescape_def hex_val_hex_digit Let_def
        hex_val_def [of "CHR ''0''"] is_digit_def code_def [of "CHR ''0''"])
qed

lemma lex_escapes: "scan (LStr acc) (concat (map escape_char s) @ rest) = scan (LStr (rev s @ acc)) rest"
  by (induction s arbitrary: acc) (simp_all add: lex_escape)

lemma reads_quote: "reads (quote s) [TStr s]"
  by (auto simp: reads_def quote_def lex_escapes punct_def json_ws_def code_def
      intro!: arg_cong2 [where f = map_option])


lemma readsD: "reads t ts \<Longrightarrow> delim rest \<Longrightarrow> scan LStart (t @ rest) = map_option (\<lambda>r. ts @ r) (scan LStart rest)"
  by (simp add: reads_def)

lemma delim_punct [simp]:
  "delim (CHR '','' # r)" "delim (CHR '']'' # r)" "delim (CHR ''}'' # r)" "delim (CHR '':'' # r)" "delim []"
  by (simp_all add: delim_def punct_def)

lemma punct_lit [simp]:
  "punct CHR '','' = Some TComma" "punct CHR '':'' = Some TColon" "punct CHR ''['' = Some TLBrack"
  "punct CHR '']'' = Some TRBrack" "punct CHR ''{'' = Some TLBrace" "punct CHR ''}'' = Some TRBrace"
  by (simp_all add: punct_def)

lemma reads_member: "reads t ts \<Longrightarrow> reads (quote k @ CHR '':'' # t) (TStr k # TColon # ts)"
  by (auto simp: reads_def readsD [OF reads_quote] option.map_comp comp_def)

lemma lex_sepby:
  assumes "list_all2 reads xs tss" "delim rest"
  shows "scan LStart (sepby CHR '','' xs @ rest) = map_option (\<lambda>r. sepby TComma tss @ r) (scan LStart rest)"
  using assms
proof (induction xs tss rule: list_all2_induct)
  case Nil
  then show ?case by (simp add: option.map_ident)
next
  case (Cons x xs ts tss)
  then show ?case
    by (cases xs; cases tss) (auto simp: readsD option.map_comp comp_def)
qed

lemma reads_bracket:
  assumes "list_all2 reads xs tss"
  shows "reads (''['' @ sepby CHR '','' xs @ '']'') (TLBrack # sepby TComma tss @ [TRBrack])"
    and "reads (''{'' @ sepby CHR '','' xs @ ''}'') (TLBrace # sepby TComma tss @ [TRBrace])"
  by (auto simp: reads_def lex_sepby [OF assms] option.map_comp comp_def)

lemma atom_char_digit: "is_digit c \<Longrightarrow> atom_char c"
  by (simp add: atom_char_def)

lemma reads_int: "reads (show_int i) [TAtom (JInt i)]"
proof (rule reads_atom)
  show "show_int i \<noteq> []" by (simp add: show_int_def show_nat_nonempty)
  have "list_all atom_char (show_nat n)" for n
    using show_nat_digits [of n] by (auto simp: list_all_iff atom_char_digit)
  then show "list_all atom_char (show_int i)" by (simp add: show_int_def atom_char_def)
  have d: "is_digit (hd (show_nat n))" for n
    using show_nat_digits [of n] show_nat_nonempty [of n] by (cases "show_nat n") auto
  moreover have "\<not> is_digit CHR ''-''" "\<not> is_digit CHR ''n''" "\<not> is_digit CHR ''t''" "\<not> is_digit CHR ''f''"
    by (simp_all add: is_digit_def code_def)
  ultimately have h: "hd (show_nat n) \<noteq> CHR ''-''" "hd (show_nat n) \<noteq> CHR ''n''"
      "hd (show_nat n) \<noteq> CHR ''t''" "hd (show_nat n) \<noteq> CHR ''f''" for n
    by metis+
  have "int_text (show_int i) \<and> read_int (show_int i) = i"
    using h(1) [of "nat i"] nat_text_show [of "nat i"] read_show_nat [of "nat i"]
      nat_text_show [of "nat (- i)"] read_show_nat [of "nat (- i)"] show_nat_nonempty [of "nat i"]
    by (auto simp: int_text_def read_int_def show_int_def split: list.splits)
  moreover have "hd (show_int i) \<noteq> CHR ''n'' \<and> hd (show_int i) \<noteq> CHR ''t'' \<and> hd (show_int i) \<noteq> CHR ''f''"
    using h by (simp add: show_int_def)
  ultimately show "classify (show_int i) = Some (JInt i)"
    by (auto simp: classify_def)
qed


theorem reads_canonical: "wf_json v \<Longrightarrow> reads (canonical_json v) (toks v)"
proof (induction v rule: canonical_json.induct)
  case (4 t)
  then show ?case by (simp add: reads_atom)
next
  case (6 vs)
  then have "list_all2 reads (map canonical_json vs) (map toks vs)"
    by (simp add: list_all2_map1 list_all2_map2 list_all2_same)
  then show ?case by (simp only: canonical_json.simps toks.simps reads_bracket)
next
  case (7 kvs)
  have "list_all2 reads
      (map (\<lambda>(k, t). quote k @ CHR '':'' # t) (map (\<lambda>(k, v). (k, canonical_json v)) (sort_key fst kvs)))
      (map (\<lambda>(k, t). TStr k # TColon # t) (map (\<lambda>(k, v). (k, toks v)) (sort_key fst kvs)))"
    using 7 by (fastforce simp: list_all2_map1 list_all2_map2 list_all2_same intro: reads_member)
  then show ?case by (simp only: canonical_json.simps toks.simps sort_key_map_snd reads_bracket)
qed (auto simp: reads_int reads_quote intro: reads_atom simp: atom_char_def is_digit_def code_def classify_def)

text \<open>The stack machine on the tokens of a printed value.\<close>

lemma toks_Cons: "\<exists>t ts. toks v = t # ts \<and> t \<noteq> TRBrack"
  by (cases v) auto

text \<open>For any printer \<open>tk\<close> of values whose texts read as \<open>cn\<close> of them.\<close>

lemma parse_ValOrClose:
  assumes "\<exists>t ts. tk = t # ts \<and> t \<noteq> TRBrack"
  shows "parse PValOrClose stk (tk @ ts) = parse PVal (FArr [] # stk) (tk @ ts)"
  using assms by (auto split: token.splits)

lemma parse_array:
  assumes "\<And>v stk ts. v \<in> set vs \<Longrightarrow> parse PVal stk (tk v @ ts) = parse (PHave (cn v)) stk ts"
    and "vs \<noteq> []"
  shows "parse PVal (FArr pre # stk) (sepby TComma (map tk vs) @ TRBrack # ts)
       = parse (PHave (JArr (pre @ map cn vs))) stk ts"
  using assms
proof (induction vs arbitrary: pre)
  case Nil
  then show ?case by simp
next
  case (Cons v vs)
  then show ?case by (cases vs) (simp_all del: parse.simps(1))
qed

lemma dset_new: "k \<notin> set (dkeys d) \<Longrightarrow> dset k v d = d @ [(k, v)]"
  by (induction d) auto

lemma parse_object:
  assumes "\<And>k v stk ts. (k, v) \<in> set kvs \<Longrightarrow> parse PVal stk (tk v @ ts) = parse (PHave (cn v)) stk ts"
    and "kvs \<noteq> []" and "distinct (map fst kvs)" and "set (map fst kvs) \<inter> set (dkeys d) = {}"
  shows "parse (PKey d) stk (sepby TComma (map (\<lambda>(k, v). TStr k # TColon # tk v) kvs) @ TRBrace # ts)
       = parse (PHave (JObj (d @ map (\<lambda>(k, v). (k, cn v)) kvs))) stk ts"
  using assms
proof (induction kvs arbitrary: d)
  case Nil
  then show ?case by simp
next
  case (Cons kv kvs)
  obtain k v where kv: "kv = (k, v)" by (cases kv)
  have v: "parse PVal stk (tk v @ ts) = parse (PHave (cn v)) stk ts" for stk ts
    by (rule Cons.prems(1) [of k]) (simp add: kv)
  have k: "k \<notin> set (dkeys d)" using Cons.prems(4) kv by auto
  show ?case
  proof (cases "kvs = []")
    case True
    then show ?thesis using v k by (simp add: kv dset_new del: parse.simps(1))
  next
    case False
    have IH: "parse (PKey (d @ [(k, cn v)])) stk
        (sepby TComma (map (\<lambda>(k, v). TStr k # TColon # tk v) kvs) @ TRBrace # ts)
      = parse (PHave (JObj ((d @ [(k, cn v)]) @ map (\<lambda>(k, v). (k, cn v)) kvs))) stk ts"
    proof (rule Cons.IH [OF _ False])
      show "distinct (map fst kvs)" "set (map fst kvs) \<inter> set (dkeys (d @ [(k, cn v)])) = {}"
        using Cons.prems kv by auto
    qed (metis Cons.prems(1) list.set_intros(2))
    have sep: "sepby TComma (x # map f kvs) = x @ TComma # sepby TComma (map f kvs)" for x f
      using False by (cases kvs) auto
    show ?thesis using v k IH by (simp add: kv sep dset_new del: parse.simps(1))
  qed
qed

lemma distinct_keys_sort: "distinct (map fst (sort_key fst kvs)) \<longleftrightarrow> distinct (map fst kvs)"
proof -
  have "mset (map fst (sort_key fst kvs)) = mset (map fst kvs)" by simp
  then show ?thesis by (rule mset_eq_imp_distinct_iff)
qed

lemma parse_KeyOrClose:
  "kvs \<noteq> [] \<Longrightarrow>
   parse PKeyOrClose stk (sepby TComma (map (\<lambda>(k, v). TStr k # TColon # tk v) kvs) @ ts)
     = parse (PKey []) stk (sepby TComma (map (\<lambda>(k, v). TStr k # TColon # tk v) kvs) @ ts)"
  by (cases kvs; cases "tl kvs") auto


theorem parse_toks:
  "wf_json v \<Longrightarrow> parse PVal stk (toks v @ ts) = parse (PHave (canon v)) stk ts"
proof (induction v arbitrary: stk ts)
  case (JArr vs)
  show ?case
  proof (cases "vs = []")
    case True
    then show ?thesis by simp
  next
    case False
    then obtain w ws where vs: "vs = w # ws" by (cases vs) auto
    have "\<exists>r. sepby TComma (map toks vs) @ TRBrack # ts = toks w @ r"
      unfolding vs by (cases ws) auto
    with JArr False show ?thesis
      using parse_array [of vs toks canon "[]" stk ts] parse_ValOrClose [OF toks_Cons [of w]]
      by (auto simp del: parse.simps simp: parse.simps(2) [of PVal stk TLBrack])
  qed
next
  case (JObj kvs)
  let ?s = "sort_key fst kvs"
  have wf: "distinct (map fst ?s)"
    using JObj.prems by (simp add: distinct_keys_sort)
  have members: "parse PVal stk (toks v @ ts) = parse (PHave (canon v)) stk ts"
    if "(k, v) \<in> set ?s" for k v stk ts
    using JObj.IH [of "(k, v)" v] JObj.prems that by auto
  show ?case
  proof (cases "?s = []")
    case True
    then show ?thesis
      by (simp only: toks.simps canon.simps sort_key_map_snd) simp
  next
    case False
    have "parse PVal stk (toks (JObj kvs) @ ts) = parse PKeyOrClose stk
        (sepby TComma (map (\<lambda>(k, v). TStr k # TColon # toks v) ?s) @ TRBrace # ts)"
      by (simp only: toks.simps sort_key_map_snd) (simp add: split_def comp_def del: parse.simps(1))
    also have "\<dots> = parse (PHave (JObj ([] @ map (\<lambda>(k, v). (k, canon v)) ?s))) stk ts"
      using parse_KeyOrClose [OF False] parse_object [of ?s toks canon, OF members False wf, where d = "[]"] by simp
    finally show ?thesis by (simp add: sort_key_map_snd)
  qed
qed (auto simp del: parse.simps simp: parse.simps(2) [of PVal])

text \<open>
  Reading a printed value, with any white space after it, gives the value with sorted keys.
\<close>

lemma punct_not_ws: "punct c = Some t \<Longrightarrow> \<not> json_ws c"
  unfolding punct_def by (auto split: if_splits simp: json_ws_def code_def)

lemma scan_ws: "list_all json_ws ws \<Longrightarrow> scan LStart ws = Some []"
proof (induction ws)
  case (Cons c cs)
  then have "punct c = None" by (cases "punct c") (auto dest: punct_not_ws)
  with Cons show ?case by simp
qed simp

theorem loads_canonical:
  assumes "wf_json v" "list_all json_ws ws"
  shows "loads (canonical_json v @ ws) = Some (canon v)"
proof -
  have "delim ws" using assms(2) by (auto simp: delim_def split: list.splits)
  then have "scan LStart (canonical_json v @ ws) = Some (toks v)"
    using readsD [OF reads_canonical [OF assms(1)]] scan_ws [OF assms(2)] by simp
  then show ?thesis
    using parse_toks [OF assms(1), of "[]" "[]"] by (simp add: loads_def)
qed

lemma sort_key_idem: "sort_key f (sort_key f xs) = sort_key f xs"
  by (rule sort_key_id_if_sorted) simp

lemma canonical_canon: "canonical_json (canon v) = canonical_json v"
proof (induction v rule: canon.induct)
  case (1 vs)
  then show ?case by (simp add: comp_def cong: map_cong)
next
  case (2 kvs)
  have "map (\<lambda>(k, v). (k, canonical_json v)) (map (\<lambda>(k, v). (k, canon v)) (sort_key fst kvs))
      = map (\<lambda>(k, v). (k, canonical_json v)) (sort_key fst kvs)"
    using 2 by (auto simp: comp_def)
  then show ?case by (simp only: canon.simps canonical_json.simps sort_key_map_snd sort_key_idem)
qed simp_all

lemma canon_canon: "canon (canon v) = canon v"
proof (induction v rule: canon.induct)
  case (1 vs)
  then show ?case by (simp add: comp_def cong: map_cong)
next
  case (2 kvs)
  have "map (\<lambda>(k, v). (k, canon v)) (map (\<lambda>(k, v). (k, canon v)) (sort_key fst kvs))
      = map (\<lambda>(k, v). (k, canon v)) (sort_key fst kvs)"
    using 2 by (auto simp: comp_def)
  then show ?case by (simp only: canon.simps sort_key_map_snd sort_key_idem)
qed simp_all

lemma wf_canon: "wf_json v \<Longrightarrow> wf_json (canon v)"
proof (induction v rule: canon.induct)
  case (2 kvs)
  have "distinct (map fst (map (\<lambda>(k, v). (k, canon v)) kvs))"
    using 2 by (simp add: comp_def split_def)
  then have "distinct (map fst (sort_key fst (map (\<lambda>(k, v). (k, canon v)) kvs)))"
    by (simp add: distinct_keys_sort del: map_map)
  then show ?case using 2 by auto
qed auto

theorem canonical_json_inj:
  assumes "wf_json v" "wf_json w" "canonical_json v = canonical_json w"
  shows "canon v = canon w"
  using loads_canonical [OF assms(1), of "[]"] loads_canonical [OF assms(2), of "[]"] assms(3) by simp

text \<open>A printed value is one line: it holds no line terminator.\<close>

definition line_safe :: "string \<Rightarrow> bool" where
  "line_safe s \<longleftrightarrow> CHR 0x0A \<notin> set s \<and> CHR 0x0D \<notin> set s"

lemma line_safe_append [simp]: "line_safe (s @ t) \<longleftrightarrow> line_safe s \<and> line_safe t"
  and line_safe_Cons [simp]: "line_safe (c # t) \<longleftrightarrow> c \<noteq> CHR 0x0A \<and> c \<noteq> CHR 0x0D \<and> line_safe t"
  and line_safe_Nil [simp]: "line_safe []"
  by (auto simp: line_safe_def)

lemma line_safe_atoms: "list_all atom_char s \<Longrightarrow> line_safe s"
proof -
  have "\<not> atom_char CHR 0x0A" "\<not> atom_char CHR 0x0D"
    by (simp_all add: atom_char_def is_digit_def code_def)
  then show "list_all atom_char s \<Longrightarrow> line_safe s"
    by (auto simp: list_all_iff line_safe_def)
qed

lemma hex_digit_safe: "n < 16 \<Longrightarrow> hex_digit n \<noteq> CHR 0x0A \<and> hex_digit n \<noteq> CHR 0x0D"
proof -
  assume "n < 16"
  then have "hex_val (hex_digit n) \<noteq> None" by (simp add: hex_val_hex_digit)
  moreover have "hex_val CHR 0x0A = None" "hex_val CHR 0x0D = None"
    by (simp_all add: hex_val_def is_digit_def code_def)
  ultimately show ?thesis by metis
qed

lemma line_safe_escape: "line_safe (escape_char c)"
proof -
  have "code c < 256" by (simp add: code_def)
  then show ?thesis using hex_digit_safe [of "code c mod 16"] hex_digit_safe [of "code c div 16"]
    by (simp add: escape_char_def)
qed

lemma line_safe_quote: "line_safe (quote s)"
proof -
  have "line_safe (concat (map escape_char s))"
    by (induction s) (simp_all add: line_safe_escape)
  then show ?thesis by (simp add: quote_def)
qed

lemma line_safe_sepby: "\<forall>x \<in> set xs. line_safe x \<Longrightarrow> line_safe (sepby CHR '','' xs)"
  by (induction "CHR '',''" xs rule: sepby.induct) auto

lemma line_safe_show_int: "line_safe (show_int i)"
proof -
  have "list_all atom_char (show_nat n)" for n
    using show_nat_digits [of n] by (auto simp: list_all_iff atom_char_digit)
  then show ?thesis by (simp add: show_int_def line_safe_atoms)
qed

theorem line_safe_canonical: "wf_json v \<Longrightarrow> line_safe (canonical_json v)"
proof (induction v rule: canonical_json.induct)
  case (6 vs)
  then show ?case by (auto intro!: line_safe_sepby)
next
  case (7 kvs)
  then have "line_safe (sepby CHR '','' (map (\<lambda>(k, t). quote k @ CHR '':'' # t)
     (sort_key fst (map (\<lambda>(k, v). (k, canonical_json v)) kvs))))"
    by (intro line_safe_sepby) (auto simp: line_safe_quote)
  then show ?case by simp
qed (auto simp: line_safe_quote line_safe_show_int line_safe_atoms)

subsection \<open>What is read is well formed\<close>

fun wf_token :: "token \<Rightarrow> bool" where
  "wf_token (TAtom v) = wf_json v"
| "wf_token _ = True"

fun wf_lexst :: "lexst \<Rightarrow> bool" where
  "wf_lexst (LAtom acc) \<longleftrightarrow> acc \<noteq> [] \<and> list_all atom_char acc"
| "wf_lexst _ \<longleftrightarrow> True"

lemma classify_wf:
  assumes "classify t = Some v" "t \<noteq> []" "list_all atom_char t"
  shows "wf_json v"
  using assms unfolding classify_def by (auto split: if_splits simp: classify_def)

lemma punct_wf: "punct c = Some t \<Longrightarrow> wf_token t"
  unfolding punct_def by (auto split: if_splits)

lemma scan_wf: "scan st s = Some ts \<Longrightarrow> wf_lexst st \<Longrightarrow> \<forall>t \<in> set ts. wf_token t"
proof (induction st s arbitrary: ts rule: scan.induct)
  case (3 acc)
  then show ?case by (auto split: option.splits dest: classify_wf)
next
  case (4 acc c cs)
  have c: "classify (rev acc) = Some v \<Longrightarrow> wf_json v" for v
    using 4 classify_wf [of "rev acc" v] by simp
  show ?case using 4 c by (auto split: option.splits if_splits intro: punct_wf)
qed (auto split: option.splits if_splits intro: punct_wf simp: Let_def)

fun wf_frame :: "frame \<Rightarrow> bool" where
  "wf_frame (FArr vs) \<longleftrightarrow> (\<forall>v \<in> set vs. wf_json v)"
| "wf_frame (FObj d k) \<longleftrightarrow> wf_json (JObj d)"

fun wf_mode :: "pmode \<Rightarrow> bool" where
  "wf_mode (PHave v) \<longleftrightarrow> wf_json v"
| "wf_mode (PKey d) \<longleftrightarrow> wf_json (JObj d)"
| "wf_mode (PColon d k) \<longleftrightarrow> wf_json (JObj d)"
| "wf_mode _ \<longleftrightarrow> True"

lemma wf_dset: "wf_json (JObj d) \<Longrightarrow> wf_json v \<Longrightarrow> wf_json (JObj (dset k v d))"
  by (induction d) (auto simp: AList.distinct_update AList.dom_update image_iff)

lemma parse_wf:
  "parse m stk ts = Some v \<Longrightarrow> wf_mode m \<Longrightarrow> \<forall>f \<in> set stk. wf_frame f \<Longrightarrow> \<forall>t \<in> set ts. wf_token t
   \<Longrightarrow> wf_json v"
proof (induction ts arbitrary: m stk)
  case Nil
  then show ?case by (auto split: pmode.splits if_splits)
next
  case (Cons t ts)
  have empty: "wf_json (JObj [])" by simp
  show ?case
  proof (cases m)
    case (PHave x)
    with Cons show ?thesis
      using wf_dset [of _ x]
      by (cases stk) (auto split: frame.splits token.splits simp del: wf_json.simps(3) dest!: Cons.IH)
  qed (use Cons in \<open>auto split: token.splits if_splits simp: empty simp del: wf_json.simps(3)\<close>)
qed

theorem loads_wf: "loads s = Some v \<Longrightarrow> wf_json v"
  unfolding loads_def bind_eq_Some_conv using scan_wf parse_wf by fastforce

end
