(* ===== verification/Hash_Chain.thy ===== *)
theory Hash_Chain
  imports Json
begin

text \<open>
  \<^verbatim>\<open>common/hash_chain.py\<close>: the tamper-evident JSONL log.  The log file, its anchor
  \<^verbatim>\<open><log>.head\<close> and the \<^verbatim>\<open>.torn\<close> sidecar are the file system \<open>chain_fs\<close>, a
  \<open>HashChainLog\<close> object is \<open>chain_log\<close>, and what the operating system answers during one
  append (a short write, a failed unlink) is \<open>os_answers\<close>.  The digest
  \<^verbatim>\<open>sha256_hex\<close> is the parameter \<open>H\<close> of every definition; no fact below assumes that it
  has no collisions.  File sizes are counted in characters.
\<close>

type_synonym digest = "string \<Rightarrow> string"

definition CHAIN_VERSION :: int where
  "CHAIN_VERSION = 1"

definition genesis_hash :: "digest \<Rightarrow> string \<Rightarrow> string" where
  "genesis_hash H ns =
     H (canonical_json (JObj [(''genesis'', JStr ns), (''version'', JInt CHAIN_VERSION)]))"

definition record_payload :: "jdict \<Rightarrow> string" where
  "record_payload r = canonical_json (JObj (filter (\<lambda>(key, value). key \<noteq> ''hash'') r))"

definition record_hash :: "digest \<Rightarrow> jdict \<Rightarrow> string" where
  "record_hash H r = H (record_payload r)"

subsection \<open>Files and objects\<close>

record chain_fs =
  log :: "string option"
  head_file :: "string option"
  torn_file :: "string option"

record chain_log =
  namespace :: string
  keep_handle :: bool
  handle_open :: bool
  unflushed :: string
  loaded :: bool
  next_seq :: int
  prev_hash :: json
  legacy_linked :: bool
  observed_size :: "nat option"
  anchor_pending_clear :: bool

record os_answers =
  unlink_ok :: bool
  short_write :: "nat option"
  buffer_keeps :: bool
  rollback_ok :: bool
  sidecar_ok :: bool
  fsync_ok :: bool
  anchor_write_ok :: bool

datatype os_error = OSError_short_write | OSError_write | OSError_fsync

definition HashChainLog :: "digest \<Rightarrow> string \<Rightarrow> bool \<Rightarrow> chain_log" where
  "HashChainLog H ns keep =
     \<lparr>namespace = ns, keep_handle = keep, handle_open = False, unflushed = [],
      loaded = False, next_seq = 1, prev_hash = JStr (genesis_hash H ns), legacy_linked = False, observed_size = None,
      anchor_pending_clear = True\<rparr>"

subsection \<open>Reading lines\<close>

text \<open>
  Iteration over a text file in universal-newline mode, each line with its terminator:
  a line ends at \<^verbatim>\<open>\n\<close>, \<^verbatim>\<open>\r\n\<close> or a lone \<^verbatim>\<open>\r\<close>.  The first argument is the current
  line, reversed.
\<close>

fun split_lines :: "string \<Rightarrow> string \<Rightarrow> string list" where
  "split_lines acc [] = (if acc = [] then [] else [rev acc])"
| "split_lines acc (c # cs) =
     (if c = CHR 0x0A then rev (c # acc) # split_lines [] cs
      else if c = CHR 0x0D then
        (case cs of
           d # ds \<Rightarrow> if d = CHR 0x0A then rev (d # c # acc) # split_lines [] ds
                    else rev (c # acc) # split_lines [] cs
         | [] \<Rightarrow> [rev (c # acc)])
      else split_lines (c # acc) cs)"

definition file_lines :: "string \<Rightarrow> string list" where
  "file_lines s = split_lines [] s"

definition nonblank :: "string \<Rightarrow> bool" where
  "nonblank line \<longleftrightarrow> strip line \<noteq> []"

subsection \<open>Loading the head of the chain\<close>

text \<open>\<^verbatim>\<open>isinstance(seq, int)\<close>, under which a Python \<open>bool\<close> counts as an integer.\<close>

definition int_seq :: "json option \<Rightarrow> int option" where
  "int_seq v = (case v of Some (JInt i) \<Rightarrow> Some i
     | Some (JBool b) \<Rightarrow> Some (if b then 1 else 0) | _ \<Rightarrow> None)"

definition scan_line :: "jdict option \<times> int \<Rightarrow> string \<Rightarrow> jdict option \<times> int" where
  "scan_line acc line =
     (if \<not> nonblank line then acc
      else case loads line of
        Some (JObj value) \<Rightarrow>
          (Some value,
           (case int_seq (map_of value ''seq'') of
              Some s \<Rightarrow> max (snd acc) s | None \<Rightarrow> snd acc))
      | _ \<Rightarrow> acc)"

definition scan_log :: "string option \<Rightarrow> jdict option \<times> int" where
  "scan_log f = (case f of None \<Rightarrow> (None, 0) | Some s \<Rightarrow> foldl scan_line (None, 0) (file_lines s))"

definition ensure_loaded :: "digest \<Rightarrow> chain_fs \<Rightarrow> chain_log \<Rightarrow> chain_log" where
  "ensure_loaded H fs st =
     (if loaded st then st
      else case scan_log (log fs) of
        (None, _) \<Rightarrow> st\<lparr>loaded := True\<rparr>
      | (Some last_valid, last_seq) \<Rightarrow>
          (case map_of last_valid ''hash'' of
             Some h \<Rightarrow> st\<lparr>prev_hash := h, legacy_linked := False,
                          next_seq := last_seq + 1, loaded := True\<rparr>
           | None \<Rightarrow> st\<lparr>prev_hash := JStr (record_hash H last_valid), legacy_linked := True,
                        next_seq := last_seq + 1, loaded := True\<rparr>))"

definition reload_if_externally_appended :: "digest \<Rightarrow> chain_fs \<Rightarrow> chain_log \<Rightarrow> chain_log" where
  "reload_if_externally_appended H fs st =
     (if \<not> loaded st then st
      else case log fs of
        None \<Rightarrow> st
      | Some s \<Rightarrow>
          if observed_size st = Some (length s) then st
          else ensure_loaded H fs
                 (st\<lparr>loaded := False, next_seq := 1,
                     prev_hash := JStr (genesis_hash H (namespace st)), legacy_linked := False\<rparr>))"

definition remember_size :: "chain_fs \<Rightarrow> chain_log \<Rightarrow> chain_log" where
  "remember_size fs st = st\<lparr>observed_size := map_option length (log fs)\<rparr>"

subsection \<open>The anchor and the torn tail\<close>

definition drop_stale_anchor :: "os_answers \<Rightarrow> chain_log \<Rightarrow> chain_fs \<Rightarrow> chain_log \<times> chain_fs" where
  "drop_stale_anchor os st fs =
     (if \<not> anchor_pending_clear st then (st, fs)
      else (st\<lparr>anchor_pending_clear := False\<rparr>,
            if unlink_ok os then fs\<lparr>head_file := None\<rparr> else fs))"

text \<open>
  \<open>last_newline_end s\<close> is the position after the last newline of \<open>s\<close>, which the block-wise
  backward scan of \<^verbatim>\<open>_repair_torn_tail\<close> computes (0 when there is none).
\<close>

definition last_newline_end :: "string \<Rightarrow> nat" where
  "last_newline_end s = length (dropWhile (\<lambda>c. c \<noteq> CHR 0x0A) (rev s))"

definition repair_torn_tail :: "os_answers \<Rightarrow> chain_fs \<Rightarrow> chain_fs" where
  "repair_torn_tail os fs =
     (case log fs of
        None \<Rightarrow> fs
      | Some s \<Rightarrow>
          if s = [] then fs
          else if last s = CHR 0x0A then fs
          else let keep = last_newline_end s; torn = drop keep s in
            fs\<lparr>torn_file := (if sidecar_ok os
                 then Some ((case torn_file fs of None \<Rightarrow> [] | Some t \<Rightarrow> t) @ torn @ [CHR 0x0A])
                 else torn_file fs),
               log := Some (take keep s)\<rparr>)"

text \<open>Opening the log for appending, through the kept handle or with \<^verbatim>\<open>O_CREAT\<close>, creates it.\<close>

definition open_log :: "chain_log \<Rightarrow> chain_fs \<Rightarrow> chain_log \<times> chain_fs" where
  "open_log st fs =
     (st\<lparr>handle_open := keep_handle st\<rparr>,
      fs\<lparr>log := Some (case log fs of None \<Rightarrow> [] | Some s \<Rightarrow> s)\<rparr>)"

subsection \<open>Appending\<close>

definition chain_record :: "digest \<Rightarrow> chain_log \<Rightarrow> jdict \<Rightarrow> jdict" where
  "chain_record H st r =
     (let chained = dset ''prev_hash'' (prev_hash st) (dset ''seq'' (JInt (next_seq st)) r);
          chained = (if legacy_linked st \<and> next_seq st = 1
                     then dset ''legacy_linked'' (JBool True) chained else chained)
      in dset ''hash'' (JStr (record_hash H chained)) chained)"

definition record_line :: "jdict \<Rightarrow> string" where
  "record_line r = canonical_json (JObj r) @ [CHR 0x0A]"

text \<open>
  The write itself.  A short \<^verbatim>\<open>os.write\<close> is rolled back by truncation and raised.  A kept handle
  is buffered: its flush writes first what an earlier failed flush left in the buffer, and when
  it fails the bytes that reached the file stay there and the rest stays in the buffer (the rest
  of the record only if it had been copied to the buffer, which a record longer than the buffer
  has not).  The last component is the buffer afterwards.
\<close>

definition write_payload ::
    "os_answers \<Rightarrow> bool \<Rightarrow> bool \<Rightarrow> string \<Rightarrow> string \<Rightarrow> string \<Rightarrow> (os_error + unit) \<times> string \<times> string" where
  "write_payload os keep sync buffer s payload =
     (let bytes = (if keep then buffer @ payload else payload) in
      case short_write os of
        Some k \<Rightarrow>
          let n = min k (length bytes - 1) in
          if keep
          then (Inl OSError_write, s @ take n bytes,
                if buffer_keeps os then drop n bytes else drop n buffer)
          else (Inl OSError_short_write, if rollback_ok os then s else s @ take n bytes, buffer)
      | None \<Rightarrow>
          (if sync \<and> \<not> fsync_ok os then Inl OSError_fsync else Inr (), s @ bytes,
           if keep then [] else buffer))"

text \<open>Flushing a kept handle outside an append; an empty buffer is not written at all.\<close>

definition flush_handle :: "os_answers \<Rightarrow> chain_log \<Rightarrow> chain_fs \<Rightarrow> (os_error + unit) \<times> chain_log \<times> chain_fs" where
  "flush_handle os st fs =
     (if \<not> handle_open st \<or> unflushed st = [] then (Inr (), st, fs)
      else
        let n = (case short_write os of None \<Rightarrow> length (unflushed st) | Some k \<Rightarrow> min k (length (unflushed st) - 1))
        in (if short_write os = None then Inr () else Inl OSError_write,
            st\<lparr>unflushed := drop n (unflushed st)\<rparr>,
            fs\<lparr>log := map_option (\<lambda>s. s @ take n (unflushed st)) (log fs)\<rparr>))"

definition append ::
    "digest \<Rightarrow> os_answers \<Rightarrow> bool \<Rightarrow> jdict \<Rightarrow> chain_log \<Rightarrow> chain_fs
     \<Rightarrow> (os_error + jdict) \<times> chain_log \<times> chain_fs" where
  "append H os sync r st fs =
     (let (st, fs) = drop_stale_anchor os st fs;
          (st, fs) = open_log st fs;
          fs = repair_torn_tail os fs;
          st = reload_if_externally_appended H fs st;
          st = ensure_loaded H fs st;
          chained = chain_record H st r;
          (result, s, rest) = write_payload os (keep_handle st) sync (unflushed st) (the (log fs)) (record_line chained);
          st = st\<lparr>unflushed := rest\<rparr>; fs = fs\<lparr>log := Some s\<rparr>
      in case result of
           Inl e \<Rightarrow> (Inl e, st\<lparr>loaded := False, observed_size := None\<rparr>, fs)
         | Inr _ \<Rightarrow>
             (Inr chained,
              remember_size fs
                (st\<lparr>prev_hash := JStr (record_hash H chained), next_seq := next_seq st + 1\<rparr>),
              fs))"

subsection \<open>Sealing\<close>

definition seal ::
    "digest \<Rightarrow> os_answers \<Rightarrow> string \<Rightarrow> chain_log \<Rightarrow> chain_fs \<Rightarrow> (os_error + jdict) \<times> chain_log \<times> chain_fs" where
  "seal H os now st fs =
     (let st = reload_if_externally_appended H fs st;
          st = ensure_loaded H fs st;
          anchor = [(''seq'', JInt (next_seq st - 1)), (''hash'', prev_hash st),
                    (''sealed_at'', JStr now)];
          (result, st, fs) = flush_handle os st fs
      in case result of
           Inl e \<Rightarrow> (Inl e, st, fs)
         | Inr _ \<Rightarrow>
             if anchor_write_ok os
             then (Inr anchor, st\<lparr>anchor_pending_clear := True\<rparr>,
                   fs\<lparr>head_file := Some (record_line anchor)\<rparr>)
             else (Inr anchor, st, fs))"

definition unseal :: "os_answers \<Rightarrow> chain_fs \<Rightarrow> chain_fs" where
  "unseal os fs = (if unlink_ok os then fs\<lparr>head_file := None\<rparr> else fs)"

text \<open>Closing flushes the buffer; a failure is ignored and the rest of the buffer is lost.\<close>

definition close_log :: "os_answers \<Rightarrow> chain_log \<Rightarrow> chain_fs \<Rightarrow> chain_log \<times> chain_fs" where
  "close_log os st fs =
     (case flush_handle os st fs of (_, st, fs) \<Rightarrow> (st\<lparr>handle_open := False, unflushed := []\<rparr>, fs))"

definition read_anchor :: "chain_fs \<Rightarrow> jdict option" where
  "read_anchor fs =
     (case head_file fs of
        None \<Rightarrow> None
      | Some t \<Rightarrow> (case loads t of Some (JObj value) \<Rightarrow> Some value | _ \<Rightarrow> None))"

subsection \<open>Verification\<close>

datatype chain_failure =
    AnchorWithoutLog
  | Unparseable nat
  | NotAnObject nat
  | UnchainedAfterStart nat
  | InvalidSeq nat
  | SequenceGap nat int int
  | HashMismatch nat
  | DeclaredLegacyMissing nat
  | UndeclaredLegacy nat
  | PrevHashMismatch nat
  | AnchorMismatch

record chain_verification =
  ok :: bool
  records :: nat
  failure :: "chain_failure option"
  anchored :: bool
  anchor_matches :: "bool option"
  torn_tail :: bool

record walk =
  prev_chained_seq :: "int option"
  prev_chained_hash :: "string option"
  last_legacy :: "jdict option"
  chain_started :: bool
  record_count :: nat

definition walk0 :: walk where
  "walk0 = \<lparr>prev_chained_seq = None, prev_chained_hash = None, last_legacy = None,
            chain_started = False, record_count = 0\<rparr>"

text \<open>One parsed record; \<open>Inl (failure, records)\<close> is an early return of \<^verbatim>\<open>verify_chain\<close>.\<close>

definition verify_record ::
    "digest \<Rightarrow> string \<Rightarrow> walk \<Rightarrow> jdict \<Rightarrow> (chain_failure \<times> nat) + walk" where
  "verify_record H ns w value =
     (let index = record_count w + 1; w = w\<lparr>record_count := index\<rparr> in
      case map_of value ''hash'' of
        None \<Rightarrow>
          if chain_started w then Inl (UnchainedAfterStart index, index - 1)
          else Inr (w\<lparr>last_legacy := Some value\<rparr>)
      | Some h \<Rightarrow>
          (case map_of value ''seq'' of
             Some (JInt seq) \<Rightarrow>
               if (case prev_chained_seq w of None \<Rightarrow> False | Some p \<Rightarrow> seq \<noteq> p + 1)
               then Inl (SequenceGap index (the (prev_chained_seq w) + 1) seq, index - 1)
               else if h \<noteq> JStr (record_hash H value) then Inl (HashMismatch index, index - 1)
               else
                 let declared = (map_of value ''legacy_linked'' = Some (JBool True)) in
                 if prev_chained_hash w = None \<and> declared \<and> last_legacy w = None
                 then Inl (DeclaredLegacyMissing index, index - 1)
                 else if prev_chained_hash w = None \<and> \<not> declared \<and> last_legacy w \<noteq> None
                 then Inl (UndeclaredLegacy index, index - 1)
                 else
                   let expected =
                         (case prev_chained_hash w of
                            Some p \<Rightarrow> p
                          | None \<Rightarrow> (case last_legacy w of
                              Some l \<Rightarrow> record_hash H l | None \<Rightarrow> genesis_hash H ns))
                   in if map_of value ''prev_hash'' \<noteq> Some (JStr expected)
                      then Inl (PrevHashMismatch index, index - 1)
                      else Inr (w\<lparr>chain_started := True, prev_chained_seq := Some seq,
                                  prev_chained_hash := Some (record_hash H value)\<rparr>)
           | _ \<Rightarrow> Inl (InvalidSeq index, index - 1)))"

text \<open>The loop over the lines: the final walk and whether a torn tail ended it.\<close>

fun verify_lines ::
    "digest \<Rightarrow> string \<Rightarrow> walk \<Rightarrow> string list \<Rightarrow> (chain_failure \<times> nat) + (walk \<times> bool)" where
  "verify_lines H ns w [] = Inr (w, False)"
| "verify_lines H ns w (line # lines) =
     (if \<not> nonblank line then verify_lines H ns w lines
      else case loads line of
        None \<Rightarrow>
          if \<not> ends_with [CHR 0x0A] line then Inr (w, True)
          else Inl (Unparseable (record_count w + 1), record_count w)
      | Some (JObj value) \<Rightarrow>
          (case verify_record H ns w value of
             Inl f \<Rightarrow> Inl f
           | Inr w' \<Rightarrow> verify_lines H ns w' lines)
      | Some _ \<Rightarrow> Inl (NotAnObject (record_count w + 1), record_count w))"

text \<open>Python's \<open>==\<close> between an optional integer or string and an optional JSON value.\<close>

definition seq_eq :: "int option \<Rightarrow> json option \<Rightarrow> bool" where
  "seq_eq p v = (case p of
       None \<Rightarrow> v = None \<or> v = Some JNull
     | Some i \<Rightarrow> v = Some (JInt i) \<or> (i = 1 \<and> v = Some (JBool True)) \<or> (i = 0 \<and> v = Some (JBool False)))"

definition hash_eq :: "string option \<Rightarrow> json option \<Rightarrow> bool" where
  "hash_eq p v = (case p of None \<Rightarrow> v = None \<or> v = Some JNull | Some h \<Rightarrow> v = Some (JStr h))"

definition verify_chain ::
    "digest \<Rightarrow> string option \<Rightarrow> string \<Rightarrow> jdict option \<Rightarrow> chain_verification" where
  "verify_chain H f ns anchor =
     (case f of
        None \<Rightarrow>
          (case anchor of
             Some _ \<Rightarrow> \<lparr>ok = False, records = 0, failure = Some AnchorWithoutLog, anchored = True,
                        anchor_matches = Some False, torn_tail = False\<rparr>
           | None \<Rightarrow> \<lparr>ok = True, records = 0, failure = None, anchored = False,
                      anchor_matches = None, torn_tail = False\<rparr>)
      | Some s \<Rightarrow>
          (case verify_lines H ns walk0 (file_lines s) of
             Inl (e, n) \<Rightarrow> \<lparr>ok = False, records = n, failure = Some e, anchored = False,
                            anchor_matches = None, torn_tail = False\<rparr>
           | Inr (w, torn) \<Rightarrow>
               (case anchor of
                  None \<Rightarrow> \<lparr>ok = True, records = record_count w, failure = None, anchored = False,
                           anchor_matches = None, torn_tail = torn\<rparr>
                | Some a \<Rightarrow>
                    if seq_eq (prev_chained_seq w) (map_of a ''seq'')
                       \<and> hash_eq (prev_chained_hash w) (map_of a ''hash'')
                    then \<lparr>ok = True, records = record_count w, failure = None, anchored = True,
                          anchor_matches = Some True, torn_tail = torn\<rparr>
                    else \<lparr>ok = False, records = record_count w, failure = Some AnchorMismatch,
                          anchored = True, anchor_matches = Some False, torn_tail = torn\<rparr>)))"

definition verify :: "digest \<Rightarrow> chain_log \<Rightarrow> jdict option \<Rightarrow> chain_fs \<Rightarrow> chain_verification" where
  "verify H st anchor fs =
     verify_chain H (log fs) (namespace st)
       (case anchor of Some a \<Rightarrow> Some a | None \<Rightarrow> read_anchor fs)"

subsection \<open>Lines and records of a written log\<close>

definition log_text :: "jdict list \<Rightarrow> string" where
  "log_text rs = concat (map record_line rs)"

text \<open>A record as reading it back gives it: keys sorted at every level.\<close>

definition stored :: "jdict \<Rightarrow> jdict" where
  "stored r = sort_key fst (map (\<lambda>(k, v). (k, canon v)) r)"

abbreviation wf_record :: "jdict \<Rightarrow> bool" where
  "wf_record r \<equiv> wf_json (JObj r)"

lemma log_text_simps [simp]:
  "log_text [] = []"
  "log_text (r # rs) = record_line r @ log_text rs"
  "log_text (rs @ rs') = log_text rs @ log_text rs'"
  by (simp_all add: log_text_def)

lemma canon_obj: "canon (JObj r) = JObj (stored r)"
  by (simp add: stored_def)

lemma record_line_stored [simp]: "record_line (stored r) = record_line r"
  unfolding record_line_def canon_obj [symmetric] by (simp only: canonical_canon)

lemma stored_stored [simp]: "stored (stored r) = stored r"
  using canon_canon [of "JObj r"] unfolding canon_obj by simp

lemma wf_stored: "wf_record r \<Longrightarrow> wf_record (stored r)"
  using wf_canon [of "JObj r"] unfolding canon_obj by blast

lemma map_of_stored:
  assumes "distinct (map fst r)"
  shows "map_of (stored r) k = map_option canon (map_of r k)"
proof -
  let ?m = "map (\<lambda>(k, v). (k, canon v)) r"
  have "distinct (map fst ?m)" using assms by (simp add: comp_def split_def)
  moreover from this have "distinct (map fst (stored r))"
    by (simp add: stored_def distinct_keys_sort del: map_map)
  ultimately have "map_of (stored r) = map_of ?m"
    by (simp add: map_of_inject_set stored_def del: map_map)
  then show ?thesis by (simp add: map_of_map)
qed


lemma record_hash_stored [simp]: "record_hash H (stored r) = record_hash H r"
proof -
  have "filter (\<lambda>(k, v). k \<noteq> ''hash'') (stored r) = stored (filter (\<lambda>(k, v). k \<noteq> ''hash'') r)"
    by (simp add: stored_def filter_sort filter_map comp_def split_def)
  then show ?thesis
    using record_line_stored by (simp add: record_hash_def record_payload_def record_line_def)
qed

lemma split_lines_line:
  "line_safe t \<Longrightarrow> split_lines acc (t @ CHR 0x0A # s) = (rev acc @ t @ [CHR 0x0A]) # split_lines [] s"
  by (induction t arbitrary: acc) auto

lemma file_lines_log_text:
  "\<forall>r \<in> set rs. wf_record r \<Longrightarrow> file_lines (log_text rs @ s) = map record_line rs @ file_lines s"
proof (induction rs)
  case Nil
  then show ?case by simp
next
  case (Cons r rs)
  then have "line_safe (canonical_json (JObj r))" by (intro line_safe_canonical) simp
  with Cons show ?case
    by (simp add: file_lines_def record_line_def split_lines_line del: canonical_json.simps)
qed

lemma loads_record_line: "wf_record r \<Longrightarrow> loads (record_line r) = Some (JObj (stored r))"
  unfolding record_line_def canon_obj [symmetric]
  by (rule loads_canonical) (simp_all add: json_ws_def code_def)

lemma nonblank_brace: "nonblank (CHR ''{'' # s)"
proof -
  have "\<not> py_space CHR ''{''" by (simp add: py_space_def code_def)
  then have "CHR ''{'' \<in> set (rstrip (lstrip (CHR ''{'' # s)))"
    by (auto simp: rstrip_def lstrip_def dropWhile_append)
  then show ?thesis by (auto simp: nonblank_def strip_def)
qed

lemma nonblank_record_line [simp]: "nonblank (record_line r)"
  by (simp add: record_line_def nonblank_brace)

lemma ends_record_line [simp]: "ends_with [CHR 0x0A] (record_line r)"
  by (simp only: record_line_def ends_with_append)

lemma record_line_nonempty [simp]: "record_line r \<noteq> []"
  by (simp add: record_line_def)

text \<open>Walking the lines of written records is folding \<open>verify_record\<close> over the records.\<close>

fun fold_res :: "('s \<Rightarrow> 'a \<Rightarrow> 'e + 's) \<Rightarrow> 's \<Rightarrow> 'a list \<Rightarrow> 'e + 's" where
  "fold_res f s [] = Inr s"
| "fold_res f s (x # xs) = (case f s x of Inl e \<Rightarrow> Inl e | Inr s' \<Rightarrow> fold_res f s' xs)"

lemma fold_res_append:
  "fold_res f s (xs @ ys) = (case fold_res f s xs of Inl e \<Rightarrow> Inl e | Inr s' \<Rightarrow> fold_res f s' ys)"
  by (induction xs arbitrary: s) (auto split: sum.splits)

lemma verify_lines_records:
  "\<forall>r \<in> set rs. wf_record r \<Longrightarrow>
   verify_lines H ns w (map record_line rs @ ls) =
     (case fold_res (verify_record H ns) w (map stored rs) of
        Inl f \<Rightarrow> Inl f | Inr w' \<Rightarrow> verify_lines H ns w' ls)"
  by (induction rs arbitrary: w) (auto simp: loads_record_line split: sum.splits)

lemma scan_lines_records:
  "\<forall>r \<in> set rs. wf_record r \<Longrightarrow>
   foldl scan_line acc (map record_line rs) = foldl (\<lambda>acc r. (Some r,
      case int_seq (map_of r ''seq'') of Some s \<Rightarrow> max (snd acc) s | None \<Rightarrow> snd acc)) acc (map stored rs)"
  by (induction rs arbitrary: acc) (auto simp: scan_line_def loads_record_line)


subsection \<open>What a valid log is\<close>

text \<open>
  The abstract contract: a run of records, each with a consecutive integer \<open>seq\<close>, its own
  hash, and the hash of its predecessor.
\<close>

fun chain_ok :: "digest \<Rightarrow> string \<Rightarrow> int option \<Rightarrow> jdict list \<Rightarrow> bool" where
  "chain_ok H p q [] \<longleftrightarrow> True"
| "chain_ok H p q (r # rs) \<longleftrightarrow>
     (case map_of r ''seq'' of
        Some (JInt s) \<Rightarrow>
          (case q of None \<Rightarrow> True | Some q' \<Rightarrow> s = q' + 1)
          \<and> map_of r ''hash'' = Some (JStr (record_hash H r))
          \<and> map_of r ''prev_hash'' = Some (JStr p)
          \<and> chain_ok H (record_hash H r) (Some s) rs
      | _ \<Rightarrow> False)"

definition declares_legacy :: "jdict \<Rightarrow> bool" where
  "declares_legacy r \<longleftrightarrow> map_of r ''legacy_linked'' = Some (JBool True)"

definition chain_root :: "digest \<Rightarrow> string \<Rightarrow> jdict list \<Rightarrow> string" where
  "chain_root H ns legacy =
     (if legacy = [] then genesis_hash H ns else record_hash H (last legacy))"

definition valid_log :: "digest \<Rightarrow> string \<Rightarrow> jdict list \<Rightarrow> jdict list \<Rightarrow> bool" where
  "valid_log H ns legacy chained \<longleftrightarrow>
     (\<forall>l \<in> set legacy. map_of l ''hash'' = None)
     \<and> (chained \<noteq> [] \<longrightarrow> (declares_legacy (hd chained) \<longleftrightarrow> legacy \<noteq> []))
     \<and> chain_ok H (chain_root H ns legacy) None chained"

definition seq_of :: "jdict \<Rightarrow> int" where
  "seq_of r = (case map_of r ''seq'' of Some (JInt s) \<Rightarrow> s | _ \<Rightarrow> 0)"

text \<open>The walk after a started chain has been followed to its end.\<close>

definition walk_to :: "digest \<Rightarrow> walk \<Rightarrow> jdict list \<Rightarrow> walk" where
  "walk_to H w rs =
     (if rs = [] then w
      else w\<lparr>chain_started := True, prev_chained_seq := Some (seq_of (last rs)),
             prev_chained_hash := Some (record_hash H (last rs)),
             record_count := record_count w + length rs\<rparr>)"

lemma walk_to_Cons:
  "walk_to H (walk_to H w [r]) rs = walk_to H w (r # rs)"
  by (cases w) (auto simp: walk_to_def)

text \<open>The expectation that the next chained record has to meet in state \<open>w\<close>.\<close>

definition expected_prev :: "digest \<Rightarrow> string \<Rightarrow> walk \<Rightarrow> string" where
  "expected_prev H ns w =
     (case prev_chained_hash w of Some p \<Rightarrow> p
      | None \<Rightarrow> (case last_legacy w of Some l \<Rightarrow> record_hash H l | None \<Rightarrow> genesis_hash H ns))"

definition legacy_rule :: "walk \<Rightarrow> jdict \<Rightarrow> bool" where
  "legacy_rule w r \<longleftrightarrow> prev_chained_hash w = None \<longrightarrow> (declares_legacy r \<longleftrightarrow> last_legacy w \<noteq> None)"

lemma verify_record_chained:
  assumes "map_of r ''hash'' = Some h"
  shows "verify_record H ns w r = Inr w' \<longleftrightarrow>
     legacy_rule w r \<and> chain_ok H (expected_prev H ns w) (prev_chained_seq w) [r] \<and> w' = walk_to H w [r]"
  using assms
  by (cases w)
    (auto simp: verify_record_def legacy_rule_def expected_prev_def declares_legacy_def walk_to_def
      seq_of_def Let_def split: option.splits json.splits if_splits)

lemma verify_record_legacy:
  assumes "map_of r ''hash'' = None"
  shows "verify_record H ns w r = Inr w' \<longleftrightarrow>
     \<not> chain_started w \<and> w' = w\<lparr>record_count := record_count w + 1, last_legacy := Some r\<rparr>"
  using assms by (auto simp: verify_record_def Let_def)

lemma chain_ok_Cons:
  "chain_ok H p q (r # rs) \<longleftrightarrow>
     chain_ok H p q [r] \<and> chain_ok H (record_hash H r) (Some (seq_of r)) rs"
  by (auto simp: seq_of_def split: option.splits json.splits)

lemma chain_ok_hash: "chain_ok H p q rs \<Longrightarrow> r \<in> set rs \<Longrightarrow> map_of r ''hash'' = Some (JStr (record_hash H r))"
  by (induction rs arbitrary: p q) (auto split: option.splits json.splits)

text \<open>Inside the chain, the walk succeeds exactly on a valid continuation.\<close>

lemma verify_started:
  assumes "chain_started w" "prev_chained_hash w = Some p" "prev_chained_seq w = Some q"
  shows "fold_res (verify_record H ns) w rs = Inr w' \<longleftrightarrow>
     chain_ok H p (Some q) rs \<and> w' = walk_to H w rs"
  using assms
proof (induction rs arbitrary: w p q)
  case Nil
  then show ?case by (auto simp: walk_to_def)
next
  case (Cons r rs)
  show ?case
  proof (cases "map_of r ''hash''")
    case None
    then have "verify_record H ns w r = Inr v \<longleftrightarrow> False" for v
      using Cons.prems(1) by (simp add: verify_record_legacy)
    then obtain f where "verify_record H ns w r = Inl f" by (cases "verify_record H ns w r") auto
    with None show ?thesis by (auto split: option.splits json.splits)
  next
    case (Some h)
    have e: "expected_prev H ns w = p" "legacy_rule w r"
      using Cons.prems by (simp_all add: expected_prev_def legacy_rule_def)
    show ?thesis
    proof (cases "chain_ok H p (Some q) [r]")
      case False
      then obtain f where "verify_record H ns w r = Inl f"
        using verify_record_chained [OF Some, of H ns w] e Cons.prems by (cases "verify_record H ns w r") auto
      with False show ?thesis by (simp add: chain_ok_Cons [of H p "Some q" r rs] del: chain_ok.simps)
    next
      case True
      then have v: "verify_record H ns w r = Inr (walk_to H w [r])"
        using verify_record_chained [OF Some, of H ns w] e Cons.prems by simp
      have "chain_started (walk_to H w [r])" "prev_chained_hash (walk_to H w [r]) = Some (record_hash H r)"
        "prev_chained_seq (walk_to H w [r]) = Some (seq_of r)" by (simp_all add: walk_to_def)
      from Cons.IH [OF this] True v show ?thesis
        by (simp add: chain_ok_Cons [of H p "Some q" r rs] walk_to_Cons del: chain_ok.simps)
    qed
  qed
qed

subsection \<open>Verification decides validity\<close>

definition legacy_walk :: "jdict list \<Rightarrow> walk" where
  "legacy_walk legacy = walk0\<lparr>record_count := length legacy,
     last_legacy := (if legacy = [] then None else Some (last legacy))\<rparr>"

lemma verify_legacy_prefix:
  "\<forall>l \<in> set legacy. map_of l ''hash'' = None \<Longrightarrow>
   fold_res (verify_record H ns) walk0 legacy = Inr (legacy_walk legacy)"
proof (induction legacy rule: rev_induct)
  case Nil
  then show ?case by (simp add: legacy_walk_def walk0_def)
next
  case (snoc l legacy)
  then have "verify_record H ns (legacy_walk legacy) l = Inr (legacy_walk (legacy @ [l]))"
    by (subst verify_record_legacy) (auto simp: legacy_walk_def walk0_def)
  with snoc show ?case by (simp add: fold_res_append)
qed

lemma legacy_walk_simps [simp]:
  "prev_chained_hash (legacy_walk l) = None" "prev_chained_seq (legacy_walk l) = None"
  "last_legacy (legacy_walk l) = (if l = [] then None else Some (last l))"
  "expected_prev H ns (legacy_walk l) = chain_root H ns l"
  "record_count (legacy_walk l) = length l"
  by (auto simp: legacy_walk_def walk0_def expected_prev_def chain_root_def)

lemma verify_from_legacy:
  assumes "\<forall>r \<in> set chained. map_of r ''hash'' \<noteq> None"
  shows "fold_res (verify_record H ns) (legacy_walk legacy) chained = Inr w \<longleftrightarrow>
     (chained \<noteq> [] \<longrightarrow> (declares_legacy (hd chained) \<longleftrightarrow> legacy \<noteq> []))
     \<and> chain_ok H (chain_root H ns legacy) None chained \<and> w = walk_to H (legacy_walk legacy) chained"
proof (cases chained)
  case Nil
  then show ?thesis by (auto simp: walk_to_def)
next
  case (Cons r rs)
  with assms obtain h where h: "map_of r ''hash'' = Some h" by auto
  let ?w = "legacy_walk legacy" and ?p = "chain_root H ns legacy"
  have v: "verify_record H ns ?w r = Inr w' \<longleftrightarrow>
     (declares_legacy r \<longleftrightarrow> legacy \<noteq> []) \<and> chain_ok H ?p None [r] \<and> w' = walk_to H ?w [r]" for w'
    using verify_record_chained [OF h, of H ns ?w] by (simp add: legacy_rule_def del: chain_ok.simps)
  have "chain_started (walk_to H ?w [r])" "prev_chained_hash (walk_to H ?w [r]) = Some (record_hash H r)"
    "prev_chained_seq (walk_to H ?w [r]) = Some (seq_of r)" by (simp_all add: walk_to_def)
  note started = verify_started [OF this, of H ns rs]
  show ?thesis
  proof (cases "(declares_legacy r \<longleftrightarrow> legacy \<noteq> []) \<and> chain_ok H ?p None [r]")
    case True
    then have "verify_record H ns ?w r = Inr (walk_to H ?w [r])" using v by simp
    with True Cons started show ?thesis
      by (simp add: chain_ok_Cons [of H ?p None r rs] walk_to_Cons del: chain_ok.simps)
  next
    case False
    then obtain f where "verify_record H ns ?w r = Inl f"
      using v by (cases "verify_record H ns ?w r") auto
    with False Cons show ?thesis
      by (auto simp add: chain_ok_Cons [of H ?p None r rs] simp del: chain_ok.simps)
  qed
qed

lemma verify_mixed:
  assumes "fold_res (verify_record H ns) w rs = Inr w'" "chain_started w"
  shows "\<forall>r \<in> set rs. map_of r ''hash'' \<noteq> None"
  using assms
proof (induction rs arbitrary: w)
  case (Cons r rs)
  then obtain v where v: "verify_record H ns w r = Inr v" "fold_res (verify_record H ns) v rs = Inr w'"
    by (auto split: sum.splits)
  have h: "map_of r ''hash'' \<noteq> None"
    using v(1) Cons.prems(2) verify_record_legacy [of r H ns w v] by auto
  then have "chain_started v" using v(1) verify_record_chained [of r _ H ns w v] by (auto simp: walk_to_def)
  with Cons.IH [OF v(2)] h show ?case by simp
qed simp

theorem verify_records_iff:
  "fold_res (verify_record H ns) walk0 rs = Inr w \<longleftrightarrow>
   (\<exists>legacy chained. rs = legacy @ chained \<and> valid_log H ns legacy chained
      \<and> w = walk_to H (legacy_walk legacy) chained)"
proof
  let ?legacy = "takeWhile (\<lambda>r. map_of r ''hash'' = None) rs"
  let ?chained = "dropWhile (\<lambda>r. map_of r ''hash'' = None) rs"
  assume ok: "fold_res (verify_record H ns) walk0 rs = Inr w"
  have rs: "rs = ?legacy @ ?chained" by simp
  have l: "\<forall>l \<in> set ?legacy. map_of l ''hash'' = None" by (auto dest: set_takeWhileD)
  have c: "fold_res (verify_record H ns) (legacy_walk ?legacy) ?chained = Inr w"
    using ok verify_legacy_prefix [OF l, of H ns]
      fold_res_append [of "verify_record H ns" walk0 ?legacy ?chained] by simp
  have "\<forall>r \<in> set ?chained. map_of r ''hash'' \<noteq> None"
  proof (cases ?chained)
    case (Cons r rs')
    then have r: "map_of r ''hash'' \<noteq> None" by (metis (mono_tags) hd_dropWhile list.discI list.sel(1))
    then obtain v where v: "verify_record H ns (legacy_walk ?legacy) r = Inr v"
        "fold_res (verify_record H ns) v rs' = Inr w"
      using c unfolding Cons by (auto split: sum.splits)
    then have "chain_started v"
      using r verify_record_chained [of r _ H ns "legacy_walk ?legacy" v] by (auto simp: walk_to_def)
    from verify_mixed [OF v(2) this] r show ?thesis unfolding Cons by simp
  next
    case Nil
    show ?thesis unfolding Nil by simp
  qed
  from iffD1 [OF verify_from_legacy [OF this] c] l
  have "valid_log H ns ?legacy ?chained \<and> w = walk_to H (legacy_walk ?legacy) ?chained"
    unfolding valid_log_def by blast
  with rs show "\<exists>legacy chained. rs = legacy @ chained \<and> valid_log H ns legacy chained
      \<and> w = walk_to H (legacy_walk legacy) chained" by blast
next
  assume "\<exists>legacy chained. rs = legacy @ chained \<and> valid_log H ns legacy chained
      \<and> w = walk_to H (legacy_walk legacy) chained"
  then obtain legacy chained where *: "rs = legacy @ chained" "valid_log H ns legacy chained"
      "w = walk_to H (legacy_walk legacy) chained" by blast
  then have "\<forall>r \<in> set chained. map_of r ''hash'' \<noteq> None"
    by (auto simp: valid_log_def dest: chain_ok_hash)
  with * show "fold_res (verify_record H ns) walk0 rs = Inr w"
    using verify_legacy_prefix [of legacy H ns] verify_from_legacy [of chained H ns legacy w]
    by (simp add: fold_res_append valid_log_def)
qed

subsection \<open>Logs the writer extends\<close>

text \<open>
  A good log: records in stored form, valid, numbered from 1, after a legacy prefix without
  \<open>seq\<close> numbers.
\<close>

definition good_log :: "digest \<Rightarrow> string \<Rightarrow> jdict list \<Rightarrow> jdict list \<Rightarrow> bool" where
  "good_log H ns legacy chained \<longleftrightarrow>
     (\<forall>r \<in> set (legacy @ chained). wf_record r \<and> stored r = r)
     \<and> valid_log H ns legacy chained
     \<and> (\<forall>l \<in> set legacy. int_seq (map_of l ''seq'') = None)
     \<and> (chained \<noteq> [] \<longrightarrow> seq_of (hd chained) = 1)"

definition head_of :: "digest \<Rightarrow> string \<Rightarrow> jdict list \<Rightarrow> jdict list \<Rightarrow> int \<times> json \<times> bool" where
  "head_of H ns legacy chained =
     (int (length chained) + 1,
      JStr (if chained = [] then chain_root H ns legacy else record_hash H (last chained)),
      chained = [] \<and> legacy \<noteq> [])"

definition cached_head :: "chain_log \<Rightarrow> int \<times> json \<times> bool" where
  "cached_head st = (next_seq st, prev_hash st, legacy_linked st \<and> next_seq st = 1)"

definition note_record :: "jdict option \<times> int \<Rightarrow> jdict \<Rightarrow> jdict option \<times> int" where
  "note_record acc r =
     (Some r, case int_seq (map_of r ''seq'') of Some s \<Rightarrow> max (snd acc) s | None \<Rightarrow> snd acc)"

lemma good_map_stored: "good_log H ns legacy chained \<Longrightarrow> map stored (legacy @ chained) = legacy @ chained"
  by (intro map_idI) (simp add: good_log_def)

lemma good_wf: "good_log H ns legacy chained \<Longrightarrow> \<forall>r \<in> set (legacy @ chained). wf_record r"
  by (simp add: good_log_def)

lemma scan_log_text:
  assumes "good_log H ns legacy chained"
  shows "scan_log (Some (log_text (legacy @ chained))) = foldl note_record (None, 0) (legacy @ chained)"
  using file_lines_log_text [OF good_wf [OF assms], of "[]"] scan_lines_records [OF good_wf [OF assms]]
    good_map_stored [OF assms]
  by (simp add: scan_log_def file_lines_def note_record_def [abs_def])

lemma seq_of_int: "chain_ok H p q (r # rs) \<Longrightarrow> int_seq (map_of r ''seq'') = Some (seq_of r)"
  by (auto simp: int_seq_def seq_of_def split: option.splits json.splits)

lemma note_chain:
  "chain_ok H p (Some q) rs \<Longrightarrow>
   foldl note_record (x, q) rs = (if rs = [] then x else Some (last rs), q + int (length rs))"
proof (induction rs arbitrary: p q x)
  case (Cons r rs)
  have s: "seq_of r = q + 1" using Cons.prems by (auto simp: seq_of_def split: option.splits json.splits)
  then have "note_record (x, q) r = (Some r, q + 1)"
    using seq_of_int [OF Cons.prems] by (simp add: note_record_def)
  moreover have "chain_ok H (record_hash H r) (Some (q + 1)) rs"
    using Cons.prems s by (subst (asm) chain_ok_Cons) simp
  ultimately show ?case using Cons.IH by simp
qed simp

lemma note_legacy:
  "\<forall>l \<in> set legacy. int_seq (map_of l ''seq'') = None \<Longrightarrow>
   foldl note_record (x, n) legacy = (if legacy = [] then x else Some (last legacy), n)"
  by (induction legacy arbitrary: x) (auto simp: note_record_def)

lemma note_good:
  assumes "good_log H ns legacy chained"
  shows "foldl note_record (None, 0) (legacy @ chained) =
     (if legacy @ chained = [] then None else Some (last (legacy @ chained)), int (length chained))"
proof (cases chained)
  case Nil
  with assms show ?thesis by (simp add: note_legacy good_log_def)
next
  case (Cons r rs)
  with assms have ok: "chain_ok H (chain_root H ns legacy) None (r # rs)" and s: "seq_of r = 1"
    and l: "\<forall>l \<in> set legacy. int_seq (map_of l ''seq'') = None"
    by (simp_all add: good_log_def valid_log_def)
  have "note_record (x, 0) r = (Some r, 1)" for x
    using seq_of_int [OF ok] s by (simp add: note_record_def)
  moreover have "chain_ok H (record_hash H r) (Some 1) rs"
    using ok s by (subst (asm) chain_ok_Cons) simp
  ultimately show ?thesis using Cons note_legacy [OF l, of None 0] note_chain [of H _ 1 rs "Some r"]
    by (auto simp: last_append)
qed

lemma chain_ok_seq_of:
  "chain_ok H p (Some q) rs \<Longrightarrow> rs \<noteq> [] \<Longrightarrow> seq_of (last rs) = q + int (length rs)"
proof (induction rs arbitrary: p q)
  case (Cons r rs)
  have s: "seq_of r = q + 1" using Cons.prems by (auto simp: seq_of_def split: option.splits json.splits)
  moreover have "chain_ok H (record_hash H r) (Some (q + 1)) rs"
    using Cons.prems s by (subst (asm) chain_ok_Cons) simp
  ultimately show ?case using Cons.IH by auto
qed simp

lemma good_last_seq:
  assumes "good_log H ns legacy chained" "chained \<noteq> []"
  shows "seq_of (last chained) = int (length chained)"
proof -
  obtain r rs where c: "chained = r # rs" using assms(2) by (cases chained) auto
  with assms have "chain_ok H (chain_root H ns legacy) None (r # rs)" and s: "seq_of r = 1"
    by (simp_all add: good_log_def valid_log_def)
  then have "chain_ok H (record_hash H r) (Some 1) rs"
    by (subst (asm) chain_ok_Cons) simp
  from chain_ok_seq_of [OF this] s c show ?thesis by auto
qed

text \<open>Loading a good log recovers its head.\<close>

lemma load_good:
  assumes good: "good_log H ns legacy chained" and fs: "log fs = Some (log_text (legacy @ chained))"
    and st: "\<not> loaded st" "legacy @ chained = [] \<Longrightarrow> cached_head st = head_of H ns [] []"
  shows "cached_head (ensure_loaded H fs st) = head_of H ns legacy chained
     \<and> loaded (ensure_loaded H fs st)"
proof (cases "legacy @ chained = []")
  case True
  with assms show ?thesis
    by (auto simp: ensure_loaded_def scan_log_def file_lines_def cached_head_def head_of_def)
next
  case False
  have scan: "scan_log (log fs) = (Some (last (legacy @ chained)), int (length chained))"
    using False fs note_good [OF good] scan_log_text [OF good] by simp
  have hash: "map_of (last (legacy @ chained)) ''hash'' =
      (if chained = [] then None else Some (JStr (record_hash H (last chained))))"
    using good False chain_ok_hash [of H "chain_root H ns legacy" None chained "last chained"]
    by (auto simp: good_log_def valid_log_def last_append)
  show ?thesis
    using False st(1) scan hash
    by (auto simp: ensure_loaded_def cached_head_def head_of_def chain_root_def last_append)
qed

subsection \<open>Appending extends a good log\<close>

lemma chain_ok_snoc:
  "chain_ok H p q (rs @ [r]) \<longleftrightarrow> chain_ok H p q rs \<and>
     chain_ok H (if rs = [] then p else record_hash H (last rs))
       (if rs = [] then q else Some (seq_of (last rs))) [r]"
proof (induction rs arbitrary: p q)
  case (Cons x rs)
  then show ?case
    by (simp only: append_Cons chain_ok_Cons [of H p q x "rs @ [r]"] chain_ok_Cons [of H p q x rs])
      (auto simp del: chain_ok.simps)
qed simp

lemma chain_record_fields:
  assumes "''legacy_linked'' \<notin> set (dkeys r)"
  shows "map_of (chain_record H st r) ''seq'' = Some (JInt (next_seq st))"
    and "map_of (chain_record H st r) ''prev_hash'' = Some (prev_hash st)"
    and "map_of (chain_record H st r) ''hash'' = Some (JStr (record_hash H (chain_record H st r)))"
    and "declares_legacy (chain_record H st r) \<longleftrightarrow> legacy_linked st \<and> next_seq st = 1"
proof -
  have hash: "record_hash H (dset ''hash'' h d) = record_hash H d" for h and d :: jdict
    unfolding record_hash_def record_payload_def
    by (rule arg_cong [where f = "\<lambda>d. H (canonical_json (JObj d))"]) (induction d; auto)
  show "map_of (chain_record H st r) ''hash'' = Some (JStr (record_hash H (chain_record H st r)))"
    by (simp add: chain_record_def Let_def hash)
  have "map_of r ''legacy_linked'' = None" using assms by (auto simp: map_of_eq_None_iff)
  then show "declares_legacy (chain_record H st r) \<longleftrightarrow> legacy_linked st \<and> next_seq st = 1"
    by (simp add: chain_record_def Let_def declares_legacy_def)
qed (simp_all add: chain_record_def Let_def)

lemma wf_chain_record:
  "wf_record r \<Longrightarrow> wf_json (prev_hash st) \<Longrightarrow> wf_record (chain_record H st r)"
  unfolding chain_record_def Let_def by (auto intro!: wf_dset simp del: wf_json.simps(3))

lemma stored_fields:
  assumes "wf_record c" "map_of c ''seq'' = Some (JInt s)" "map_of c ''prev_hash'' = Some (JStr p)"
    "map_of c ''hash'' = Some (JStr h)"
  shows "map_of (stored c) ''seq'' = Some (JInt s)" "map_of (stored c) ''prev_hash'' = Some (JStr p)"
    "map_of (stored c) ''hash'' = Some (JStr h)" "declares_legacy (stored c) \<longleftrightarrow> declares_legacy c"
proof -
  have "canon v = JBool True \<longleftrightarrow> v = JBool True" for v by (cases v) auto
  then show "declares_legacy (stored c) \<longleftrightarrow> declares_legacy c"
    using assms(1) by (auto simp: declares_legacy_def map_of_stored)
qed (use assms in \<open>simp_all add: map_of_stored\<close>)

theorem extend_good:
  assumes good: "good_log H ns legacy chained"
    and head: "cached_head st = head_of H ns legacy chained"
    and r: "wf_record r" "''legacy_linked'' \<notin> set (dkeys r)"
  shows "good_log H ns legacy (chained @ [stored (chain_record H st r)])"
proof -
  let ?c = "chain_record H st r" and ?p = "chain_root H ns legacy"
  let ?prev = "if chained = [] then ?p else record_hash H (last chained)"
  from head have st: "next_seq st = int (length chained) + 1" "prev_hash st = JStr ?prev"
    "legacy_linked st \<and> next_seq st = 1 \<longleftrightarrow> chained = [] \<and> legacy \<noteq> []"
    by (auto simp: cached_head_def head_of_def)
  have wf: "wf_record ?c" using r st(2) by (intro wf_chain_record) simp_all
  note c = stored_fields [OF wf, where s = "next_seq st" and p = ?prev and h = "record_hash H ?c"]
    chain_record_fields [OF r(2), of H st]
  have ok: "chain_ok H ?p None (chained @ [stored ?c])"
    using good good_last_seq [OF good] c st by (auto simp: chain_ok_snoc good_log_def valid_log_def)
  have decl: "declares_legacy (hd (chained @ [stored ?c])) \<longleftrightarrow> legacy \<noteq> []"
    using good c st by (cases chained) (auto simp: good_log_def valid_log_def)
  have "seq_of (hd (chained @ [stored ?c])) = 1"
    using good c st by (cases chained) (auto simp: good_log_def seq_of_def)
  moreover have "wf_record (stored ?c)" using wf by (rule wf_stored)
  ultimately show ?thesis
    using good ok decl by (auto simp: good_log_def valid_log_def simp del: wf_json.simps(3))
qed


subsection \<open>Several writers on one log\<close>

text \<open>
  What holds of each \<open>HashChainLog\<close> object on a log with records \<open>legacy @ chained\<close>: its cached
  head belongs to a prefix of the log, the one its remembered size measures.
\<close>

definition writer_head :: "digest \<Rightarrow> string \<Rightarrow> jdict list \<Rightarrow> jdict list \<Rightarrow> chain_log \<Rightarrow> bool" where
  "writer_head H ns legacy chained st \<longleftrightarrow>
     namespace st = ns
     \<and> (legacy @ chained = [] \<longrightarrow> cached_head st = head_of H ns [] [])
     \<and> (loaded st \<longrightarrow> observed_size st = None \<or>
          (\<exists>k. k \<le> length chained \<and> observed_size st = Some (length (log_text (legacy @ take k chained)))
             \<and> cached_head st = head_of H ns legacy (take k chained)))"

text \<open>Nothing is left in its buffer either.\<close>

definition writer_ok :: "digest \<Rightarrow> string \<Rightarrow> jdict list \<Rightarrow> jdict list \<Rightarrow> chain_log \<Rightarrow> bool" where
  "writer_ok H ns legacy chained st \<longleftrightarrow> unflushed st = [] \<and> writer_head H ns legacy chained st"

text \<open>The log file: the records, then possibly the fragment of a torn write.\<close>

definition log_holds :: "chain_fs \<Rightarrow> jdict list \<Rightarrow> string \<Rightarrow> bool" where
  "log_holds fs rs frag \<longleftrightarrow> CHR 0x0A \<notin> set frag \<and>
     (case log fs of None \<Rightarrow> rs = [] \<and> frag = [] | Some s \<Rightarrow> s = log_text rs @ frag)"

lemma log_text_last: "rs \<noteq> [] \<Longrightarrow> last (log_text rs) = CHR 0x0A"
proof (induction rs rule: rev_induct)
  case (snoc r rs)
  then show ?case by (simp add: record_line_def del: canonical_json.simps)
qed simp

lemma log_text_nonempty [simp]: "log_text rs = [] \<longleftrightarrow> rs = []"
  by (cases rs) auto

lemma last_newline_end_frag:
  assumes "CHR 0x0A \<notin> set frag"
  shows "last_newline_end (log_text rs @ frag) = length (log_text rs)"
proof -
  have "dropWhile (\<lambda>c. c \<noteq> CHR 0x0A) (rev frag @ rev (log_text rs))
      = dropWhile (\<lambda>c. c \<noteq> CHR 0x0A) (rev (log_text rs))"
    using assms by (auto simp: dropWhile_append)
  moreover have "dropWhile (\<lambda>c. c \<noteq> CHR 0x0A) (rev (log_text rs)) = rev (log_text rs)"
  proof (cases "rs = []")
    case False
    then obtain s where "log_text rs = s @ [CHR 0x0A]"
      using log_text_last log_text_nonempty by (metis append_butlast_last_id)
    then show ?thesis by simp
  qed simp
  ultimately show ?thesis by (simp add: last_newline_end_def)
qed

text \<open>Repair removes exactly the fragment, and preserves it in the sidecar.\<close>

theorem repair_torn:
  assumes "log fs = Some (log_text rs @ frag)" "CHR 0x0A \<notin> set frag"
  shows "log (repair_torn_tail os fs) = Some (log_text rs)"
    and "frag \<noteq> [] \<Longrightarrow> sidecar_ok os \<Longrightarrow>
      torn_file (repair_torn_tail os fs)
        = Some ((case torn_file fs of None \<Rightarrow> [] | Some t \<Rightarrow> t) @ frag @ [CHR 0x0A])"
proof -
  have "frag = [] \<Longrightarrow> log_text rs \<noteq> [] \<Longrightarrow> last (log_text rs) = CHR 0x0A"
    by (simp add: log_text_last)
  moreover have "frag \<noteq> [] \<Longrightarrow> last (log_text rs @ frag) \<noteq> CHR 0x0A"
    using assms(2) by (auto dest: last_in_set)
  ultimately show "log (repair_torn_tail os fs) = Some (log_text rs)"
    and "frag \<noteq> [] \<Longrightarrow> sidecar_ok os \<Longrightarrow>
      torn_file (repair_torn_tail os fs)
        = Some ((case torn_file fs of None \<Rightarrow> [] | Some t \<Rightarrow> t) @ frag @ [CHR 0x0A])"
    using assms(1)
    by (cases "frag = []"; auto simp: repair_torn_tail_def Let_def last_newline_end_frag [OF assms(2)])+
qed

lemma log_text_take_length:
  assumes "length (log_text (legacy @ take k chained)) = length (log_text (legacy @ chained))"
  shows "take k chained = chained"
proof -
  have "log_text chained = log_text (take k chained) @ log_text (drop k chained)"
    by (metis append_take_drop_id log_text_simps(3))
  with assms have "log_text (drop k chained) = []" by simp
  then show ?thesis by simp
qed

lemma ensure_loaded_idem [simp]: "loaded st \<Longrightarrow> ensure_loaded H fs st = st"
  by (simp add: ensure_loaded_def)

lemma ensure_loaded_frame [simp]:
  "namespace (ensure_loaded H fs st) = namespace st"
  "keep_handle (ensure_loaded H fs st) = keep_handle st"
  "observed_size (ensure_loaded H fs st) = observed_size st"
  "unflushed (ensure_loaded H fs st) = unflushed st"
  "handle_open (ensure_loaded H fs st) = handle_open st"
  by (auto simp: ensure_loaded_def split: option.splits prod.splits)

lemma reload_frame [simp]:
  "namespace (reload_if_externally_appended H fs st) = namespace st"
  "keep_handle (reload_if_externally_appended H fs st) = keep_handle st"
  "observed_size (reload_if_externally_appended H fs st) = observed_size st"
  "unflushed (reload_if_externally_appended H fs st) = unflushed st"
  "handle_open (reload_if_externally_appended H fs st) = handle_open st"
  by (auto simp: reload_if_externally_appended_def split: option.splits)

text \<open>Whatever a writer has cached, the head it works with is the head of the file.\<close>

lemma refresh_head:
  assumes good: "good_log H ns legacy chained" and fs: "log fs = Some (log_text (legacy @ chained))"
    and w: "writer_head H ns legacy chained st"
  shows "cached_head (ensure_loaded H fs (reload_if_externally_appended H fs st)) = head_of H ns legacy chained
     \<and> loaded (ensure_loaded H fs (reload_if_externally_appended H fs st))"
proof (cases "loaded st")
  case False
  with assms show ?thesis
    using load_good [OF good fs False] by (simp add: reload_if_externally_appended_def writer_head_def)
next
  case True
  show ?thesis
  proof (cases "observed_size st = Some (length (log_text (legacy @ chained)))")
    case same: True
    with True w obtain k where "length (log_text (legacy @ take k chained)) = length (log_text (legacy @ chained))"
      and h: "cached_head st = head_of H ns legacy (take k chained)"
      unfolding writer_head_def by (metis option.inject option.distinct(1))
    from this(1) have "take k chained = chained" by (rule log_text_take_length)
    with same True fs h show ?thesis by (simp add: reload_if_externally_appended_def)
  next
    case False
    let ?st = "st\<lparr>loaded := False, next_seq := 1,
        prev_hash := JStr (genesis_hash H (namespace st)), legacy_linked := False\<rparr>"
    have r: "reload_if_externally_appended H fs st = ensure_loaded H fs ?st"
      using True False fs by (auto simp: reload_if_externally_appended_def)
    have "cached_head ?st = head_of H ns [] []"
      using w by (simp add: cached_head_def head_of_def writer_head_def chain_root_def)
    then show ?thesis using load_good [OF good fs, of ?st] r by simp
  qed
qed



lemma write_payload_cases:
  assumes "write_payload os keep sync [] s (record_line c) = (res, s', rest)" "wf_record c"
    and "keep \<longrightarrow> short_write os = None"
  shows "rest = [] \<and> (res = Inr () \<and> s' = s @ record_line c \<or>
     (\<exists>e frag. res = Inl e \<and> s' = s @ frag \<and> (CHR 0x0A \<notin> set frag \<or> frag = record_line c)))"
proof -
  have "line_safe (canonical_json (JObj c))" using assms(2) by (rule line_safe_canonical)
  then have safe: "CHR 0x0A \<notin> set (take k (canonical_json (JObj c)))" for k
    unfolding line_safe_def by (meson in_set_takeD)
  have "take (min k (length (record_line c) - 1)) (record_line c) = take k (canonical_json (JObj c))" for k
    by (simp add: record_line_def min_def del: canonical_json.simps)
  with assms(1,3) safe show ?thesis
    by (auto simp: write_payload_def Let_def split: option.splits if_splits)
qed

text \<open>
  Before it writes, an append has repaired the log and works with its head, whatever the
  writer had cached.
\<close>

lemma next_seq_unflushed: "next_seq (st\<lparr>unflushed := rest\<rparr>) = next_seq st"
  by simp

lemma append_prepare:
  assumes good: "good_log H ns legacy chained" and fs: "log_holds fs (legacy @ chained) frag"
    and w: "writer_head H ns legacy chained st"
  obtains st3 fs3 where
    "append H os sync r st fs =
       (let (res, s, rest) = write_payload os (keep_handle st) sync (unflushed st) (log_text (legacy @ chained))
                         (record_line (chain_record H st3 r)) in
        case res of
          Inl e \<Rightarrow> (Inl e, st3\<lparr>unflushed := rest, loaded := False, observed_size := None\<rparr>, fs3\<lparr>log := Some s\<rparr>)
        | Inr _ \<Rightarrow> (Inr (chain_record H st3 r), remember_size (fs3\<lparr>log := Some s\<rparr>)
            (st3\<lparr>unflushed := rest, prev_hash := JStr (record_hash H (chain_record H st3 r)), next_seq := next_seq st3 + 1\<rparr>),
            fs3\<lparr>log := Some s\<rparr>))"
    "cached_head st3 = head_of H ns legacy chained" "namespace st3 = ns" "keep_handle st3 = keep_handle st"
proof -
  obtain st1 fs1 where d: "drop_stale_anchor os st fs = (st1, fs1)" by fastforce
  obtain st2 fs2 where o: "open_log st1 fs1 = (st2, fs2)" by fastforce
  define fs3 where "fs3 = repair_torn_tail os fs2"
  define st3 where "st3 = ensure_loaded H fs3 (reload_if_externally_appended H fs3 st2)"
  have "log fs1 = log fs" "cached_head st2 = cached_head st" "loaded st2 = loaded st"
    "namespace st2 = namespace st" "observed_size st2 = observed_size st" and p: "unflushed st2 = unflushed st"
    and keep: "keep_handle st2 = keep_handle st"
    using d o by (auto simp: drop_stale_anchor_def open_log_def cached_head_def split: if_splits)
  then have w2: "writer_head H ns legacy chained st2" and l2: "log fs2 = Some (log_text (legacy @ chained) @ frag)"
    using w fs o by (auto simp: writer_head_def log_holds_def open_log_def cached_head_def split: option.splits)
  have "CHR 0x0A \<notin> set frag" using fs by (simp add: log_holds_def)
  with l2 have l3: "log fs3 = Some (log_text (legacy @ chained))"
    unfolding fs3_def by (rule repair_torn)
  have p3: "unflushed st3 = unflushed st" using p by (simp add: st3_def)
  have "cached_head st3 = head_of H ns legacy chained"
    unfolding st3_def using refresh_head [OF good l3 w2] by blast
  moreover have "namespace st3 = ns" using w2 by (simp add: st3_def writer_head_def)
  moreover have k3: "keep_handle st3 = keep_handle st" using keep by (simp add: st3_def)
  ultimately show ?thesis
    by (rule that [rotated])
      (simp only: append_def Let_def d o split_def fst_conv snd_conv fs3_def [symmetric]
        st3_def [symmetric] l3 k3 p3 option.sel next_seq_unflushed cong: sum.case_cong)
qed

text \<open>One append, from any state of the shared log, by any writer.\<close>

theorem append_step:
  assumes good: "good_log H ns legacy chained" and fs: "log_holds fs (legacy @ chained) frag"
    and w: "writer_ok H ns legacy chained st"
    and r: "wf_record r" "''legacy_linked'' \<notin> set (dkeys r)"
    and keep: "keep_handle st \<longrightarrow> short_write os = None"
    and app: "append H os sync r st fs = (res, st', fs')"
  shows "(case res of
      Inr c \<Rightarrow> good_log H ns legacy (chained @ [stored c])
        \<and> log fs' = Some (log_text (legacy @ chained @ [stored c]))
        \<and> writer_ok H ns legacy (chained @ [stored c]) st'
    | Inl e \<Rightarrow> \<exists>new frag'. good_log H ns legacy (chained @ new) \<and> length new \<le> 1
        \<and> log_holds fs' (legacy @ chained @ new) frag' \<and> writer_ok H ns legacy (chained @ new) st')"
proof -
  have p: "unflushed st = []" and w0: "writer_head H ns legacy chained st" using w by (simp_all add: writer_ok_def)
  obtain st3 fs3 where eq: "append H os sync r st fs =
       (let (res, s, rest) = write_payload os (keep_handle st) sync [] (log_text (legacy @ chained))
                         (record_line (chain_record H st3 r)) in
        case res of
          Inl e \<Rightarrow> (Inl e, st3\<lparr>unflushed := rest, loaded := False, observed_size := None\<rparr>, fs3\<lparr>log := Some s\<rparr>)
        | Inr _ \<Rightarrow> (Inr (chain_record H st3 r), remember_size (fs3\<lparr>log := Some s\<rparr>)
            (st3\<lparr>unflushed := rest, prev_hash := JStr (record_hash H (chain_record H st3 r)), next_seq := next_seq st3 + 1\<rparr>),
            fs3\<lparr>log := Some s\<rparr>))"
    and h3: "cached_head st3 = head_of H ns legacy chained" and ns3: "namespace st3 = ns"
    by (rule append_prepare [OF good fs w0, unfolded p])
  let ?c = "chain_record H st3 r"
  obtain q s rest where ws: "write_payload os (keep_handle st) sync [] (log_text (legacy @ chained)) (record_line ?c) = (q, s, rest)"
    by (cases "write_payload os (keep_handle st) sync [] (log_text (legacy @ chained)) (record_line ?c)") auto
  have good': "good_log H ns legacy (chained @ [stored ?c])" by (rule extend_good [OF good h3 r])
  have wf: "wf_record ?c"
    using h3 r(1) by (intro wf_chain_record) (simp_all add: cached_head_def head_of_def)
  note written = write_payload_cases [OF ws wf keep]
  then have rest: "rest = []" by simp
  from conjunct2 [OF written] show ?thesis
  proof
    assume q: "q = Inr () \<and> s = log_text (legacy @ chained) @ record_line ?c"
    then have s: "s = log_text (legacy @ chained) @ record_line ?c" by simp
    from q have res: "res = Inr ?c" "fs' = fs3\<lparr>log := Some s\<rparr>"
      "st' = remember_size fs' (st3\<lparr>unflushed := [], prev_hash := JStr (record_hash H ?c), next_seq := next_seq st3 + 1\<rparr>)"
      using app eq ws rest by auto
    have "cached_head st' = head_of H ns legacy (chained @ [stored ?c])"
      using h3 res(3) by (auto simp: cached_head_def head_of_def remember_size_def)
    then have "writer_ok H ns legacy (chained @ [stored ?c]) st'"
      using res s ns3 by (auto simp: writer_ok_def writer_head_def remember_size_def intro!: exI [of _ "Suc (length chained)"])
    with res s good' show ?thesis by simp
  next
    assume "\<exists>e frag. q = Inl e \<and> s = log_text (legacy @ chained) @ frag
      \<and> (CHR 0x0A \<notin> set frag \<or> frag = record_line ?c)"
    then obtain e frag' where q: "q = Inl e" and s: "s = log_text (legacy @ chained) @ frag'"
      and f: "CHR 0x0A \<notin> set frag' \<or> frag' = record_line ?c" by blast
    from q have res: "res = Inl e" "fs' = fs3\<lparr>log := Some s\<rparr>"
      "st' = st3\<lparr>unflushed := [], loaded := False, observed_size := None\<rparr>" using app eq ws rest by auto
    have w': "writer_ok H ns legacy (chained @ new) st'" if "new = [] \<or> new = [stored ?c]" for new
      using res(3) h3 ns3 that by (auto simp: writer_ok_def writer_head_def cached_head_def)
    from f show ?thesis
    proof
      assume "CHR 0x0A \<notin> set frag'"
      then show ?thesis using res good s w' [of "[]"]
        by (auto simp: log_holds_def intro!: exI [of _ "[]"] exI [of _ frag'])
    next
      assume "frag' = record_line ?c"
      then have "log_holds fs' (legacy @ chained @ [stored ?c]) []"
        using res s by (simp add: log_holds_def)
      with res(1) good' w' [of "[stored ?c]"] show ?thesis
        by (simp only: sum.case) (rule exI [of _ "[stored ?c]"], rule exI [of _ "[]"], simp)
    qed
  qed
qed


text \<open>
  Any number of \<open>HashChainLog\<close> objects (threads and processes) on one file.  Their appends are
  serialised by the file lock; between them a process may die inside its write, leaving bytes
  that hold no newline, and objects are created, closed and unsealed.
\<close>

record chain_sys =
  sys_fs :: chain_fs
  writers :: "nat \<Rightarrow> chain_log"

datatype chain_event =
    EAppend nat os_answers bool jdict
  | EUnseal os_answers
  | EClose nat os_answers
  | EOpen nat os_answers
  | ECrash string

fun chain_step :: "digest \<Rightarrow> string \<Rightarrow> chain_sys \<Rightarrow> chain_event \<Rightarrow> chain_sys" where
  "chain_step H ns s (EAppend i os sync r) =
     (let (res, st, fs) = append H os sync r (writers s i) (sys_fs s)
      in s\<lparr>sys_fs := fs, writers := (writers s)(i := st)\<rparr>)"
| "chain_step H ns s (EUnseal os) = s\<lparr>sys_fs := unseal os (sys_fs s)\<rparr>"
| "chain_step H ns s (EClose i os) =
     (let (st, fs) = close_log os (writers s i) (sys_fs s) in s\<lparr>sys_fs := fs, writers := (writers s)(i := st)\<rparr>)"
| "chain_step H ns s (EOpen i os) =
     (let (st, fs) = close_log os (writers s i) (sys_fs s)
      in s\<lparr>sys_fs := fs, writers := (writers s)(i := HashChainLog H ns (keep_handle st))\<rparr>)"
| "chain_step H ns s (ECrash bytes) =
     s\<lparr>sys_fs := (sys_fs s)\<lparr>log := map_option (\<lambda>t. t @ takeWhile (\<lambda>c. c \<noteq> CHR 0x0A) bytes)
                                        (log (sys_fs s))\<rparr>\<rparr>"

text \<open>
  \<open>kept i\<close> says whether the writer \<open>i\<close> keeps its handle; the writes through such a handle do not
  fail, while a short \<^verbatim>\<open>os.write\<close> may happen at any time.
\<close>

fun plain_event :: "(nat \<Rightarrow> bool) \<Rightarrow> chain_event \<Rightarrow> bool" where
  "plain_event kept (EAppend i os sync r) \<longleftrightarrow>
     wf_record r \<and> ''legacy_linked'' \<notin> set (dkeys r) \<and> (kept i \<longrightarrow> short_write os = None)"
| "plain_event kept _ \<longleftrightarrow> True"

definition chain_inv :: "digest \<Rightarrow> string \<Rightarrow> (nat \<Rightarrow> bool) \<Rightarrow> chain_sys \<Rightarrow> bool" where
  "chain_inv H ns kept s \<longleftrightarrow>
     (\<exists>legacy chained frag. good_log H ns legacy chained
        \<and> log_holds (sys_fs s) (legacy @ chained) frag
        \<and> (\<forall>i. writer_ok H ns legacy chained (writers s i) \<and> keep_handle (writers s i) = kept i))"

lemma writer_ok_extend:
  assumes "writer_ok H ns legacy chained st"
  shows "writer_ok H ns legacy (chained @ new) st"
proof -
  have ext: "\<exists>k'. k' \<le> length (chained @ new) \<and> take k' (chained @ new) = take k chained"
    if "k \<le> length chained" for k using that by (intro exI [of _ k]) simp
  show ?thesis unfolding writer_ok_def writer_head_def
  proof (intro conjI impI)
    assume "loaded st"
    with assms show "observed_size st = None \<or> (\<exists>k. k \<le> length (chained @ new)
        \<and> observed_size st = Some (length (log_text (legacy @ take k (chained @ new))))
        \<and> cached_head st = head_of H ns legacy (take k (chained @ new)))"
      unfolding writer_ok_def writer_head_def using ext by metis
  qed (use assms in \<open>simp_all add: writer_ok_def writer_head_def\<close>)
qed

lemma writer_ok_fresh: "writer_ok H ns legacy chained (HashChainLog H ns keep)"
  by (simp add: writer_ok_def writer_head_def HashChainLog_def cached_head_def head_of_def chain_root_def)

text \<open>An empty buffer is not written.\<close>

lemma flush_empty: "unflushed st = [] \<Longrightarrow> flush_handle os st fs = (Inr (), st, fs)"
  by (simp add: flush_handle_def)

lemma close_clean:
  assumes "writer_ok H ns legacy chained st"
  obtains st' where "close_log os st fs = (st', fs)" "writer_ok H ns legacy chained st'"
    "keep_handle st' = keep_handle st"
proof -
  have "unflushed st = []" using assms by (simp add: writer_ok_def)
  then have "close_log os st fs = (st\<lparr>handle_open := False, unflushed := []\<rparr>, fs)"
    by (simp add: close_log_def flush_empty)
  with assms that show ?thesis by (auto simp: writer_ok_def writer_head_def cached_head_def)
qed

lemma append_keep:
  assumes "append H os sync r st fs = (res, st', fs')"
  shows "keep_handle st' = keep_handle st"
proof -
  obtain st1 fs1 where d: "drop_stale_anchor os st fs = (st1, fs1)" by fastforce
  obtain st2 fs2 where o: "open_log st1 fs1 = (st2, fs2)" by fastforce
  define fs3 where "fs3 = repair_torn_tail os fs2"
  define st3 where "st3 = ensure_loaded H fs3 (reload_if_externally_appended H fs3 st2)"
  have "keep_handle st3 = keep_handle st"
    using d o by (auto simp: st3_def drop_stale_anchor_def open_log_def split: if_splits)
  moreover obtain q s rest where w: "write_payload os (keep_handle st3) sync (unflushed st3) (the (log fs3))
      (record_line (chain_record H st3 r)) = (q, s, rest)" by (metis prod_cases3)
  moreover have "append H os sync r st fs = (case q of
      Inl e \<Rightarrow> (Inl e, st3\<lparr>unflushed := rest, loaded := False, observed_size := None\<rparr>, fs3\<lparr>log := Some s\<rparr>)
    | Inr _ \<Rightarrow> (Inr (chain_record H st3 r), remember_size (fs3\<lparr>log := Some s\<rparr>)
        (st3\<lparr>unflushed := rest, prev_hash := JStr (record_hash H (chain_record H st3 r)), next_seq := next_seq st3 + 1\<rparr>),
        fs3\<lparr>log := Some s\<rparr>))"
    by (simp only: append_def Let_def d o split_def fst_conv snd_conv fs3_def [symmetric] st3_def [symmetric] w
      next_seq_unflushed cong: sum.case_cong)
  ultimately show ?thesis using assms by (cases q) (auto simp: remember_size_def)
qed

lemma chain_inv_append:
  assumes inv: "chain_inv H ns kept s" and e: "plain_event kept (EAppend i os sync r)"
    and app: "append H os sync r (writers s i) (sys_fs s) = (res, st', fs')"
  shows "chain_inv H ns kept (s\<lparr>sys_fs := fs', writers := (writers s)(i := st')\<rparr>)"
    and "res = Inr c \<Longrightarrow> \<exists>legacy chained. good_log H ns legacy (chained @ [stored c])
      \<and> log fs' = Some (log_text (legacy @ chained @ [stored c]))"
proof -
  from inv obtain legacy chained frag where good: "good_log H ns legacy chained"
    and fs: "log_holds (sys_fs s) (legacy @ chained) frag"
    and w: "\<And>j. writer_ok H ns legacy chained (writers s j)" and k: "\<And>j. keep_handle (writers s j) = kept j"
    unfolding chain_inv_def by blast
  note step = append_step [OF good fs w _ _ _ app]
  show "res = Inr c \<Longrightarrow> \<exists>legacy chained. good_log H ns legacy (chained @ [stored c])
      \<and> log fs' = Some (log_text (legacy @ chained @ [stored c]))"
    using step e k by auto
  have "\<exists>new frag'. good_log H ns legacy (chained @ new) \<and> log_holds fs' (legacy @ chained @ new) frag'
      \<and> writer_ok H ns legacy (chained @ new) st'"
  proof (cases res)
    case (Inl a)
    with step e k show ?thesis by auto
  next
    case (Inr c)
    with step e k show ?thesis
      by (intro exI [of _ "[stored c]"] exI [of _ "[]"]) (simp add: log_holds_def)
  qed
  then obtain new frag' where "good_log H ns legacy (chained @ new)"
      "log_holds fs' (legacy @ chained @ new) frag'" "writer_ok H ns legacy (chained @ new) st'" by blast
  then show "chain_inv H ns kept (s\<lparr>sys_fs := fs', writers := (writers s)(i := st')\<rparr>)"
    unfolding chain_inv_def using w k writer_ok_extend append_keep [OF app]
    by (intro exI [of _ legacy] exI [of _ "chained @ new"] exI [of _ frag']) simp
qed

lemma chain_step_inv: "chain_inv H ns kept s \<Longrightarrow> plain_event kept e \<Longrightarrow> chain_inv H ns kept (chain_step H ns s e)"
proof (cases e)
  case (EAppend i os sync r)
  assume "chain_inv H ns kept s" "plain_event kept e"
  with EAppend show ?thesis
    by (cases "append H os sync r (writers s i) (sys_fs s)") (simp add: chain_inv_append del: wf_json.simps)
next
  case (ECrash bytes)
  assume "chain_inv H ns kept s"
  then obtain legacy chained frag where g: "good_log H ns legacy chained"
    "log_holds (sys_fs s) (legacy @ chained) frag"
    "\<forall>i. writer_ok H ns legacy chained (writers s i) \<and> keep_handle (writers s i) = kept i"
    unfolding chain_inv_def by blast
  let ?b = "takeWhile (\<lambda>c. c \<noteq> CHR 0x0A) bytes"
  have "CHR 0x0A \<notin> set ?b" by (auto dest: set_takeWhileD)
  with g(2) have "log_holds (sys_fs (chain_step H ns s e)) (legacy @ chained)
      (if log (sys_fs s) = None then frag else frag @ ?b)"
    by (auto simp: ECrash log_holds_def split: option.splits)
  with g show ?thesis unfolding chain_inv_def ECrash by auto
next
  case (EUnseal os)
  assume "chain_inv H ns kept s"
  then show ?thesis by (auto simp: EUnseal chain_inv_def unseal_def log_holds_def)
next
  case (EClose i os)
  assume "chain_inv H ns kept s"
  then obtain legacy chained frag where g: "good_log H ns legacy chained"
    "log_holds (sys_fs s) (legacy @ chained) frag"
    "\<And>i. writer_ok H ns legacy chained (writers s i)" "\<And>i. keep_handle (writers s i) = kept i"
    unfolding chain_inv_def by blast
  obtain st' where c: "close_log os (writers s i) (sys_fs s) = (st', sys_fs s)"
    "writer_ok H ns legacy chained st'" "keep_handle st' = keep_handle (writers s i)"
    by (rule close_clean [OF g(3)])
  with g show ?thesis unfolding chain_inv_def EClose
    by (intro exI [of _ legacy] exI [of _ chained] exI [of _ frag]) simp
next
  case (EOpen i os)
  assume "chain_inv H ns kept s"
  then obtain legacy chained frag where g: "good_log H ns legacy chained"
    "log_holds (sys_fs s) (legacy @ chained) frag"
    "\<And>i. writer_ok H ns legacy chained (writers s i)" "\<And>i. keep_handle (writers s i) = kept i"
    unfolding chain_inv_def by blast
  obtain st' where c: "close_log os (writers s i) (sys_fs s) = (st', sys_fs s)"
    "keep_handle st' = keep_handle (writers s i)"
    by (rule close_clean [OF g(3)])
  have "keep_handle (HashChainLog H ns k) = k" for k by (simp add: HashChainLog_def)
  with g c show ?thesis unfolding chain_inv_def EOpen
    by (intro exI [of _ legacy] exI [of _ chained] exI [of _ frag]) (simp add: writer_ok_fresh)
qed

interpretation chain: step_system "chain_step H ns" "plain_event kept" "chain_inv H ns kept" for H ns kept
  by unfold_locales (rule chain_step_inv)

end
