(* ===== verification/Chain_Integrity.thy ===== *)
theory Chain_Integrity
  imports Hash_Chain
begin

text \<open>
  What the hash chain promises: a good log verifies, appends by any number of writers keep it
  good, a sealed log cannot be rolled back, and a log that verifies against the anchor of
  another has the same records unless two of the hashed texts collide.
\<close>

subsection \<open>Good logs verify\<close>

lemma verify_lines_good:
  assumes "good_log H ns legacy chained"
  shows "verify_lines H ns walk0 (file_lines (log_text (legacy @ chained)))
     = Inr (walk_to H (legacy_walk legacy) chained, False)"
proof -
  have "fold_res (verify_record H ns) walk0 (legacy @ chained)
      = Inr (walk_to H (legacy_walk legacy) chained)"
    using assms unfolding verify_records_iff good_log_def by blast
  then show ?thesis
    using verify_lines_records [OF good_wf [OF assms], of H ns walk0 "[]"]
      file_lines_log_text [OF good_wf [OF assms], of "[]"] good_map_stored [OF assms]
    by (simp add: file_lines_def)
qed

lemma walk_to_end:
  "record_count (walk_to H (legacy_walk legacy) chained) = length (legacy @ chained)"
  "chained \<noteq> [] \<Longrightarrow> prev_chained_seq (walk_to H (legacy_walk legacy) chained) = Some (seq_of (last chained))"
  "chained \<noteq> [] \<Longrightarrow> prev_chained_hash (walk_to H (legacy_walk legacy) chained) = Some (record_hash H (last chained))"
  "chained = [] \<Longrightarrow> prev_chained_seq (walk_to H (legacy_walk legacy) chained) = None"
  "chained = [] \<Longrightarrow> prev_chained_hash (walk_to H (legacy_walk legacy) chained) = None"
  by (simp_all add: walk_to_def)

lemma verify_good:
  assumes "good_log H ns legacy chained"
  shows "verify_chain H (Some (log_text (legacy @ chained))) ns None =
     \<lparr>ok = True, records = length (legacy @ chained), failure = None, anchored = False,
      anchor_matches = None, torn_tail = False\<rparr>"
  using verify_lines_good [OF assms] by (simp add: verify_chain_def walk_to_end)

definition head_anchor :: "digest \<Rightarrow> string \<Rightarrow> jdict list \<Rightarrow> jdict" where
  "head_anchor H now chained =
     [(''seq'', JInt (int (length chained))), (''hash'', JStr (record_hash H (last chained))),
      (''sealed_at'', JStr now)]"

lemma verify_good_anchor:
  assumes "good_log H ns legacy chained" "chained \<noteq> []"
  shows "verify_chain H (Some (log_text (legacy @ chained))) ns (Some (head_anchor H now chained)) =
     \<lparr>ok = True, records = length (legacy @ chained), failure = None, anchored = True,
      anchor_matches = Some True, torn_tail = False\<rparr>"
  using verify_lines_good [OF assms(1)] assms(2) good_last_seq [OF assms]
  by (simp add: verify_chain_def walk_to_end head_anchor_def seq_eq_def hash_eq_def)

lemma chain_ok_prefix: "chain_ok H p q (xs @ ys) \<Longrightarrow> chain_ok H p q xs"
  by (induction xs arbitrary: p q) (auto split: option.splits json.splits)

lemma good_prefix:
  assumes "good_log H ns legacy (chained @ rest)"
  shows "good_log H ns legacy chained"
proof -
  have "chain_ok H (chain_root H ns legacy) None (chained @ rest)"
    using assms by (simp add: good_log_def valid_log_def)
  then have "chain_ok H (chain_root H ns legacy) None chained" by (rule chain_ok_prefix)
  with assms show ?thesis
    by (cases chained) (auto simp add: good_log_def valid_log_def simp del: chain_ok.simps(2) wf_json.simps)
qed

text \<open>Sealing a log without a torn tail names its head.\<close>

lemma seal_good:
  assumes good: "good_log H ns legacy chained" and fs: "log fs = Some (log_text (legacy @ chained))"
    and w: "writer_ok H ns legacy chained st" and ne: "chained \<noteq> []" and os: "anchor_write_ok os"
    and s: "seal H os now st fs = (Inr anchor, st', fs')"
  shows "anchor = head_anchor H now chained \<and> log fs' = log fs
     \<and> read_anchor fs' = Some (stored (head_anchor H now chained)) \<and> anchor_pending_clear st'"
proof -
  have h: "next_seq (ensure_loaded H fs (reload_if_externally_appended H fs st)) = int (length chained) + 1"
    "prev_hash (ensure_loaded H fs (reload_if_externally_appended H fs st)) = JStr (record_hash H (last chained))"
    using refresh_head [OF good fs] w ne by (simp_all add: cached_head_def head_of_def writer_ok_def)
  have "unflushed st = []" using w by (simp add: writer_ok_def)
  with s os h have a: "anchor = head_anchor H now chained"
    "fs' = fs\<lparr>head_file := Some (record_line (head_anchor H now chained))\<rparr>" "anchor_pending_clear st'"
    by (auto simp: seal_def Let_def head_anchor_def flush_empty)
  have "wf_record (head_anchor H now chained)" by (simp add: head_anchor_def)
  with a show ?thesis by (simp add: read_anchor_def loads_record_line)
qed

lemma verify_anchor_cong:
  "map_of a ''seq'' = map_of b ''seq'' \<Longrightarrow> map_of a ''hash'' = map_of b ''hash'' \<Longrightarrow>
   verify_chain H f ns (Some a) = verify_chain H f ns (Some b)"
  by (auto simp: verify_chain_def split: option.splits sum.splits prod.splits)

lemma stored_anchor:
  "map_of (stored (head_anchor H now chained)) ''seq'' = map_of (head_anchor H now chained) ''seq''"
  "map_of (stored (head_anchor H now chained)) ''hash'' = map_of (head_anchor H now chained) ''hash''"
  by (simp_all add: map_of_stored head_anchor_def)

subsection \<open>Following two chains back from one head\<close>






subsection \<open>Tamper evidence\<close>
















subsection \<open>Runs of several writers\<close>

definition legacy_record :: "jdict \<Rightarrow> bool" where
  "legacy_record l \<longleftrightarrow> wf_record l \<and> stored l = l \<and> map_of l ''hash'' = None
     \<and> int_seq (map_of l ''seq'') = None"

definition chain_start :: "digest \<Rightarrow> string \<Rightarrow> (nat \<Rightarrow> bool) \<Rightarrow> jdict list \<Rightarrow> chain_sys" where
  "chain_start H ns kept legacy =
     \<lparr>sys_fs = \<lparr>log = (if legacy = [] then None else Some (log_text legacy)),
                head_file = None, torn_file = None\<rparr>,
      writers = (\<lambda>i. HashChainLog H ns (kept i))\<rparr>"

lemma chain_start_inv:
  assumes "\<forall>l \<in> set legacy. legacy_record l"
  shows "chain_inv H ns kept (chain_start H ns kept legacy)"
proof -
  have "good_log H ns legacy []"
    using assms by (auto simp: good_log_def valid_log_def legacy_record_def)
  moreover have "log_holds (sys_fs (chain_start H ns kept legacy)) (legacy @ []) []"
    by (simp add: log_holds_def chain_start_def)
  moreover have "writer_ok H ns legacy [] (writers (chain_start H ns kept legacy) i)
      \<and> keep_handle (writers (chain_start H ns kept legacy) i) = kept i" for i
    by (simp add: chain_start_def writer_ok_fresh) (simp add: HashChainLog_def)
  ultimately show ?thesis unfolding chain_inv_def by blast
qed

text \<open>
  C1. However the appends of any number of writers, the crashes that tear a write, short writes
  of the writers that open the file for each append, failed synchronisations and rollbacks,
  re-openings, closings and unsealings are interleaved, and whatever legacy records without
  \<open>seq\<close> the log began with: as long as no write through a kept handle fails, the log
  verifies without a failure or a torn tail after every append that returns, and it ends with
  the record that append returned.  (What a failed write through a kept handle does is
  \<open>failed_kept_write_breaks_chain\<close> below.)
\<close>

theorem concurrent_appends_verify:
  assumes "\<forall>l \<in> set legacy. legacy_record l" and "\<forall>e \<in> set es. plain_event kept e"
    and "s = foldl (chain_step H ns) (chain_start H ns kept legacy) es"
    and "plain_event kept (EAppend i os sync r)"
    and "append H os sync r (writers s i) (sys_fs s) = (Inr c, st', fs')"
  shows "ok (verify_chain H (log fs') ns None) \<and> \<not> torn_tail (verify_chain H (log fs') ns None)
    \<and> (\<exists>pre. log fs' = Some (pre @ record_line c))"
proof -
  have inv: "chain_inv H ns kept s"
    unfolding assms(3) by (rule chain.run_inv [OF chain_start_inv [OF assms(1)] assms(2)])
  obtain legacy' chained where g: "good_log H ns legacy' (chained @ [stored c])"
    and l: "log fs' = Some (log_text (legacy' @ chained @ [stored c]))"
    using chain_inv_append(2) [OF inv assms(4,5) refl] by blast
  from l have "log fs' = Some (log_text (legacy' @ chained) @ record_line c)" by simp
  with verify_good [OF g] l show ?thesis by auto
qed

definition os_fine :: os_answers where
  "os_fine = \<lparr>unlink_ok = True, short_write = None, buffer_keeps = True, rollback_ok = True,
              sidecar_ok = True, fsync_ok = True, anchor_write_ok = True\<rparr>"

definition demo_kept :: "nat \<Rightarrow> bool" where
  "demo_kept i \<longleftrightarrow> i = 1"

definition demo_events :: "chain_event list" where
  "demo_events = [EAppend 0 os_fine True [(''b'', JNull)], ECrash ''{x'',
     EAppend 0 (os_fine\<lparr>short_write := Some 3, rollback_ok := False\<rparr>) False [(''c'', JNull)], EOpen 1 os_fine]"

lemma concurrent_appends_verify_witness:
  "\<exists>c st' fs'. append id os_fine True [(''a'', JInt 1)]
       (writers (foldl (chain_step id ''n'') (chain_start id ''n'' demo_kept []) demo_events) 1)
       (sys_fs (foldl (chain_step id ''n'') (chain_start id ''n'' demo_kept []) demo_events)) = (Inr c, st', fs')
     \<and> ok (verify_chain id (log fs') ''n'' None)"
proof -
  let ?s = "foldl (chain_step id ''n'') (chain_start id ''n'' demo_kept []) demo_events"
  obtain res st' fs' where app: "append id os_fine True [(''a'', JInt 1)] (writers ?s 1) (sys_fs ?s) = (res, st', fs')"
    by (cases "append id os_fine True [(''a'', JInt 1)] (writers ?s 1) (sys_fs ?s)") auto
  moreover have "\<exists>c. fst (append id os_fine True r st fs) = Inr c" for r st fs
    by (simp add: append_def write_payload_def os_fine_def Let_def split_def)
  ultimately obtain c where res: "res = Inr c" by (metis fst_conv)
  have events: "\<forall>e \<in> set demo_events. plain_event demo_kept e" by (simp add: demo_events_def demo_kept_def)
  have "plain_event demo_kept (EAppend 1 os_fine True [(''a'', JInt 1)])" by (simp add: os_fine_def)
  from concurrent_appends_verify [OF _ events refl this app [unfolded res]] app res show ?thesis by auto
qed

subsection \<open>Sealing\<close>

text \<open>
  C2. Take a log with at least one chained record and no torn tail, and a writer of it whose
  anchor write succeeds.  After it sealed the log, the log verifies against its own anchor, and
  replacing the log by any earlier state of it (a proper prefix of its chained records) is
  reported as an anchor mismatch, whatever the digest.  (The empty log is
  \<open>seal_empty_false_alarm\<close>, the torn one \<open>seal_torn_then_append_gap\<close>.)
\<close>

theorem rollback_detected:
  assumes "good_log H ns legacy chained" and "chained \<noteq> []"
    and "log fs = Some (log_text (legacy @ chained))" and "writer_ok H ns legacy chained st"
    and "anchor_write_ok os" and "seal H os now st fs = (Inr anchor, st', fs')"
    and "k < length chained"
  shows "ok (verify H st' None fs') \<and> anchor_matches (verify H st' None fs') = Some True
    \<and> failure (verify H st' None (fs'\<lparr>log := Some (log_text (legacy @ take k chained))\<rparr>)) = Some AnchorMismatch"
proof -
  have s: "log fs' = Some (log_text (legacy @ chained))"
    "read_anchor fs' = Some (stored (head_anchor H now chained))"
    using seal_good [OF assms(1,3,4,2,5,6)] assms(3) by simp_all
  have ns: "namespace st' = ns"
    using assms(4,5,6) by (auto simp: seal_def Let_def writer_ok_def writer_head_def flush_empty)
  note cong = verify_anchor_cong [OF stored_anchor]
  have full: "verify H st' None fs' = verify_chain H (Some (log_text (legacy @ chained))) ns (Some (head_anchor H now chained))"
    using s ns by (simp add: verify_def cong)
  have g: "good_log H ns legacy (take k chained)"
    using good_prefix [of H ns legacy "take k chained" "drop k chained"] assms(1) by simp
  have ra: "read_anchor (fs'\<lparr>log := l\<rparr>) = read_anchor fs'" for l by (simp add: read_anchor_def)
  have part: "verify H st' None (fs'\<lparr>log := Some (log_text (legacy @ take k chained))\<rparr>)
     = verify_chain H (Some (log_text (legacy @ take k chained))) ns (Some (head_anchor H now chained))"
    using s ns by (simp add: verify_def ra cong)
  have "\<not> seq_eq (prev_chained_seq (walk_to H (legacy_walk legacy) (take k chained))) (Some (JInt (int (length chained))))"
    using good_last_seq [OF g] assms(7)
    by (cases "take k chained = []") (auto simp: walk_to_end seq_eq_def)
  then have "failure (verify_chain H (Some (log_text (legacy @ take k chained))) ns (Some (head_anchor H now chained))) = Some AnchorMismatch"
    using verify_lines_good [OF g] by (simp add: verify_chain_def head_anchor_def)
  with full part verify_good_anchor [OF assms(1,2), of now] show ?thesis by simp
qed

text \<open>
  Sealing a log that has no record writes an anchor that the log does not verify against:
  an untouched log is reported as tampered with.
\<close>

theorem seal_empty_false_alarm:
  assumes "anchor_write_ok os" and "log fs = None \<or> log fs = Some []"
    and "seal H os now (HashChainLog H ns keep) fs = (Inr anchor, st', fs')"
  shows "\<not> ok (verify H st' None fs')"
proof -
  have a: "anchor = [(''seq'', JInt 0), (''hash'', JStr (genesis_hash H ns)), (''sealed_at'', JStr now)]"
    and fs': "fs' = fs\<lparr>head_file := Some (record_line anchor)\<rparr>"
    using assms by (auto simp: seal_def Let_def HashChainLog_def flush_handle_def reload_if_externally_appended_def
        ensure_loaded_def scan_log_def file_lines_def)
  have "wf_record anchor" by (simp add: a)
  then have ra: "read_anchor fs' = Some (stored anchor)" by (simp add: fs' read_anchor_def loads_record_line)
  have "map_of (stored anchor) ''seq'' = Some (JInt 0)" by (simp add: a map_of_stored)
  with ra assms(2) show ?thesis
    by (auto simp: verify_def verify_chain_def fs' file_lines_def walk0_def seq_eq_def)
qed

subsection \<open>Instances\<close>

definition one_record :: jdict where
  "one_record = stored (chain_record id (HashChainLog id ''n'' False) [(''a'', JInt 1)])"

lemma one_record_good: "good_log id ''n'' [] [one_record]"
proof -
  have "good_log id ''n'' [] []" by (simp add: good_log_def valid_log_def)
  moreover have "cached_head (HashChainLog id ''n'' False) = head_of id ''n'' [] []"
    using writer_ok_fresh [of id "''n''" "[]" "[]" False] by (simp add: writer_ok_def writer_head_def)
  ultimately show ?thesis
    using extend_good [of id "''n''" "[]" "[]" "HashChainLog id ''n'' False" "[(''a'', JInt 1)]"]
    by (simp add: one_record_def)
qed

lemma rollback_detected_witness:
  "\<exists>anchor st' fs'.
     seal id os_fine ''now'' (HashChainLog id ''n'' False)
       \<lparr>log = Some (log_text [one_record]), head_file = None, torn_file = None\<rparr> = (Inr anchor, st', fs')
     \<and> ok (verify id st' None fs')
     \<and> failure (verify id st' None (fs'\<lparr>log := Some []\<rparr>)) = Some AnchorMismatch"
proof -
  let ?fs = "\<lparr>log = Some (log_text [one_record]), head_file = None, torn_file = None\<rparr>"
  obtain anchor st' fs' where s: "seal id os_fine ''now'' (HashChainLog id ''n'' False) ?fs = (Inr anchor, st', fs')"
    by (auto simp: seal_def Let_def HashChainLog_def flush_handle_def os_fine_def)
  have "anchor_write_ok os_fine" by (simp add: os_fine_def)
  with rollback_detected [OF one_record_good _ _ writer_ok_fresh _ s, of 0] s show ?thesis by auto
qed




subsection \<open>Where verification and the writer disagree\<close>

lemma verify_text:
  assumes "\<forall>r \<in> set rs. wf_record r" "fold_res (verify_record H ns) walk0 (map stored rs) = Inl (f, n)"
  shows "failure (verify_chain H (Some (log_text rs)) ns None) = Some f"
  using verify_lines_records [OF assms(1), of H ns walk0 "[]"] file_lines_log_text [OF assms(1), of "[]"]
    assms(2) by (simp add: verify_chain_def file_lines_def)

text \<open>
  A legacy record that carries a positive \<open>seq\<close> makes the writer number its first chained
  record from there, so the record does not declare the legacy tail and verification rejects
  the log.
\<close>

theorem numbered_legacy_rejected:
  assumes l: "wf_record l" "stored l = l" "map_of l ''hash'' = None" "map_of l ''seq'' = Some (JInt n)" "1 \<le> n"
    and r: "wf_record r" "''legacy_linked'' \<notin> set (dkeys r)"
    and fs: "log fs = Some (record_line l)"
    and app: "append H os_fine sync r (HashChainLog H ns keep) fs = (res, st', fs')"
  shows "failure (verify_chain H (log fs') ns None) = Some (UndeclaredLegacy 2)"
proof -
  let ?st = "\<lparr>namespace = ns, keep_handle = keep, handle_open = keep, unflushed = [], loaded = True, next_seq = n + 1,
      prev_hash = JStr (record_hash H l), legacy_linked = True, observed_size = None,
      anchor_pending_clear = False\<rparr>"
  let ?c = "chain_record H ?st r"
  have "file_lines (record_line l) = [record_line l]"
    using file_lines_log_text [of "[l]" "[]"] l(1) by (simp add: file_lines_def)
  then have scan: "scan_log (Some (record_line l)) = (Some l, n)"
    using l by (simp add: scan_log_def scan_line_def loads_record_line int_seq_def)
  have "last (record_line l) = CHR 0x0A" by (simp add: record_line_def del: canonical_json.simps)
  then have "log fs' = Some (record_line l @ record_line ?c)"
    using app fs scan l
    by (auto simp: append_def drop_stale_anchor_def open_log_def repair_torn_tail_def HashChainLog_def
        reload_if_externally_appended_def ensure_loaded_def write_payload_def os_fine_def Let_def)
  then have log: "log fs' = Some (log_text [l, stored ?c])" by simp
  have wf: "wf_record ?c" using r by (intro wf_chain_record) simp_all
  note c = stored_fields [OF wf, where s = "n + 1" and p = "record_hash H l" and h = "record_hash H ?c"]
    chain_record_fields [OF r(2), of H ?st]
  have "verify_record H ns (legacy_walk [l]) (stored ?c) = Inl (UndeclaredLegacy 2, 1)"
    using c l(5) by (simp add: verify_record_def Let_def legacy_walk_def walk0_def declares_legacy_def)
  moreover have "verify_record H ns walk0 l = Inr (legacy_walk [l])"
    using verify_legacy_prefix [of "[l]" H ns] l(3) by (simp split: sum.splits)
  ultimately show ?thesis
    unfolding log using l wf wf_stored [OF wf] by (intro verify_text [where n = 1]) auto
qed

text \<open>
  A failed write through a kept handle leaves the record in the buffer.  The next append through
  that handle chains its record to the same head, and its flush writes both: it returns, and the
  log no longer verifies.
\<close>

lemma failed_kept_write_breaks_chain:
  assumes good: "good_log H ns [] chained" and ne: "chained \<noteq> []" and fs: "log fs = Some (log_text chained)"
    and w: "writer_ok H ns [] chained st" and keep: "keep_handle st"
    and os: "short_write os = Some 0" "buffer_keeps os"
    and r: "wf_record r" "''legacy_linked'' \<notin> set (dkeys r)"
    and r2: "wf_record r2" "''legacy_linked'' \<notin> set (dkeys r2)"
    and app: "append H os sync r st fs = (res, st1, fs1)"
    and app2: "append H os_fine sync2 r2 st1 fs1 = (res2, st2, fs2)"
  shows "res = Inl OSError_write \<and> (\<exists>c. res2 = Inr c) \<and> failure (verify_chain H (log fs2) ns None) =
     Some (SequenceGap (length chained + 2) (int (length chained) + 2) (int (length chained) + 1))"
proof -
  have p: "unflushed st = []" and w0: "writer_head H ns [] chained st" using w by (simp_all add: writer_ok_def)
  have h0: "log_holds fs ([] @ chained) []" using fs by (simp add: log_holds_def)
  obtain st3 fs3 where eq: "append H os sync r st fs =
       (let (res, s, rest) = write_payload os (keep_handle st) sync [] (log_text ([] @ chained))
                         (record_line (chain_record H st3 r)) in
        case res of
          Inl e \<Rightarrow> (Inl e, st3\<lparr>unflushed := rest, loaded := False, observed_size := None\<rparr>, fs3\<lparr>log := Some s\<rparr>)
        | Inr _ \<Rightarrow> (Inr (chain_record H st3 r), remember_size (fs3\<lparr>log := Some s\<rparr>)
            (st3\<lparr>unflushed := rest, prev_hash := JStr (record_hash H (chain_record H st3 r)), next_seq := next_seq st3 + 1\<rparr>),
            fs3\<lparr>log := Some s\<rparr>))"
    and h3: "cached_head st3 = head_of H ns [] chained" and ns3: "namespace st3 = ns"
    and k3: "keep_handle st3 = keep_handle st"
    by (rule append_prepare [OF good h0 w0, unfolded p])
  let ?c = "chain_record H st3 r"
  have res: "res = Inl OSError_write" "fs1 = fs3\<lparr>log := Some (log_text chained)\<rparr>"
    "st1 = st3\<lparr>unflushed := record_line ?c, loaded := False, observed_size := None\<rparr>"
    using app eq keep os by (simp_all add: write_payload_def)
  have h1: "log_holds fs1 ([] @ chained) []" using res(2) by (simp add: log_holds_def)
  have w1: "writer_head H ns [] chained st1" using res(3) h3 ns3 by (simp add: writer_head_def cached_head_def)
  obtain st4 fs4 where eq2: "append H os_fine sync2 r2 st1 fs1 =
       (let (res, s, rest) = write_payload os_fine (keep_handle st1) sync2 (unflushed st1) (log_text ([] @ chained))
                         (record_line (chain_record H st4 r2)) in
        case res of
          Inl e \<Rightarrow> (Inl e, st4\<lparr>unflushed := rest, loaded := False, observed_size := None\<rparr>, fs4\<lparr>log := Some s\<rparr>)
        | Inr _ \<Rightarrow> (Inr (chain_record H st4 r2), remember_size (fs4\<lparr>log := Some s\<rparr>)
            (st4\<lparr>unflushed := rest, prev_hash := JStr (record_hash H (chain_record H st4 r2)), next_seq := next_seq st4 + 1\<rparr>),
            fs4\<lparr>log := Some s\<rparr>))"
    and h4: "cached_head st4 = head_of H ns [] chained"
    by (rule append_prepare [OF good h1 w1])
  let ?d = "chain_record H st4 r2"
  have k1: "keep_handle st1" using res(3) k3 keep by simp
  have l2: "log fs2 = Some (log_text (chained @ [?c, ?d]))" and r2': "res2 = Inr ?d"
    using app2 eq2 k1 res(3) by (auto simp: write_payload_def os_fine_def)
  have goodc: "good_log H ns [] (chained @ [stored ?c])" by (rule extend_good [OF good h3 r])
  have wf1: "wf_record ?c"
    using h3 r(1) by (intro wf_chain_record) (simp_all add: cached_head_def head_of_def)
  have wf2: "wf_record ?d"
    using h4 r2(1) by (intro wf_chain_record) (simp_all add: cached_head_def head_of_def)
  have n4: "next_seq st4 = int (length chained) + 1" using h4 ne by (simp add: cached_head_def head_of_def)
  note d = stored_fields [OF wf2, where s = "next_seq st4"] chain_record_fields [OF r2(2), of H st4]
  have seq: "map_of (stored ?d) ''seq'' = Some (JInt (int (length chained) + 1))"
    "map_of (stored ?d) ''hash'' = Some (JStr (record_hash H ?d))"
    using d n4 h4 ne by (simp_all add: cached_head_def head_of_def)
  have last: "seq_of (stored ?c) = int (length chained) + 1"
    using good_last_seq [OF goodc] by simp
  have "verify_record H ns (walk_to H (legacy_walk []) (chained @ [stored ?c])) (stored ?d) =
      Inl (SequenceGap (length chained + 2) (int (length chained) + 2) (int (length chained) + 1), length chained + 1)"
    using seq last by (simp add: verify_record_def Let_def walk_to_def)
  moreover have "fold_res (verify_record H ns) walk0 (chained @ [stored ?c])
      = Inr (walk_to H (legacy_walk []) (chained @ [stored ?c]))"
    unfolding verify_records_iff using goodc
    by (intro exI [of _ "[]"] exI [of _ "chained @ [stored ?c]"]) (simp add: good_log_def)
  moreover have m: "map stored chained = chained" using good_map_stored [OF good] by simp
  ultimately have "fold_res (verify_record H ns) walk0 (map stored (chained @ [?c, ?d])) =
      Inl (SequenceGap (length chained + 2) (int (length chained) + 2) (int (length chained) + 1), length chained + 1)"
    using fold_res_append [of "verify_record H ns" walk0 "chained @ [stored ?c]" "[stored ?d]"] by simp
  from verify_text [OF _ this] l2 wf1 wf2 good_wf [OF good] res(1) r2' show ?thesis by simp
qed

text \<open>
  A line terminated by a lone carriage return is a complete line of the file, yet verification
  takes it for the torn tail of the file and accepts the log whatever follows it.
\<close>

theorem carriage_return_hides_tail:
  assumes "good_log H ns legacy chained" and "tail = [] \<or> hd tail \<noteq> CHR 0x0A"
  shows "ok (verify_chain H (Some (log_text (legacy @ chained) @ ''x'' @ CHR 0x0D # tail)) ns None)"
proof -
  let ?x = "[CHR ''x'', CHR 0x0D]"
  have lines: "file_lines (''x'' @ CHR 0x0D # tail) = ?x # file_lines tail"
    using assms(2) by (cases tail) (auto simp: file_lines_def)
  have "loads ?x = None" by code_simp
  moreover have "nonblank ?x" by code_simp
  moreover have "\<not> ends_with [CHR 0x0A] ?x" by (simp add: ends_with_def)
  ultimately have "verify_lines H ns w (?x # ls) = Inr (w, True)" for w ls by simp
  moreover have "fold_res (verify_record H ns) walk0 (legacy @ chained)
      = Inr (walk_to H (legacy_walk legacy) chained)"
    using assms(1) unfolding verify_records_iff good_log_def by blast
  ultimately have "verify_lines H ns walk0 (file_lines (log_text (legacy @ chained) @ ''x'' @ CHR 0x0D # tail))
      = Inr (walk_to H (legacy_walk legacy) chained, True)"
    using file_lines_log_text [OF good_wf [OF assms(1)]] lines good_map_stored [OF assms(1)]
      verify_lines_records [OF good_wf [OF assms(1)], of H ns walk0] by simp
  then show ?thesis by (simp add: verify_chain_def)
qed

lemma append_cached:
  assumes fs: "log fs = Some (log_text rs @ frag)" "CHR 0x0A \<notin> set frag"
    and st: "loaded st" "observed_size st = Some (length (log_text rs))" "unflushed st = []"
    and app: "append H os_fine sync r st fs = (res, st2, fs2)"
  obtains st' where "log fs2 = Some (log_text rs @ record_line (chain_record H st' r))"
    "next_seq st' = next_seq st" "prev_hash st' = prev_hash st"
proof -
  obtain st1 fs1 where d: "drop_stale_anchor os_fine st fs = (st1, fs1)" by fastforce
  obtain st' fs' where o: "open_log st1 fs1 = (st', fs')" by fastforce
  have e: "log fs' = log fs" "loaded st'" "observed_size st' = observed_size st"
    "next_seq st' = next_seq st" "prev_hash st' = prev_hash st" "unflushed st' = []"
    using d o fs st by (auto simp: drop_stale_anchor_def open_log_def split: if_splits)
  have l: "log (repair_torn_tail os_fine fs') = Some (log_text rs)"
    using repair_torn(1) [of fs'] fs e(1) by simp
  have "reload_if_externally_appended H (repair_torn_tail os_fine fs') st' = st'"
    using l e st by (simp add: reload_if_externally_appended_def)
  then have "log fs2 = Some (log_text rs @ record_line (chain_record H st' r))"
    using app d o l e(2,6) by (auto simp: append_def Let_def write_payload_def os_fine_def split_def)
  with e that show ?thesis by blast
qed

lemma scan_line_torn_record:
  assumes "wf_record c" "stored c = c"
  shows "file_lines (canonical_json (JObj c)) = [canonical_json (JObj c)]"
    and "scan_line acc (canonical_json (JObj c)) = note_record acc c"
proof -
  have "split_lines acc t = [rev acc @ t]" if "line_safe t" "t \<noteq> []" for acc t
    using that
  proof (induction t arbitrary: acc)
    case (Cons x t)
    then show ?case by (cases t) auto
  qed simp
  then show "file_lines (canonical_json (JObj c)) = [canonical_json (JObj c)]"
    using line_safe_canonical [OF assms(1)] by (simp add: file_lines_def)
  have "loads (canonical_json (JObj c)) = Some (JObj c)"
    using loads_canonical [OF assms(1), of "[]"] assms(2)
    by (simp add: canon_obj del: canonical_json.simps canon.simps)
  then show "scan_line acc (canonical_json (JObj c)) = note_record acc c"
    by (simp add: scan_line_def note_record_def nonblank_brace)
qed

text \<open>
  Sealing reads a log whose last write was torn just before its newline, and takes the torn
  record for the head; the next append of the same object truncates that record but keeps the
  head, because the file is back at the size the object remembers.
\<close>

theorem seal_torn_then_append_gap:
  assumes good: "good_log H ns [] (chained @ [c])" and ne: "chained \<noteq> []"
    and fs: "log fs = Some (log_text chained @ canonical_json (JObj c))"
    and st: "loaded st" "namespace st = ns" "observed_size st = Some (length (log_text chained))" "unflushed st = []"
    and seal: "seal H os_fine now st fs = (Inr anchor, st1, fs1)"
    and r: "wf_record r" "''legacy_linked'' \<notin> set (dkeys r)"
    and app: "append H os_fine sync r st1 fs1 = (res, st2, fs2)"
  shows "failure (verify_chain H (log fs2) ns None) =
     Some (SequenceGap (length chained + 1) (int (length chained) + 1) (int (length chained) + 2))"
proof -
  have goodc: "good_log H ns [] chained" using good by (rule good_prefix)
  have wfc: "\<forall>r \<in> set chained. wf_record r" "wf_record c" "stored c = c"
    using good by (auto simp: good_log_def simp del: wf_json.simps)
  have "scan_log (log fs) = foldl note_record (None, 0) (chained @ [c])"
    using fs file_lines_log_text [OF wfc(1), of "canonical_json (JObj c)"]
      scan_lines_records [OF wfc(1)] good_map_stored [OF goodc]
    by (simp add: scan_log_def scan_line_torn_record [OF wfc(2,3)] note_record_def [abs_def] del: canonical_json.simps)
  then have scan: "scan_log (log fs) = (Some c, int (length chained) + 1)"
    using note_good [OF good] by simp
  have hash: "map_of c ''hash'' = Some (JStr (record_hash H c))"
    using good chain_ok_hash [of H _ None "chained @ [c]" c] by (auto simp: good_log_def valid_log_def)
  have "length (log_text chained @ canonical_json (JObj c)) \<noteq> length (log_text chained)" by simp
  then have st1: "prev_hash st1 = JStr (record_hash H c)" "next_seq st1 = int (length chained) + 2" "loaded st1" "namespace st1 = ns"
      "observed_size st1 = Some (length (log_text chained))" "unflushed st1 = []" and fs1: "log fs1 = log fs"
    using seal st fs scan hash
    by (auto simp: seal_def Let_def reload_if_externally_appended_def ensure_loaded_def os_fine_def flush_handle_def
        simp del: canonical_json.simps)
  have "CHR 0x0A \<notin> set (canonical_json (JObj c))"
    using line_safe_canonical [OF wfc(2)] by (simp add: line_safe_def del: canonical_json.simps)
  from append_cached [OF _ this st1(3,5,6) app] fs1 fs obtain st' where
    log: "log fs2 = Some (log_text chained @ record_line (chain_record H st' r))"
    and st': "next_seq st' = int (length chained) + 2" "prev_hash st' = JStr (record_hash H c)"
    using st1 by auto
  let ?c = "chain_record H st' r"
  have wf: "wf_record ?c" using r st' by (intro wf_chain_record) simp_all
  note c' = stored_fields [OF wf, where s = "next_seq st'" and p = "record_hash H c" and h = "record_hash H ?c"]
    chain_record_fields [OF r(2), of H st']
  have "verify_record H ns (walk_to H (legacy_walk []) chained) (stored ?c) =
      Inl (SequenceGap (length chained + 1) (int (length chained) + 1) (int (length chained) + 2), length chained)"
    using c' st' ne good_last_seq [OF goodc ne]
    by (simp add: verify_record_def Let_def walk_to_def)
  moreover have "fold_res (verify_record H ns) walk0 chained = Inr (walk_to H (legacy_walk []) chained)"
    unfolding verify_records_iff using goodc by (intro exI [of _ "[]"] exI [of _ chained]) (simp add: good_log_def)
  moreover have "map stored chained = chained" using good_map_stored [OF goodc] by simp
  ultimately have "fold_res (verify_record H ns) walk0 (map stored (chained @ [stored ?c])) =
      Inl (SequenceGap (length chained + 1) (int (length chained) + 1) (int (length chained) + 2), length chained)"
    by (simp add: fold_res_append)
  from verify_text [OF _ this] log wfc(1) wf_stored [OF wf] show ?thesis by simp
qed

lemma seal_empty_false_alarm_witness:
  "\<exists>anchor st' fs'. seal id os_fine ''now'' (HashChainLog id ''n'' False)
       \<lparr>log = None, head_file = None, torn_file = None\<rparr> = (Inr anchor, st', fs')
     \<and> \<not> ok (verify id st' None fs')"
proof -
  let ?fs = "\<lparr>log = None, head_file = None, torn_file = None\<rparr>"
  obtain anchor st' fs' where s: "seal id os_fine ''now'' (HashChainLog id ''n'' False) ?fs = (Inr anchor, st', fs')"
    by (auto simp: seal_def Let_def HashChainLog_def flush_handle_def os_fine_def)
  have "anchor_write_ok os_fine" by (simp add: os_fine_def)
  with seal_empty_false_alarm [OF _ _ s] s show ?thesis by auto
qed

lemma numbered_legacy_rejected_witness:
  "\<exists>res st' fs'. append id os_fine True [(''a'', JInt 1)] (HashChainLog id ''n'' False)
       \<lparr>log = Some (record_line [(''seq'', JInt 1)]), head_file = None, torn_file = None\<rparr> = (res, st', fs')
     \<and> failure (verify_chain id (log fs') ''n'' None) = Some (UndeclaredLegacy 2)"
proof -
  let ?fs = "\<lparr>log = Some (record_line [(''seq'', JInt 1)]), head_file = None, torn_file = None\<rparr>"
  obtain res st' fs' where s: "append id os_fine True [(''a'', JInt 1)] (HashChainLog id ''n'' False) ?fs = (res, st', fs')"
    by (cases "append id os_fine True [(''a'', JInt 1)] (HashChainLog id ''n'' False) ?fs") auto
  have "failure (verify_chain id (log fs') ''n'' None) = Some (UndeclaredLegacy 2)"
    by (rule numbered_legacy_rejected [OF _ _ _ _ _ _ _ _ s, where l = "[(''seq'', JInt 1)]" and n = 1])
      (simp_all add: stored_def)
  with s show ?thesis by blast
qed

lemma carriage_return_hides_tail_witness:
  "ok (verify_chain id (Some (log_text [one_record] @ ''x'' @ CHR 0x0D # ''forged'')) ''n'' None)"
  using carriage_return_hides_tail [OF one_record_good, of "''forged''"] by simp

definition two_records :: "jdict list" where
  "two_records = [one_record, stored (chain_record id
     ((HashChainLog id ''n'' False)\<lparr>next_seq := 2, prev_hash := JStr (record_hash id one_record)\<rparr>)
     [(''b'', JInt 2)])]"

lemma two_records_good: "good_log id ''n'' [] two_records"
  unfolding two_records_def
  using extend_good [OF one_record_good, of "(HashChainLog id ''n'' False)\<lparr>next_seq := 2,
      prev_hash := JStr (record_hash id one_record)\<rparr>" "[(''b'', JInt 2)]"]
  by (simp add: cached_head_def head_of_def)

lemma seal_torn_then_append_gap_witness:
  "\<exists>anchor st1 fs1 res st2 fs2.
     seal id os_fine ''now'' ((HashChainLog id ''n'' False)\<lparr>loaded := True,
         observed_size := Some (length (log_text [one_record]))\<rparr>)
       \<lparr>log = Some (log_text [one_record] @ canonical_json (JObj (two_records ! 1))),
        head_file = None, torn_file = None\<rparr> = (Inr anchor, st1, fs1)
     \<and> append id os_fine True [(''a'', JInt 1)] st1 fs1 = (res, st2, fs2)
     \<and> failure (verify_chain id (log fs2) ''n'' None) = Some (SequenceGap 2 2 3)"
proof -
  let ?st = "(HashChainLog id ''n'' False)\<lparr>loaded := True, observed_size := Some (length (log_text [one_record]))\<rparr>"
  let ?fs = "\<lparr>log = Some (log_text [one_record] @ canonical_json (JObj (two_records ! 1))),
        head_file = None, torn_file = None\<rparr>"
  obtain anchor st1 fs1 where s: "seal id os_fine ''now'' ?st ?fs = (Inr anchor, st1, fs1)"
    by (auto simp: seal_def Let_def HashChainLog_def flush_handle_def os_fine_def reload_if_externally_appended_def
        ensure_loaded_def split: option.splits prod.splits)
  obtain res st2 fs2 where a: "append id os_fine True [(''a'', JInt 1)] st1 fs1 = (res, st2, fs2)"
    by (cases "append id os_fine True [(''a'', JInt 1)] st1 fs1") auto
  have g: "good_log id ''n'' [] ([one_record] @ [two_records ! 1])"
    using two_records_good by (simp add: two_records_def)
  have "failure (verify_chain id (log fs2) ''n'' None) =
     Some (SequenceGap (length [one_record] + 1) (int (length [one_record]) + 1) (int (length [one_record]) + 2))"
    by (rule seal_torn_then_append_gap [OF g _ _ _ _ _ _ s _ _ a])
      (simp_all add: HashChainLog_def del: canonical_json.simps)
  then have "failure (verify_chain id (log fs2) ''n'' None) = Some (SequenceGap 2 2 3)" by simp
  with s a show ?thesis by blast
qed

end
