(* ===== verification/Py_Values.thy ===== *)
theory Py_Values
  imports Json
begin

text \<open>
  The built-in conversions the repository applies to decoded JSON values: truth value,
  \<^verbatim>\<open>str\<close>, \<^verbatim>\<open>repr\<close> and \<^verbatim>\<open>int\<close>, with the exceptions they raise.  A floating-point number is
  carried by its decimal text, and \<^verbatim>\<open>int\<close> rounds that text to binary64 before it truncates.
\<close>

subsection \<open>Truth value and dictionary access\<close>

definition float_mantissa :: "string \<Rightarrow> string" where
  "float_mantissa t = takeWhile (\<lambda>c. c \<noteq> CHR ''e'' \<and> c \<noteq> CHR ''E'') t"

definition float_zero :: "string \<Rightarrow> bool" where
  "float_zero t \<longleftrightarrow> list_all (\<lambda>c. c \<in> {CHR ''0'', CHR ''.'', CHR ''-''}) (float_mantissa t)"

fun truthy :: "json \<Rightarrow> bool" where
  "truthy JNull = False"
| "truthy (JBool b) = b"
| "truthy (JInt i) = (i \<noteq> 0)"
| "truthy (JFloat t) = (\<not> float_zero t)"
| "truthy (JStr s) = (s \<noteq> [])"
| "truthy (JArr vs) = (vs \<noteq> [])"
| "truthy (JObj d) = (d \<noteq> [])"

text \<open>\<^verbatim>\<open>d.get(k)\<close>, and an optional text as a value.\<close>

definition dget :: "jdict \<Rightarrow> string \<Rightarrow> json" where
  "dget d k = (case map_of d k of None \<Rightarrow> JNull | Some v \<Rightarrow> v)"

definition jopt :: "string option \<Rightarrow> json" where
  "jopt x = (case x of None \<Rightarrow> JNull | Some s \<Rightarrow> JStr s)"

lemma jopt_simps [simp]: "jopt None = JNull" "jopt (Some s) = JStr s"
  by (simp_all add: jopt_def)

lemma wf_jopt [simp]: "wf_json (jopt x)"
  by (cases x) simp_all

lemma canon_jopt [simp]: "canon (jopt x) = jopt x"
  by (cases x) simp_all

subsection \<open>\<open>str\<close> and \<open>repr\<close>\<close>

definition printable :: "char \<Rightarrow> bool" where
  "printable c \<longleftrightarrow> (32 \<le> code c \<and> code c < 127) \<or> (161 \<le> code c \<and> code c \<noteq> 173)"

definition repr_char :: "char \<Rightarrow> char \<Rightarrow> string" where
  "repr_char q c =
     (if c = q \<or> c = CHR 0x5C then [CHR 0x5C, c]
      else if c = CHR 0x0A then [CHR 0x5C, CHR ''n'']
      else if c = CHR 0x0D then [CHR 0x5C, CHR ''r'']
      else if c = CHR 0x09 then [CHR 0x5C, CHR ''t'']
      else if printable c then [c]
      else [CHR 0x5C, CHR ''x'', hex_digit (code c div 16), hex_digit (code c mod 16)])"

definition repr_str :: "string \<Rightarrow> string" where
  "repr_str s =
     (let q = (if CHR 0x27 \<in> set s \<and> CHR 0x22 \<notin> set s then CHR 0x22 else CHR 0x27)
      in [q] @ concat (map (repr_char q) s) @ [q])"

definition str_float :: "string \<Rightarrow> string" where
  "str_float t = (if t = ''NaN'' then ''nan'' else if t = ''Infinity'' then ''inf''
                  else if t = ''-Infinity'' then ''-inf'' else t)"

fun py_repr :: "json \<Rightarrow> string" where
  "py_repr JNull = ''None''"
| "py_repr (JBool b) = (if b then ''True'' else ''False'')"
| "py_repr (JInt i) = show_int i"
| "py_repr (JFloat t) = str_float t"
| "py_repr (JStr s) = repr_str s"
| "py_repr (JArr vs) = ''['' @ join '', '' (map py_repr vs) @ '']''"
| "py_repr (JObj d) = ''{'' @ join '', '' (map (\<lambda>(k, v). repr_str k @ '': '' @ py_repr v) d) @ ''}''"

fun py_str :: "json \<Rightarrow> string" where
  "py_str (JStr s) = s"
| "py_str v = py_repr v"

text \<open>\<^verbatim>\<open>str(v or default)\<close>.\<close>

definition str_or :: "json \<Rightarrow> string \<Rightarrow> string" where
  "str_or v d = (if truthy v then py_str v else d)"

subsection \<open>\<open>int\<close>\<close>

datatype int_exc = IntTypeError | IntValueError | IntOverflowError

text \<open>
  \<^verbatim>\<open>int\<close> of a text: white space is stripped, one sign is allowed, digits may be separated by
  single underscores, and more than 4300 digits are refused.
\<close>

fun int_digits :: "string \<Rightarrow> string option" where
  "int_digits [] = None"
| "int_digits [c] = (if is_digit c then Some [c] else None)"
| "int_digits (c # d # cs) =
     (if \<not> is_digit c then None
      else map_option ((#) c) (int_digits (if d = CHR ''_'' then cs else d # cs)))"

definition int_of_text :: "string \<Rightarrow> int_exc + int" where
  "int_of_text s =
     (let t = strip s;
          neg = (t \<noteq> [] \<and> hd t = CHR ''-'');
          body = (if t \<noteq> [] \<and> (hd t = CHR ''-'' \<or> hd t = CHR ''+'') then tl t else t)
      in case int_digits body of
           None \<Rightarrow> Inl IntValueError
         | Some ds \<Rightarrow> if 4300 < length ds then Inl IntValueError
                     else Inr (if neg then - int (read_nat ds) else int (read_nat ds)))"

text \<open>
  \<^verbatim>\<open>int\<close> of a float: the decimal text is the fraction \<open>p / q\<close>; \<open>float_trunc\<close> rounds it to 53
  significant bits, ties to even, and drops the fractional part.
\<close>

fun bit_len :: "nat \<Rightarrow> nat" where
  "bit_len n = (if n = 0 then 0 else Suc (bit_len (n div 2)))"

declare bit_len.simps [simp del]

definition round_even :: "nat \<Rightarrow> nat \<Rightarrow> nat" where
  "round_even p q =
     (let m = p div q; r = p mod q
      in if q < 2 * r \<or> (2 * r = q \<and> odd m) then Suc m else m)"

definition float_trunc :: "nat \<Rightarrow> nat \<Rightarrow> nat" where
  "float_trunc p q =
     (let e = int (bit_len p) - int (bit_len q);
          fits = (\<lambda>k::int. if k \<ge> 0 then p < q * 2 ^ (53 + nat k) else p * 2 ^ nat (- k) < q * 2 ^ 53);
          k = (if fits (e - 53) then e - 53 else e - 52)
      in if k \<ge> 0 then round_even p (q * 2 ^ nat k) * 2 ^ nat k
         else round_even (p * 2 ^ nat (- k)) q div 2 ^ nat (- k))"

definition exp_value :: "string \<Rightarrow> int" where
  "exp_value s = (case s of [] \<Rightarrow> 0
     | e # r \<Rightarrow> (case r of [] \<Rightarrow> 0
         | c # cs \<Rightarrow> if c = CHR ''-'' then - int (read_nat cs)
                     else if c = CHR ''+'' then int (read_nat cs) else int (read_nat r)))"

definition int_of_float :: "string \<Rightarrow> int_exc + int" where
  "int_of_float t =
     (if t = ''NaN'' then Inl IntValueError
      else if special_float t then Inl IntOverflowError
      else
        let neg = (t \<noteq> [] \<and> hd t = CHR ''-'');
            body = (if neg then tl t else t);
            ip = takeWhile is_digit body; r = dropWhile is_digit body;
            fp = (if r \<noteq> [] \<and> hd r = CHR ''.'' then takeWhile is_digit (tl r) else []);
            ex = (if r \<noteq> [] \<and> hd r = CHR ''.'' then dropWhile is_digit (tl r) else r);
            k = exp_value ex - int (length fp);
            m = read_nat (ip @ fp);
            n = (if k \<ge> 0 then float_trunc (m * 10 ^ nat k) 1 else float_trunc m (10 ^ nat (- k)))
        in if 2 ^ 1024 \<le> n then Inl IntOverflowError
           else Inr (if neg then - int n else int n))"

definition py_int :: "json \<Rightarrow> int_exc + int" where
  "py_int v = (case v of
      JInt i \<Rightarrow> Inr i
    | JBool b \<Rightarrow> Inr (if b then 1 else 0)
    | JStr s \<Rightarrow> int_of_text s
    | JFloat t \<Rightarrow> int_of_float t
    | _ \<Rightarrow> Inl IntTypeError)"

lemma py_int_JInt [simp]: "py_int (JInt i) = Inr i"
  by (simp add: py_int_def)

end
