(* ===== verification/Run_State.thy ===== *)
theory Run_State
  imports Py_Values
begin

text \<open>
  The durable lifecycle state of one agent execution,
  \<^verbatim>\<open>engine/execution/orchestration/run_state.py\<close>: the record and its two methods, the
  dictionary form, the resume scope, the store with its deferred-event buffer, and the
  projection of execution events.  The directory is a dictionary from file stems to
  contents; a store operation receives an environment with the successive clock readings and
  the operating system's answer to each save, and returns its result, an exception or a
  value, with the store it leaves behind.
\<close>

subsection \<open>Status and lifecycle edges\<close>

datatype run_status = QUEUED | RUNNING | WAITING_APPROVAL | COMPLETED | INCOMPLETE | FAILED | CANCELLED

datatype run_exc =
    RunStateError | RunStateTransitionError | RunScopeMismatchError
  | ValueError | UnicodeDecodeError | TypeError | OverflowError

text \<open>\<^verbatim>\<open>except RunStateError\<close> and \<^verbatim>\<open>except ValueError\<close> with their subclasses.\<close>

fun is_RunStateError :: "run_exc \<Rightarrow> bool" where
  "is_RunStateError RunStateError = True"
| "is_RunStateError RunStateTransitionError = True"
| "is_RunStateError RunScopeMismatchError = True"
| "is_RunStateError _ = False"

fun is_ValueError :: "run_exc \<Rightarrow> bool" where
  "is_ValueError ValueError = True"
| "is_ValueError UnicodeDecodeError = True"
| "is_ValueError _ = False"

fun status_value :: "run_status \<Rightarrow> string" where
  "status_value QUEUED = ''queued''"
| "status_value RUNNING = ''running''"
| "status_value WAITING_APPROVAL = ''waiting_approval''"
| "status_value COMPLETED = ''completed''"
| "status_value INCOMPLETE = ''incomplete''"
| "status_value FAILED = ''failed''"
| "status_value CANCELLED = ''cancelled''"

definition all_status :: "run_status list" where
  "all_status = [QUEUED, RUNNING, WAITING_APPROVAL, COMPLETED, INCOMPLETE, FAILED, CANCELLED]"

definition RunStatus :: "string \<Rightarrow> run_exc + run_status" where
  "RunStatus t = (case find (\<lambda>s. status_value s = t) all_status of
     None \<Rightarrow> Inl ValueError | Some s \<Rightarrow> Inr s)"

fun ALLOWED_TRANSITIONS :: "run_status \<Rightarrow> run_status list" where
  "ALLOWED_TRANSITIONS QUEUED = [RUNNING, FAILED, CANCELLED]"
| "ALLOWED_TRANSITIONS RUNNING = [RUNNING, WAITING_APPROVAL, COMPLETED, INCOMPLETE, FAILED, CANCELLED]"
| "ALLOWED_TRANSITIONS WAITING_APPROVAL = [RUNNING, FAILED, CANCELLED]"
| "ALLOWED_TRANSITIONS COMPLETED = [COMPLETED]"
| "ALLOWED_TRANSITIONS INCOMPLETE = [INCOMPLETE, RUNNING]"
| "ALLOWED_TRANSITIONS FAILED = [FAILED, RUNNING]"
| "ALLOWED_TRANSITIONS CANCELLED = [CANCELLED, RUNNING]"

definition LIVE_RUN_STATUSES :: "run_status list" where
  "LIVE_RUN_STATUSES = [QUEUED, RUNNING, WAITING_APPROVAL]"

definition id_char :: "char \<Rightarrow> bool" where
  "id_char c \<longleftrightarrow> (65 \<le> code c \<and> code c \<le> 90) \<or> (97 \<le> code c \<and> code c \<le> 122)
     \<or> (48 \<le> code c \<and> code c \<le> 57) \<or> c = CHR ''_'' \<or> c = CHR ''-''"

definition RUN_ID_RE :: "string \<Rightarrow> bool" where
  "RUN_ID_RE s \<longleftrightarrow> list_all id_char s \<and> 1 \<le> length s \<and> length s \<le> 128"

subsection \<open>Bounded fields\<close>

definition bounded_text :: "nat \<Rightarrow> json \<Rightarrow> string option" where
  "bounded_text limit v =
     (if v = JNull then None
      else let t = take limit (py_str v) in if t = [] then None else Some t)"

definition bounded_entry :: "jdict \<Rightarrow> string \<Rightarrow> jdict" where
  "bounded_entry d k = (case bounded_text 100 (dget d k) of None \<Rightarrow> [] | Some t \<Rightarrow> [(k, JStr t)])"

definition bounded_error_details :: "json \<Rightarrow> jdict option" where
  "bounded_error_details v = (case v of
      JObj d \<Rightarrow>
        (let details =
           bounded_entry d ''kind'' @ bounded_entry d ''stage'' @ bounded_entry d ''type''
             @ bounded_entry d ''provider''
             @ (case dget d ''http_status'' of
                  JInt n \<Rightarrow> if 100 \<le> n \<and> n \<le> 599 then [(''http_status'', JInt n)] else []
                | _ \<Rightarrow> [])
             @ (case dget d ''retryable'' of JBool b \<Rightarrow> [(''retryable'', JBool b)] | _ \<Rightarrow> [])
         in if details = [] then None else Some details)
    | _ \<Rightarrow> None)"

subsection \<open>\<open>RunState\<close>\<close>

record run_state =
  run_id :: string
  agent_id :: string
  session_id :: "string option"
  message_id :: "string option"
  identity_id :: "string option"
  working_dir :: "string option"
  forced_skill :: "string option"
  status :: run_status
  created_at :: string
  updated_at :: string
  event_seq :: int
  last_event_type :: "string option"
  current_skill :: "string option"
  current_tool :: "string option"
  reason :: "string option"
  error :: "string option"
  error_details :: "jdict option"
  approval_id :: "string option"
  approval_tool :: "string option"
  approval_level :: "string option"
  approval_reason :: "string option"

text \<open>\<^verbatim>\<open>RunState.transition\<close>; \<open>now\<close> is the clock reading it takes.\<close>

definition state_transition ::
  "string \<Rightarrow> string \<Rightarrow> string option \<Rightarrow> string option \<Rightarrow> jdict option \<Rightarrow> run_state \<Rightarrow> run_exc + run_state" where
  "state_transition now target rsn err details s =
     bind_res (RunStatus target) (\<lambda>t.
       if t \<notin> set (ALLOWED_TRANSITIONS (status s)) then Inl RunStateTransitionError
       else Inr (s\<lparr>status := t,
          reason := (if rsn \<noteq> None then bounded_text 200 (jopt rsn) else reason s),
          error := (if err \<noteq> None then bounded_text 200 (jopt err) else error s),
          error_details := (case details of None \<Rightarrow> error_details s
                            | Some d \<Rightarrow> bounded_error_details (JObj d)),
          updated_at := now\<rparr>))"

definition state_record_event ::
  "string \<Rightarrow> string \<Rightarrow> json \<Rightarrow> json \<Rightarrow> bool \<Rightarrow> bool \<Rightarrow> run_state \<Rightarrow> run_state" where
  "state_record_event now event_type skill tool clear_skill clear_tool s =
     s\<lparr>event_seq := event_seq s + 1,
       last_event_type := bounded_text 200 (JStr event_type),
       current_skill := (if skill \<noteq> JNull then bounded_text 200 skill
                         else if clear_skill then None else current_skill s),
       current_tool := (if tool \<noteq> JNull then bounded_text 200 tool
                        else if clear_tool then None else current_tool s),
       updated_at := now\<rparr>"

definition jobj_opt :: "jdict option \<Rightarrow> json" where
  "jobj_opt x = (case x of None \<Rightarrow> JNull | Some d \<Rightarrow> JObj d)"

definition to_dict :: "run_state \<Rightarrow> jdict" where
  "to_dict s = [
     (''run_id'', JStr (run_id s)),
     (''agent_id'', JStr (agent_id s)),
     (''session_id'', jopt (session_id s)),
     (''message_id'', jopt (message_id s)),
     (''identity_id'', jopt (identity_id s)),
     (''working_dir'', jopt (working_dir s)),
     (''forced_skill'', jopt (forced_skill s)),
     (''status'', JStr (status_value (status s))),
     (''created_at'', JStr (created_at s)),
     (''updated_at'', JStr (updated_at s)),
     (''event_seq'', JInt (event_seq s)),
     (''last_event_type'', jopt (last_event_type s)),
     (''current_skill'', jopt (current_skill s)),
     (''current_tool'', jopt (current_tool s)),
     (''reason'', jopt (reason s)),
     (''error'', jopt (error s)),
     (''error_details'', jobj_opt (error_details s)),
     (''approval_id'', jopt (approval_id s)),
     (''approval_tool'', jopt (approval_tool s)),
     (''approval_level'', jopt (approval_level s)),
     (''approval_reason'', jopt (approval_reason s))]"

text \<open>
  The clock readings of one operation, in order; \<open>from_dict\<close> may take two (for a missing
  \<^verbatim>\<open>created_at\<close> and \<^verbatim>\<open>updated_at\<close>), so the methods that follow a read use the third on.
\<close>

type_synonym clock = "nat \<Rightarrow> string"

definition event_seq_of :: "jdict \<Rightarrow> run_exc + int" where
  "event_seq_of d =
     (case py_int (case map_of d ''event_seq'' of None \<Rightarrow> JInt 0 | Some v \<Rightarrow> v) of
        Inr n \<Rightarrow> Inr (max 0 n)
      | Inl IntOverflowError \<Rightarrow> Inl OverflowError
      | Inl _ \<Rightarrow> Inl RunStateError)"

definition state_of_dict :: "clock \<Rightarrow> jdict \<Rightarrow> json \<Rightarrow> json \<Rightarrow> run_status \<Rightarrow> int \<Rightarrow> run_state" where
  "state_of_dict now d rid aid st n = \<lparr>
     run_id = py_str rid,
     agent_id = py_str aid,
     session_id = bounded_text 200 (dget d ''session_id''),
     message_id = bounded_text 200 (dget d ''message_id''),
     identity_id = bounded_text 200 (dget d ''identity_id''),
     working_dir = bounded_text 1024 (dget d ''working_dir''),
     forced_skill = bounded_text 200 (dget d ''forced_skill''),
     status = st,
     created_at = str_or (dget d ''created_at'') (now 0),
     updated_at = str_or (dget d ''updated_at'') (now 1),
     event_seq = n,
     last_event_type = bounded_text 200 (dget d ''last_event_type''),
     current_skill = bounded_text 200 (dget d ''current_skill''),
     current_tool = bounded_text 200 (dget d ''current_tool''),
     reason = bounded_text 200 (dget d ''reason''),
     error = bounded_text 200 (dget d ''error''),
     error_details = bounded_error_details (dget d ''error_details''),
     approval_id = bounded_text 200 (dget d ''approval_id''),
     approval_tool = bounded_text 200 (dget d ''approval_tool''),
     approval_level = bounded_text 200 (dget d ''approval_level''),
     approval_reason = bounded_text 200 (dget d ''approval_reason'')\<rparr>"

definition from_dict :: "clock \<Rightarrow> jdict \<Rightarrow> run_exc + run_state" where
  "from_dict now d =
     (case (map_of d ''run_id'', map_of d ''agent_id'', map_of d ''status'') of
        (Some rid, Some aid, Some sv) \<Rightarrow>
          (case RunStatus (py_str sv) of
             Inl _ \<Rightarrow> Inl RunStateError
           | Inr st \<Rightarrow> bind_res (event_seq_of d) (\<lambda>n. Inr (state_of_dict now d rid aid st n)))
      | _ \<Rightarrow> Inl RunStateError)"

subsection \<open>\<open>RunScope\<close>\<close>

record run_scope =
  scope_agent_id :: string
  scope_session_id :: "string option"
  scope_message_id :: "string option"
  scope_identity_id :: "string option"
  scope_working_dir :: "string option"
  scope_forced_skill :: "string option"

definition agent_or_unknown :: "string \<Rightarrow> string" where
  "agent_or_unknown a = (case bounded_text 200 (JStr a) of None \<Rightarrow> ''unknown'' | Some t \<Rightarrow> t)"

definition scope_create ::
  "string \<Rightarrow> string option \<Rightarrow> string option \<Rightarrow> string option \<Rightarrow> string option \<Rightarrow> string option \<Rightarrow> run_scope" where
  "scope_create agent session message identity wd skill = \<lparr>
     scope_agent_id = agent_or_unknown agent,
     scope_session_id = bounded_text 200 (jopt session),
     scope_message_id = bounded_text 200 (jopt message),
     scope_identity_id = bounded_text 200 (jopt identity),
     scope_working_dir = bounded_text 1024 (jopt wd),
     scope_forced_skill = bounded_text 200 (jopt skill)\<rparr>"

definition scope_from_state :: "run_state \<Rightarrow> run_scope" where
  "scope_from_state s = \<lparr>
     scope_agent_id = agent_id s,
     scope_session_id = session_id s,
     scope_message_id = message_id s,
     scope_identity_id = identity_id s,
     scope_working_dir = working_dir s,
     scope_forced_skill = forced_skill s\<rparr>"

definition mismatched_fields :: "run_scope \<Rightarrow> run_state \<Rightarrow> string list" where
  "mismatched_fields sc s =
     (let p = scope_from_state s in
      (if scope_agent_id p \<noteq> scope_agent_id sc then [''agent_id''] else [])
      @ (if scope_session_id p \<noteq> scope_session_id sc then [''session_id''] else [])
      @ (if scope_message_id p \<noteq> scope_message_id sc then [''message_id''] else [])
      @ (if scope_identity_id p \<noteq> scope_identity_id sc then [''identity_id''] else [])
      @ (if scope_working_dir p \<noteq> scope_working_dir sc then [''working_dir''] else [])
      @ (if scope_forced_skill p \<noteq> scope_forced_skill sc then [''forced_skill''] else []))"

subsection \<open>The store: files, buffer, reading and saving\<close>

text \<open>
  The contents of one \<^verbatim>\<open><stem>.json\<close> file: text, bytes that are not UTF-8, or a file that
  cannot be read.  A save succeeds, fails before the atomic rename, or fails after it (the
  permission change that follows is inside the same \<^verbatim>\<open>try\<close>).
\<close>

datatype file_body = FText string | FBadUtf8 | FUnreadable

datatype save_answer = SaveOk | SaveFails | SaveFailsAfterRename

record run_store =
  files :: "(string, file_body) dict"
  deferred :: "(string, nat \<times> string option) dict"

record env =
  now :: clock
  saves :: "nat \<Rightarrow> save_answer"

type_synonym 'a run_op = "run_store \<Rightarrow> (run_exc + 'a) \<times> run_store"

definition validate_run_id :: "string \<Rightarrow> run_exc + string" where
  "validate_run_id r = (if RUN_ID_RE r then Inr r else Inl ValueError)"

definition apply_deferred :: "run_store \<Rightarrow> run_state \<Rightarrow> run_state" where
  "apply_deferred st s = (case map_of (deferred st) (run_id s) of
      None \<Rightarrow> s
    | Some (n, l) \<Rightarrow>
        s\<lparr>event_seq := event_seq s + int n,
          last_event_type := (if l \<noteq> None then l else last_event_type s)\<rparr>)"

definition decode_state :: "clock \<Rightarrow> string \<Rightarrow> file_body \<Rightarrow> run_exc + run_state" where
  "decode_state clk r body = (case body of
      FUnreadable \<Rightarrow> Inl RunStateError
    | FBadUtf8 \<Rightarrow> Inl UnicodeDecodeError
    | FText t \<Rightarrow>
        (case loads t of
           Some (JObj d) \<Rightarrow>
             bind_res (from_dict clk d) (\<lambda>s. if run_id s \<noteq> r then Inl RunStateError else Inr s)
         | _ \<Rightarrow> Inl RunStateError))"

definition get :: "clock \<Rightarrow> string \<Rightarrow> run_store \<Rightarrow> run_exc + run_state option" where
  "get clk r st =
     bind_res (validate_run_id r) (\<lambda>_.
       case map_of (files st) r of
         None \<Rightarrow> Inr None
       | Some body \<Rightarrow>
           bind_res (decode_state clk r body) (\<lambda>s. Inr (Some (apply_deferred st s))))"

definition require :: "clock \<Rightarrow> string \<Rightarrow> run_store \<Rightarrow> run_exc + run_state" where
  "require clk r st =
     bind_res (get clk r st) (\<lambda>x. case x of None \<Rightarrow> Inl RunStateError | Some s \<Rightarrow> Inr s)"

definition state_payload :: "run_state \<Rightarrow> string" where
  "state_payload s = canonical_json (JObj (to_dict s))"

definition pop_deferred :: "string \<Rightarrow> run_store \<Rightarrow> run_store" where
  "pop_deferred r st = st\<lparr>deferred := AList.delete r (deferred st)\<rparr>"

definition write_state :: "run_state \<Rightarrow> run_store \<Rightarrow> run_store" where
  "write_state s st = st\<lparr>files := dset (run_id s) (FText (state_payload s)) (files st)\<rparr>"

definition save :: "save_answer \<Rightarrow> run_state \<Rightarrow> unit run_op" where
  "save ans s st =
     (case validate_run_id (run_id s) of
        Inl e \<Rightarrow> (Inl e, st)
      | Inr _ \<Rightarrow>
          (let st1 = pop_deferred (run_id s) st
           in case ans of
                SaveOk \<Rightarrow> (Inr (), write_state s st1)
              | SaveFails \<Rightarrow> (Inl RunStateError, st1)
              | SaveFailsAfterRename \<Rightarrow> (Inl RunStateError, write_state s st1)))"

text \<open>\<^verbatim>\<open>self.save(state); return state\<close>, after the checks that may raise.\<close>

definition save_result :: "save_answer \<Rightarrow> run_exc + run_state \<Rightarrow> run_state run_op" where
  "save_result ans r st = (case r of
      Inl e \<Rightarrow> (Inl e, st)
    | Inr s \<Rightarrow> (case save ans s st of (Inl e, st') \<Rightarrow> (Inl e, st') | (Inr _, st') \<Rightarrow> (Inr s, st')))"

subsection \<open>Store operations\<close>

definition create ::
  "env \<Rightarrow> string \<Rightarrow> string \<Rightarrow> string option \<Rightarrow> string option \<Rightarrow> string option \<Rightarrow> string option
     \<Rightarrow> string option \<Rightarrow> run_state run_op" where
  "create e r agent session message identity wd skill st =
     (case validate_run_id r of
        Inl x \<Rightarrow> (Inl x, st)
      | Inr _ \<Rightarrow>
          if map_of (files st) r \<noteq> None then (Inl RunStateError, st)
          else save_result (saves e 0) (Inr \<lparr>
            run_id = r,
            agent_id = agent_or_unknown agent,
            session_id = bounded_text 200 (jopt session),
            message_id = bounded_text 200 (jopt message),
            identity_id = bounded_text 200 (jopt identity),
            working_dir = bounded_text 1024 (jopt wd),
            forced_skill = bounded_text 200 (jopt skill),
            status = QUEUED, created_at = now e 0, updated_at = now e 1, event_seq = 0,
            last_event_type = None, current_skill = None, current_tool = None,
            reason = None, error = None, error_details = None,
            approval_id = None, approval_tool = None, approval_level = None,
            approval_reason = None\<rparr>) st)"

definition validate_resume :: "clock \<Rightarrow> string \<Rightarrow> run_scope option \<Rightarrow> run_store \<Rightarrow> run_exc + run_state" where
  "validate_resume clk r scope st =
     bind_res (require clk r st) (\<lambda>s.
       if (case scope of None \<Rightarrow> False | Some sc \<Rightarrow> mismatched_fields sc s \<noteq> [])
       then Inl RunScopeMismatchError
       else if status s \<notin> {INCOMPLETE, FAILED, CANCELLED} then Inl RunStateTransitionError
       else Inr s)"

definition resume :: "env \<Rightarrow> string \<Rightarrow> run_scope option \<Rightarrow> run_state run_op" where
  "resume e r scope st = save_result (saves e 0)
     (bind_res (validate_resume (now e) r scope st) (\<lambda>s.
        bind_res (state_transition (now e 2) (status_value RUNNING) (Some ''resumed'') None None s)
          (\<lambda>s. Inr (state_record_event (now e 3) ''run_resumed'' JNull JNull False False s)))) st"

definition bind_identity :: "env \<Rightarrow> string \<Rightarrow> string \<Rightarrow> run_state run_op" where
  "bind_identity e r ident st =
     (case require (now e) r st of
        Inl x \<Rightarrow> (Inl x, st)
      | Inr s \<Rightarrow>
          (case bounded_text 200 (JStr ident) of
             None \<Rightarrow> (Inl ValueError, st)
           | Some normalized \<Rightarrow>
               if identity_id s \<notin> {None, Some normalized} then (Inl RunScopeMismatchError, st)
               else if identity_id s = Some normalized then (Inr s, st)
               else save_result (saves e 0)
                      (Inr (s\<lparr>identity_id := Some normalized, updated_at := now e 2\<rparr>)) st))"

definition request_approval ::
  "env \<Rightarrow> string \<Rightarrow> string \<Rightarrow> string \<Rightarrow> string \<Rightarrow> string \<Rightarrow> run_state run_op" where
  "request_approval e r aid tool level rsn st = save_result (saves e 0)
     (bind_res (require (now e) r st) (\<lambda>s.
        if status s \<noteq> RUNNING then Inl RunStateTransitionError
        else
          state_transition (now e 3) (status_value WAITING_APPROVAL) (Some rsn) None None
            (state_record_event (now e 2) ''approval_required'' JNull JNull False True
              (s\<lparr>approval_id := bounded_text 200 (JStr aid),
                 approval_tool := bounded_text 200 (JStr tool),
                 approval_level := bounded_text 200 (JStr level),
                 approval_reason := bounded_text 200 (JStr rsn)\<rparr>)))) st"

definition clear_approval :: "run_state \<Rightarrow> run_state" where
  "clear_approval s =
     s\<lparr>approval_id := None, approval_tool := None, approval_level := None, approval_reason := None\<rparr>"

definition resolution :: "bool \<Rightarrow> string" where
  "resolution approved = (if approved then ''approval_granted'' else ''approval_denied'')"

text \<open>\<^verbatim>\<open>x or default\<close> for an optional text.\<close>

definition text_or :: "string option \<Rightarrow> string \<Rightarrow> string" where
  "text_or x d = (case x of None \<Rightarrow> d | Some t \<Rightarrow> if t = [] then d else t)"

definition resolved_state ::
  "env \<Rightarrow> bool \<Rightarrow> string option \<Rightarrow> string option \<Rightarrow> run_state \<Rightarrow> run_exc + run_state" where
  "resolved_state e approved event_type rsn s =
     state_transition (now e 3) (status_value RUNNING) (Some (text_or rsn (resolution approved))) None None
       (state_record_event (now e 2) (text_or event_type (resolution approved)) JNull JNull False False
         (clear_approval s))"

definition resolve_approval ::
  "env \<Rightarrow> string \<Rightarrow> string \<Rightarrow> bool \<Rightarrow> string option \<Rightarrow> string option \<Rightarrow> run_state run_op" where
  "resolve_approval e r aid approved event_type rsn st = save_result (saves e 0)
     (bind_res (require (now e) r st) (\<lambda>s.
        if status s \<noteq> WAITING_APPROVAL then Inl RunStateTransitionError
        else if approval_id s \<noteq> Some aid then Inl RunStateError
        else resolved_state e approved event_type rsn s)) st"

definition resolve_approval_if_waiting ::
  "env \<Rightarrow> string \<Rightarrow> string \<Rightarrow> bool \<Rightarrow> string option \<Rightarrow> string option \<Rightarrow> run_state run_op" where
  "resolve_approval_if_waiting e r aid approved event_type rsn st =
     (case require (now e) r st of
        Inl x \<Rightarrow> (Inl x, st)
      | Inr s \<Rightarrow>
          if status s \<noteq> WAITING_APPROVAL then (Inr s, st)
          else if approval_id s \<noteq> Some aid then (Inr s, st)
          else save_result (saves e 0) (resolved_state e approved event_type rsn s) st)"

text \<open>
  \<^verbatim>\<open>sorted(self.root.glob("*.json"))\<close>: the paths differ in the file name only, so the order
  is that of the names with their suffix.
\<close>

definition run_stems :: "run_store \<Rightarrow> string list" where
  "run_stems st = sort_key (\<lambda>r. r @ ''.json'') (dkeys (files st))"

definition later :: "nat \<Rightarrow> nat \<Rightarrow> env \<Rightarrow> env" where
  "later k m e = \<lparr>now = (\<lambda>i. now e (i + k)), saves = (\<lambda>i. saves e (i + m))\<rparr>"

definition interrupted_state :: "env \<Rightarrow> run_state \<Rightarrow> run_exc + run_state" where
  "interrupted_state e s =
     state_transition (now e 3) (status_value CANCELLED) (Some ''server_restarted'') None None
       (state_record_event (now e 2) ''run_interrupted'' JNull JNull True True (clear_approval s))"

text \<open>
  One turn of the recovery loop: \<open>Inr False\<close> is the \<^verbatim>\<open>continue\<close> branches, \<open>Inr True\<close> a
  recovered run; an exception that is not a \<^verbatim>\<open>RunStateError\<close> leaves the loop.
\<close>

definition recover_one :: "env \<Rightarrow> string \<Rightarrow> bool run_op" where
  "recover_one e r st =
     (if \<not> RUN_ID_RE r then (Inr False, st)
      else case get (now e) r st of
        Inl x \<Rightarrow> if is_RunStateError x then (Inr False, st) else (Inl x, st)
      | Inr None \<Rightarrow> (Inr False, st)
      | Inr (Some s) \<Rightarrow>
          if status s \<notin> {QUEUED, RUNNING, WAITING_APPROVAL} then (Inr False, st)
          else (case save_result (saves e 0) (interrupted_state e s) st of
                  (Inl x, st') \<Rightarrow> (Inl x, st')
                | (Inr _, st') \<Rightarrow> (Inr True, st')))"

fun recover_loop :: "env \<Rightarrow> string list \<Rightarrow> string list run_op" where
  "recover_loop e [] st = (Inr [], st)"
| "recover_loop e (r # rs) st =
     (case recover_one e r st of
        (Inl x, st') \<Rightarrow> (Inl x, st')
      | (Inr b, st') \<Rightarrow>
          (case recover_loop (later 4 1 e) rs st' of
             (Inl x, st'') \<Rightarrow> (Inl x, st'')
           | (Inr out, st'') \<Rightarrow> (Inr (if b then r # out else out), st'')))"

definition recover_interrupted :: "env \<Rightarrow> string list run_op" where
  "recover_interrupted e st = recover_loop e (run_stems st) st"

fun list_loop :: "clock \<Rightarrow> run_store \<Rightarrow> string list \<Rightarrow> run_exc + run_state list" where
  "list_loop clk st [] = Inr []"
| "list_loop clk st (r # rs) =
     (if \<not> RUN_ID_RE r then list_loop clk st rs
      else case get clk r st of
        Inl x \<Rightarrow> if is_RunStateError x then list_loop (\<lambda>i. clk (i + 2)) st rs else Inl x
      | Inr None \<Rightarrow> list_loop (\<lambda>i. clk (i + 2)) st rs
      | Inr (Some s) \<Rightarrow> bind_res (list_loop (\<lambda>i. clk (i + 2)) st rs) (\<lambda>out. Inr (s # out)))"

definition list_states :: "clock \<Rightarrow> run_store \<Rightarrow> run_exc + run_state list" where
  "list_states clk st = list_loop clk st (run_stems st)"

definition remove_run :: "string \<Rightarrow> run_store \<Rightarrow> run_store" where
  "remove_run r st = \<lparr>files = AList.delete r (files st), deferred = AList.delete r (deferred st)\<rparr>"

definition prune :: "clock \<Rightarrow> string \<Rightarrow> bool run_op" where
  "prune clk r st =
     (case validate_run_id r of
        Inl x \<Rightarrow> (Inl x, st)
      | Inr _ \<Rightarrow>
          (case get clk r st of
             Inl x \<Rightarrow> if is_RunStateError x \<or> is_ValueError x then (Inr True, remove_run r st)
                      else (Inl x, st)
           | Inr (Some s) \<Rightarrow>
               if status s \<in> set LIVE_RUN_STATUSES then (Inr False, st)
               else (Inr True, remove_run r st)
           | Inr None \<Rightarrow> (Inr True, remove_run r st)))"

definition defer_event :: "string \<Rightarrow> string \<Rightarrow> unit run_op" where
  "defer_event r event_type st =
     (case validate_run_id r of
        Inl x \<Rightarrow> (Inl x, st)
      | Inr _ \<Rightarrow>
          (let n = (case map_of (deferred st) r of None \<Rightarrow> 0 | Some (n, l) \<Rightarrow> n)
           in (Inr (), st\<lparr>deferred := dset r (n + 1, bounded_text 200 (JStr event_type)) (deferred st)\<rparr>)))"

definition transition ::
  "env \<Rightarrow> string \<Rightarrow> string \<Rightarrow> string option \<Rightarrow> string option \<Rightarrow> string option \<Rightarrow> jdict option \<Rightarrow> run_state run_op" where
  "transition e r target event_type rsn err details st = save_result (saves e 0)
     (bind_res (require (now e) r st) (\<lambda>s.
        state_transition (now e 3) target rsn err details
          (case event_type of None \<Rightarrow> s
           | Some t \<Rightarrow> state_record_event (now e 2) t JNull JNull False False s))) st"

definition record_event ::
  "env \<Rightarrow> string \<Rightarrow> string \<Rightarrow> json \<Rightarrow> json \<Rightarrow> bool \<Rightarrow> bool \<Rightarrow> run_state run_op" where
  "record_event e r event_type skill tool clear_skill clear_tool st = save_result (saves e 0)
     (bind_res (require (now e) r st) (\<lambda>s.
        Inr (state_record_event (now e 2) event_type skill tool clear_skill clear_tool s))) st"

subsection \<open>Projection of execution events\<close>

datatype event_type =
    RUN_STARTED | RAW_RESPONSE_EVENT | THINKING | TEXT_DELTA | TOOL_CALL_START | TOOL_CALL_RESULT
  | SKILL_START | SKILL_END | GATE_RESULT | GATE_EVIDENCE | ROUTE_DECIDED | BACKTRACK | BLOCKED
  | AWAITING_INPUT | TOKEN_USAGE | CONTEXT_USAGE | CONTEXT_COMPRESSION_START
  | CONTEXT_COMPRESSION_END | PROVISIONAL_TEXT_DELTA | PROVISIONAL_COMMIT | PROVISIONAL_RETRACT
  | SMITH_UI | SMITH_UI_FALLBACK | EV_INCOMPLETE | EV_FAILED | DONE | RUN_FINISHED

fun event_value :: "event_type \<Rightarrow> string" where
  "event_value RUN_STARTED = ''run_started''"
| "event_value RAW_RESPONSE_EVENT = ''raw_response_event''"
| "event_value THINKING = ''thinking''"
| "event_value TEXT_DELTA = ''text_delta''"
| "event_value TOOL_CALL_START = ''tool_call_start''"
| "event_value TOOL_CALL_RESULT = ''tool_call_result''"
| "event_value SKILL_START = ''skill_start''"
| "event_value SKILL_END = ''skill_end''"
| "event_value GATE_RESULT = ''gate_result''"
| "event_value GATE_EVIDENCE = ''gate_evidence''"
| "event_value ROUTE_DECIDED = ''route_decided''"
| "event_value BACKTRACK = ''backtrack''"
| "event_value BLOCKED = ''blocked''"
| "event_value AWAITING_INPUT = ''awaiting_input''"
| "event_value TOKEN_USAGE = ''token_usage''"
| "event_value CONTEXT_USAGE = ''context_usage''"
| "event_value CONTEXT_COMPRESSION_START = ''context_compression_start''"
| "event_value CONTEXT_COMPRESSION_END = ''context_compression_end''"
| "event_value PROVISIONAL_TEXT_DELTA = ''provisional_text_delta''"
| "event_value PROVISIONAL_COMMIT = ''provisional_commit''"
| "event_value PROVISIONAL_RETRACT = ''provisional_retract''"
| "event_value SMITH_UI = ''smith_ui''"
| "event_value SMITH_UI_FALLBACK = ''smith_ui_fallback''"
| "event_value EV_INCOMPLETE = ''incomplete''"
| "event_value EV_FAILED = ''failed''"
| "event_value DONE = ''done''"
| "event_value RUN_FINISHED = ''run_finished''"

record execution_event =
  ev_type :: event_type
  ev_data :: jdict

definition HIGH_FREQUENCY_STREAM_EVENTS :: "event_type list" where
  "HIGH_FREQUENCY_STREAM_EVENTS = [RAW_RESPONSE_EVENT, PROVISIONAL_TEXT_DELTA]"

definition DEFERRED_STATE_EVENTS :: "event_type list" where
  "DEFERRED_STATE_EVENTS = [THINKING, TOKEN_USAGE, CONTEXT_USAGE]"

definition discard :: "(run_exc + 'a) \<times> run_store \<Rightarrow> (run_exc + unit) \<times> run_store" where
  "discard p = (case p of (Inl x, st) \<Rightarrow> (Inl x, st) | (Inr _, st) \<Rightarrow> (Inr (), st))"

definition project_finished :: "env \<Rightarrow> string \<Rightarrow> jdict \<Rightarrow> unit run_op" where
  "project_finished e r d st =
     (case RunStatus (py_str (case map_of d ''status'' of None \<Rightarrow> JStr ''failed'' | Some v \<Rightarrow> v)) of
        Inl x \<Rightarrow> (Inl x, st)
      | Inr target \<Rightarrow>
          (let rsn = (if dget d ''reason'' = JNull then None else Some (py_str (dget d ''reason'')))
           in discard (transition e r (status_value target) (Some (event_value RUN_FINISHED)) rsn
                (if target = FAILED then rsn else None)
                (if target = FAILED then bounded_error_details (dget d ''error'') else None) st)))"

definition project_tool_result :: "env \<Rightarrow> string \<Rightarrow> jdict \<Rightarrow> unit run_op" where
  "project_tool_result e r d st =
     (if truthy (dget d ''approval_required'') then
        discard (request_approval e r (str_or (dget d ''approval_id'') [])
          (str_or (dget d ''tool'') ''tool'') (str_or (dget d ''level'') ''execute'')
          (str_or (dget d ''reason'') ''Approval required'') st)
      else let outcome = str_or (dget d ''approval_outcome'') [] in
        if outcome = ''granted'' then
          discard (resolve_approval_if_waiting e r (str_or (dget d ''approval_id'') []) True
            (Some (event_value TOOL_CALL_RESULT)) (Some ''approval_granted'') st)
        else if outcome \<in> {''denied'', ''timed_out''} then
          discard (resolve_approval_if_waiting e r (str_or (dget d ''approval_id'') []) False
            (Some (event_value TOOL_CALL_RESULT)) (Some (''approval_'' @ outcome)) st)
        else discard (record_event e r (event_value TOOL_CALL_RESULT) JNull JNull False True st))"

definition project_body :: "env \<Rightarrow> string \<Rightarrow> execution_event \<Rightarrow> unit run_op" where
  "project_body e r ev st =
     (let t = ev_type ev; d = ev_data ev in
      if t \<in> set DEFERRED_STATE_EVENTS then defer_event r (event_value t) st
      else if t = RUN_STARTED then
        discard (transition e r (status_value RUNNING) (Some (event_value t)) None None None st)
      else if t = RUN_FINISHED then project_finished e r d st
      else if t = TOOL_CALL_RESULT then project_tool_result e r d st
      else discard (record_event e r (event_value t)
        (if t = SKILL_START then dget d ''skill'' else JNull)
        (if t = TOOL_CALL_START then dget d ''name'' else JNull)
        (t = SKILL_END) False st))"

text \<open>The projection swallows the exceptions it names; any other one reaches the caller.\<close>

definition project_execution_event :: "env \<Rightarrow> string \<Rightarrow> execution_event \<Rightarrow> unit run_op" where
  "project_execution_event e r ev st =
     (if ev_type ev \<in> set HIGH_FREQUENCY_STREAM_EVENTS then (Inr (), st)
      else case project_body e r ev st of
        (Inl x, st') \<Rightarrow>
          if is_RunStateError x \<or> is_ValueError x \<or> x = TypeError then (Inr (), st') else (Inl x, st')
      | (Inr u, st') \<Rightarrow> (Inr u, st'))"

end
