(* ===== verification/Run_Lifecycle.thy ===== *)
theory Run_Lifecycle
  imports Run_State
begin

text \<open>
  The lifecycle of a run across its store: states survive the round trip through the file,
  every store operation follows the edges of the lifecycle (an inductive relation on
  directories), and the properties that follow for any interleaving of operations by any
  number of store instances.
\<close>

subsection \<open>Bounded fields are stable under a round trip\<close>

definition bounded_ok :: "nat \<Rightarrow> string option \<Rightarrow> bool" where
  "bounded_ok n x \<longleftrightarrow> (case x of None \<Rightarrow> True | Some t \<Rightarrow> t \<noteq> [] \<and> length t \<le> n)"

lemma bounded_text_ok: "bounded_ok n (bounded_text n v)"
  by (simp add: bounded_ok_def bounded_text_def Let_def)

lemma bounded_text_100_ok: "bounded_ok 100 (bounded_text 100 v)"
  by (rule bounded_text_ok)

lemma bounded_text_JNull [simp]: "bounded_text n JNull = None"
  by (simp add: bounded_text_def)

lemma bounded_text_id: "bounded_ok n x \<Longrightarrow> bounded_text n (jopt x) = x"
  by (cases x) (simp_all add: bounded_ok_def bounded_text_def)

lemma bounded_ok_None [simp]: "bounded_ok n None"
  by (simp add: bounded_ok_def)

lemma map_of_sort_key:
  assumes "distinct (map fst kvs)"
  shows "map_of (sort_key fst kvs) = map_of kvs"
proof -
  have "set (sort_key fst kvs) = set kvs" by simp
  with assms show ?thesis by (intro map_of_inject_set [THEN iffD2]) (simp_all add: distinct_keys_sort)
qed

text \<open>What a client of the decoded object sees is the object that was printed.\<close>

lemma loads_object:
  assumes "wf_json (JObj d)"
  obtains d' where "loads (canonical_json (JObj d)) = Some (JObj d')"
    "\<And>k. map_of d' k = map_option canon (map_of d k)"
proof -
  let ?d' = "sort_key fst (map (\<lambda>(k, v). (k, canon v)) d)"
  have "distinct (map fst (map (\<lambda>(k, v). (k, canon v)) d))"
    using assms by (simp add: comp_def split_def)
  then have "map_of ?d' k = map_option canon (map_of d k)" for k
    using map_of_sort_key [of "map (\<lambda>(k, v). (k, canon v)) d"] by (simp add: map_of_map)
  moreover have "loads (canonical_json (JObj d)) = Some (JObj ?d')"
    using loads_canonical [OF assms, of "[]"] by simp
  ultimately show ?thesis using that by blast
qed

subsection \<open>Error details\<close>

lemma bounded_entry_cases:
  "bounded_entry d k = [] \<or> (\<exists>t. bounded_entry d k = [(k, JStr t)] \<and> bounded_ok 100 (Some t))"
  using bounded_text_ok [of 100 "dget d k"] by (auto simp: bounded_entry_def split: option.splits)

definition details_http :: "jdict \<Rightarrow> jdict" where
  "details_http d = (case dget d ''http_status'' of
      JInt n \<Rightarrow> if 100 \<le> n \<and> n \<le> 599 then [(''http_status'', JInt n)] else [] | _ \<Rightarrow> [])"

definition details_retry :: "jdict \<Rightarrow> jdict" where
  "details_retry d = (case dget d ''retryable'' of JBool b \<Rightarrow> [(''retryable'', JBool b)] | _ \<Rightarrow> [])"

definition details_list :: "jdict \<Rightarrow> jdict" where
  "details_list d = bounded_entry d ''kind'' @ bounded_entry d ''stage'' @ bounded_entry d ''type''
     @ bounded_entry d ''provider'' @ details_http d @ details_retry d"

lemma bounded_error_details_JObj:
  "bounded_error_details (JObj d) = (if details_list d = [] then None else Some (details_list d))"
  by (simp add: bounded_error_details_def details_list_def details_http_def details_retry_def Let_def)

lemma map_of_bounded_entry: "map_of (bounded_entry d k) = (\<lambda>j. if j = k then map_option JStr (bounded_text 100 (dget d k)) else None)"
  by (rule ext) (simp add: bounded_entry_def split: option.splits)

lemma details_http_cases: "details_http d = [] \<or> (\<exists>n. details_http d = [(''http_status'', JInt n)])"
  by (cases "dget d ''http_status''") (simp_all add: details_http_def)

lemma details_retry_cases: "details_retry d = [] \<or> (\<exists>b. details_retry d = [(''retryable'', JBool b)])"
  by (cases "dget d ''retryable''") (simp_all add: details_retry_def)

lemma map_of_details_http: "k \<noteq> ''http_status'' \<Longrightarrow> map_of (details_http d) k = None"
  using details_http_cases [of d] by auto

lemma map_of_details_retry: "k \<noteq> ''retryable'' \<Longrightarrow> map_of (details_retry d) k = None"
  using details_retry_cases [of d] by auto

lemma map_of_details_list:
  "map_of (details_list d) k =
     (if k \<in> {''kind'', ''stage'', ''type'', ''provider''} then map_option JStr (bounded_text 100 (dget d k))
      else if k = ''http_status'' then map_of (details_http d) k
      else if k = ''retryable'' then map_of (details_retry d) k else None)"
  by (auto simp: details_list_def map_of_bounded_entry map_add_def map_of_details_http
      map_of_details_retry split: option.splits)

lemma details_list_cong:
  assumes "\<And>k. k \<in> {''kind'', ''stage'', ''type'', ''provider'', ''http_status'', ''retryable''} \<Longrightarrow> dget d k = dget d' k"
  shows "details_list d = details_list d'"
  using assms by (simp add: details_list_def bounded_entry_def details_http_def details_retry_def)

lemma bounded_entry_idem:
  "dget d' k = (case bounded_text 100 (dget d k) of None \<Rightarrow> JNull | Some t \<Rightarrow> JStr t) \<Longrightarrow>
   bounded_entry d' k = bounded_entry d k"
  using bounded_text_id [OF bounded_text_ok [of 100 "dget d k"]]
  by (auto simp: bounded_entry_def jopt_def split: option.splits)

lemma details_list_idem: "details_list (details_list d) = details_list d"
proof -
  have e: "bounded_entry (details_list d) k = bounded_entry d k"
    if "k \<in> {''kind'', ''stage'', ''type'', ''provider''}" for k
    using that by (intro bounded_entry_idem) (auto simp: dget_def map_of_details_list split: option.splits)
  have "details_http (details_list d) = details_http d"
    by (auto simp: details_http_def dget_def map_of_details_list split: json.splits option.splits)
  moreover have "details_retry (details_list d) = details_retry d"
    by (auto simp: details_retry_def dget_def map_of_details_list split: json.splits option.splits)
  ultimately show ?thesis using e by (subst details_list_def) (simp add: details_list_def)
qed

lemma subseq_distinct: "subseq xs ys \<Longrightarrow> distinct ys \<Longrightarrow> distinct xs"
proof (induction rule: list_emb.induct)
  case (list_emb_Cons2 x y xs ys)
  then show ?case by (auto dest: list_emb_set)
qed auto

lemma details_list_keys:
  "subseq (map fst (details_list d))
     ([''kind''] @ [''stage''] @ [''type''] @ [''provider''] @ [''http_status''] @ [''retryable''])"
proof -
  have e: "subseq (map fst (bounded_entry d k)) [k]" for k
    using bounded_entry_cases [of d k] by auto
  have "subseq (map fst (details_http d)) [''http_status'']" using details_http_cases [of d] by auto
  moreover have "subseq (map fst (details_retry d)) [''retryable'']" using details_retry_cases [of d] by auto
  ultimately show ?thesis unfolding details_list_def map_append by (intro list_emb_append_mono e)
qed

lemma details_list_wf: "wf_json (JObj (details_list d))"
proof -
  have "distinct (map fst (details_list d))"
    by (rule subseq_distinct [OF details_list_keys]) simp
  moreover have "wf_json (snd kv)" if kv: "kv \<in> set (details_list d)" for kv
  proof -
    have "wf_json (snd kv)" if "kv \<in> set (bounded_entry d k)" for k
      using that bounded_entry_cases [of d k] by auto
    moreover have "wf_json (snd kv)" if "kv \<in> set (details_http d) \<union> set (details_retry d)"
      using that details_http_cases [of d] details_retry_cases [of d] by auto
    ultimately show ?thesis using kv by (auto simp: details_list_def)
  qed
  ultimately show ?thesis by simp
qed


subsection \<open>Well-formed states and the round trip through the file\<close>

definition details_ok :: "jdict option \<Rightarrow> bool" where
  "details_ok x \<longleftrightarrow> (case x of None \<Rightarrow> True | Some d \<Rightarrow> d \<noteq> [] \<and> details_list d = d)"

lemma details_ok_bounded: "details_ok (bounded_error_details v)"
  by (cases v) (simp_all add: details_ok_def bounded_error_details_JObj details_list_idem
    bounded_error_details_def [of JNull] bounded_error_details_def [of "JBool _"]
    bounded_error_details_def [of "JInt _"] bounded_error_details_def [of "JFloat _"]
    bounded_error_details_def [of "JStr _"] bounded_error_details_def [of "JArr _"])

definition wf_state :: "run_state \<Rightarrow> bool" where
  "wf_state s \<longleftrightarrow> RUN_ID_RE (run_id s) \<and> created_at s \<noteq> [] \<and> updated_at s \<noteq> [] \<and> 0 \<le> event_seq s
     \<and> bounded_ok 200 (session_id s) \<and> bounded_ok 200 (message_id s) \<and> bounded_ok 200 (identity_id s)
     \<and> bounded_ok 1024 (working_dir s) \<and> bounded_ok 200 (forced_skill s)
     \<and> bounded_ok 200 (last_event_type s) \<and> bounded_ok 200 (current_skill s)
     \<and> bounded_ok 200 (current_tool s) \<and> bounded_ok 200 (reason s) \<and> bounded_ok 200 (error s)
     \<and> details_ok (error_details s)
     \<and> bounded_ok 200 (approval_id s) \<and> bounded_ok 200 (approval_tool s)
     \<and> bounded_ok 200 (approval_level s) \<and> bounded_ok 200 (approval_reason s)"

lemma wf_jobj_opt: "details_ok x \<Longrightarrow> wf_json (jobj_opt x)"
proof (cases x)
  case (Some d)
  assume "details_ok x"
  with Some details_list_wf [of d] show ?thesis by (simp add: jobj_opt_def details_ok_def del: wf_json.simps)
qed (simp add: jobj_opt_def)

lemma wf_to_dict: "wf_state s \<Longrightarrow> wf_json (JObj (to_dict s))"
  by (simp add: to_dict_def wf_state_def wf_jobj_opt)

lemma details_leaf: "(k, v) \<in> set (details_list d) \<Longrightarrow> canon v = v"
  using details_http_cases [of d] details_retry_cases [of d] bounded_entry_cases [of d]
  unfolding details_list_def by (elim disjE exE) (auto simp: bounded_entry_def split: option.splits)

lemma canon_details:
  assumes "details_ok x"
  shows "bounded_error_details (canon (jobj_opt x)) = x"
proof (cases x)
  case None
  then show ?thesis by (simp add: jobj_opt_def bounded_error_details_def)
next
  case (Some d)
  let ?d' = "sort_key fst (map (\<lambda>(k, v). (k, canon v)) d)"
  have d: "d \<noteq> []" "details_list d = d" using assms Some by (simp_all add: details_ok_def)
  have wf: "wf_json (JObj d)" using details_list_wf [of d] d by simp
  have cv: "canon v = v" if "map_of d k = Some v" for k v
    using that details_leaf [of k v d] d(2) by (auto dest: map_of_SomeD)
  have "map_of ?d' = map_of (map (\<lambda>(k, v). (k, canon v)) d)"
    using wf by (intro map_of_sort_key) (simp add: comp_def split_def)
  then have "map_of ?d' k = map_of d k" for k
    using cv [of k] by (cases "map_of d k") (simp_all add: map_of_map)
  then have "details_list ?d' = details_list d" by (intro details_list_cong) (simp add: dget_def)
  then show ?thesis using Some d by (simp add: jobj_opt_def bounded_error_details_JObj)
qed

lemma RunStatus_value [simp]: "RunStatus (status_value s) = Inr s"
  by (cases s) (simp_all add: RunStatus_def all_status_def)

lemma RunStatus_Inr: "RunStatus t = Inr s \<longleftrightarrow> t = status_value s"
proof
  assume "RunStatus t = Inr s"
  then show "t = status_value s"
    by (auto simp: RunStatus_def find_Some_iff split: option.splits)
qed simp

lemma to_dict_fields:
  "map_of (to_dict s) ''run_id'' = Some (JStr (run_id s))"
  "map_of (to_dict s) ''agent_id'' = Some (JStr (agent_id s))"
  "map_of (to_dict s) ''session_id'' = Some (jopt (session_id s))"
  "map_of (to_dict s) ''message_id'' = Some (jopt (message_id s))"
  "map_of (to_dict s) ''identity_id'' = Some (jopt (identity_id s))"
  "map_of (to_dict s) ''working_dir'' = Some (jopt (working_dir s))"
  "map_of (to_dict s) ''forced_skill'' = Some (jopt (forced_skill s))"
  "map_of (to_dict s) ''status'' = Some (JStr (status_value (status s)))"
  "map_of (to_dict s) ''created_at'' = Some (JStr (created_at s))"
  "map_of (to_dict s) ''updated_at'' = Some (JStr (updated_at s))"
  "map_of (to_dict s) ''event_seq'' = Some (JInt (event_seq s))"
  "map_of (to_dict s) ''last_event_type'' = Some (jopt (last_event_type s))"
  "map_of (to_dict s) ''current_skill'' = Some (jopt (current_skill s))"
  "map_of (to_dict s) ''current_tool'' = Some (jopt (current_tool s))"
  "map_of (to_dict s) ''reason'' = Some (jopt (reason s))"
  "map_of (to_dict s) ''error'' = Some (jopt (error s))"
  "map_of (to_dict s) ''error_details'' = Some (jobj_opt (error_details s))"
  "map_of (to_dict s) ''approval_id'' = Some (jopt (approval_id s))"
  "map_of (to_dict s) ''approval_tool'' = Some (jopt (approval_tool s))"
  "map_of (to_dict s) ''approval_level'' = Some (jopt (approval_level s))"
  "map_of (to_dict s) ''approval_reason'' = Some (jopt (approval_reason s))"
  by (simp_all add: to_dict_def)

lemma from_dict_to_dict:
  assumes wf: "wf_state s" and look: "\<And>k. map_of d k = map_option canon (map_of (to_dict s) k)"
  shows "from_dict clk d = Inr s"
proof -
  have g: "map_of (to_dict s) k = Some v \<Longrightarrow> dget d k = canon v" for k v
    by (simp add: dget_def look)
  have "event_seq_of d = Inr (event_seq s)"
    using wf by (simp add: event_seq_of_def look to_dict_fields wf_state_def)
  moreover have "state_of_dict clk d (JStr (run_id s)) (JStr (agent_id s)) (status s) (event_seq s) = s"
    unfolding state_of_dict_def to_dict_fields [THEN g] using wf
    by (intro run_state.equality)
      (simp_all add: bounded_text_id canon_details wf_state_def str_or_def)
  ultimately show ?thesis by (simp add: from_dict_def look to_dict_fields)
qed

theorem decode_payload:
  assumes "wf_state s"
  shows "decode_state clk (run_id s) (FText (state_payload s)) = Inr s"
proof -
  obtain d where d: "loads (canonical_json (JObj (to_dict s))) = Some (JObj d)"
    "\<And>k. map_of d k = map_option canon (map_of (to_dict s) k)"
    using loads_object [OF wf_to_dict [OF assms]] by blast
  have "from_dict clk d = Inr s" using from_dict_to_dict [OF assms d(2)] .
  with d(1) show ?thesis by (simp add: decode_state_def state_payload_def)
qed

subsection \<open>What a read can return\<close>

definition clock_ok :: "clock \<Rightarrow> bool" where
  "clock_ok clk \<longleftrightarrow> (\<forall>i. clk i \<noteq> [])"

lemma show_int_nonempty: "show_int i \<noteq> []"
  by (simp add: show_int_def show_nat_nonempty)

lemma str_or_nonempty: "d \<noteq> [] \<Longrightarrow> str_or v d \<noteq> []"
  by (cases v) (auto simp: str_or_def show_int_nonempty str_float_def repr_str_def Let_def float_zero_def float_mantissa_def)

lemma event_seq_of_nonneg: "event_seq_of d = Inr n \<Longrightarrow> 0 \<le> n"
  by (auto simp: event_seq_of_def split: sum.splits int_exc.splits)

lemma from_dict_wf:
  assumes "from_dict clk d = Inr s" "clock_ok clk" "RUN_ID_RE (run_id s)"
  shows "wf_state s"
proof -
  obtain rid aid st n where s: "s = state_of_dict clk d rid aid st n" and n: "event_seq_of d = Inr n"
    using assms(1) by (auto simp: from_dict_def bind_res_Inr split: option.splits sum.splits)
  show ?thesis using assms(2,3) event_seq_of_nonneg [OF n] unfolding s
    by (simp add: wf_state_def state_of_dict_def bounded_text_ok details_ok_bounded str_or_nonempty clock_ok_def)
qed

lemma decode_wf:
  assumes "decode_state clk r b = Inr s" "clock_ok clk" "RUN_ID_RE r"
  shows "wf_state s \<and> run_id s = r"
proof -
  obtain d where "from_dict clk d = Inr s" "run_id s = r"
    using assms(1) by (auto simp: decode_state_def bind_res_Inr split: file_body.splits option.splits json.splits if_splits)
  with assms show ?thesis using from_dict_wf by auto
qed

definition buffered :: "run_store \<Rightarrow> string \<Rightarrow> nat" where
  "buffered st r = (case map_of (deferred st) r of None \<Rightarrow> 0 | Some (n, _) \<Rightarrow> n)"

text \<open>The buffer holds bounded event types only.\<close>

definition buffer_ok :: "run_store \<Rightarrow> bool" where
  "buffer_ok st \<longleftrightarrow> (\<forall>r n l. map_of (deferred st) r = Some (n, l) \<longrightarrow> bounded_ok 200 l)"

lemma require_Inr:
  "require clk r st = Inr s \<longleftrightarrow>
     RUN_ID_RE r \<and> (\<exists>b s0. map_of (files st) r = Some b \<and> decode_state clk r b = Inr s0 \<and> s = apply_deferred st s0)"
  by (auto simp: require_def get_def validate_run_id_def bind_res_Inr split: option.splits if_splits)

lemma get_Inr_Some:
  "get clk r st = Inr (Some s) \<longleftrightarrow> require clk r st = Inr s"
  by (auto simp: require_def bind_res_Inr split: option.splits)

subsection \<open>Lifecycle edges\<close>

text \<open>
  One change of a run's persisted state: its coordinates are kept, an identity is bound at
  most once, the status follows an allowed transition, and the event count does not decrease.
\<close>

definition edge :: "run_state \<Rightarrow> run_state \<Rightarrow> bool" where
  "edge s s' \<longleftrightarrow> run_id s' = run_id s \<and> agent_id s' = agent_id s \<and> session_id s' = session_id s
     \<and> message_id s' = message_id s \<and> working_dir s' = working_dir s \<and> forced_skill s' = forced_skill s
     \<and> created_at s' = created_at s
     \<and> (identity_id s = None \<or> identity_id s' = identity_id s)
     \<and> (status s' = status s \<or> status s' \<in> set (ALLOWED_TRANSITIONS (status s)))
     \<and> event_seq s \<le> event_seq s'"

lemma edge_deferred: "edge s (apply_deferred st s)"
  by (simp add: edge_def apply_deferred_def split: option.splits)

text \<open>The two methods of \<open>RunState\<close> stay on the edges and keep states well formed.\<close>

lemma state_transition_Inr:
  "state_transition nw target rsn err details s = Inr s' \<Longrightarrow>
     \<exists>t. target = status_value t \<and> t \<in> set (ALLOWED_TRANSITIONS (status s)) \<and> status s' = t
       \<and> event_seq s' = event_seq s \<and> edge s s' \<and> (wf_state s \<longrightarrow> nw \<noteq> [] \<longrightarrow> wf_state s')
       \<and> approval_id s' = approval_id s \<and> identity_id s' = identity_id s \<and> current_tool s' = current_tool s
       \<and> last_event_type s' = last_event_type s"
  by (auto simp: state_transition_def bind_res_Inr RunStatus_Inr edge_def wf_state_def bounded_text_ok
      details_ok_bounded split: if_splits option.splits)

lemma state_record_event_edge: "edge s (state_record_event nw t sk tool cs ct s)"
  by (simp add: edge_def state_record_event_def)

lemma state_record_event_simps [simp]:
  "status (state_record_event nw t sk tool cs ct s) = status s"
  "run_id (state_record_event nw t sk tool cs ct s) = run_id s"
  "identity_id (state_record_event nw t sk tool cs ct s) = identity_id s"
  "approval_id (state_record_event nw t sk tool cs ct s) = approval_id s"
  "event_seq (state_record_event nw t sk tool cs ct s) = event_seq s + 1"
  by (simp_all add: state_record_event_def)

lemma state_record_event_wf: "wf_state s \<Longrightarrow> nw \<noteq> [] \<Longrightarrow> wf_state (state_record_event nw t sk tool cs ct s)"
  by (simp add: wf_state_def state_record_event_def bounded_text_ok)

lemma clear_approval_simps [simp]:
  "status (clear_approval s) = status s" "run_id (clear_approval s) = run_id s"
  "event_seq (clear_approval s) = event_seq s" "approval_id (clear_approval s) = None"
  by (simp_all add: clear_approval_def)

lemma clear_approval_edge: "edge s (clear_approval s)"
  by (simp add: edge_def clear_approval_def)

lemma clear_approval_wf: "wf_state s \<Longrightarrow> wf_state (clear_approval s)"
  by (simp add: wf_state_def clear_approval_def)

lemma apply_deferred_wf: "wf_state s \<Longrightarrow> buffer_ok st \<Longrightarrow> wf_state (apply_deferred st s)"
  by (auto simp: wf_state_def apply_deferred_def buffer_ok_def split: option.splits)

lemma edge_trans_status:
  assumes "edge s s1" "edge s1 s2" "status s1 = status s \<or> status s2 = status s1"
  shows "edge s s2"
  using assms unfolding edge_def by (metis order_trans)

subsection \<open>The step relation on directories\<close>

type_synonym directory = "string \<rightharpoonup> file_body"

inductive file_step :: "string set \<Rightarrow> directory \<Rightarrow> directory \<Rightarrow> bool" for P :: "string set" where
  Create: "fs (run_id s) = None \<Longrightarrow> wf_state s \<Longrightarrow> status s = QUEUED \<Longrightarrow>
     file_step P fs (fs(run_id s \<mapsto> FText (state_payload s)))"
| Update: "fs r = Some b \<Longrightarrow> clock_ok clk \<Longrightarrow> decode_state clk r b = Inr s \<Longrightarrow> edge s s' \<Longrightarrow> wf_state s' \<Longrightarrow>
     file_step P fs (fs(r \<mapsto> FText (state_payload s')))"
| Prune: "r \<in> P \<Longrightarrow> (\<forall>b clk s. fs r = Some b \<longrightarrow> decode_state clk r b = Inr s \<longrightarrow> status s \<notin> set LIVE_RUN_STATUSES) \<Longrightarrow>
     file_step P fs (fs(r := None))"

inductive_cases file_stepE: "file_step P fs fs'"


text \<open>A read at another time differs at most in two time stamps.\<close>

lemma state_of_dict_clock:
  "state_of_dict clk' d rid aid st n = (state_of_dict clk d rid aid st n)
     \<lparr>created_at := str_or (dget d ''created_at'') (clk' 0), updated_at := str_or (dget d ''updated_at'') (clk' 1)\<rparr>"
  by (simp add: state_of_dict_def)

lemma decode_clock:
  assumes "decode_state clk r b = Inr s"
  shows "\<exists>c u. decode_state clk' r b = Inr (s\<lparr>created_at := c, updated_at := u\<rparr>)"
proof -
  obtain t d where t: "b = FText t" "loads t = Some (JObj d)" "from_dict clk d = Inr s" "run_id s = r"
    using assms by (auto simp: decode_state_def bind_res_Inr split: file_body.splits option.splits json.splits if_splits)
  obtain rid aid sv st n where d: "map_of d ''run_id'' = Some rid" "map_of d ''agent_id'' = Some aid"
    "map_of d ''status'' = Some sv" "RunStatus (py_str sv) = Inr st" "event_seq_of d = Inr n"
    and s: "s = state_of_dict clk d rid aid st n"
    using t(3) by (auto simp: from_dict_def bind_res_Inr split: option.splits sum.splits)
  have "from_dict clk' d = Inr (s\<lparr>created_at := str_or (dget d ''created_at'') (clk' 0),
      updated_at := str_or (dget d ''updated_at'') (clk' 1)\<rparr>)"
    by (simp add: from_dict_def d s state_of_dict_clock [of clk' d _ _ _ _ clk])
  then show ?thesis using t by (auto simp: decode_state_def)
qed

lemma decode_clock_status:
  "decode_state clk r b = Inr s \<Longrightarrow> decode_state clk' r b = Inr s' \<Longrightarrow> status s' = status s"
  using decode_clock [of clk r b s clk'] by auto

subsection \<open>Every operation follows the relation\<close>

lemma save_result_cases:
  assumes "save_result ans res st = (out, st')"
  shows "(files st' = files st \<and> (\<forall>s. out \<noteq> Inr s))
       \<or> (\<exists>s. res = Inr s \<and> RUN_ID_RE (run_id s) \<and> (out = Inr s \<or> out = Inl RunStateError)
              \<and> files st' = dset (run_id s) (FText (state_payload s)) (files st))"
  using assms by (auto simp: save_result_def save_def validate_run_id_def pop_deferred_def write_state_def Let_def
    split: sum.splits save_answer.splits prod.splits if_splits)

lemma save_result_deferred:
  assumes "save_result ans res st = (out, st')"
  shows "deferred st' = deferred st \<or> (\<exists>s. res = Inr s \<and> deferred st' = AList.delete (run_id s) (deferred st))"
  using assms by (auto simp: save_result_def save_def validate_run_id_def pop_deferred_def write_state_def Let_def
    split: sum.splits save_answer.splits prod.splits if_splits)

lemma save_result_buffer_ok:
  "buffer_ok st \<Longrightarrow> buffer_ok (snd (save_result ans res st))"
  using save_result_deferred [of ans res st "fst (save_result ans res st)" "snd (save_result ans res st)"]
  by (auto simp: buffer_ok_def delete_conv' fun_upd_def split: if_splits)

text \<open>
  The shape all updating operations share: read the state with the buffer folded in, change
  it along an edge, save it.
\<close>

lemma update_step:
  assumes read: "require clk r st = Inr s" and upd: "wf_state s \<Longrightarrow> edge s s' \<and> wf_state s'"
    and ok: "clock_ok clk" "buffer_ok st"
    and fs: "map_of (files st') = (map_of (files st))(r \<mapsto> FText (state_payload s'))"
  shows "file_step P (map_of (files st)) (map_of (files st'))"
proof -
  obtain b s0 where b: "RUN_ID_RE r" "map_of (files st) r = Some b" "decode_state clk r b = Inr s0"
    "s = apply_deferred st s0"
    using read by (auto simp: require_Inr)
  have wf0: "wf_state s0" using decode_wf [OF b(3) ok(1) b(1)] by simp
  then have wf: "wf_state s" using b(4) ok(2) apply_deferred_wf by simp
  have e: "edge s s'" "wf_state s'" using upd [OF wf] by auto
  have "edge s0 s" using b(4) edge_deferred by simp
  moreover have "status s = status s0" using b(4) by (simp add: apply_deferred_def split: option.splits)
  ultimately have "edge s0 s'" using e(1) edge_trans_status by blast
  then show ?thesis unfolding fs using b ok(1) e(2) by (intro file_step.Update)
qed

definition follows :: "string set \<Rightarrow> run_store \<Rightarrow> run_store \<Rightarrow> bool" where
  "follows P st st' \<longleftrightarrow> (file_step P)\<^sup>*\<^sup>* (map_of (files st)) (map_of (files st')) \<and> buffer_ok st'"

lemma follows_refl: "buffer_ok st \<Longrightarrow> follows P st st"
  by (simp add: follows_def)

lemma follows_trans: "follows P st st1 \<Longrightarrow> follows P st1 st2 \<Longrightarrow> follows P st st2"
  by (auto simp: follows_def)

lemma follows_save:
  assumes ok: "clock_ok clk" "buffer_ok st"
    and res: "\<And>s'. res = Inr s' \<Longrightarrow> \<exists>s. require clk r st = Inr s \<and> run_id s' = r \<and> (wf_state s \<longrightarrow> edge s s' \<and> wf_state s')"
  shows "follows P st (snd (save_result ans res st))"
proof -
  obtain out st' where o: "save_result ans res st = (out, st')" by fastforce
  have "(file_step P)\<^sup>*\<^sup>* (map_of (files st)) (map_of (files st'))"
  proof -
    consider "files st' = files st"
      | s' where "res = Inr s'" "files st' = dset (run_id s') (FText (state_payload s')) (files st)"
      using save_result_cases [OF o] by blast
    then show ?thesis
    proof cases
      case (2 s')
      note s' = 2(1) and fs = 2(2)
      obtain s where s: "require clk r st = Inr s" "run_id s' = r" "wf_state s \<Longrightarrow> edge s s' \<and> wf_state s'"
        using res [OF s'] by blast
      have "map_of (files st') = (map_of (files st))(r \<mapsto> FText (state_payload s'))" using fs s(2) by simp
      then show ?thesis using update_step [OF s(1,3) ok] by blast
    qed simp
  qed
  then show ?thesis using save_result_buffer_ok [OF ok(2), of ans res] o by (simp add: follows_def)
qed

lemma edge_refl: "edge s s"
  by (simp add: edge_def)

lemma edge_via_transition:
  assumes "state_transition nw target rsn err details s1 = Inr s'" "edge s s1" "status s1 = status s"
    "wf_state s \<Longrightarrow> wf_state s1" "nw \<noteq> []"
  shows "edge s s' \<and> (wf_state s \<longrightarrow> wf_state s') \<and> run_id s' = run_id s"
proof -
  have "edge s1 s'" "wf_state s1 \<longrightarrow> wf_state s'" using state_transition_Inr [OF assms(1)] assms(5) by auto
  then have "edge s s'" using assms(2,3) edge_trans_status by blast
  then show ?thesis using assms(4) \<open>wf_state s1 \<longrightarrow> wf_state s'\<close> by (auto simp: edge_def)
qed

lemma apply_deferred_simps [simp]:
  "run_id (apply_deferred st s) = run_id s" "status (apply_deferred st s) = status s"
  "approval_id (apply_deferred st s) = approval_id s" "identity_id (apply_deferred st s) = identity_id s"
  by (simp_all add: apply_deferred_def split: option.splits)

lemma decode_run_id: "decode_state clk r b = Inr s \<Longrightarrow> run_id s = r"
  by (auto simp: decode_state_def bind_res_Inr split: option.splits file_body.splits json.splits if_splits)

lemma require_run_id: "require clk r st = Inr s \<Longrightarrow> run_id s = r"
  by (auto simp: require_Inr decode_run_id)

lemma clock_okD: "clock_ok clk \<Longrightarrow> clk i \<noteq> []"
  by (simp add: clock_ok_def)

lemma transition_follows:
  assumes "clock_ok (now e)" "buffer_ok st"
  shows "follows P st (snd (transition e r target ev rsn err details st))"
  unfolding transition_def
proof (rule follows_save [OF assms, where r = r])
  fix s'
  let ?ev = "\<lambda>s. case ev of None \<Rightarrow> s | Some t \<Rightarrow> state_record_event (now e 2) t JNull JNull False False s"
  assume "bind_res (require (now e) r st) (\<lambda>s. state_transition (now e 3) target rsn err details (?ev s)) = Inr s'"
  then obtain s where s: "require (now e) r st = Inr s"
    "state_transition (now e 3) target rsn err details (?ev s) = Inr s'"
    by (auto simp: bind_res_Inr)
  have "edge s (?ev s)" "status (?ev s) = status s"
    by (auto simp: edge_refl state_record_event_edge split: option.splits)
  moreover have "wf_state s \<Longrightarrow> wf_state (?ev s)"
    using clock_okD [OF assms(1)] by (auto intro: state_record_event_wf split: option.splits)
  ultimately have "edge s s' \<and> (wf_state s \<longrightarrow> wf_state s') \<and> run_id s' = run_id s"
    using edge_via_transition [OF s(2)] clock_okD [OF assms(1)] by blast
  then show "\<exists>s. require (now e) r st = Inr s \<and> run_id s' = r \<and> (wf_state s \<longrightarrow> edge s s' \<and> wf_state s')"
    using s(1) require_run_id by auto
qed

lemma record_event_follows:
  assumes "clock_ok (now e)" "buffer_ok st"
  shows "follows P st (snd (record_event e r t sk tool cs ct st))"
  unfolding record_event_def
  by (rule follows_save [OF assms, where r = r])
    (auto simp: bind_res_Inr state_record_event_edge require_run_id state_record_event_wf clock_okD [OF assms(1)])

lemma resume_follows:
  assumes "clock_ok (now e)" "buffer_ok st"
  shows "follows P st (snd (resume e r scope st))"
  unfolding resume_def
proof (rule follows_save [OF assms, where r = r])
  fix s'
  assume "bind_res (validate_resume (now e) r scope st) (\<lambda>s.
        bind_res (state_transition (now e 2) (status_value RUNNING) (Some ''resumed'') None None s)
          (\<lambda>s. Inr (state_record_event (now e 3) ''run_resumed'' JNull JNull False False s))) = Inr s'"
  then obtain s s1 where s: "require (now e) r st = Inr s"
    "state_transition (now e 2) (status_value RUNNING) (Some ''resumed'') None None s = Inr s1"
    "s' = state_record_event (now e 3) ''run_resumed'' JNull JNull False False s1"
    by (auto simp: bind_res_Inr validate_resume_def split: if_splits)
  have "edge s s1 \<and> (wf_state s \<longrightarrow> wf_state s1) \<and> run_id s1 = run_id s"
    using edge_via_transition [OF s(2) edge_refl refl] clock_okD [OF assms(1)] by blast
  then show "\<exists>s. require (now e) r st = Inr s \<and> run_id s' = r \<and> (wf_state s \<longrightarrow> edge s s' \<and> wf_state s')"
    using s(1,3) require_run_id [OF s(1)] clock_okD [OF assms(1)]
    by (auto intro: edge_trans_status [OF _ state_record_event_edge] state_record_event_wf)
qed

lemma bind_identity_follows:
  assumes "clock_ok (now e)" "buffer_ok st"
  shows "follows P st (snd (bind_identity e r ident st))"
proof -
  have "follows P st (snd (save_result (saves e 0)
      (Inr (s\<lparr>identity_id := Some normalized, updated_at := now e 2\<rparr>)) st))"
    if "require (now e) r st = Inr s" "bounded_text 200 (JStr ident) = Some normalized" "identity_id s = None"
    for s normalized
    using that require_run_id [OF that(1)] clock_okD [OF assms(1)] bounded_text_ok [of 200 "JStr ident"]
    by (intro follows_save [OF assms, where r = r]) (auto simp: edge_def wf_state_def)
  then show ?thesis
    using follows_refl [OF assms(2)] by (auto simp: bind_identity_def split: sum.splits option.splits)
qed

lemma request_approval_follows:
  assumes "clock_ok (now e)" "buffer_ok st"
  shows "follows P st (snd (request_approval e r aid tool level rsn st))"
  unfolding request_approval_def
proof (rule follows_save [OF assms, where r = r], goal_cases)
  case (1 s')
  let ?f = "\<lambda>s. state_record_event (now e 2) ''approval_required'' JNull JNull False True
              (s\<lparr>approval_id := bounded_text 200 (JStr aid), approval_tool := bounded_text 200 (JStr tool),
                 approval_level := bounded_text 200 (JStr level), approval_reason := bounded_text 200 (JStr rsn)\<rparr>)"
  obtain s where s: "require (now e) r st = Inr s"
    "state_transition (now e 3) (status_value WAITING_APPROVAL) (Some rsn) None None (?f s) = Inr s'"
    using 1 by (auto simp: bind_res_Inr split: if_splits)
  have "edge s (?f s)" "status (?f s) = status s" by (simp_all add: edge_def state_record_event_def)
  moreover have "wf_state s \<Longrightarrow> wf_state (?f s)"
    using clock_okD [OF assms(1)] by (intro state_record_event_wf) (simp_all add: wf_state_def bounded_text_ok)
  ultimately show ?case using edge_via_transition [OF s(2)] s(1) require_run_id clock_okD [OF assms(1)] by auto
qed

lemma resolved_state_edge:
  assumes "resolved_state e ap ev rsn s = Inr s'" "clock_ok (now e)"
  shows "edge s s' \<and> (wf_state s \<longrightarrow> wf_state s') \<and> run_id s' = run_id s"
proof (rule edge_via_transition)
  show "state_transition (now e 3) (status_value RUNNING) (Some (text_or rsn (resolution ap))) None None
       (state_record_event (now e 2) (text_or ev (resolution ap)) JNull JNull False False (clear_approval s)) = Inr s'"
    using assms(1) by (simp add: resolved_state_def)
qed (use clock_okD [OF assms(2)] in \<open>auto intro: state_record_event_wf clear_approval_wf
      edge_trans_status [OF clear_approval_edge state_record_event_edge]\<close>)

lemma resolve_approval_follows:
  assumes "clock_ok (now e)" "buffer_ok st"
  shows "follows P st (snd (resolve_approval e r aid ap ev rsn st))"
  unfolding resolve_approval_def using resolved_state_edge [OF _ assms(1)] require_run_id
  by (intro follows_save [OF assms, where r = r]) (fastforce simp: bind_res_Inr split: if_splits)

lemma resolve_if_waiting_follows:
  assumes "clock_ok (now e)" "buffer_ok st"
  shows "follows P st (snd (resolve_approval_if_waiting e r aid ap ev rsn st))"
proof -
  have "follows P st (snd (save_result (saves e 0) (resolved_state e ap ev rsn s) st))"
    if "require (now e) r st = Inr s" for s
    using that resolved_state_edge [OF _ assms(1)] require_run_id [OF that]
    by (intro follows_save [OF assms, where r = r]) auto
  then show ?thesis
    using follows_refl [OF assms(2)] by (auto simp: resolve_approval_if_waiting_def split: sum.splits)
qed

lemma create_follows:
  assumes "clock_ok (now e)" "buffer_ok st"
  shows "follows P st (snd (create e r agent session message identity wd skill st))"
proof (cases "validate_run_id r = Inr r \<and> map_of (files st) r = None")
  case False
  then show ?thesis using follows_refl [OF assms(2)]
    by (auto simp: create_def validate_run_id_def)
next
  case True
  let ?s = "\<lparr>run_id = r, agent_id = agent_or_unknown agent,
     session_id = bounded_text 200 (jopt session), message_id = bounded_text 200 (jopt message),
     identity_id = bounded_text 200 (jopt identity), working_dir = bounded_text 1024 (jopt wd),
     forced_skill = bounded_text 200 (jopt skill),
     status = QUEUED, created_at = now e 0, updated_at = now e 1, event_seq = 0,
     last_event_type = None, current_skill = None, current_tool = None,
     reason = None, error = None, error_details = None,
     approval_id = None, approval_tool = None, approval_level = None, approval_reason = None\<rparr>"
  have c: "create e r agent session message identity wd skill st = save_result (saves e 0) (Inr ?s) st"
    using True by (simp add: create_def)
  obtain out st' where o: "save_result (saves e 0) (Inr ?s) st = (out, st')" by fastforce
  have wf: "wf_state ?s"
    using True clock_okD [OF assms(1)]
    by (simp add: wf_state_def bounded_text_ok details_ok_def validate_run_id_def split: if_splits)
  consider "files st' = files st" | "files st' = dset r (FText (state_payload ?s)) (files st)"
    using save_result_cases [OF o] by auto
  then have "(file_step P)\<^sup>*\<^sup>* (map_of (files st)) (map_of (files st'))"
  proof cases
    case 2
    then show ?thesis using file_step.Create [of "map_of (files st)" ?s P] True wf by simp
  qed simp
  then show ?thesis using save_result_buffer_ok [OF assms(2), of "saves e 0" "Inr ?s"] c o
    by (simp add: follows_def)
qed

lemma recover_one_follows:
  assumes "clock_ok (now e)" "buffer_ok st"
  shows "follows P st (snd (recover_one e r st))"
proof -
  have *: "follows P st (snd (save_result (saves e 0) (interrupted_state e s) st))"
    if "require (now e) r st = Inr s" for s
  proof (rule follows_save [OF assms, where r = r])
    fix s' assume s': "interrupted_state e s = Inr s'"
    have "edge s s' \<and> (wf_state s \<longrightarrow> wf_state s') \<and> run_id s' = run_id s"
      by (rule edge_via_transition [OF s' [unfolded interrupted_state_def]])
        (use clock_okD [OF assms(1)] in \<open>auto intro: state_record_event_wf clear_approval_wf
          edge_trans_status [OF clear_approval_edge state_record_event_edge]\<close>)
    then show "\<exists>s. require (now e) r st = Inr s \<and> run_id s' = r \<and> (wf_state s \<longrightarrow> edge s s' \<and> wf_state s')"
      using that require_run_id by auto
  qed
  have "snd (recover_one e r st) = st \<or>
     (\<exists>s. require (now e) r st = Inr s \<and> snd (recover_one e r st) = snd (save_result (saves e 0) (interrupted_state e s) st))"
    by (auto simp: recover_one_def get_Inr_Some [symmetric] split: sum.splits option.splits prod.splits)
  then show ?thesis using * follows_refl [OF assms(2)] by auto
qed

lemma clock_ok_later: "clock_ok (now e) \<Longrightarrow> clock_ok (now (later k m e))"
  by (simp add: clock_ok_def later_def)

lemma recover_loop_follows:
  "clock_ok (now e) \<Longrightarrow> buffer_ok st \<Longrightarrow> follows P st (snd (recover_loop e rs st))"
proof (induction e rs st rule: recover_loop.induct)
  case (1 e st)
  then show ?case by (simp add: follows_refl)
next
  case (2 e r rs st)
  obtain out st1 where o: "recover_one e r st = (out, st1)" by fastforce
  have f: "follows P st st1" using recover_one_follows [OF "2.prems", of P r] o by simp
  show ?case
  proof (cases out)
    case (Inr b)
    have "follows P st1 (snd (recover_loop (later 4 1 e) rs st1))"
      using "2.IH" [OF o [symmetric] Inr] "2.prems"(1) f by (simp add: clock_ok_later follows_def)
    then show ?thesis using follows_trans [OF f] o Inr
      by (auto split: sum.splits prod.splits)
  qed (use f o in simp)
qed

lemma prune_follows:
  assumes "buffer_ok st" "r \<in> P"
  shows "follows P st (snd (prune clk r st))"
proof -
  have b: "buffer_ok (remove_run r st)"
    using assms(1) by (auto simp: buffer_ok_def remove_run_def delete_conv' fun_upd_def split: if_splits)
  have "follows P st (remove_run r st)"
    if dead: "\<And>s. get clk r st = Inr (Some s) \<Longrightarrow> status s \<notin> set LIVE_RUN_STATUSES" and v: "RUN_ID_RE r"
  proof -
    have "status s \<notin> set LIVE_RUN_STATUSES"
      if b: "map_of (files st) r = Some b" and d: "decode_state clk' r b = Inr s" for b clk' s
    proof -
      obtain s' where s': "decode_state clk r b = Inr s'" "status s' = status s"
        using decode_clock [OF d, of clk] by auto
      have "get clk r st = Inr (Some (apply_deferred st s'))"
        using s' b v by (simp add: get_def validate_run_id_def)
      with dead s' show ?thesis by fastforce
    qed
    then have "file_step P (map_of (files st)) ((map_of (files st))(r := None))"
      using assms(2) by (intro file_step.Prune) auto
    then show ?thesis using b by (auto simp: follows_def remove_run_def delete_conv')
  qed
  then show ?thesis using follows_refl [OF assms(1)]
    by (auto simp: prune_def validate_run_id_def split: sum.splits option.splits if_splits)
qed

lemma defer_event_follows:
  assumes "buffer_ok st"
  shows "follows P st (snd (defer_event r t st))"
  using assms bounded_text_ok [of 200 "JStr t"]
  by (auto simp: defer_event_def follows_def buffer_ok_def validate_run_id_def Let_def split: if_splits)

lemma snd_discard [simp]: "snd (discard p) = snd p"
  by (auto simp: discard_def split: prod.splits sum.splits)

lemmas op_follows = create_follows transition_follows record_event_follows resume_follows
  bind_identity_follows request_approval_follows resolve_approval_follows resolve_if_waiting_follows
  defer_event_follows

lemma project_body_follows:
  assumes "clock_ok (now e)" "buffer_ok st"
  shows "follows P st (snd (project_body e r ev st))"
  using assms op_follows follows_refl [OF assms(2)]
  by (simp add: project_body_def project_finished_def project_tool_result_def Let_def split: sum.splits)

lemma project_follows:
  assumes "clock_ok (now e)" "buffer_ok st"
  shows "follows P st (snd (project_execution_event e r ev st))"
proof -
  have "snd (project_execution_event e r ev st) = st \<or>
      snd (project_execution_event e r ev st) = snd (project_body e r ev st)"
    by (auto simp: project_execution_event_def split: prod.splits sum.splits)
  then show ?thesis using project_body_follows [OF assms, of P r ev] follows_refl [OF assms(2)] by auto
qed

subsection \<open>Interleavings of operations by several store instances\<close>

datatype run_call =
    Create string string "string option" "string option" "string option" "string option" "string option"
  | Resume string "run_scope option"
  | BindIdentity string string
  | RequestApproval string string string string string
  | ResolveApproval string string bool "string option" "string option"
  | ResolveIfWaiting string string bool "string option" "string option"
  | Recover
  | PruneRun string
  | Defer string string
  | Transition string string "string option" "string option" "string option" "jdict option"
  | RecordEvent string string json json bool bool
  | Project string execution_event

text \<open>The store an operation leaves behind, whether it returns or raises.\<close>

fun exec :: "env \<Rightarrow> run_call \<Rightarrow> run_store \<Rightarrow> run_store" where
  "exec e (Create r a s m i w k) st = snd (create e r a s m i w k st)"
| "exec e (Resume r sc) st = snd (resume e r sc st)"
| "exec e (BindIdentity r i) st = snd (bind_identity e r i st)"
| "exec e (RequestApproval r a t l rs) st = snd (request_approval e r a t l rs st)"
| "exec e (ResolveApproval r a ap t rs) st = snd (resolve_approval e r a ap t rs st)"
| "exec e (ResolveIfWaiting r a ap t rs) st = snd (resolve_approval_if_waiting e r a ap t rs st)"
| "exec e Recover st = snd (recover_interrupted e st)"
| "exec e (PruneRun r) st = snd (prune (now e) r st)"
| "exec e (Defer r t) st = snd (defer_event r t st)"
| "exec e (Transition r target t rs er d) st = snd (transition e r target t rs er d st)"
| "exec e (RecordEvent r t sk tool cs ct) st = snd (record_event e r t sk tool cs ct st)"
| "exec e (Project r ev) st = snd (project_execution_event e r ev st)"

theorem exec_follows:
  assumes "clock_ok (now e)" "buffer_ok st" "\<forall>r. c = PruneRun r \<longrightarrow> r \<in> P"
  shows "follows P st (exec e c st)"
  using assms by (cases c) (simp_all add: op_follows recover_interrupted_def recover_loop_follows
    prune_follows project_follows)

text \<open>
  Store instances of one root share the directory and the lock; each has its own buffer.
  A step is one locked operation of one instance.
\<close>

record run_world =
  dir :: "(string, file_body) dict"
  bufs :: "nat \<Rightarrow> (string, nat \<times> string option) dict"

definition view :: "run_world \<Rightarrow> nat \<Rightarrow> run_store" where
  "view w i = \<lparr>files = dir w, deferred = bufs w i\<rparr>"

definition world_step :: "run_world \<Rightarrow> nat \<times> env \<times> run_call \<Rightarrow> run_world" where
  "world_step w x = (case x of (i, e, c) \<Rightarrow>
     (let st = exec e c (view w i) in \<lparr>dir = files st, bufs = (bufs w)(i := deferred st)\<rparr>))"

definition spares :: "string \<Rightarrow> nat \<times> env \<times> run_call \<Rightarrow> bool" where
  "spares r x = (case x of (i, e, c) \<Rightarrow> clock_ok (now e) \<and> c \<noteq> PruneRun r)"

definition bufs_ok :: "run_world \<Rightarrow> bool" where
  "bufs_ok w \<longleftrightarrow> (\<forall>i. buffer_ok (view w i))"

lemma world_step_steps:
  assumes "bufs_ok w" "spares r x"
  shows "(file_step (- {r}))\<^sup>*\<^sup>* (map_of (dir w)) (map_of (dir (world_step w x))) \<and> bufs_ok (world_step w x)"
proof -
  obtain i e c where x: "x = (i, e, c)" by (cases x)
  have "follows (- {r}) (view w i) (exec e c (view w i))"
    using assms x by (intro exec_follows) (auto simp: spares_def bufs_ok_def)
  then show ?thesis using assms(1)
    by (auto simp: x follows_def world_step_def Let_def view_def bufs_ok_def buffer_ok_def)
qed

end
