(* ===== verification/Run_Properties.thy ===== *)
theory Run_Properties
  imports Run_Lifecycle
begin

text \<open>
  The properties of the run-state store: interleavings of operations, the refinement of an
  in-memory run by the buffered store, startup recovery, pruning, resuming and approvals.
\<close>

subsection \<open>One run across an interleaving\<close>

definition allowed :: "run_status \<Rightarrow> run_status \<Rightarrow> bool" where
  "allowed a b \<longleftrightarrow> b \<in> set (ALLOWED_TRANSITIONS a)"

definition grown :: "run_state \<Rightarrow> run_state \<Rightarrow> bool" where
  "grown s s' \<longleftrightarrow> run_id s' = run_id s \<and> agent_id s' = agent_id s \<and> session_id s' = session_id s
     \<and> message_id s' = message_id s \<and> working_dir s' = working_dir s \<and> forced_skill s' = forced_skill s
     \<and> (identity_id s = None \<or> identity_id s' = identity_id s)
     \<and> allowed\<^sup>*\<^sup>* (status s) (status s') \<and> event_seq s \<le> event_seq s'"

lemma grown_refl: "grown s s"
  by (simp add: grown_def)

lemma grown_edge: "grown s s1 \<Longrightarrow> edge s1 s2 \<Longrightarrow> grown s s2"
  unfolding grown_def edge_def by (auto simp: allowed_def intro: rtranclp.rtrancl_into_rtrancl)

lemma grown_times: "grown s (s1\<lparr>created_at := c, updated_at := u\<rparr>) = grown s s1"
  by (simp add: grown_def)

lemma allowed_COMPLETED: "allowed\<^sup>*\<^sup>* a b \<Longrightarrow> a = COMPLETED \<Longrightarrow> b = COMPLETED"
  by (induction rule: rtranclp_induct) (auto simp: allowed_def)

definition holds_grown :: "clock \<Rightarrow> string \<Rightarrow> run_state \<Rightarrow> directory \<Rightarrow> bool" where
  "holds_grown clk r s fs \<longleftrightarrow> (\<exists>b s'. fs r = Some b \<and> decode_state clk r b = Inr s' \<and> grown s s')"

lemma file_step_grown:
  assumes "file_step (- {r}) fs fs'" "holds_grown clk r s fs"
  shows "holds_grown clk r s fs'"
  using assms
proof (cases rule: file_step.cases)
  case (Create t)
  then have "fs' r = fs r" using assms(2) by (auto simp: holds_grown_def)
  then show ?thesis using assms(2) by (simp add: holds_grown_def)
next
  case (Update r' b clk' t t')
  show ?thesis
  proof (cases "r' = r")
    case True
    obtain s' where s': "decode_state clk r b = Inr s'" "grown s s'"
      using assms(2) Update(2) True by (auto simp: holds_grown_def)
    obtain c u where "t = s'\<lparr>created_at := c, updated_at := u\<rparr>"
      using decode_clock [OF s'(1), of clk'] Update(4) True by auto
    then have "grown s t'" using s'(2) grown_times grown_edge Update(5) by metis
    moreover have "run_id t' = r" using Update(4,5) True decode_run_id by (auto simp: edge_def)
    ultimately show ?thesis using Update(1,6) True decode_payload [of t' clk] by (auto simp: holds_grown_def)
  qed (use assms(2) Update(1) in \<open>simp add: holds_grown_def\<close>)
qed (use assms(2) in \<open>auto simp: holds_grown_def\<close>)

lemma file_steps_grown:
  "(file_step (- {r}))\<^sup>*\<^sup>* fs fs' \<Longrightarrow> holds_grown clk r s fs \<Longrightarrow> holds_grown clk r s fs'"
  by (induction rule: rtranclp_induct) (auto intro: file_step_grown)

interpretation run_worlds: step_system world_step "spares r"
  "\<lambda>w. bufs_ok w \<and> holds_grown clk r s (map_of (dir w))" for r clk s
  by unfold_locales (use world_step_steps file_steps_grown in blast)

text \<open>
  C4. Any interleaving of store operations, by any number of store instances sharing the
  directory, with any operating-system answers and clock readings, keeps a readable run
  readable unless that run is pruned: its coordinates never change, an identity once bound
  stays, its status moves along allowed transitions only (a completed run stays completed,
  so completed work is never rerun), and its event count never decreases.
\<close>

theorem interleaved_lifecycle:
  assumes "bufs_ok w" "map_of (dir w) r = Some b" "decode_state clk r b = Inr s"
    and "\<forall>x \<in> set xs. spares r x"
  shows "\<exists>b' s'. map_of (dir (foldl world_step w xs)) r = Some b' \<and> decode_state clk r b' = Inr s'
     \<and> agent_id s' = agent_id s \<and> session_id s' = session_id s \<and> message_id s' = message_id s
     \<and> working_dir s' = working_dir s \<and> forced_skill s' = forced_skill s
     \<and> (identity_id s \<noteq> None \<longrightarrow> identity_id s' = identity_id s)
     \<and> allowed\<^sup>*\<^sup>* (status s) (status s') \<and> (status s = COMPLETED \<longrightarrow> status s' = COMPLETED)
     \<and> event_seq s \<le> event_seq s'"
proof -
  have "holds_grown clk r s (map_of (dir w))"
    using assms(2,3) grown_refl by (auto simp: holds_grown_def)
  then have "holds_grown clk r s (map_of (dir (foldl world_step w xs)))"
    using run_worlds.run_inv [of w clk r s xs] assms(1,4) by blast
  then obtain b' s' where "map_of (dir (foldl world_step w xs)) r = Some b'" "decode_state clk r b' = Inr s'" "grown s s'"
    by (auto simp: holds_grown_def)
  then show ?thesis using allowed_COMPLETED by (auto simp: grown_def)
qed

subsection \<open>The buffered store refines an in-memory run\<close>

text \<open>
  The abstract run is the \<open>RunState\<close> value alone: no file, no buffer.  A progress event
  counts at once; every other event is the two \<open>RunState\<close> methods; an event that is refused
  leaves the value as it is.
\<close>

definition spec_finished :: "env \<Rightarrow> jdict \<Rightarrow> run_state \<Rightarrow> run_exc + run_state" where
  "spec_finished e d s =
     bind_res (RunStatus (py_str (case map_of d ''status'' of None \<Rightarrow> JStr ''failed'' | Some v \<Rightarrow> v))) (\<lambda>target.
       let rsn = (if dget d ''reason'' = JNull then None else Some (py_str (dget d ''reason'')))
       in state_transition (now e 3) (status_value target) rsn
            (if target = FAILED then rsn else None)
            (if target = FAILED then bounded_error_details (dget d ''error'') else None)
            (state_record_event (now e 2) (event_value RUN_FINISHED) JNull JNull False False s))"

definition spec_request :: "env \<Rightarrow> jdict \<Rightarrow> run_state \<Rightarrow> run_exc + run_state" where
  "spec_request e d s =
     (if status s \<noteq> RUNNING then Inl RunStateTransitionError
      else let rsn = str_or (dget d ''reason'') ''Approval required'' in
        state_transition (now e 3) (status_value WAITING_APPROVAL) (Some rsn) None None
          (state_record_event (now e 2) ''approval_required'' JNull JNull False True
            (s\<lparr>approval_id := bounded_text 200 (JStr (str_or (dget d ''approval_id'') [])),
               approval_tool := bounded_text 200 (JStr (str_or (dget d ''tool'') ''tool'')),
               approval_level := bounded_text 200 (JStr (str_or (dget d ''level'') ''execute'')),
               approval_reason := bounded_text 200 (JStr rsn)\<rparr>)))"

definition spec_resolve :: "env \<Rightarrow> jdict \<Rightarrow> bool \<Rightarrow> string \<Rightarrow> run_state \<Rightarrow> run_exc + run_state" where
  "spec_resolve e d ap rsn s =
     (if status s = WAITING_APPROVAL \<and> approval_id s = Some (str_or (dget d ''approval_id'') [])
      then resolved_state e ap (Some (event_value TOOL_CALL_RESULT)) (Some rsn) s
      else Inr s)"

definition spec_tool_result :: "env \<Rightarrow> jdict \<Rightarrow> run_state \<Rightarrow> run_exc + run_state" where
  "spec_tool_result e d s =
     (if truthy (dget d ''approval_required'') then spec_request e d s
      else let outcome = str_or (dget d ''approval_outcome'') [] in
        if outcome = ''granted'' then spec_resolve e d True ''approval_granted'' s
        else if outcome \<in> {''denied'', ''timed_out''} then spec_resolve e d False (''approval_'' @ outcome) s
        else Inr (state_record_event (now e 2) (event_value TOOL_CALL_RESULT) JNull JNull False True s))"

definition spec_event :: "env \<Rightarrow> execution_event \<Rightarrow> run_state \<Rightarrow> run_exc + run_state" where
  "spec_event e ev s =
     (let t = ev_type ev; d = ev_data ev in
      if t \<in> set HIGH_FREQUENCY_STREAM_EVENTS then Inr s
      else if t \<in> set DEFERRED_STATE_EVENTS then
        Inr (s\<lparr>event_seq := event_seq s + 1, last_event_type := Some (event_value t)\<rparr>)
      else if t = RUN_STARTED then
        state_transition (now e 3) (status_value RUNNING) None None None
          (state_record_event (now e 2) (event_value t) JNull JNull False False s)
      else if t = RUN_FINISHED then spec_finished e d s
      else if t = TOOL_CALL_RESULT then spec_tool_result e d s
      else Inr (state_record_event (now e 2) (event_value t)
        (if t = SKILL_START then dget d ''skill'' else JNull)
        (if t = TOOL_CALL_START then dget d ''name'' else JNull)
        (t = SKILL_END) False s))"

definition spec_step :: "run_state \<Rightarrow> env \<times> execution_event \<Rightarrow> run_state" where
  "spec_step s x = (case spec_event (fst x) (snd x) s of Inl _ \<Rightarrow> s | Inr s' \<Rightarrow> s')"

definition project_step :: "string \<Rightarrow> run_store \<Rightarrow> env \<times> execution_event \<Rightarrow> run_store" where
  "project_step r st x = exec (fst x) (Project r (snd x)) st"

text \<open>The store holds the run: its file is the print of a well-formed state.\<close>

definition holds_run :: "string \<Rightarrow> run_store \<Rightarrow> run_state \<Rightarrow> bool" where
  "holds_run r st s \<longleftrightarrow> buffer_ok st \<and> (\<exists>s0. map_of (files st) r = Some (FText (state_payload s0))
     \<and> wf_state s0 \<and> run_id s0 = r \<and> s = apply_deferred st s0)"

lemma holds_run_require: "holds_run r st s \<Longrightarrow> require clk r st = Inr s \<and> wf_state s \<and> run_id s = r"
  using decode_payload apply_deferred_wf by (auto simp: holds_run_def require_Inr wf_state_def)

lemma holds_run_unique: "holds_run r st s \<Longrightarrow> holds_run r st s' \<Longrightarrow> s = s'"
  using holds_run_require by (metis sum.inject(2))

lemma holds_run_save:
  assumes "wf_state s'" "run_id s' = r" "buffer_ok st"
  shows "holds_run r (snd (save_result SaveOk (Inr s') st)) s'"
proof -
  have "RUN_ID_RE r" using assms by (auto simp: wf_state_def)
  then show ?thesis using assms save_result_buffer_ok [OF assms(3), of SaveOk "Inr s'"]
    by (auto simp: holds_run_def save_result_def save_def validate_run_id_def write_state_def pop_deferred_def
      apply_deferred_def Let_def delete_conv')
qed

lemma holds_run_result:
  assumes "holds_run r st s" "\<And>s'. res = Inr s' \<Longrightarrow> wf_state s' \<and> run_id s' = r"
  shows "holds_run r (snd (save_result SaveOk res st)) (case res of Inl _ \<Rightarrow> s | Inr s' \<Rightarrow> s')"
proof (cases res)
  case (Inl x)
  then show ?thesis using assms(1) by (simp add: save_result_def)
next
  case (Inr s')
  then show ?thesis using assms holds_run_save by (auto simp: holds_run_def)
qed

lemma transition_wf:
  "state_transition nw target rsn err details s = Inr s' \<Longrightarrow> wf_state s \<Longrightarrow> nw \<noteq> [] \<Longrightarrow>
     wf_state s' \<and> run_id s' = run_id s"
  using state_transition_Inr [of nw target rsn err details s s'] by (auto simp: edge_def)

lemma spec_finished_wf:
  "spec_finished e d s = Inr s' \<Longrightarrow> wf_state s \<Longrightarrow> clock_ok (now e) \<Longrightarrow> wf_state s' \<and> run_id s' = run_id s"
  by (auto simp: spec_finished_def bind_res_Inr Let_def clock_okD dest!: transition_wf intro: state_record_event_wf)

lemma spec_request_wf:
  assumes "spec_request e d s = Inr s'" "wf_state s" "clock_ok (now e)"
  shows "wf_state s' \<and> run_id s' = run_id s"
proof -
  have "wf_state (s\<lparr>approval_id := bounded_text 200 a, approval_tool := bounded_text 200 b,
      approval_level := bounded_text 200 c, approval_reason := bounded_text 200 g\<rparr>)" for a b c g
    using assms(2) by (simp add: wf_state_def bounded_text_ok)
  then show ?thesis using assms
    by (auto simp: spec_request_def Let_def clock_okD state_record_event_wf dest!: transition_wf split: if_splits)
qed

lemma spec_resolve_wf:
  "spec_resolve e d ap rsn s = Inr s' \<Longrightarrow> wf_state s \<Longrightarrow> clock_ok (now e) \<Longrightarrow> wf_state s' \<and> run_id s' = run_id s"
  using resolved_state_edge [of e ap _ _ s s'] by (auto simp: spec_resolve_def split: if_splits)

lemma spec_tool_result_wf:
  "spec_tool_result e d s = Inr s' \<Longrightarrow> wf_state s \<Longrightarrow> clock_ok (now e) \<Longrightarrow> wf_state s' \<and> run_id s' = run_id s"
  using spec_request_wf spec_resolve_wf
  by (auto simp: spec_tool_result_def Let_def clock_okD state_record_event_wf split: if_splits)

lemma holds_run_tool_result:
  assumes h: "holds_run r st s" and ok: "clock_ok (now e)" "saves e 0 = SaveOk"
  shows "holds_run r (snd (project_tool_result e r d st)) (case spec_tool_result e d s of Inl _ \<Rightarrow> s | Inr s' \<Rightarrow> s')"
proof -
  have req: "require (now e) r st = Inr s" and wf: "wf_state s" "run_id s = r"
    using holds_run_require [OF h] by auto
  note res = holds_run_result [OF h]
  have A: "holds_run r (snd (request_approval e r (str_or (dget d ''approval_id'') [])
          (str_or (dget d ''tool'') ''tool'') (str_or (dget d ''level'') ''execute'')
          (str_or (dget d ''reason'') ''Approval required'') st))
      (case spec_request e d s of Inl _ \<Rightarrow> s | Inr s' \<Rightarrow> s')"
  proof -
    have "snd (request_approval e r (str_or (dget d ''approval_id'') [])
          (str_or (dget d ''tool'') ''tool'') (str_or (dget d ''level'') ''execute'')
          (str_or (dget d ''reason'') ''Approval required'') st) = snd (save_result SaveOk (spec_request e d s) st)"
      by (simp add: request_approval_def req spec_request_def Let_def ok)
    then show ?thesis using res [of "spec_request e d s"] spec_request_wf [of e d s] wf ok by simp
  qed
  have B: "holds_run r (snd (resolve_approval_if_waiting e r (str_or (dget d ''approval_id'') []) ap
          (Some (event_value TOOL_CALL_RESULT)) (Some rsn) st))
      (case spec_resolve e d ap rsn s of Inl _ \<Rightarrow> s | Inr s' \<Rightarrow> s')" for ap rsn
    using res [of "resolved_state e ap (Some (event_value TOOL_CALL_RESULT)) (Some rsn) s"]
      resolved_state_edge [OF _ ok(1)] wf ok h
    by (auto simp: resolve_approval_if_waiting_def req spec_resolve_def)
  have C: "holds_run r (snd (record_event e r (event_value TOOL_CALL_RESULT) JNull JNull False True st))
      (state_record_event (now e 2) (event_value TOOL_CALL_RESULT) JNull JNull False True s)"
    using res [of "Inr (state_record_event (now e 2) (event_value TOOL_CALL_RESULT) JNull JNull False True s)"] wf ok
    by (simp add: record_event_def req state_record_event_wf clock_okD)
  show ?thesis using A B C by (simp add: project_tool_result_def spec_tool_result_def Let_def)
qed

lemma holds_run_finished:
  assumes h: "holds_run r st s" and ok: "clock_ok (now e)" "saves e 0 = SaveOk"
  shows "holds_run r (snd (project_finished e r d st)) (case spec_finished e d s of Inl _ \<Rightarrow> s | Inr s' \<Rightarrow> s')"
proof -
  have req: "require (now e) r st = Inr s" and wf: "wf_state s" "run_id s = r"
    using holds_run_require [OF h] by auto
  show ?thesis
  proof (cases "RunStatus (py_str (case map_of d ''status'' of None \<Rightarrow> JStr ''failed'' | Some v \<Rightarrow> v))")
    case (Inr target)
    then have "snd (project_finished e r d st) = snd (save_result SaveOk (spec_finished e d s) st)"
      by (simp add: project_finished_def transition_def req spec_finished_def Let_def ok)
    then show ?thesis using holds_run_result [OF h, of "spec_finished e d s"] spec_finished_wf [of e d s] wf ok by simp
  qed (use h in \<open>simp add: project_finished_def spec_finished_def\<close>)
qed

lemma bounded_event_value: "bounded_text 200 (JStr (event_value t)) = Some (event_value t)"
  by (cases t) (simp_all add: bounded_text_def)

lemma holds_run_defer:
  assumes h: "holds_run r st s"
  shows "holds_run r (snd (defer_event r (event_value t) st))
    (s\<lparr>event_seq := event_seq s + 1, last_event_type := Some (event_value t)\<rparr>)"
proof -
  obtain s0 where s0: "map_of (files st) r = Some (FText (state_payload s0))" "wf_state s0" "run_id s0 = r"
    "s = apply_deferred st s0" using h by (auto simp: holds_run_def)
  have v: "RUN_ID_RE r" using s0 by (auto simp: wf_state_def)
  have "buffer_ok (snd (defer_event r (event_value t) st))"
    using defer_event_follows [of st "{}" r "event_value t"] h by (simp add: holds_run_def follows_def)
  moreover have "apply_deferred (snd (defer_event r (event_value t) st)) s0
      = s\<lparr>event_seq := event_seq s + 1, last_event_type := Some (event_value t)\<rparr>"
    using s0 v by (simp add: apply_deferred_def defer_event_def validate_run_id_def bounded_event_value Let_def
      split: option.splits)
  ultimately show ?thesis using s0 v by (auto simp: holds_run_def defer_event_def validate_run_id_def Let_def)
qed

lemma snd_project: "snd (project_execution_event e r ev st) =
   (if ev_type ev \<in> set HIGH_FREQUENCY_STREAM_EVENTS then st else snd (project_body e r ev st))"
  by (auto simp: project_execution_event_def split: prod.splits sum.splits)

theorem project_step_refines:
  assumes h: "holds_run r st s" and ok: "clock_ok (now e)" "saves e 0 = SaveOk"
  shows "holds_run r (project_step r st (e, ev)) (spec_step s (e, ev))"
proof -
  let ?t = "ev_type ev" and ?d = "ev_data ev"
  have req: "require (now e) r st = Inr s" and wf: "wf_state s" "run_id s = r"
    using holds_run_require [OF h] by auto
  have rec: "holds_run r (snd (record_event e r x sk tool cs ct st)) (state_record_event (now e 2) x sk tool cs ct s)"
    for x sk tool cs ct
    using holds_run_result [OF h, of "Inr (state_record_event (now e 2) x sk tool cs ct s)"] wf ok
    by (simp add: record_event_def req state_record_event_wf clock_okD)
  have start: "holds_run r (snd (transition e r (status_value RUNNING) (Some x) None None None st))
      (case state_transition (now e 3) (status_value RUNNING) None None None
          (state_record_event (now e 2) x JNull JNull False False s) of Inl _ \<Rightarrow> s | Inr s' \<Rightarrow> s')" for x
    using holds_run_result [OF h, of "state_transition (now e 3) (status_value RUNNING) None None None
          (state_record_event (now e 2) x JNull JNull False False s)"] wf ok
      transition_wf state_record_event_wf clock_okD [OF ok(1)]
    by (simp add: transition_def req)
  note fin = holds_run_finished [OF h ok, of ?d] and tool = holds_run_tool_result [OF h ok, of ?d]
  show ?thesis
    using h rec start fin tool holds_run_defer [OF h]
    by (simp add: project_step_def spec_step_def spec_event_def snd_project project_body_def Let_def)
qed

definition saves_fine :: "env \<times> execution_event \<Rightarrow> bool" where
  "saves_fine x \<longleftrightarrow> clock_ok (now (fst x)) \<and> saves (fst x) 0 = SaveOk"

definition spec_lift :: "run_exc + run_state \<Rightarrow> env \<times> execution_event \<Rightarrow> run_exc + run_state" where
  "spec_lift a x = (case a of Inl e \<Rightarrow> Inl e | Inr s \<Rightarrow> Inr (spec_step s x))"

interpretation buffered_run: step_simulation "project_step r" saves_fine "\<lambda>st. \<exists>s. holds_run r st s"
  "require clk r" spec_lift for r clk
proof
  fix st x assume h: "\<exists>s. holds_run r st s" and ok: "saves_fine x"
  then obtain s where s: "holds_run r st s" by blast
  have *: "holds_run r (project_step r st x) (spec_step s x)"
    using project_step_refines [OF s, of "fst x" "snd x"] ok by (simp add: saves_fine_def)
  then show "\<exists>s. holds_run r (project_step r st x) s" by blast
  show "require clk r (project_step r st x) = spec_lift (require clk r st) x"
    using holds_run_require [OF s, of clk] holds_run_require [OF *, of clk] by (simp add: spec_lift_def)
qed

lemma foldl_spec_lift: "foldl spec_lift (Inr s) xs = Inr (foldl spec_step s xs)"
  by (induction xs arbitrary: s) (simp_all add: spec_lift_def)

text \<open>
  C5. Take one store instance that holds a run and a sequence of execution events for which
  every save succeeds.  Projecting them into the store, with progress events held in the buffer
  and everything else written through the JSON file, and then reading the run back through that
  instance gives exactly the state an in-memory run that applies every event at once would
  have.  (A save that fails loses the buffered events: \<open>failed_save_drops_buffer\<close>.)
\<close>

theorem buffered_store_refines_run:
  assumes "holds_run r st s" "\<forall>x \<in> set xs. saves_fine x"
  shows "require clk r (foldl (project_step r) st xs) = Inr (foldl spec_step s xs)"
proof -
  have "require clk r (foldl (project_step r) st xs) = foldl spec_lift (require clk r st) xs"
    using assms by (intro buffered_run.run_abs) auto
  then show ?thesis using holds_run_require [OF assms(1), of clk] by (simp add: foldl_spec_lift)
qed

definition counted :: "event_type \<Rightarrow> bool" where
  "counted t \<longleftrightarrow> t \<notin> set HIGH_FREQUENCY_STREAM_EVENTS \<and> t \<notin> {RUN_STARTED, RUN_FINISHED, TOOL_CALL_RESULT}"

lemma spec_step_count:
  "counted (ev_type (snd x)) \<Longrightarrow> event_seq (spec_step s x) = event_seq s + 1 \<and> status (spec_step s x) = status s"
  by (simp add: spec_step_def spec_event_def counted_def Let_def)

lemma spec_run_count:
  "\<forall>x \<in> set xs. counted (ev_type (snd x)) \<Longrightarrow> event_seq (foldl spec_step s xs) = event_seq s + int (length xs)
     \<and> status (foldl spec_step s xs) = status s"
  by (induction xs arbitrary: s) (simp_all add: spec_step_count)

text \<open>
  The event sequence is an exact count: any mix of buffered and written events that
  carry no transition advances it by one each, whatever the order, and none of them moves
  the status.
\<close>

theorem event_count_exact:
  assumes "holds_run r st s" "\<forall>x \<in> set xs. saves_fine x \<and> counted (ev_type (snd x))"
  shows "\<exists>s'. require clk r (foldl (project_step r) st xs) = Inr s'
     \<and> event_seq s' = event_seq s + int (length xs) \<and> status s' = status s"
proof -
  have "require clk r (foldl (project_step r) st xs) = Inr (foldl spec_step s xs)"
    using assms buffered_run.run_abs [of r st xs clk] holds_run_require [OF assms(1), of clk]
    by (auto simp: foldl_spec_lift)
  then show ?thesis using spec_run_count assms(2) by blast
qed

subsection \<open>Startup recovery\<close>

definition live_run :: "directory \<Rightarrow> string \<Rightarrow> bool" where
  "live_run fs r \<longleftrightarrow> RUN_ID_RE r \<and> (\<exists>b clk s. fs r = Some b \<and> decode_state clk r b = Inr s
     \<and> status s \<in> set LIVE_RUN_STATUSES)"

lemma live_run_require:
  "live_run (map_of (files st)) r \<longleftrightarrow> (\<exists>s. require clk r st = Inr s \<and> status s \<in> set LIVE_RUN_STATUSES)"
proof
  assume "live_run (map_of (files st)) r"
  then obtain b clk' s where b: "RUN_ID_RE r" "map_of (files st) r = Some b" "decode_state clk' r b = Inr s"
    "status s \<in> set LIVE_RUN_STATUSES" by (auto simp: live_run_def)
  obtain s' where "decode_state clk r b = Inr s'" "status s' = status s"
    using decode_clock [OF b(3), of clk] by auto
  with b show "\<exists>s. require clk r st = Inr s \<and> status s \<in> set LIVE_RUN_STATUSES" by (auto simp: require_Inr)
qed (fastforce simp: live_run_def require_Inr)

text \<open>What recovery makes of a run: the same run, cancelled because the server restarted, resumable.\<close>

definition cancelled_from :: "run_state \<Rightarrow> run_state \<Rightarrow> bool" where
  "cancelled_from s s' \<longleftrightarrow> status s' = CANCELLED \<and> reason s' = Some ''server_restarted''
     \<and> approval_id s' = None \<and> current_tool s' = None
     \<and> event_seq s' = event_seq s + 1 \<and> last_event_type s' = Some ''run_interrupted'' \<and> edge s s'"

lemma save_result_pops:
  assumes "save_result ans res st = (Inr s', st')"
  shows "st' = snd (save_result SaveOk (Inr s') st)"
  using assms by (auto simp: save_result_def save_def Let_def split: sum.splits save_answer.splits prod.splits)

lemma save_result_InrD:
  assumes "save_result ans res st = (Inr s', st')"
  shows "res = Inr s' \<and> files st' = dset (run_id s') (FText (state_payload s')) (files st)"
  using assms by (auto simp: save_result_def save_def write_state_def pop_deferred_def Let_def
    split: sum.splits save_answer.splits prod.splits)

lemma interrupted_state_edge:
  assumes "interrupted_state e s = Inr s'" "clock_ok (now e)"
  shows "edge s s' \<and> (wf_state s \<longrightarrow> wf_state s')"
proof -
  have "edge s s' \<and> (wf_state s \<longrightarrow> wf_state s') \<and> run_id s' = run_id s"
    by (rule edge_via_transition [OF assms(1) [unfolded interrupted_state_def]])
      (use clock_okD [OF assms(2)] in \<open>auto intro: state_record_event_wf clear_approval_wf
        edge_trans_status [OF clear_approval_edge state_record_event_edge]\<close>)
  then show ?thesis by blast
qed

lemma interrupted_state_cancels:
  assumes "interrupted_state e s = Inr s'" "clock_ok (now e)"
  shows "cancelled_from s s'"
  using assms interrupted_state_edge [OF assms]
  by (auto simp: interrupted_state_def cancelled_from_def state_transition_def bind_res_Inr RunStatus_value
      state_record_event_def clear_approval_def bounded_text_def simp del: status_value.simps split: if_splits)

lemma require_wf: "require clk r st = Inr s \<Longrightarrow> clock_ok clk \<Longrightarrow> buffer_ok st \<Longrightarrow> wf_state s"
  using decode_wf apply_deferred_wf by (auto simp: require_Inr)

text \<open>The file and the buffered events of a run are untouched.\<close>

definition same_run :: "string \<Rightarrow> run_store \<Rightarrow> run_store \<Rightarrow> bool" where
  "same_run r st st' \<longleftrightarrow> map_of (files st') r = map_of (files st) r \<and> map_of (deferred st') r = map_of (deferred st) r"

lemma same_run_require:
  assumes "same_run r st st'"
  shows "require clk r st' = require clk r st"
proof -
  have "bind_res (decode_state clk r b) (\<lambda>s. Inr (Some (apply_deferred st' s)))
      = bind_res (decode_state clk r b) (\<lambda>s. Inr (Some (apply_deferred st s)))" for b
    using assms by (auto simp: same_run_def apply_deferred_def decode_state_def bind_res_def
        split: sum.splits file_body.splits option.splits json.splits if_splits)
  then show ?thesis using assms by (simp add: require_def get_def same_run_def cong: option.case_cong)
qed

lemma same_run_holds: "same_run r st st' \<Longrightarrow> buffer_ok st' \<Longrightarrow> holds_run r st s \<Longrightarrow> holds_run r st' s"
  by (auto simp: same_run_def holds_run_def apply_deferred_def)

lemma same_run_live: "same_run r st st' \<Longrightarrow> live_run (map_of (files st')) r = live_run (map_of (files st)) r"
  by (simp add: same_run_def live_run_def)

text \<open>A live run was read and cancelled.\<close>

definition run_recovered :: "string \<Rightarrow> run_store \<Rightarrow> run_store \<Rightarrow> bool" where
  "run_recovered r st st' \<longleftrightarrow> (\<exists>clk s s'. require clk r st = Inr s \<and> status s \<in> set LIVE_RUN_STATUSES
     \<and> cancelled_from s s' \<and> holds_run r st' s')"

lemma run_recovered_dead: "run_recovered r st st' \<Longrightarrow> \<not> live_run (map_of (files st')) r"
  using holds_run_require
  by (fastforce simp: run_recovered_def cancelled_from_def live_run_require [of _ _ "\<lambda>_. []"] LIVE_RUN_STATUSES_def)

lemma recover_one_spec:
  assumes "recover_one e r st = (Inr b, st')" "clock_ok (now e)" "buffer_ok st"
  shows "(b \<longleftrightarrow> live_run (map_of (files st)) r) \<and> buffer_ok st' \<and> (\<forall>q. q \<noteq> r \<or> \<not> b \<longrightarrow> same_run q st st')
     \<and> (b \<longrightarrow> run_recovered r st st')"
proof (cases "live_run (map_of (files st)) r")
  case True
  then obtain s where s: "require (now e) r st = Inr s" "status s \<in> set LIVE_RUN_STATUSES"
    using live_run_require [of st r "now e"] by blast
  have g: "get (now e) r st = Inr (Some s)" "RUN_ID_RE r"
    using s(1) by (auto simp: get_Inr_Some require_Inr)
  obtain s' where s': "save_result (saves e 0) (interrupted_state e s) st = (Inr s', st')" and b: b
    using assms(1) s(2) g
    by (auto simp: recover_one_def LIVE_RUN_STATUSES_def split: sum.splits prod.splits if_splits)
  have i: "interrupted_state e s = Inr s'" using save_result_InrD [OF s'] by auto
  have wf: "wf_state s'"
    using interrupted_state_edge [OF i assms(2)] require_wf [OF s(1) assms(2,3)] by blast
  have c: "cancelled_from s s'" by (rule interrupted_state_cancels [OF i assms(2)])
  then have id: "run_id s' = r" using require_run_id [OF s(1)] by (simp add: cancelled_from_def edge_def)
  note st' = save_result_pops [OF s']
  have h: "holds_run r st' s'" unfolding st' by (rule holds_run_save [OF wf id assms(3)])
  have "same_run q st st'" if "q \<noteq> r" for q
    using that id g(2) unfolding st'
    by (simp add: same_run_def save_result_def save_def validate_run_id_def pop_deferred_def write_state_def
        Let_def delete_conv')
  with True b s c h show ?thesis by (auto simp: run_recovered_def holds_run_def)
next
  case False
  then have "\<And>s. get (now e) r st = Inr (Some s) \<Longrightarrow> status s \<notin> set LIVE_RUN_STATUSES"
    using live_run_require [of st r "now e"] by (auto simp: get_Inr_Some)
  then have "\<not> b \<and> st' = st"
    using assms(1) by (auto simp: recover_one_def LIVE_RUN_STATUSES_def split: sum.splits option.splits if_splits prod.splits)
  then show ?thesis using False assms(3) by (simp add: same_run_def)
qed

lemma run_recovered_later:
  assumes "run_recovered r st1 st2" "same_run r st st1"
  shows "run_recovered r st st2"
  using assms same_run_require [OF assms(2)] by (auto simp: run_recovered_def)

lemma run_recovered_earlier:
  assumes "run_recovered r st st1" "same_run r st1 st2" "buffer_ok st2"
  shows "run_recovered r st st2"
  using assms same_run_holds [OF assms(2,3)] by (fastforce simp: run_recovered_def)

lemma same_run_trans: "same_run r st st1 \<Longrightarrow> same_run r st1 st2 \<Longrightarrow> same_run r st st2"
  by (simp add: same_run_def)

lemma recover_loop_spec:
  "recover_loop e rs st = (Inr out, st') \<Longrightarrow> clock_ok (now e) \<Longrightarrow> buffer_ok st \<Longrightarrow> distinct rs \<Longrightarrow>
     out = filter (live_run (map_of (files st))) rs \<and> buffer_ok st'
     \<and> (\<forall>r \<in> set out. run_recovered r st st') \<and> (\<forall>r. r \<notin> set out \<longrightarrow> same_run r st st')"
proof (induction e rs st arbitrary: out st' rule: recover_loop.induct)
  case (2 e r rs st)
  obtain b st1 where o: "recover_one e r st = (Inr b, st1)"
    using "2.prems"(1) by (auto split: sum.splits prod.splits)
  obtain out1 where l: "recover_loop (later 4 1 e) rs st1 = (Inr out1, st')"
    and out: "out = (if b then r # out1 else out1)"
    using "2.prems"(1) o by (auto split: sum.splits prod.splits)
  note one = recover_one_spec [OF o "2.prems"(2,3)]
  have IH: "out1 = filter (live_run (map_of (files st1))) rs" "buffer_ok st'"
     "\<forall>r \<in> set out1. run_recovered r st1 st'" "\<forall>r. r \<notin> set out1 \<longrightarrow> same_run r st1 st'"
    using "2.IH" [OF o [symmetric] refl l] "2.prems"(2,4) clock_ok_later one by auto
  have same: "live_run (map_of (files st1)) q = live_run (map_of (files st)) q" if "q \<in> set rs" for q
    using one that "2.prems"(4) by (intro same_run_live) auto
  have out1: "out1 = filter (live_run (map_of (files st))) rs" using IH(1) same by (simp cong: filter_cong)
  have new: "r \<notin> set out1" using out1 "2.prems"(4) by simp
  have "out = filter (live_run (map_of (files st))) (r # rs)" using out out1 one by simp
  moreover have "run_recovered q st st'" if q: "q \<in> set out" for q
  proof (cases "q = r")
    case True
    then have b using q out new by (auto split: if_splits)
    with True show ?thesis using one new IH(2,4) run_recovered_earlier by blast
  next
    case False
    then have "q \<in> set out1" using q out by (auto split: if_splits)
    then show ?thesis using IH(3) one False run_recovered_later by blast
  qed
  moreover have "same_run q st st'" if q: "q \<notin> set out" for q
  proof -
    have "q \<notin> set out1" "q \<noteq> r \<or> \<not> b" using q out by (auto split: if_splits)
    then show ?thesis using IH(4) one same_run_trans by blast
  qed
  ultimately show ?case using IH(2) by blast
qed (simp add: same_run_def)

text \<open>
  C6. Startup recovery, when it returns (an undecodable file aborts it, see
  \<open>undecodable_file_aborts_recovery\<close>), names exactly the runs that were queued, running or
  waiting for approval, in file-name order.  Each of them reads back as the same run, cancelled
  with the reason that the server restarted, one event further, without a pending approval; no
  readable run is live any more, and every other file is left byte for byte as it was.
\<close>

theorem recovery_leaves_no_live_run:
  assumes "recover_interrupted e st = (Inr out, st')" "clock_ok (now e)" "buffer_ok st" "distinct (dkeys (files st))"
  shows "out = filter (live_run (map_of (files st))) (run_stems st)
    \<and> (\<forall>r \<in> set out. \<exists>clk s s'. require clk r st = Inr s \<and> cancelled_from s s'
         \<and> (\<forall>clk'. require clk' r st' = Inr s'))
    \<and> (\<forall>r. \<not> live_run (map_of (files st')) r)
    \<and> (\<forall>r. r \<notin> set out \<longrightarrow> map_of (files st') r = map_of (files st) r)"
proof -
  have d: "distinct (run_stems st)" using assms(4) by (simp add: run_stems_def)
  have spec: "out = filter (live_run (map_of (files st))) (run_stems st)"
    "\<And>r. r \<in> set out \<Longrightarrow> run_recovered r st st'" "\<And>r. r \<notin> set out \<Longrightarrow> same_run r st st'"
    using recover_loop_spec [OF assms(1) [unfolded recover_interrupted_def] assms(2,3) d] by blast+
  have "\<not> live_run (map_of (files st')) r" for r
  proof (cases "r \<in> set out")
    case False
    then have "r \<notin> set (run_stems st) \<or> \<not> live_run (map_of (files st)) r" using spec(1) by auto
    moreover have "map_of (files st) r = None" if "r \<notin> set (run_stems st)"
      using that by (auto simp: run_stems_def map_of_eq_None_iff)
    ultimately have "\<not> live_run (map_of (files st)) r" by (auto simp: live_run_def)
    then show ?thesis using same_run_live [OF spec(3) [OF False]] by simp
  qed (use spec(2) run_recovered_dead in blast)
  moreover have "\<exists>clk s s'. require clk r st = Inr s \<and> cancelled_from s s' \<and> (\<forall>clk'. require clk' r st' = Inr s')"
    if "r \<in> set out" for r
    using spec(2) [OF that] holds_run_require unfolding run_recovered_def by blast
  ultimately show ?thesis using spec(1,3) by (simp add: same_run_def)
qed

subsection \<open>Pruning, resuming, approvals\<close>

lemma get_errors:
  "get clk r st = Inl x \<Longrightarrow> RUN_ID_RE r \<Longrightarrow> x \<in> {RunStateError, UnicodeDecodeError, OverflowError}"
  by (auto simp: get_def validate_run_id_def decode_state_def from_dict_def event_seq_of_def bind_res_def
    split: option.splits file_body.splits json.splits sum.splits int_exc.splits if_splits)

lemma live_run_get:
  "live_run (map_of (files st)) r \<longleftrightarrow> (\<exists>s. get clk r st = Inr (Some s) \<and> status s \<in> set LIVE_RUN_STATUSES)"
  unfolding get_Inr_Some by (rule live_run_require)

text \<open>
  Pruning never removes the file of a run that is queued, running or waiting for
  approval; it answers False and changes nothing.  Every other run with a valid id, readable
  or not, is removed together with its buffered events and with nothing else, the one
  exception being a file whose event count is not a finite number.
\<close>

theorem prune_spares_live_runs:
  assumes "RUN_ID_RE r"
  shows "prune clk r st =
    (if live_run (map_of (files st)) r then (Inr False, st)
     else if get clk r st = Inl OverflowError then (Inl OverflowError, st)
     else (Inr True, \<lparr>files = AList.delete r (files st), deferred = AList.delete r (deferred st)\<rparr>))"
proof (cases "get clk r st")
  case (Inl x)
  then have "\<not> live_run (map_of (files st)) r" by (simp add: live_run_get [of st r clk])
  then show ?thesis using Inl assms get_errors [OF Inl assms]
    by (auto simp: prune_def validate_run_id_def remove_run_def)
next
  case (Inr x)
  then show ?thesis using assms
    by (cases x) (auto simp: prune_def validate_run_id_def remove_run_def live_run_get [of st r clk])
qed

lemma mismatched_fields_Nil: "mismatched_fields sc s = [] \<longleftrightarrow> sc = scope_from_state s"
  by (cases sc) (auto simp: mismatched_fields_def scope_from_state_def Let_def)

lemma state_transition_allowed:
  "t \<in> set (ALLOWED_TRANSITIONS (status s)) \<Longrightarrow> \<exists>s'. state_transition nw (status_value t) rsn err details s = Inr s'"
  by (simp add: state_transition_def)

lemma transition_to:
  "state_transition nw (status_value t) rsn err details s = Inr s' \<Longrightarrow>
     status s' = t \<and> event_seq s' = event_seq s \<and> run_id s' = run_id s \<and> approval_id s' = approval_id s"
  by (auto simp: state_transition_def split: if_splits)

text \<open>
  C7. A resume request succeeds exactly when its scope, if one is given, equals the
  persisted coordinates of the run and the run ended incomplete, failed or cancelled; it
  then leaves the run running with one more event.  Otherwise it raises, the scope error
  first, and the store is unchanged; in particular completed work is never resumed.
\<close>

theorem resume_exactly_when_recoverable:
  assumes read: "require (now e) r st = Inr s" and ok: "saves e 0 = SaveOk" "clock_ok (now e)" "buffer_ok st"
  shows "if scope \<noteq> None \<and> scope \<noteq> Some (scope_from_state s) then resume e r scope st = (Inl RunScopeMismatchError, st)
    else if status s \<in> {INCOMPLETE, FAILED, CANCELLED}
    then \<exists>s'. fst (resume e r scope st) = Inr s' \<and> status s' = RUNNING \<and> event_seq s' = event_seq s + 1
         \<and> holds_run r (snd (resume e r scope st)) s'
    else resume e r scope st = (Inl RunStateTransitionError, st)"
proof -
  have scope: "(case scope of None \<Rightarrow> False | Some sc \<Rightarrow> mismatched_fields sc s \<noteq> [])
      \<longleftrightarrow> scope \<noteq> None \<and> scope \<noteq> Some (scope_from_state s)"
    by (auto simp: mismatched_fields_Nil split: option.splits)
  have wf: "wf_state s" "run_id s = r" using require_wf [OF read ok(2,3)] require_run_id [OF read] by auto
  show ?thesis
  proof (cases "(scope = None \<or> scope = Some (scope_from_state s)) \<and> status s \<in> {INCOMPLETE, FAILED, CANCELLED}")
    case True
    then have "RUNNING \<in> set (ALLOWED_TRANSITIONS (status s))" by auto
    then obtain s1 where s1: "state_transition (now e 2) (status_value RUNNING) (Some ''resumed'') None None s = Inr s1"
      using state_transition_allowed by blast
    let ?s' = "state_record_event (now e 3) ''run_resumed'' JNull JNull False False s1"
    have t: "status s1 = RUNNING" "event_seq s1 = event_seq s" "wf_state s1" "run_id s1 = r"
      using transition_to [OF s1] transition_wf [OF s1] wf clock_okD [OF ok(2)] by auto
    have "resume e r scope st = save_result SaveOk (Inr ?s') st"
      using True scope by (auto simp: resume_def validate_resume_def read s1 [simplified] ok)
    moreover have "wf_state ?s'" using t clock_okD [OF ok(2)] by (simp add: state_record_event_wf)
    moreover have "fst (save_result SaveOk (Inr ?s') st) = Inr ?s'"
      using t \<open>wf_state ?s'\<close> by (simp add: save_result_def save_def validate_run_id_def wf_state_def Let_def)
    ultimately show ?thesis using True t holds_run_save [of ?s' r st] ok(3) by auto
  qed (use scope in \<open>auto simp: resume_def validate_resume_def read save_result_def\<close>)
qed

lemma resolved_state_Inr:
  assumes "status s = WAITING_APPROVAL"
  obtains s' where "resolved_state e ap ev rsn s = Inr s'" "status s' = RUNNING" "approval_id s' = None"
    "event_seq s' = event_seq s + 1"
proof -
  let ?s = "state_record_event (now e 2) (text_or ev (resolution ap)) JNull JNull False False (clear_approval s)"
  have "RUNNING \<in> set (ALLOWED_TRANSITIONS (status ?s))" using assms by simp
  then obtain s' where s': "resolved_state e ap ev rsn s = Inr s'"
    unfolding resolved_state_def using state_transition_allowed by blast
  then show ?thesis
    using transition_to [OF s' [unfolded resolved_state_def]] by (intro that) auto
qed

text \<open>
  An approval is resolved once.  The resolution that finds the run waiting on its id
  takes it back to running with one more event and no pending approval; from then on every
  further resolution, whatever its id and verdict, is refused or returns the same state, and
  changes nothing.
\<close>

theorem approval_resolved_once:
  assumes h: "holds_run r st s" and w: "status s = WAITING_APPROVAL" "approval_id s = Some aid"
    and ok: "clock_ok (now e)" "saves e 0 = SaveOk"
  shows "\<exists>s1 st1. resolve_approval_if_waiting e r aid ap ev rsn st = (Inr s1, st1)
     \<and> status s1 = RUNNING \<and> approval_id s1 = None \<and> event_seq s1 = event_seq s + 1
     \<and> (\<forall>e' aid' ap' ev' rsn'. resolve_approval_if_waiting e' r aid' ap' ev' rsn' st1 = (Inr s1, st1)
          \<and> resolve_approval e' r aid' ap' ev' rsn' st1 = (Inl RunStateTransitionError, st1))"
proof -
  have req: "require (now e) r st = Inr s" and wf: "wf_state s" "run_id s = r"
    using holds_run_require [OF h] by auto
  obtain s1 where s1: "resolved_state e ap ev rsn s = Inr s1" "status s1 = RUNNING" "approval_id s1 = None"
    "event_seq s1 = event_seq s + 1" using resolved_state_Inr [OF w(1)] by blast
  have wf1: "wf_state s1" "run_id s1 = r" using resolved_state_edge [OF s1(1) ok(1)] wf by auto
  let ?st1 = "snd (save_result SaveOk (Inr s1) st)"
  have h1: "holds_run r ?st1 s1" using holds_run_save wf1 h by (auto simp: holds_run_def)
  have "fst (save_result SaveOk (Inr s1) st) = Inr s1"
    using wf1 by (simp add: save_result_def save_def validate_run_id_def wf_state_def Let_def)
  then have "resolve_approval_if_waiting e r aid ap ev rsn st = (Inr s1, ?st1)"
    using w by (simp add: resolve_approval_if_waiting_def req s1 ok prod_eq_iff)
  moreover have "resolve_approval_if_waiting e' r aid' ap' ev' rsn' ?st1 = (Inr s1, ?st1)
      \<and> resolve_approval e' r aid' ap' ev' rsn' ?st1 = (Inl RunStateTransitionError, ?st1)" for e' aid' ap' ev' rsn'
    using holds_run_require [OF h1, of "now e'"] s1(2)
    by (simp add: resolve_approval_if_waiting_def resolve_approval_def save_result_def)
  ultimately show ?thesis using s1 by blast
qed

subsection \<open>Where the store falls short of its comments\<close>

text \<open>
  One state file that is not valid UTF-8 aborts startup recovery: the read raises an
  exception the loop does not catch, so no run whose file sorts after it is recovered.
\<close>

theorem undecodable_file_aborts_recovery:
  assumes "run_stems st = r # rs" "RUN_ID_RE r" "map_of (files st) r = Some FBadUtf8"
  shows "recover_interrupted e st = (Inl UnicodeDecodeError, st)"
  using assms by (simp add: recover_interrupted_def recover_one_def get_def validate_run_id_def decode_state_def)

text \<open>
  A failed save loses buffered events for good: the buffer is emptied before the write,
  so after an event whose save fails the run reads back as its file alone and the buffered
  count is gone, although the process goes on.
\<close>

theorem failed_save_drops_buffer:
  assumes h: "holds_run r st s" and b: "map_of (deferred st) r = Some (n, l)" "0 < n"
    and ok: "saves e 0 = SaveFails"
  shows "\<exists>s'. fst (record_event e r t sk tool cs ct st) = Inl RunStateError
     \<and> require clk r (snd (record_event e r t sk tool cs ct st)) = Inr s' \<and> event_seq s' = event_seq s - int n"
proof -
  obtain s0 where s0: "map_of (files st) r = Some (FText (state_payload s0))" "wf_state s0" "run_id s0 = r"
    "s = apply_deferred st s0" using h by (auto simp: holds_run_def)
  have v: "RUN_ID_RE r" using s0 by (auto simp: wf_state_def)
  have req: "require (now e) r st = Inr s" using holds_run_require [OF h] by simp
  have "run_id s = r" using s0 by simp
  then have op: "record_event e r t sk tool cs ct st = (Inl RunStateError, pop_deferred r st)"
    by (simp add: record_event_def req save_result_def save_def validate_run_id_def v ok Let_def)
  have "require clk r (pop_deferred r st) = Inr s0"
    using s0 v decode_payload [OF s0(2), of clk]
    by (auto simp: require_Inr pop_deferred_def apply_deferred_def delete_conv')
  moreover have "event_seq s = event_seq s0 + int n" using s0 b by (simp add: apply_deferred_def)
  ultimately show ?thesis using op by simp
qed

text \<open>
  An approval whose id is empty or longer than 200 characters can never be resolved:
  the request stores no id or a shortened one, and a resolution that names the id the
  request was made with is refused.
\<close>

theorem unbounded_approval_id_stuck:
  assumes h: "holds_run r st s" and w: "status s = RUNNING" and ok: "clock_ok (now e)" "saves e 0 = SaveOk"
    and aid: "aid = [] \<or> 200 < length aid"
  shows "\<exists>s1 st1. request_approval e r aid tool level rsn st = (Inr s1, st1) \<and> status s1 = WAITING_APPROVAL
     \<and> (\<forall>e' ap ev rs. resolve_approval e' r aid ap ev rs st1 = (Inl RunStateError, st1)
          \<and> resolve_approval_if_waiting e' r aid ap ev rs st1 = (Inr s1, st1))"
proof -
  have req: "require (now e) r st = Inr s" and wf: "wf_state s" "run_id s = r"
    using holds_run_require [OF h] by auto
  let ?f = "state_record_event (now e 2) ''approval_required'' JNull JNull False True
              (s\<lparr>approval_id := bounded_text 200 (JStr aid), approval_tool := bounded_text 200 (JStr tool),
                 approval_level := bounded_text 200 (JStr level), approval_reason := bounded_text 200 (JStr rsn)\<rparr>)"
  have "WAITING_APPROVAL \<in> set (ALLOWED_TRANSITIONS (status ?f))" using w by simp
  then obtain s1 where s1: "state_transition (now e 3) (status_value WAITING_APPROVAL) (Some rsn) None None ?f = Inr s1"
    using state_transition_allowed by blast
  have "wf_state ?f"
    using wf clock_okD [OF ok(1)] by (intro state_record_event_wf) (simp_all add: wf_state_def bounded_text_ok)
  then have t: "status s1 = WAITING_APPROVAL" "wf_state s1" "run_id s1 = r" "approval_id s1 = bounded_text 200 (JStr aid)"
    using transition_to [OF s1] transition_wf [OF s1] wf clock_okD [OF ok(1)] by auto
  have ne: "approval_id s1 \<noteq> Some aid" using aid t(4) by (auto simp: bounded_text_def Let_def)
  let ?st1 = "snd (save_result SaveOk (Inr s1) st)"
  have h1: "holds_run r ?st1 s1" using holds_run_save t h by (auto simp: holds_run_def)
  have "fst (save_result SaveOk (Inr s1) st) = Inr s1"
    using t by (simp add: save_result_def save_def validate_run_id_def wf_state_def Let_def)
  then have "request_approval e r aid tool level rsn st = (Inr s1, ?st1)"
    using w s1 by (simp add: request_approval_def req ok prod_eq_iff)
  moreover have "resolve_approval e' r aid ap ev rs ?st1 = (Inl RunStateError, ?st1)
      \<and> resolve_approval_if_waiting e' r aid ap ev rs ?st1 = (Inr s1, ?st1)" for e' ap ev rs
    using holds_run_require [OF h1, of "now e'"] t(1) ne
    by (simp add: resolve_approval_if_waiting_def resolve_approval_def save_result_def)
  ultimately show ?thesis using t(1) by blast
qed

subsection \<open>Concrete runs\<close>

definition demo_clock :: clock where
  "demo_clock = (\<lambda>_. ''2025-01-01T00:00:00+00:00'')"

definition demo_env :: env where
  "demo_env = \<lparr>now = demo_clock, saves = (\<lambda>_. SaveOk)\<rparr>"

definition demo_run :: "run_status \<Rightarrow> string option \<Rightarrow> run_state" where
  "demo_run st aid = \<lparr>
     run_id = ''run-1'', agent_id = ''smith'', session_id = Some ''s1'', message_id = None,
     identity_id = None, working_dir = None, forced_skill = None, status = st,
     created_at = demo_clock 0, updated_at = demo_clock 1, event_seq = 3,
     last_event_type = None, current_skill = None, current_tool = None,
     reason = None, error = None, error_details = None,
     approval_id = aid, approval_tool = None, approval_level = None, approval_reason = None\<rparr>"

definition demo_store :: "run_status \<Rightarrow> string option \<Rightarrow> run_store" where
  "demo_store st aid = \<lparr>files = [(''run-1'', FText (state_payload (demo_run st aid)))], deferred = []\<rparr>"

definition demo_event :: "event_type \<Rightarrow> execution_event" where
  "demo_event t = \<lparr>ev_type = t, ev_data = []\<rparr>"

lemma demo_wf: "bounded_ok 200 aid \<Longrightarrow> wf_state (demo_run st aid)"
  by (simp add: wf_state_def demo_run_def demo_clock_def RUN_ID_RE_def id_char_def code_def bounded_ok_def details_ok_def)

lemma demo_clock_ok [simp]: "clock_ok demo_clock" "clock_ok (now demo_env)" "saves demo_env i = SaveOk"
  by (simp_all add: clock_ok_def demo_clock_def demo_env_def)

lemma demo_run_simps [simp]:
  "run_id (demo_run st aid) = ''run-1''" "status (demo_run st aid) = st" "approval_id (demo_run st aid) = aid"
  "event_seq (demo_run st aid) = 3"
  by (simp_all add: demo_run_def)

lemma demo_buffer_ok [simp]: "buffer_ok (demo_store st aid)"
  by (simp add: buffer_ok_def demo_store_def)

lemma demo_id [simp]: "RUN_ID_RE ''run-1''"
  by (simp add: RUN_ID_RE_def id_char_def code_def)

lemma demo_holds: "bounded_ok 200 aid \<Longrightarrow> holds_run ''run-1'' (demo_store st aid) (demo_run st aid)"
  using demo_wf [of aid st] by (auto simp: holds_run_def demo_store_def apply_deferred_def buffer_ok_def)

lemma demo_decode: "bounded_ok 200 aid \<Longrightarrow> decode_state clk ''run-1'' (FText (state_payload (demo_run st aid))) = Inr (demo_run st aid)"
  using decode_payload [OF demo_wf, of aid clk st] by simp

lemma interleaved_lifecycle_witness:
  "\<exists>b' s'. map_of (dir (foldl world_step
       \<lparr>dir = files (demo_store COMPLETED None), bufs = (\<lambda>_. [])\<rparr>
       [(0, demo_env, Transition ''run-1'' ''failed'' None None None None), (1, demo_env, Recover),
        (1, demo_env, Resume ''run-1'' None)])) ''run-1'' = Some b'
     \<and> decode_state demo_clock ''run-1'' b' = Inr s' \<and> status s' = COMPLETED"
  using interleaved_lifecycle [of "\<lparr>dir = files (demo_store COMPLETED None), bufs = (\<lambda>_. [])\<rparr>" "''run-1''"
      "FText (state_payload (demo_run COMPLETED None))" demo_clock "demo_run COMPLETED None"
      "[(0, demo_env, Transition ''run-1'' ''failed'' None None None None), (1, demo_env, Recover),
        (1, demo_env, Resume ''run-1'' None)]"]
    demo_decode [of None demo_clock COMPLETED]
  by (auto simp: bufs_ok_def buffer_ok_def view_def spares_def demo_store_def simp del: foldl.simps)

lemma buffered_store_refines_run_witness:
  "require demo_clock ''run-1'' (foldl (project_step ''run-1'') (demo_store RUNNING None)
      [(demo_env, demo_event THINKING), (demo_env, demo_event SKILL_END)])
    = Inr (foldl spec_step (demo_run RUNNING None) [(demo_env, demo_event THINKING), (demo_env, demo_event SKILL_END)])"
  by (rule buffered_store_refines_run [OF demo_holds]) (simp_all add: saves_fine_def)

lemma event_count_exact_witness:
  "\<exists>s'. require demo_clock ''run-1'' (foldl (project_step ''run-1'') (demo_store RUNNING None)
      [(demo_env, demo_event THINKING), (demo_env, demo_event SKILL_END), (demo_env, demo_event TOKEN_USAGE)]) = Inr s'
     \<and> event_seq s' = 6 \<and> status s' = RUNNING"
  using event_count_exact [OF demo_holds [of None RUNNING],
      of "[(demo_env, demo_event THINKING), (demo_env, demo_event SKILL_END), (demo_env, demo_event TOKEN_USAGE)]" demo_clock]
  by (simp add: saves_fine_def counted_def demo_event_def HIGH_FREQUENCY_STREAM_EVENTS_def del: foldl.simps)

lemma demo_require: "bounded_ok 200 aid \<Longrightarrow> require clk ''run-1'' (demo_store st aid) = Inr (demo_run st aid)"
  using holds_run_require [OF demo_holds] by blast

lemma demo_recover: "fst (recover_interrupted demo_env (demo_store RUNNING None)) = Inr [''run-1'']"
proof -
  have "CANCELLED \<in> set (ALLOWED_TRANSITIONS (status (state_record_event (now demo_env 2) ''run_interrupted''
      JNull JNull True True (clear_approval (demo_run RUNNING None)))))" by simp
  then obtain s' where i: "interrupted_state demo_env (demo_run RUNNING None) = Inr s'"
    unfolding interrupted_state_def using state_transition_allowed by blast
  have r: "run_id s' = ''run-1''"
    using transition_to [OF i [unfolded interrupted_state_def]] by simp
  have "fst (save_result SaveOk (Inr s') (demo_store RUNNING None)) = Inr s'"
    using r by (simp add: save_result_def save_def validate_run_id_def Let_def)
  then have "fst (recover_one demo_env ''run-1'' (demo_store RUNNING None)) = Inr True"
    using demo_require [of None "now demo_env" RUNNING] i
    by (auto simp: recover_one_def get_Inr_Some [symmetric] split: prod.splits sum.splits)
  then show ?thesis
    by (auto simp: recover_interrupted_def run_stems_def demo_store_def split: prod.splits sum.splits)
qed

lemma recovery_leaves_no_live_run_witness:
  "\<exists>st'. recover_interrupted demo_env (demo_store RUNNING None) = (Inr [''run-1''], st')
     \<and> (\<exists>s'. require demo_clock ''run-1'' st' = Inr s' \<and> status s' = CANCELLED)"
proof -
  obtain st' where "recover_interrupted demo_env (demo_store RUNNING None) = (Inr [''run-1''], st')"
    using demo_recover by (cases "recover_interrupted demo_env (demo_store RUNNING None)") simp
  moreover from recovery_leaves_no_live_run [OF this] obtain s s' where "cancelled_from s s'"
      "require demo_clock ''run-1'' st' = Inr s'"
    by (force simp: demo_store_def buffer_ok_def)
  ultimately show ?thesis by (auto simp: cancelled_from_def)
qed

lemma prune_spares_live_runs_witness:
  "prune demo_clock ''run-1'' (demo_store RUNNING None) = (Inr False, demo_store RUNNING None)"
proof -
  have "live_run (map_of (files (demo_store RUNNING None))) ''run-1''"
    using demo_require [of None demo_clock RUNNING] by (auto simp: live_run_require [of _ _ demo_clock] LIVE_RUN_STATUSES_def)
  then show ?thesis using prune_spares_live_runs [of "''run-1''" demo_clock "demo_store RUNNING None"] by simp
qed

lemma resume_exactly_when_recoverable_witness:
  "resume demo_env ''run-1'' None (demo_store COMPLETED None) = (Inl RunStateTransitionError, demo_store COMPLETED None)"
  using resume_exactly_when_recoverable [of demo_env "''run-1''" "demo_store COMPLETED None" "demo_run COMPLETED None" None]
    demo_require [of None "now demo_env" COMPLETED] by simp

lemma approval_resolved_once_witness:
  "\<exists>s1 st1. resolve_approval_if_waiting demo_env ''run-1'' ''a1'' True None None
       (demo_store WAITING_APPROVAL (Some ''a1'')) = (Inr s1, st1) \<and> status s1 = RUNNING
     \<and> resolve_approval demo_env ''run-1'' ''a1'' False None None st1 = (Inl RunStateTransitionError, st1)"
  using approval_resolved_once [OF demo_holds [of "Some ''a1''" WAITING_APPROVAL], of "''a1''" demo_env True None None]
  by (auto simp: bounded_ok_def)

lemma undecodable_file_aborts_recovery_witness:
  "recover_interrupted demo_env \<lparr>files = [(''run-1'', FText (state_payload (demo_run RUNNING None))), (''run-0'', FBadUtf8)], deferred = []\<rparr>
    = (Inl UnicodeDecodeError, \<lparr>files = [(''run-1'', FText (state_payload (demo_run RUNNING None))), (''run-0'', FBadUtf8)], deferred = []\<rparr>)"
  by (rule undecodable_file_aborts_recovery [of _ "''run-0''" "[''run-1'']"])
    (simp_all add: run_stems_def RUN_ID_RE_def id_char_def code_def insort_key_def less_char_def less_eq_char_def)

lemma unbounded_approval_id_stuck_witness:
  "\<exists>s1 st1. request_approval demo_env ''run-1'' [] ''bash'' ''execute'' ''why'' (demo_store RUNNING None) = (Inr s1, st1)
     \<and> status s1 = WAITING_APPROVAL \<and> resolve_approval demo_env ''run-1'' [] True None None st1 = (Inl RunStateError, st1)"
  using unbounded_approval_id_stuck [OF demo_holds [of None RUNNING], of demo_env "[]" "''bash''" "''execute''" "''why''"]
  by auto

definition demo_buffered :: run_store where
  "demo_buffered = (demo_store RUNNING None)\<lparr>deferred := [(''run-1'', (2, Some ''thinking''))]\<rparr>"

lemma failed_save_drops_buffer_witness:
  "\<exists>s'. require demo_clock ''run-1'' (snd (record_event (demo_env\<lparr>saves := (\<lambda>_. SaveFails)\<rparr>) ''run-1'' ''done''
      JNull JNull False False demo_buffered)) = Inr s' \<and> event_seq s' = 3"
proof -
  have h: "holds_run ''run-1'' demo_buffered (apply_deferred demo_buffered (demo_run RUNNING None))"
    using demo_wf [of None RUNNING]
    by (auto simp: holds_run_def demo_buffered_def demo_store_def buffer_ok_def bounded_ok_def)
  have "event_seq (apply_deferred demo_buffered (demo_run RUNNING None)) = 5"
    by (simp add: apply_deferred_def demo_buffered_def)
  then show ?thesis
    using failed_save_drops_buffer [OF h, of 2 "Some ''thinking''" "demo_env\<lparr>saves := (\<lambda>_. SaveFails)\<rparr>" "''done''"
        JNull JNull False False demo_clock]
    by (auto simp: demo_buffered_def)
qed

text \<open>
  What \<open>save\<close> writes, \<open>get\<close> reads back: after a successful save of a well-formed state,
  reading the run gives exactly that state, through the JSON text on disk and with nothing left
  in the buffer to add, and every other run reads as before.
\<close>

theorem saved_state_reads_back:
  assumes "wf_state s" "save ans s st = (Inr (), st')"
  shows "get clk (run_id s) st' = Inr (Some s) \<and> (\<forall>r. r \<noteq> run_id s \<longrightarrow> get clk r st' = get clk r st)"
proof -
  from assms(2) obtain v where valid: "validate_run_id (run_id s) = Inr v"
    and st': "st' = write_state s (pop_deferred (run_id s) st)"
    by (auto simp: save_def Let_def split: sum.splits save_answer.splits)
  have own: "get clk (run_id s) st' = Inr (Some s)"
    using valid decode_payload [OF assms(1), of clk]
    by (simp add: get_def st' write_state_def pop_deferred_def apply_deferred_def delete_conv')
  have "get clk r st' = get clk r st" if r: "r \<noteq> run_id s" for r
  proof -
    have "map_of (files st') r = map_of (files st) r" "map_of (deferred st') r = map_of (deferred st) r"
      using r by (simp_all add: st' write_state_def pop_deferred_def delete_conv')
    moreover have "decode_state clk r body = Inr s' \<Longrightarrow> run_id s' = r" for body s'
      by (rule decode_run_id)
    ultimately show ?thesis
      by (auto simp: get_def bind_res_def apply_deferred_def split: sum.splits option.splits)
  qed
  with own show ?thesis by blast
qed

lemma saved_state_reads_back_witness:
  "get demo_clock ''run-1'' (snd (save SaveOk (demo_run RUNNING None) (demo_store COMPLETED None))) = Inr (Some (demo_run RUNNING None))"
proof -
  have wf: "wf_state (demo_run RUNNING None)" by (rule demo_wf) (simp add: bounded_ok_def)
  then have "validate_run_id (run_id (demo_run RUNNING None)) = Inr (run_id (demo_run RUNNING None))"
    by (simp add: wf_state_def validate_run_id_def)
  then have "save SaveOk (demo_run RUNNING None) (demo_store COMPLETED None)
      = (Inr (), snd (save SaveOk (demo_run RUNNING None) (demo_store COMPLETED None)))"
    by (simp add: save_def Let_def)
  from saved_state_reads_back [OF wf this] show ?thesis by simp
qed

end
