(* ===== verification/Py_Regex.thy ===== *)
theory Py_Regex
  imports Py_Values
begin

text \<open>
  The part of Python's \<^verbatim>\<open>re\<close> module the repository's patterns use.  A pattern is matched at
  a position given by the text before it (reversed) and the text after it; the result lists
  every way to match in the order the backtracking matcher tries them, each with the text
  consumed and the groups captured.  Repetition is over one character class, as in all the
  patterns modelled, so the matcher is structurally recursive and needs no fuel.
\<close>

subsection \<open>Character classes\<close>

definition is_lower :: "char \<Rightarrow> bool" where
  "is_lower c \<longleftrightarrow> 97 \<le> code c \<and> code c \<le> 122"

definition is_upper :: "char \<Rightarrow> bool" where
  "is_upper c \<longleftrightarrow> 65 \<le> code c \<and> code c \<le> 90"

definition is_alpha :: "char \<Rightarrow> bool" where
  "is_alpha c \<longleftrightarrow> is_lower c \<or> is_upper c"

definition is_alnum :: "char \<Rightarrow> bool" where
  "is_alnum c \<longleftrightarrow> is_alpha c \<or> is_digit c"

text \<open>\<open>\w\<close> on code points below 256: alphanumeric in Unicode's sense, or an underscore.\<close>

definition is_word :: "char \<Rightarrow> bool" where
  "is_word c \<longleftrightarrow> is_alnum c \<or> c = CHR ''_''
     \<or> code c \<in> {170, 178, 179, 181, 185, 186, 188, 189, 190}
     \<or> (192 \<le> code c \<and> code c \<noteq> 215 \<and> code c \<noteq> 247)"

text \<open>\<open>\s\<close> of a text pattern is \<^verbatim>\<open>str.isspace\<close>.\<close>

abbreviation is_space :: "char \<Rightarrow> bool" where
  "is_space \<equiv> py_space"

subsection \<open>Patterns\<close>

datatype pattern =
    Empty
  | Cls "char \<Rightarrow> bool"
  | Many "char \<Rightarrow> bool" nat "nat option"
  | Cat pattern pattern
  | Alt pattern pattern
  | Group nat pattern
  | Behind "char \<Rightarrow> bool"
  | NotAhead pattern
  | WordEdge
  | AtStart
  | AtEnd

type_synonym groups = "(nat \<times> string) list"

text \<open>One way to match: the text consumed, the rest of the text, and the groups.\<close>

type_synonym found = "string \<times> string \<times> groups"

definition edge_word :: "string \<Rightarrow> bool" where
  "edge_word s \<longleftrightarrow> (case s of [] \<Rightarrow> False | c # _ \<Rightarrow> is_word c)"

text \<open>The lengths a greedy repetition tries, the longest first.\<close>

definition greedy_lengths :: "(char \<Rightarrow> bool) \<Rightarrow> nat \<Rightarrow> nat option \<Rightarrow> string \<Rightarrow> nat list" where
  "greedy_lengths p lo hi s =
     (let n = length (takeWhile p s); top = (case hi of None \<Rightarrow> n | Some h \<Rightarrow> min n h)
      in rev [lo..<Suc top])"

text \<open>\<open>$\<close> without \<^verbatim>\<open>MULTILINE\<close>: the end of the text, or just before a final newline.\<close>

fun rmatch :: "pattern \<Rightarrow> string \<Rightarrow> string \<Rightarrow> found list" where
  "rmatch Empty pre s = [([], s, [])]"
| "rmatch (Cls p) pre s = (case s of [] \<Rightarrow> [] | c # cs \<Rightarrow> if p c then [([c], cs, [])] else [])"
| "rmatch (Many p lo hi) pre s = map (\<lambda>n. (take n s, drop n s, [])) (greedy_lengths p lo hi s)"
| "rmatch (Cat a b) pre s =
     concat (map (\<lambda>(x, t, g). map (\<lambda>(y, u, h). (x @ y, u, g @ h)) (rmatch b (rev x @ pre) t)) (rmatch a pre s))"
| "rmatch (Alt a b) pre s = rmatch a pre s @ rmatch b pre s"
| "rmatch (Group i a) pre s = map (\<lambda>(x, t, g). (x, t, (i, x) # g)) (rmatch a pre s)"
| "rmatch (Behind p) pre s = (case pre of [] \<Rightarrow> [] | c # _ \<Rightarrow> if p c then [([], s, [])] else [])"
| "rmatch (NotAhead a) pre s = (if rmatch a pre s = [] then [([], s, [])] else [])"
| "rmatch WordEdge pre s = (if edge_word pre \<noteq> edge_word s then [([], s, [])] else [])"
| "rmatch AtStart pre s = (if pre = [] then [([], s, [])] else [])"
| "rmatch AtEnd pre s = (if s = [] \<or> s = [CHR 0x0A] then [([], s, [])] else [])"

lemma rmatch_split: "(x, t, g) \<in> set (rmatch p pre s) \<Longrightarrow> s = x @ t"
proof (induction p pre s arbitrary: x t g rule: rmatch.induct)
  case (4 a b pre s)
  then show ?case by fastforce
qed (auto split: list.splits if_splits simp: greedy_lengths_def)

text \<open>\<^verbatim>\<open>pattern.match\<close> and \<^verbatim>\<open>pattern.fullmatch\<close> as tests, and \<^verbatim>\<open>pattern.search\<close>.\<close>

definition re_match :: "pattern \<Rightarrow> string \<Rightarrow> bool" where
  "re_match p s \<longleftrightarrow> rmatch p [] s \<noteq> []"

definition re_fullmatch :: "pattern \<Rightarrow> string \<Rightarrow> bool" where
  "re_fullmatch p s \<longleftrightarrow> list_ex (\<lambda>(x, t, g). t = []) (rmatch p [] s)"

fun search_from :: "pattern \<Rightarrow> string \<Rightarrow> string \<Rightarrow> bool" where
  "search_from p pre [] = (rmatch p pre [] \<noteq> [])"
| "search_from p pre (c # cs) = (rmatch p pre (c # cs) \<noteq> [] \<or> search_from p (c # pre) cs)"

definition re_search :: "pattern \<Rightarrow> string \<Rightarrow> bool" where
  "re_search p s = search_from p [] s"

text \<open>
  \<^verbatim>\<open>pattern.sub\<close> for patterns that consume at least one character: the first match at the
  leftmost position is replaced and the scan goes on behind it.
\<close>

function sub_from :: "pattern \<Rightarrow> (groups \<Rightarrow> string) \<Rightarrow> string \<Rightarrow> string \<Rightarrow> string" where
  "sub_from p f pre [] = []"
| "sub_from p f pre (c # cs) =
     (case rmatch p pre (c # cs) of
        (x # xs, t, g) # _ \<Rightarrow> f g @ sub_from p f (rev (x # xs) @ pre) (drop (length xs) cs)
      | _ \<Rightarrow> c # sub_from p f (c # pre) cs)"
  by pat_completeness auto
termination by (relation "measure (\<lambda>(p, f, pre, s). length s)") auto

lemma sub_from_rest:
  "(x # xs, t, g) \<in> set (rmatch p pre (c # cs)) \<Longrightarrow> t = drop (length xs) cs"
  by (drule rmatch_split) auto

definition re_sub :: "pattern \<Rightarrow> (groups \<Rightarrow> string) \<Rightarrow> string \<Rightarrow> string" where
  "re_sub p f s = sub_from p f [] s"

subsection \<open>Building patterns\<close>

definition ch :: "char \<Rightarrow> pattern" where
  "ch c = Cls (\<lambda>x. x = c)"

fun cats :: "pattern list \<Rightarrow> pattern" where
  "cats [] = Empty"
| "cats [p] = p"
| "cats (p # q # ps) = Cat p (cats (q # ps))"

definition lit :: "string \<Rightarrow> pattern" where
  "lit s = cats (map ch s)"

text \<open>A literal under \<^verbatim>\<open>IGNORECASE\<close>.\<close>

definition lit_i :: "string \<Rightarrow> pattern" where
  "lit_i s = cats (map (\<lambda>c. Cls (\<lambda>x. lower_char x = lower_char c)) s)"

fun alts :: "pattern list \<Rightarrow> pattern" where
  "alts [] = Cls (\<lambda>_. False)"
| "alts [p] = p"
| "alts (p # q # ps) = Alt p (alts (q # ps))"

abbreviation opt :: "pattern \<Rightarrow> pattern" where
  "opt p \<equiv> Alt p Empty"

abbreviation one_of :: "string \<Rightarrow> char \<Rightarrow> bool" where
  "one_of s \<equiv> (\<lambda>c. c \<in> set s)"

end
