(* ===== verification/Risk.thy ===== *)
theory Risk
  imports Prelude
begin

text \<open>
  The risk tiers of \<^verbatim>\<open>engine/safety/risk.py\<close> and the permission levels of
  \<^verbatim>\<open>engine/safety/tool_guard.py\<close>, ordered by their weights.
\<close>

datatype risk_tier = ROUTINE | ELEVATED | HIGH | CRITICAL

fun weight :: "risk_tier \<Rightarrow> nat" where
  "weight ROUTINE = 0"
| "weight ELEVATED = 1"
| "weight HIGH = 2"
| "weight CRITICAL = 3"

fun risk_value :: "risk_tier \<Rightarrow> string" where
  "risk_value ROUTINE = ''routine''"
| "risk_value ELEVATED = ''elevated''"
| "risk_value HIGH = ''high''"
| "risk_value CRITICAL = ''critical''"

lemma weight_inject: "weight a = weight b \<longleftrightarrow> a = b"
  by (cases a; cases b) simp_all

instantiation risk_tier :: linorder
begin

definition less_eq_risk_tier :: "risk_tier \<Rightarrow> risk_tier \<Rightarrow> bool" where
  "less_eq_risk_tier a b \<longleftrightarrow> weight a \<le> weight b"

definition less_risk_tier :: "risk_tier \<Rightarrow> risk_tier \<Rightarrow> bool" where
  "less_risk_tier a b \<longleftrightarrow> weight a < weight b"

instance
  by standard (auto simp: less_eq_risk_tier_def less_risk_tier_def weight_inject)

end

text \<open>
  \<^verbatim>\<open>RiskTier.max\<close>: Python's \<^verbatim>\<open>max\<close> with a key keeps the first of equal elements, which for
  tiers of equal weight is the same tier.
\<close>

definition risk_max :: "risk_tier option list \<Rightarrow> risk_tier" where
  "risk_max tiers = (case List.map_filter (\<lambda>t. t) tiers of
      [] \<Rightarrow> ROUTINE
    | t # ts \<Rightarrow> foldl (\<lambda>best t. if weight best < weight t then t else best) t ts)"

definition risk_for_approval :: "string option \<Rightarrow> bool \<Rightarrow> bool \<Rightarrow> bool \<Rightarrow> risk_tier" where
  "risk_for_approval level high_risk network_access rule_hit =
     (if rule_hit \<or> level = Some ''destructive'' then CRITICAL
      else if high_risk \<or> network_access then HIGH
      else ELEVATED)"

lemma ROUTINE_le [simp]: "ROUTINE \<le> t"
  by (simp add: less_eq_risk_tier_def)

lemma foldl_risk_max:
  "foldl (\<lambda>best t. if weight best < weight t then t else best) t ts = foldl max t ts"
proof (induction ts arbitrary: t)
  case (Cons a ts)
  have "(if weight t < weight a then a else t) = max t a"
    by (auto simp: max_def less_eq_risk_tier_def weight_inject)
  with Cons show ?case by simp
qed simp

lemma risk_max_two: "risk_max [Some a, Some b] = max a b"
  by (simp add: risk_max_def List.map_filter_def foldl_risk_max)

datatype permission_level = READ | WRITE | EXECUTE | DESTRUCTIVE

fun level_value :: "permission_level \<Rightarrow> string" where
  "level_value READ = ''read''"
| "level_value WRITE = ''write''"
| "level_value EXECUTE = ''execute''"
| "level_value DESTRUCTIVE = ''destructive''"

fun LEVEL_ORDER :: "permission_level \<Rightarrow> nat" where
  "LEVEL_ORDER READ = 0"
| "LEVEL_ORDER WRITE = 1"
| "LEVEL_ORDER EXECUTE = 2"
| "LEVEL_ORDER DESTRUCTIVE = 3"

lemma LEVEL_ORDER_inject: "LEVEL_ORDER a = LEVEL_ORDER b \<longleftrightarrow> a = b"
  by (cases a; cases b) simp_all

instantiation permission_level :: linorder
begin

definition less_eq_permission_level :: "permission_level \<Rightarrow> permission_level \<Rightarrow> bool" where
  "less_eq_permission_level a b \<longleftrightarrow> LEVEL_ORDER a \<le> LEVEL_ORDER b"

definition less_permission_level :: "permission_level \<Rightarrow> permission_level \<Rightarrow> bool" where
  "less_permission_level a b \<longleftrightarrow> LEVEL_ORDER a < LEVEL_ORDER b"

instance
  by standard (auto simp: less_eq_permission_level_def less_permission_level_def LEVEL_ORDER_inject)

end

lemma READ_le [simp]: "READ \<le> l"
  by (simp add: less_eq_permission_level_def)

end
