(* ===== verification/Approval.thy ===== *)
theory Approval
  imports Py_Regex Risk
begin

text \<open>
  The approval broker of \<^verbatim>\<open>engine/safety/approval.py\<close>: redaction of secrets, the bounded
  argument summary and the card shown to the user, the one-time scope, and the broker's
  table of pending requests.  The horizontal ellipsis the code appends to cut text is
  outside the text model and stands as the single character \<open>ellipsis\<close>.
\<close>

definition ellipsis :: string where
  "ellipsis = [CHR 0x85]"

subsection \<open>Sensitive names\<close>

definition SENSITIVE_ARGUMENT_KEY_PARTS :: "string list" where
  "SENSITIVE_ARGUMENT_KEY_PARTS = [''apikey'', ''authorization'', ''cookie'', ''credential'', ''passwd'',
     ''password'', ''privatekey'', ''secret'', ''token'']"

definition is_sensitive_argument_name :: "string \<Rightarrow> bool" where
  "is_sensitive_argument_name key =
     (let normalized = filter (\<lambda>c. is_lower c \<or> is_digit c) (lower key)
      in list_ex (\<lambda>part. contains part normalized) SENSITIVE_ARGUMENT_KEY_PARTS)"

subsection \<open>Redaction\<close>

text \<open>The flag names shared by the two flag patterns, under \<^verbatim>\<open>IGNORECASE\<close>.\<close>

definition flag_names :: pattern where
  "flag_names = alts [lit_i ''password'', lit_i ''passwd'', lit_i ''token'', lit_i ''secret'',
     cats [lit_i ''api'', Many (one_of ''-_'') 0 (Some 1), lit_i ''key''], lit_i ''apikey'',
     cats [lit_i ''access'', Many (one_of ''-_'') 0 (Some 1), lit_i ''key''],
     cats [lit_i ''client'', Many (one_of ''-_'') 0 (Some 1), lit_i ''secret''],
     cats [lit_i ''private'', Many (one_of ''-_'') 0 (Some 1), lit_i ''key''],
     cats [lit_i ''auth'', opt (lit_i ''orization'')],
     lit_i ''bearer'',
     cats [lit_i ''session'', Many (one_of ''-_'') 0 (Some 1), lit_i ''key''],
     lit_i ''cookie'']"

definition SECRET_FLAG_RE :: pattern where
  "SECRET_FLAG_RE = cats [AtStart, Many (one_of ''-'') 1 (Some 2), flag_names, Alt (lit ''='') AtEnd]"

definition key_char :: "char \<Rightarrow> bool" where
  "key_char c \<longleftrightarrow> is_alnum c \<or> c = CHR ''_'' \<or> c = CHR ''-''"

definition SECRET_VALUE_RE :: pattern where
  "SECRET_VALUE_RE = alts [
     cats [lit ''sk-'', Many key_char 8 None],
     cats [lit ''gh'', Cls (one_of ''pousr''), lit ''_'', Many is_alnum 10 None],
     cats [lit ''github_pat_'', Many (\<lambda>c. is_alnum c \<or> c = CHR ''_'') 20 None],
     cats [lit ''xox'', Cls (one_of ''baprs''), lit ''-'', Many (\<lambda>c. is_alnum c \<or> c = CHR ''-'') 8 None],
     cats [lit ''AKIA'', Many (\<lambda>c. is_digit c \<or> is_upper c) 16 (Some 16)],
     cats [lit ''eyJ'', Many key_char 1 None, lit ''.'', Many key_char 1 None, lit ''.'', Many key_char 1 None],
     cats [lit ''Bearer '', Many (\<lambda>c. key_char c \<or> c = CHR ''.'') 1 None]]"

definition bearer_exclusions :: pattern where
  "bearer_exclusions = alts [lit ''sk-'', cats [lit ''gh'', Cls (one_of ''pousr''), lit ''_''], lit ''github_pat_'',
     lit ''glpat-'', lit ''xox'', lit ''AKIA'', lit ''AIza'', lit ''eyJ'']"

definition EMBEDDED_SECRET_RE :: pattern where
  "EMBEDDED_SECRET_RE = alts [
     cats [lit ''sk-'', Many key_char 20 None],
     cats [lit ''gh'', Cls (one_of ''pousr''), lit ''_'', Many is_alnum 20 None],
     cats [lit ''github_pat_'', Many (\<lambda>c. is_alnum c \<or> c = CHR ''_'') 22 None],
     cats [lit ''glpat-'', Many key_char 20 None],
     cats [lit ''xox'', Cls (one_of ''baprs''), lit ''-'', Many (\<lambda>c. is_alnum c \<or> c = CHR ''-'') 16 None],
     cats [lit ''AKIA'', Many (\<lambda>c. is_digit c \<or> is_upper c) 16 (Some 16)],
     cats [lit ''AIza'', Many key_char 30 None],
     cats [lit ''eyJ'', Many key_char 6 None, lit ''.'', Many key_char 1 None, lit ''.'', Many key_char 1 None],
     cats [WordEdge, lit ''Bearer'', Many is_space 1 None, NotAhead bearer_exclusions,
           Many (\<lambda>c. is_alnum c \<or> c \<in> set ''._~+/=-'') 8 None]]"

definition URL_CREDENTIALS_RE :: pattern where
  "URL_CREDENTIALS_RE = cats [
     Group 1 (cats [Cls is_alpha, Many (\<lambda>c. is_alnum c \<or> c \<in> set ''+.-'') 0 None, lit ''://'']),
     Group 2 (Many (\<lambda>c. c \<noteq> CHR ''/'' \<and> c \<noteq> CHR ''@'' \<and> \<not> is_space c) 1 None),
     lit ''@'']"

definition EMBEDDED_FLAG_RE :: pattern where
  "EMBEDDED_FLAG_RE = cats [
     Behind is_space,
     Group 1 (cats [Many (one_of ''-'') 1 (Some 2), flag_names]),
     Alt (cats [Many is_space 0 None, lit ''='', Many is_space 0 None]) (Many is_space 1 None),
     alts [cats [ch CHR 0x27, Many (\<lambda>c. c \<noteq> CHR 0x27) 0 None, ch CHR 0x27],
           cats [ch CHR 0x22, Many (\<lambda>c. c \<noteq> CHR 0x22) 0 None, ch CHR 0x22],
           Many (\<lambda>c. \<not> is_space c \<and> c \<notin> set '';|&'') 1 None]]"

definition PRIVATE_KEY_RE :: pattern where
  "PRIVATE_KEY_RE = cats [lit ''-----BEGIN '', Many (\<lambda>c. is_upper c \<or> c = CHR '' '') 0 None,
     lit ''PRIVATE KEY-----'']"

definition is_secret_value :: "string \<Rightarrow> bool" where
  "is_secret_value value =
     (let text = strip value in
      if text = [] then False
      else if re_search PRIVATE_KEY_RE text then True
      else re_fullmatch SECRET_VALUE_RE text)"

definition group :: "nat \<Rightarrow> groups \<Rightarrow> string" where
  "group i g = (case map_of g i of None \<Rightarrow> [] | Some t \<Rightarrow> t)"

definition redact_secret_text :: "string \<Rightarrow> string" where
  "redact_secret_text text =
     (if is_secret_value text then ''***''
      else
        let a = re_sub EMBEDDED_SECRET_RE (\<lambda>_. ''***'') text;
            b = re_sub EMBEDDED_FLAG_RE (\<lambda>g. group 1 g @ '' ***'') a
        in re_sub URL_CREDENTIALS_RE (\<lambda>g. group 1 g @ ''***@'') b)"

subsection \<open>The bounded summary of a call's arguments\<close>

definition MAX_SUMMARY_ITEMS :: nat where "MAX_SUMMARY_ITEMS = 32"
definition MAX_SUMMARY_DEPTH :: nat where "MAX_SUMMARY_DEPTH = 3"
definition MAX_SUMMARY_TEXT :: nat where "MAX_SUMMARY_TEXT = 240"

definition summarize_text :: "string \<Rightarrow> string" where
  "summarize_text value =
     (let safe = redact_secret_text
            (map (\<lambda>c. if 32 \<le> code c \<and> code c \<noteq> 127 then c else CHR '' '') value)
      in take MAX_SUMMARY_TEXT safe @ (if MAX_SUMMARY_TEXT < length safe then ellipsis else []))"

text \<open>\<^verbatim>\<open>item.split("=", 1)[0]\<close>.\<close>

definition before_equals :: "string \<Rightarrow> string" where
  "before_equals s = takeWhile (\<lambda>c. c \<noteq> CHR ''='') s"

text \<open>
  The three mutually recursive helpers.  The list helper carries the index and the
  \<^verbatim>\<open>redact_next\<close> flag, the mapping helper the index and the summary built so far.
\<close>

fun summarize_value :: "string option \<Rightarrow> nat \<Rightarrow> json \<Rightarrow> json"
  and summarize_list :: "nat \<Rightarrow> bool \<Rightarrow> nat \<Rightarrow> json list \<Rightarrow> json list"
  and summarize_mapping :: "nat \<Rightarrow> jdict \<Rightarrow> nat \<Rightarrow> jdict \<Rightarrow> jdict" where
  "summarize_value key depth v =
     (if (case key of None \<Rightarrow> False | Some k \<Rightarrow> is_sensitive_argument_name k) then JStr ''***''
      else case v of
        JStr s \<Rightarrow> JStr (summarize_text s)
      | JObj d \<Rightarrow> if MAX_SUMMARY_DEPTH \<le> depth then JStr ''[nested value omitted]''
                 else JObj (summarize_mapping 0 [] (depth + 1) d)
      | JArr vs \<Rightarrow> if MAX_SUMMARY_DEPTH \<le> depth then JStr ''[nested value omitted]''
                  else JArr (summarize_list 0 False depth vs)
      | _ \<Rightarrow> v)"
| "summarize_list i redact_next depth [] = []"
| "summarize_list i redact_next depth (item # rest) =
     (if MAX_SUMMARY_ITEMS \<le> i then []
      else if redact_next then JStr ''***'' # summarize_list (i + 1) False depth rest
      else case item of
        JStr s \<Rightarrow>
          if re_match SECRET_FLAG_RE s then
            (if CHR ''='' \<in> set s
             then JStr (before_equals s @ ''=***'') # summarize_list (i + 1) False depth rest
             else JStr s # summarize_list (i + 1) True depth rest)
          else summarize_value None (depth + 1) item # summarize_list (i + 1) False depth rest
      | _ \<Rightarrow> summarize_value None (depth + 1) item # summarize_list (i + 1) False depth rest)"
| "summarize_mapping i summary depth [] = summary"
| "summarize_mapping i summary depth ((raw_key, value) # rest) =
     (if MAX_SUMMARY_ITEMS \<le> i then dset ellipsis (JStr ''truncated'') summary
      else let key = take 80 raw_key
           in summarize_mapping (i + 1) (dset key (summarize_value (Some key) depth value) summary) depth rest)"

declare summarize_value.simps [simp del]

definition summarize_arguments :: "jdict \<Rightarrow> jdict" where
  "summarize_arguments arguments = summarize_mapping 0 [] 0 arguments"

subsection \<open>Scope, request and card\<close>

record approval_scope =
  scope_kind :: string
  scope_target :: string
  scope_access :: "string list"
  scope_high_risk :: bool

definition scope_host_command :: "string \<Rightarrow> bool \<Rightarrow> approval_scope" where
  "scope_host_command command high_risk = \<lparr>scope_kind = ''host_command'', scope_target = command,
     scope_access = [''filesystem'', ''network'', ''process''], scope_high_risk = high_risk\<rparr>"

definition scope_path :: "string \<Rightarrow> bool \<Rightarrow> bool \<Rightarrow> approval_scope" where
  "scope_path target writing high_risk = \<lparr>scope_kind = ''path'', scope_target = target,
     scope_access = (if writing then [''read'', ''write''] else [''read'']), scope_high_risk = high_risk\<rparr>"

definition scope_network :: "string \<Rightarrow> bool \<Rightarrow> approval_scope" where
  "scope_network target high_risk = \<lparr>scope_kind = ''network'', scope_target = target,
     scope_access = [''network''], scope_high_risk = high_risk\<rparr>"

definition scope_operation :: "string \<Rightarrow> bool \<Rightarrow> approval_scope" where
  "scope_operation tool_name high_risk = \<lparr>scope_kind = ''tool_operation'', scope_target = tool_name,
     scope_access = [''tool''], scope_high_risk = high_risk\<rparr>"

definition grants_host_execution :: "approval_scope \<Rightarrow> bool" where
  "grants_host_execution s \<longleftrightarrow> scope_kind s = ''host_command''"

definition upper_char :: "char \<Rightarrow> char" where
  "upper_char c = (if is_lower c \<or> (224 \<le> code c \<and> code c \<le> 254 \<and> code c \<noteq> 247)
                   then char_of (code c - 32) else c)"

text \<open>
  \<^verbatim>\<open>str.capitalize\<close>.  The three characters whose upper case is not one character below 256
  (the micro sign, the sharp s and the y with diaeresis) are left alone.
\<close>

definition capitalize :: "string \<Rightarrow> string" where
  "capitalize s = (case s of [] \<Rightarrow> [] | c # cs \<Rightarrow> upper_char c # lower cs)"

definition scope_description :: "approval_scope \<Rightarrow> string" where
  "scope_description s =
     (if scope_kind s = ''host_command'' then ''Host filesystem, network, and process access for this exact command''
      else if scope_kind s = ''network'' then ''Network access to the requested destination''
      else if scope_kind s = ''path'' then capitalize (join '', '' (scope_access s)) @ '' access to the requested path''
      else ''Access limited to this exact approved request'')"

definition scope_to_dict :: "approval_scope \<Rightarrow> jdict" where
  "scope_to_dict s = [(''kind'', JStr (scope_kind s)), (''target'', JStr (redact_secret_text (scope_target s))),
     (''access'', JArr (map JStr (scope_access s))), (''high_risk'', JBool (scope_high_risk s))]"

record approval_detail =
  detail_label :: string
  detail_value :: string

record approval_presentation =
  card_title :: string
  card_summary :: string
  card_details :: "approval_detail list"
  card_reason :: string
  card_risk :: "string option"

record approval_request =
  req_approval_id :: string
  req_run_id :: string
  req_tool_name :: string
  req_level :: string
  req_reason :: string
  req_arguments :: jdict
  req_scope :: "approval_scope option"
  req_presentation :: "approval_presentation option"
  req_risk :: "risk_tier option"

definition presentation_to_dict :: "approval_presentation \<Rightarrow> jdict" where
  "presentation_to_dict p =
     [(''title'', JStr (card_title p)), (''summary'', JStr (card_summary p)),
      (''details'', JArr (map (\<lambda>d. JObj [(''label'', JStr (detail_label d)), (''value'', JStr (detail_value d))])
         (card_details p))),
      (''reason'', JStr (card_reason p))]
     @ (case card_risk p of None \<Rightarrow> [] | Some r \<Rightarrow> [(''risk'', JStr r)])"

definition request_to_dict :: "approval_request \<Rightarrow> jdict" where
  "request_to_dict r =
     [(''approval_id'', JStr (req_approval_id r)), (''run_id'', JStr (req_run_id r)),
      (''tool'', JStr (req_tool_name r)), (''level'', JStr (req_level r)),
      (''reason'', JStr (req_reason r)), (''arguments'', JObj (req_arguments r))]
     @ (case req_risk r of None \<Rightarrow> [] | Some t \<Rightarrow> [(''risk'', JStr (risk_value t))])
     @ (case req_scope r of None \<Rightarrow> [] | Some s \<Rightarrow> [(''scope'', JObj (scope_to_dict s))])
     @ (case req_presentation r of None \<Rightarrow> [] | Some p \<Rightarrow> [(''presentation'', JObj (presentation_to_dict p))])"

subsection \<open>Card texts\<close>

text \<open>\<^verbatim>\<open>" ".join(text.split())\<close>: \<open>split\<close> without a separator yields the runs of non-space characters.\<close>

fun split_words :: "string \<Rightarrow> string \<Rightarrow> string list" where
  "split_words acc [] = (if acc = [] then [] else [rev acc])"
| "split_words acc (c # cs) =
     (if py_space c then (if acc = [] then split_words [] cs else rev acc # split_words [] cs)
      else split_words (c # acc) cs)"

definition squeeze :: "string \<Rightarrow> string" where
  "squeeze s = join '' '' (split_words [] s)"

text \<open>\<^verbatim>\<open>json.dumps(value, ensure_ascii=False, separators=(",", ":"))\<close>, keys in insertion order.\<close>

fun dumps_compact :: "json \<Rightarrow> string" where
  "dumps_compact (JArr vs) = ''['' @ sepby CHR '','' (map dumps_compact vs) @ '']''"
| "dumps_compact (JObj kvs) =
     ''{'' @ sepby CHR '','' (map (\<lambda>(k, v). quote k @ CHR '':'' # dumps_compact v) kvs) @ ''}''"
| "dumps_compact v = canonical_json v"

definition display_value :: "json \<Rightarrow> string" where
  "display_value value =
     (let text = redact_secret_text (case value of JStr s \<Rightarrow> s | _ \<Rightarrow> dumps_compact value);
          compact = squeeze (map (\<lambda>c. if c = CHR 0x0D \<or> c = CHR 0x0A then CHR '' '' else c) text)
      in take MAX_SUMMARY_TEXT compact @ (if MAX_SUMMARY_TEXT < length compact then ellipsis else []))"

definition humanize_name :: "string \<Rightarrow> string" where
  "humanize_name value =
     capitalize (squeeze (map (\<lambda>c. if c = CHR ''_'' \<or> c = CHR ''-'' then CHR '' '' else c) value))"

definition specific_reason :: "string \<Rightarrow> string \<Rightarrow> string" where
  "specific_reason reason fallback =
     (let compact = display_value (JStr reason); lowered = lower compact
      in if compact \<noteq> [] \<and> lowered \<notin> {''approval required'', ''approval required for''}
            \<and> \<not> starts_with ''approval required for '' lowered
         then compact else fallback)"

definition DETAIL_LABELS :: "(string, string) dict" where
  "DETAIL_LABELS = [(''action'', ''Action''), (''append'', ''Append''), (''branch'', ''Branch''),
     (''command'', ''Command''), (''content'', ''Content preview''), (''cwd'', ''Working directory''),
     (''file_path'', ''File''), (''files'', ''Files''), (''agent_id'', ''Agent''), (''episode_id'', ''Episode''),
     (''evidence'', ''Evidence''), (''environment'', ''Environment''), (''index'', ''Task index''),
     (''message'', ''Commit message''), (''new_string'', ''Replacement text''), (''old_string'', ''Text to replace''),
     (''path'', ''Path''), (''query'', ''Query''), (''replace_all'', ''Replace all''), (''section'', ''Section''),
     (''section_content'', ''Section content''), (''staged'', ''Staged only''), (''status'', ''Status''),
     (''text'', ''Task text''), (''timeout'', ''Timeout (seconds)''), (''topic'', ''Topic''),
     (''version_id'', ''Version'')]"

definition DETAIL_ORDER :: "(string, string list) dict" where
  "DETAIL_ORDER = [(''shell'', [''command'', ''cwd'', ''timeout'']),
     (''write_file'', [''path'', ''append'', ''content'']),
     (''edit_file'', [''path'', ''old_string'', ''new_string'', ''replace_all'']),
     (''git_ops'', [''action'', ''cwd'', ''branch'', ''message'', ''files'', ''path'', ''staged''])]"

definition GIT_ACTIONS :: "(string, string \<times> string) dict" where
  "GIT_ACTIONS = [(''branch_create'', (''Create a Git branch'', ''Create a new branch'')),
     (''commit'', (''Commit Git changes'', ''Create a Git commit'')),
     (''push'', (''Push Git changes'', ''Push commits to a remote branch'')),
     (''worktree_create'', (''Create a Git worktree'', ''Create an additional working tree'')),
     (''worktree_remove'', (''Remove a Git worktree'', ''Delete an additional working tree''))]"

definition STRUCTURED_ACTIONS :: "(string, (string, string \<times> string \<times> string) dict) dict" where
  "STRUCTURED_ACTIONS = [
     (''memory_ops'', [
        (''add'', (''Add a memory'', ''Save a new memory event'', ''This changes persistent agent memory.'')),
        (''episode'', (''Create a memory episode'', ''Archive the requested memory episode'', ''This changes persistent agent memory.'')),
        (''remove'', (''Remove a memory'', ''Remove the requested memory episode'', ''This changes persistent agent memory.'')),
        (''update'', (''Update a memory'', ''Update the requested memory episode'', ''This changes persistent agent memory.''))]),
     (''skill_manage'', [
        (''create'', (''Create an agent skill'', ''Create a new installed skill'', ''This changes agent instructions.'')),
        (''edit'', (''Edit an agent skill'', ''Update an installed skill'', ''This changes agent instructions.'')),
        (''patch'', (''Patch an agent skill'', ''Update a section of an installed skill'', ''This changes agent instructions.'')),
        (''rollback'', (''Rollback an agent skill'', ''Restore an earlier skill version'', ''This changes agent instructions.''))]),
     (''todo'', [
        (''add'', (''Add a task'', ''Add a task to the session list'', ''This changes the session task list.'')),
        (''clear'', (''Clear tasks'', ''Remove all tasks from the session list'', ''This changes the session task list.'')),
        (''remove'', (''Remove a task'', ''Remove a task from the session list'', ''This changes the session task list.'')),
        (''update'', (''Update a task'', ''Change a task in the session list'', ''This changes the session task list.''))])]"

definition index_in :: "string list \<Rightarrow> string \<Rightarrow> nat" where
  "index_in order key = length (takeWhile (\<lambda>k. k \<noteq> key) order)"

definition approval_details :: "string \<Rightarrow> jdict \<Rightarrow> approval_scope option \<Rightarrow> approval_detail list" where
  "approval_details tool_name arguments scope =
     (let order = (case map_of DETAIL_ORDER tool_name of None \<Rightarrow> [] | Some ks \<Rightarrow> ks);
          entries = filter (\<lambda>(k, v). v \<noteq> JNull \<and> v \<noteq> JStr []) arguments;
          sorted = sort_key (\<lambda>(k, v). index_in order k) (sort_key fst entries)
      in map (\<lambda>(k, v). \<lparr>detail_label = (case map_of DETAIL_LABELS k of None \<Rightarrow> humanize_name k | Some l \<Rightarrow> l),
                         detail_value = display_value v\<rparr>) sorted
         @ (case scope of None \<Rightarrow> []
            | Some s \<Rightarrow> [\<lparr>detail_label = ''Access scope'', detail_value = scope_description s\<rparr>]))"

text \<open>\<^verbatim>\<open>x or y\<close> on values.\<close>

definition or_value :: "json \<Rightarrow> json \<Rightarrow> json" where
  "or_value x y = (if truthy x then x else y)"

definition or_text :: "string \<Rightarrow> string \<Rightarrow> string" where
  "or_text x y = (if x = [] then y else x)"

definition structured_card :: "string \<Rightarrow> (string, string \<times> string \<times> string) dict \<Rightarrow> string \<Rightarrow> jdict \<Rightarrow> string \<times> string \<times> string" where
  "structured_card tool_name actions action arguments =
     (let subject = display_value (or_value (or_value (or_value (dget arguments ''skill_name'')
            (dget arguments ''episode_id'')) (dget arguments ''topic'')) (JStr []))
      in case map_of actions action of
           Some (title, summary, fallback) \<Rightarrow>
             (title, if subject \<noteq> [] \<and> tool_name = ''skill_manage'' then summary @ '': '' @ subject else summary, fallback)
         | None \<Rightarrow> (''Manage '' @ humanize_name tool_name, ''Perform the requested '' @ or_text action ''operation'',
                   ''This operation changes persistent agent state.''))"

text \<open>Title, summary and fallback reason of the card.\<close>

definition card_texts :: "string \<Rightarrow> jdict \<Rightarrow> string \<Rightarrow> string \<times> string \<times> string" where
  "card_texts tool_name arguments tool_description =
     (let action = lower (strip (str_or (dget arguments ''action'') []));
          target = display_value (or_value (or_value (dget arguments ''path'') (dget arguments ''file_path'')) (JStr []))
      in if tool_name = ''shell'' then
           (''Run a shell command'', ''Execute the requested command'', ''This command may change files or system state.'')
         else if tool_name = ''write_file'' then
           (''Write a file'',
            (if truthy (dget arguments ''append'') then ''Append to'' else ''Write to'') @ '' '' @ or_text target ''the requested path'',
            ''This will change file contents.'')
         else if tool_name = ''edit_file'' then
           (''Edit a file'', ''Replace text in '' @ or_text target ''the requested path'', ''This will change file contents.'')
         else if tool_name = ''git_ops'' then
           (case map_of GIT_ACTIONS action of
              Some (title, summary) \<Rightarrow>
                (title, summary, ''This will change repository state or communicate with a Git remote.'')
            | None \<Rightarrow> (''Perform a Git operation'',
                ''Perform the requested Git operation'' @ (if action = [] then [] else '' ('' @ action @ '')''),
                ''This will change repository state or communicate with a Git remote.''))
         else case map_of STRUCTURED_ACTIONS tool_name of
           Some actions \<Rightarrow> structured_card tool_name actions action arguments
         | None \<Rightarrow>
             (''Use '' @ or_text (humanize_name tool_name) ''a tool'',
              or_text (display_value (JStr tool_description))
                (''Execute '' @ or_text (humanize_name tool_name) ''the requested tool''),
              ''This operation requires user approval.''))"

definition build_approval_presentation ::
  "string \<Rightarrow> string \<Rightarrow> jdict \<Rightarrow> string \<Rightarrow> approval_scope option \<Rightarrow> approval_presentation" where
  "build_approval_presentation tool_name reason arguments tool_description scope =
     (case card_texts tool_name arguments tool_description of (title, summary, fallback) \<Rightarrow>
        \<lparr>card_title = title, card_summary = summary,
         card_details = approval_details tool_name arguments scope,
         card_reason = specific_reason reason fallback, card_risk = None\<rparr>)"

subsection \<open>The broker\<close>

text \<open>
  Pending approvals are objects: a waiter keeps its reference after the table entry is gone.
  \<open>objs\<close> is the list of pending objects ever created and \<open>table\<close> maps approval ids to
  their indices.  A wait is two steps: it looks its object up, and later it resumes, because
  the event was set, because the time is over, or because its task was cancelled.
\<close>

record pending_approval =
  pend_request :: approval_request
  pend_event :: bool
  pend_decision :: "bool option"

record broker =
  objs :: "pending_approval list"
  table :: "(string, nat) dict"

datatype broker_exc = BrokerValueError | BrokerRuntimeError | ApprovalTimeoutError | CancelledError

definition broker_init :: broker where
  "broker_init = \<lparr>objs = [], table = []\<rparr>"

definition open_request :: "approval_request \<Rightarrow> broker \<Rightarrow> (broker_exc + approval_request) \<times> broker" where
  "open_request r b =
     (if map_of (table b) (req_approval_id r) \<noteq> None then (Inl BrokerValueError, b)
      else (Inr r, \<lparr>objs = objs b @ [\<lparr>pend_request = r, pend_event = False, pend_decision = None\<rparr>],
                    table = dset (req_approval_id r) (length (objs b)) (table b)\<rparr>))"

definition wait_begin :: "approval_request \<Rightarrow> broker \<Rightarrow> broker_exc + nat" where
  "wait_begin r b = (case map_of (table b) (req_approval_id r) of
      None \<Rightarrow> Inl BrokerRuntimeError
    | Some i \<Rightarrow> if req_run_id (pend_request (objs b ! i)) \<noteq> req_run_id r then Inl BrokerRuntimeError else Inr i)"

datatype wake = EventSet | TimedOut | TaskCancelled

definition wait_end :: "wake \<Rightarrow> nat \<Rightarrow> approval_request \<Rightarrow> broker \<Rightarrow> (broker_exc + bool) \<times> broker" where
  "wait_end w i r b =
     (let b' = b\<lparr>table := AList.delete (req_approval_id r) (table b)\<rparr>
      in case w of
           TimedOut \<Rightarrow> (Inl ApprovalTimeoutError, b')
         | TaskCancelled \<Rightarrow> (Inl CancelledError, b')
         | EventSet \<Rightarrow> (Inr (pend_decision (objs b ! i) = Some True), b'))"

definition is_pending :: "string \<Rightarrow> string \<Rightarrow> broker \<Rightarrow> bool" where
  "is_pending run aid b = (case map_of (table b) aid of None \<Rightarrow> False
     | Some i \<Rightarrow> \<not> pend_event (objs b ! i) \<and> req_run_id (pend_request (objs b ! i)) = run)"

definition settle :: "bool \<Rightarrow> nat \<Rightarrow> broker \<Rightarrow> broker" where
  "settle decision i b = b\<lparr>objs := (objs b)[i := (objs b ! i)\<lparr>pend_decision := Some decision, pend_event := True\<rparr>]\<rparr>"

definition resolve :: "string \<Rightarrow> string \<Rightarrow> bool \<Rightarrow> broker \<Rightarrow> bool \<times> broker" where
  "resolve run aid approved b = (case map_of (table b) aid of
      None \<Rightarrow> (False, b)
    | Some i \<Rightarrow>
        if pend_event (objs b ! i) \<or> req_run_id (pend_request (objs b ! i)) \<noteq> run then (False, b)
        else (True, settle approved i b))"

definition cancel_one :: "string \<Rightarrow> broker \<Rightarrow> string \<times> nat \<Rightarrow> broker" where
  "cancel_one run b x = (case x of (aid, i) \<Rightarrow>
     if req_run_id (pend_request (objs b ! i)) \<noteq> run then b
     else (settle False i b)\<lparr>table := AList.delete aid (table b)\<rparr>)"

definition cancel_run :: "string \<Rightarrow> broker \<Rightarrow> broker" where
  "cancel_run run b = foldl (cancel_one run) b (table b)"

end
