(* ===== verification/Approval_Safety.thy ===== *)
theory Approval_Safety
  imports Approval
begin

text \<open>
  What the approval component guarantees: the summary shown outside the process hides
  sensitive values and is bounded, and the broker, as a transition system over its
  operations, lets a suspended call run only after a matching approval.
\<close>

subsection \<open>The summary hides what sensitive names and flags carry\<close>

text \<open>
  \<open>mask_arguments\<close> forgets every value the summary must not show: what stands under a
  sensitive name, at any depth, and the list element that follows a secret flag.
\<close>

fun mask_value :: "json \<Rightarrow> json"
  and mask_list :: "bool \<Rightarrow> json list \<Rightarrow> json list"
  and mask_mapping :: "jdict \<Rightarrow> jdict" where
  "mask_value v = (case v of JObj d \<Rightarrow> JObj (mask_mapping d) | JArr vs \<Rightarrow> JArr (mask_list False vs) | _ \<Rightarrow> v)"
| "mask_list redact_next [] = []"
| "mask_list redact_next (x # xs) =
     (if redact_next then JNull # mask_list False xs
      else mask_value x # mask_list
        (case x of JStr s \<Rightarrow> re_match SECRET_FLAG_RE s \<and> CHR ''='' \<notin> set s | _ \<Rightarrow> False) xs)"
| "mask_mapping [] = []"
| "mask_mapping ((k, v) # rest) =
     (k, if is_sensitive_argument_name (take 80 k) then JNull else mask_value v) # mask_mapping rest"

declare mask_value.simps [simp del]

lemma mask_value_cases [simp]:
  "mask_value (JObj d) = JObj (mask_mapping d)" "mask_value (JArr vs) = JArr (mask_list False vs)"
  "mask_value (JStr s) = JStr s" "mask_value (JInt i) = JInt i" "mask_value (JBool b) = JBool b"
  "mask_value (JFloat t) = JFloat t" "mask_value JNull = JNull"
  by (simp_all add: mask_value.simps)

lemma summarize_value_sensitive:
  "is_sensitive_argument_name k \<Longrightarrow> summarize_value (Some k) depth v = JStr ''***''"
  by (simp add: summarize_value.simps)

lemma summarize_mask:
  "summarize_value key depth (mask_value v) = summarize_value key depth v"
  "summarize_list i redact_next depth (mask_list redact_next vs) = summarize_list i redact_next depth vs"
  "summarize_mapping j summary depth (mask_mapping d) = summarize_mapping j summary depth d"
proof (induction key depth v and i redact_next depth vs and j summary depth d
    rule: summarize_value_summarize_list_summarize_mapping.induct)
  case (1 key depth v)
  then show ?case
    by (cases v) (simp_all add: summarize_value.simps [of key depth] split: if_splits)
next
  case (3 i redact_next depth item rest)
  then show ?case by (cases item) auto
next
  case (5 i summary depth raw_key v rest)
  then show ?case
    by (cases "is_sensitive_argument_name (take 80 raw_key)") (simp_all add: Let_def summarize_value_sensitive)
qed simp_all

text \<open>
  C9. The approval summary depends on nothing it must hide: two calls whose arguments differ
  only under sensitive names (at any nesting depth) or in the list elements that follow a
  secret flag have the same summary.
\<close>

theorem summary_noninterference:
  assumes "mask_mapping a = mask_mapping b"
  shows "summarize_arguments a = summarize_arguments b"
proof -
  have "summarize_arguments a = summarize_arguments (mask_mapping a)"
    by (simp add: summarize_arguments_def summarize_mask(3))
  also have "\<dots> = summarize_arguments (mask_mapping b)" using assms by simp
  also have "\<dots> = summarize_arguments b" by (simp add: summarize_arguments_def summarize_mask(3))
  finally show ?thesis .
qed

lemma summary_noninterference_witness:
  "summarize_arguments [(''db_password'', JStr ''hunter2''), (''n'', JInt 1)]
     = summarize_arguments [(''db_password'', JArr [JInt 4]), (''n'', JInt 1)]"
  by (rule summary_noninterference) (simp add: is_sensitive_argument_name_def Let_def
    SENSITIVE_ARGUMENT_KEY_PARTS_def py_eval is_lower_def is_digit_def)

subsection \<open>The summary is bounded\<close>

lemma takeWhile_stop: "\<not> P c \<Longrightarrow> length (takeWhile P (y @ c # t)) \<le> length y"
  by (induction y) auto

fun max_len :: "pattern \<Rightarrow> nat option" where
  "max_len Empty = Some 0"
| "max_len (Cls p) = Some 1"
| "max_len (Many p lo hi) = hi"
| "max_len (Cat a b) = (case (max_len a, max_len b) of (Some m, Some n) \<Rightarrow> Some (m + n) | _ \<Rightarrow> None)"
| "max_len (Alt a b) = (case (max_len a, max_len b) of (Some m, Some n) \<Rightarrow> Some (max m n) | _ \<Rightarrow> None)"
| "max_len (Group i a) = max_len a"
| "max_len _ = Some 0"

lemma rmatch_max_len:
  "(x, t, g) \<in> set (rmatch p pre s) \<Longrightarrow> max_len p = Some n \<Longrightarrow> length x \<le> n"
proof (induction p pre s arbitrary: x t g n rule: rmatch.induct)
  case (3 p lo hi pre s)
  then show ?case by (auto simp: greedy_lengths_def Let_def)
next
  case (4 a b pre s)
  obtain m k where mk: "max_len a = Some m" "max_len b = Some k" "n = m + k"
    using 4(4) by (auto split: option.splits)
  obtain x1 t1 g1 y u h where *: "(x1, t1, g1) \<in> set (rmatch a pre s)" "(y, u, h) \<in> set (rmatch b (rev x1 @ pre) t1)" "x = x1 @ y"
    using 4(3) by auto
  have "length x1 \<le> m" using 4(1) * mk by blast
  moreover have "length y \<le> k" using 4(2) [OF *(1) refl refl] * mk by blast
  ultimately show ?case using * mk by simp
next
  case (5 a b pre s)
  then show ?case by (fastforce split: option.splits)
qed (auto split: list.splits if_splits)

lemma rmatch_cats_last:
  assumes "(x, t, g) \<in> set (rmatch (Cat p (Cat q (Cat r (Alt (Cls c) AtEnd)))) pre s)"
  shows "(\<exists>y z. x = y @ [z] \<and> c z) \<or> t = [] \<or> t = [CHR 0x0A]"
  using assms by (fastforce split: list.splits if_splits)

lemma flag_max_len: "max_len SECRET_FLAG_RE = Some 16"
  by (simp add: SECRET_FLAG_RE_def flag_names_def lit_i_def lit_def ch_def)

lemma flag_shape:
  assumes "re_match SECRET_FLAG_RE s"
  shows "length (before_equals s) \<le> 20 \<and> (CHR ''='' \<notin> set s \<longrightarrow> length s \<le> 20)"
proof -
  obtain x t g where m: "(x, t, g) \<in> set (rmatch SECRET_FLAG_RE [] s)"
    using assms by (cases "rmatch SECRET_FLAG_RE [] s") (auto simp: re_match_def)
  have s: "s = x @ t" using rmatch_split [OF m] .
  have len: "length x \<le> 16" using rmatch_max_len [OF m flag_max_len] .
  have "(\<exists>y z. x = y @ [z] \<and> z = CHR ''='') \<or> t = [] \<or> t = [CHR 0x0A]"
    using rmatch_cats_last [of x t g AtStart "Many (one_of ''-'') 1 (Some 2)" flag_names "\<lambda>x. x = CHR ''=''" "[]" s] m
    by (simp add: SECRET_FLAG_RE_def lit_def ch_def)
  then consider y where "s = y @ CHR ''='' # t" "x = y @ [CHR ''='']" | "length s \<le> 19"
    using s len by fastforce
  then show ?thesis
  proof cases
    case (1 y)
    then have "length (before_equals s) \<le> length y" by (simp add: before_equals_def takeWhile_stop)
    then show ?thesis using 1 len by simp
  next
    case 2
    then show ?thesis using length_takeWhile_le [of "\<lambda>c. c \<noteq> CHR ''=''" s] by (simp add: before_equals_def)
  qed
qed

fun bounded_summary :: "nat \<Rightarrow> json \<Rightarrow> bool" where
  "bounded_summary n (JStr s) \<longleftrightarrow> length s \<le> 241"
| "bounded_summary n (JArr vs) \<longleftrightarrow> 0 < n \<and> length vs \<le> 32 \<and> (\<forall>v \<in> set vs. bounded_summary (n - 1) v)"
| "bounded_summary n (JObj d) \<longleftrightarrow> 0 < n \<and> length d \<le> 33
     \<and> (\<forall>kv \<in> set d. length (fst kv) \<le> 80 \<and> bounded_summary (n - 1) (snd kv))"
| "bounded_summary n _ \<longleftrightarrow> True"

lemma summarize_text_len: "length (summarize_text s) \<le> 241"
  by (simp add: summarize_text_def Let_def MAX_SUMMARY_TEXT_def ellipsis_def)

lemma length_dset: "length (dset k v d) \<le> Suc (length d)"
  by (induction d) auto

lemma set_dset: "kv \<in> set (dset k v d) \<Longrightarrow> kv = (k, v) \<or> kv \<in> set d"
  by (induction d) (auto split: if_splits)

lemma summarize_list_len: "i \<le> 32 \<Longrightarrow> length (summarize_list i redact_next depth vs) \<le> 32 - i"
proof (induction vs arbitrary: i redact_next)
  case (Cons v vs)
  show ?case
  proof (cases "i = 32")
    case False
    then have "length (summarize_list (i + 1) r depth vs) \<le> 32 - (i + 1)" for r
      using Cons.IH [of "i + 1" r] Cons.prems by simp
    then have "Suc (length (summarize_list (i + 1) r depth vs)) \<le> 32 - i" for r
      using False Cons.prems by (metis Suc_diff_le Suc_eq_plus1 Suc_le_mono diff_Suc_Suc le_neq_implies_less less_eq_Suc_le)
    then show ?thesis by (cases v) simp_all
  qed (simp add: MAX_SUMMARY_ITEMS_def)
qed simp

lemma summarize_list_elem:
  "w \<in> set (summarize_list i redact_next depth vs) \<Longrightarrow>
     (\<exists>s. w = JStr s \<and> length s \<le> 24) \<or> (\<exists>v \<in> set vs. w = summarize_value None (depth + 1) v)"
proof (induction vs arbitrary: i redact_next)
  case (Cons v vs)
  consider "w = JStr ''***''" | r where "w \<in> set (summarize_list (i + 1) r depth vs)"
    | s where "re_match SECRET_FLAG_RE s" "w = JStr (before_equals s @ ''=***'')"
    | s where "re_match SECRET_FLAG_RE s" "CHR ''='' \<notin> set s" "w = JStr s"
    | "w = summarize_value None (depth + 1) v"
    using Cons.prems by (cases v) (simp_all split: if_splits, blast+)
  then show ?case
  proof cases
    case (2 r)
    then show ?thesis using Cons.IH by auto
  qed (auto dest: flag_shape)
qed simp

lemma summarize_mapping_elem:
  "kv \<in> set (summarize_mapping j summary depth d) \<Longrightarrow> kv \<in> set summary \<or> kv = (ellipsis, JStr ''truncated'')
     \<or> (\<exists>k v. (k, v) \<in> set d \<and> kv = (take 80 k, summarize_value (Some (take 80 k)) depth v))"
proof (induction d arbitrary: j summary)
  case (Cons x d)
  obtain k v where x: "x = (k, v)" by (cases x)
  show ?case
  proof (cases "MAX_SUMMARY_ITEMS \<le> j")
    case True
    then show ?thesis using Cons.prems x by (auto dest!: set_dset)
  next
    case False
    then have "kv \<in> set (dset (take 80 k) (summarize_value (Some (take 80 k)) depth v) summary)
        \<or> kv = (ellipsis, JStr ''truncated'')
        \<or> (\<exists>k v. (k, v) \<in> set d \<and> kv = (take 80 k, summarize_value (Some (take 80 k)) depth v))"
      using Cons.IH [of "j + 1"] Cons.prems x by (simp add: Let_def)
    then show ?thesis using x by (auto dest!: set_dset)
  qed
qed simp

lemma summarize_mapping_len:
  "j \<le> 32 \<Longrightarrow> length summary \<le> j \<Longrightarrow> length (summarize_mapping j summary depth d) \<le> 33"
proof (induction d arbitrary: j summary)
  case (Cons x d)
  obtain k v where x: "x = (k, v)" by (cases x)
  have l: "length (dset q u summary) \<le> j + 1" for q u
    using length_dset [of q u summary] Cons.prems(2) by simp
  show ?case
  proof (cases "MAX_SUMMARY_ITEMS \<le> j")
    case True
    then show ?thesis using l [of ellipsis "JStr ''truncated''"] Cons.prems(1) x by simp
  next
    case False
    then show ?thesis using Cons.IH [of "j + 1"] l x by (simp add: Let_def MAX_SUMMARY_ITEMS_def)
  qed
qed simp

lemma summarize_value_bounded: "depth \<le> 3 \<Longrightarrow> bounded_summary (3 - depth) (summarize_value key depth v)"
proof (induction v arbitrary: key depth)
  case (JArr vs)
  have "bounded_summary (2 - depth) w" if "w \<in> set (summarize_list 0 False depth vs)" "depth < 3" for w
    using summarize_list_elem [OF that(1)] JArr.IH [of _ "depth + 1" None] that(2) by (auto simp: numeral_eq_Suc)
  then show ?case using summarize_list_len [of 0 False depth vs]
    by (auto simp: summarize_value.simps [of key depth] MAX_SUMMARY_DEPTH_def numeral_eq_Suc split: option.splits)
next
  case (JObj d)
  have "length (fst kv) \<le> 80 \<and> bounded_summary (3 - (depth + 1)) (snd kv)"
    if "kv \<in> set (summarize_mapping 0 [] (depth + 1) d)" "depth < 3" for kv
    using summarize_mapping_elem [OF that(1)] JObj.IH [of _ _ "depth + 1"] that(2)
    by (auto simp: ellipsis_def)
  then show ?case using summarize_mapping_len [of 0 "[]" "depth + 1" d]
    by (auto simp: summarize_value.simps [of key depth] MAX_SUMMARY_DEPTH_def split: option.splits)
qed (simp_all add: summarize_value.simps [of key depth for key depth] summarize_text_len)

text \<open>
  The approval summary is bounded whatever the arguments: at most 33 entries with keys
  of at most 80 characters, lists of at most 32 elements, texts of at most 241 characters,
  and at most three levels of nesting below the top.
\<close>

theorem summary_bounded:
  "length (summarize_arguments a) \<le> 33
   \<and> (\<forall>kv \<in> set (summarize_arguments a). length (fst kv) \<le> 80 \<and> bounded_summary 3 (snd kv))"
proof -
  have "length (fst kv) \<le> 80 \<and> bounded_summary 3 (snd kv)" if "kv \<in> set (summarize_arguments a)" for kv
    using summarize_mapping_elem [OF that [unfolded summarize_arguments_def]]
      summarize_value_bounded [of 0] by (auto simp: ellipsis_def)
  then show ?thesis using summarize_mapping_len [of 0 "[]" 0 a] by (simp add: summarize_arguments_def)
qed

subsection \<open>The broker as a transition system\<close>

text \<open>
  The state of the approval system: the broker, the tasks suspended in \<^verbatim>\<open>wait\<close> with the
  object each holds, and two histories that only record what happened: the resolutions the
  broker accepted, and the waits that returned with their answers.
\<close>

record approval_sys =
  bk :: broker
  waiting :: "nat \<Rightarrow> (nat \<times> approval_request) option"
  accepted :: "(nat \<times> string \<times> string \<times> bool) list"
  returned :: "(nat \<times> approval_request \<times> bool) list"

definition sys_init :: approval_sys where
  "sys_init = \<lparr>bk = broker_init, waiting = (\<lambda>_. None), accepted = [], returned = []\<rparr>"

inductive sys_step :: "approval_sys \<Rightarrow> approval_sys \<Rightarrow> bool" where
  Open: "open_request r (bk s) = (out, b) \<Longrightarrow> sys_step s (s\<lparr>bk := b\<rparr>)"
| Wait: "waiting s w = None \<Longrightarrow> wait_begin r (bk s) = Inr i \<Longrightarrow>
     sys_step s (s\<lparr>waiting := (waiting s)(w \<mapsto> (i, r))\<rparr>)"
| Wake: "waiting s w = Some (i, r) \<Longrightarrow> pend_event (objs (bk s) ! i) \<Longrightarrow>
     wait_end EventSet i r (bk s) = (Inr answer, b) \<Longrightarrow>
     sys_step s (s\<lparr>bk := b, waiting := (waiting s)(w := None), returned := (i, r, answer) # returned s\<rparr>)"
| GiveUp: "waiting s w = Some (i, r) \<Longrightarrow> why \<noteq> EventSet \<Longrightarrow> wait_end why i r (bk s) = (Inl x, b) \<Longrightarrow>
     sys_step s (s\<lparr>bk := b, waiting := (waiting s)(w := None)\<rparr>)"
| Resolve: "resolve run aid ok (bk s) = (True, b) \<Longrightarrow> map_of (table (bk s)) aid = Some i \<Longrightarrow>
     sys_step s (s\<lparr>bk := b, accepted := (i, run, aid, ok) # accepted s\<rparr>)"
| Ignore: "resolve run aid ok (bk s) = (False, b) \<Longrightarrow> sys_step s (s\<lparr>bk := b\<rparr>)"
| Cancel: "sys_step s (s\<lparr>bk := cancel_run run (bk s)\<rparr>)"

text \<open>
  The invariant of the broker alone: the table points at objects with the id it files them
  under, and ids are filed once.
\<close>

definition broker_ok :: "broker \<Rightarrow> bool" where
  "broker_ok b \<longleftrightarrow> distinct (map fst (table b)) \<and>
     (\<forall>aid i. map_of (table b) aid = Some i \<longrightarrow> i < length (objs b) \<and> req_approval_id (pend_request (objs b ! i)) = aid)"

text \<open>
  The invariant of the histories: an object accepts at most one resolution, one for its own
  run and id; an object decided in favour accepted an approval; and a wait that answered
  True holds an object that accepted an approval for the request it waited for.
\<close>

definition history_ok :: "approval_sys \<Rightarrow> bool" where
  "history_ok s \<longleftrightarrow> distinct (map fst (accepted s))
     \<and> (\<forall>i run aid ok. (i, run, aid, ok) \<in> set (accepted s) \<longrightarrow> i < length (objs (bk s)) \<and> pend_event (objs (bk s) ! i)
          \<and> run = req_run_id (pend_request (objs (bk s) ! i)) \<and> aid = req_approval_id (pend_request (objs (bk s) ! i)))
     \<and> (\<forall>i < length (objs (bk s)). pend_decision (objs (bk s) ! i) = Some True \<longrightarrow>
          (i, req_run_id (pend_request (objs (bk s) ! i)), req_approval_id (pend_request (objs (bk s) ! i)), True) \<in> set (accepted s))
     \<and> (\<forall>w i r. waiting s w = Some (i, r) \<longrightarrow> i < length (objs (bk s))
          \<and> req_run_id (pend_request (objs (bk s) ! i)) = req_run_id r
          \<and> req_approval_id (pend_request (objs (bk s) ! i)) = req_approval_id r)
     \<and> (\<forall>i r. (i, r, True) \<in> set (returned s) \<longrightarrow> (i, req_run_id r, req_approval_id r, True) \<in> set (accepted s))"

text \<open>What the broker's operations change of one object: decision and event, never its request.\<close>

lemma settle_length [simp]: "length (objs (settle d i b)) = length (objs b)"
  by (simp add: settle_def)

lemma settle_table [simp]: "table (settle d i b) = table b"
  by (simp add: settle_def)

lemma settle_nth:
  "j < length (objs b) \<Longrightarrow> objs (settle d i b) ! j =
     (if i = j then (objs b ! j)\<lparr>pend_decision := Some d, pend_event := True\<rparr> else objs b ! j)"
  by (simp add: settle_def nth_list_update)

text \<open>\<open>denies b b'\<close>: no object is decided in favour on the way from \<open>b\<close> to \<open>b'\<close>.\<close>

definition denies :: "broker \<Rightarrow> broker \<Rightarrow> bool" where
  "denies b b' \<longleftrightarrow> length (objs b') = length (objs b) \<and> (\<forall>j < length (objs b).
     pend_request (objs b' ! j) = pend_request (objs b ! j)
     \<and> (pend_event (objs b ! j) \<longrightarrow> pend_event (objs b' ! j))
     \<and> (pend_decision (objs b' ! j) = Some True \<longrightarrow> pend_decision (objs b ! j) = Some True))"

lemma denies_refl: "denies b b"
  by (simp add: denies_def)

lemma denies_trans: "denies a b \<Longrightarrow> denies b c \<Longrightarrow> denies a c"
  by (auto simp: denies_def)

lemma denies_cancel_one: "denies b (cancel_one run b x)"
  by (auto simp: denies_def cancel_one_def settle_nth split: prod.splits)

lemma cancel_fold: "denies b (foldl (cancel_one run) b xs)"
proof (induction xs arbitrary: b)
  case (Cons x xs)
  then show ?case using denies_trans [OF denies_cancel_one Cons.IH] by simp
qed (simp add: denies_refl)

lemma broker_ok_table:
  assumes "broker_ok b" "denies b b'" "table b' = AList.delete aid (table b) \<or> table b' = table b"
  shows "broker_ok b'"
  using assms by (auto simp: broker_ok_def denies_def delete_conv' distinct_delete split: if_splits)

lemma cancel_one_ok: "broker_ok b \<Longrightarrow> broker_ok (cancel_one run b x)"
  by (rule broker_ok_table [OF _ denies_cancel_one, where aid = "fst x"])
    (auto simp: cancel_one_def split: prod.splits)

lemma cancel_run_ok: "broker_ok b \<Longrightarrow> broker_ok (cancel_run run b)"
proof -
  have "broker_ok b \<Longrightarrow> broker_ok (foldl (cancel_one run) b xs)" for xs
    by (induction xs arbitrary: b) (simp_all add: cancel_one_ok)
  then show "broker_ok b \<Longrightarrow> broker_ok (cancel_run run b)" by (simp add: cancel_run_def)
qed

lemma history_denies:
  assumes "history_ok s" "denies (bk s) b"
  shows "history_ok (s\<lparr>bk := b\<rparr>)"
  using assms unfolding history_ok_def denies_def by (auto; metis)

definition sys_inv :: "approval_sys \<Rightarrow> bool" where
  "sys_inv s \<longleftrightarrow> broker_ok (bk s) \<and> history_ok s"

lemma sys_inv_open:
  assumes "sys_inv s" "open_request r (bk s) = (out, b)"
  shows "sys_inv (s\<lparr>bk := b\<rparr>)"
proof (cases "map_of (table (bk s)) (req_approval_id r)")
  case None
  have b: "b = \<lparr>objs = objs (bk s) @ [\<lparr>pend_request = r, pend_event = False, pend_decision = None\<rparr>],
                table = dset (req_approval_id r) (length (objs (bk s))) (table (bk s))\<rparr>"
    using assms(2) None by (simp add: open_request_def)
  have "broker_ok b"
    using assms(1) by (auto simp: b broker_ok_def sys_inv_def nth_append distinct_update split: if_splits intro: less_SucI)
  moreover have "history_ok (s\<lparr>bk := b\<rparr>)"
    using assms(1) by (auto simp: b sys_inv_def history_ok_def nth_append less_Suc_eq)
  ultimately show ?thesis by (simp add: sys_inv_def)
qed (use assms in \<open>auto simp: open_request_def sys_inv_def\<close>)

lemma sys_inv_resolve:
  assumes inv: "sys_inv s" and r: "resolve run aid ok (bk s) = (True, b)" and i: "map_of (table (bk s)) aid = Some i"
  shows "sys_inv (s\<lparr>bk := b, accepted := (i, run, aid, ok) # accepted s\<rparr>)"
proof -
  have b: "b = settle ok i (bk s)" and ev: "\<not> pend_event (objs (bk s) ! i)"
    and run: "req_run_id (pend_request (objs (bk s) ! i)) = run"
    using r i by (auto simp: resolve_def split: if_splits)
  have len: "i < length (objs (bk s))" and aid: "req_approval_id (pend_request (objs (bk s) ! i)) = aid"
    using inv i by (auto simp: sys_inv_def broker_ok_def)
  have "broker_ok b"
    using inv by (auto simp: b sys_inv_def broker_ok_def settle_nth)
  moreover have "(i, x) \<notin> set (accepted s)" for x
    using inv ev unfolding sys_inv_def history_ok_def by (cases x) blast
  then have "i \<notin> set (map fst (accepted s))" by force
  then have "history_ok (s\<lparr>bk := b, accepted := (i, run, aid, ok) # accepted s\<rparr>)"
    using inv run aid len unfolding sys_inv_def history_ok_def b by (auto simp: settle_nth)
  ultimately show ?thesis by (simp add: sys_inv_def)
qed


lemma sys_inv_wait_end:
  assumes inv: "sys_inv s" and e: "wait_end why i r (bk s) = (out, b)"
  shows "sys_inv (s\<lparr>bk := b\<rparr>) \<and> objs b = objs (bk s)"
proof -
  have b: "b = (bk s)\<lparr>table := AList.delete (req_approval_id r) (table (bk s))\<rparr>"
    using e by (auto simp: wait_end_def Let_def split: wake.splits)
  then have d: "denies (bk s) b" by (simp add: denies_def)
  then show ?thesis using inv history_denies [OF _ d] broker_ok_table [OF _ d, of "req_approval_id r"] b
    by (simp add: sys_inv_def)
qed

lemma sys_inv_forget: "sys_inv s \<Longrightarrow> sys_inv (s\<lparr>waiting := (waiting s)(w := None)\<rparr>)"
  by (auto simp: sys_inv_def history_ok_def)

lemma sys_inv_returned:
  assumes "sys_inv s" "answer \<longrightarrow> (i, req_run_id r, req_approval_id r, True) \<in> set (accepted s)"
  shows "sys_inv (s\<lparr>returned := (i, r, answer) # returned s\<rparr>)"
  using assms by (auto simp: sys_inv_def history_ok_def)

lemma sys_inv_wake:
  assumes inv: "sys_inv s" and w: "waiting s w = Some (i, r)" and e: "wait_end EventSet i r (bk s) = (Inr answer, b)"
  shows "sys_inv (s\<lparr>bk := b, waiting := (waiting s)(w := None), returned := (i, r, answer) # returned s\<rparr>)"
proof -
  have a: "answer = (pend_decision (objs (bk s) ! i) = Some True)"
    using e by (simp add: wait_end_def Let_def)
  have o: "i < length (objs (bk s))" "req_run_id (pend_request (objs (bk s) ! i)) = req_run_id r"
      "req_approval_id (pend_request (objs (bk s) ! i)) = req_approval_id r"
    using inv w unfolding sys_inv_def history_ok_def by blast+
  have acc: "answer \<longrightarrow> (i, req_run_id r, req_approval_id r, True) \<in> set (accepted s)"
    using inv o a unfolding sys_inv_def history_ok_def by metis
  have "sys_inv (s\<lparr>bk := b\<rparr>)" using sys_inv_wait_end [OF inv e] by blast
  then have "sys_inv ((s\<lparr>bk := b\<rparr>)\<lparr>waiting := (waiting s)(w := None)\<rparr>)" using sys_inv_forget [of "s\<lparr>bk := b\<rparr>"] by simp
  from sys_inv_returned [OF this, of answer i r] acc show ?thesis by simp
qed

lemma sys_inv_step:
  assumes "sys_step s s'" "sys_inv s"
  shows "sys_inv s'"
  using assms
proof (cases rule: sys_step.cases)
  case (Wait w r i)
  then have "i < length (objs (bk s)) \<and> req_run_id (pend_request (objs (bk s) ! i)) = req_run_id r
      \<and> req_approval_id (pend_request (objs (bk s) ! i)) = req_approval_id r"
    using assms(2) by (auto simp: wait_begin_def sys_inv_def broker_ok_def split: option.splits if_splits)
  then show ?thesis using assms(2) Wait(1) by (auto simp: sys_inv_def history_ok_def)
next
  case (GiveUp w i r why x b)
  have "sys_inv (s\<lparr>bk := b\<rparr>)" using sys_inv_wait_end [OF assms(2) GiveUp(4)] by blast
  then show ?thesis using sys_inv_forget [of "s\<lparr>bk := b\<rparr>" w] GiveUp(1) by simp
next
  case (Ignore run aid ok b)
  then have "b = bk s" by (auto simp: resolve_def split: option.splits if_splits)
  then show ?thesis using Ignore(1) assms(2) by (simp add: sys_inv_def)
next
  case (Cancel run)
  then show ?thesis using assms(2) cancel_run_ok history_denies cancel_fold
    by (simp add: sys_inv_def cancel_run_def)
qed (simp_all add: sys_inv_open sys_inv_wake sys_inv_resolve assms(2))

lemma sys_inv_init: "sys_inv sys_init"
  by (simp add: sys_inv_def sys_init_def broker_init_def broker_ok_def history_ok_def)

lemma sys_reachable: "sys_step\<^sup>*\<^sup>* sys_init s \<Longrightarrow> sys_inv s"
  by (induction rule: rtranclp_induct) (auto intro: sys_inv_init sys_inv_step)

text \<open>
  C8. In every interleaving of opening, waiting, resolving, timing out and cancelling, a
  suspended tool call resumes with permission only if the broker accepted an approval that
  named that very run and approval id for the request object it waited on, and no request
  object ever accepts two resolutions.
\<close>

theorem approval_only_by_matching_resolution:
  assumes "sys_step\<^sup>*\<^sup>* sys_init s"
  shows "(\<forall>i r. (i, r, True) \<in> set (returned s) \<longrightarrow> (i, req_run_id r, req_approval_id r, True) \<in> set (accepted s))
     \<and> distinct (map fst (accepted s))"
  using sys_reachable [OF assms] by (simp add: sys_inv_def history_ok_def)

text \<open>Cancelling one run, entry by entry.\<close>

lemma cancel_one_effect:
  assumes "i < length (objs b)"
  shows "objs (cancel_one run b (aid, j)) ! i =
      (if j = i \<and> req_run_id (pend_request (objs b ! i)) = run
       then (objs b ! i)\<lparr>pend_decision := Some False, pend_event := True\<rparr> else objs b ! i)"
    and "map_of (table (cancel_one run b (aid, j))) q =
      (if q = aid \<and> req_run_id (pend_request (objs b ! j)) = run then None else map_of (table b) q)"
  using assms by (auto simp: cancel_one_def settle_nth delete_conv')

lemma cancel_fold_effect:
  assumes "\<forall>x \<in> set xs. snd x < length (objs b)"
  shows "(\<forall>i < length (objs b). objs (foldl (cancel_one run) b xs) ! i =
      (if i \<in> snd ` set xs \<and> req_run_id (pend_request (objs b ! i)) = run
       then (objs b ! i)\<lparr>pend_decision := Some False, pend_event := True\<rparr> else objs b ! i))
    \<and> (\<forall>q. map_of (table (foldl (cancel_one run) b xs)) q =
      (if \<exists>j. (q, j) \<in> set xs \<and> req_run_id (pend_request (objs b ! j)) = run then None else map_of (table b) q))"
  using assms
proof (induction xs arbitrary: b)
  case (Cons x xs)
  obtain aid j where x: "x = (aid, j)" by (cases x)
  let ?b = "cancel_one run b x"
  have len: "length (objs ?b) = length (objs b)" using denies_cancel_one [of b run x] by (simp add: denies_def)
  have req: "pend_request (objs ?b ! i) = pend_request (objs b ! i)" if "i < length (objs b)" for i
    using denies_cancel_one [of b run x] that by (simp add: denies_def)
  have IH: "\<forall>i < length (objs b). objs (foldl (cancel_one run) ?b xs) ! i =
      (if i \<in> snd ` set xs \<and> req_run_id (pend_request (objs ?b ! i)) = run
       then (objs ?b ! i)\<lparr>pend_decision := Some False, pend_event := True\<rparr> else objs ?b ! i)"
    "\<forall>q. map_of (table (foldl (cancel_one run) ?b xs)) q =
      (if \<exists>j. (q, j) \<in> set xs \<and> req_run_id (pend_request (objs ?b ! j)) = run then None else map_of (table ?b) q)"
    using Cons.IH [of ?b] Cons.prems len by auto
  have one: "objs ?b ! i = (if j = i \<and> req_run_id (pend_request (objs b ! i)) = run
       then (objs b ! i)\<lparr>pend_decision := Some False, pend_event := True\<rparr> else objs b ! i)"
    if "i < length (objs b)" for i using cancel_one_effect(1) [OF that] by (simp add: x)
  have tab: "map_of (table ?b) q =
      (if q = aid \<and> req_run_id (pend_request (objs b ! j)) = run then None else map_of (table b) q)" for q
    using cancel_one_effect(2) [of j b] Cons.prems by (simp add: x)
  have some: "(\<exists>k. (q, k) \<in> set xs \<and> req_run_id (pend_request (objs ?b ! k)) = run)
      \<longleftrightarrow> (\<exists>k. (q, k) \<in> set xs \<and> req_run_id (pend_request (objs b ! k)) = run)" for q
    using req Cons.prems by force
  have "objs (foldl (cancel_one run) b (x # xs)) ! i =
      (if i \<in> snd ` set (x # xs) \<and> req_run_id (pend_request (objs b ! i)) = run
       then (objs b ! i)\<lparr>pend_decision := Some False, pend_event := True\<rparr> else objs b ! i)"
    if "i < length (objs b)" for i
    using IH(1) that req [OF that] one [OF that] by (auto simp: x)
  moreover have "map_of (table (foldl (cancel_one run) b (x # xs))) q =
      (if \<exists>j. (q, j) \<in> set (x # xs) \<and> req_run_id (pend_request (objs b ! j)) = run then None else map_of (table b) q)" for q
    using IH(2) [rule_format, of q] tab [of q] some [of q] by (simp add: x) blast
  ultimately show ?case by blast
qed simp

text \<open>
  Cancelling a run denies everything it was waiting for and nothing else: each of its
  pending requests is decided against with its event set, so the suspended call resumes
  without permission, and leaves the table; the requests of other runs stay as they were.
\<close>

theorem cancel_run_denies:
  assumes "sys_step\<^sup>*\<^sup>* sys_init s" and i: "map_of (table (bk s)) aid = Some i"
  shows "if req_run_id (pend_request (objs (bk s) ! i)) = run
    then map_of (table (cancel_run run (bk s))) aid = None
      \<and> pend_event (objs (cancel_run run (bk s)) ! i)
      \<and> fst (wait_end EventSet i r (cancel_run run (bk s))) = Inr False
    else map_of (table (cancel_run run (bk s))) aid = Some i \<and> objs (cancel_run run (bk s)) ! i = objs (bk s) ! i"
proof -
  have ok: "broker_ok (bk s)" using sys_reachable [OF assms(1)] by (simp add: sys_inv_def)
  have len: "i < length (objs (bk s))" using ok i by (auto simp: broker_ok_def)
  have mem: "(aid, j) \<in> set (table (bk s)) \<longleftrightarrow> j = i" for j
    using ok i map_of_eq_Some_iff [of "table (bk s)" aid] by (metis broker_ok_def option.inject)
  have "\<forall>x \<in> set (table (bk s)). snd x < length (objs (bk s))"
    using ok by (auto simp: broker_ok_def)
  note eff = cancel_fold_effect [OF this, of run, folded cancel_run_def]
  have "i \<in> snd ` set (table (bk s))" using mem by force
  then show ?thesis using eff len mem i by (simp add: wait_end_def Let_def)
qed

subsection \<open>A concrete approval\<close>

definition demo_request :: approval_request where
  "demo_request = \<lparr>req_approval_id = ''a1'', req_run_id = ''run-1'', req_tool_name = ''shell'', req_level = ''execute'',
     req_reason = ''why'', req_arguments = [], req_scope = None, req_presentation = None, req_risk = None\<rparr>"

definition demo_open :: approval_sys where
  "demo_open = sys_init\<lparr>bk := snd (open_request demo_request broker_init)\<rparr>"

definition demo_waiting :: approval_sys where
  "demo_waiting = demo_open\<lparr>waiting := (waiting demo_open)(0 \<mapsto> (0, demo_request))\<rparr>"

definition demo_resolved :: approval_sys where
  "demo_resolved = demo_waiting\<lparr>bk := snd (resolve ''run-1'' ''a1'' True (bk demo_waiting)),
     accepted := (0, ''run-1'', ''a1'', True) # accepted demo_waiting\<rparr>"

definition demo_returned :: approval_sys where
  "demo_returned = demo_resolved\<lparr>bk := snd (wait_end EventSet 0 demo_request (bk demo_resolved)),
     waiting := (waiting demo_resolved)(0 := None),
     returned := (0, demo_request, True) # returned demo_resolved\<rparr>"

lemmas demo_defs = demo_request_def demo_open_def demo_waiting_def demo_resolved_def demo_returned_def
  sys_init_def broker_init_def open_request_def resolve_def settle_def wait_begin_def wait_end_def

lemma demo_open_step: "sys_step sys_init demo_open"
  using sys_step.Open [of demo_request sys_init "fst (open_request demo_request broker_init)" "snd (open_request demo_request broker_init)"]
  by (simp add: demo_open_def sys_init_def)

lemma demo_waiting_step: "sys_step demo_open demo_waiting"
  unfolding demo_waiting_def by (rule sys_step.Wait) (simp_all add: demo_defs)

lemma demo_resolved_step: "sys_step demo_waiting demo_resolved"
  unfolding demo_resolved_def by (rule sys_step.Resolve) (simp_all add: demo_defs)

lemma demo_returned_step: "sys_step demo_resolved demo_returned"
  unfolding demo_returned_def by (rule sys_step.Wake) (simp_all add: demo_defs Let_def)

lemma demo_reachable: "sys_step\<^sup>*\<^sup>* sys_init demo_open" "sys_step\<^sup>*\<^sup>* sys_init demo_returned"
proof -
  show o: "sys_step\<^sup>*\<^sup>* sys_init demo_open" using demo_open_step by (rule r_into_rtranclp)
  show "sys_step\<^sup>*\<^sup>* sys_init demo_returned"
    by (rule rtranclp.rtrancl_into_rtrancl [OF rtranclp.rtrancl_into_rtrancl [OF
      rtranclp.rtrancl_into_rtrancl [OF o demo_waiting_step] demo_resolved_step] demo_returned_step])
qed

lemma approval_only_by_matching_resolution_witness:
  "(0, demo_request, True) \<in> set (returned demo_returned) \<and> (0, ''run-1'', ''a1'', True) \<in> set (accepted demo_returned)"
proof
  show r: "(0, demo_request, True) \<in> set (returned demo_returned)" by (simp add: demo_returned_def)
  show "(0, ''run-1'', ''a1'', True) \<in> set (accepted demo_returned)"
    using approval_only_by_matching_resolution [OF demo_reachable(2), THEN conjunct1, rule_format, OF r]
    by (simp add: demo_request_def)
qed

lemma cancel_run_denies_witness:
  "map_of (table (cancel_run ''run-1'' (bk demo_open))) ''a1'' = None
   \<and> fst (wait_end EventSet 0 demo_request (cancel_run ''run-1'' (bk demo_open))) = Inr False"
  using cancel_run_denies [OF demo_reachable(1), of "''a1''" 0 "''run-1''" demo_request] by (simp add: demo_defs)

lemma summary_bounded_witness:
  "\<exists>kv. kv \<in> set (summarize_arguments [(''n'', JInt 1)]) \<and> length (fst kv) \<le> 80 \<and> bounded_summary 3 (snd kv)"
proof -
  have "(''n'', JInt 1) \<in> set (summarize_arguments [(''n'', JInt 1)])"
    by (simp add: summarize_arguments_def MAX_SUMMARY_ITEMS_def summarize_value.simps is_sensitive_argument_name_def
      SENSITIVE_ARGUMENT_KEY_PARTS_def py_eval is_lower_def is_digit_def Let_def)
  with summary_bounded [of "[(''n'', JInt 1)]"] show ?thesis by blast
qed

end
