(* ===== verification/Shlex.thy ===== *)
theory Shlex
  imports Py_Regex
begin

text \<open>
  Library code the safety layer classifies shell commands with: \<^verbatim>\<open>shlex.shlex\<close> in POSIX mode
  with \<^verbatim>\<open>punctuation_chars=";&|<>"\<close> and \<^verbatim>\<open>whitespace_split\<close>, and the purely textual part of
  \<^verbatim>\<open>os.path\<close> and \<^verbatim>\<open>pathlib\<close>.
\<close>

subsection \<open>The shell lexer\<close>

text \<open>
  The lexer's states: between tokens, in a word, in a run of punctuation, inside quotes, and
  after a backslash (with the state to return to).  A character the lexer pushes back is read
  again in the state between tokens.
\<close>

datatype lexer_state = Between | InWord | InPunct | InQuote char | InEscape "char option"

definition punctuation :: "char \<Rightarrow> bool" where
  "punctuation c \<longleftrightarrow> c \<in> set '';&|<>''"

definition shell_space :: "char \<Rightarrow> bool" where
  "shell_space c \<longleftrightarrow> code c \<in> {32, 9, 13, 10}"

definition quote_char :: "char \<Rightarrow> bool" where
  "quote_char c \<longleftrightarrow> c = CHR 0x27 \<or> c = CHR 0x22"

text \<open>\<^verbatim>\<open>instream.readline()\<close> after a comment character.\<close>

definition skip_line :: "string \<Rightarrow> string" where
  "skip_line s = drop 1 (dropWhile (\<lambda>c. c \<noteq> CHR 0x0A) s)"

lemma skip_line_len [termination_simp]: "length (skip_line s) \<le> length s"
  using length_dropWhile_le [of "\<lambda>c. c \<noteq> CHR 0x0A" s] by (simp add: skip_line_def)

text \<open>A token is emitted when it is not empty or was quoted; \<open>None\<close> is the \<^verbatim>\<open>ValueError\<close>.\<close>

definition emit_token :: "string \<Rightarrow> bool \<Rightarrow> string list option \<Rightarrow> string list option" where
  "emit_token tok quoted rest = (if tok \<noteq> [] \<or> quoted then map_option ((#) (rev tok)) rest else rest)"

function lexer :: "lexer_state \<Rightarrow> string \<Rightarrow> bool \<Rightarrow> string \<Rightarrow> string list option" where
  "lexer Between tok quoted [] = (if tok = [] \<and> \<not> quoted then Some [] else Some [rev tok])"
| "lexer Between tok quoted (c # cs) =
     (if shell_space c then emit_token tok quoted (lexer Between [] False cs)
      else if c = CHR ''#'' then lexer Between tok quoted (skip_line cs)
      else if c = CHR 0x5C then lexer (InEscape None) tok quoted cs
      else if punctuation c then lexer InPunct [c] quoted cs
      else if quote_char c then lexer (InQuote c) tok quoted cs
      else lexer InWord [c] quoted cs)"
| "lexer (InQuote q) tok quoted [] = None"
| "lexer (InQuote q) tok quoted (c # cs) =
     (if c = q then lexer InWord tok True cs
      else if c = CHR 0x5C \<and> q = CHR 0x22 then lexer (InEscape (Some q)) tok True cs
      else lexer (InQuote q) (c # tok) True cs)"
| "lexer (InEscape q) tok quoted [] = None"
| "lexer (InEscape q) tok quoted (c # cs) =
     (case q of
        None \<Rightarrow> lexer InWord (c # tok) quoted cs
      | Some d \<Rightarrow> lexer (InQuote d) (if c \<noteq> CHR 0x5C \<and> c \<noteq> d then c # CHR 0x5C # tok else c # tok) quoted cs)"
| "lexer InWord tok quoted [] = (if tok = [] \<and> \<not> quoted then Some [] else Some [rev tok])"
| "lexer InWord tok quoted (c # cs) =
     (if shell_space c then emit_token tok quoted (lexer Between [] False cs)
      else if c = CHR ''#'' then emit_token tok quoted (lexer Between [] False (skip_line cs))
      else if quote_char c then lexer (InQuote c) tok quoted cs
      else if c = CHR 0x5C then lexer (InEscape None) tok quoted cs
      else if \<not> punctuation c then lexer InWord (c # tok) quoted cs
      else emit_token tok quoted (lexer Between [] False (c # cs)))"
| "lexer InPunct tok quoted [] = (if tok = [] \<and> \<not> quoted then Some [] else Some [rev tok])"
| "lexer InPunct tok quoted (c # cs) =
     (if shell_space c then emit_token tok quoted (lexer Between [] False cs)
      else if c = CHR ''#'' then emit_token tok quoted (lexer Between [] False (skip_line cs))
      else if punctuation c then lexer InPunct (c # tok) quoted cs
      else emit_token tok quoted (lexer Between [] False (c # cs)))"
  by pat_completeness auto
termination
  by (relation "measures [\<lambda>(st, tok, quoted, s). length s, \<lambda>(st, tok, quoted, s). if st = Between then 0 else 1]")
    (auto simp: less_Suc_eq_le skip_line_len)

definition shlex_split :: "string \<Rightarrow> string list option" where
  "shlex_split s = lexer Between [] False s"

subsection \<open>Paths as text\<close>

text \<open>\<^verbatim>\<open>str.split\<close> on a one-character separator.\<close>

fun split_on :: "char \<Rightarrow> string \<Rightarrow> string list" where
  "split_on sep [] = [[]]"
| "split_on sep (c # cs) =
     (if c = sep then [] # split_on sep cs
      else case split_on sep cs of [] \<Rightarrow> [[c]] | x # xs \<Rightarrow> (c # x) # xs)"

definition root_slashes :: "string \<Rightarrow> string" where
  "root_slashes s =
     (if starts_with ''//'' s \<and> \<not> starts_with ''///'' s then ''//''
      else if starts_with ''/'' s then ''/'' else [])"

definition push_component :: "bool \<Rightarrow> string list \<Rightarrow> string \<Rightarrow> string list" where
  "push_component rooted acc part =
     (if part = [] \<or> part = ''.'' then acc
      else if part \<noteq> ''..'' \<or> (\<not> rooted \<and> acc = []) \<or> (acc \<noteq> [] \<and> last acc = ''..'') then acc @ [part]
      else if acc \<noteq> [] then butlast acc else acc)"

text \<open>\<^verbatim>\<open>os.path.normpath\<close>.\<close>

definition normpath :: "string \<Rightarrow> string" where
  "normpath s =
     (if s = [] then ''.''
      else let r = root_slashes s;
               out = r @ join ''/'' (foldl (push_component (r \<noteq> [])) [] (split_on CHR ''/'' s))
           in if out = [] then ''.'' else out)"

text \<open>The components \<^verbatim>\<open>pathlib\<close> keeps, its text form, last component and parent.\<close>

definition path_parts :: "string \<Rightarrow> string list" where
  "path_parts s = filter (\<lambda>p. p \<noteq> [] \<and> p \<noteq> ''.'') (split_on CHR ''/'' s)"

definition path_text :: "string \<Rightarrow> string" where
  "path_text s =
     (let out = root_slashes s @ join ''/'' (path_parts s) in if out = [] then ''.'' else out)"

definition path_name :: "string \<Rightarrow> string" where
  "path_name s = (let ps = path_parts s in if ps = [] then [] else last ps)"

definition path_parent :: "string \<Rightarrow> string" where
  "path_parent s =
     (let out = root_slashes s @ join ''/'' (butlast (path_parts s)) in if out = [] then ''.'' else out)"

end
