(* ===== verification/Fact_Gate.thy ===== *)
theory Fact_Gate
  imports Shlex Approval
begin

text \<open>
  The fact-forcing preflight of \<^verbatim>\<open>engine/safety/fact_gate.py\<close>: a read-only classifier for
  shell commands, and the gate that challenges the first state-changing operation on each
  target in a turn and lets the retry of a later round pass.  The user database behind
  \<^verbatim>\<open>Path.expanduser\<close> is the argument \<open>home_of\<close> (the home directory of a \<^verbatim>\<open>~\<close> component, or
  \<open>None\<close> where it cannot be determined and a \<^verbatim>\<open>RuntimeError\<close> is raised).
\<close>

subsection \<open>Tools and calls\<close>

record tool_definition =
  tool_path_args :: "string list"
  tool_is_write :: bool
  tool_read_actions :: "string list"

record tool_call =
  call_id :: string
  call_name :: string
  call_arguments :: jdict

subsection \<open>The read-only shell classifier\<close>

definition SHELL_OPERATORS :: "string list" where
  "SHELL_OPERATORS = ['';'', ''&'', ''&&'', ''||'', ''|'']"

definition SHELL_REDIRECTIONS :: "string list" where
  "SHELL_REDIRECTIONS = [''>'', ''>>'', ''<'', ''<<'', ''<<<'', ''&>'', ''2>'', ''2>>'']"

definition READ_ONLY_COMMANDS :: "string list" where
  "READ_ONLY_COMMANDS = [''['', ''cat'', ''cmp'', ''command'', ''date'', ''df'', ''diff'', ''du'', ''echo'', ''file'',
     ''grep'', ''head'', ''ls'', ''pwd'', ''rg'', ''sort'', ''stat'', ''tail'', ''test'', ''tree'', ''true'', ''type'',
     ''uname'', ''uniq'', ''wc'', ''whereis'', ''which'']"

definition READ_ONLY_GIT_SUBCOMMANDS :: "string list" where
  "READ_ONLY_GIT_SUBCOMMANDS = [''blame'', ''diff'', ''grep'', ''log'', ''ls-files'', ''ls-tree'', ''rev-parse'',
     ''show'', ''status'']"

definition STRUCTURED_READ_ACTIONS :: "(string, string list) dict" where
  "STRUCTURED_READ_ACTIONS = [(''git_ops'', [''diff'', ''discover'', ''status'']),
     (''memory_ops'', [''search'']), (''skill_manage'', [''get'', ''list'', ''versions''])]"

fun git_global_options :: "string list \<Rightarrow> string list option" where
  "git_global_options [] = None"
| "git_global_options (token # rest) =
     (if token = ''-c'' then None
      else if token \<in> {''-C'', ''--git-dir'', ''--work-tree''} then git_global_options (drop 1 rest)
      else if starts_with ''--git-dir='' token \<or> starts_with ''--work-tree='' token then git_global_options rest
      else if token \<in> {''--glob-pathspecs'', ''--icase-pathspecs'', ''--literal-pathspecs'', ''--no-pager'',
                       ''--noglob-pathspecs''} then git_global_options rest
      else if starts_with ''-'' token then None
      else Some (token # rest))"

definition is_read_only_branch :: "string list \<Rightarrow> bool" where
  "is_read_only_branch sub_args =
     (if sub_args = [] then True
      else if list_ex (\<lambda>arg. arg \<in> {''--copy'', ''--delete'', ''--edit-description'', ''--move'', ''--set-upstream-to'',
                ''--unset-upstream'', ''-C'', ''-D'', ''-M'', ''-c'', ''-d'', ''-m''}) sub_args then False
      else if hd sub_args \<in> {''--list'', ''-l''} then True
      else list_all (\<lambda>arg. arg \<in> {''--all'', ''--color'', ''--no-color'', ''--no-column'', ''--remotes'',
                ''--show-current'', ''-a'', ''-r'', ''-v'', ''-vv''}
              \<or> starts_with ''--color='' arg \<or> starts_with ''--format='' arg \<or> starts_with ''--sort='' arg) sub_args)"

definition is_read_only_git :: "string list \<Rightarrow> bool" where
  "is_read_only_git args = (case git_global_options args of
      None \<Rightarrow> False
    | Some [] \<Rightarrow> False
    | Some (subcommand # sub_args) \<Rightarrow>
        if list_ex (\<lambda>arg. arg \<in> {''-o'', ''--output''} \<or> starts_with ''--output='' arg) sub_args then False
        else if list_ex (\<lambda>arg. list_ex (\<lambda>flag. arg = flag \<or> starts_with (flag @ ''='') arg)
               [''--ext-diff'', ''--open-files-in-pager'', ''--textconv'']) sub_args then False
        else if list_ex (\<lambda>arg. arg = ''-O'' \<or> starts_with ''-O'' arg) sub_args then False
        else if subcommand \<in> set READ_ONLY_GIT_SUBCOMMANDS then True
        else if subcommand = ''branch'' then is_read_only_branch sub_args
        else False)"

definition sed_address :: pattern where
  "sed_address = Alt (Many is_digit 1 None) (lit ''$'')"

definition sed_print :: pattern where
  "sed_print = cats [sed_address, opt (cats [lit '','', sed_address]), lit ''p'']"

text \<open>The loop over the arguments: \<open>None\<close> is its early \<^verbatim>\<open>return False\<close>, else scripts and files.\<close>

fun sed_arguments :: "string list \<Rightarrow> string list \<Rightarrow> string list \<Rightarrow> (string list \<times> string list) option" where
  "sed_arguments scripts inputs [] = Some (scripts, inputs)"
| "sed_arguments scripts inputs (arg # rest) =
     (if arg \<in> {''-n'', ''--quiet'', ''--silent''} then sed_arguments scripts inputs rest
      else if arg \<in> {''-e'', ''--expression''} then
        (case rest of
           [] \<Rightarrow> None
         | script # rest' \<Rightarrow> if script = [] then None else sed_arguments (scripts @ [script]) inputs rest')
      else if starts_with ''-'' arg then None
      else sed_arguments scripts (inputs @ [arg]) rest)"

definition sed_commands :: "string \<Rightarrow> string list" where
  "sed_commands script = filter (\<lambda>p. p \<noteq> [])
     (map strip (concat (map (split_on CHR 0x0A) (split_on CHR '';'' script))))"

definition sed_script_ok :: "string \<Rightarrow> bool" where
  "sed_script_ok script =
     (let sub_cmds = sed_commands script
      in if sub_cmds = [] then False else list_all (re_fullmatch sed_print) sub_cmds)"

definition is_read_only_sed :: "string list \<Rightarrow> bool" where
  "is_read_only_sed args =
     (if list_ex (\<lambda>arg. starts_with ''-i'' arg \<or> starts_with ''--in-place'' arg) args then False
      else case sed_arguments [] [] args of
        None \<Rightarrow> False
      | Some (scripts, inputs) \<Rightarrow>
          if scripts \<noteq> [] then list_all sed_script_ok scripts
          else if inputs = [] then False
          else sed_script_ok (hd inputs))"

definition env_assignment :: "string \<Rightarrow> bool" where
  "env_assignment token = re_fullmatch (cats [Cls (\<lambda>c. is_alpha c \<or> c = CHR ''_''),
     Many (\<lambda>c. is_alnum c \<or> c = CHR ''_'') 0 None, lit ''='', Many (\<lambda>c. c \<noteq> CHR 0x0A) 0 None]) token"

fun skip_assignments :: "string list \<Rightarrow> string list option" where
  "skip_assignments [] = Some []"
| "skip_assignments (token # rest) =
     (if env_assignment token then
        (if takeWhile (\<lambda>c. c \<noteq> CHR ''='') token \<in> {''COLUMNS'', ''LANG'', ''LC_ALL'', ''NO_COLOR'', ''TERM'', ''TZ''}
         then skip_assignments rest else None)
      else Some (token # rest))"

definition trusted_dirs :: "string list" where
  "trusted_dirs = [''/bin'', ''/opt/homebrew/bin'', ''/sbin'', ''/usr/bin'', ''/usr/local/bin'', ''/usr/sbin'']"

definition trusted_spelling :: "string \<Rightarrow> bool" where
  "trusted_spelling raw_command =
     (if CHR ''/'' \<in> set raw_command
      then let normalized = path_text (normpath raw_command)
           in starts_with ''/'' normalized \<and> path_parent normalized \<in> set trusted_dirs
      else True)"

definition read_only_command :: "string \<Rightarrow> string list \<Rightarrow> bool" where
  "read_only_command command args =
     (if command = ''git'' then is_read_only_git args
      else if command = ''find'' then
        \<not> list_ex (\<lambda>arg. arg \<in> {''-delete'', ''-exec'', ''-execdir'', ''-fls'', ''-fprintf'', ''-fprintf0'', ''-fprint'',
             ''-fprint0'', ''-ok'', ''-okdir''}) args
      else if command = ''sed'' then is_read_only_sed args
      else if command = ''sort'' then
        \<not> list_ex (\<lambda>arg. arg = ''-o'' \<or> starts_with ''-o'' arg \<or> arg = ''--output'' \<or> starts_with ''--output='' arg
             \<or> arg = ''--compress-program'' \<or> starts_with ''--compress-program='' arg) args
      else if command = ''tree'' then
        \<not> list_ex (\<lambda>arg. arg = ''-o'' \<or> starts_with ''-o'' arg \<or> arg = ''--output'' \<or> starts_with ''--output='' arg) args
      else if command = ''uniq'' then length (filter (\<lambda>arg. \<not> starts_with ''-'' arg) args) \<le> 1
      else if command = ''command'' then args \<noteq> [] \<and> hd args \<in> {''-v'', ''-V''}
      else if command = ''date'' then
        \<not> list_ex (\<lambda>arg. arg = ''-s'' \<or> starts_with ''-s'' arg \<or> arg = ''--set'' \<or> starts_with ''--set='' arg) args
        \<and> list_all (\<lambda>arg. starts_with ''-'' arg \<or> starts_with ''+'' arg) args
      else command \<in> set READ_ONLY_COMMANDS)"

definition is_read_only_segment :: "string list \<Rightarrow> bool" where
  "is_read_only_segment tokens = (case skip_assignments tokens of
      None \<Rightarrow> False
    | Some [] \<Rightarrow> False
    | Some (raw_command # args) \<Rightarrow>
        trusted_spelling raw_command \<and> read_only_command (path_name raw_command) args)"

definition redirection_token :: "string \<Rightarrow> bool" where
  "redirection_token token \<longleftrightarrow> token \<in> set SHELL_REDIRECTIONS
     \<or> re_fullmatch (Cat (Many is_digit 0 None) (Alt (lit ''>'') (lit ''>>''))) token"

text \<open>The loop that cuts the tokens into segments: the current segment, and \<open>None\<close> for \<^verbatim>\<open>return False\<close>.\<close>

fun segments :: "string list \<Rightarrow> string list \<Rightarrow> string list list option" where
  "segments cur [] = (if cur = [] then None else Some [cur])"
| "segments cur (token # rest) =
     (if redirection_token token then None
      else if token \<in> set SHELL_OPERATORS then
        (if cur = [] then None else map_option ((#) cur) (segments [] rest))
      else if token \<noteq> [] \<and> list_all punctuation token then None
      else segments (cur @ [token]) rest)"

definition is_read_only_shell :: "string \<Rightarrow> bool" where
  "is_read_only_shell command =
     (if CHR 0x0A \<in> set command \<or> CHR 0x0D \<in> set command \<or> contains ''$('' command \<or> CHR 0x60 \<in> set command
      then False
      else case shlex_split command of
        None \<Rightarrow> False
      | Some tokens \<Rightarrow>
          (case segments [] tokens of
             None \<Rightarrow> False
           | Some segs \<Rightarrow> list_all is_read_only_segment segs))"

subsection \<open>Challenges\<close>

definition lines :: "string list \<Rightarrow> string" where
  "lines ls = join [CHR 0x0A] ls"

definition file_challenge :: "string \<Rightarrow> string \<Rightarrow> string" where
  "file_challenge tool_name path = lines [
     ''[Fact-Forcing Gate]'',
     ''Before '' @ (if tool_name = ''edit_file'' then ''editing'' else ''writing or creating'') @ '' '' @ path
       @ '', present these facts:'',
     ''1. List ALL files that import, require, or call this file.'',
     ''2. List the public functions/classes affected by this change.'',
     ''3. If it reads or writes data, show the relevant data schema, field names, and formats using redacted or synthetic values.'',
     ''4. Quote the user'' @ [CHR 0x27] @ ''s current instruction verbatim.'',
     ''Present the facts, then retry the same operation.'']"

definition shell_challenge :: "string \<Rightarrow> string" where
  "shell_challenge command =
     (let flat = map (\<lambda>c. if c = CHR 0x0D \<or> c = CHR 0x0A then CHR '' '' else c) command;
          words = squeeze flat;
          safe = (if 240 < length words then take 237 words @ ''...'' else words)
      in lines [
     ''[Fact-Forcing Gate]'',
     ''Before the first shell command this turn that changes or produces state ('' @ safe @ ''), present:'',
     ''1. The current user request and what this command verifies, changes, or produces.'',
     ''2. The files, data, dependencies, or external state it may affect.'',
     ''3. A one-line rollback procedure when the operation is mutating.'',
     ''4. Quote the user'' @ [CHR 0x27] @ ''s current instruction verbatim.'',
     ''Present the facts, then retry the operation.''])"

definition structured_tool_challenge :: "string \<Rightarrow> string \<Rightarrow> string" where
  "structured_tool_challenge tool_name action =
     (let kept = filter (\<lambda>c. (is_word c \<and> c \<noteq> CHR ''_'') \<or> c \<in> set ''._-'') action;
          safe_action = (if kept = [] then ''unknown'' else kept)
      in lines [
     ''[Fact-Forcing Gate]'',
     ''Before '' @ tool_name @ ''.'' @ safe_action @ '' changes state, present:'',
     ''1. The current user request and why this action is necessary.'',
     ''2. The files, data, repository state, or persistent Agent state it may affect.'',
     ''3. A one-line rollback procedure.'',
     ''4. Quote the user'' @ [CHR 0x27] @ ''s current instruction verbatim.'',
     ''Present the facts, then retry the operation.''])"

subsection \<open>The gate\<close>

record fact_gate =
  gate_enabled :: bool
  gate_scope :: string
  gate_checked :: "string list"
  gate_pending :: "string list"
  gate_registry :: "(string, tool_definition) dict"

record fact_gate_result =
  gate_challenged :: bool
  gate_reason :: string

definition FactGate :: "string \<Rightarrow> string \<Rightarrow> bool \<Rightarrow> (string, tool_definition) dict \<Rightarrow> fact_gate" where
  "FactGate session turn enabled registry = \<lparr>gate_enabled = enabled, gate_scope = session @ '':'' @ turn,
     gate_checked = [], gate_pending = [], gate_registry = registry\<rparr>"

definition DISABLE_VALUES :: "string list" where
  "DISABLE_VALUES = [''0'', ''false'', ''off'', ''disabled'', ''disable'', ''no'']"

text \<open>\<open>getenv\<close> is the value of \<^verbatim>\<open>HELVE_FACT_GATE\<close>, if it is set.\<close>

definition enabled_from_env :: "string option \<Rightarrow> bool" where
  "enabled_from_env getenv \<longleftrightarrow>
     lower (strip (case getenv of None \<Rightarrow> ''on'' | Some v \<Rightarrow> v)) \<notin> set DISABLE_VALUES"

definition begin_round :: "fact_gate \<Rightarrow> fact_gate" where
  "begin_round g = g\<lparr>gate_checked := List.union (gate_pending g) (gate_checked g), gate_pending := []\<rparr>"

definition resolve_read_actions :: "fact_gate \<Rightarrow> string \<Rightarrow> string list option" where
  "resolve_read_actions g tool = (case map_of (gate_registry g) tool of
      Some d \<Rightarrow> if tool_read_actions d \<noteq> [] then Some (tool_read_actions d) else map_of STRUCTURED_READ_ACTIONS tool
    | None \<Rightarrow> map_of STRUCTURED_READ_ACTIONS tool)"

definition resolve_write_path_args :: "fact_gate \<Rightarrow> string \<Rightarrow> string list" where
  "resolve_write_path_args g tool =
     (let builtin = (if tool \<in> {''edit_file'', ''write_file''} then [''path'', ''file_path''] else [])
      in case map_of (gate_registry g) tool of
           Some d \<Rightarrow> if tool_is_write d \<and> tool_path_args d \<noteq> [] then tool_path_args d else builtin
         | None \<Rightarrow> builtin)"

text \<open>
  \<^verbatim>\<open>_normalize_path\<close>; the bidirectional-control characters it drops lie outside the text model.
\<close>

definition expanduser :: "(string \<Rightarrow> string option) \<Rightarrow> string \<Rightarrow> string option" where
  "expanduser home_of s =
     (let t = path_text s; ps = path_parts s in
      if root_slashes s = [] \<and> ps \<noteq> [] \<and> starts_with ''~'' (hd ps)
      then map_option (\<lambda>h. path_text (join ''/'' (h # tl ps))) (home_of (hd ps))
      else Some t)"

definition normalize_path :: "(string \<Rightarrow> string option) \<Rightarrow> string \<Rightarrow> string option" where
  "normalize_path home_of raw = map_option normpath (expanduser home_of (filter (\<lambda>c. 32 \<le> code c) raw))"

text \<open>Challenge \<open>key\<close> unless an earlier round already did.\<close>

definition challenge :: "string \<Rightarrow> string \<Rightarrow> fact_gate \<Rightarrow> fact_gate_result \<times> fact_gate" where
  "challenge key text g =
     (if key \<in> set (gate_checked g) then (\<lparr>gate_challenged = False, gate_reason = []\<rparr>, g)
      else (\<lparr>gate_challenged = True, gate_reason = text\<rparr>, g\<lparr>gate_pending := List.insert key (gate_pending g)\<rparr>))"

definition pass :: fact_gate_result where
  "pass = \<lparr>gate_challenged = False, gate_reason = []\<rparr>"

text \<open>
  What \<^verbatim>\<open>evaluate\<close> decides about one call: nothing to force, a target with the challenge to
  show, or the \<^verbatim>\<open>RuntimeError\<close> of an unknown home directory.
\<close>

datatype target = NoTarget | Target string string | HomeUnknown

definition first_truthy :: "jdict \<Rightarrow> string list \<Rightarrow> json" where
  "first_truthy args names = (case filter (\<lambda>a. truthy (dget args a)) names of [] \<Rightarrow> JNull | a # _ \<Rightarrow> dget args a)"

definition target_of :: "(string \<Rightarrow> string option) \<Rightarrow> fact_gate \<Rightarrow> tool_call \<Rightarrow> target" where
  "target_of home_of g call =
     (let args = call_arguments call; tool = call_name call in
      if tool = ''shell'' then
        (let command = strip (str_or (dget args ''command'') []) in
         if command = [] \<or> is_read_only_shell command then NoTarget
         else Target (gate_scope g @ '':__state_changing_shell__'') (shell_challenge command))
      else if resolve_write_path_args g tool \<noteq> [] then
        (let raw = first_truthy args (resolve_write_path_args g tool) in
         if \<not> truthy raw then NoTarget
         else case normalize_path home_of (py_str raw) of
           None \<Rightarrow> HomeUnknown
         | Some path \<Rightarrow> Target (gate_scope g @ '':file:'' @ path) (file_challenge tool path))
      else case resolve_read_actions g tool of
        None \<Rightarrow> NoTarget
      | Some actions \<Rightarrow>
          (let action = lower (strip (str_or (dget args ''action'') [])) in
           if action \<in> set actions then NoTarget
           else Target (gate_scope g @ '':structured:'' @ tool) (structured_tool_challenge tool action)))"

definition evaluate_gate ::
  "(string \<Rightarrow> string option) \<Rightarrow> tool_call \<Rightarrow> fact_gate \<Rightarrow> fact_gate_result option \<times> fact_gate" where
  "evaluate_gate home_of call g =
     (if \<not> gate_enabled g then (Some pass, g)
      else case target_of home_of g call of
        NoTarget \<Rightarrow> (Some pass, g)
      | HomeUnknown \<Rightarrow> (None, g)
      | Target key text \<Rightarrow> (case challenge key text g of (r, g') \<Rightarrow> (Some r, g')))"

end
