(* ===== verification/Fact_Gate_Safety.thy ===== *)
theory Fact_Gate_Safety
  imports Fact_Gate
begin

text \<open>
  What the fact-forcing gate guarantees: the shape of the commands its classifier lets
  through, the two ways a state change gets past it, and when an operation passes the gate
  in the course of a turn.
\<close>

subsection \<open>What passes as read-only\<close>

lemma skip_assignments_Some:
  "skip_assignments tokens = Some rest \<Longrightarrow> \<exists>env. tokens = env @ rest \<and> list_all env_assignment env"
proof (induction tokens)
  case (Cons t ts)
  show ?case
  proof (cases "env_assignment t")
    case True
    then obtain env where "ts = env @ rest" "list_all env_assignment env"
      using Cons by (auto split: if_splits)
    then show ?thesis using True by (intro exI [of _ "t # env"]) simp
  qed (use Cons.prems in \<open>simp add: exI [of _ "[]"]\<close>)
qed simp

lemma read_only_command_name:
  "read_only_command command args \<Longrightarrow> command \<in> set (''git'' # ''find'' # ''sed'' # READ_ONLY_COMMANDS)"
  by (auto simp: read_only_command_def READ_ONLY_COMMANDS_def split: if_splits)

lemma segments_flat:
  "segments cur tokens = Some segs \<Longrightarrow>
     (\<forall>t \<in> set tokens. \<not> redirection_token t) \<and> (\<forall>seg \<in> set segs. seg \<noteq> []) \<and>
     concat segs = cur @ filter (\<lambda>t. t \<notin> set SHELL_OPERATORS) tokens"
proof (induction cur tokens arbitrary: segs rule: segments.induct)
  case (2 cur token rest)
  show ?case
  proof (cases "token \<in> set SHELL_OPERATORS")
    case True
    then obtain s where s: "segments [] rest = Some s" "segs = cur # s" "cur \<noteq> []" "\<not> redirection_token token"
      using 2(3) by (auto split: if_splits)
    have "(\<forall>t \<in> set rest. \<not> redirection_token t) \<and> (\<forall>seg \<in> set s. seg \<noteq> []) \<and>
       concat s = filter (\<lambda>t. t \<notin> set SHELL_OPERATORS) rest"
      using 2(1) [OF s(4) True s(3) s(1)] by simp
    then show ?thesis using s True by simp
  next
    case False
    then have s: "segments (cur @ [token]) rest = Some segs" "\<not> redirection_token token"
        "\<not> (token \<noteq> [] \<and> list_all punctuation token)"
      using 2(3) by (auto split: if_splits)
    show ?thesis using 2(2) [OF s(2) False s(3) s(1)] False s(2) by simp
  qed
qed (auto split: if_splits)

text \<open>
  A command classified as read-only contains no line break, command substitution or
  back quote, lexes without error and without any redirection, and consists of non-empty
  segments that together hold all its words; each segment is, after environment
  assignments, a program of the allowlist, named without a directory or in a trusted one.
\<close>

theorem read_only_shell_allowlisted:
  assumes "is_read_only_shell command"
  shows "CHR 0x0A \<notin> set command \<and> CHR 0x60 \<notin> set command \<and> \<not> contains ''$('' command
    \<and> (\<exists>tokens segs. shlex_split command = Some tokens
        \<and> (\<forall>t \<in> set tokens. \<not> redirection_token t)
        \<and> concat segs = filter (\<lambda>t. t \<notin> set SHELL_OPERATORS) tokens
        \<and> (\<forall>seg \<in> set segs. \<exists>env program args. seg = env @ program # args \<and> list_all env_assignment env
             \<and> path_name program \<in> set (''git'' # ''find'' # ''sed'' # READ_ONLY_COMMANDS)
             \<and> (CHR ''/'' \<in> set program \<longrightarrow> path_parent (path_text (normpath program)) \<in> set trusted_dirs)))"
proof -
  obtain tokens segs where t: "shlex_split command = Some tokens" "segments [] tokens = Some segs"
      "list_all is_read_only_segment segs"
    and c: "CHR 0x0A \<notin> set command" "CHR 0x60 \<notin> set command" "\<not> contains ''$('' command"
    using assms by (auto simp: is_read_only_shell_def split: if_splits option.splits)
  have "\<exists>env program args. seg = env @ program # args \<and> list_all env_assignment env
             \<and> path_name program \<in> set (''git'' # ''find'' # ''sed'' # READ_ONLY_COMMANDS)
             \<and> (CHR ''/'' \<in> set program \<longrightarrow> path_parent (path_text (normpath program)) \<in> set trusted_dirs)"
    if "seg \<in> set segs" for seg
  proof -
    have "is_read_only_segment seg" using t(3) that by (simp add: list_all_iff)
    then obtain program args where p: "skip_assignments seg = Some (program # args)" "trusted_spelling program"
        "read_only_command (path_name program) args"
      by (auto simp: is_read_only_segment_def split: option.splits list.splits)
    obtain env where "seg = env @ program # args" "list_all env_assignment env"
      using skip_assignments_Some [OF p(1)] by auto
    moreover have "CHR ''/'' \<in> set program \<longrightarrow> path_parent (path_text (normpath program)) \<in> set trusted_dirs"
      using p(2) by (auto simp: trusted_spelling_def Let_def split: if_splits)
    ultimately show ?thesis using read_only_command_name [OF p(3)] by blast
  qed
  then show ?thesis using t(1) c segments_flat [OF t(2)] by auto
qed

subsection \<open>Where the classifier lets a state change through\<close>

lemma lexer_ls_comment: "\<not> CHR 0x0A \<in> set rest \<Longrightarrow> shlex_split (''ls a#'' @ rest) = Some [''ls'', ''a'']"
proof -
  assume "\<not> CHR 0x0A \<in> set rest"
  then have "dropWhile (\<lambda>c. c \<noteq> CHR 0x0A) rest = []" by (auto simp: dropWhile_eq_Nil_conv)
  then have "skip_line rest = []" unfolding skip_line_def by (simp only: drop_Nil)
  then show ?thesis
    by (simp add: shlex_split_def shell_space_def quote_char_def punctuation_def code_def emit_token_def)
qed

text \<open>
  The lexer treats a number sign inside a word as a comment, which a shell does not: the
  rest of a command line behind it is never looked at, so any command that follows is
  classified as read-only.
\<close>

theorem word_comment_hides_command:
  assumes "CHR 0x0A \<notin> set rest" "CHR 0x0D \<notin> set rest" "CHR 0x60 \<notin> set rest" "\<not> contains ''$('' rest"
  shows "is_read_only_shell (''ls a#'' @ rest)"
proof -
  have "\<not> contains ''$('' (''ls a#'' @ rest)" using assms(4) by (simp add: starts_with_def)
  moreover have "is_read_only_segment [''ls'', ''a'']" by code_simp
  moreover have "segments [] [''ls'', ''a''] = Some [[''ls'', ''a'']]" by code_simp
  ultimately show ?thesis using assms lexer_ls_comment [OF assms(1)] by (simp add: is_read_only_shell_def)
qed

lemma word_comment_hides_command_witness: "is_read_only_shell ''ls a#; rm -rf x''"
  using word_comment_hides_command [of "''; rm -rf x''"] by (simp add: starts_with_def)

text \<open>
  The output check of \<^verbatim>\<open>sort\<close> looks at the start of each argument only: a cluster of short
  flags that ends in the output flag, such as \<open>-uo\<close>, is classified as read-only, although
  it overwrites the file that follows.
\<close>

theorem clustered_output_flag_passes:
  assumes "list_all (\<lambda>a. \<not> starts_with ''-'' a) paths"
  shows "is_read_only_segment (''sort'' # ''-uo'' # paths)"
proof -
  have "\<not> starts_with ''-o'' a \<and> \<not> starts_with ''--output='' a \<and> \<not> starts_with ''--compress-program='' a
      \<and> a \<noteq> ''-o'' \<and> a \<noteq> ''--output'' \<and> a \<noteq> ''--compress-program''" if "\<not> starts_with ''-'' a" for a
    using that by (cases a) (auto simp: starts_with_def)
  then have "list_ex (\<lambda>arg. arg = ''-o'' \<or> starts_with ''-o'' arg \<or> arg = ''--output'' \<or> starts_with ''--output='' arg
             \<or> arg = ''--compress-program'' \<or> starts_with ''--compress-program='' arg) paths = False"
    using assms by (auto simp: list_ex_iff list_all_iff)
  moreover have "\<not> env_assignment ''sort''" by code_simp
  ultimately show ?thesis
    by (simp add: is_read_only_segment_def trusted_spelling_def read_only_command_def path_name_def path_parts_def
      starts_with_def Let_def)
qed

lemma clustered_output_flag_passes_witness: "is_read_only_segment [''sort'', ''-uo'', ''out'', ''input'']"
  by (rule clustered_output_flag_passes) (simp add: starts_with_def)

lemma read_only_shell_allowlisted_witness:
  "is_read_only_shell ''ls -la | wc -l'' \<and> \<not> contains ''$('' ''ls -la | wc -l''"
proof
  show r: "is_read_only_shell ''ls -la | wc -l''" by code_simp
  show "\<not> contains ''$('' ''ls -la | wc -l''" using read_only_shell_allowlisted [OF r] by blast
qed

subsection \<open>The gate over a turn\<close>

datatype gate_event = Round | Attempt tool_call

definition gate_step :: "(string \<Rightarrow> string option) \<Rightarrow> fact_gate \<Rightarrow> gate_event \<Rightarrow> fact_gate" where
  "gate_step home_of g ev = (case ev of Round \<Rightarrow> begin_round g | Attempt c \<Rightarrow> snd (evaluate_gate home_of c g))"

lemma gate_step_simps:
  "gate_step home_of g Round = begin_round g"
  "gate_step home_of g (Attempt c) = snd (evaluate_gate home_of c g)"
  by (simp_all add: gate_step_def)

text \<open>The key an attempt is filed under depends on the gate's scope and registry only.\<close>

definition key_of :: "(string \<Rightarrow> string option) \<Rightarrow> fact_gate \<Rightarrow> tool_call \<Rightarrow> string option" where
  "key_of home_of g c = (case target_of home_of g c of Target key _ \<Rightarrow> Some key | _ \<Rightarrow> None)"

definition same_setup :: "fact_gate \<Rightarrow> fact_gate \<Rightarrow> bool" where
  "same_setup g g' \<longleftrightarrow> gate_enabled g' = gate_enabled g \<and> gate_scope g' = gate_scope g \<and> gate_registry g' = gate_registry g"

lemma target_of_same:
  assumes "same_setup g g'"
  shows "target_of home_of g' c = target_of home_of g c"
proof -
  have "gate_scope g' = gate_scope g" using assms by (simp add: same_setup_def)
  moreover have "resolve_write_path_args g' t = resolve_write_path_args g t"
    "resolve_read_actions g' t = resolve_read_actions g t" for t
    using assms by (simp_all add: same_setup_def resolve_write_path_args_def resolve_read_actions_def)
  ultimately show ?thesis by (simp only: target_of_def)
qed

lemma gate_step_setup: "same_setup g (gate_step home_of g ev)"
  by (auto simp: gate_step_def begin_round_def evaluate_gate_def challenge_def same_setup_def
    split: gate_event.splits target.splits)

text \<open>Attempts on \<open>key\<close> in an earlier round, and in the round under way.\<close>

definition attempted_before :: "(string \<Rightarrow> string option) \<Rightarrow> fact_gate \<Rightarrow> gate_event list \<Rightarrow> string \<Rightarrow> bool" where
  "attempted_before home_of g es key \<longleftrightarrow>
     (\<exists>a c b d. es = a @ [Attempt c] @ b @ [Round] @ d \<and> key_of home_of g c = Some key)"

definition attempted_now :: "(string \<Rightarrow> string option) \<Rightarrow> fact_gate \<Rightarrow> gate_event list \<Rightarrow> string \<Rightarrow> bool" where
  "attempted_now home_of g es key \<longleftrightarrow>
     (\<exists>a c b. es = a @ [Attempt c] @ b \<and> Round \<notin> set b \<and> key_of home_of g c = Some key)"

lemma attempted_before_snoc:
  "attempted_before home_of g (es @ [ev]) key \<longleftrightarrow>
     attempted_before home_of g es key \<or> (ev = Round \<and> (\<exists>c. Attempt c \<in> set es \<and> key_of home_of g c = Some key))"
proof
  assume "attempted_before home_of g (es @ [ev]) key"
  then obtain a c b d where s: "es @ [ev] = a @ [Attempt c] @ b @ [Round] @ d" "key_of home_of g c = Some key"
    by (auto simp: attempted_before_def)
  show "attempted_before home_of g es key \<or> (ev = Round \<and> (\<exists>c. Attempt c \<in> set es \<and> key_of home_of g c = Some key))"
  proof (cases d rule: rev_cases)
    case Nil
    then have "es @ [ev] = (a @ [Attempt c] @ b) @ [Round]" using s(1) by simp
    then have "es = a @ [Attempt c] @ b" "ev = Round" by (simp_all only: append1_eq_conv)
    then show ?thesis using s(2) by auto
  next
    case (snoc d' x)
    then have "es = a @ [Attempt c] @ b @ [Round] @ d'" using s(1) by simp
    then show ?thesis using s(2) by (auto simp: attempted_before_def)
  qed
next
  assume "attempted_before home_of g es key \<or> (ev = Round \<and> (\<exists>c. Attempt c \<in> set es \<and> key_of home_of g c = Some key))"
  then show "attempted_before home_of g (es @ [ev]) key"
  proof
    assume "attempted_before home_of g es key"
    then show ?thesis unfolding attempted_before_def by (metis append.assoc)
  next
    assume "ev = Round \<and> (\<exists>c. Attempt c \<in> set es \<and> key_of home_of g c = Some key)"
    then obtain c a b where "ev = Round" "es = a @ Attempt c # b" "key_of home_of g c = Some key"
      by (auto dest: split_list)
    then have "es @ [ev] = a @ [Attempt c] @ b @ [Round] @ [] \<and> key_of home_of g c = Some key" by simp
    then show ?thesis unfolding attempted_before_def by blast
  qed
qed

lemma attempt_cases:
  "(\<exists>c. Attempt c \<in> set es \<and> key_of home_of g c = Some key) \<longleftrightarrow>
     attempted_before home_of g es key \<or> attempted_now home_of g es key"
proof
  assume "\<exists>c. Attempt c \<in> set es \<and> key_of home_of g c = Some key"
  then obtain c a b where s: "es = a @ [Attempt c] @ b" "key_of home_of g c = Some key" by (auto dest: split_list)
  show "attempted_before home_of g es key \<or> attempted_now home_of g es key"
  proof (cases "Round \<in> set b")
    case True
    then obtain u v where "b = u @ Round # v" by (auto dest: split_list)
    then have "es = a @ [Attempt c] @ u @ [Round] @ v" using s by simp
    then show ?thesis using s(2) unfolding attempted_before_def by blast
  next
    case False
    then show ?thesis using s unfolding attempted_now_def by blast
  qed
qed (auto simp: attempted_before_def attempted_now_def)

lemma attempted_now_snoc:
  "attempted_now home_of g (es @ [ev]) key \<longleftrightarrow>
     (case ev of Round \<Rightarrow> False | Attempt c \<Rightarrow> key_of home_of g c = Some key \<or> attempted_now home_of g es key)"
proof -
  have "attempted_now home_of g (es @ [ev]) key \<longleftrightarrow>
    (\<exists>a c b. es @ [ev] = a @ [Attempt c] @ b \<and> Round \<notin> set b \<and> key_of home_of g c = Some key)"
    by (simp add: attempted_now_def)
  also have "\<dots> \<longleftrightarrow> (case ev of Round \<Rightarrow> False | Attempt c \<Rightarrow> key_of home_of g c = Some key \<or> attempted_now home_of g es key)"
  proof (cases ev)
    case Round
    have "Round \<in> set b" if "es @ [Round] = a @ [Attempt c] @ b" for a c b
      using that by (cases b rule: rev_cases) auto
    then show ?thesis using Round by auto
  next
    case (Attempt c0)
    have "(\<exists>a c b. es @ [Attempt c0] = a @ [Attempt c] @ b \<and> Round \<notin> set b \<and> key_of home_of g c = Some key)
      \<longleftrightarrow> key_of home_of g c0 = Some key \<or> attempted_now home_of g es key" (is "?L = ?R")
    proof
      assume ?L
      then obtain a c b where s: "es @ [Attempt c0] = a @ [Attempt c] @ b" "Round \<notin> set b" "key_of home_of g c = Some key"
        by blast
      then show ?R by (cases b rule: rev_cases) (auto simp: attempted_now_def)
    next
      assume ?R
      then show ?L
      proof
        assume "key_of home_of g c0 = Some key"
        then show ?L by (intro exI [of _ es] exI [of _ c0] exI [of _ "[]"]) simp
      next
        assume "attempted_now home_of g es key"
        then obtain a c b where "es = a @ [Attempt c] @ b" "Round \<notin> set b" "key_of home_of g c = Some key"
          by (auto simp: attempted_now_def)
        then show ?L by (intro exI [of _ a] exI [of _ c] exI [of _ "b @ [Attempt c0]"]) simp
      qed
    qed
    then show ?thesis using Attempt by simp
  qed
  finally show ?thesis .
qed

text \<open>The gate's two sets are exactly the attempts of earlier rounds and of this one.\<close>

lemma gate_sets:
  assumes "gate_enabled g0" "gate_checked g0 = []" "gate_pending g0 = []"
  shows "same_setup g0 (foldl (gate_step home_of) g0 es)
    \<and> set (gate_checked (foldl (gate_step home_of) g0 es)) = {key. attempted_before home_of g0 es key}
    \<and> set (gate_pending (foldl (gate_step home_of) g0 es))
        = {key. attempted_now home_of g0 es key \<and> \<not> attempted_before home_of g0 es key}"
proof (induction es rule: rev_induct)
  case Nil
  show ?case using assms by (simp add: same_setup_def attempted_before_def attempted_now_def)
next
  case (snoc ev es)
  let ?g = "foldl (gate_step home_of) g0 es"
  have same: "same_setup g0 (gate_step home_of ?g ev)"
    using snoc gate_step_setup [of ?g home_of ev] by (simp add: same_setup_def)
  show ?case
  proof (cases ev)
    case Round
    then show ?thesis
      using snoc same by (auto simp: gate_step_simps begin_round_def attempted_before_snoc attempted_now_snoc attempt_cases)
  next
    case (Attempt c)
    have "target_of home_of ?g c = target_of home_of g0 c" using snoc target_of_same by blast
    moreover have "gate_enabled ?g" using snoc assms by (simp add: same_setup_def)
    ultimately show ?thesis
      using snoc same Attempt
      by (auto simp: gate_step_simps evaluate_gate_def challenge_def attempted_before_snoc attempted_now_snoc key_of_def
        split: target.splits)
  qed
qed

text \<open>
  C10. The gate forces facts exactly once per target and turn: after any sequence of attempts
  and rounds, a state-changing operation on a target is challenged unless an operation on
  the same target was attempted in an earlier round of the turn; attempts of the same round
  never open the gate.
\<close>

theorem gate_passes_after_earlier_round:
  assumes "target_of home_of (FactGate session turn True registry) c = Target key text"
  shows "fst (evaluate_gate home_of c (foldl (gate_step home_of) (FactGate session turn True registry) es)) =
    Some (if attempted_before home_of (FactGate session turn True registry) es key
          then \<lparr>gate_challenged = False, gate_reason = []\<rparr> else \<lparr>gate_challenged = True, gate_reason = text\<rparr>)"
proof -
  let ?start = "FactGate session turn True registry"
  let ?g = "foldl (gate_step home_of) ?start es"
  have g: "same_setup ?start ?g" "set (gate_checked ?g) = {key. attempted_before home_of ?start es key}"
    using gate_sets [of ?start home_of es] by (simp_all add: FactGate_def)
  have "target_of home_of ?g c = Target key text" using target_of_same [OF g(1)] assms by simp
  moreover have "gate_enabled ?g" using g(1) by (simp add: same_setup_def FactGate_def)
  ultimately show ?thesis using g(2) by (simp add: evaluate_gate_def challenge_def)
qed

definition demo_write :: tool_call where
  "demo_write = \<lparr>call_id = ''c1'', call_name = ''write_file'', call_arguments = [(''path'', JStr ''/a/../b'')]\<rparr>"

lemma demo_write_target:
  "\<exists>text. target_of (\<lambda>_. None) (FactGate ''s'' ''t'' True []) demo_write = Target ''s:t:file:/b'' text"
  by (simp add: target_of_def demo_write_def FactGate_def resolve_write_path_args_def first_truthy_def dget_def
    normalize_path_def expanduser_def path_text_def path_parts_def root_slashes_def normpath_def push_component_def
    starts_with_def join_def code_def Let_def)

lemma gate_passes_after_earlier_round_witness:
  "\<exists>text. fst (evaluate_gate (\<lambda>_. None) demo_write (foldl (gate_step (\<lambda>_. None)) (FactGate ''s'' ''t'' True []) []))
      = Some \<lparr>gate_challenged = True, gate_reason = text\<rparr>"
proof -
  obtain msg where t: "target_of (\<lambda>_. None) (FactGate ''s'' ''t'' True []) demo_write = Target ''s:t:file:/b'' msg"
    using demo_write_target by blast
  have "\<not> attempted_before (\<lambda>_. None) (FactGate ''s'' ''t'' True []) [] ''s:t:file:/b''"
    by (simp add: attempted_before_def)
  then show ?thesis using gate_passes_after_earlier_round [OF t, of "[]"] by simp
qed

end
