(* ===== verification/Tool_Policy.thy ===== *)
theory Tool_Policy
  imports Fact_Gate
begin

text \<open>
  The policy chain of \<^verbatim>\<open>engine/safety/tool_policy.py\<close>: decisions, the adapters that turn the
  tool guard and the fact gate into checkers, and the gateway that runs a list of checkers.
  A checker is a function from a call and a state to a decision and a new state, so that the
  fact gate's bookkeeping is threaded through the chain; \<open>None\<close> as a decision is an
  exception the checker raises, which leaves the chain.
\<close>

record decision =
  allowed :: bool
  dec_reason :: string
  dec_level :: permission_level
  needs_confirmation :: bool
  approval_required :: bool
  challenged :: bool
  dec_scope :: "approval_scope option"
  dec_risk :: risk_tier

text \<open>The result of the tool guard, \<^verbatim>\<open>GuardResult\<close>.\<close>

record guard_result =
  guard_allowed :: bool
  guard_reason :: string
  guard_level :: permission_level
  guard_needs_confirmation :: bool
  guard_approval_required :: bool
  guard_boundary_block :: bool
  guard_scope :: "approval_scope option"
  guard_risk :: risk_tier

definition observation :: "decision \<Rightarrow> string" where
  "observation d =
     (if allowed d then []
      else if challenged d then ''[PREFLIGHT] '' @ dec_reason d
      else ''[BLOCKED] '' @ dec_reason d)"

type_synonym 's checker = "tool_call \<Rightarrow> 's \<Rightarrow> decision option \<times> 's"

definition guard_decision :: "guard_result \<Rightarrow> decision" where
  "guard_decision r =
     (if guard_approval_required r
      then \<lparr>allowed = False, dec_reason = guard_reason r, dec_level = guard_level r, needs_confirmation = True,
            approval_required = True, challenged = False, dec_scope = guard_scope r, dec_risk = guard_risk r\<rparr>
      else \<lparr>allowed = guard_allowed r, dec_reason = guard_reason r, dec_level = guard_level r,
            needs_confirmation = guard_needs_confirmation r, approval_required = False, challenged = False,
            dec_scope = guard_scope r, dec_risk = guard_risk r\<rparr>)"

text \<open>\<^verbatim>\<open>_ToolGuardAdapter\<close> over a guard, given as its \<^verbatim>\<open>check\<close> method.\<close>

definition guard_adapter :: "(tool_call \<Rightarrow> guard_result) \<Rightarrow> 's checker" where
  "guard_adapter check call s = (Some (guard_decision (check call)), s)"

definition ALLOW :: decision where
  "ALLOW = \<lparr>allowed = True, dec_reason = [], dec_level = READ, needs_confirmation = False,
     approval_required = False, challenged = False, dec_scope = None, dec_risk = ROUTINE\<rparr>"

definition gate_decision :: "fact_gate_result \<Rightarrow> decision" where
  "gate_decision r =
     (if gate_challenged r then ALLOW\<lparr>allowed := False, dec_reason := gate_reason r, challenged := True\<rparr> else ALLOW)"

definition fact_gate_adapter :: "(string \<Rightarrow> string option) \<Rightarrow> fact_gate checker" where
  "fact_gate_adapter home_of call g =
     (case evaluate_gate home_of call g of (r, g') \<Rightarrow> (map_option gate_decision r, g'))"

text \<open>
  \<^verbatim>\<open>ToolPolicy.evaluate\<close>: the level and risk seen so far, and the approval put off so far.
\<close>

definition raised_level :: "permission_level \<Rightarrow> decision \<Rightarrow> permission_level" where
  "raised_level level d = (if dec_level d \<noteq> READ then dec_level d else level)"

fun evaluate_chain ::
  "'s checker list \<Rightarrow> permission_level \<Rightarrow> risk_tier \<Rightarrow> decision option \<Rightarrow> tool_call \<Rightarrow> 's \<Rightarrow> decision option \<times> 's" where
  "evaluate_chain [] level risk deferred call s =
     (case deferred of
        Some d \<Rightarrow> (Some d, s)
      | None \<Rightarrow> (Some (ALLOW\<lparr>dec_level := level, dec_risk := risk\<rparr>), s))"
| "evaluate_chain (check # checks) level risk deferred call s =
     (case check call s of
        (None, s') \<Rightarrow> (None, s')
      | (Some d, s') \<Rightarrow>
          if \<not> allowed d then
            (if approval_required d then
               evaluate_chain checks level risk
                 (Some \<lparr>allowed = False, dec_reason = dec_reason d, dec_level = raised_level level d,
                   needs_confirmation = needs_confirmation d, approval_required = True, challenged = challenged d,
                   dec_scope = dec_scope d, dec_risk = risk_max [Some risk, Some (dec_risk d)]\<rparr>) call s'
             else
               (Some \<lparr>allowed = False, dec_reason = dec_reason d, dec_level = raised_level level d,
                  needs_confirmation = needs_confirmation d, approval_required = approval_required d,
                  challenged = challenged d, dec_scope = dec_scope d,
                  dec_risk = risk_max [Some risk, Some (dec_risk d)]\<rparr>, s'))
          else
            evaluate_chain checks
              (if LEVEL_ORDER (dec_level d) > LEVEL_ORDER level then dec_level d else level)
              (risk_max [Some risk, Some (dec_risk d)]) deferred call s')"

definition evaluate_policy :: "'s checker list \<Rightarrow> tool_call \<Rightarrow> 's \<Rightarrow> decision option \<times> 's" where
  "evaluate_policy checks call s = evaluate_chain checks READ ROUTINE None call s"

text \<open>The gateway built from a guard and a gate, each of which may be absent.\<close>

definition ToolPolicy ::
  "(string \<Rightarrow> string option) \<Rightarrow> (tool_call \<Rightarrow> guard_result) option \<Rightarrow> bool \<Rightarrow> fact_gate checker list \<Rightarrow> fact_gate checker list" where
  "ToolPolicy home_of guard with_gate checks =
     (case guard of None \<Rightarrow> [] | Some check \<Rightarrow> [guard_adapter check])
     @ (if with_gate then [fact_gate_adapter home_of] else [])
     @ checks"

subsection \<open>The contract of a checker\<close>

text \<open>
  What the chain relies on, and what it gives in turn: a decision that asks for approval or
  is a challenge blocks, and a decision is not both.
\<close>

definition coherent :: "decision \<Rightarrow> bool" where
  "coherent d \<longleftrightarrow> (approval_required d \<longrightarrow> \<not> allowed d \<and> needs_confirmation d) \<and> (challenged d \<longrightarrow> \<not> allowed d)
     \<and> \<not> (approval_required d \<and> challenged d)"

locale policy_checker =
  fixes check :: "'s checker"
  assumes check_coherent: "fst (check call s) = Some d \<Longrightarrow> coherent d"
begin

lemma approval_is_block:
  assumes "fst (check call s) = Some d" "approval_required d"
  shows "\<not> allowed d \<and> needs_confirmation d \<and> observation d = ''[BLOCKED] '' @ dec_reason d"
  using check_coherent [OF assms(1)] assms(2) by (auto simp: coherent_def observation_def)

lemma challenge_is_preflight:
  assumes "fst (check call s) = Some d" "challenged d"
  shows "\<not> approval_required d \<and> observation d = ''[PREFLIGHT] '' @ dec_reason d"
  using check_coherent [OF assms(1)] assms(2) by (auto simp: coherent_def observation_def)

end

interpretation guard_checker: policy_checker "guard_adapter check" for check :: "tool_call \<Rightarrow> guard_result"
  by unfold_locales (auto simp: guard_adapter_def guard_decision_def coherent_def)

interpretation gate_checker: policy_checker "fact_gate_adapter home_of" for home_of
  by unfold_locales (auto simp: fact_gate_adapter_def gate_decision_def coherent_def ALLOW_def split: prod.splits if_splits)

locale policy_chain =
  fixes checks :: "'s checker list"
  assumes checkers: "\<forall>check \<in> set checks. policy_checker check"

lemma evaluate_chain_coherent:
  "\<forall>check \<in> set checks. policy_checker check \<Longrightarrow> (\<forall>d. deferred = Some d \<longrightarrow> coherent d) \<Longrightarrow>
   fst (evaluate_chain checks level risk deferred call s) = Some d \<Longrightarrow> coherent d"
proof (induction checks level risk deferred call s rule: evaluate_chain.induct)
  case (1 level risk deferred call s)
  then show ?case by (auto simp: coherent_def ALLOW_def split: option.splits)
next
  case (2 check checks level risk deferred call s)
  obtain r s' where r: "check call s = (r, s')" by fastforce
  show ?case
  proof (cases r)
    case (Some c)
    have c: "coherent c" using "2.prems"(1) r Some policy_checker.check_coherent [of check call s c] by simp
    show ?thesis
    proof (cases "allowed c")
      case True
      then show ?thesis using 2 r Some by simp
    next
      case False
      show ?thesis
      proof (cases "approval_required c")
        case True
        then have "coherent \<lparr>allowed = False, dec_reason = dec_reason c, dec_level = raised_level level c,
          needs_confirmation = needs_confirmation c, approval_required = True, challenged = challenged c,
          dec_scope = dec_scope c, dec_risk = risk_max [Some risk, Some (dec_risk c)]\<rparr>"
          using c by (simp add: coherent_def)
        then show ?thesis using 2 r Some False True by simp
      next
        case na: False
        then show ?thesis using c "2.prems"(3) r Some False by (auto simp: coherent_def)
      qed
    qed
  qed (use "2.prems"(3) r in simp)
qed

sublocale policy_chain \<subseteq> gateway: policy_checker "evaluate_policy checks"
proof
  fix call s d
  assume "fst (evaluate_policy checks call s) = Some d"
  then show "coherent d" using evaluate_chain_coherent [OF checkers, of None] by (auto simp: evaluate_policy_def)
qed

interpretation standard_policy: policy_chain "ToolPolicy home_of guard with_gate []" for home_of guard with_gate
  by unfold_locales
    (auto simp: ToolPolicy_def guard_checker.policy_checker_axioms gate_checker.policy_checker_axioms split: option.splits)

subsection \<open>The gateway of a guard and a gate\<close>

lemma risk_max_ROUTINE [simp]: "risk_max [Some ROUTINE, Some r] = r"
  by (simp add: risk_max_two max_absorb2)

lemma risk_max_right [simp]: "risk_max [Some r, Some ROUTINE] = r"
  by (simp add: risk_max_two max_absorb1)

lemma LEVEL_ORDER_READ: "(if LEVEL_ORDER READ < LEVEL_ORDER l then l else READ) = l"
  by (cases l) simp_all

lemma LEVEL_ORDER_0 [simp]: "LEVEL_ORDER l = 0 \<longleftrightarrow> l = READ"
  by (cases l) simp_all

lemma raised_level_READ: "raised_level READ d = dec_level d"
  by (simp add: raised_level_def)

text \<open>
  C11. The gateway of a tool guard and a fact gate, on every branch.  A call the guard
  refuses outright is refused with the guard's reason and the gate is not consulted, so its
  state is untouched.  A call the gate challenges is challenged even when the guard asks for
  approval: facts come before the user is asked.  Otherwise the guard's approval request
  stands with its scope and risk, or the call is allowed at the guard's level and risk.
\<close>

theorem gateway_precedence:
  assumes "evaluate_gate home_of call g = (Some r, g')"
  shows "evaluate_policy (ToolPolicy home_of (Some check) True []) call g =
    (if \<not> guard_allowed (check call) \<and> \<not> guard_approval_required (check call)
     then (Some (guard_decision (check call)), g)
     else if gate_challenged r
     then (Some (ALLOW\<lparr>allowed := False, dec_reason := gate_reason r, challenged := True,
             dec_level := (if guard_approval_required (check call) then READ else guard_level (check call)),
             dec_risk := (if guard_approval_required (check call) then ROUTINE else guard_risk (check call))\<rparr>), g')
     else if guard_approval_required (check call)
     then (Some (guard_decision (check call)), g')
     else (Some (ALLOW\<lparr>dec_level := guard_level (check call), dec_risk := guard_risk (check call)\<rparr>), g'))"
  using assms
  by (auto simp: evaluate_policy_def ToolPolicy_def guard_adapter_def fact_gate_adapter_def guard_decision_def gate_decision_def
      raised_level_READ LEVEL_ORDER_READ ALLOW_def raised_level_def)

text \<open>A chain allows a call only if every checker of it did, and then at the highest risk any of them saw.\<close>

fun all_allow :: "'s checker list \<Rightarrow> tool_call \<Rightarrow> 's \<Rightarrow> decision list option" where
  "all_allow [] call s = Some []"
| "all_allow (check # checks) call s =
     (case check call s of
        (Some d, s') \<Rightarrow> if allowed d then map_option ((#) d) (all_allow checks call s') else None
      | (None, s') \<Rightarrow> None)"

lemma evaluate_chain_deferred:
  "\<not> allowed e \<Longrightarrow> fst (evaluate_chain checks level risk (Some e) call s) = Some d \<Longrightarrow> \<not> allowed d"
  by (induction checks level risk "Some e" call s arbitrary: e rule: evaluate_chain.induct)
    (auto split: prod.splits option.splits if_splits)

lemma evaluate_chain_allowed:
  "fst (evaluate_chain checks level risk None call s) = Some d \<and> allowed d \<longleftrightarrow>
     (\<exists>ds. all_allow checks call s = Some ds
        \<and> d = ALLOW\<lparr>dec_level := foldl max level (map dec_level ds), dec_risk := foldl max risk (map dec_risk ds)\<rparr>)"
proof (induction checks arbitrary: level risk s)
  case Nil
  then show ?case by (auto simp: ALLOW_def)
next
  case (Cons check checks)
  obtain r s' where r: "check call s = (r, s')" by fastforce
  show ?case
  proof (cases r)
    case (Some c)
    have m: "(if LEVEL_ORDER level < LEVEL_ORDER (dec_level c) then dec_level c else level) = max level (dec_level c)"
      by (auto simp: max_def less_eq_permission_level_def LEVEL_ORDER_inject)
    show ?thesis
    proof (cases "allowed c")
      case True
      have "evaluate_chain (check # checks) level risk None call s
          = evaluate_chain checks (max level (dec_level c)) (max risk (dec_risk c)) None call s'"
        using True r Some by (simp add: m risk_max_two)
      moreover have "all_allow (check # checks) call s = map_option ((#) c) (all_allow checks call s')"
        using True r Some by simp
      ultimately show ?thesis by (simp only: Cons.IH) (cases "all_allow checks call s'"; simp)
    next
      case False
      have "\<not> allowed d" if "fst (evaluate_chain (check # checks) level risk None call s) = Some d"
        using that r Some False
        by (cases "approval_required c") (auto dest: evaluate_chain_deferred [rotated])
      then show ?thesis using r Some False by auto
    qed
  qed (use r in simp)
qed

text \<open>
  A policy chain, whatever its checkers, allows a call exactly when every checker allowed
  it in turn, and the decision then carries the highest permission level and the most
  restrictive risk tier any of them reported.
\<close>

theorem policy_allows_iff_all_allow:
  "fst (evaluate_policy checks call s) = Some d \<and> allowed d \<longleftrightarrow>
     (\<exists>ds. all_allow checks call s = Some ds
        \<and> d = ALLOW\<lparr>dec_level := foldl max READ (map dec_level ds), dec_risk := foldl max ROUTINE (map dec_risk ds)\<rparr>)"
  unfolding evaluate_policy_def by (rule evaluate_chain_allowed)

text \<open>
  When two checkers of a chain ask for approval, only the second request survives: the
  scope and the risk tier of the first are dropped, so a critical request followed by an
  elevated one is presented, and may be cached, as elevated.
\<close>

theorem later_approval_replaces_earlier:
  assumes "first call s = (Some d1, s1)" "\<not> allowed d1" "approval_required d1"
    and "second call s1 = (Some d2, s2)" "\<not> allowed d2" "approval_required d2"
  shows "\<exists>d. evaluate_policy [first, second] call s = (Some d, s2) \<and> dec_risk d = dec_risk d2 \<and> dec_scope d = dec_scope d2"
  using assms by (simp add: evaluate_policy_def)

definition asks_approval :: "risk_tier \<Rightarrow> tool_call \<Rightarrow> guard_result" where
  "asks_approval risk call = \<lparr>guard_allowed = False, guard_reason = ''ask'', guard_level = EXECUTE,
     guard_needs_confirmation = True, guard_approval_required = True, guard_boundary_block = False,
     guard_scope = None, guard_risk = risk\<rparr>"

definition some_call :: tool_call where
  "some_call = \<lparr>call_id = ''c'', call_name = ''shell'', call_arguments = []\<rparr>"

lemma later_approval_replaces_earlier_witness:
  "\<exists>d. evaluate_policy [guard_adapter (asks_approval CRITICAL), guard_adapter (asks_approval ELEVATED)] some_call () = (Some d, ())
     \<and> dec_risk d = ELEVATED"
  using later_approval_replaces_earlier [of "guard_adapter (asks_approval CRITICAL)" some_call "()"
      "guard_decision (asks_approval CRITICAL some_call)" "()" "guard_adapter (asks_approval ELEVATED)"
      "guard_decision (asks_approval ELEVATED some_call)" "()"]
  by (auto simp: guard_adapter_def guard_decision_def asks_approval_def)

lemma gateway_precedence_witness:
  "evaluate_policy (ToolPolicy (\<lambda>_. None) (Some (asks_approval HIGH)) True []) some_call (FactGate ''s'' ''t'' True [])
    = (Some (guard_decision (asks_approval HIGH some_call)), FactGate ''s'' ''t'' True [])"
  using gateway_precedence [of "\<lambda>_. None" some_call "FactGate ''s'' ''t'' True []" pass "FactGate ''s'' ''t'' True []" "asks_approval HIGH"]
  by (simp add: evaluate_gate_def target_of_def some_call_def dget_def str_or_def py_eval FactGate_def pass_def asks_approval_def)


text \<open>
  Whatever guard and gate the gateway is built from, a decision that asks for approval
  blocks the call, asks for confirmation and is shown as a block, and a challenge is shown
  as a preflight and never asks the user.
\<close>

theorem gateway_decisions_coherent:
  assumes "fst (evaluate_policy (ToolPolicy home_of guard with_gate []) call g) = Some d"
  shows "(approval_required d \<longrightarrow> \<not> allowed d \<and> needs_confirmation d \<and> observation d = ''[BLOCKED] '' @ dec_reason d)
    \<and> (challenged d \<longrightarrow> \<not> approval_required d \<and> observation d = ''[PREFLIGHT] '' @ dec_reason d)"
  using standard_policy.gateway.approval_is_block [OF assms] standard_policy.gateway.challenge_is_preflight [OF assms]
  by blast

lemma gateway_decisions_coherent_witness:
  "observation (guard_decision (asks_approval HIGH some_call)) = ''[BLOCKED] ask''"
proof -
  have "fst (evaluate_policy (ToolPolicy (\<lambda>_. None) (Some (asks_approval HIGH)) False []) some_call (FactGate ''s'' ''t'' True []))
      = Some (guard_decision (asks_approval HIGH some_call))"
    by (simp add: evaluate_policy_def ToolPolicy_def guard_adapter_def guard_decision_def asks_approval_def raised_level_def)
  from gateway_decisions_coherent [OF this] show ?thesis by (simp add: guard_decision_def asks_approval_def)
qed

end
