(* ===== verification/Ledger.thy ===== *)
theory Ledger
  imports Approval
begin

text \<open>
  The persistent idempotency ledger of \<^verbatim>\<open>engine/tool/ledger.py\<close>: one SQLite table, shared by
  every process, with a row for each pair of a run and an idempotency key.  A table is the
  association list of its rows; the digest \<^verbatim>\<open>sha256\<close> is the parameter \<open>H\<close>; an argument
  \<open>ok\<close> says whether SQLite answered the transaction, which it otherwise rolls back and
  raises.
\<close>

text \<open>\<^verbatim>\<open>ToolResult\<close> of \<^verbatim>\<open>engine/tool/interface.py\<close>.\<close>

record tool_result =
  res_call_id :: string
  res_content :: string
  res_is_error :: bool
  res_error_kind :: "string option"
  res_retryable :: bool
  res_timed_out :: bool
  res_side_effect_status :: string
  res_metadata :: jdict

record ledger_decision =
  claimed :: bool
  dec_result :: "tool_result option"

record ledger_row =
  row_tool_name :: string
  row_call_id :: string
  row_status :: string
  row_content :: string
  row_is_error :: bool
  row_error_kind :: "string option"
  row_side_effect_status :: string
  row_created_at :: string
  row_updated_at :: string

type_synonym slot = "string \<times> string"
type_synonym ledger_table = "(slot, ledger_row) dict"

record tool_ledger =
  ledger_run_id :: string
  replay_existing :: bool
  call_keys :: "(string, string) dict"
  semantic_occurrences :: "(string, nat) dict"

datatype ledger_exc = DatabaseError

definition LEDGER_CONTENT_LIMIT :: nat where
  "LEDGER_CONTENT_LIMIT = 4096"

definition ledger_redacted_content :: "string \<Rightarrow> nat \<Rightarrow> string" where
  "ledger_redacted_content content limit =
     (let redacted = redact_secret_text content in
      if length redacted \<le> limit then redacted
      else take limit redacted @ [CHR 0x0A, CHR 0x0A] @ ''...('' @ show_nat (length redacted - limit)
             @ '' chars truncated in the tool ledger)'')"

definition ToolExecutionLedger :: "string \<Rightarrow> bool \<Rightarrow> tool_ledger" where
  "ToolExecutionLedger run_id replay =
     \<lparr>ledger_run_id = run_id, replay_existing = replay, call_keys = [], semantic_occurrences = []\<rparr>"

subsection \<open>Keys\<close>

definition semantic_key :: "(string \<Rightarrow> string) \<Rightarrow> string \<Rightarrow> jdict \<Rightarrow> string" where
  "semantic_key H tool_name arguments =
     H (canonical_json (JObj [(''tool'', JStr tool_name), (''arguments'', JObj arguments)]))"

text \<open>SQLite's \<^verbatim>\<open>LIKE\<close>: \<^verbatim>\<open>%\<close> and \<^verbatim>\<open>_\<close> are wildcards, ASCII letters compare without case.\<close>

definition ascii_fold :: "char \<Rightarrow> char" where
  "ascii_fold c = (if 65 \<le> code c \<and> code c \<le> 90 then char_of (code c + 32) else c)"

fun sql_like :: "string \<Rightarrow> string \<Rightarrow> bool" where
  "sql_like [] s = (s = [])"
| "sql_like (p # ps) [] = (p = CHR ''%'' \<and> sql_like ps [])"
| "sql_like (p # ps) (c # s) =
     (if p = CHR ''%'' then sql_like ps (c # s) \<or> sql_like (p # ps) s
      else (p = CHR ''_'' \<or> ascii_fold p = ascii_fold c) \<and> sql_like ps s)"

definition persisted_occurrences :: "string \<Rightarrow> string \<Rightarrow> ledger_table \<Rightarrow> nat" where
  "persisted_occurrences run_id semantic tbl =
     length (filter (\<lambda>((run, key), row). run = run_id \<and> sql_like (''semantic:'' @ semantic @ '':%'') key) tbl)"

definition idempotency_key_for ::
  "(string \<Rightarrow> string) \<Rightarrow> string \<Rightarrow> string \<Rightarrow> jdict \<Rightarrow> ledger_table \<Rightarrow> tool_ledger \<Rightarrow> string \<times> tool_ledger" where
  "idempotency_key_for H call_id tool_name arguments tbl lg =
     (case map_of (call_keys lg) call_id of
        Some existing \<Rightarrow> (existing, lg)
      | None \<Rightarrow>
          (let semantic = semantic_key H tool_name arguments;
               own = (case map_of (semantic_occurrences lg) semantic of None \<Rightarrow> 0 | Some n \<Rightarrow> n);
               prior = (if replay_existing lg then own
                        else max own (persisted_occurrences (ledger_run_id lg) semantic tbl));
               occurrence = prior + 1;
               key = ''semantic:'' @ semantic @ '':'' @ show_nat occurrence in
           (key, lg\<lparr>semantic_occurrences := dset semantic occurrence (semantic_occurrences lg),
                    call_keys := dset call_id key (call_keys lg)\<rparr>)))"

subsection \<open>Claiming and settling\<close>

text \<open>An \<^verbatim>\<open>UPDATE ... WHERE\<close>: the number of rows it changed, and the table.\<close>

definition sql_update ::
  "(slot \<Rightarrow> ledger_row \<Rightarrow> bool) \<Rightarrow> (ledger_row \<Rightarrow> ledger_row) \<Rightarrow> ledger_table \<Rightarrow> nat \<times> ledger_table" where
  "sql_update selects change tbl =
     (length (filter (\<lambda>(k, row). selects k row) tbl),
      map (\<lambda>(k, row). (k, if selects k row then change row else row)) tbl)"

definition CLAIMED :: ledger_decision where
  "CLAIMED = \<lparr>claimed = True, dec_result = None\<rparr>"

definition fresh_row :: "string \<Rightarrow> string \<Rightarrow> string \<Rightarrow> ledger_row" where
  "fresh_row tool_name call_id now =
     \<lparr>row_tool_name = tool_name, row_call_id = call_id, row_status = ''running'', row_content = [],
      row_is_error = False, row_error_kind = None, row_side_effect_status = ''unknown'',
      row_created_at = now, row_updated_at = now\<rparr>"

definition reclaimed_row :: "string \<Rightarrow> string \<Rightarrow> ledger_row \<Rightarrow> ledger_row" where
  "reclaimed_row call_id now row =
     row\<lparr>row_status := ''running'', row_call_id := call_id, row_content := [], row_is_error := False,
         row_error_kind := None, row_side_effect_status := ''unknown'', row_updated_at := now\<rparr>"

definition replayed_result :: "string \<Rightarrow> ledger_row \<Rightarrow> tool_result" where
  "replayed_result call_id row =
     \<lparr>res_call_id = call_id, res_content = row_content row, res_is_error = row_is_error row,
      res_error_kind = row_error_kind row, res_retryable = False, res_timed_out = False,
      res_side_effect_status = ''completed'', res_metadata = [(''replayed'', JBool True)]\<rparr>"

definition uncertain_result :: "string \<Rightarrow> string \<Rightarrow> ledger_row \<Rightarrow> tool_result" where
  "uncertain_result call_id tool_name row =
     \<lparr>res_call_id = call_id,
      res_content = ''Side effect status is uncertain; refusing to execute the tool again: '' @ tool_name,
      res_is_error = True, res_error_kind = Some ''side_effect_uncertain'', res_retryable = False,
      res_timed_out = False, res_side_effect_status = ''unknown'',
      res_metadata = [(''ledger_status'', JStr (row_status row)),
                      (''previous_error_kind'', jopt (row_error_kind row))]\<rparr>"

definition ledger_begin ::
  "bool \<Rightarrow> string \<Rightarrow> string \<Rightarrow> string \<Rightarrow> string \<Rightarrow> string \<Rightarrow> bool \<Rightarrow> ledger_table
    \<Rightarrow> (ledger_exc + ledger_decision) \<times> ledger_table" where
  "ledger_begin ok run_id now call_id tool_name idempotency_key idempotent tbl =
     (if \<not> ok then (Inl DatabaseError, tbl)
      else case map_of tbl (run_id, idempotency_key) of
        None \<Rightarrow> (Inr CLAIMED, dset (run_id, idempotency_key) (fresh_row tool_name call_id now) tbl)
      | Some row \<Rightarrow>
          (let (reclaimed, tbl') =
             (if row_status row = ''uncertain'' \<and> idempotent
              then sql_update (\<lambda>k r. k = (run_id, idempotency_key) \<and> row_status r = ''uncertain''
                                       \<and> row_call_id r = row_call_id row) (reclaimed_row call_id now) tbl
              else (0, tbl)) in
           if reclaimed \<noteq> 0 then (Inr CLAIMED, tbl')
           else if row_status row = ''completed''
             then (Inr \<lparr>claimed = False, dec_result = Some (replayed_result call_id row)\<rparr>, tbl')
           else (Inr \<lparr>claimed = False, dec_result = Some (uncertain_result call_id tool_name row)\<rparr>, tbl')))"

definition settled_row :: "string \<Rightarrow> string \<Rightarrow> tool_result \<Rightarrow> ledger_row \<Rightarrow> ledger_row" where
  "settled_row now call_id result row =
     row\<lparr>row_status := (if res_is_error result then ''uncertain'' else ''completed''), row_call_id := call_id,
         row_content := ledger_redacted_content (res_content result) LEDGER_CONTENT_LIMIT,
         row_is_error := res_is_error result, row_error_kind := res_error_kind result,
         row_side_effect_status := (if res_is_error result then ''unknown'' else ''completed''),
         row_updated_at := now\<rparr>"

definition ledger_finish ::
  "bool \<Rightarrow> string \<Rightarrow> string \<Rightarrow> string \<Rightarrow> string \<Rightarrow> tool_result \<Rightarrow> ledger_table \<Rightarrow> (ledger_exc + unit) \<times> ledger_table" where
  "ledger_finish ok run_id now call_id idempotency_key result tbl =
     (if \<not> ok then (Inl DatabaseError, tbl)
      else (Inr (), snd (sql_update (\<lambda>k r. k = (run_id, idempotency_key) \<and> row_status r = ''running''
                                         \<and> row_call_id r = call_id) (settled_row now call_id result) tbl)))"

end
