(* ===== verification/Ledger_Safety.thy ===== *)
theory Ledger_Safety
  imports Ledger
begin

text \<open>
  What the ledger guarantees to the tools it protects.  Every process that opens the table
  is a source of \<open>begin\<close> and \<open>finish\<close> transactions, so the table lives under an arbitrary
  sequence of them.  The abstract specification is a four-state automaton for each pair of
  a run and a key; the table refines one copy of it per pair.
\<close>

subsection \<open>Rows under the transactions\<close>

lemma map_of_sql_update [simp]:
  "map_of (snd (sql_update P f tbl)) k = map_option (\<lambda>row. if P k row then f row else row) (map_of tbl k)"
  by (induction tbl) (auto simp: sql_update_def)

lemma sql_update_hits:
  "map_of tbl k = Some row \<Longrightarrow> P k row \<Longrightarrow> fst (sql_update P f tbl) \<noteq> 0"
  by (auto simp: sql_update_def filter_empty_conv dest: map_of_SomeD)

text \<open>What \<open>begin\<close> answers and leaves, by the row it finds.\<close>

lemma begin_unclaimed:
  "map_of tbl (run, key) = None \<Longrightarrow>
   ledger_begin True run now c tool key idem tbl = (Inr CLAIMED, dset (run, key) (fresh_row tool c now) tbl)"
  by (simp add: ledger_begin_def)

lemma begin_reclaim:
  assumes "map_of tbl (run, key) = Some row" "row_status row = ''uncertain''"
  shows "fst (ledger_begin True run now c tool key True tbl) = Inr CLAIMED"
    and "map_of (snd (ledger_begin True run now c tool key True tbl)) k
           = (if k = (run, key) then Some (reclaimed_row c now row) else map_of tbl k)"
proof -
  let ?P = "\<lambda>k r. k = (run, key) \<and> row_status r = ''uncertain'' \<and> row_call_id r = row_call_id row"
  have "fst (sql_update ?P (reclaimed_row c now) tbl) \<noteq> 0"
    using assms by (intro sql_update_hits) auto
  then have eq: "ledger_begin True run now c tool key True tbl
      = (Inr CLAIMED, snd (sql_update ?P (reclaimed_row c now) tbl))"
    using assms by (simp add: ledger_begin_def case_prod_beta)
  then show "fst (ledger_begin True run now c tool key True tbl) = Inr CLAIMED"
    and "map_of (snd (ledger_begin True run now c tool key True tbl)) k
           = (if k = (run, key) then Some (reclaimed_row c now row) else map_of tbl k)"
    using assms by (auto simp: option.map_ident)
qed

lemma begin_refused:
  assumes "map_of tbl (run, key) = Some row" "row_status row \<noteq> ''uncertain'' \<or> \<not> idem"
  shows "ledger_begin True run now c tool key idem tbl =
    (Inr \<lparr>claimed = False, dec_result = Some (if row_status row = ''completed'' then replayed_result c row
                                              else uncertain_result c tool row)\<rparr>, tbl)"
  using assms by (auto simp: ledger_begin_def)

lemma finish_rows:
  "map_of (snd (ledger_finish ok run now c key result tbl)) k =
     (if ok \<and> k = (run, key) then map_option (\<lambda>row. if row_status row = ''running'' \<and> row_call_id row = c
                                               then settled_row now c result row else row) (map_of tbl k)
      else map_of tbl k)"
  by (cases "map_of tbl k") (auto simp: ledger_finish_def)

subsection \<open>The automaton of one pair\<close>

datatype slot_state = Unclaimed | Running string | Uncertain | Completed

datatype slot_act = Grant string bool | Settle string bool

fun act :: "slot_state \<Rightarrow> slot_act \<Rightarrow> slot_state option" where
  "act Unclaimed (Grant c idem) = Some (Running c)"
| "act Uncertain (Grant c idem) = (if idem then Some (Running c) else None)"
| "act (Running owner) (Settle c success) = (if c = owner then Some (if success then Completed else Uncertain) else None)"
| "act _ _ = None"

fun acts :: "slot_state \<Rightarrow> slot_act list \<Rightarrow> slot_state option" where
  "acts s [] = Some s"
| "acts s (a # as) = (case act s a of None \<Rightarrow> None | Some s' \<Rightarrow> acts s' as)"

lemma acts_snoc: "acts s (as @ [a]) = (case acts s as of None \<Rightarrow> None | Some s' \<Rightarrow> act s' a)"
  by (induction as arbitrary: s) (auto split: option.splits)

fun plain_grant :: "slot_act \<Rightarrow> bool" where
  "plain_grant (Grant c idem) = (\<not> idem)"
| "plain_grant _ = False"

text \<open>An operation that is not idempotent is granted at most once, and only as the first.\<close>

lemma acts_grants:
  "acts s as = Some s' \<Longrightarrow> length (filter plain_grant as) \<le> (if s = Unclaimed then 1 else 0)"
proof (induction as arbitrary: s)
  case Nil
  then show ?case by simp
next
  case (Cons a as)
  then obtain s1 where s1: "act s a = Some s1" "acts s1 as = Some s'"
    by (auto split: option.splits)
  from s1(1) have "s1 \<noteq> Unclaimed" by (cases "(s, a)" rule: act.cases) (auto split: if_splits)
  with Cons.IH [OF s1(2)] have "filter plain_grant as = []" by simp
  with s1(1) show ?case by (cases "(s, a)" rule: act.cases) (auto split: if_splits)
qed

text \<open>Nothing follows a completion.\<close>

lemma acts_Completed: "acts Completed as = Some s' \<longleftrightarrow> as = [] \<and> s' = Completed"
  by (cases as) auto

subsection \<open>The table under every interleaving\<close>

datatype ledger_event =
    LBegin bool string string string string string bool
  | LFinish bool string string string string tool_result

record ledger_world =
  rows :: ledger_table
  history :: "(slot \<times> slot_act) list"

definition ledger_step :: "ledger_world \<Rightarrow> ledger_event \<Rightarrow> ledger_world" where
  "ledger_step w e = (case e of
     LBegin ok run now c tool key idem \<Rightarrow>
       (let (answer, tbl) = ledger_begin ok run now c tool key idem (rows w) in
        \<lparr>rows = tbl, history = history w @ (if answer = Inr CLAIMED then [((run, key), Grant c idem)] else [])\<rparr>)
   | LFinish ok run now c key result \<Rightarrow>
       (let tbl = snd (ledger_finish ok run now c key result (rows w));
            owner = (case map_of (rows w) (run, key) of None \<Rightarrow> False
                     | Some row \<Rightarrow> row_status row = ''running'' \<and> row_call_id row = c) in
        \<lparr>rows = tbl, history = history w @ (if ok \<and> owner then [((run, key), Settle c (\<not> res_is_error result))] else [])\<rparr>))"

definition row_view :: "ledger_row option \<Rightarrow> slot_state" where
  "row_view row = (case row of None \<Rightarrow> Unclaimed
     | Some r \<Rightarrow> if row_status r = ''running'' then Running (row_call_id r)
                 else if row_status r = ''completed'' then Completed else Uncertain)"

definition slot_history :: "slot \<Rightarrow> (slot \<times> slot_act) list \<Rightarrow> slot_act list" where
  "slot_history k h = map snd (filter (\<lambda>(k', a). k' = k) h)"

definition ledger_ok :: "ledger_world \<Rightarrow> bool" where
  "ledger_ok w \<longleftrightarrow>
     (\<forall>k. acts Unclaimed (slot_history k (history w)) = Some (row_view (map_of (rows w) k))) \<and>
     (\<forall>k row. map_of (rows w) k = Some row \<longrightarrow> row_status row \<in> {''running'', ''completed'', ''uncertain''})"

definition empty_ledger :: ledger_world where
  "empty_ledger = \<lparr>rows = [], history = []\<rparr>"

lemma slot_history_simps [simp]:
  "slot_history k [] = []"
  "slot_history k (h @ [(k', a)]) = slot_history k h @ (if k' = k then [a] else [])"
  by (simp_all add: slot_history_def)

lemma row_view_simps [simp]:
  "row_view None = Unclaimed"
  "row_view (Some (fresh_row tool c now)) = Running c"
  "row_view (Some (reclaimed_row c now row)) = Running c"
  "row_view (Some (settled_row now c result row)) = (if res_is_error result then Uncertain else Completed)"
  by (simp_all add: row_view_def fresh_row_def reclaimed_row_def settled_row_def)

lemma row_status_simps [simp]:
  "row_status (fresh_row tool c now) = ''running''"
  "row_status (reclaimed_row c now row) = ''running''"
  "row_status (settled_row now c result row) = (if res_is_error result then ''uncertain'' else ''completed'')"
  by (simp_all add: fresh_row_def reclaimed_row_def settled_row_def)

lemma CLAIMED_neq [simp]: "\<lparr>claimed = False, dec_result = r\<rparr> \<noteq> CLAIMED" "CLAIMED \<noteq> \<lparr>claimed = False, dec_result = r\<rparr>"
  by (simp_all add: CLAIMED_def)

lemma ledger_ok_word:
  "ledger_ok w \<Longrightarrow> acts Unclaimed (slot_history k (history w)) = Some (row_view (map_of (rows w) k))"
  unfolding ledger_ok_def by blast

lemma ledger_ok_status:
  "ledger_ok w \<Longrightarrow> map_of (rows w) k = Some row \<Longrightarrow> row_status row \<in> {''running'', ''completed'', ''uncertain''}"
  unfolding ledger_ok_def by blast

text \<open>One step changes at most the row of its own pair, as the automaton says.\<close>

lemma ledger_okI:
  assumes ok: "ledger_ok w"
    and same: "\<And>k'. k' \<noteq> k \<Longrightarrow> map_of (rows w') k' = map_of (rows w) k'"
    and row: "map_of (rows w') k = Some row" "row_status row \<in> {''running'', ''completed'', ''uncertain''}"
    and hist: "history w' = history w @ [(k, a)]"
    and act: "act (row_view (map_of (rows w) k)) a = Some (row_view (Some row))"
  shows "ledger_ok w'"
  unfolding ledger_ok_def
proof (intro conjI allI impI)
  fix k'
  show "acts Unclaimed (slot_history k' (history w')) = Some (row_view (map_of (rows w') k'))"
  proof (cases "k' = k")
    case True
    then show ?thesis by (simp add: hist row act acts_snoc ledger_ok_word [OF ok])
  next
    case False
    then show ?thesis by (simp add: hist same ledger_ok_word [OF ok])
  qed
  fix r assume r: "map_of (rows w') k' = Some r"
  show "row_status r \<in> {''running'', ''completed'', ''uncertain''}"
  proof (cases "k' = k")
    case True
    with r row show ?thesis by simp
  next
    case False
    with r same have "map_of (rows w) k' = Some r" by metis
    then show ?thesis by (rule ledger_ok_status [OF ok])
  qed
qed

lemma ledger_ok_same: "ledger_ok w \<Longrightarrow> map_of (rows w') = map_of (rows w) \<Longrightarrow> history w' = history w \<Longrightarrow> ledger_ok w'"
  by (simp add: ledger_ok_def)

lemma ledger_ok_begin:
  assumes ok: "ledger_ok w"
  shows "ledger_ok (ledger_step w (LBegin True run now c tool key idem))"
proof (cases "map_of (rows w) (run, key)")
  case None
  then show ?thesis
    by (intro ledger_okI [OF ok, where k = "(run, key)" and a = "Grant c idem" and row = "fresh_row tool c now"])
      (simp_all add: ledger_step_def begin_unclaimed)
next
  case (Some row)
  show ?thesis
  proof (cases "row_status row = ''uncertain'' \<and> idem")
    case True
    note r = begin_reclaim [OF Some, of now c tool]
    from True show ?thesis
      by (intro ledger_okI [OF ok, where k = "(run, key)" and a = "Grant c idem" and row = "reclaimed_row c now row"])
        (auto simp add: ledger_step_def case_prod_beta r Some row_view_def reclaimed_row_def)
  next
    case False
    then show ?thesis
      by (intro ledger_ok_same [OF ok]) (simp_all add: ledger_step_def begin_refused [OF Some])
  qed
qed

lemma ledger_ok_finish:
  assumes ok: "ledger_ok w"
  shows "ledger_ok (ledger_step w (LFinish True run now c key result))"
proof (cases "\<exists>row. map_of (rows w) (run, key) = Some row \<and> row_status row = ''running'' \<and> row_call_id row = c")
  case True
  then obtain row where row: "map_of (rows w) (run, key) = Some row" "row_status row = ''running''" "row_call_id row = c"
    by blast
  then show ?thesis
    by (intro ledger_okI [OF ok, where k = "(run, key)" and a = "Settle c (\<not> res_is_error result)"
          and row = "settled_row now c result row"])
      (simp_all add: ledger_step_def finish_rows, simp add: row_view_def)
next
  case False
  then show ?thesis
    by (intro ledger_ok_same [OF ok])
      (cases "map_of (rows w) (run, key)"; auto simp: ledger_step_def finish_rows fun_eq_iff)+
qed

interpretation ledger_worlds: step_system ledger_step "\<lambda>_. True" ledger_ok
proof
  fix w e
  assume ok: "ledger_ok w"
  show "ledger_ok (ledger_step w e)"
  proof (cases e)
    case (LBegin db run now c tool key idem)
    with ok show ?thesis
      using ledger_ok_begin [OF ok] ledger_ok_same [OF ok]
      by (cases db) (simp_all add: ledger_step_def ledger_begin_def)
  next
    case (LFinish db run now c key result)
    with ok show ?thesis
      using ledger_ok_finish [OF ok] ledger_ok_same [OF ok]
      by (cases db) (simp_all add: ledger_step_def ledger_finish_def)
  qed
qed

lemma ledger_ok_empty: "ledger_ok empty_ledger"
  by (simp add: ledger_ok_def empty_ledger_def)

text \<open>
  C12. The ledger refines the four-state automaton for each pair of a run and a key: under any
  sequence of \<open>begin\<close> and \<open>finish\<close> transactions of any number of processes, starting
  from the empty table, the claims granted and the results settled for the pair form a word of
  the automaton that ends in the state the row shows.  A claim is never granted while another
  is open or after a completion, only the owner settles, and an operation that is not
  idempotent is granted at most once.
\<close>

theorem ledger_refines_automaton:
  "acts Unclaimed (slot_history k (history (foldl ledger_step empty_ledger es)))
     = Some (row_view (map_of (rows (foldl ledger_step empty_ledger es)) k)) \<and>
   length (filter plain_grant (slot_history k (history (foldl ledger_step empty_ledger es)))) \<le> 1"
proof -
  have "ledger_ok (foldl ledger_step empty_ledger es)"
    by (rule ledger_worlds.run_inv [OF ledger_ok_empty]) simp
  then have word: "acts Unclaimed (slot_history k (history (foldl ledger_step empty_ledger es)))
      = Some (row_view (map_of (rows (foldl ledger_step empty_ledger es)) k))"
    by (rule ledger_ok_word)
  from word acts_grants [OF word] show ?thesis by simp
qed

subsection \<open>A completed operation is replayed\<close>

fun settles :: "string \<Rightarrow> string \<Rightarrow> string \<Rightarrow> ledger_event \<Rightarrow> bool" where
  "settles run key c (LFinish ok run' now c' key' result) = (run' = run \<and> key' = key \<and> c' = c)"
| "settles run key c (LBegin ok run' now c' tool key' idem) = False"

lemma begin_row_kept:
  "map_of tbl k = Some row \<Longrightarrow> row_status row \<noteq> ''uncertain'' \<Longrightarrow>
   map_of (snd (ledger_begin ok run now c tool key idem tbl)) k = Some row"
  by (cases "k = (run, key)") (auto simp: ledger_begin_def Let_def case_prod_beta split: option.splits if_splits)

lemma row_kept:
  assumes "map_of (rows w) (run, key) = Some row"
    and "row_status row = ''completed'' \<or> (row_status row = ''running'' \<and> \<not> settles run key (row_call_id row) e)"
  shows "map_of (rows (ledger_step w e)) (run, key) = Some row"
  using assms begin_row_kept [OF assms(1)]
  by (cases e) (auto simp: ledger_step_def case_prod_beta finish_rows)

lemma row_kept_run:
  assumes "map_of (rows w) (run, key) = Some row"
    and "row_status row = ''completed'' \<or>
         (row_status row = ''running'' \<and> (\<forall>e \<in> set es. \<not> settles run key (row_call_id row) e))"
  shows "map_of (rows (foldl ledger_step w es)) (run, key) = Some row"
  using assms
proof (induction es arbitrary: w)
  case (Cons e es)
  then have "map_of (rows (ledger_step w e)) (run, key) = Some row"
    by (intro row_kept) auto
  with Cons show ?case by auto
qed simp

text \<open>A granted claim leaves a running row that the claiming call owns.\<close>

lemma begin_claimed_row:
  assumes "fst (ledger_begin True run now c tool key idem tbl) = Inr CLAIMED"
  obtains row where "map_of (snd (ledger_begin True run now c tool key idem tbl)) (run, key) = Some row"
    and "row_status row = ''running''" "row_call_id row = c"
proof (cases "map_of tbl (run, key)")
  case None
  then show ?thesis using that by (simp add: begin_unclaimed fresh_row_def)
next
  case (Some row)
  show ?thesis
  proof (cases "row_status row = ''uncertain'' \<and> idem")
    case True
    with begin_reclaim(2) [OF Some, of now c tool "(run, key)"] that show ?thesis
      by (simp add: reclaimed_row_def)
  next
    case False
    with assms begin_refused [OF Some, of idem now c tool] show ?thesis by auto
  qed
qed

text \<open>
  C13. A side effect that completed is never executed again: once the call that was granted
  the claim has settled it with a result that is not an error, whatever transactions ran
  before the settlement (other than the owner's own) and after it, every later \<open>begin\<close> for
  the same run and key, of any call and whether or not the tool is idempotent, is refused the
  claim and answered with the recorded outcome, the output redacted and cut to the ledger's
  limit.
\<close>

theorem completed_effect_replayed:
  assumes claim: "fst (ledger_begin True run now c tool key idem (rows w)) = Inr CLAIMED"
    and before: "\<forall>e \<in> set es1. \<not> settles run key c e"
    and success: "\<not> res_is_error result"
    and final: "tbl = rows (foldl ledger_step w
      (LBegin True run now c tool key idem # es1 @ LFinish True run now' c key result # es2))"
  shows "ledger_begin True run now'' c' tool' key idem' tbl =
    (Inr \<lparr>claimed = False, dec_result = Some
       \<lparr>res_call_id = c', res_content = ledger_redacted_content (res_content result) LEDGER_CONTENT_LIMIT,
        res_is_error = False, res_error_kind = res_error_kind result, res_retryable = False, res_timed_out = False,
        res_side_effect_status = ''completed'', res_metadata = [(''replayed'', JBool True)]\<rparr>\<rparr>, tbl)"
proof -
  define w1 where "w1 = ledger_step w (LBegin True run now c tool key idem)"
  define w2 where "w2 = foldl ledger_step w1 es1"
  define w3 where "w3 = ledger_step w2 (LFinish True run now' c key result)"
  obtain row where row: "map_of (rows w1) (run, key) = Some row" "row_status row = ''running''" "row_call_id row = c"
    using begin_claimed_row [OF claim] by (auto simp: w1_def ledger_step_def case_prod_beta)
  then have "map_of (rows w2) (run, key) = Some row"
    unfolding w2_def using before by (intro row_kept_run) auto
  with row have done3: "map_of (rows w3) (run, key) = Some (settled_row now' c result row)"
    by (simp add: w3_def ledger_step_def finish_rows)
  have tbl: "tbl = rows (foldl ledger_step w3 es2)"
    by (simp add: final w1_def w2_def w3_def)
  with done3 success have "map_of tbl (run, key) = Some (settled_row now' c result row)"
    by (simp add: row_kept_run)
  from begin_refused [OF this] success show ?thesis
    by (simp add: replayed_result_def settled_row_def)
qed

subsection \<open>A resumed run finds its keys again\<close>

text \<open>
  One logical call of a run: its call id, tool and arguments, then how SQLite answers its
  \<open>begin\<close>, the time, whether the tool is idempotent, and the transactions that follow until
  the next call.
\<close>

type_synonym logical_call = "string \<times> string \<times> jdict \<times> bool \<times> string \<times> bool \<times> ledger_event list"

fun issue_keys :: "(string \<Rightarrow> string) \<Rightarrow> logical_call list \<Rightarrow> tool_ledger \<Rightarrow> ledger_world \<Rightarrow> string list" where
  "issue_keys H [] lg w = []"
| "issue_keys H ((c, tool, args, ok, now, idem, later) # calls) lg w =
     (let (key, lg') = idempotency_key_for H c tool args (rows w) lg in
      key # issue_keys H calls lg' (foldl ledger_step w (LBegin ok (ledger_run_id lg) now c tool key idem # later)))"

definition later_events :: "logical_call \<Rightarrow> ledger_event list" where
  "later_events = (\<lambda>(c, tool, args, ok, now, idem, later). later)"

lemma later_events_call [simp]: "later_events (c, tool, args, ok, now, idem, later) = later"
  by (simp add: later_events_def)

text \<open>The reference: the n-th call with the same meaning gets the number n.\<close>

definition occurrence_key :: "string \<Rightarrow> nat \<Rightarrow> string" where
  "occurrence_key semantic n = ''semantic:'' @ semantic @ '':'' @ show_nat n"

fun occurrence_keys :: "string list \<Rightarrow> string list \<Rightarrow> string list" where
  "occurrence_keys seen [] = []"
| "occurrence_keys seen (s # ss) = occurrence_key s (count_list seen s + 1) # occurrence_keys (seen @ [s]) ss"

definition call_meaning :: "(string \<Rightarrow> string) \<Rightarrow> logical_call \<Rightarrow> string" where
  "call_meaning H = (\<lambda>(c, tool, args, rest). semantic_key H tool args)"

definition no_wildcard :: "string \<Rightarrow> bool" where
  "no_wildcard p \<longleftrightarrow> CHR ''%'' \<notin> set p \<and> CHR ''_'' \<notin> set p"

lemma sql_like_plain:
  "no_wildcard p \<Longrightarrow> sql_like (p @ q) s \<Longrightarrow> map ascii_fold (take (length p) s) = map ascii_fold p"
proof (induction p arbitrary: s)
  case (Cons c p)
  then show ?case by (cases s) (auto simp: no_wildcard_def)
qed simp

definition hex_digest :: "string \<Rightarrow> bool" where
  "hex_digest d \<longleftrightarrow> length d = 64 \<and> set d \<subseteq> set ''0123456789abcdef''"

lemma ascii_fold_hex: "set d \<subseteq> set ''0123456789abcdef'' \<Longrightarrow> map ascii_fold d = d"
  by (induction d) (auto simp: ascii_fold_def py_eval)

lemma hex_no_wildcard: "set d \<subseteq> set ''0123456789abcdef'' \<Longrightarrow> no_wildcard (''semantic:'' @ d)"
  by (auto simp: no_wildcard_def)

lemma sql_like_same_digest:
  assumes hex: "hex_digest d" "hex_digest d'"
    and "sql_like (''semantic:'' @ d @ '':%'') (occurrence_key d' n)"
  shows "d = d'"
proof -
  have "map ascii_fold (take (length (''semantic:'' @ d)) (occurrence_key d' n)) = map ascii_fold (''semantic:'' @ d)"
    using assms by (intro sql_like_plain [where q = "'':%''"] hex_no_wildcard) (simp_all add: hex_digest_def)
  then have "map ascii_fold d' = map ascii_fold d"
    using hex by (simp add: occurrence_key_def hex_digest_def)
  with hex show ?thesis by (simp add: ascii_fold_hex hex_digest_def)
qed

lemma persisted_keys:
  "persisted_occurrences run s tbl =
     length (filter (\<lambda>(run', key). run' = run \<and> sql_like (''semantic:'' @ s @ '':%'') key) (map fst tbl))"
  by (induction tbl) (auto simp: persisted_occurrences_def)

lemma map_fst_sql_update [simp]: "map fst (snd (sql_update P f tbl)) = map fst tbl"
  by (induction tbl) (auto simp: sql_update_def)

lemma begin_keys:
  "map fst (snd (ledger_begin ok run now c tool key idem tbl)) = map fst tbl \<or>
   map fst (snd (ledger_begin ok run now c tool key idem tbl)) = map fst tbl @ [(run, key)]"
  by (auto simp: ledger_begin_def Let_def case_prod_beta update_keys split: option.splits)

lemma finish_keys: "map fst (snd (ledger_finish ok run now c key result tbl)) = map fst tbl"
  by (simp add: ledger_finish_def)

text \<open>A transaction raises the count of a run by one at most, and only with a matching key.\<close>

lemma persisted_begin:
  "persisted_occurrences run s (snd (ledger_begin ok run' now c tool key idem tbl)) \<le>
     persisted_occurrences run s tbl + (if run' = run \<and> sql_like (''semantic:'' @ s @ '':%'') key then 1 else 0)"
  using begin_keys [of ok run' now c tool key idem tbl]
  unfolding persisted_keys by (elim disjE) (simp_all only: filter_append length_append filter.simps, simp_all)

fun foreign :: "string \<Rightarrow> ledger_event \<Rightarrow> bool" where
  "foreign run (LBegin ok run' now c tool key idem) = (run' \<noteq> run)"
| "foreign run (LFinish ok run' now c key result) = True"

lemma persisted_foreign:
  "foreign run e \<Longrightarrow> persisted_occurrences run s (rows (ledger_step w e)) \<le> persisted_occurrences run s (rows w)"
proof (cases e)
  case (LBegin ok run' now c tool key idem)
  assume "foreign run e"
  with LBegin persisted_begin [of run s ok run' now c tool key idem "rows w"] show ?thesis
    by (simp add: ledger_step_def case_prod_beta)
next
  case (LFinish ok run' now c key result)
  then show ?thesis by (simp add: ledger_step_def persisted_keys finish_keys)
qed

lemma persisted_foreign_run:
  "\<forall>e \<in> set es. foreign run e \<Longrightarrow>
   persisted_occurrences run s (rows (foldl ledger_step w es)) \<le> persisted_occurrences run s (rows w)"
proof (induction es arbitrary: w)
  case (Cons e es)
  then show ?case using persisted_foreign [of run e s w] by (fastforce intro: le_trans)
qed simp

definition own_occurrences :: "tool_ledger \<Rightarrow> string \<Rightarrow> nat" where
  "own_occurrences lg s = (case map_of (semantic_occurrences lg) s of None \<Rightarrow> 0 | Some n \<Rightarrow> n)"

text \<open>
  The key of the next call, when the persisted count does not run ahead of the ledger's own.
\<close>

lemma key_for_next:
  assumes "map_of (call_keys lg) c = None"
    and "own_occurrences lg (semantic_key H tool args) = n"
    and "replay_existing lg \<or> persisted_occurrences (ledger_run_id lg) (semantic_key H tool args) tbl \<le> n"
  obtains lg' where "idempotency_key_for H c tool args tbl lg = (occurrence_key (semantic_key H tool args) (n + 1), lg')"
    and "ledger_run_id lg' = ledger_run_id lg" "replay_existing lg' = replay_existing lg"
    and "map_of (call_keys lg') = (map_of (call_keys lg))(c \<mapsto> occurrence_key (semantic_key H tool args) (n + 1))"
    and "own_occurrences lg' = (own_occurrences lg)(semantic_key H tool args := n + 1)"
  using assms that
  by (auto simp: idempotency_key_for_def own_occurrences_def occurrence_key_def Let_def fun_eq_iff max_def)

text \<open>The persisted count stays behind when the next key is claimed.\<close>

lemma persisted_next:
  assumes hex: "\<And>x. hex_digest (H x)" "hex_digest s" and later: "\<forall>e \<in> set later. foreign run e"
    and old: "persisted_occurrences run (H x) (rows w) \<le> count_list seen (H x)"
  shows "persisted_occurrences run (H x) (rows (foldl ledger_step w
      (LBegin db run now c tool (occurrence_key s (count_list seen s + 1)) idem # later))) \<le> count_list (seen @ [s]) (H x)"
proof -
  let ?key = "occurrence_key s (count_list seen s + 1)"
  let ?w = "ledger_step w (LBegin db run now c tool ?key idem)"
  have "persisted_occurrences run (H x) (rows (foldl ledger_step ?w later)) \<le> persisted_occurrences run (H x) (rows ?w)"
    by (rule persisted_foreign_run [OF later])
  also have "\<dots> \<le> persisted_occurrences run (H x) (rows w) + (if sql_like (''semantic:'' @ H x @ '':%'') ?key then 1 else 0)"
    using persisted_begin [of run "H x" db run now c tool ?key idem "rows w"]
    by (simp add: ledger_step_def case_prod_beta)
  also have "\<dots> \<le> count_list (seen @ [s]) (H x)"
    using old sql_like_same_digest [OF hex(1) hex(2)]
    by (cases "sql_like (''semantic:'' @ H x @ '':%'') ?key") auto
  finally show ?thesis by simp
qed

lemma issue_keys_occurrences:
  assumes "ledger_run_id lg = run"
    and "distinct (map fst calls)" "\<forall>c \<in> set (map fst calls). map_of (call_keys lg) c = None"
    and "\<forall>s. own_occurrences lg s = count_list seen s"
    and "replay_existing lg \<or>
      ((\<forall>x. hex_digest (H x)) \<and> (\<forall>call \<in> set calls. \<forall>e \<in> set (later_events call). foreign run e) \<and>
       (\<forall>x. persisted_occurrences run (H x) (rows w) \<le> count_list seen (H x)))"
  shows "issue_keys H calls lg w = occurrence_keys seen (map (call_meaning H) calls)"
  using assms
proof (induction calls arbitrary: lg w seen)
  case (Cons call calls)
  obtain c tool args ok now idem later where call: "call = (c, tool, args, ok, now, idem, later)"
    by (metis prod_cases7)
  define s where "s = semantic_key H tool args"
  define key where "key = occurrence_key s (count_list seen s + 1)"
  define w' where "w' = foldl ledger_step w (LBegin ok run now c tool key idem # later)"
  have s: "s = H (canonical_json (JObj [(''tool'', JStr tool), (''arguments'', JObj args)]))"
    by (simp add: s_def semantic_key_def)
  have fresh: "map_of (call_keys lg) c = None" and own: "own_occurrences lg (semantic_key H tool args) = count_list seen s"
    using Cons.prems(3,4) by (simp_all add: call s_def)
  have behind: "replay_existing lg \<or> persisted_occurrences (ledger_run_id lg) (semantic_key H tool args) (rows w) \<le> count_list seen s"
    using Cons.prems(1,5) by (auto simp: s semantic_key_def)
  obtain lg' where key_for: "idempotency_key_for H c tool args (rows w) lg = (key, lg')"
    and lg': "ledger_run_id lg' = ledger_run_id lg" "replay_existing lg' = replay_existing lg"
      "map_of (call_keys lg') = (map_of (call_keys lg))(c \<mapsto> key)"
      "own_occurrences lg' = (own_occurrences lg)(s := count_list seen s + 1)"
    by (rule key_for_next [OF fresh own behind]) (simp add: key_def s_def)
  have bound: "persisted_occurrences run (H x) (rows w') \<le> count_list (seen @ [s]) (H x)"
    if "\<not> replay_existing lg" for x
    unfolding w'_def key_def using that Cons.prems(5) by (intro persisted_next) (auto simp: call s)
  have "issue_keys H calls lg' w' = occurrence_keys (seen @ [s]) (map (call_meaning H) calls)"
  proof (rule Cons.IH)
    show "replay_existing lg' \<or> ((\<forall>x. hex_digest (H x)) \<and>
        (\<forall>call \<in> set calls. \<forall>e \<in> set (later_events call). foreign run e) \<and>
        (\<forall>x. persisted_occurrences run (H x) (rows w') \<le> count_list (seen @ [s]) (H x)))"
    proof (cases "replay_existing lg")
      case False
      then have "\<forall>x. persisted_occurrences run (H x) (rows w') \<le> count_list (seen @ [s]) (H x)"
        using bound by blast
      moreover from False Cons.prems(5) have "\<forall>x. hex_digest (H x)"
        "\<forall>call \<in> set calls. \<forall>e \<in> set (later_events call). foreign run e" by auto
      ultimately show ?thesis by blast
    qed (simp add: lg')
  qed (use Cons.prems lg' in \<open>auto simp: call\<close>)
  then show ?case
    using Cons.prems(1) key_for by (simp add: call call_meaning_def key_def s_def w'_def)
qed simp

text \<open>
  A resumed run finds the keys of the run it resumes.  The first process issues its keys
  from a ledger over a table without rows of this run, the resumed one from a ledger opened
  for replay over whatever table is there.  When both make the same tool calls with the same
  arguments in the same order, under whatever call ids, the key of each call is the same, so
  that every operation completed before the interruption is looked up under its own key.
  The digest is assumed to be 64 lower-case hexadecimal characters.
\<close>

theorem resumed_run_reissues_keys:
  assumes hex: "\<forall>x. hex_digest (H x)"
    and new: "\<forall>(run', key) \<in> set (map fst (rows w)). run' \<noteq> run"
    and own: "\<forall>call \<in> set calls. \<forall>e \<in> set (later_events call). foreign run e"
    and ids: "distinct (map fst calls)" "distinct (map fst resumed)"
    and same: "map (\<lambda>(c, tool, args, rest). (tool, args)) resumed = map (\<lambda>(c, tool, args, rest). (tool, args)) calls"
  shows "issue_keys H resumed (ToolExecutionLedger run True) w' = issue_keys H calls (ToolExecutionLedger run False) w"
proof -
  have "persisted_occurrences run s (rows w) = 0" for s
    using new by (auto simp: persisted_keys filter_empty_conv)
  then have first: "issue_keys H calls (ToolExecutionLedger run False) w = occurrence_keys [] (map (call_meaning H) calls)"
    using hex own ids by (intro issue_keys_occurrences) (auto simp: ToolExecutionLedger_def own_occurrences_def)
  have second: "issue_keys H resumed (ToolExecutionLedger run True) w' = occurrence_keys [] (map (call_meaning H) resumed)"
    using ids by (intro issue_keys_occurrences) (auto simp: ToolExecutionLedger_def own_occurrences_def)
  have meaning: "map (call_meaning H) cs
      = map (\<lambda>(tool, args). semantic_key H tool args) (map (\<lambda>(c, tool, args, rest). (tool, args)) cs)" for cs
    by (simp add: call_meaning_def case_prod_beta)
  from first second show ?thesis by (simp only: meaning same)
qed

subsection \<open>A new call gets its claim\<close>

fun issue_claims :: "(string \<Rightarrow> string) \<Rightarrow> logical_call list \<Rightarrow> tool_ledger \<Rightarrow> ledger_world \<Rightarrow> (ledger_exc + ledger_decision) list" where
  "issue_claims H [] lg w = []"
| "issue_claims H ((c, tool, args, db, now, idem, later) # calls) lg w =
     (let (key, lg') = idempotency_key_for H c tool args (rows w) lg in
      fst (ledger_begin True (ledger_run_id lg) now c tool key idem (rows w))
      # issue_claims H calls lg' (foldl ledger_step w (LBegin db (ledger_run_id lg) now c tool key idem # later)))"

lemma occurrence_key_inject:
  assumes "hex_digest s" "hex_digest s'" "occurrence_key s n = occurrence_key s' n'"
  shows "s = s' \<and> n = n'"
proof -
  from assms have "s @ '':'' @ show_nat n = s' @ '':'' @ show_nat n'" "length s = length s'"
    by (simp_all add: occurrence_key_def hex_digest_def)
  then have "s = s'" "show_nat n = show_nat n'" by simp_all
  then show ?thesis by (metis read_show_nat)
qed

lemma begin_key_cases:
  assumes "k \<in> fst ` set (snd (ledger_begin db run now c tool key idem tbl))"
  shows "k \<in> fst ` set tbl \<or> k = (run, key)"
proof -
  have "set (map fst (snd (ledger_begin db run now c tool key idem tbl))) \<subseteq> insert (run, key) (set (map fst tbl))"
    using begin_keys [of db run now c tool key idem tbl] by (elim disjE) (simp_all only: set_append, auto)
  with assms show ?thesis by (auto simp only: set_map)
qed

lemma foreign_keys:
  "foreign run e \<Longrightarrow> (run, key) \<in> fst ` set (rows (ledger_step w e)) \<Longrightarrow> (run, key) \<in> fst ` set (rows w)"
proof (cases e)
  case (LBegin db run' now c tool key' idem)
  assume *: "foreign run e" "(run, key) \<in> fst ` set (rows (ledger_step w e))"
  then have "(run, key) \<in> fst ` set (snd (ledger_begin db run' now c tool key' idem (rows w)))"
    by (simp add: LBegin ledger_step_def case_prod_beta)
  from begin_key_cases [OF this] * LBegin show ?thesis by simp
next
  case (LFinish db run' now c key' result)
  assume "(run, key) \<in> fst ` set (rows (ledger_step w e))"
  then have "(run, key) \<in> set (map fst (snd (ledger_finish db run' now c key' result (rows w))))"
    by (simp add: LFinish ledger_step_def)
  then show ?thesis unfolding finish_keys by simp
qed

lemma foreign_run_keys:
  "\<forall>e \<in> set es. foreign run e \<Longrightarrow> (run, key) \<in> fst ` set (rows (foldl ledger_step w es)) \<Longrightarrow> (run, key) \<in> fst ` set (rows w)"
  by (induction es arbitrary: w) (auto dest: foreign_keys)

text \<open>The state of a run whose rows all come from its own ledger.\<close>

definition issuing :: "(string \<Rightarrow> string) \<Rightarrow> string list \<Rightarrow> tool_ledger \<Rightarrow> ledger_world \<Rightarrow> bool" where
  "issuing H seen lg w \<longleftrightarrow> (\<forall>s. own_occurrences lg s = count_list seen s) \<and>
     (\<forall>x. persisted_occurrences (ledger_run_id lg) (H x) (rows w) \<le> count_list seen (H x)) \<and>
     (\<forall>key. (ledger_run_id lg, key) \<in> fst ` set (rows w) \<longrightarrow> (\<exists>x n. key = occurrence_key (H x) n \<and> n \<le> count_list seen (H x)))"

lemma issuing_next:
  fixes tool args db now idem
  assumes hex: "\<forall>x. hex_digest (H x)" and inv: "issuing H seen lg w" and fresh: "map_of (call_keys lg) c = None"
    and later: "\<forall>e \<in> set later. foreign (ledger_run_id lg) e"
  defines "s \<equiv> semantic_key H tool args"
  defines "key \<equiv> occurrence_key s (count_list seen s + 1)"
  obtains lg' where "idempotency_key_for H c tool args (rows w) lg = (key, lg')" "ledger_run_id lg' = ledger_run_id lg"
    and "map_of (call_keys lg') = (map_of (call_keys lg))(c \<mapsto> key)"
    and "map_of (rows w) (ledger_run_id lg, key) = None"
    and "issuing H (seen @ [s]) lg' (foldl ledger_step w (LBegin db (ledger_run_id lg) now c tool key idem # later))"
proof -
  let ?run = "ledger_run_id lg"
  let ?w = "foldl ledger_step w (LBegin db ?run now c tool key idem # later)"
  have s: "s = H (canonical_json (JObj [(''tool'', JStr tool), (''arguments'', JObj args)]))"
    by (simp add: s_def semantic_key_def)
  then have hs: "hex_digest s" using hex by blast
  have own: "own_occurrences lg (semantic_key H tool args) = count_list seen s"
    using inv unfolding issuing_def s_def by blast
  have "persisted_occurrences ?run s (rows w) \<le> count_list seen s"
    using inv unfolding issuing_def s by blast
  then have behind: "replay_existing lg \<or> persisted_occurrences ?run (semantic_key H tool args) (rows w) \<le> count_list seen s"
    by (simp add: s_def)
  obtain lg' where lg': "idempotency_key_for H c tool args (rows w) lg = (key, lg')" "ledger_run_id lg' = ?run"
      "map_of (call_keys lg') = (map_of (call_keys lg))(c \<mapsto> key)"
      "own_occurrences lg' = (own_occurrences lg)(s := count_list seen s + 1)"
    by (rule key_for_next [OF fresh own behind]) (simp add: key_def s_def)
  have "(?run, key) \<notin> fst ` set (rows w)"
  proof
    assume "(?run, key) \<in> fst ` set (rows w)"
    then obtain x n where "occurrence_key s (count_list seen s + 1) = occurrence_key (H x) n" "n \<le> count_list seen (H x)"
      using inv unfolding issuing_def key_def by blast
    with occurrence_key_inject [OF hs] hex show False by fastforce
  qed
  then have free: "map_of (rows w) (?run, key) = None" by (simp add: map_of_eq_None_iff)
  have "\<exists>x n. k = occurrence_key (H x) n \<and> n \<le> count_list (seen @ [s]) (H x)"
    if "(?run, k) \<in> fst ` set (rows ?w)" for k
  proof -
    from that have "(?run, k) \<in> fst ` set (rows (ledger_step w (LBegin db ?run now c tool key idem)))"
      using foreign_run_keys [OF later] by simp
    then have "(?run, k) \<in> fst ` set (snd (ledger_begin db ?run now c tool key idem (rows w)))"
      by (simp add: ledger_step_def case_prod_beta)
    from begin_key_cases [OF this] have "(?run, k) \<in> fst ` set (rows w) \<or> k = key" by simp
    then show ?thesis
    proof
      assume "(?run, k) \<in> fst ` set (rows w)"
      with inv obtain x n where "k = occurrence_key (H x) n" "n \<le> count_list seen (H x)" unfolding issuing_def by blast
      then show ?thesis by (intro exI [of _ x] exI [of _ n]) simp
    next
      assume "k = key"
      then have "k = occurrence_key s (count_list seen s + 1) \<and> count_list seen s + 1 \<le> count_list (seen @ [s]) s"
        by (simp add: key_def)
      with s show ?thesis by metis
    qed
  qed
  moreover have "persisted_occurrences ?run (H x) (rows ?w) \<le> count_list (seen @ [s]) (H x)" for x
    unfolding key_def using inv hex by (intro persisted_next later hs) (simp_all add: issuing_def)
  moreover have "own_occurrences lg' t = count_list (seen @ [s]) t" for t
    using inv lg'(4) by (simp add: issuing_def)
  ultimately have "issuing H (seen @ [s]) lg' ?w"
    unfolding issuing_def lg'(2) by blast
  with that lg' free show ?thesis by blast
qed

lemma issue_claims_granted:
  assumes hex: "\<forall>x. hex_digest (H x)" and "issuing H seen lg w"
    and "distinct (map fst calls)" "\<forall>c \<in> set (map fst calls). map_of (call_keys lg) c = None"
    and "\<forall>call \<in> set calls. \<forall>e \<in> set (later_events call). foreign (ledger_run_id lg) e"
  shows "issue_claims H calls lg w = replicate (length calls) (Inr CLAIMED)"
  using assms(2-)
proof (induction calls arbitrary: seen lg w)
  case (Cons call calls)
  obtain c tool args db now idem later where call: "call = (c, tool, args, db, now, idem, later)"
    by (metis prod_cases7)
  have fresh: "map_of (call_keys lg) c = None" and later: "\<forall>e \<in> set later. foreign (ledger_run_id lg) e"
    using Cons.prems(3,4) by (simp_all add: call)
  define s where "s = semantic_key H tool args"
  define key where "key = occurrence_key s (count_list seen s + 1)"
  from issuing_next [OF hex Cons.prems(1) fresh later, of tool args db now idem]
  obtain lg' where lg': "idempotency_key_for H c tool args (rows w) lg = (key, lg')" "ledger_run_id lg' = ledger_run_id lg"
      "map_of (call_keys lg') = (map_of (call_keys lg))(c \<mapsto> key)" "map_of (rows w) (ledger_run_id lg, key) = None"
      "issuing H (seen @ [s]) lg' (foldl ledger_step w (LBegin db (ledger_run_id lg) now c tool key idem # later))"
    unfolding s_def [symmetric] key_def [symmetric] by blast
  have "issue_claims H calls lg' (foldl ledger_step w (LBegin db (ledger_run_id lg) now c tool key idem # later))
      = replicate (length calls) (Inr CLAIMED)"
    using Cons.prems lg'(2,3) by (intro Cons.IH [OF lg'(5)]) (auto simp: call)
  with lg'(1,4) show ?case by (simp add: call begin_unclaimed)
qed simp

text \<open>
  The ledger never blocks a new call: over a table without rows of the run, every logical
  call of the original process is granted its claim when SQLite answers, however often the
  same tool was called with the same arguments before, whatever became of the earlier claims
  and whatever other runs do to the table meanwhile.
\<close>

theorem new_calls_are_claimed:
  assumes "\<forall>x. hex_digest (H x)"
    and "\<forall>(run', key) \<in> set (map fst (rows w)). run' \<noteq> run"
    and "\<forall>call \<in> set calls. \<forall>e \<in> set (later_events call). foreign run e" "distinct (map fst calls)"
  shows "issue_claims H calls (ToolExecutionLedger run False) w = replicate (length calls) (Inr CLAIMED)"
proof -
  have "persisted_occurrences run s (rows w) = 0" for s
    using assms(2) by (auto simp: persisted_keys filter_empty_conv)
  then have "issuing H [] (ToolExecutionLedger run False) w"
    using assms(2) by (auto simp: issuing_def ToolExecutionLedger_def own_occurrences_def)
  with assms show ?thesis
    by (intro issue_claims_granted) (auto simp: ToolExecutionLedger_def)
qed

subsection \<open>Witnesses\<close>

definition demo_result :: "bool \<Rightarrow> tool_result" where
  "demo_result failed = \<lparr>res_call_id = ''c1'', res_content = ''done'', res_is_error = failed, res_error_kind = None,
     res_retryable = False, res_timed_out = False, res_side_effect_status = ''completed'', res_metadata = []\<rparr>"

lemma completed_effect_replayed_witness:
  "res_content (the (dec_result (projr (fst (ledger_begin True ''r'' ''t3'' ''c9'' ''writer'' ''k'' True
     (rows (foldl ledger_step empty_ledger
        (LBegin True ''r'' ''t'' ''c1'' ''writer'' ''k'' False
         # [LBegin True ''r'' ''t1'' ''c2'' ''writer'' ''k'' True, LFinish True ''r'' ''t1'' ''c2'' ''k'' (demo_result True)]
         @ LFinish True ''r'' ''t2'' ''c1'' ''k'' (demo_result False)
         # [LBegin True ''r'' ''t2'' ''c3'' ''writer'' ''k'' True]))))))))
   = ledger_redacted_content ''done'' LEDGER_CONTENT_LIMIT"
  by (subst completed_effect_replayed [where w = empty_ledger, OF _ _ _ refl])
    (simp_all add: ledger_begin_def empty_ledger_def demo_result_def)

lemma resumed_run_reissues_keys_witness:
  "issue_keys (\<lambda>_. replicate 64 CHR ''a'')
     [(''d1'', ''shell'', [], True, ''t9'', False, []), (''d2'', ''shell'', [], True, ''t9'', False, [])]
     (ToolExecutionLedger ''r'' True) empty_ledger
   = issue_keys (\<lambda>_. replicate 64 CHR ''a'')
     [(''c1'', ''shell'', [], True, ''t'', False, [LFinish True ''r'' ''t'' ''c1'' ''k'' (demo_result False)]),
      (''c2'', ''shell'', [], True, ''t'', False, [])]
     (ToolExecutionLedger ''r'' False) empty_ledger"
  by (rule resumed_run_reissues_keys) (simp_all add: hex_digest_def empty_ledger_def)

lemma new_calls_are_claimed_witness:
  "issue_claims (\<lambda>_. replicate 64 CHR ''a'')
     [(''c1'', ''shell'', [], True, ''t'', False, [LFinish True ''r'' ''t'' ''c1'' ''k'' (demo_result True)]),
      (''c2'', ''shell'', [], True, ''t'', False, [])]
     (ToolExecutionLedger ''r'' False) empty_ledger = [Inr CLAIMED, Inr CLAIMED]"
  using new_calls_are_claimed [of "\<lambda>_. replicate 64 CHR ''a''" empty_ledger "''r''"
      "[(''c1'', ''shell'', [], True, ''t'', False, [LFinish True ''r'' ''t'' ''c1'' ''k'' (demo_result True)]),
        (''c2'', ''shell'', [], True, ''t'', False, [])]"]
  by (simp add: hex_digest_def empty_ledger_def del: issue_claims.simps)

end
