(* ===== verification/File_Guard.thy ===== *)
theory File_Guard
  imports Tool_Policy
begin

text \<open>
  The path guard of \<^verbatim>\<open>engine/safety/tool_guard.py\<close>: \<^verbatim>\<open>FileGuard\<close>, the hard-link checks and the
  session whitelist.  A \<^verbatim>\<open>pathlib\<close> path is its text.  What the operating system answers (home
  directories, the working directory, symbolic-link resolution, inode numbers, directory
  trees, file contents) is the record \<open>os_view\<close>, an argument of every definition, about which
  nothing is assumed here.
\<close>

subsection \<open>Paths and the operating system\<close>

datatype path_exc = PathOSError | PathValueError

text \<open>What \<^verbatim>\<open>os.walk\<close> finds below a directory: subdirectories, and the names of its files.\<close>

datatype dir_tree = Dir_Tree "(string \<times> dir_tree) list" "string list"

record os_view =
  os_home :: string
  os_home_of :: "string \<Rightarrow> string option"
  os_cwd :: string
  os_resolve :: "string \<Rightarrow> path_exc + string"
  os_lstat :: "string \<Rightarrow> (nat \<times> nat \<times> nat) option"
  os_is_file :: "string \<Rightarrow> bool"
  os_exists :: "string \<Rightarrow> bool"
  os_tree :: "string \<Rightarrow> dir_tree option"
  os_read_text :: "string \<Rightarrow> string option"
  PLATFORM_DATA_ROOT :: string

text \<open>The exceptions that leave the guard instead of becoming a refusal.\<close>

datatype guard_exc = GuardRuntimeError | GuardOSError | GuardValueError | GuardTypeError | GuardRegexError

definition is_absolute :: "string \<Rightarrow> bool" where
  "is_absolute p \<longleftrightarrow> root_slashes p \<noteq> []"

definition path_join :: "string \<Rightarrow> string \<Rightarrow> string" where
  "path_join a b = (if is_absolute b then path_text b else path_text (a @ ''/'' @ b))"

definition is_relative_to :: "string \<Rightarrow> string \<Rightarrow> bool" where
  "is_relative_to p d \<longleftrightarrow> root_slashes p = root_slashes d \<and> prefix (path_parts d) (path_parts p)"

definition casefolded :: "string \<Rightarrow> string" where
  "casefolded p = path_text (lower p)"

definition abspath :: "os_view \<Rightarrow> string \<Rightarrow> string" where
  "abspath os s = path_text (normpath (if is_absolute s then s else os_cwd os @ ''/'' @ s))"

definition os_is_dir :: "os_view \<Rightarrow> string \<Rightarrow> bool" where
  "os_is_dir os p \<longleftrightarrow> os_tree os p \<noteq> None"

definition expand :: "os_view \<Rightarrow> string \<Rightarrow> guard_exc + string" where
  "expand os s = (case expanduser (os_home_of os) s of None \<Rightarrow> Inl GuardRuntimeError | Some p \<Rightarrow> Inr p)"

text \<open>\<^verbatim>\<open>_ordered_unique\<close>.\<close>

fun ordered_unique :: "string list \<Rightarrow> string list \<Rightarrow> string list" where
  "ordered_unique seen [] = seen"
| "ordered_unique seen (v # vs) = ordered_unique (if v \<in> set seen then seen else seen @ [v]) vs"

subsection \<open>Names that carry credentials\<close>

definition ALWAYS_BLOCKED :: "string list" where
  "ALWAYS_BLOCKED = [''.ssh'', ''.gnupg'', ''.aws'', ''.kube'', ''.docker'']"

definition SENSITIVE_WRITE :: "string list" where
  "SENSITIVE_WRITE = [''.env'', ''.env.local'', ''.env.production'', ''.npmrc'', ''.pypirc'']"

definition SENSITIVE_DIRS :: "string list" where
  "SENSITIVE_DIRS = [''.git'']"

definition SENSITIVE_READ_EXTENSIONS :: "string list" where
  "SENSITIVE_READ_EXTENSIONS = [''.pem'', ''.key'', ''.p12'', ''.pfx'']"

definition ENV_TEMPLATE_SUFFIXES :: "string list" where
  "ENV_TEMPLATE_SUFFIXES = [''.env.example'', ''.env.template'', ''.env.sample'']"

definition name_edge :: "char \<Rightarrow> bool" where
  "name_edge c \<longleftrightarrow> c = CHR ''-'' \<or> c = CHR ''_'' \<or> c = CHR ''.''"

definition SENSITIVE_KEY_NAME_RE :: pattern where
  "SENSITIVE_KEY_NAME_RE = cats [Alt AtStart (Cls name_edge),
     Alt (lit ''id_rsa'') (Alt (lit ''id_ed25519'') (Alt (lit ''id_ecdsa'') (lit ''id_dsa''))),
     Alt (Cls name_edge) AtEnd]"

definition GIT_CREDENTIAL_FILES :: "string list" where
  "GIT_CREDENTIAL_FILES = [''config'', ''config.worktree'', ''credentials'']"

definition CREDENTIAL_CONFIG_NAMES :: "string list" where
  "CREDENTIAL_CONFIG_NAMES = [''.npmrc'', ''.pypirc'', ''.netrc'', ''.git-credentials'']"

definition CREDENTIAL_PATH_PAIRS :: "(string \<times> string) list" where
  "CREDENTIAL_PATH_PAIRS = [(''.config'', ''gh''), (''.config'', ''gcloud''), (''library'', ''keychains'')]"

text \<open>\<^verbatim>\<open>Path.parts\<close>: the root, when there is one, and the components.\<close>

definition parts :: "string \<Rightarrow> string list" where
  "parts p = (if is_absolute p then [root_slashes p] else []) @ path_parts p"

fun first_pair :: "string list \<Rightarrow> string option" where
  "first_pair (parent # child # rest) =
     (if (parent, child) \<in> set CREDENTIAL_PATH_PAIRS then Some (parent @ ''/'' @ child)
      else first_pair (child # rest))"
| "first_pair _ = None"

definition credential_pair :: "string \<Rightarrow> string option" where
  "credential_pair p = first_pair (map lower (parts p))"

definition is_sensitive_read_name :: "string \<Rightarrow> bool" where
  "is_sensitive_read_name name =
     (let folded = lower name in
      if ends_with ''.pub'' folded then False
      else if starts_with ''.env'' folded then \<not> list_ex (\<lambda>s. ends_with s folded) ENV_TEMPLATE_SUFFIXES
      else if folded \<in> set CREDENTIAL_CONFIG_NAMES then True
      else if list_ex (\<lambda>s. ends_with s folded) SENSITIVE_READ_EXTENSIONS then True
      else re_search SENSITIVE_KEY_NAME_RE folded)"

subsection \<open>Hard links\<close>

definition HARDLINK_SCAN_SKIP :: "string list" where
  "HARDLINK_SCAN_SKIP = [''objects'', ''node_modules'', ''.venv'', ''__pycache__'']"

definition GIT_DIR_MARKERS :: "string list" where
  "GIT_DIR_MARKERS = [''HEAD'', ''config'', ''commondir'']"

definition looks_like_git_dir :: "os_view \<Rightarrow> string \<Rightarrow> bool" where
  "looks_like_git_dir os p \<longleftrightarrow> os_is_dir os p \<and> list_ex (\<lambda>marker. os_exists os (path_join p marker)) GIT_DIR_MARKERS"

definition git_dirs_for :: "os_view \<Rightarrow> string \<Rightarrow> guard_exc + string list" where
  "git_dirs_for os working_dir =
     (let git_path = path_join working_dir ''.git'' in
      if os_is_dir os git_path then Inr [git_path]
      else if \<not> os_is_file os git_path then Inr []
      else case os_read_text os git_path of
        None \<Rightarrow> Inr []
      | Some raw \<Rightarrow>
          (let contents = strip raw in
           if \<not> starts_with ''gitdir:'' contents then Inr []
           else bind_res (expand os (strip (drop 7 contents))) (\<lambda>pointer.
             case os_resolve os (if is_absolute pointer then pointer else path_join working_dir pointer) of
               Inl PathOSError \<Rightarrow> Inr []
             | Inl PathValueError \<Rightarrow> Inl GuardValueError
             | Inr pointer \<Rightarrow>
                 Inr (filter (looks_like_git_dir os)
                   (pointer # (if path_name (path_parent pointer) = ''worktrees''
                               then [path_parent (path_parent pointer)] else []))))))"

fun tree_files :: "string \<Rightarrow> dir_tree \<Rightarrow> string list" where
  "tree_files dirpath (Dir_Tree subs files) =
     map (\<lambda>f. path_join dirpath f) files
     @ concat (map (\<lambda>(name, t). if name \<in> set HARDLINK_SCAN_SKIP then [] else tree_files (path_join dirpath name) t) subs)"

text \<open>Whether a path names the inode \<open>identity\<close>; a path that cannot be inspected does not.\<close>

definition same_inode :: "os_view \<Rightarrow> nat \<times> nat \<Rightarrow> string \<Rightarrow> bool" where
  "same_inode os identity p = (case os_lstat os p of None \<Rightarrow> False | Some (dev, ino, nlink) \<Rightarrow> (dev, ino) = identity)"

text \<open>The inode of a regular file with a second name; nothing for every other path.\<close>

definition linked_inode :: "os_view \<Rightarrow> string \<Rightarrow> (nat \<times> nat) option" where
  "linked_inode os target = (case os_lstat os target of None \<Rightarrow> None
     | Some (dev, ino, nlink) \<Rightarrow> if nlink < 2 \<or> \<not> os_is_file os target then None else Some (dev, ino))"

definition shares_inode_with_protected_file ::
  "os_view \<Rightarrow> string \<Rightarrow> string option \<Rightarrow> string list \<Rightarrow> guard_exc + bool" where
  "shares_inode_with_protected_file os target working_dir extra_protected_roots =
     (case linked_inode os target of
        None \<Rightarrow> Inr False
      | Some identity \<Rightarrow>
          bind_res (case working_dir of None \<Rightarrow> Inr [] | Some wd \<Rightarrow> git_dirs_for os wd) (\<lambda>git_dirs.
            (let in_working_dir = (\<lambda>names. case working_dir of None \<Rightarrow> [] | Some wd \<Rightarrow> map (path_join wd) names);
                 roots = map (path_join (os_home os)) ALWAYS_BLOCKED @ [PLATFORM_DATA_ROOT os] @ git_dirs
                         @ in_working_dir ALWAYS_BLOCKED @ extra_protected_roots;
                 sensitive = map (path_join (os_home os)) SENSITIVE_WRITE @ in_working_dir SENSITIVE_WRITE in
             Inr (list_ex (same_inode os identity) sensitive
                  \<or> list_ex (\<lambda>root. case os_tree os root of None \<Rightarrow> False
                               | Some t \<Rightarrow> list_ex (same_inode os identity) (tree_files root t)) roots))))"

subsection \<open>Runtime credentials\<close>

definition MEMORY_WRITE_ROOT :: "os_view \<Rightarrow> string" where
  "MEMORY_WRITE_ROOT os = path_join (path_join (PLATFORM_DATA_ROOT os) ''agent'') ''memory''"

definition MEMORY_WRITE_FILES :: "string list" where
  "MEMORY_WRITE_FILES = [''recent.jsonl'', ''recent.md'', ''durable.md'']"

definition RUNTIME_CREDENTIAL_PATHS :: "os_view \<Rightarrow> string list" where
  "RUNTIME_CREDENTIAL_PATHS os = map (path_join (PLATFORM_DATA_ROOT os))
     [''config.yaml'', ''config.yml'', ''agent/config.yaml'', ''agent/config.yml'']"

definition is_runtime_credential_path :: "os_view \<Rightarrow> string list \<Rightarrow> bool" where
  "is_runtime_credential_path os paths \<longleftrightarrow>
     list_ex (\<lambda>p. casefolded p \<in> set (map casefolded (RUNTIME_CREDENTIAL_PATHS os))) paths"

definition shares_inode_with_runtime_credential :: "os_view \<Rightarrow> string \<Rightarrow> bool" where
  "shares_inode_with_runtime_credential os target =
     (case linked_inode os target of None \<Rightarrow> False
      | Some identity \<Rightarrow> list_ex (same_inode os identity) (RUNTIME_CREDENTIAL_PATHS os))"

subsection \<open>The file guard\<close>

record file_guard =
  fg_working_dir :: "string option"
  fg_non_delegable_write_roots :: "string list"
  fg_allowed :: "string list"

fun path_error :: "path_exc \<Rightarrow> guard_exc" where
  "path_error PathOSError = GuardOSError"
| "path_error PathValueError = GuardValueError"

fun resolve_all :: "os_view \<Rightarrow> string list \<Rightarrow> path_exc + string list" where
  "resolve_all os [] = Inr []"
| "resolve_all os (p # ps) = bind_res (os_resolve os p) (\<lambda>r. bind_res (resolve_all os ps) (\<lambda>rs. Inr (r # rs)))"

definition set_allowed_dirs :: "os_view \<Rightarrow> string list option \<Rightarrow> file_guard \<Rightarrow> path_exc + file_guard" where
  "set_allowed_dirs os allowed_dirs fg =
     bind_res (resolve_all os (case allowed_dirs of None \<Rightarrow> [os_home os, ''/tmp'', os_cwd os] | Some ds \<Rightarrow> ds))
       (\<lambda>ds. Inr (fg\<lparr>fg_allowed := ds\<rparr>))"

definition FileGuard :: "os_view \<Rightarrow> string list option \<Rightarrow> path_exc + file_guard" where
  "FileGuard os allowed_dirs =
     set_allowed_dirs os allowed_dirs \<lparr>fg_working_dir = None, fg_non_delegable_write_roots = [], fg_allowed = []\<rparr>"

definition is_working_directory_scoped :: "file_guard \<Rightarrow> bool" where
  "is_working_directory_scoped fg \<longleftrightarrow> fg_working_dir fg \<noteq> None"

definition is_inside_allowed_dirs :: "file_guard \<Rightarrow> string \<Rightarrow> bool" where
  "is_inside_allowed_dirs fg target \<longleftrightarrow> list_ex (is_relative_to target) (fg_allowed fg)"

definition is_non_delegable_write_target :: "file_guard \<Rightarrow> string \<Rightarrow> string \<Rightarrow> bool" where
  "is_non_delegable_write_target fg target lexical \<longleftrightarrow>
     list_ex (\<lambda>root. list_ex (\<lambda>candidate. is_relative_to (casefolded candidate) (casefolded root)) [target, lexical])
       (fg_non_delegable_write_roots fg)"

definition path_approval :: "string \<Rightarrow> bool \<Rightarrow> string \<Rightarrow> bool \<Rightarrow> bool \<Rightarrow> guard_result" where
  "path_approval target writing reason high_risk boundary_block =
     \<lparr>guard_allowed = False, guard_reason = reason, guard_level = (if writing then WRITE else READ),
      guard_needs_confirmation = True, guard_approval_required = True, guard_boundary_block = boundary_block,
      guard_scope = Some (scope_path target writing high_risk),
      guard_risk = risk_for_approval (Some (level_value (if writing then WRITE else READ))) high_risk False False\<rparr>"

text \<open>\<^verbatim>\<open>GuardResult(allowed=..., reason=..., risk=...)\<close> with the other fields at their defaults.\<close>

definition plain_result :: "bool \<Rightarrow> string \<Rightarrow> risk_tier \<Rightarrow> guard_result" where
  "plain_result ok reason risk =
     \<lparr>guard_allowed = ok, guard_reason = reason, guard_level = READ, guard_needs_confirmation = False,
      guard_approval_required = False, guard_boundary_block = False, guard_scope = None, guard_risk = risk\<rparr>"

text \<open>
  The two views of a path: the target it resolves to, and the lexical path as the caller
  spelled it.  \<open>Inr None\<close> is the refusal of an invalid path.
\<close>

definition anchor_path :: "file_guard \<Rightarrow> string \<Rightarrow> string" where
  "anchor_path fg p = (case fg_working_dir fg of
     Some wd \<Rightarrow> if is_absolute p then p else path_join wd p | None \<Rightarrow> p)"

definition path_views ::
  "os_view \<Rightarrow> file_guard \<Rightarrow> string \<Rightarrow> string option \<Rightarrow> guard_exc + (string \<times> string) option" where
  "path_views os fg path_str declared_path =
     bind_res (expand os path_str) (\<lambda>p.
       (let candidate = anchor_path fg p in
        bind_res (case declared_path of
            Some d \<Rightarrow> if d \<noteq> [] then bind_res (expand os d) (\<lambda>q. Inr (abspath os (anchor_path fg q)))
                      else Inr (abspath os candidate)
          | None \<Rightarrow> Inr (abspath os candidate))
        (\<lambda>lexical. case os_resolve os candidate of Inl e \<Rightarrow> Inr None | Inr target \<Rightarrow> Inr (Some (target, lexical)))))"

subsection \<open>The rules of \<^verbatim>\<open>check_path\<close>, in order\<close>

definition RUNTIME_SECRET :: string where
  "RUNTIME_SECRET = ''[runtime-secret-001] Agent runtime credential files are not delegable to model tools''"

definition non_delegable_rules :: "os_view \<Rightarrow> file_guard \<Rightarrow> bool \<Rightarrow> string \<Rightarrow> string \<Rightarrow> guard_result option" where
  "non_delegable_rules os fg writing target lexical =
     (if is_runtime_credential_path os [target, lexical] then Some (plain_result False RUNTIME_SECRET CRITICAL)
      else if shares_inode_with_runtime_credential os target then
        Some (plain_result False
          ''[runtime-secret-001] Agent runtime credential files are not delegable through a hard-link alias'' CRITICAL)
      else if writing \<and> is_non_delegable_write_target fg target lexical then
        Some (plain_result False
          ''[runtime-provider-001] Agent runtime tool provider files are not delegable to model tools'' CRITICAL)
      else None)"

definition credential_rules :: "bool \<Rightarrow> string \<Rightarrow> string \<Rightarrow> guard_result option" where
  "credential_rules writing target lexical =
     (case find (\<lambda>part. lower part \<in> set ALWAYS_BLOCKED) (parts target @ parts lexical) of
        Some part \<Rightarrow> Some (path_approval target writing
          (''Access to '' @ part @ ''/ contains user credentials and requires high-risk approval'') True False)
      | None \<Rightarrow>
          (case List.map_filter credential_pair [target, lexical] of
             pair # _ \<Rightarrow> Some (path_approval target writing
               (''Access to '' @ pair @ ''/ contains user credentials and requires high-risk approval'') True False)
           | [] \<Rightarrow> None))"

definition read_rules :: "string \<Rightarrow> string \<Rightarrow> guard_result option" where
  "read_rules target lexical =
     (let name = lower (path_name target); declared_name = lower (path_name lexical) in
      case find is_sensitive_read_name (ordered_unique [] [name, declared_name]) of
        Some candidate_name \<Rightarrow> Some (path_approval target False
          (''Read of sensitive file '' @ candidate_name @ '' requires high-risk approval'') True False)
      | None \<Rightarrow>
          if (name \<in> set GIT_CREDENTIAL_FILES \<or> declared_name \<in> set GIT_CREDENTIAL_FILES)
             \<and> list_ex (\<lambda>part. lower part = ''.git'') (parts target @ parts lexical)
          then Some (path_approval target False ''Read of .git credential-bearing file requires high-risk approval'' True False)
          else None)"

definition platform_state :: "os_view \<Rightarrow> string \<Rightarrow> string \<Rightarrow> bool" where
  "platform_state os target lexical =
     (let in_platform = (\<lambda>p. is_relative_to (casefolded p) (casefolded (PLATFORM_DATA_ROOT os)));
          in_memory = (\<lambda>p. is_relative_to p (MEMORY_WRITE_ROOT os) \<and> path_name p \<in> set MEMORY_WRITE_FILES) in
      (in_platform lexical \<or> in_platform target) \<and> \<not> (in_memory lexical \<and> in_memory target))"

definition write_rules :: "os_view \<Rightarrow> file_guard \<Rightarrow> string \<Rightarrow> string \<Rightarrow> guard_exc + guard_result option" where
  "write_rules os fg target lexical =
     (case find (\<lambda>name. name \<in> set SENSITIVE_WRITE \<or> starts_with ''.env'' name)
              (ordered_unique [] [lower (path_name target), lower (path_name lexical)]) of
        Some name \<Rightarrow> Inr (Some (path_approval target True
          (''Write to sensitive file '' @ name @ '' requires high-risk approval'') True False))
      | None \<Rightarrow>
          (case find (\<lambda>part. lower part \<in> set SENSITIVE_DIRS) (parts target @ parts lexical) of
             Some part \<Rightarrow> Inr (Some (path_approval target True
               (''Write inside '' @ part @ ''/ requires high-risk approval'') True False))
           | None \<Rightarrow>
               if platform_state os target lexical
               then Inr (Some (path_approval target True
                 ''[platform-state-001] Writing Helve runtime state requires high-risk approval'' True False))
               else bind_res (shares_inode_with_protected_file os target (fg_working_dir fg) (fg_non_delegable_write_roots fg))
                 (\<lambda>linked. Inr (if linked then Some (plain_result False
                    (''[unsafe-alias-001] Cannot safely represent the write to '' @ path_name target
                     @ '': it is a hard link to a protected file.'') CRITICAL) else None))))"

definition boundary_rule :: "file_guard \<Rightarrow> string \<Rightarrow> bool \<Rightarrow> string \<Rightarrow> guard_result" where
  "boundary_rule fg path_str writing target =
     (if list_ex (is_relative_to target) (fg_allowed fg) then plain_result True [] ROUTINE
      else if is_working_directory_scoped fg
        then path_approval target writing (''Path '' @ path_str @ '' is outside the active working directory and requires explicit user approval'') False True
      else path_approval target writing (''Path '' @ path_str @ '' is outside the active directories and requires approval'') False True)"

definition check_path ::
  "os_view \<Rightarrow> file_guard \<Rightarrow> string \<Rightarrow> bool \<Rightarrow> string option \<Rightarrow> guard_exc + guard_result" where
  "check_path os fg path_str writing declared_path =
     bind_res (path_views os fg path_str declared_path) (\<lambda>views. case views of
        None \<Rightarrow> Inr (plain_result False (''Invalid path: '' @ path_str) ROUTINE)
      | Some (target, lexical) \<Rightarrow>
          (case non_delegable_rules os fg writing target lexical of Some r \<Rightarrow> Inr r
           | None \<Rightarrow> (case credential_rules writing target lexical of Some r \<Rightarrow> Inr r
           | None \<Rightarrow> bind_res (if writing then write_rules os fg target lexical else Inr (read_rules target lexical))
               (\<lambda>rule. case rule of Some r \<Rightarrow> Inr r | None \<Rightarrow> Inr (boundary_rule fg path_str writing target)))))"

definition set_working_directory :: "os_view \<Rightarrow> string \<Rightarrow> file_guard \<Rightarrow> guard_exc + file_guard" where
  "set_working_directory os working_dir fg =
     bind_res (expand os working_dir) (\<lambda>p. case os_resolve os p of
        Inl e \<Rightarrow> Inl (path_error e)
      | Inr root \<Rightarrow>
          if \<not> os_is_dir os root then Inl GuardValueError
          else case set_allowed_dirs os (Some [root]) (fg\<lparr>fg_working_dir := Some root\<rparr>) of
            Inl e \<Rightarrow> Inl (path_error e) | Inr fg' \<Rightarrow> Inr fg')"

fun expand_resolve_all :: "os_view \<Rightarrow> string list \<Rightarrow> guard_exc + string list" where
  "expand_resolve_all os [] = Inr []"
| "expand_resolve_all os (p # ps) = bind_res (expand os p) (\<lambda>q. case os_resolve os q of
     Inl e \<Rightarrow> Inl (path_error e) | Inr r \<Rightarrow> bind_res (expand_resolve_all os ps) (\<lambda>rs. Inr (r # rs)))"

definition set_non_delegable_write_roots :: "os_view \<Rightarrow> string list \<Rightarrow> file_guard \<Rightarrow> guard_exc + file_guard" where
  "set_non_delegable_write_roots os roots fg =
     bind_res (expand_resolve_all os roots) (\<lambda>rs. Inr (fg\<lparr>fg_non_delegable_write_roots := rs\<rparr>))"

subsection \<open>The session whitelist\<close>

record whitelist =
  allowed_tools :: "string list"
  allowed_paths :: "string list"
  allowed_files :: "string list"

definition SessionWhitelist :: whitelist where
  "SessionWhitelist = \<lparr>allowed_tools = [], allowed_paths = [], allowed_files = []\<rparr>"

definition allow_tool :: "string \<Rightarrow> whitelist \<Rightarrow> whitelist" where
  "allow_tool name wl = wl\<lparr>allowed_tools := List.insert name (allowed_tools wl)\<rparr>"

definition allow_path :: "os_view \<Rightarrow> string \<Rightarrow> whitelist \<Rightarrow> path_exc + whitelist" where
  "allow_path os p wl = bind_res (os_resolve os (path_text p)) (\<lambda>r. Inr (wl\<lparr>allowed_paths := List.insert r (allowed_paths wl)\<rparr>))"

definition allow_file :: "os_view \<Rightarrow> string \<Rightarrow> whitelist \<Rightarrow> path_exc + whitelist" where
  "allow_file os p wl = bind_res (os_resolve os (path_text p)) (\<lambda>r. Inr (wl\<lparr>allowed_files := List.insert r (allowed_files wl)\<rparr>))"

definition is_tool_allowed :: "string \<Rightarrow> whitelist \<Rightarrow> bool" where
  "is_tool_allowed name wl \<longleftrightarrow> name \<in> set (allowed_tools wl)"

definition is_path_allowed :: "os_view \<Rightarrow> string \<Rightarrow> whitelist \<Rightarrow> bool" where
  "is_path_allowed os p wl = (case os_resolve os (path_text p) of
     Inl e \<Rightarrow> False
   | Inr resolved \<Rightarrow> resolved \<in> set (allowed_files wl)
       \<or> list_ex (\<lambda>base. resolved = base \<or> is_relative_to resolved base) (allowed_paths wl))"

definition clear_whitelist :: "whitelist \<Rightarrow> whitelist" where
  "clear_whitelist wl = \<lparr>allowed_tools = [], allowed_paths = [], allowed_files = []\<rparr>"

end
