(* ===== verification/Tool_Guard.thy ===== *)
theory Tool_Guard
  imports File_Guard Hash_Chain
begin

text \<open>
  \<^verbatim>\<open>ToolGuard\<close> and \<^verbatim>\<open>AuditLog\<close> of \<^verbatim>\<open>engine/safety/tool_guard.py\<close>: the dangerous-command rules, the
  path checks of a call, its approval requirement and scope, the decision \<^verbatim>\<open>check\<close> and the audit
  record it appends to the hash-chained log.  A rule holds each of its regular expressions with
  its text and its compiled form, which is \<open>None\<close> where \<^verbatim>\<open>re\<close> rejects the text.
\<close>

subsection \<open>Tool contracts and calls\<close>

text \<open>\<^verbatim>\<open>ToolDefinition\<close> and \<^verbatim>\<open>ToolCall\<close> in full, over the fields the fact gate reads.\<close>

record tool_contract = tool_definition +
  contract_name :: string
  contract_description :: json
  contract_parameters :: json
  contract_hidden :: bool
  contract_opaque_command :: bool
  contract_network_access :: bool
  contract_list_path_args :: "string list"
  contract_permission_level :: string
  contract_approval_policy :: string
  contract_timeout_seconds :: json
  contract_retryable :: bool
  contract_side_effect :: string
  contract_idempotent :: bool
  contract_concurrency :: string
  contract_execution_environment :: string

record full_call = tool_call +
  call_idempotency_key :: "string option"
  call_declared_paths :: "(string, string) dict"

type_synonym contracts = "(string, tool_contract) dict"

subsection \<open>Rules\<close>

type_synonym compiled = "string \<times> pattern option"

record guard_rule =
  rule_id :: "json option"
  rule_tools :: "string list"
  rule_pattern :: "compiled option"
  rule_patterns :: "compiled list"
  rule_excludes :: "compiled list"
  rule_reason :: json
  rule_description :: json

fun dumps_default :: "json \<Rightarrow> string" where
  "dumps_default (JArr vs) = ''['' @ join '', '' (map dumps_default vs) @ '']''"
| "dumps_default (JObj kvs) = ''{'' @ join '', '' (map (\<lambda>(k, v). quote k @ '': '' @ dumps_default v) kvs) @ ''}''"
| "dumps_default v = canonical_json v"

text \<open>The strings inside a value, in the order in which the explicit stack yields them.\<close>

fun string_leaves :: "json \<Rightarrow> string list" where
  "string_leaves (JStr s) = [s]"
| "string_leaves (JArr vs) = concat (rev (map string_leaves vs))"
| "string_leaves (JObj kvs) = concat (rev (map (\<lambda>(k, v). string_leaves v) kvs))"
| "string_leaves _ = []"

definition rule_match_targets :: "jdict \<Rightarrow> string list" where
  "rule_match_targets arguments = dumps_default (JObj arguments) # string_leaves (JObj arguments)"

definition compiled_search :: "compiled \<Rightarrow> string \<Rightarrow> guard_exc + bool" where
  "compiled_search p target = (case snd p of None \<Rightarrow> Inl GuardRegexError | Some q \<Rightarrow> Inr (re_search q target))"

fun any_search :: "compiled list \<Rightarrow> string \<Rightarrow> guard_exc + bool" where
  "any_search [] target = Inr False"
| "any_search (p # ps) target =
     (if fst p = [] then any_search ps target
      else bind_res (compiled_search p target) (\<lambda>hit. if hit then Inr True else any_search ps target))"

text \<open>Whether one pattern of a rule hits a target that no exclusion covers.\<close>

fun pattern_hits :: "compiled \<Rightarrow> compiled list \<Rightarrow> string list \<Rightarrow> guard_exc + bool" where
  "pattern_hits p excludes [] = Inr False"
| "pattern_hits p excludes (target # targets) =
     bind_res (compiled_search p target) (\<lambda>hit.
       if \<not> hit then pattern_hits p excludes targets
       else bind_res (any_search excludes target) (\<lambda>excluded.
         if excluded then pattern_hits p excludes targets else Inr True))"

fun first_hit :: "compiled list \<Rightarrow> compiled list \<Rightarrow> string list \<Rightarrow> guard_exc + string option" where
  "first_hit [] excludes targets = Inr None"
| "first_hit (p # ps) excludes targets =
     (if fst p = [] then first_hit ps excludes targets
      else bind_res (pattern_hits p excludes targets) (\<lambda>hit.
        if hit then Inr (Some (fst p)) else first_hit ps excludes targets))"

definition all_patterns :: "guard_rule \<Rightarrow> compiled list" where
  "all_patterns rule = (case rule_pattern rule of
     Some p \<Rightarrow> if fst p = [] then rule_patterns rule else p # rule_patterns rule
   | None \<Rightarrow> rule_patterns rule)"

fun rules_hit :: "guard_rule list \<Rightarrow> string \<Rightarrow> string list \<Rightarrow> guard_exc + (guard_rule \<times> string) option" where
  "rules_hit [] name targets = Inr None"
| "rules_hit (rule # rules) name targets =
     (if rule_tools rule \<noteq> [] \<and> name \<notin> set (rule_tools rule) then rules_hit rules name targets
      else bind_res (first_hit (all_patterns rule) (rule_excludes rule) targets) (\<lambda>hit. case hit of
          Some pattern \<Rightarrow> Inr (Some (rule, pattern))
        | None \<Rightarrow> rules_hit rules name targets))"

subsection \<open>The guard\<close>

record tool_guard =
  guard_rules :: "guard_rule list"
  guard_files :: file_guard
  guard_whitelist :: whitelist
  guard_contracts :: contracts

definition bind_definitions :: "contracts \<Rightarrow> tool_guard \<Rightarrow> tool_guard" where
  "bind_definitions definitions g = g\<lparr>guard_contracts := definitions\<rparr>"

definition allow_project_instruction_path :: "os_view \<Rightarrow> string \<Rightarrow> tool_guard \<Rightarrow> path_exc + string \<times> tool_guard" where
  "allow_project_instruction_path os project_root g =
     bind_res (os_resolve os project_root) (\<lambda>root.
       (let target = path_join (path_join root ''.helve'') ''HELVE.md'' in
        bind_res (allow_file os target (guard_whitelist g)) (\<lambda>wl. Inr (target, g\<lparr>guard_whitelist := wl\<rparr>))))"

definition REDIRECT_RE :: pattern where
  "REDIRECT_RE = (let more = (\<lambda>c. cats [Many (\<lambda>x. x = c) 0 (Some 1)]) in
     cats [Alt (cats [ch CHR ''>'', more CHR ''>''])
             (Alt (cats [Cls (\<lambda>c. c = CHR ''1'' \<or> c = CHR ''2''), ch CHR ''>'', more CHR ''>''])
                  (cats [ch CHR ''&'', ch CHR ''>'', more CHR ''>''])),
           Many is_space 0 None,
           Group 1 (Many (\<lambda>c. \<not> is_space c \<and> c \<notin> {CHR '';'', CHR ''|'', CHR ''&''}) 1 None)])"

text \<open>\<^verbatim>\<open>findall\<close> of a pattern with one group that consumes at least one character.\<close>

function findall_from :: "pattern \<Rightarrow> string \<Rightarrow> string \<Rightarrow> string list" where
  "findall_from p pre [] = []"
| "findall_from p pre (c # cs) =
     (case rmatch p pre (c # cs) of
        (x # xs, t, g) # _ \<Rightarrow> group 1 g # findall_from p (rev (x # xs) @ pre) (drop (length xs) cs)
      | _ \<Rightarrow> findall_from p (c # pre) cs)"
  by pat_completeness auto
termination by (relation "measure (\<lambda>(p, pre, s). length s)") auto

definition strip_quotes :: "string \<Rightarrow> string" where
  "strip_quotes s = (let q = (\<lambda>c. c = CHR 0x27 \<or> c = CHR 0x22) in rev (dropWhile q (rev (dropWhile q s))))"

definition extract_shell_write_paths :: "string \<Rightarrow> string list" where
  "extract_shell_write_paths command = map strip_quotes (findall_from REDIRECT_RE [] command)"

definition command_mentions_runtime_credential :: "os_view \<Rightarrow> string \<Rightarrow> bool" where
  "command_mentions_runtime_credential os command =
     list_ex (\<lambda>alias. contains alias command)
       (concat (map (\<lambda>rendered. rendered #
          (if starts_with (os_home os) rendered
           then (let suffix = drop (length (os_home os)) rendered in
                 [''~'' @ suffix, ''$HOME'' @ suffix, ''${HOME}'' @ suffix])
           else [])) (RUNTIME_CREDENTIAL_PATHS os)))"

definition resolve_path_metadata :: "tool_guard \<Rightarrow> string \<Rightarrow> string list \<times> string list \<times> bool \<times> bool" where
  "resolve_path_metadata g name = (case map_of (guard_contracts g) name of
     None \<Rightarrow> ([], [], False, False)
   | Some d \<Rightarrow> (tool_path_args d, contract_list_path_args d, tool_is_write d, contract_opaque_command d))"

text \<open>The text default a tool schema declares for one of its parameters, if it is not empty.\<close>

definition schema_properties :: "json \<Rightarrow> jdict option" where
  "schema_properties parameters = (case parameters of
     JObj d \<Rightarrow> (case map_of d ''properties'' of Some (JObj ps) \<Rightarrow> Some ps | _ \<Rightarrow> None)
   | _ \<Rightarrow> None)"

definition schema_default :: "json \<Rightarrow> string \<Rightarrow> string option" where
  "schema_default parameters arg = (case schema_properties parameters of
     None \<Rightarrow> None
   | Some ps \<Rightarrow> (case map_of ps arg of
       Some (JObj d) \<Rightarrow> (case map_of d ''default'' of Some (JStr s) \<Rightarrow> if s \<noteq> [] then Some s else None | _ \<Rightarrow> None)
     | _ \<Rightarrow> None))"

definition path_arg_uses_nonempty_default :: "tool_guard \<Rightarrow> string \<Rightarrow> string \<Rightarrow> bool" where
  "path_arg_uses_nonempty_default g name arg = (case map_of (guard_contracts g) name of
     None \<Rightarrow> False | Some d \<Rightarrow> schema_default (contract_parameters d) arg \<noteq> None)"

fun type_name :: "json \<Rightarrow> string" where
  "type_name JNull = ''NoneType''"
| "type_name (JBool b) = ''bool''"
| "type_name (JInt i) = ''int''"
| "type_name (JFloat t) = ''float''"
| "type_name (JStr s) = ''str''"
| "type_name (JArr vs) = ''list''"
| "type_name (JObj d) = ''dict''"

subsection \<open>The paths of a call\<close>

type_synonym path_to_check = "string \<times> bool \<times> string option"

fun scalar_paths :: "tool_guard \<Rightarrow> full_call \<Rightarrow> bool \<Rightarrow> string list \<Rightarrow> guard_result + path_to_check list" where
  "scalar_paths g call is_write [] = Inr []"
| "scalar_paths g call is_write (arg # rest) = (case dget (call_arguments call) arg of
     JStr (c # cs) \<Rightarrow> bind_res (scalar_paths g call is_write rest)
       (\<lambda>ps. Inr ((c # cs, is_write, map_of (call_declared_paths call) arg) # ps))
   | v \<Rightarrow>
       if v = JNull \<or> v = JStr [] then
         (if is_working_directory_scoped (guard_files g) \<and> path_arg_uses_nonempty_default g (call_name call) arg
          then Inl ((plain_result False (''Path argument '' @ [CHR 0x27] @ arg @ [CHR 0x27]
                 @ '' must be canonicalized before policy checks'') ROUTINE)\<lparr>guard_boundary_block := True\<rparr>)
          else scalar_paths g call is_write rest)
       else Inl (plain_result False (''Path argument '' @ [CHR 0x27] @ arg @ [CHR 0x27]
              @ '' must be a string, got '' @ type_name v) ROUTINE))"

definition list_paths :: "full_call \<Rightarrow> bool \<Rightarrow> string list \<Rightarrow> path_to_check list" where
  "list_paths call is_write list_path_args =
     (let cwd = (let v = dget (call_arguments call) ''cwd'' in if truthy v then py_str v else []) in
      concat (map (\<lambda>arg. case dget (call_arguments call) arg of
          JArr raws \<Rightarrow> map (\<lambda>raw.
            (let p = path_text (py_str raw) in
             (if cwd \<noteq> [] \<and> \<not> is_absolute p then path_join cwd p else p, is_write, None))) raws
        | _ \<Rightarrow> []) list_path_args))"

text \<open>
  The literal redirection targets of a command that lie in the platform's own state.  A
  command that is not text raises in \<^verbatim>\<open>findall\<close>.
\<close>

fun platform_redirects :: "os_view \<Rightarrow> string list \<Rightarrow> guard_exc + path_to_check list" where
  "platform_redirects os [] = Inr []"
| "platform_redirects os (wp # wps) =
     bind_res (expand os wp) (\<lambda>p. bind_res (platform_redirects os wps) (\<lambda>rest.
       case os_resolve os p of
         Inl e \<Rightarrow> Inr rest
       | Inr candidate \<Rightarrow> Inr (if is_relative_to candidate (PLATFORM_DATA_ROOT os) then (wp, True, None) # rest else rest)))"

definition opaque_paths :: "os_view \<Rightarrow> tool_guard \<Rightarrow> full_call \<Rightarrow> guard_exc + (guard_result + path_to_check list)" where
  "opaque_paths os g call =
     (let requires_sandbox = (case map_of (guard_contracts g) (call_name call) of
            None \<Rightarrow> False | Some d \<Rightarrow> contract_execution_environment d = ''sandbox'') in
      if is_working_directory_scoped (guard_files g) \<and> \<not> requires_sandbox then
        Inr (Inl (plain_result False
          ''Opaque command execution requires a sandbox while a working-directory boundary is active'' ROUTINE))
      else case map_of (call_arguments call) ''command'' of
        None \<Rightarrow> Inr (Inr [])
      | Some (JStr cmd) \<Rightarrow> bind_res (platform_redirects os (extract_shell_write_paths cmd)) (\<lambda>ps. Inr (Inr ps))
      | Some _ \<Rightarrow> Inl GuardTypeError)"

fun check_all :: "os_view \<Rightarrow> tool_guard \<Rightarrow> path_to_check list \<Rightarrow> guard_exc + guard_result option" where
  "check_all os g [] = Inr None"
| "check_all os g ((p, writing, declared) # rest) =
     bind_res (check_path os (guard_files g) p writing declared) (\<lambda>result.
       if guard_allowed result \<or> (guard_boundary_block result \<and> is_path_allowed os p (guard_whitelist g))
       then check_all os g rest else Inr (Some result))"

definition check_file_paths :: "os_view \<Rightarrow> tool_guard \<Rightarrow> full_call \<Rightarrow> guard_exc + guard_result option" where
  "check_file_paths os g call =
     (let (path_args, list_path_args, is_write, opaque_command) = resolve_path_metadata g (call_name call) in
      if path_args = [] \<and> list_path_args = [] \<and> \<not> opaque_command then Inr None
      else case scalar_paths g call is_write path_args of
        Inl result \<Rightarrow> Inr (Some result)
      | Inr scalars \<Rightarrow>
          bind_res (if opaque_command then opaque_paths os g call else Inr (Inr [])) (\<lambda>opaque. case opaque of
              Inl result \<Rightarrow> Inr (Some result)
            | Inr redirects \<Rightarrow> check_all os g (scalars @ list_paths call is_write list_path_args @ redirects)))"

subsection \<open>Levels, approval and scope\<close>

definition permission_level_of :: "string \<Rightarrow> permission_level option" where
  "permission_level_of v = find (\<lambda>l. level_value l = v) [READ, WRITE, EXECUTE, DESTRUCTIVE]"

definition resolve_permission_level :: "tool_guard \<Rightarrow> string \<Rightarrow> permission_level" where
  "resolve_permission_level g name = (case map_of (guard_contracts g) name of
     None \<Rightarrow> EXECUTE
   | Some d \<Rightarrow> (case permission_level_of (contract_permission_level d) of None \<Rightarrow> EXECUTE | Some l \<Rightarrow> l))"

definition resolve_approval_policy :: "tool_guard \<Rightarrow> string \<Rightarrow> string" where
  "resolve_approval_policy g name = (case map_of (guard_contracts g) name of
     None \<Rightarrow> ''always''
   | Some d \<Rightarrow>
       if contract_approval_policy d \<noteq> ''never'' then contract_approval_policy d
       else if tool_is_write d \<or> contract_side_effect d \<noteq> ''none''
               \<or> contract_permission_level d \<in> {''write'', ''execute'', ''destructive''} then ''policy''
       else ''never'')"

definition network_tool :: "tool_guard \<Rightarrow> string \<Rightarrow> bool" where
  "network_tool g name = (case map_of (guard_contracts g) name of None \<Rightarrow> False | Some d \<Rightarrow> contract_network_access d)"

definition call_action :: "full_call \<Rightarrow> string" where
  "call_action call = str_or (dget (call_arguments call) ''action'') []"

definition requires_approval :: "tool_guard \<Rightarrow> full_call \<Rightarrow> bool" where
  "requires_approval g call =
     (if network_tool g (call_name call) then True
      else let policy = resolve_approval_policy g (call_name call) in
        if policy = ''never'' then False
        else if policy = ''always'' then True
        else case map_of (guard_contracts g) (call_name call) of
          None \<Rightarrow> True
        | Some d \<Rightarrow> lower (call_action call) \<notin> set (tool_read_actions d))"

definition first_truthy :: "jdict \<Rightarrow> string list \<Rightarrow> json option" where
  "first_truthy arguments names = find truthy (map (dget arguments) names)"

definition approval_scope_for :: "tool_guard \<Rightarrow> full_call \<Rightarrow> bool \<Rightarrow> approval_scope" where
  "approval_scope_for g call high_risk =
     (let (path_args, list_path_args, is_write, opaque_command) = resolve_path_metadata g (call_name call);
          args = call_arguments call; action = strip (call_action call) in
      if opaque_command then scope_host_command (str_or (dget args ''command'') []) high_risk
      else if network_tool g (call_name call) then
        scope_network (case first_truthy args [''url'', ''query'', ''target''] of
            Some v \<Rightarrow> py_str v | None \<Rightarrow> call_name call) high_risk
      else if action \<noteq> [] then scope_operation (call_name call @ '':'' @ action) high_risk
      else case first_truthy args path_args of
        Some v \<Rightarrow> scope_path (py_str v) is_write high_risk
      | None \<Rightarrow>
          (case find (\<lambda>v. case v of JArr (x # xs) \<Rightarrow> True | _ \<Rightarrow> False) (map (dget args) list_path_args) of
             Some (JArr (x # xs)) \<Rightarrow> scope_path (py_str x) is_write high_risk
           | _ \<Rightarrow> scope_operation (call_name call) high_risk))"

definition risk_for_file_result :: "guard_result \<Rightarrow> risk_tier" where
  "risk_for_file_result r =
     (if guard_approval_required r then
        risk_for_approval (Some (level_value (guard_level r)))
          (case guard_scope r of None \<Rightarrow> False | Some s \<Rightarrow> scope_high_risk s) False False
      else if guard_level r = DESTRUCTIVE
              \<or> list_ex (\<lambda>marker. contains marker (guard_reason r)) [''runtime-secret'', ''unsafe-alias'', ''runtime-provider'']
        then CRITICAL
      else ROUTINE)"

subsection \<open>The decision\<close>

definition rule_result :: "tool_guard \<Rightarrow> full_call \<Rightarrow> guard_rule \<Rightarrow> string \<Rightarrow> guard_result" where
  "rule_result g call rule pattern =
     (let reason = (if truthy (rule_reason rule) then py_str (rule_reason rule)
                    else if truthy (rule_description rule) then py_str (rule_description rule)
                    else ''Blocked: '' @ pattern) in
      \<lparr>guard_allowed = False,
       guard_reason = ''['' @ (case rule_id rule of None \<Rightarrow> ''?'' | Some v \<Rightarrow> py_str v) @ ''] '' @ reason
                      @ ''; high-risk approval is required'',
       guard_level = DESTRUCTIVE, guard_needs_confirmation = True, guard_approval_required = True,
       guard_boundary_block = False, guard_scope = Some (approval_scope_for g call True), guard_risk = CRITICAL\<rparr>)"

definition ordinary_result :: "tool_guard \<Rightarrow> full_call \<Rightarrow> permission_level \<Rightarrow> guard_result" where
  "ordinary_result g call level =
     (let required = requires_approval g call;
          scope = (if required then Some (approval_scope_for g call False) else None) in
      \<lparr>guard_allowed = True, guard_reason = (if required then ''Approval required for '' @ call_name call else []),
       guard_level = level, guard_needs_confirmation = False, guard_approval_required = required,
       guard_boundary_block = False, guard_scope = scope,
       guard_risk = (if required
                     then risk_for_approval (Some (level_value level))
                            (case scope of None \<Rightarrow> False | Some s \<Rightarrow> scope_high_risk s)
                            (network_tool g (call_name call)) False
                     else ROUTINE)\<rparr>)"

text \<open>
  The decision with the extra fields of its audit record.  \<open>check\<close> below wraps it with the
  recording; an exception leaves before anything is recorded.
\<close>

definition decide :: "os_view \<Rightarrow> tool_guard \<Rightarrow> full_call \<Rightarrow> guard_exc + guard_result \<times> jdict" where
  "decide os g call =
     (let level = resolve_permission_level g (call_name call); (_, _, _, opaque_command) = resolve_path_metadata g (call_name call) in
      if opaque_command \<and> command_mentions_runtime_credential os (str_or (dget (call_arguments call) ''command'') [])
      then Inr ((plain_result False RUNTIME_SECRET CRITICAL)\<lparr>guard_level := level\<rparr>, [])
      else bind_res (rules_hit (guard_rules g) (call_name call) (rule_match_targets (call_arguments call))) (\<lambda>hit.
        case hit of
          Some (rule, pattern) \<Rightarrow> Inr (rule_result g call rule pattern,
            [(''rule_id'', (case rule_id rule of None \<Rightarrow> JNull | Some v \<Rightarrow> v))])
        | None \<Rightarrow> bind_res (check_file_paths os g call) (\<lambda>file_result. case file_result of
            Some r \<Rightarrow> (let r = r\<lparr>guard_level := level\<rparr> in Inr (r\<lparr>guard_risk := risk_for_file_result r\<rparr>, []))
          | None \<Rightarrow> Inr (ordinary_result g call level,
              [(''whitelisted'', JBool (is_tool_allowed (call_name call) (guard_whitelist g)))]))))"

definition guard_check :: "os_view \<Rightarrow> tool_guard \<Rightarrow> full_call \<Rightarrow> guard_exc + guard_result" where
  "guard_check os g call = bind_res (decide os g call) (\<lambda>(result, extra). Inr result)"

subsection \<open>The audit record\<close>

fun audit_value :: "nat \<Rightarrow> json \<Rightarrow> json"
  and audit_sequence :: "nat \<Rightarrow> bool \<Rightarrow> json list \<Rightarrow> json list"
  and audit_args :: "nat \<Rightarrow> jdict \<Rightarrow> jdict" where
  "audit_value max_len v = (case v of
     JObj d \<Rightarrow> JObj (audit_args max_len d)
   | JArr vs \<Rightarrow> JArr (audit_sequence max_len False vs)
   | JStr s \<Rightarrow>
       (let safe = redact_secret_text s in
        JStr (if max_len < length safe then take max_len safe @ ''...('' @ show_nat (length s) @ '' chars)'' else safe))
   | _ \<Rightarrow> v)"
| "audit_sequence max_len redact_next [] = []"
| "audit_sequence max_len redact_next (item # rest) =
     (if redact_next then JStr ''***'' # audit_sequence max_len False rest
      else case item of
        JStr s \<Rightarrow>
          if re_match SECRET_FLAG_RE s then
            (if CHR ''='' \<in> set s then JStr (before_equals s @ ''=***'') # audit_sequence max_len False rest
             else item # audit_sequence max_len True rest)
          else if is_secret_value s then JStr ''***'' # audit_sequence max_len False rest
          else audit_value max_len item # audit_sequence max_len False rest
      | _ \<Rightarrow> audit_value max_len item # audit_sequence max_len False rest)"
| "audit_args max_len [] = []"
| "audit_args max_len ((k, v) # rest) =
     (k, if is_sensitive_argument_name k then JStr ''***'' else audit_value max_len v) # audit_args max_len rest"

definition AUDIT_MAX_LEN :: nat where "AUDIT_MAX_LEN = 200"

text \<open>The entry as a dictionary display: the extra fields overwrite equal keys.\<close>

definition audit_entry :: "string \<Rightarrow> string \<Rightarrow> jdict \<Rightarrow> guard_result \<Rightarrow> jdict \<Rightarrow> jdict" where
  "audit_entry ts tool_name arguments result extra =
     foldl (\<lambda>d (k, v). dset k v d)
       [(''ts'', JStr ts), (''tool'', JStr tool_name), (''args_summary'', JObj (audit_args AUDIT_MAX_LEN arguments)),
        (''allowed'', JBool (guard_allowed result)), (''level'', JStr (level_value (guard_level result))),
        (''risk'', JStr (risk_value (guard_risk result))),
        (''reason'', if guard_reason result = [] then JNull else JStr (guard_reason result))]
       (audit_args AUDIT_MAX_LEN extra)"

text \<open>
  \<^verbatim>\<open>ToolGuard.check\<close> with the log it writes to.  A failed append is logged and swallowed, so the
  decision does not depend on it; \<open>run_id\<close> is the run of the current approval context.
\<close>

definition check ::
  "digest \<Rightarrow> os_answers \<Rightarrow> string \<Rightarrow> string option \<Rightarrow> bool \<Rightarrow> os_view \<Rightarrow> tool_guard \<Rightarrow> full_call
    \<Rightarrow> chain_log \<times> chain_fs \<Rightarrow> (guard_exc + guard_result) \<times> chain_log \<times> chain_fs" where
  "check H io ts run_id audit os g call logged = (case decide os g call of
     Inl e \<Rightarrow> (Inl e, logged)
   | Inr (result, extra) \<Rightarrow>
       (Inr result,
        if audit then
          snd (append H io False (audit_entry ts (call_name call) (call_arguments call) result
            (extra @ [(''call_id'', JStr (call_id call))] @ (case run_id of None \<Rightarrow> [] | Some r \<Rightarrow> [(''run_id'', JStr r)])))
            (fst logged) (snd logged))
        else logged))"

end
