(* ===== verification/Guard_Safety.thy ===== *)
theory Guard_Safety
  imports Tool_Guard
begin

text \<open>
  What the tool guard guarantees: which paths it lets through, that the session whitelist
  extends only the directory boundary, that the declared spelling of a path can only add
  refusals, and which calls run without an approval.
\<close>

subsection \<open>The rules refuse\<close>

lemma plain_result_simps [simp]:
  "guard_allowed (plain_result b reason risk) = b"
  "guard_boundary_block (plain_result b reason risk) = False"
  "guard_approval_required (plain_result b reason risk) = False"
  "guard_scope (plain_result b reason risk) = None"
  by (simp_all add: plain_result_def)

lemma path_approval_simps [simp]:
  "\<not> guard_allowed (path_approval target writing reason high_risk boundary_block)"
  "guard_boundary_block (path_approval target writing reason high_risk boundary_block) = boundary_block"
  "guard_approval_required (path_approval target writing reason high_risk boundary_block)"
  "guard_scope (path_approval target writing reason high_risk boundary_block) = Some (scope_path target writing high_risk)"
  "guard_risk (path_approval target writing reason high_risk boundary_block) = (if high_risk then HIGH else ELEVATED)"
  by (simp_all add: path_approval_def risk_for_approval_def)

text \<open>A refusal: not allowed, and not one the directory boundary explains.\<close>

definition firm :: "guard_result \<Rightarrow> bool" where
  "firm r \<longleftrightarrow> \<not> guard_allowed r \<and> \<not> guard_boundary_block r"

lemma firm_simps [simp]:
  "firm (plain_result False reason risk)"
  "firm (path_approval target writing reason high_risk False)"
  by (simp_all add: firm_def)

lemma non_delegable_firm: "non_delegable_rules os fg writing target lexical = Some r \<Longrightarrow> firm r"
  by (auto simp: non_delegable_rules_def split: if_splits)

lemma credential_firm: "credential_rules writing target lexical = Some r \<Longrightarrow> firm r"
  by (auto simp: credential_rules_def split: option.splits list.splits)

lemma read_firm: "read_rules target lexical = Some r \<Longrightarrow> firm r"
  by (auto simp: read_rules_def Let_def split: option.splits if_splits)

lemma write_firm: "write_rules os fg target lexical = Inr (Some r) \<Longrightarrow> firm r"
  by (auto simp: write_rules_def bind_res_Inr split: option.splits if_splits)

lemmas rules_firm = non_delegable_firm credential_firm read_firm write_firm

text \<open>What a successful \<open>check_path\<close> went through.\<close>

definition passes_rules :: "os_view \<Rightarrow> file_guard \<Rightarrow> bool \<Rightarrow> string \<Rightarrow> string \<Rightarrow> bool" where
  "passes_rules os fg writing target lexical \<longleftrightarrow>
     non_delegable_rules os fg writing target lexical = None \<and> credential_rules writing target lexical = None \<and>
     (if writing then write_rules os fg target lexical = Inr None else read_rules target lexical = None)"

lemma check_path_not_firm:
  assumes check: "check_path os fg p writing d = Inr r" and "\<not> firm r"
    and views: "path_views os fg p d = Inr (Some (target, lexical))"
  shows "passes_rules os fg writing target lexical \<and> r = boundary_rule fg p writing target"
proof -
  have nd: "non_delegable_rules os fg writing target lexical = None"
    using assms by (cases "non_delegable_rules os fg writing target lexical")
      (simp_all add: check_path_def, blast dest: non_delegable_firm)
  have cred: "credential_rules writing target lexical = None"
    using assms nd by (cases "credential_rules writing target lexical")
      (simp_all add: check_path_def, blast dest: credential_firm)
  show ?thesis
  proof (cases writing)
    case True
    with check views nd cred obtain rule where rule: "write_rules os fg target lexical = Inr rule"
      by (auto simp: check_path_def bind_res_Inr)
    with True assms nd cred show ?thesis
      by (cases rule) (auto simp: check_path_def passes_rules_def dest: write_firm)
  next
    case False
    with assms nd cred show ?thesis
      by (cases "read_rules target lexical") (auto simp: check_path_def passes_rules_def dest: read_firm)
  qed
qed

lemma check_path_cases:
  assumes "check_path os fg p writing d = Inr r"
  obtains (firm) "firm r"
  | (boundary) target lexical where "path_views os fg p d = Inr (Some (target, lexical))"
      "passes_rules os fg writing target lexical" "r = boundary_rule fg p writing target"
proof -
  from assms obtain views where views: "path_views os fg p d = Inr views"
    by (auto simp: check_path_def bind_res_Inr)
  show thesis
  proof (cases views)
    case None
    with assms views firm show ?thesis by (auto simp: check_path_def)
  next
    case (Some tl)
    obtain target lexical where tl: "tl = (target, lexical)" by (cases tl)
    with check_path_not_firm [OF assms] views Some boundary firm show ?thesis by blast
  qed
qed

lemma boundary_rule_allowed: "guard_allowed (boundary_rule fg p writing target) \<longleftrightarrow> is_inside_allowed_dirs fg target"
  by (simp add: boundary_rule_def is_inside_allowed_dirs_def)

lemma boundary_rule_block:
  "guard_boundary_block (boundary_rule fg p writing target) \<Longrightarrow>
   guard_risk (boundary_rule fg p writing target) = ELEVATED \<and>
   guard_scope (boundary_rule fg p writing target) = Some (scope_path target writing False)"
  by (auto simp: boundary_rule_def split: if_splits)

lemma check_path_rules:
  "path_views os fg p d = Inr (Some (target, lexical)) \<Longrightarrow> passes_rules os fg writing target lexical \<Longrightarrow>
   check_path os fg p writing d = Inr (boundary_rule fg p writing target)"
  by (auto simp: check_path_def passes_rules_def split: if_splits)

lemma check_path_allowed:
  "check_path os fg p writing d = Inr r \<Longrightarrow> guard_allowed r \<Longrightarrow>
   \<exists>target lexical. path_views os fg p d = Inr (Some (target, lexical)) \<and>
     passes_rules os fg writing target lexical \<and> is_inside_allowed_dirs fg target"
  by (erule check_path_cases) (auto simp: firm_def boundary_rule_allowed)

lemma find_None: "find P xs = None \<longleftrightarrow> (\<forall>x \<in> set xs. \<not> P x)"
  by (induction xs) auto

lemma set_ordered_unique: "set (ordered_unique seen vs) = set seen \<union> set vs"
  by (induction vs arbitrary: seen) auto

lemma non_delegable_None:
  "non_delegable_rules os fg writing target lexical = None \<longleftrightarrow>
     \<not> is_runtime_credential_path os [target] \<and> \<not> is_runtime_credential_path os [lexical] \<and>
     \<not> shares_inode_with_runtime_credential os target \<and>
     (writing \<longrightarrow> \<not> is_non_delegable_write_target fg target lexical)"
  by (auto simp: non_delegable_rules_def is_runtime_credential_path_def)

lemma credential_None:
  "credential_rules writing target lexical = None \<longleftrightarrow>
     (\<forall>part \<in> set (parts target) \<union> set (parts lexical). lower part \<notin> set ALWAYS_BLOCKED) \<and>
     credential_pair target = None \<and> credential_pair lexical = None"
  by (auto simp: credential_rules_def find_None List.map_filter_def split: option.splits dest!: find_SomeD)

lemma read_None:
  "read_rules target lexical = None \<longleftrightarrow>
     \<not> is_sensitive_read_name (lower (path_name target)) \<and> \<not> is_sensitive_read_name (lower (path_name lexical)) \<and>
     \<not> ((lower (path_name target) \<in> set GIT_CREDENTIAL_FILES \<or> lower (path_name lexical) \<in> set GIT_CREDENTIAL_FILES) \<and>
         (\<exists>part \<in> set (parts target) \<union> set (parts lexical). lower part = ''.git''))"
  by (auto simp: read_rules_def Let_def find_None set_ordered_unique list_ex_iff split: option.splits)

lemma write_None:
  "write_rules os fg target lexical = Inr None \<longleftrightarrow>
     (\<forall>name \<in> {lower (path_name target), lower (path_name lexical)}. name \<notin> set SENSITIVE_WRITE \<and> \<not> starts_with ''.env'' name) \<and>
     (\<forall>part \<in> set (parts target) \<union> set (parts lexical). lower part \<notin> set SENSITIVE_DIRS) \<and>
     \<not> platform_state os target lexical \<and>
     shares_inode_with_protected_file os target (fg_working_dir fg) (fg_non_delegable_write_roots fg) = Inr False"
  by (auto simp: write_rules_def find_None set_ordered_unique bind_res_Inr split: option.splits if_splits dest!: find_SomeD)

lemmas rules_None = non_delegable_None credential_None read_None write_None

subsection \<open>Allowed calls touch only vetted paths\<close>

text \<open>What one spelling of a path must not be, by the names it is made of.\<close>

definition unprotected :: "os_view \<Rightarrow> file_guard \<Rightarrow> bool \<Rightarrow> string \<Rightarrow> bool" where
  "unprotected os fg writing v \<longleftrightarrow>
     casefolded v \<notin> casefolded ` set (RUNTIME_CREDENTIAL_PATHS os) \<and>
     (\<forall>part \<in> set (parts v). lower part \<notin> set ALWAYS_BLOCKED) \<and> credential_pair v = None \<and>
     (if writing
      then lower (path_name v) \<notin> set SENSITIVE_WRITE \<and> \<not> starts_with ''.env'' (lower (path_name v)) \<and>
           (\<forall>part \<in> set (parts v). lower part \<notin> set SENSITIVE_DIRS) \<and>
           (\<forall>root \<in> set (fg_non_delegable_write_roots fg). \<not> is_relative_to (casefolded v) (casefolded root))
      else \<not> is_sensitive_read_name (lower (path_name v)))"

text \<open>What its inode must not be.\<close>

definition unaliased :: "os_view \<Rightarrow> file_guard \<Rightarrow> bool \<Rightarrow> string \<Rightarrow> bool" where
  "unaliased os fg writing target \<longleftrightarrow>
     \<not> shares_inode_with_runtime_credential os target \<and>
     (writing \<longrightarrow> shares_inode_with_protected_file os target (fg_working_dir fg) (fg_non_delegable_write_roots fg) = Inr False)"

lemma passes_rules_vetted:
  "passes_rules os fg writing target lexical \<Longrightarrow>
   unprotected os fg writing target \<and> unprotected os fg writing lexical \<and> unaliased os fg writing target"
  by (auto simp: passes_rules_def rules_None unprotected_def unaliased_def is_runtime_credential_path_def
      is_non_delegable_write_target_def list_ex_iff split: if_splits)

lemma check_all_passed:
  "check_all os g ps = Inr None \<Longrightarrow> (p, writing, d) \<in> set ps \<Longrightarrow>
   \<exists>r. check_path os (guard_files g) p writing d = Inr r \<and>
     (guard_allowed r \<or> (guard_boundary_block r \<and> is_path_allowed os p (guard_whitelist g)))"
  by (induction os g ps rule: check_all.induct) (auto simp: bind_res_Inr split: if_splits)

lemma scalar_paths_covers:
  assumes "scalar_paths g call w args = Inr ps" "arg \<in> set args"
    and "dget (call_arguments call) arg = JStr p" "p \<noteq> []"
  shows "(p, w, map_of (call_declared_paths call) arg) \<in> set ps"
  using assms
proof (induction args arbitrary: ps)
  case (Cons a args)
  show ?case
  proof (cases "a = arg")
    case True
    with Cons.prems show ?thesis by (cases p) (auto simp: bind_res_Inr)
  next
    case False
    with Cons show ?thesis by (auto simp: bind_res_Inr split: json.splits list.splits if_splits)
  qed
qed simp

lemma rule_result_simps [simp]:
  "\<not> guard_allowed (rule_result g call rule pattern)"
  "guard_approval_required (rule_result g call rule pattern)"
  "guard_risk (rule_result g call rule pattern) = CRITICAL"
  "guard_scope (rule_result g call rule pattern) = Some (approval_scope_for g call True)"
  by (simp_all add: rule_result_def Let_def)

lemma ordinary_result_simps [simp]:
  "guard_allowed (ordinary_result g call level)"
  "guard_approval_required (ordinary_result g call level) = requires_approval g call"
  by (simp_all add: ordinary_result_def Let_def)

text \<open>The four ways a decision comes about.\<close>

lemma decide_cases:
  assumes "decide os g call = Inr (r, extra)"
  obtains (secret) "r = (plain_result False RUNTIME_SECRET CRITICAL)\<lparr>guard_level := resolve_permission_level g (call_name call)\<rparr>"
  | (rule) rule pattern where
      "rules_hit (guard_rules g) (call_name call) (rule_match_targets (call_arguments call)) = Inr (Some (rule, pattern))"
      "r = rule_result g call rule pattern"
  | (path) r0 where
      "rules_hit (guard_rules g) (call_name call) (rule_match_targets (call_arguments call)) = Inr None"
      "check_file_paths os g call = Inr (Some r0)"
      "r = (r0\<lparr>guard_level := resolve_permission_level g (call_name call)\<rparr>)\<lparr>guard_risk :=
         risk_for_file_result (r0\<lparr>guard_level := resolve_permission_level g (call_name call)\<rparr>)\<rparr>"
  | (ordinary)
      "rules_hit (guard_rules g) (call_name call) (rule_match_targets (call_arguments call)) = Inr None"
      "check_file_paths os g call = Inr None" "r = ordinary_result g call (resolve_permission_level g (call_name call))"
proof -
  obtain pa la w opaque where meta: "resolve_path_metadata g (call_name call) = (pa, la, w, opaque)"
    by (metis prod_cases4)
  let ?hit = "rules_hit (guard_rules g) (call_name call) (rule_match_targets (call_arguments call))"
  show thesis
  proof (cases "opaque \<and> command_mentions_runtime_credential os (str_or (dget (call_arguments call) ''command'') [])")
    case True
    with assms meta secret show ?thesis by (simp add: decide_def)
  next
    case False
    with assms meta obtain hit where hit: "?hit = Inr hit"
      by (cases ?hit) (auto simp: decide_def Let_def)
    show ?thesis
    proof (cases hit)
      case (Some rp)
      obtain ru pat where rp: "rp = (ru, pat)" by (cases rp)
      with assms meta False hit Some rule [of ru pat] show ?thesis by (simp add: decide_def)
    next
      case None
      with assms meta False hit obtain fr where fr: "check_file_paths os g call = Inr fr"
        by (cases "check_file_paths os g call") (auto simp: decide_def Let_def)
      show ?thesis
      proof (cases fr)
        case None
        with assms meta False hit \<open>hit = None\<close> fr ordinary show ?thesis by (simp add: decide_def)
      next
        case (Some r0)
        with assms meta False hit \<open>hit = None\<close> fr path [of r0] show ?thesis by (simp add: decide_def Let_def)
      qed
    qed
  qed
qed

lemma check_all_refused: "check_all os g ps = Inr (Some r) \<Longrightarrow> \<not> guard_allowed r"
  by (induction os g ps rule: check_all.induct) (auto simp: bind_res_Inr split: if_splits)

lemma scalar_paths_refused: "scalar_paths g call w args = Inl r \<Longrightarrow> \<not> guard_allowed r"
proof (induction args)
  case (Cons a args)
  then show ?case
    by (cases "scalar_paths g call w args")
      (auto split: json.splits list.splits if_splits)
qed simp

lemma check_file_paths_refused:
  assumes "check_file_paths os g call = Inr (Some r)"
  shows "\<not> guard_allowed r"
proof -
  obtain pa la w opaque where meta: "resolve_path_metadata g (call_name call) = (pa, la, w, opaque)"
    by (metis prod_cases4)
  show ?thesis
  proof (cases "scalar_paths g call w pa")
    case (Inl r')
    with assms meta have "r' = r" by (auto simp: check_file_paths_def split: if_splits)
    with Inl scalar_paths_refused show ?thesis by blast
  next
    case (Inr scalars)
    with assms meta obtain opaque' where op: "(if opaque then opaque_paths os g call else Inr (Inr [])) = Inr opaque'"
      by (auto simp: check_file_paths_def bind_res_Inr split: if_splits)
    show ?thesis
    proof (cases opaque')
      case (Inl r')
      with op have "\<not> guard_allowed r'"
        by (auto simp: opaque_paths_def Let_def bind_res_Inr split: if_splits option.splits json.splits)
      moreover from assms meta Inr op Inl have "r' = r" by (auto simp: check_file_paths_def split: if_splits)
      ultimately show ?thesis by simp
    next
      case (Inr redirects)
      with assms meta op \<open>scalar_paths g call w pa = Inr scalars\<close>
      have "check_all os g (scalars @ list_paths call w la @ redirects) = Inr (Some r)"
        by (auto simp: check_file_paths_def split: if_splits)
      then show ?thesis by (rule check_all_refused)
    qed
  qed
qed

lemma platform_redirects_cover:
  assumes "expand os wp = Inr q" "os_resolve os q = Inr t" "is_relative_to t (PLATFORM_DATA_ROOT os)"
  shows "platform_redirects os wps = Inr ps \<Longrightarrow> wp \<in> set wps \<Longrightarrow> (wp, True, None) \<in> set ps"
proof (induction wps arbitrary: ps)
  case (Cons a wps)
  then obtain x rest where x: "expand os a = Inr x" "platform_redirects os wps = Inr rest"
    by (auto simp: bind_res_Inr)
  show ?case
  proof (cases "os_resolve os x")
    case (Inl e)
    with Cons x assms show ?thesis by auto
  next
    case (Inr c)
    with Cons x assms show ?thesis by (auto split: if_splits)
  qed
qed simp

text \<open>
  The paths a call of a tool names: a scalar path argument, an entry of a list argument (under
  the call's \<^verbatim>\<open>cwd\<close> when relative), or the literal target of a redirection of an opaque command
  that lies in the platform's own state.  With it goes whether it is written and the spelling
  the caller declared.
\<close>

definition names_path :: "os_view \<Rightarrow> full_call \<Rightarrow> tool_contract \<Rightarrow> string \<Rightarrow> bool \<Rightarrow> string option \<Rightarrow> bool" where
  "names_path os call d p writing declared \<longleftrightarrow>
     (\<exists>arg \<in> set (tool_path_args d). dget (call_arguments call) arg = JStr p \<and> p \<noteq> []
        \<and> writing = tool_is_write d \<and> declared = map_of (call_declared_paths call) arg)
     \<or> (p, writing, declared) \<in> set (list_paths call (tool_is_write d) (contract_list_path_args d))
     \<or> (\<exists>cmd q t. contract_opaque_command d \<and> map_of (call_arguments call) ''command'' = Some (JStr cmd)
        \<and> p \<in> set (extract_shell_write_paths cmd) \<and> expand os p = Inr q \<and> os_resolve os q = Inr t
        \<and> is_relative_to t (PLATFORM_DATA_ROOT os) \<and> writing \<and> declared = None)"

lemma check_file_paths_passed:
  assumes "check_file_paths os g call = Inr None" "map_of (guard_contracts g) (call_name call) = Some d"
    and "names_path os call d p writing declared"
  shows "\<exists>r. check_path os (guard_files g) p writing declared = Inr r \<and>
     (guard_allowed r \<or> (guard_boundary_block r \<and> is_path_allowed os p (guard_whitelist g)))"
proof -
  have meta: "resolve_path_metadata g (call_name call)
      = (tool_path_args d, contract_list_path_args d, tool_is_write d, contract_opaque_command d)"
    using assms by (simp add: resolve_path_metadata_def)
  have "\<not> (tool_path_args d = [] \<and> contract_list_path_args d = [] \<and> \<not> contract_opaque_command d)"
    using assms(3) by (auto simp: names_path_def list_paths_def)
  with meta assms(1) obtain scalars opaque where
    scalars: "scalar_paths g call (tool_is_write d) (tool_path_args d) = Inr scalars"
    and opaque: "(if contract_opaque_command d then opaque_paths os g call else Inr (Inr [])) = Inr opaque"
      "(case opaque of Inl result \<Rightarrow> Inr (Some result) | Inr redirects \<Rightarrow> check_all os g
         (scalars @ list_paths call (tool_is_write d) (contract_list_path_args d) @ redirects)) = Inr None"
    by (cases "scalar_paths g call (tool_is_write d) (tool_path_args d)")
      (auto simp: check_file_paths_def bind_res_Inr)
  then obtain redirects where redirects: "opaque = Inr redirects"
      "check_all os g (scalars @ list_paths call (tool_is_write d) (contract_list_path_args d) @ redirects) = Inr None"
    by (cases opaque) auto
  have "(p, True, None) \<in> set redirects"
    if "contract_opaque_command d" "map_of (call_arguments call) ''command'' = Some (JStr cmd)"
      "p \<in> set (extract_shell_write_paths cmd)" "expand os p = Inr q" "os_resolve os q = Inr t"
      "is_relative_to t (PLATFORM_DATA_ROOT os)" for cmd q t
    using that opaque(1) redirects(1)
    by (auto simp: opaque_paths_def Let_def bind_res_Inr split: if_splits intro: platform_redirects_cover)
  then have "(p, writing, declared)
      \<in> set (scalars @ list_paths call (tool_is_write d) (contract_list_path_args d) @ redirects)"
    using assms(3) scalar_paths_covers [OF scalars] unfolding names_path_def by auto
  with redirects(2) show ?thesis by (rule check_all_passed)
qed


text \<open>
  C14. A call of a registered tool that the guard allows names only vetted paths: every scalar
  path argument, every entry of a list argument, and every redirection target of an opaque
  command that lies in the platform's state (what else such a command does is not parsed).
  Both the path it resolves to and the path as the caller spelled it are free of credential
  directories and pairs, runtime credential files and sensitive names, in any case, and for a
  write free of \<^verbatim>\<open>.git\<close> components and outside the roots models may not write; the resolved
  file is not a hard link to a runtime credential, and for a write not to any protected file;
  and it lies inside an allowed directory unless the session whitelist holds the file that the
  argument names when \<^verbatim>\<open>~\<close> is not expanded and the process directory is the base.
\<close>

theorem allowed_call_paths_vetted:
  assumes "guard_check os g call = Inr r" "guard_allowed r"
    and "map_of (guard_contracts g) (call_name call) = Some d" "names_path os call d p writing declared"
  shows "\<exists>target lexical. path_views os (guard_files g) p declared = Inr (Some (target, lexical)) \<and>
     unprotected os (guard_files g) writing target \<and> unprotected os (guard_files g) writing lexical \<and>
     unaliased os (guard_files g) writing target \<and>
     (is_inside_allowed_dirs (guard_files g) target \<or> is_path_allowed os p (guard_whitelist g))"
proof -
  obtain extra where "decide os g call = Inr (r, extra)"
    using assms(1) by (auto simp: guard_check_def bind_res_Inr)
  then have "check_file_paths os g call = Inr None"
    using assms(2) by (cases rule: decide_cases) (auto dest: check_file_paths_refused)
  from check_file_paths_passed [OF this assms(3,4)] obtain r' where
    check: "check_path os (guard_files g) p writing declared = Inr r'"
    and r': "guard_allowed r' \<or> (guard_boundary_block r' \<and> is_path_allowed os p (guard_whitelist g))" by blast
  from check show ?thesis
  proof (cases rule: check_path_cases)
    case firm
    with r' show ?thesis by (simp add: firm_def)
  next
    case (boundary target lexical)
    with r' passes_rules_vetted [OF boundary(2)] show ?thesis
      by (auto simp: boundary_rule_allowed)
  qed
qed

text \<open>
  The declared spelling of a path can only add refusals: when the path argument is already
  resolved, a path that the guard allows with a declared spelling is one it allows without.
\<close>

theorem declared_spelling_only_refuses:
  assumes resolved: "expand os p = Inr p" "anchor_path fg p = p" "abspath os p = p" "os_resolve os p = Inr p"
    and "check_path os fg p writing (Some d) = Inr r" "guard_allowed r"
  shows "check_path os fg p writing None = Inr (plain_result True [] ROUTINE)"
proof -
  from check_path_allowed [OF assms(5,6)] obtain target lexical where
    views: "path_views os fg p (Some d) = Inr (Some (target, lexical))"
    and rules: "passes_rules os fg writing target lexical" and inside: "is_inside_allowed_dirs fg target" by blast
  have target: "target = p"
    using views resolved by (auto simp: path_views_def bind_res_Inr Let_def split: if_splits)
  have "passes_rules os fg writing p p"
    using rules unfolding target passes_rules_def rules_None
    by (auto simp: is_non_delegable_write_target_def list_ex_iff platform_state_def Let_def split: if_splits)
  moreover have "path_views os fg p None = Inr (Some (p, p))"
    using resolved by (simp add: path_views_def)
  ultimately have "check_path os fg p writing None = Inr (boundary_rule fg p writing p)"
    by (intro check_path_rules) simp_all
  with inside target show ?thesis by (simp add: boundary_rule_def is_inside_allowed_dirs_def)
qed

text \<open>
  C15. Only reads run without an approval: a call that the guard allows without asking for one
  is of a registered tool without network access whose policy is not \<^verbatim>\<open>always\<close>, and either
  its action is one the tool declares as a read, or the tool asks for no approval, does not
  write, declares no side effect and claims neither the write, the execute nor the destructive
  level.
\<close>

theorem unapproved_calls_are_reads:
  assumes "guard_check os g call = Inr r" "guard_allowed r" "\<not> guard_approval_required r"
  shows "\<exists>d. map_of (guard_contracts g) (call_name call) = Some d \<and> \<not> contract_network_access d \<and>
     contract_approval_policy d \<noteq> ''always'' \<and>
     (lower (call_action call) \<in> set (tool_read_actions d) \<or>
      contract_approval_policy d = ''never'' \<and> \<not> tool_is_write d \<and> contract_side_effect d = ''none'' \<and>
      contract_permission_level d \<notin> {''write'', ''execute'', ''destructive''})"
proof -
  obtain extra where "decide os g call = Inr (r, extra)"
    using assms(1) by (auto simp: guard_check_def bind_res_Inr)
  then have free: "\<not> requires_approval g call"
    using assms(2,3) by (cases rule: decide_cases) (auto dest: check_file_paths_refused)
  then obtain d where d: "map_of (guard_contracts g) (call_name call) = Some d"
    by (cases "map_of (guard_contracts g) (call_name call)")
      (auto simp: requires_approval_def resolve_approval_policy_def network_tool_def)
  with free show ?thesis
    by (auto simp: requires_approval_def resolve_approval_policy_def network_tool_def Let_def split: if_splits)
qed

text \<open>
  An approvable refusal hides a refusal that no approval lifts.  When a dangerous-command
  rule matches a call, the guard answers with a request for approval and never looks at the
  paths, even where the path check alone refuses the call outright, as it does for runtime
  credential files; the approval that follows then covers the refused path as well.
\<close>

theorem rule_hides_hard_refusal:
  assumes "rules_hit (guard_rules g) (call_name call) (rule_match_targets (call_arguments call)) = Inr (Some (rule, pattern))"
    and "map_of (guard_contracts g) (call_name call) = Some d" "\<not> contract_opaque_command d"
    and "check_file_paths os g call = Inr (Some refusal)" "\<not> guard_approval_required refusal"
  shows "guard_check os g call = Inr (rule_result g call rule pattern) \<and>
     guard_approval_required (rule_result g call rule pattern)"
  using assms by (simp add: guard_check_def decide_def resolve_path_metadata_def)

subsection \<open>Witnesses\<close>

definition demo_os :: os_view where
  "demo_os = \<lparr>os_home = ''/h'', os_home_of = (\<lambda>_. Some ''/h''), os_cwd = ''/w'', os_resolve = (\<lambda>p. Inr p),
     os_lstat = (\<lambda>_. None), os_is_file = (\<lambda>_. False), os_exists = (\<lambda>_. False), os_tree = (\<lambda>_. None),
     os_read_text = (\<lambda>_. None), PLATFORM_DATA_ROOT = ''/h/.helve''\<rparr>"

definition demo_contract :: "bool \<Rightarrow> tool_contract" where
  "demo_contract w = \<lparr>tool_path_args = [''path''], tool_is_write = w, tool_read_actions = [],
     contract_name = ''file_tool'', contract_description = JNull, contract_parameters = JNull, contract_hidden = False,
     contract_opaque_command = False, contract_network_access = False, contract_list_path_args = [],
     contract_permission_level = ''read'', contract_approval_policy = ''never'', contract_timeout_seconds = JNull,
     contract_retryable = False, contract_side_effect = (if w then ''write'' else ''none''),
     contract_idempotent = False, contract_concurrency = ''safe'', contract_execution_environment = ''host''\<rparr>"

definition demo_guard :: "guard_rule list \<Rightarrow> bool \<Rightarrow> tool_guard" where
  "demo_guard rules w = \<lparr>guard_rules = rules,
     guard_files = \<lparr>fg_working_dir = Some ''/w'', fg_non_delegable_write_roots = [], fg_allowed = [''/w'']\<rparr>,
     guard_whitelist = SessionWhitelist, guard_contracts = [(''file_tool'', demo_contract w)]\<rparr>"

definition demo_call :: "string \<Rightarrow> string \<Rightarrow> full_call" where
  "demo_call path body = \<lparr>call_id = ''c'', call_name = ''file_tool'',
     call_arguments = [(''path'', JStr path), (''content'', JStr body)],
     call_idempotency_key = None, call_declared_paths = []\<rparr>"

text \<open>The shipped rule for environment files, with its pattern for \<^verbatim>\<open>.env.local\<close>.\<close>

definition demo_rule :: guard_rule where
  "demo_rule = \<lparr>rule_id = Some (JStr ''sens-file-003''), rule_tools = [''file_tool''], rule_pattern = None,
     rule_patterns = [(''.env.local'', Some (lit ''.env.local''))], rule_excludes = [],
     rule_reason = JNull, rule_description = JStr ''Environment files''\<rparr>"

lemmas demo_defs = demo_os_def demo_contract_def demo_guard_def demo_call_def demo_rule_def

lemma demo_read:
  "guard_check demo_os (demo_guard [] False) (demo_call ''/w/a'' ''x'') =
     Inr \<lparr>guard_allowed = True, guard_reason = [], guard_level = READ, guard_needs_confirmation = False,
          guard_approval_required = False, guard_boundary_block = False, guard_scope = None, guard_risk = ROUTINE\<rparr>"
  by code_simp

lemma allowed_call_paths_vetted_witness:
  "\<exists>target lexical. path_views demo_os (guard_files (demo_guard [] False)) ''/w/a'' None = Inr (Some (target, lexical)) \<and>
     unprotected demo_os (guard_files (demo_guard [] False)) False target"
proof -
  have "names_path demo_os (demo_call ''/w/a'' ''x'') (demo_contract False) ''/w/a'' False None"
    by (simp add: names_path_def demo_call_def demo_contract_def dget_def)
  from allowed_call_paths_vetted [OF demo_read _ _ this] show ?thesis
    by (auto simp: demo_guard_def demo_call_def)
qed

lemma declared_spelling_only_refuses_witness:
  "check_path demo_os (guard_files (demo_guard [] False)) ''/w/a'' False None = Inr (plain_result True [] ROUTINE)"
  by (rule declared_spelling_only_refuses [where d = "''/w/b''" and r = "plain_result True [] ROUTINE"]) code_simp+

lemma unapproved_calls_are_reads_witness:
  "\<exists>d. map_of (guard_contracts (demo_guard [] False)) ''file_tool'' = Some d \<and> \<not> tool_is_write d"
  using unapproved_calls_are_reads [OF demo_read] by (auto simp: demo_guard_def demo_call_def demo_contract_def)

lemma rule_hides_hard_refusal_witness:
  "guard_approval_required (rule_result (demo_guard [demo_rule] True) (demo_call ''/h/.helve/config.yaml'' ''.env.local'')
     demo_rule ''.env.local'') \<and>
   check_file_paths demo_os (demo_guard [demo_rule] True) (demo_call ''/h/.helve/config.yaml'' ''.env.local'')
     = Inr (Some (plain_result False RUNTIME_SECRET CRITICAL))"
proof -
  let ?g = "demo_guard [demo_rule] True" and ?c = "demo_call ''/h/.helve/config.yaml'' ''.env.local''"
  have refused: "check_file_paths demo_os ?g ?c = Inr (Some (plain_result False RUNTIME_SECRET CRITICAL))"
    by code_simp
  have hit: "re_search (lit ''.env.local'') ''.env.local''"
    by code_simp
  have "rules_hit (guard_rules ?g) (call_name ?c) (rule_match_targets (call_arguments ?c)) = Inr (Some (demo_rule, ''.env.local''))"
    by (simp add: demo_guard_def demo_call_def demo_rule_def compiled_search_def all_patterns_def rule_match_targets_def hit)
  with refused rule_hides_hard_refusal [of ?g ?c demo_rule "''.env.local''" "demo_contract True" demo_os]
  show ?thesis by (simp add: demo_guard_def demo_call_def demo_contract_def)
qed

end
