(* ===== verification/Registry.thy ===== *)
theory Registry
  imports Tool_Guard Ledger
begin

text \<open>
  The tool registry of \<^verbatim>\<open>engine/tool/registry.py\<close> with the output truncation of
  \<^verbatim>\<open>engine/tool/truncation.py\<close>: registration and provider loading, the enabled set and the
  scoped views, the normalization of calls, and the execution of a call through the guard, the
  environment and the ledger.  A provider is known by its name, by whether its handler is a
  coroutine and by whether it takes an environment; what it answers is an argument of
  \<open>execute\<close>, and every invocation is recorded.  The per-tool locks of serial tools order
  concurrent calls and are not modelled.
\<close>

subsection \<open>Truncation of tool output\<close>

definition MAX_LINES :: nat where "MAX_LINES = 2000"
definition MAX_BYTES :: nat where "MAX_BYTES = 51200"

definition utf8_len :: "string \<Rightarrow> nat" where
  "utf8_len s = sum_list (map (\<lambda>c. if code c < 128 then 1 else 2) s)"

text \<open>The loop over the lines: the lines kept, the bytes counted, and whether the bytes ran out.\<close>

fun keep_lines :: "nat \<Rightarrow> string list \<Rightarrow> nat \<Rightarrow> string list \<Rightarrow> string list \<times> nat \<times> bool" where
  "keep_lines i out byte_count [] = (out, byte_count, False)"
| "keep_lines i out byte_count (line # more_lines) =
     (if MAX_LINES \<le> length out then (out, byte_count, False)
      else let line_bytes = utf8_len line + (if 0 < i then 1 else 0) in
        if MAX_BYTES < byte_count + line_bytes then (out, byte_count, True)
        else keep_lines (i + 1) (out @ [line]) (byte_count + line_bytes) more_lines)"

text \<open>
  \<open>saved\<close> is the path of the file that took the full output, \<open>None\<close> where it could not be
  written; \<open>saved_output\<close> is what the file holds.
\<close>

definition truncate_output :: "string option \<Rightarrow> string \<Rightarrow> string" where
  "truncate_output saved contents =
     (let all_lines = split_on CHR 0x0A contents; total_bytes = utf8_len contents in
      if length all_lines \<le> MAX_LINES \<and> total_bytes \<le> MAX_BYTES then contents
      else let (out, byte_count, hit_bytes) = keep_lines 0 [] 0 all_lines;
               removed = (if hit_bytes then total_bytes - byte_count else length all_lines - length out);
               hint = (case saved of
                   Some filepath \<Rightarrow> ''Full output saved to: '' @ filepath @ [CHR 0x0A]
                     @ ''Use read_file with offset/limit to view specific sections.''
                 | None \<Rightarrow> ''(Failed to save full output to file)'') in
        join [CHR 0x0A] out @ [CHR 0x0A, CHR 0x0A] @ ''...'' @ show_nat removed @ '' ''
        @ (if hit_bytes then ''bytes'' else ''lines'') @ '' truncated...'' @ [CHR 0x0A, CHR 0x0A] @ hint)"

definition saved_output :: "string \<Rightarrow> string" where
  "saved_output contents = redact_secret_text contents"

text \<open>The file name keeps letters, digits and three punctuation characters of the tool name.\<close>

definition safe_tool_name :: "string \<Rightarrow> string" where
  "safe_tool_name name = map (\<lambda>c. if is_alnum c \<or> c \<in> {CHR ''_'', CHR ''.'', CHR ''-''} then c else CHR ''_'') name"

definition output_filename :: "string \<Rightarrow> nat \<Rightarrow> nat \<Rightarrow> string" where
  "output_filename name seconds pid =
     ''tool_'' @ safe_tool_name name @ ''_'' @ show_nat seconds @ ''_'' @ show_nat pid @ ''.txt''"

subsection \<open>Errors reported as text\<close>

definition EXIT_CODE_RE :: pattern where
  "EXIT_CODE_RE = cats [lit ''[exit_code='',
     Group 1 (Cat (Many (\<lambda>c. c = CHR ''-'') 0 (Some 1)) (Many is_digit 1 None)), lit '']'']"

definition looks_like_tool_error :: "string \<Rightarrow> bool" where
  "looks_like_tool_error content =
     (let stripped = lstrip content in
      list_ex (\<lambda>p. starts_with p stripped)
        [''Error:'', ''HTTP Error:'', ''URL Error:'', ''[BLOCKED]'', ''Memory rejected:'']
      \<or> (case rmatch EXIT_CODE_RE [] stripped of
           [] \<Rightarrow> False
         | (x, t, g) # _ \<Rightarrow> list_ex (\<lambda>c. is_digit c \<and> c \<noteq> CHR ''0'') (group 1 g)))"

subsection \<open>The registry\<close>

record handler =
  handler_name :: string
  handler_async :: bool
  handler_environment :: bool

record environment =
  env_name :: string
  env_scoping :: bool
  env_scope :: "approval_scope option"

type_synonym permit = "string \<times> string option \<times> approval_scope option"

record registry =
  lazy_tool_schemas :: bool
  reg_tools :: "(string, tool_contract \<times> handler) dict"
  reg_enabled :: "string list option"
  reg_ledger :: "tool_ledger option"
  reg_working_dir :: "string option"
  host_environment :: environment
  sandbox_environment :: "environment option"
  wants_environment :: "string list"
  reg_guard :: "tool_guard option"
  authorized_call :: "permit option"

definition LOCAL_ENVIRONMENT :: environment where
  "LOCAL_ENVIRONMENT = \<lparr>env_name = ''host'', env_scoping = False, env_scope = None\<rparr>"

definition ToolRegistry :: "bool \<Rightarrow> registry" where
  "ToolRegistry is_lazy = \<lparr>lazy_tool_schemas = is_lazy, reg_tools = [], reg_enabled = None, reg_ledger = None,
     reg_working_dir = None, host_environment = LOCAL_ENVIRONMENT, sandbox_environment = None,
     wants_environment = [], reg_guard = None, authorized_call = None\<rparr>"

definition TOOL_ALIASES :: "(string, string) dict" where
  "TOOL_ALIASES = [(''websearch'', ''web_search''), (''webfetch'', ''web_fetch'')]"

definition canonical_tool_name :: "string \<Rightarrow> string" where
  "canonical_tool_name name = (case map_of TOOL_ALIASES name of Some n \<Rightarrow> n | None \<Rightarrow> name)"

definition definitions :: "registry \<Rightarrow> contracts" where
  "definitions reg = map (\<lambda>(name, defn, func). (name, defn)) (reg_tools reg)"

definition list_tools :: "registry \<Rightarrow> tool_contract list" where
  "list_tools reg = map (\<lambda>(name, defn, func). defn)
     (filter (\<lambda>(name, defn, func). case reg_enabled reg of None \<Rightarrow> True | Some e \<Rightarrow> name \<in> set e) (reg_tools reg))"

definition rebind_guard :: "registry \<Rightarrow> registry" where
  "rebind_guard reg = reg\<lparr>reg_guard := map_option (bind_definitions (definitions reg)) (reg_guard reg)\<rparr>"

subsection \<open>Registration\<close>

definition VALID_PERMISSION_LEVELS :: "string list" where
  "VALID_PERMISSION_LEVELS = [''read'', ''write'', ''execute'', ''destructive'']"
definition VALID_APPROVAL_POLICIES :: "string list" where
  "VALID_APPROVAL_POLICIES = [''never'', ''policy'', ''always'']"
definition VALID_SIDE_EFFECTS :: "string list" where
  "VALID_SIDE_EFFECTS = [''none'', ''write'', ''external'', ''destructive'']"
definition VALID_CONCURRENCY :: "string list" where
  "VALID_CONCURRENCY = [''safe'', ''serial'']"
definition VALID_EXECUTION_ENVIRONMENTS :: "string list" where
  "VALID_EXECUTION_ENVIRONMENTS = [''host'', ''sandbox'', ''either'']"

text \<open>The arguments of \<^verbatim>\<open>register\<close>, those it validates itself as the values they are given as.\<close>

record tool_meta =
  meta_name :: string
  meta_description :: json
  meta_parameters :: json
  meta_hidden :: json
  meta_opaque_command :: json
  meta_network_access :: json
  meta_path_args :: "string list"
  meta_list_path_args :: "string list"
  meta_is_write_tool :: bool
  meta_permission_level :: string
  meta_approval_policy :: json
  meta_read_actions :: "string list"
  meta_timeout_seconds :: json
  meta_retryable :: json
  meta_side_effect :: json
  meta_idempotent :: json
  meta_concurrency :: json
  meta_execution_environment :: json

datatype register_exc = RegValueError | RegTypeError

fun as_bool :: "json \<Rightarrow> register_exc + bool" where
  "as_bool (JBool b) = Inr b"
| "as_bool _ = Inl RegValueError"

text \<open>Membership of a value in a frozenset of texts, which raises on an unhashable value.\<close>

fun member_text :: "string list \<Rightarrow> json \<Rightarrow> register_exc + string" where
  "member_text valid (JStr s) = (if s \<in> set valid then Inr s else Inl RegValueError)"
| "member_text valid (JArr vs) = Inl RegTypeError"
| "member_text valid (JObj d) = Inl RegTypeError"
| "member_text valid _ = Inl RegValueError"

fun valid_timeout :: "json \<Rightarrow> bool" where
  "valid_timeout JNull = True"
| "valid_timeout (JInt i) = (0 < i)"
| "valid_timeout (JFloat t) = (\<not> starts_with ''-'' t \<and> \<not> float_zero t)"
| "valid_timeout _ = False"

definition ensure :: "bool \<Rightarrow> register_exc + unit" where
  "ensure b = (if b then Inr () else Inl RegValueError)"

definition register :: "tool_meta \<Rightarrow> handler \<Rightarrow> registry \<Rightarrow> register_exc + registry" where
  "register m func reg =
     bind_res (ensure (map_of (reg_tools reg) (meta_name m) = None)) (\<lambda>_.
     bind_res (as_bool (meta_hidden m)) (\<lambda>hidden.
     bind_res (as_bool (meta_opaque_command m)) (\<lambda>opaque_command.
     bind_res (as_bool (meta_network_access m)) (\<lambda>network_access.
     bind_res (ensure (meta_permission_level m = [] \<or> meta_permission_level m \<in> set VALID_PERMISSION_LEVELS)) (\<lambda>_.
     bind_res (member_text VALID_APPROVAL_POLICIES (meta_approval_policy m)) (\<lambda>approval_policy.
     bind_res (ensure (valid_timeout (meta_timeout_seconds m))) (\<lambda>_.
     bind_res (as_bool (meta_retryable m)) (\<lambda>retryable.
     bind_res (member_text VALID_SIDE_EFFECTS
         (if truthy (meta_side_effect m) then meta_side_effect m
          else JStr (if meta_is_write_tool m then ''write'' else ''none''))) (\<lambda>side_effect.
     bind_res (ensure (\<not> (meta_timeout_seconds m \<noteq> JNull \<and> side_effect \<noteq> ''none'' \<and> \<not> handler_async func))) (\<lambda>_.
     bind_res (member_text VALID_CONCURRENCY (meta_concurrency m)) (\<lambda>concurrency.
     bind_res (member_text VALID_EXECUTION_ENVIRONMENTS (meta_execution_environment m)) (\<lambda>execution_environment.
     bind_res (ensure (\<not> (execution_environment \<noteq> ''host'' \<and> \<not> handler_environment func))) (\<lambda>_.
     (let defn = \<lparr>tool_path_args = meta_path_args m, tool_is_write = (meta_is_write_tool m \<or> side_effect \<noteq> ''none''),
            tool_read_actions = meta_read_actions m, contract_name = meta_name m,
            contract_description = meta_description m, contract_parameters = meta_parameters m,
            contract_hidden = hidden, contract_opaque_command = opaque_command,
            contract_network_access = network_access, contract_list_path_args = meta_list_path_args m,
            contract_permission_level = meta_permission_level m, contract_approval_policy = approval_policy,
            contract_timeout_seconds = meta_timeout_seconds m, contract_retryable = retryable,
            contract_side_effect = side_effect, contract_idempotent = truthy (meta_idempotent m),
            contract_concurrency = concurrency, contract_execution_environment = execution_environment\<rparr>
      in Inr (rebind_guard (reg\<lparr>reg_tools := reg_tools reg @ [(meta_name m, defn, func)],
           wants_environment := (if handler_environment func then List.insert (meta_name m) (wants_environment reg)
                                 else wants_environment reg)\<rparr>))))))))))))))))"

subsection \<open>Loading providers\<close>

text \<open>
  What importing one provider file gives: no loader for it, an exception, or a module with its
  \<^verbatim>\<open>TOOL_META\<close> (empty when absent) and its \<^verbatim>\<open>execute\<close> attribute, which may be absent or not
  callable.
\<close>

datatype execute_attr = NoExecute | NotCallable | Callable handler

datatype provider_module = NoLoader | ImportRaises | Module jdict execute_attr

definition meta_str_tuple :: "jdict \<Rightarrow> string \<Rightarrow> register_exc + string list" where
  "meta_str_tuple meta key = (case map_of meta key of
     None \<Rightarrow> Inr []
   | Some (JArr vs) \<Rightarrow>
       if list_all (\<lambda>v. case v of JStr (c # cs) \<Rightarrow> True | _ \<Rightarrow> False) vs
       then Inr (map (\<lambda>v. case v of JStr s \<Rightarrow> s | _ \<Rightarrow> []) vs) else Inl RegValueError
   | Some _ \<Rightarrow> Inl RegValueError)"

definition meta_get :: "jdict \<Rightarrow> string \<Rightarrow> json \<Rightarrow> json" where
  "meta_get meta key absent = (case map_of meta key of None \<Rightarrow> absent | Some v \<Rightarrow> v)"

definition meta_of :: "jdict \<Rightarrow> register_exc + tool_meta" where
  "meta_of meta =
     bind_res (case map_of meta ''name'' of Some (JStr (c # cs)) \<Rightarrow> Inr (c # cs) | _ \<Rightarrow> Inl RegValueError) (\<lambda>name.
     bind_res (let p = meta_get meta ''parameters'' (JObj []) in
         ensure (\<not> truthy p \<or> (case p of JObj _ \<Rightarrow> True | _ \<Rightarrow> False))) (\<lambda>_.
     bind_res (case meta_get meta ''permission_level'' (JStr []) of JStr s \<Rightarrow> Inr s | _ \<Rightarrow> Inl RegValueError) (\<lambda>level.
     bind_res (meta_str_tuple meta ''path_args'') (\<lambda>path_args.
     bind_res (meta_str_tuple meta ''list_path_args'') (\<lambda>list_path_args.
     bind_res (meta_str_tuple meta ''read_actions'') (\<lambda>read_actions.
       Inr \<lparr>meta_name = name, meta_description = meta_get meta ''description'' (JStr []),
         meta_parameters = meta_get meta ''parameters'' (JObj []),
         meta_hidden = meta_get meta ''hidden'' (JBool False),
         meta_opaque_command = meta_get meta ''opaque_command'' (JBool False),
         meta_network_access = meta_get meta ''network_access'' (JBool False),
         meta_path_args = path_args, meta_list_path_args = list_path_args,
         meta_is_write_tool = truthy (meta_get meta ''is_write_tool'' (JBool False)),
         meta_permission_level = level, meta_approval_policy = meta_get meta ''approval_policy'' (JStr ''never''),
         meta_read_actions = read_actions, meta_timeout_seconds = meta_get meta ''timeout_seconds'' JNull,
         meta_retryable = meta_get meta ''retryable'' (JBool False),
         meta_side_effect = meta_get meta ''side_effect'' JNull,
         meta_idempotent = meta_get meta ''idempotent'' (JBool False),
         meta_concurrency = meta_get meta ''concurrency'' (JStr ''safe''),
         meta_execution_environment = meta_get meta ''execution_environment'' (JStr ''host'')\<rparr>))))))"

text \<open>Every exception of one file is logged and leaves the registry as it was.\<close>

definition load_provider :: "provider_module \<Rightarrow> registry \<Rightarrow> registry" where
  "load_provider module reg = (case module of
     Module meta (Callable func) \<Rightarrow>
       if meta = [] then reg
       else (case bind_res (meta_of meta) (\<lambda>m. register m func reg) of Inl e \<Rightarrow> reg | Inr reg' \<Rightarrow> reg')
   | _ \<Rightarrow> reg)"

definition load_providers :: "string list option \<Rightarrow> (string, provider_module) dict option \<Rightarrow> registry \<Rightarrow> registry" where
  "load_providers allowed_filenames tools_dir reg = (case tools_dir of
     None \<Rightarrow> reg
   | Some files \<Rightarrow>
       (let provider_files = (case allowed_filenames of
              None \<Rightarrow> sort (filter (ends_with ''.py'') (dkeys files))
            | Some names \<Rightarrow> filter (\<lambda>f. f \<in> set (dkeys files)) (sort names)) in
        foldl (\<lambda>r f. if starts_with ''_'' f then r else case map_of files f of None \<Rightarrow> r | Some m \<Rightarrow> load_provider m r)
          reg provider_files))"

definition BUILTIN_PROVIDER_FILENAMES :: "string list" where
  "BUILTIN_PROVIDER_FILENAMES = [''edit_file.py'', ''get_current_time.py'', ''git_ops.py'', ''glob_files.py'', ''grep.py'',
     ''list_dir.py'', ''memory_ops.py'', ''read_file.py'', ''read_pdf.py'', ''render_pdf_page.py'', ''render_ui.py'',
     ''shell.py'', ''skill_load.py'', ''skill_manage.py'', ''sub_agent.py'', ''todo.py'', ''web_crawl.py'',
     ''web_fetch.py'', ''web_search.py'', ''write_file.py'']"

definition load_builtin_providers :: "(string, provider_module) dict option \<Rightarrow> registry \<Rightarrow> registry" where
  "load_builtin_providers = load_providers (Some BUILTIN_PROVIDER_FILENAMES)"

subsection \<open>The enabled set, schemas and scoped views\<close>

text \<open>The non-empty texts of a configured list.\<close>

definition text_names :: "json list \<Rightarrow> string list" where
  "text_names vs = List.map_filter (\<lambda>v. case v of JStr (c # cs) \<Rightarrow> Some (c # cs) | _ \<Rightarrow> None) vs"

definition set_enabled :: "json list option \<Rightarrow> registry \<Rightarrow> string list \<times> registry" where
  "set_enabled enabled reg = (case enabled of
     None \<Rightarrow> ([], reg\<lparr>reg_enabled := None\<rparr>)
   | Some vs \<Rightarrow>
       (let requested = map (\<lambda>name. (name, canonical_tool_name name)) (text_names vs);
            known = dkeys (reg_tools reg) in
        (map fst (filter (\<lambda>(name, canonical). canonical \<notin> set known) requested),
         reg\<lparr>reg_enabled := Some (remdups (map snd (filter (\<lambda>(name, canonical). canonical \<in> set known) requested)))\<rparr>)))"

definition get_schemas :: "string list option \<Rightarrow> bool \<Rightarrow> registry \<Rightarrow> json list" where
  "get_schemas enabled include_hidden reg =
     (let active = (case enabled of
            None \<Rightarrow> reg_enabled reg
          | Some requested \<Rightarrow> (case reg_enabled reg of
              None \<Rightarrow> Some requested | Some e \<Rightarrow> Some (filter (\<lambda>n. n \<in> set requested) e))) in
      map (\<lambda>(name, defn, func). JObj [(''type'', JStr ''function''), (''function'',
             JObj [(''name'', JStr (contract_name defn)), (''description'', contract_description defn),
                   (''parameters'', contract_parameters defn)])])
        (filter (\<lambda>(name, defn, func). (case active of None \<Rightarrow> True | Some a \<Rightarrow> name \<in> set a)
             \<and> (include_hidden \<or> \<not> contract_hidden defn)) (reg_tools reg)))"

definition unavailable_tool_message :: "string \<Rightarrow> registry \<Rightarrow> string" where
  "unavailable_tool_message name reg =
     (if map_of (reg_tools reg) (canonical_tool_name name) = None then ''Unknown tool: '' @ name
      else ''Tool disabled: '' @ canonical_tool_name name)"

definition list_tool_names :: "bool \<Rightarrow> registry \<Rightarrow> string list" where
  "list_tool_names include_disabled reg =
     (let names = sort (dkeys (reg_tools reg)) in
      case reg_enabled reg of
        None \<Rightarrow> names
      | Some e \<Rightarrow> if include_disabled then names else filter (\<lambda>n. n \<in> set e) names)"

definition list_visible_tool_names :: "bool \<Rightarrow> bool \<Rightarrow> registry \<Rightarrow> string list" where
  "list_visible_tool_names include_disabled include_hidden reg =
     filter (\<lambda>n. include_hidden \<or> (case map_of (reg_tools reg) n of None \<Rightarrow> False | Some (d, f) \<Rightarrow> \<not> contract_hidden d))
       (list_tool_names include_disabled reg)"

definition get_tool :: "string \<Rightarrow> registry \<Rightarrow> tool_contract option" where
  "get_tool name reg = map_option fst (map_of (reg_tools reg) (canonical_tool_name name))"

definition wrap_tool :: "string \<Rightarrow> (handler \<Rightarrow> handler) \<Rightarrow> registry \<Rightarrow> bool \<times> registry" where
  "wrap_tool name wrapper reg =
     (let tool_name = canonical_tool_name name in
      case map_of (reg_tools reg) tool_name of
        None \<Rightarrow> (False, reg)
      | Some (defn, func) \<Rightarrow> (True, reg\<lparr>reg_tools := dset tool_name (defn, wrapper func) (reg_tools reg)\<rparr>))"

definition bind_execution_ledger :: "tool_ledger option \<Rightarrow> registry \<Rightarrow> registry" where
  "bind_execution_ledger lg reg = reg\<lparr>reg_ledger := lg\<rparr>"

definition bind_tool_guard :: "tool_guard option \<Rightarrow> registry \<Rightarrow> registry" where
  "bind_tool_guard guard reg = rebind_guard (reg\<lparr>reg_guard := guard\<rparr>)"

definition bind_execution_environment :: "environment option \<Rightarrow> registry \<Rightarrow> register_exc + registry" where
  "bind_execution_environment env reg = (case env of
     None \<Rightarrow> Inr (reg\<lparr>sandbox_environment := None\<rparr>)
   | Some e \<Rightarrow>
       if env_name e = ''host'' then Inr (reg\<lparr>host_environment := e\<rparr>)
       else if env_name e = ''sandbox'' then Inr (reg\<lparr>sandbox_environment := Some e\<rparr>)
       else Inl RegValueError)"

definition environment_for :: "string \<Rightarrow> registry \<Rightarrow> environment option" where
  "environment_for required reg =
     (if required = ''host'' then Some (host_environment reg)
      else if required = ''sandbox'' then sandbox_environment reg
      else case sandbox_environment reg of Some e \<Rightarrow> Some e | None \<Rightarrow> Some (host_environment reg))"

definition bind_working_directory :: "os_view \<Rightarrow> string option \<Rightarrow> registry \<Rightarrow> guard_exc + registry" where
  "bind_working_directory os working_dir reg = (case working_dir of
     Some (c # cs) \<Rightarrow> bind_res (expand os (c # cs)) (\<lambda>p. case os_resolve os p of
         Inl e \<Rightarrow> Inl (path_error e) | Inr r \<Rightarrow> Inr (reg\<lparr>reg_working_dir := Some r\<rparr>))
   | _ \<Rightarrow> Inr (reg\<lparr>reg_working_dir := None\<rparr>))"

record scoped_registry =
  scoped_parent :: registry
  scoped_allowed :: "string list"

definition scoped_to :: "json list \<Rightarrow> registry \<Rightarrow> scoped_registry" where
  "scoped_to names reg = \<lparr>scoped_parent = reg, scoped_allowed = remdups (map canonical_tool_name (text_names names))\<rparr>"

definition active_names :: "scoped_registry \<Rightarrow> string list" where
  "active_names view = filter (\<lambda>n. n \<in> set (list_tool_names False (scoped_parent view))) (scoped_allowed view)"

definition scoped_get_schemas :: "json list option \<Rightarrow> bool \<Rightarrow> scoped_registry \<Rightarrow> json list" where
  "scoped_get_schemas enabled include_hidden view =
     (let active = (case enabled of
            None \<Rightarrow> active_names view
          | Some vs \<Rightarrow> filter (\<lambda>n. n \<in> set (map canonical_tool_name (text_names vs))) (active_names view)) in
      get_schemas (Some (sort active)) include_hidden (scoped_parent view))"

definition scoped_list_tools :: "scoped_registry \<Rightarrow> tool_contract list" where
  "scoped_list_tools view = filter (\<lambda>d. contract_name d \<in> set (active_names view)) (list_tools (scoped_parent view))"

definition scoped_definitions :: "scoped_registry \<Rightarrow> contracts" where
  "scoped_definitions view = filter (\<lambda>(name, d). name \<in> set (active_names view)) (definitions (scoped_parent view))"

definition scoped_get :: "string \<Rightarrow> scoped_registry \<Rightarrow> tool_contract option" where
  "scoped_get name view =
     (if canonical_tool_name name \<notin> set (active_names view) then None
      else get_tool (canonical_tool_name name) (scoped_parent view))"

definition scoped_unavailable_tool_message :: "string \<Rightarrow> scoped_registry \<Rightarrow> string" where
  "scoped_unavailable_tool_message name view =
     (if canonical_tool_name name \<notin> set (list_tool_names False (scoped_parent view))
      then unavailable_tool_message name (scoped_parent view)
      else ''Tool disabled for this pipeline node: '' @ canonical_tool_name name)"

subsection \<open>Normalizing a call\<close>

definition resolve_argument ::
  "os_view \<Rightarrow> string \<Rightarrow> json \<Rightarrow> jdict \<times> (string, string) dict \<Rightarrow> string \<Rightarrow> guard_exc + jdict \<times> (string, string) dict" where
  "resolve_argument os wd parameters state arg =
     (let (arguments, declared) = state in
      case (case map_of arguments arg of Some (JStr (c # cs)) \<Rightarrow> Some (c # cs) | _ \<Rightarrow> schema_default parameters arg) of
        None \<Rightarrow> Inr state
      | Some v \<Rightarrow> bind_res (expand os v) (\<lambda>p.
          (let candidate = (if is_absolute p then p else path_join wd p) in
           case os_resolve os candidate of
             Inl e \<Rightarrow> Inl (path_error e)
           | Inr r \<Rightarrow> Inr (dset arg (JStr r) arguments,
               if map_of declared arg = None then dset arg (abspath os candidate) declared else declared))))"

fun resolve_arguments ::
  "os_view \<Rightarrow> string \<Rightarrow> json \<Rightarrow> string list \<Rightarrow> jdict \<times> (string, string) dict \<Rightarrow> guard_exc + jdict \<times> (string, string) dict" where
  "resolve_arguments os wd parameters [] state = Inr state"
| "resolve_arguments os wd parameters (arg # args) state =
     bind_res (resolve_argument os wd parameters state arg) (resolve_arguments os wd parameters args)"

definition normalize_call :: "os_view \<Rightarrow> registry \<Rightarrow> full_call \<Rightarrow> guard_exc + full_call" where
  "normalize_call os reg call =
     (let tool_name = canonical_tool_name (call_name call) in
      case reg_working_dir reg of
        None \<Rightarrow> Inr (call\<lparr>call_name := tool_name\<rparr>)
      | Some wd \<Rightarrow>
          (case map_of (reg_tools reg) tool_name of
             None \<Rightarrow> Inr call
           | Some (defn, func) \<Rightarrow>
               (let parameters = contract_parameters defn;
                    arguments = (case schema_properties parameters of
                        Some ps \<Rightarrow> if map_of ps ''cwd'' \<noteq> None \<and> \<not> truthy (dget (call_arguments call) ''cwd'')
                                   then dset ''cwd'' (JStr wd) (call_arguments call) else call_arguments call
                      | None \<Rightarrow> call_arguments call) in
                bind_res (resolve_arguments os wd parameters (tool_path_args defn) (arguments, call_declared_paths call))
                  (\<lambda>(arguments, declared). Inr (call\<lparr>call_name := tool_name, call_arguments := arguments,
                     call_declared_paths := declared\<rparr>)))))"

definition call_fingerprint :: "full_call \<Rightarrow> string" where
  "call_fingerprint call = canonical_json (JObj [(''id'', JStr (call_id call)), (''name'', JStr (call_name call)),
     (''arguments'', JObj (call_arguments call)), (''idempotency_key'', jopt (call_idempotency_key call))])"

subsection \<open>Execution\<close>

datatype exec_exc = ExecGuard guard_exc | ExecDatabaseError | ExecTypeError | ExecCancelled

text \<open>
  What the provider's invocation comes to: a value as text, a \<^verbatim>\<open>TimeoutError\<close> of the limit or of
  the provider itself (with the limit as \<^verbatim>\<open>:g\<close> formats it), another exception with its text, or
  the cancellation of the task, which no handler catches.  A \<^verbatim>\<open>TimeoutError\<close> without a declared
  limit makes the formatting of the limit raise a \<^verbatim>\<open>TypeError\<close>.
\<close>

datatype provider_outcome = Returned string | TimedOut_after string | Raised string | Cancelled

type_synonym provider = "handler \<Rightarrow> jdict \<Rightarrow> environment option \<Rightarrow> provider_outcome"

text \<open>What SQLite, the clock and the disk answer during one execution.\<close>

record exec_io =
  io_key_ok :: bool
  io_begin_ok :: bool
  io_finish_ok :: bool
  io_begin_at :: string
  io_finish_at :: string
  io_saved :: "string option"

record exec_state =
  ex_registry :: registry
  ex_table :: ledger_table
  ex_invocations :: "(string \<times> jdict \<times> environment option) list"

definition error_result :: "string \<Rightarrow> string \<Rightarrow> string \<Rightarrow> tool_result" where
  "error_result cid content kind = \<lparr>res_call_id = cid, res_content = content, res_is_error = True,
     res_error_kind = Some kind, res_retryable = False, res_timed_out = False, res_side_effect_status = ''none'',
     res_metadata = []\<rparr>"

definition provider_result :: "full_call \<Rightarrow> tool_contract \<Rightarrow> provider_outcome \<Rightarrow> exec_exc + tool_result" where
  "provider_result call defn outcome =
     (let unknown = (if contract_side_effect defn \<noteq> ''none'' then ''unknown'' else ''none'') in
      case outcome of
        Returned content \<Rightarrow>
          (let is_error = looks_like_tool_error content in
           Inr \<lparr>res_call_id = call_id call, res_content = content, res_is_error = is_error,
             res_error_kind = (if is_error then Some ''provider_error'' else None),
             res_retryable = (is_error \<and> contract_retryable defn), res_timed_out = False,
             res_side_effect_status = (if is_error then unknown
               else if contract_side_effect defn \<noteq> ''none'' then ''completed'' else ''none''),
             res_metadata = []\<rparr>)
      | TimedOut_after limit \<Rightarrow>
          if contract_timeout_seconds defn = JNull then Inl ExecTypeError
          else Inr \<lparr>res_call_id = call_id call, res_content = ''Tool timed out after '' @ limit @ ''s'', res_is_error = True,
            res_error_kind = Some ''timeout'', res_retryable = contract_retryable defn, res_timed_out = True,
            res_side_effect_status = unknown, res_metadata = []\<rparr>
      | Raised content \<Rightarrow>
          Inr \<lparr>res_call_id = call_id call, res_content = content, res_is_error = True,
            res_error_kind = Some ''exception'', res_retryable = contract_retryable defn, res_timed_out = False,
            res_side_effect_status = unknown, res_metadata = []\<rparr>
      | Cancelled \<Rightarrow> Inl ExecCancelled)"

definition finalize_result :: "string option \<Rightarrow> tool_result \<Rightarrow> tool_result" where
  "finalize_result saved result = result\<lparr>res_content := truncate_output saved (res_content result)\<rparr>"

text \<open>The key of the call, with the ledger that issued it; \<open>None\<close> is a failed query.\<close>

definition execution_key ::
  "digest \<Rightarrow> exec_io \<Rightarrow> full_call \<Rightarrow> string \<Rightarrow> ledger_table \<Rightarrow> tool_ledger \<Rightarrow> (string \<times> tool_ledger) option" where
  "execution_key H io call tool_name tbl lg = (case call_idempotency_key call of
     Some (c # cs) \<Rightarrow> Some (c # cs, lg)
   | _ \<Rightarrow> if \<not> io_key_ok io \<and> \<not> replay_existing lg \<and> map_of (call_keys lg) (call_id call) = None then None
          else Some (idempotency_key_for H (call_id call) tool_name (call_arguments call) tbl lg))"

text \<open>
  The invocation: an environment is injected last where the handler takes one, so an argument
  of that name does not reach it.
\<close>

definition invoke ::
  "provider \<Rightarrow> full_call \<Rightarrow> string \<Rightarrow> handler \<Rightarrow> environment \<Rightarrow> exec_state \<Rightarrow> provider_outcome \<times> exec_state" where
  "invoke provider call tool_name func env st =
     (let (arguments, injected) =
            (if tool_name \<in> set (wants_environment (ex_registry st))
             then (filter (\<lambda>(k, v). k \<noteq> ''environment'') (call_arguments call), Some env)
             else (call_arguments call, None)) in
      (provider func arguments injected,
       st\<lparr>ex_invocations := ex_invocations st @ [(tool_name, arguments, injected)]\<rparr>))"

definition execute_registered ::
  "digest \<Rightarrow> exec_io \<Rightarrow> provider \<Rightarrow> full_call \<Rightarrow> string \<Rightarrow> tool_contract \<Rightarrow> handler \<Rightarrow> environment \<Rightarrow> exec_state
    \<Rightarrow> (exec_exc + tool_result) \<times> exec_state" where
  "execute_registered H io provider call tool_name defn func env st =
     (let run = (\<lambda>st settle.
        (let (outcome, st) = invoke provider call tool_name func env st in
         case provider_result call defn outcome of
           Inl e \<Rightarrow> (Inl e, st)
         | Inr result \<Rightarrow> settle (finalize_result (io_saved io) result) st)) in
      case (if contract_side_effect defn \<noteq> ''none'' then reg_ledger (ex_registry st) else None) of
        None \<Rightarrow> run st (\<lambda>result st. (Inr result, st))
      | Some lg \<Rightarrow>
          (case execution_key H io call tool_name (ex_table st) lg of
             None \<Rightarrow> (Inl ExecDatabaseError, st)
           | Some (key, lg') \<Rightarrow>
               (let (answer, tbl) = ledger_begin (io_begin_ok io) (ledger_run_id lg) (io_begin_at io) (call_id call) tool_name key
                      (contract_idempotent defn) (ex_table st);
                    st = st\<lparr>ex_registry := (ex_registry st)\<lparr>reg_ledger := Some lg'\<rparr>, ex_table := tbl\<rparr> in
                case answer of
                  Inl e \<Rightarrow> (Inl ExecDatabaseError, st)
                | Inr decision \<Rightarrow>
                    (case dec_result decision of
                       Some result \<Rightarrow> (Inr result, st)
                     | None \<Rightarrow> run st (\<lambda>result st.
                         if claimed decision then
                           (let (done, tbl) = ledger_finish (io_finish_ok io) (ledger_run_id lg) (io_finish_at io) (call_id call) key result (ex_table st)
                            in (case done of Inl e \<Rightarrow> Inl ExecDatabaseError | Inr _ \<Rightarrow> Inr result, st\<lparr>ex_table := tbl\<rparr>))
                         else (Inr result, st))))))"

text \<open>Whether the permit of the current context covers exactly this call and this scope.\<close>

definition approval_granted :: "registry \<Rightarrow> full_call \<Rightarrow> guard_result \<Rightarrow> bool" where
  "approval_granted reg call r = (case authorized_call reg of
     None \<Rightarrow> False
   | Some (fingerprint, approval_id, scope) \<Rightarrow>
       fingerprint = call_fingerprint call \<and> (case approval_id of Some (c # cs) \<Rightarrow> True | _ \<Rightarrow> False) \<and> scope = guard_scope r)"

text \<open>The path an approval adds to the session whitelist; resolution errors skip the addition.\<close>

definition remember_approval :: "os_view \<Rightarrow> guard_result \<Rightarrow> tool_guard \<Rightarrow> guard_exc + tool_guard" where
  "remember_approval os r g = (case guard_scope r of
     None \<Rightarrow> Inr g
   | Some scope \<Rightarrow>
       if scope_kind scope = ''path'' \<and> guard_risk r = ELEVATED then
         bind_res (expand os (scope_target scope)) (\<lambda>p. case os_resolve os p of
            Inl e \<Rightarrow> Inr g
          | Inr target \<Rightarrow>
              (case (if is_inside_allowed_dirs (guard_files g) target \<and> (os_is_file os target \<or> \<not> os_exists os target)
                     then allow_path os (path_parent target) (guard_whitelist g)
                     else allow_file os target (guard_whitelist g)) of
                 Inl e \<Rightarrow> Inr g
               | Inr wl \<Rightarrow> Inr (g\<lparr>guard_whitelist := wl\<rparr>)))
       else Inr g)"

definition blocked_result :: "full_call \<Rightarrow> string \<Rightarrow> guard_result \<Rightarrow> bool \<Rightarrow> bool \<Rightarrow> tool_result" where
  "blocked_result call tool_name r blocked_by_policy approval_needed =
     (let reason = (if guard_reason r \<noteq> [] then guard_reason r
                    else if approval_needed then ''Approval required for '' @ tool_name
                    else ''Tool blocked by policy: '' @ tool_name) in
      (error_result (call_id call) (''[BLOCKED] '' @ reason)
         (if blocked_by_policy then ''policy_blocked'' else ''approval_required''))
      \<lparr>res_metadata := [(''blocked'', JBool True), (''approval_required'', JBool approval_needed),
                       (''level'', JStr (level_value (guard_level r)))]\<rparr>)"

definition guard_backstop ::
  "os_view \<Rightarrow> full_call \<Rightarrow> string \<Rightarrow> registry \<Rightarrow> exec_exc + (tool_result + bool \<times> approval_scope option) \<times> registry" where
  "guard_backstop os call tool_name reg = (case reg_guard reg of
     None \<Rightarrow> Inr (Inr (False, None), reg)
   | Some g \<Rightarrow>
       (case guard_check os g call of
          Inl e \<Rightarrow> Inl (ExecGuard e)
        | Inr r \<Rightarrow>
            (let granted = approval_granted reg call r in
             case (if granted then remember_approval os r g else Inr g) of
               Inl e \<Rightarrow> Inl (ExecGuard e)
             | Inr g' \<Rightarrow>
                 (let blocked_by_policy = (\<not> guard_allowed r \<and> \<not> (guard_approval_required r \<and> granted));
                      approval_needed = (guard_approval_required r \<and> \<not> granted);
                      reg' = reg\<lparr>reg_guard := Some g'\<rparr> in
                  Inr (if blocked_by_policy \<or> approval_needed
                       then Inl (blocked_result call tool_name r blocked_by_policy approval_needed)
                       else Inr (granted, guard_scope r), reg')))))"

definition execute ::
  "digest \<Rightarrow> os_view \<Rightarrow> exec_io \<Rightarrow> provider \<Rightarrow> full_call \<Rightarrow> exec_state \<Rightarrow> (exec_exc + tool_result) \<times> exec_state" where
  "execute H os io provider raw_call st = (case normalize_call os (ex_registry st) raw_call of
     Inl e \<Rightarrow> (Inl (ExecGuard e), st)
   | Inr call \<Rightarrow>
       (let tool_name = canonical_tool_name (call_name call); reg = ex_registry st in
        case map_of (reg_tools reg) tool_name of
          None \<Rightarrow> (Inr (error_result (call_id call) (''Unknown tool: '' @ call_name call) ''unknown_tool''), st)
        | Some (defn, func) \<Rightarrow>
            if (case reg_enabled reg of None \<Rightarrow> False | Some e \<Rightarrow> tool_name \<notin> set e)
            then (Inr (error_result (call_id call) (''Tool disabled: '' @ tool_name) ''tool_disabled''), st)
            else case guard_backstop os call tool_name reg of
              Inl e \<Rightarrow> (Inl e, st)
            | Inr (Inl blocked, reg') \<Rightarrow> (Inr blocked, st\<lparr>ex_registry := reg'\<rparr>)
            | Inr (Inr (granted, scope), reg') \<Rightarrow>
                (let st = st\<lparr>ex_registry := reg'\<rparr>; required = contract_execution_environment defn in
                 case environment_for required reg' of
                   None \<Rightarrow> (Inr (error_result (call_id call)
                     (''Error: tool '' @ [CHR 0x27] @ tool_name @ [CHR 0x27] @ '' requires the '' @ [CHR 0x27] @ required @ [CHR 0x27]
                      @ '' execution environment, but no matching backend is bound'') ''environment_unavailable''), st)
                 | Some env \<Rightarrow>
                     (case (if granted then scope else None) of
                        Some s \<Rightarrow>
                          if grants_host_execution s then
                            (if env_scoping env
                             then execute_registered H io provider call tool_name defn func (env\<lparr>env_scope := Some s\<rparr>) st
                             else (Inr (error_result (call_id call)
                               ''Error: the bound sandbox cannot apply the approved host access scope'' ''environment_unavailable''), st))
                          else execute_registered H io provider call tool_name defn func env st
                      | None \<Rightarrow> execute_registered H io provider call tool_name defn func env st))))"

text \<open>A call under \<^verbatim>\<open>authorize_execution\<close>: the permit holds during the call and is reset after it.\<close>

definition authorized_execute ::
  "digest \<Rightarrow> os_view \<Rightarrow> exec_io \<Rightarrow> provider \<Rightarrow> full_call \<Rightarrow> string option \<Rightarrow> approval_scope option \<Rightarrow> exec_state
    \<Rightarrow> (exec_exc + tool_result) \<times> exec_state" where
  "authorized_execute H os io provider call approval_id scope st = (case normalize_call os (ex_registry st) call of
     Inl e \<Rightarrow> (Inl (ExecGuard e), st)
   | Inr normalized \<Rightarrow>
       (let reg = ex_registry st; before = authorized_call reg;
            (result, st') = execute H os io provider call
              (st\<lparr>ex_registry := reg\<lparr>authorized_call := Some (call_fingerprint normalized, approval_id, scope)\<rparr>\<rparr>) in
        (result, st'\<lparr>ex_registry := (ex_registry st')\<lparr>authorized_call := before\<rparr>\<rparr>)))"

definition scoped_execute ::
  "digest \<Rightarrow> os_view \<Rightarrow> exec_io \<Rightarrow> provider \<Rightarrow> string list \<Rightarrow> full_call \<Rightarrow> exec_state \<Rightarrow> (exec_exc + tool_result) \<times> exec_state" where
  "scoped_execute H os io provider allowed_names raw_call st =
     (let view = \<lparr>scoped_parent = ex_registry st, scoped_allowed = allowed_names\<rparr> in
      case normalize_call os (ex_registry st) raw_call of
        Inl e \<Rightarrow> (Inl (ExecGuard e), st)
      | Inr call \<Rightarrow>
          if canonical_tool_name (call_name call) \<notin> set (active_names view)
          then (Inr (error_result (call_id call) (scoped_unavailable_tool_message (call_name call) view) ''tool_disabled''), st)
          else execute H os io provider call st)"

end
