(* ===== verification/Registry_Safety.thy ===== *)
theory Registry_Safety
  imports Registry Guard_Safety Ledger_Safety
begin

text \<open>
  What the registry guarantees where guard, ledger and providers meet: a provider runs only for
  an enabled tool whose call the guard let through or an approval of exactly this call covers,
  a side effect runs only under a claim of the ledger, scoped views only narrow, contracts stay
  valid, and normalizing a call twice changes nothing.
\<close>

subsection \<open>Invocations\<close>

lemma invoke_invocations:
  "ex_invocations (snd (invoke provider call tool_name func env st)) = ex_invocations st
     @ [(tool_name, if tool_name \<in> set (wants_environment (ex_registry st))
                    then (filter (\<lambda>(k, v). k \<noteq> ''environment'') (call_arguments call), Some env)
                    else (call_arguments call, None))]"
  by (simp add: invoke_def case_prod_beta)

lemma dec_result_None_claimed:
  "ledger_begin db run now c tool key idem tbl = (Inr decision, tbl') \<Longrightarrow> dec_result decision = None \<Longrightarrow>
   db \<and> decision = CLAIMED"
  by (auto simp: ledger_begin_def Let_def case_prod_beta split: if_splits option.splits)

text \<open>
  A side-effecting tool with a ledger bound is invoked at most once per execution, and only with
  a claim of the ledger; the answer to a refused claim is the ledger's.
\<close>

lemma execute_registered_claimed:
  assumes "execute_registered H io provider call tool_name defn func env st = (answer, st')"
    and "ex_invocations st' \<noteq> ex_invocations st"
    and "contract_side_effect defn \<noteq> ''none''" "reg_ledger (ex_registry st) = Some lg"
  shows "\<exists>key lg'. execution_key H io call tool_name (ex_table st) lg = Some (key, lg') \<and>
     fst (ledger_begin True (ledger_run_id lg) (io_begin_at io) (call_id call) tool_name key (contract_idempotent defn) (ex_table st))
       = Inr CLAIMED"
proof (cases "execution_key H io call tool_name (ex_table st) lg")
  case None
  with assms show ?thesis by (simp add: execute_registered_def)
next
  case (Some kl)
  obtain key lg' where kl: "kl = (key, lg')" by (cases kl)
  obtain ans tbl where begin_eq: "ledger_begin (io_begin_ok io) (ledger_run_id lg) (io_begin_at io) (call_id call) tool_name key
      (contract_idempotent defn) (ex_table st) = (ans, tbl)" by fastforce
  show ?thesis
  proof (cases ans)
    case (Inl e)
    with assms Some kl begin_eq show ?thesis by (auto simp: execute_registered_def)
  next
    case (Inr decision)
    show ?thesis
    proof (cases "dec_result decision")
      case None
      with dec_result_None_claimed begin_eq Inr Some kl show ?thesis by fastforce
    next
      case (Some result)
      with assms \<open>execution_key H io call tool_name (ex_table st) lg = Some kl\<close> kl begin_eq Inr show ?thesis
        by (auto simp: execute_registered_def)
    qed
  qed
qed

lemma execute_registered_once:
  assumes "execute_registered H io provider call tool_name defn func env st = (answer, st')"
  shows "ex_invocations st' = ex_invocations st \<or>
    (\<exists>arguments injected. ex_invocations st' = ex_invocations st @ [(tool_name, arguments, injected)])"
  using assms invoke_invocations [of provider call tool_name func env]
  by (auto simp: execute_registered_def Let_def case_prod_beta split: option.splits sum.splits if_splits)

subsection \<open>The backstop\<close>

text \<open>What it takes for the guard to let a call pass.\<close>

definition permitted :: "os_view \<Rightarrow> registry \<Rightarrow> full_call \<Rightarrow> bool" where
  "permitted os reg call = (case reg_guard reg of
     None \<Rightarrow> True
   | Some g \<Rightarrow>
       (\<exists>r. guard_check os g call = Inr r \<and>
          (guard_allowed r \<and> \<not> guard_approval_required r \<or>
           guard_approval_required r \<and> (\<exists>id. id \<noteq> [] \<and> authorized_call reg = Some (call_fingerprint call, Some id, guard_scope r)))))"

lemma approval_grantedD:
  "approval_granted reg call r \<Longrightarrow> \<exists>id. id \<noteq> [] \<and> authorized_call reg = Some (call_fingerprint call, Some id, guard_scope r)"
  by (auto simp: approval_granted_def split: option.splits list.splits)

lemma guard_backstop_passes:
  assumes "guard_backstop os call tool_name reg = Inr (Inr gs, reg')"
  shows "permitted os reg call \<and> reg_ledger reg' = reg_ledger reg"
proof (cases "reg_guard reg")
  case None
  with assms show ?thesis by (simp add: guard_backstop_def permitted_def)
next
  case (Some g)
  with assms obtain r where r: "guard_check os g call = Inr r"
    by (auto simp: guard_backstop_def split: sum.splits)
  let ?granted = "approval_granted reg call r"
  from assms Some r have pass: "\<not> (\<not> guard_allowed r \<and> \<not> (guard_approval_required r \<and> ?granted))"
      "\<not> (guard_approval_required r \<and> \<not> ?granted)" and ledger: "reg_ledger reg' = reg_ledger reg"
    by (auto simp: guard_backstop_def Let_def split: sum.splits if_splits)
  have "permitted os reg call"
  proof (cases "guard_approval_required r")
    case True
    with pass have ?granted by blast
    with True Some r approval_grantedD show ?thesis unfolding permitted_def by fastforce
  next
    case False
    with pass Some r show ?thesis by (auto simp: permitted_def)
  qed
  with ledger show ?thesis by simp
qed

text \<open>An execution that reaches a provider went through every gate before it.\<close>

lemma execute_gates:
  assumes "execute H os io provider raw st = (answer, st')" "ex_invocations st' \<noteq> ex_invocations st"
  obtains call defn func env st1 where "normalize_call os (ex_registry st) raw = Inr call"
    and "map_of (reg_tools (ex_registry st)) (canonical_tool_name (call_name call)) = Some (defn, func)"
    and "\<forall>e. reg_enabled (ex_registry st) = Some e \<longrightarrow> canonical_tool_name (call_name call) \<in> set e"
    and "permitted os (ex_registry st) call"
    and "execute_registered H io provider call (canonical_tool_name (call_name call)) defn func env st1 = (answer, st')"
    and "ex_table st1 = ex_table st" "ex_invocations st1 = ex_invocations st"
    and "reg_ledger (ex_registry st1) = reg_ledger (ex_registry st)"
proof (cases "normalize_call os (ex_registry st) raw")
  case (Inl e)
  with assms show ?thesis by (simp add: execute_def)
next
  case (Inr call)
  let ?name = "canonical_tool_name (call_name call)" and ?reg = "ex_registry st"
  show ?thesis
  proof (cases "map_of (reg_tools ?reg) ?name")
    case None
    with assms Inr show ?thesis by (simp add: execute_def)
  next
    case (Some df)
    obtain defn func where df: "df = (defn, func)" by (cases df)
    show ?thesis
    proof (cases "case reg_enabled ?reg of None \<Rightarrow> False | Some e \<Rightarrow> ?name \<notin> set e")
      case True
      with assms Inr Some df show ?thesis by (simp add: execute_def)
    next
      case enabled: False
      show ?thesis
      proof (cases "guard_backstop os call ?name ?reg")
        case (Inl e)
        with assms Inr Some df enabled show ?thesis by (simp add: execute_def)
      next
        case (Inr br)
        obtain b reg' where br: "br = (b, reg')" by (cases br)
        show ?thesis
        proof (cases b)
          case (Inl blocked)
          with assms \<open>normalize_call os ?reg raw = Inr call\<close> Some df enabled Inr br show ?thesis
            by (auto simp: execute_def)
        next
          case b: (Inr gs)
          obtain granted scope where gs: "gs = (granted, scope)" by (cases gs)
          have pass: "permitted os ?reg call" "reg_ledger reg' = reg_ledger ?reg"
            using guard_backstop_passes Inr br b by blast+
          have "\<exists>env. execute_registered H io provider call ?name defn func env (st\<lparr>ex_registry := reg'\<rparr>) = (answer, st')"
            using assms \<open>normalize_call os ?reg raw = Inr call\<close> Some df enabled Inr br b gs
            by (auto simp: execute_def Let_def split: option.splits if_splits)
          then obtain env where "execute_registered H io provider call ?name defn func env (st\<lparr>ex_registry := reg'\<rparr>) = (answer, st')" ..
          with that [of call defn func env "st\<lparr>ex_registry := reg'\<rparr>"] \<open>normalize_call os ?reg raw = Inr call\<close> Some df enabled pass
          show ?thesis by (auto split: option.splits)
        qed
      qed
    qed
  qed
qed

text \<open>
  C16. A provider runs only for an authorised call: an execution that invokes a provider invokes
  it once, for a registered tool that is enabled, and the guard bound to the registry either
  allowed the normalized call without an approval, or asked for one and the context holds a
  permit with an approval id for exactly this call, by its fingerprint, and exactly the scope
  the guard asked for.
\<close>

theorem execution_is_authorised:
  assumes "execute H os io provider raw st = (answer, st')" "ex_invocations st' \<noteq> ex_invocations st"
  shows "\<exists>call defn func arguments injected. normalize_call os (ex_registry st) raw = Inr call \<and>
     map_of (reg_tools (ex_registry st)) (canonical_tool_name (call_name call)) = Some (defn, func) \<and>
     (\<forall>e. reg_enabled (ex_registry st) = Some e \<longrightarrow> canonical_tool_name (call_name call) \<in> set e) \<and>
     ex_invocations st' = ex_invocations st @ [(canonical_tool_name (call_name call), arguments, injected)] \<and>
     (\<forall>g. reg_guard (ex_registry st) = Some g \<longrightarrow> (\<exists>r. guard_check os g call = Inr r \<and>
        (guard_allowed r \<and> \<not> guard_approval_required r \<or>
         guard_approval_required r \<and> (\<exists>id. id \<noteq> [] \<and>
           authorized_call (ex_registry st) = Some (call_fingerprint call, Some id, guard_scope r)))))"
  using assms
proof (rule execute_gates)
  fix call defn func env st1
  assume gates: "normalize_call os (ex_registry st) raw = Inr call"
    "map_of (reg_tools (ex_registry st)) (canonical_tool_name (call_name call)) = Some (defn, func)"
    "\<forall>e. reg_enabled (ex_registry st) = Some e \<longrightarrow> canonical_tool_name (call_name call) \<in> set e"
    "permitted os (ex_registry st) call"
    and run: "execute_registered H io provider call (canonical_tool_name (call_name call)) defn func env st1 = (answer, st')"
    "ex_invocations st1 = ex_invocations st"
  from execute_registered_once [OF run(1)] run(2) assms(2)
  obtain arguments injected where
    "ex_invocations st' = ex_invocations st @ [(canonical_tool_name (call_name call), arguments, injected)]" by auto
  moreover have "\<forall>g. reg_guard (ex_registry st) = Some g \<longrightarrow> (\<exists>r. guard_check os g call = Inr r \<and>
        (guard_allowed r \<and> \<not> guard_approval_required r \<or>
         guard_approval_required r \<and> (\<exists>id. id \<noteq> [] \<and>
           authorized_call (ex_registry st) = Some (call_fingerprint call, Some id, guard_scope r))))"
    using gates(4) by (auto simp: permitted_def)
  ultimately show ?thesis using gates by blast
qed

text \<open>
  C17. A side effect runs only under a claim: when a ledger is bound and the tool declares a side
  effect, an execution that invokes the provider was granted the claim on the key of the call
  in the table as it stood.
\<close>

theorem side_effect_runs_under_claim:
  assumes "execute H os io provider raw st = (answer, st')" "ex_invocations st' \<noteq> ex_invocations st"
    and "reg_ledger (ex_registry st) = Some lg"
  shows "\<exists>call defn func. normalize_call os (ex_registry st) raw = Inr call \<and>
     map_of (reg_tools (ex_registry st)) (canonical_tool_name (call_name call)) = Some (defn, func) \<and>
     (contract_side_effect defn \<noteq> ''none'' \<longrightarrow>
       (\<exists>key lg'. execution_key H io call (canonical_tool_name (call_name call)) (ex_table st) lg = Some (key, lg') \<and>
          fst (ledger_begin True (ledger_run_id lg) (io_begin_at io) (call_id call) (canonical_tool_name (call_name call)) key
             (contract_idempotent defn) (ex_table st)) = Inr CLAIMED))"
  using assms(1,2)
proof (rule execute_gates)
  fix call defn func env st1
  assume "normalize_call os (ex_registry st) raw = Inr call"
    "map_of (reg_tools (ex_registry st)) (canonical_tool_name (call_name call)) = Some (defn, func)"
    and run: "execute_registered H io provider call (canonical_tool_name (call_name call)) defn func env st1 = (answer, st')"
    and same: "ex_table st1 = ex_table st" "ex_invocations st1 = ex_invocations st"
      "reg_ledger (ex_registry st1) = reg_ledger (ex_registry st)"
  moreover have "\<exists>key lg'. execution_key H io call (canonical_tool_name (call_name call)) (ex_table st) lg = Some (key, lg') \<and>
          fst (ledger_begin True (ledger_run_id lg) (io_begin_at io) (call_id call) (canonical_tool_name (call_name call)) key
             (contract_idempotent defn) (ex_table st)) = Inr CLAIMED" if "contract_side_effect defn \<noteq> ''none''"
    using execute_registered_claimed [OF run _ that, of lg] assms(2,3) same by simp
  ultimately show ?thesis by blast
qed

subsection \<open>Scoped views\<close>

lemma active_names_enabled:
  "n \<in> set (active_names view) \<Longrightarrow>
   n \<in> set (scoped_allowed view) \<and> n \<in> set (dkeys (reg_tools (scoped_parent view))) \<and>
   (\<forall>e. reg_enabled (scoped_parent view) = Some e \<longrightarrow> n \<in> set e)"
  by (auto simp: active_names_def list_tool_names_def Let_def split: option.splits)

lemma get_schemas_narrow:
  "\<forall>n \<in> set names. \<forall>e. reg_enabled reg = Some e \<longrightarrow> n \<in> set e \<Longrightarrow>
   set (get_schemas (Some names) h reg) \<subseteq> set (get_schemas None h reg)"
  unfolding get_schemas_def Let_def set_map by (intro image_mono) (auto split: option.splits)

definition within_view :: "string list \<Rightarrow> registry \<Rightarrow> string \<Rightarrow> bool" where
  "within_view names reg n \<longleftrightarrow> n \<in> set names \<and> (case reg_enabled reg of None \<Rightarrow> True | Some e \<Rightarrow> n \<in> set e)"

text \<open>
  A scoped view only narrows: the schemas it shows are among those of the parent registry,
  every contract it hands out is the parent's contract of an enabled tool in the view's own
  list, and executing through it invokes a provider only for such a tool.
\<close>

theorem scoped_view_narrows:
  "set (scoped_get_schemas enabled h view) \<subseteq> set (get_schemas None h (scoped_parent view)) \<and>
     (\<forall>name d. scoped_get name view = Some d \<longrightarrow>
        get_tool (canonical_tool_name name) (scoped_parent view) = Some d \<and>
        within_view (scoped_allowed view) (scoped_parent view) (canonical_tool_name name)) \<and>
     (\<forall>answer st'. scoped_execute H os io provider names raw st = (answer, st') \<longrightarrow> ex_invocations st' \<noteq> ex_invocations st \<longrightarrow>
        (\<exists>call. normalize_call os (ex_registry st) raw = Inr call \<and>
           within_view names (ex_registry st) (canonical_tool_name (call_name call))))"
proof (intro conjI allI impI)
  show "set (scoped_get_schemas enabled h view) \<subseteq> set (get_schemas None h (scoped_parent view))"
    unfolding scoped_get_schemas_def Let_def
    by (rule get_schemas_narrow) (auto dest: active_names_enabled split: option.splits)
next
  fix name d assume "scoped_get name view = Some d"
  then show "get_tool (canonical_tool_name name) (scoped_parent view) = Some d"
    and "within_view (scoped_allowed view) (scoped_parent view) (canonical_tool_name name)"
    by (auto simp: scoped_get_def within_view_def dest: active_names_enabled split: if_splits option.splits)
next
  fix answer st' assume "scoped_execute H os io provider names raw st = (answer, st')"
    "ex_invocations st' \<noteq> ex_invocations st"
  then show "\<exists>call. normalize_call os (ex_registry st) raw = Inr call \<and>
      within_view names (ex_registry st) (canonical_tool_name (call_name call))"
    by (auto simp: scoped_execute_def within_view_def Let_def dest!: active_names_enabled split: sum.splits if_splits option.splits)
qed

subsection \<open>Contracts stay valid\<close>

definition valid_contract :: "string \<Rightarrow> tool_contract \<Rightarrow> bool" where
  "valid_contract name d \<longleftrightarrow> contract_name d = name \<and>
     (contract_permission_level d = [] \<or> contract_permission_level d \<in> set VALID_PERMISSION_LEVELS) \<and>
     contract_approval_policy d \<in> set VALID_APPROVAL_POLICIES \<and> contract_side_effect d \<in> set VALID_SIDE_EFFECTS \<and>
     contract_concurrency d \<in> set VALID_CONCURRENCY \<and>
     contract_execution_environment d \<in> set VALID_EXECUTION_ENVIRONMENTS \<and>
     valid_timeout (contract_timeout_seconds d) \<and> (contract_side_effect d \<noteq> ''none'' \<longrightarrow> tool_is_write d)"

definition registry_ok :: "registry \<Rightarrow> bool" where
  "registry_ok reg \<longleftrightarrow> distinct (dkeys (reg_tools reg)) \<and>
     (\<forall>name d func. (name, d, func) \<in> set (reg_tools reg) \<longrightarrow> valid_contract name d) \<and>
     (\<forall>g. reg_guard reg = Some g \<longrightarrow> guard_contracts g = definitions reg)"

text \<open>Every way the registry changes; an operation that raises leaves it as it was.\<close>

datatype registry_event =
    EvRegister tool_meta handler
  | EvLoad "string list option" "(string, provider_module) dict option"
  | EvWrap string "handler \<Rightarrow> handler"
  | EvEnable "json list option"
  | EvLedger "tool_ledger option"
  | EvGuard "tool_guard option"
  | EvEnvironment "environment option"
  | EvWorkingDirectory os_view "string option"
  | EvExecute digest os_view exec_io provider full_call "string option" "approval_scope option" ledger_table

definition or_same :: "registry \<Rightarrow> 'e + registry \<Rightarrow> registry" where
  "or_same reg r = (case r of Inl e \<Rightarrow> reg | Inr reg' \<Rightarrow> reg')"

fun registry_step :: "registry \<Rightarrow> registry_event \<Rightarrow> registry" where
  "registry_step reg (EvRegister m func) = or_same reg (register m func reg)"
| "registry_step reg (EvLoad allowed_filenames dir) = load_providers allowed_filenames dir reg"
| "registry_step reg (EvWrap name wrapper) = snd (wrap_tool name wrapper reg)"
| "registry_step reg (EvEnable enabled) = snd (set_enabled enabled reg)"
| "registry_step reg (EvLedger lg) = bind_execution_ledger lg reg"
| "registry_step reg (EvGuard g) = bind_tool_guard g reg"
| "registry_step reg (EvEnvironment env) = or_same reg (bind_execution_environment env reg)"
| "registry_step reg (EvWorkingDirectory os wd) = or_same reg (bind_working_directory os wd reg)"
| "registry_step reg (EvExecute H os io provider call approval_id scope tbl) =
     ex_registry (snd (authorized_execute H os io provider call approval_id scope
       \<lparr>ex_registry = reg, ex_table = tbl, ex_invocations = []\<rparr>))"

text \<open>Two registries with the same tools and the same contracts bound to the guard.\<close>

definition same_contracts :: "registry \<Rightarrow> registry \<Rightarrow> bool" where
  "same_contracts reg' reg \<longleftrightarrow> reg_tools reg' = reg_tools reg \<and>
     map_option guard_contracts (reg_guard reg') = map_option guard_contracts (reg_guard reg)"

lemma same_contracts_refl [simp]: "same_contracts reg reg"
  by (simp add: same_contracts_def)

lemma same_contracts_trans: "same_contracts c b \<Longrightarrow> same_contracts b a \<Longrightarrow> same_contracts c a"
  by (simp add: same_contracts_def)

lemma registry_ok_same:
  assumes "same_contracts reg' reg" "registry_ok reg"
  shows "registry_ok reg'"
proof -
  have "definitions reg' = definitions reg" using assms by (simp add: same_contracts_def definitions_def)
  with assms show ?thesis by (cases "reg_guard reg") (auto simp: registry_ok_def same_contracts_def)
qed

lemma registry_ok_rebind:
  "distinct (dkeys (reg_tools reg)) \<Longrightarrow> (\<forall>name d func. (name, d, func) \<in> set (reg_tools reg) \<longrightarrow> valid_contract name d) \<Longrightarrow>
   registry_ok (rebind_guard reg)"
  by (auto simp: registry_ok_def rebind_guard_def definitions_def bind_definitions_def)

lemma member_text_Inr: "member_text valid v = Inr s \<Longrightarrow> s \<in> set valid"
  by (cases "(valid, v)" rule: member_text.cases) (auto split: if_splits)

lemma ensure_Inr: "ensure b = Inr u \<longleftrightarrow> b"
  by (simp add: ensure_def)

lemma register_ok:
  assumes "register m func reg = Inr reg'" "registry_ok reg"
  shows "registry_ok reg'"
proof -
  obtain hidden opaque network policy retry side conc env where
    new: "map_of (reg_tools reg) (meta_name m) = None"
    and lev: "meta_permission_level m = [] \<or> meta_permission_level m \<in> set VALID_PERMISSION_LEVELS"
    and mem: "policy \<in> set VALID_APPROVAL_POLICIES" "side \<in> set VALID_SIDE_EFFECTS" "conc \<in> set VALID_CONCURRENCY"
      "env \<in> set VALID_EXECUTION_ENVIRONMENTS" and tm: "valid_timeout (meta_timeout_seconds m)"
    and reg': "reg' = rebind_guard (reg\<lparr>reg_tools := reg_tools reg @ [(meta_name m,
        \<lparr>tool_path_args = meta_path_args m, tool_is_write = (meta_is_write_tool m \<or> side \<noteq> ''none''),
            tool_read_actions = meta_read_actions m, contract_name = meta_name m,
            contract_description = meta_description m, contract_parameters = meta_parameters m,
            contract_hidden = hidden, contract_opaque_command = opaque,
            contract_network_access = network, contract_list_path_args = meta_list_path_args m,
            contract_permission_level = meta_permission_level m, contract_approval_policy = policy,
            contract_timeout_seconds = meta_timeout_seconds m, contract_retryable = retry,
            contract_side_effect = side, contract_idempotent = truthy (meta_idempotent m),
            contract_concurrency = conc, contract_execution_environment = env\<rparr>, func)],
           wants_environment := (if handler_environment func then List.insert (meta_name m) (wants_environment reg)
                                 else wants_environment reg)\<rparr>)"
    using assms(1) unfolding register_def bind_res_Inr ensure_Inr Let_def by (auto dest!: member_text_Inr)
  show ?thesis
    unfolding reg' using assms(2) new lev mem tm
    by (intro registry_ok_rebind) (auto simp: registry_ok_def valid_contract_def map_of_eq_None_iff)
qed

lemma load_provider_ok: "registry_ok reg \<Longrightarrow> registry_ok (load_provider module reg)"
  by (auto simp: load_provider_def bind_res_Inr dest: register_ok
      split: provider_module.splits execute_attr.splits sum.splits)

lemma load_providers_ok:
  assumes "registry_ok reg"
  shows "registry_ok (load_providers allowed_filenames dir reg)"
proof -
  have "registry_ok (foldl (\<lambda>r f. if starts_with ''_'' f then r else case map_of files f of None \<Rightarrow> r | Some m \<Rightarrow> load_provider m r) reg fs)"
    for files fs
    using assms by (induction fs arbitrary: reg) (auto intro!: load_provider_ok split: option.splits)
  then show ?thesis using assms by (simp add: load_providers_def Let_def split: option.splits)
qed

lemma wrap_tool_ok:
  assumes "registry_ok reg"
  shows "registry_ok (snd (wrap_tool name wrapper reg))"
proof (cases "map_of (reg_tools reg) (canonical_tool_name name)")
  case None
  with assms show ?thesis by (simp add: wrap_tool_def)
next
  case (Some df)
  obtain d f where df: "df = (d, f)" by (cases df)
  let ?n = "canonical_tool_name name"
  have defs: "map (\<lambda>(k, e, g). (k, e)) (dset ?n (d, wrapper f) kvs) = map (\<lambda>(k, e, g). (k, e)) kvs"
    if "map_of kvs ?n = Some (d, f)" for kvs
    using that by (induction kvs) auto
  have keys: "dkeys (dset ?n (d, wrapper f) (reg_tools reg)) = dkeys (reg_tools reg)"
    using Some by (force simp: update_keys dest: map_of_SomeD)
  have "valid_contract k e" if "(k, e, g) \<in> set (dset ?n (d, wrapper f) (reg_tools reg))" for k e g
  proof -
    from that defs [OF Some [unfolded df]] have "(k, e) \<in> set (map (\<lambda>(k, e, g). (k, e)) (reg_tools reg))"
      by (metis (mono_tags, lifting) case_prod_conv image_eqI list.set_map)
    with assms show ?thesis by (auto simp: registry_ok_def)
  qed
  with assms keys defs [OF Some [unfolded df]] show ?thesis
    by (auto simp: registry_ok_def wrap_tool_def Some df definitions_def)
qed

text \<open>An execution changes the ledger and the session whitelist, never a contract.\<close>

lemma execute_registered_frame:
  "same_contracts (ex_registry (snd (execute_registered H io provider call tool_name defn func env st))) (ex_registry st)"
proof -
  have inv: "ex_registry (snd (invoke provider call tool_name func env st)) = ex_registry st" for st
    by (simp add: invoke_def case_prod_beta)
  show ?thesis
    by (auto simp: execute_registered_def Let_def case_prod_beta inv same_contracts_def
        split: option.splits sum.splits if_splits)
qed

lemma remember_approval_frame: "remember_approval os r g = Inr g' \<Longrightarrow> guard_contracts g' = guard_contracts g"
  by (auto simp: remember_approval_def bind_res_def split: option.split_asm sum.split_asm if_split_asm)

lemma bind_working_directory_frame: "bind_working_directory os wd reg = Inr reg' \<Longrightarrow> same_contracts reg' reg"
  by (auto simp: bind_working_directory_def bind_res_def same_contracts_def
      split: option.split_asm sum.split_asm list.split_asm)

lemma guard_backstop_frame:
  "guard_backstop os call tool_name reg = Inr (res, reg') \<Longrightarrow> same_contracts reg' reg"
  by (auto simp: guard_backstop_def Let_def same_contracts_def dest: remember_approval_frame
      split: option.splits sum.splits if_splits)

lemma execute_frame: "same_contracts (ex_registry (snd (execute H os io provider raw st))) (ex_registry st)"
proof -
  have run: "same_contracts (ex_registry (snd (execute_registered H io provider call tool_name defn func env (st\<lparr>ex_registry := reg'\<rparr>)))) (ex_registry st)"
    if "same_contracts reg' (ex_registry st)" for call tool_name defn func env reg'
    using execute_registered_frame [of H io provider call tool_name defn func env "st\<lparr>ex_registry := reg'\<rparr>"] that
    by (auto intro: same_contracts_trans)
  show ?thesis
    by (auto simp: execute_def Let_def intro!: run dest: guard_backstop_frame
        split: option.splits sum.splits if_splits prod.splits)
qed

lemma authorized_execute_frame:
  "same_contracts (ex_registry (snd (authorized_execute H os io provider call approval_id scope st))) (ex_registry st)"
proof (cases "normalize_call os (ex_registry st) call")
  case (Inr normalized)
  let ?st = "st\<lparr>ex_registry := (ex_registry st)\<lparr>authorized_call := Some (call_fingerprint normalized, approval_id, scope)\<rparr>\<rparr>"
  have "same_contracts (ex_registry (snd (execute H os io provider call ?st))) (ex_registry ?st)"
    by (rule execute_frame)
  with Inr show ?thesis by (simp add: authorized_execute_def Let_def case_prod_beta same_contracts_def)
qed (simp add: authorized_execute_def)

interpretation registries: step_system registry_step "\<lambda>_. True" registry_ok
proof
  fix reg e
  assume ok_reg: "registry_ok reg"
  have keep: "registry_ok reg'" if "same_contracts reg' reg" for reg'
    using that ok_reg by (rule registry_ok_same)
  show "registry_ok (registry_step reg e)"
  proof (cases e)
    case (EvRegister m func)
    with ok_reg show ?thesis by (auto simp: or_same_def dest: register_ok split: sum.splits)
  next
    case (EvLoad allowed_filenames dir)
    with ok_reg show ?thesis by (simp add: load_providers_ok)
  next
    case (EvWrap name wrapper)
    with ok_reg show ?thesis by (simp add: wrap_tool_ok)
  next
    case (EvGuard g)
    have "registry_ok (rebind_guard (reg\<lparr>reg_guard := g\<rparr>))"
      using ok_reg by (intro registry_ok_rebind) (simp_all add: registry_ok_def)
    with EvGuard show ?thesis by (simp add: bind_tool_guard_def)
  next
    case (EvExecute H os io provider call approval_id scope tbl)
    have "same_contracts (registry_step reg e) reg"
      using authorized_execute_frame [of H os io provider call approval_id scope
          "\<lparr>ex_registry = reg, ex_table = tbl, ex_invocations = []\<rparr>"] EvExecute by simp
    then show ?thesis by (rule keep)
  next
    case (EvWorkingDirectory os wd)
    with ok_reg show ?thesis
      by (auto simp: or_same_def intro: keep dest: bind_working_directory_frame split: sum.splits)
  qed (auto simp: or_same_def bind_execution_ledger_def bind_execution_environment_def set_enabled_def Let_def
      same_contracts_def intro!: keep split: option.splits sum.splits if_splits)
qed

lemma registry_ok_new: "registry_ok (ToolRegistry is_lazy)"
  by (simp add: registry_ok_def ToolRegistry_def definitions_def)

lemma registry_ok_reachable: "registry_ok (foldl registry_step (ToolRegistry is_lazy) es)"
  by (rule registries.run_inv [OF registry_ok_new]) simp

text \<open>
  Contracts are well-formed whatever happened to the registry: after any sequence of
  registrations, provider loads, wraps, bindings and executions, successful or not, tool names
  are unique, every contract carries the name it is stored under and valid values in every
  enumerated field, declares itself as writing when it has a side effect, and a bound guard
  sees exactly the registered contracts.
\<close>

theorem registered_contracts_valid:
  "registry_ok (foldl registry_step (ToolRegistry is_lazy) es)"
  by (rule registry_ok_reachable)

text \<open>
  Registered writers always ask: in every registry that a sequence of operations can
  produce, a call of a registered tool with a side effect that the guard allows without an
  approval names an action the tool declares as a read.
\<close>

theorem registered_writers_need_approval:
  assumes "reg = foldl registry_step (ToolRegistry is_lazy) es" "reg_guard reg = Some g"
    and "map_of (reg_tools reg) (call_name call) = Some (d, func)" "contract_side_effect d \<noteq> ''none''"
    and "guard_check os g call = Inr r" "guard_allowed r" "lower (call_action call) \<notin> set (tool_read_actions d)"
  shows "guard_approval_required r"
proof -
  have ok_reg: "registry_ok reg" unfolding assms(1) by (rule registry_ok_reachable)
  have lookup: "map_of (map (\<lambda>(name, d, f). (name, d)) kvs) n = map_option fst (map_of kvs n)"
    for kvs :: "(string \<times> tool_contract \<times> handler) list" and n
    by (induction kvs) auto
  have contracts: "guard_contracts g = definitions reg"
    using ok_reg assms(2) by (simp add: registry_ok_def)
  then have d: "map_of (guard_contracts g) (call_name call) = Some d"
    using assms(3) by (simp add: definitions_def lookup)
  obtain extra where "decide os g call = Inr (r, extra)"
    using assms(5) by (auto simp: guard_check_def bind_res_Inr)
  then have "guard_approval_required r = requires_approval g call"
    using assms(6) by (cases rule: decide_cases) (auto dest: check_file_paths_refused)
  then show ?thesis
    using assms(4,7) d by (simp add: requires_approval_def resolve_approval_policy_def Let_def)
qed

subsection \<open>Normalizing twice\<close>

text \<open>What \<^verbatim>\<open>Path.resolve\<close> documents: its result is absolute, in text form, and resolves to itself.\<close>

definition resolves_canonically :: "os_view \<Rightarrow> bool" where
  "resolves_canonically os \<longleftrightarrow>
     (\<forall>p r. os_resolve os p = Inr r \<longrightarrow> os_resolve os r = Inr r \<and> is_absolute r \<and> path_text r = r)"

lemma expand_absolute: "is_absolute r \<Longrightarrow> expand os r = Inr (path_text r)"
  by (simp add: expand_def expanduser_def is_absolute_def Let_def)

lemma absolute_nonempty: "is_absolute r \<Longrightarrow> r \<noteq> []"
  by (auto simp: is_absolute_def root_slashes_def starts_with_def)

lemma update_same: "map_of d k = Some v \<Longrightarrow> dset k v d = d"
  by (induction d) auto

definition settled :: "os_view \<Rightarrow> string \<Rightarrow> json \<Rightarrow> jdict \<times> (string, string) dict \<Rightarrow> string \<Rightarrow> bool" where
  "settled os wd params state arg \<longleftrightarrow> resolve_argument os wd params state arg = Inr state"

text \<open>A resolved argument with a declared spelling is settled, and so is one without a value.\<close>

lemma settledI:
  assumes "map_of arguments arg = Some (JStr r)" "os_resolve os r = Inr r" "is_absolute r" "path_text r = r"
    and "map_of declared arg \<noteq> None"
  shows "settled os wd params (arguments, declared) arg"
proof -
  obtain c cs where "r = c # cs" using absolute_nonempty [OF assms(3)] by (cases r) auto
  with assms expand_absolute [OF assms(3), of os] show ?thesis
    by (auto simp: settled_def resolve_argument_def update_same)
qed

lemma resolve_argument_cases:
  assumes "resolve_argument os wd params (arguments, declared) arg = Inr (arguments', declared')"
    and "resolves_canonically os"
  obtains (same) "arguments' = arguments" "declared' = declared" "settled os wd params (arguments, declared) arg"
  | (changed) r where "arguments' = dset arg (JStr r) arguments"
      "os_resolve os r = Inr r" "is_absolute r" "path_text r = r"
      "map_of declared' arg \<noteq> None" "\<forall>k. k \<noteq> arg \<longrightarrow> map_of declared' k = map_of declared k"
proof -
  let ?v = "case map_of arguments arg of Some (JStr (c # cs)) \<Rightarrow> Some (c # cs) | _ \<Rightarrow> schema_default params arg"
  show thesis
  proof (cases ?v)
    case None
    with assms same show ?thesis by (simp add: resolve_argument_def settled_def)
  next
    case (Some v)
    then obtain p where p: "expand os v = Inr p"
      using assms(1) by (auto simp: resolve_argument_def bind_res_Inr)
    let ?c = "if is_absolute p then p else path_join wd p"
    obtain r where r: "os_resolve os ?c = Inr r"
      using assms(1) Some p by (cases "os_resolve os ?c") (auto simp: resolve_argument_def Let_def)
    then have "arguments' = dset arg (JStr r) arguments"
      "declared' = (if map_of declared arg = None then dset arg (abspath os ?c) declared else declared)"
      using assms(1) Some p by (auto simp: resolve_argument_def Let_def)
    moreover have "os_resolve os r = Inr r \<and> is_absolute r \<and> path_text r = r"
      using r assms(2) unfolding resolves_canonically_def by blast
    ultimately show ?thesis using changed [of r] by (auto split: if_splits)
  qed
qed

text \<open>Whether an argument is settled depends on its own entries only.\<close>

definition argument_value :: "json \<Rightarrow> string \<Rightarrow> json option \<Rightarrow> string option" where
  "argument_value params arg v = (case v of Some (JStr (c # cs)) \<Rightarrow> Some (c # cs) | _ \<Rightarrow> schema_default params arg)"

lemma dset_same_iff: "dset k v d = d \<longleftrightarrow> map_of d k = Some v"
  using update_same [of d k v] by (metis fun_upd_same map_of_dset)

lemma settled_iff:
  "settled os wd params (arguments, declared) arg \<longleftrightarrow>
     (case argument_value params arg (map_of arguments arg) of None \<Rightarrow> True
      | Some v \<Rightarrow> (\<exists>p r. expand os v = Inr p \<and> os_resolve os (if is_absolute p then p else path_join wd p) = Inr r \<and>
          map_of arguments arg = Some (JStr r) \<and> map_of declared arg \<noteq> None))"
proof (cases "argument_value params arg (map_of arguments arg)")
  case None
  then show ?thesis by (simp add: settled_def resolve_argument_def argument_value_def)
next
  case (Some v)
  show ?thesis
  proof (cases "expand os v")
    case (Inl e)
    with Some show ?thesis by (simp add: settled_def resolve_argument_def argument_value_def)
  next
    case (Inr p)
    let ?c = "if is_absolute p then p else path_join wd p"
    have "resolve_argument os wd params (arguments, declared) arg = (case os_resolve os ?c of
        Inl e \<Rightarrow> Inl (path_error e)
      | Inr r \<Rightarrow> Inr (dset arg (JStr r) arguments,
          if map_of declared arg = None then dset arg (abspath os ?c) declared else declared))"
      using Some Inr by (simp add: resolve_argument_def argument_value_def Let_def)
    then show ?thesis
      using Some Inr by (cases "os_resolve os ?c"; cases "map_of declared arg")
        (simp_all add: settled_def dset_same_iff)
  qed
qed

lemma settled_other:
  "settled os wd params (arguments, declared) a \<Longrightarrow> map_of arguments' a = map_of arguments a \<Longrightarrow>
   map_of declared' a = map_of declared a \<Longrightarrow> settled os wd params (arguments', declared') a"
  by (simp only: settled_iff)

lemma resolve_argument_settles:
  assumes step: "resolve_argument os wd params st arg = Inr st'" and os: "resolves_canonically os"
  shows "settled os wd params st' arg" "settled os wd params st a \<Longrightarrow> settled os wd params st' a"
proof -
  obtain A D A' D' where st: "st = (A, D)" "st' = (A', D')" by (cases st, cases st') auto
  from step os show "settled os wd params st' arg"
    unfolding st by (cases rule: resolve_argument_cases) (auto intro: settledI)
  with step os show "settled os wd params st a \<Longrightarrow> settled os wd params st' a"
    unfolding st by (cases "a = arg"; cases rule: resolve_argument_cases) (auto intro: settled_other)
qed

lemma resolve_arguments_settles:
  assumes "resolve_arguments os wd params args st = Inr st'" "resolves_canonically os"
  shows "(\<forall>a \<in> set args. settled os wd params st' a) \<and> (\<forall>a. settled os wd params st a \<longrightarrow> settled os wd params st' a)"
  using assms(1)
proof (induction args arbitrary: st)
  case (Cons arg args)
  then obtain st1 where st1: "resolve_argument os wd params st arg = Inr st1"
    "resolve_arguments os wd params args st1 = Inr st'" by (auto simp: bind_res_Inr)
  with Cons.IH [OF st1(2)] resolve_argument_settles [OF st1(1) assms(2)] show ?case by auto
qed simp

lemma resolve_arguments_fixed:
  "\<forall>a \<in> set args. settled os wd params st a \<Longrightarrow> resolve_arguments os wd params args st = Inr st"
  by (induction args) (auto simp: settled_def)

lemma resolve_arguments_cwd:
  assumes "resolve_arguments os wd params args (A, D) = Inr (A', D')" "resolves_canonically os"
    and "truthy (dget A ''cwd'')"
  shows "truthy (dget A' ''cwd'')"
  using assms(1,3)
proof (induction args arbitrary: A D)
  case (Cons arg args)
  then obtain A1 D1 where st1: "resolve_argument os wd params (A, D) arg = Inr (A1, D1)"
    "resolve_arguments os wd params args (A1, D1) = Inr (A', D')" by (auto simp: bind_res_Inr)
  from st1(1) assms(2) have "truthy (dget A1 ''cwd'')"
    using Cons.prems(2) absolute_nonempty
    by (cases rule: resolve_argument_cases) (auto simp: dget_def split: option.splits)
  with Cons.IH [OF st1(2)] show ?case by simp
qed simp

lemma canonical_tool_name_idem [simp]: "canonical_tool_name (canonical_tool_name n) = canonical_tool_name n"
  by (simp add: canonical_tool_name_def TOOL_ALIASES_def)

text \<open>
  Normalizing a call is idempotent: when \<^verbatim>\<open>Path.resolve\<close> yields absolute paths that
  resolve to themselves, normalizing a normalized call gives the same call, with the declared
  spellings of the first pass, so the guard checks at execution what it checked before.
\<close>

theorem normalize_call_idempotent:
  assumes "resolves_canonically os" "\<forall>wd. reg_working_dir reg = Some wd \<longrightarrow> wd \<noteq> []"
    and first: "normalize_call os reg call = Inr call'"
  shows "normalize_call os reg call' = Inr call'"
proof (cases "reg_working_dir reg")
  case None
  with first show ?thesis by (auto simp: normalize_call_def)
next
  case (Some wd)
  show ?thesis
  proof (cases "map_of (reg_tools reg) (canonical_tool_name (call_name call))")
    case None
    with first Some show ?thesis by (auto simp: normalize_call_def)
  next
    case entry: (Some df)
    obtain defn func where df: "df = (defn, func)" by (cases df)
    let ?params = "contract_parameters defn"
    let ?cwd = "\<lambda>A. case schema_properties ?params of
        Some ps \<Rightarrow> if map_of ps ''cwd'' \<noteq> None \<and> \<not> truthy (dget A ''cwd'') then dset ''cwd'' (JStr wd) A else A
      | None \<Rightarrow> A"
    from first Some entry df obtain A' D' where
      pass: "resolve_arguments os wd ?params (tool_path_args defn) (?cwd (call_arguments call), call_declared_paths call) = Inr (A', D')"
      and call': "call' = call\<lparr>call_name := canonical_tool_name (call_name call), call_arguments := A', call_declared_paths := D'\<rparr>"
      by (auto simp: normalize_call_def Let_def bind_res_Inr)
    then have fields: "A' = call_arguments call'" "D' = call_declared_paths call'"
      "call_name call' = canonical_tool_name (call_name call)" by simp_all
    have "?cwd (call_arguments call') = call_arguments call'"
    proof (cases "schema_properties ?params")
      case (Some ps)
      show ?thesis
      proof (cases "map_of ps ''cwd''")
        case (Some v)
        have "truthy (dget (?cwd (call_arguments call)) ''cwd'')"
          using \<open>schema_properties ?params = Some ps\<close> Some assms(2) \<open>reg_working_dir reg = Some wd\<close>
          by (simp add: dget_def)
        from resolve_arguments_cwd [OF pass assms(1) this] show ?thesis
          using \<open>schema_properties ?params = Some ps\<close> fields by simp
      qed (simp add: Some)
    qed simp
    moreover have "resolve_arguments os wd ?params (tool_path_args defn) (call_arguments call', call_declared_paths call')
        = Inr (call_arguments call', call_declared_paths call')"
      using resolve_arguments_settles [OF pass assms(1)] fields by (intro resolve_arguments_fixed) blast
    ultimately show ?thesis
      using Some entry df fields by (simp add: normalize_call_def Let_def)
  qed
qed

subsection \<open>Witnesses\<close>

definition demo_handler :: handler where
  "demo_handler = \<lparr>handler_name = ''file_tool'', handler_async = True, handler_environment = False\<rparr>"

definition demo_io :: exec_io where
  "demo_io = \<lparr>io_key_ok = True, io_begin_ok = True, io_finish_ok = True, io_begin_at = ''t1'', io_finish_at = ''t2'', io_saved = None\<rparr>"

definition demo_provider :: provider where
  "demo_provider func arguments injected = Returned ''done''"

definition demo_digest :: digest where
  "demo_digest s = replicate 64 CHR ''a''"

definition demo_state :: "bool \<Rightarrow> tool_guard option \<Rightarrow> tool_ledger option \<Rightarrow> exec_state" where
  "demo_state w guard lg = \<lparr>ex_registry = (ToolRegistry False)\<lparr>reg_tools := [(''file_tool'', demo_contract w, demo_handler)],
     reg_working_dir := Some ''/w'', reg_guard := guard, reg_ledger := lg\<rparr>, ex_table = [], ex_invocations = []\<rparr>"

definition demo_normalized :: full_call where
  "demo_normalized = (demo_call ''/w/a'' ''x'')\<lparr>call_declared_paths := [(''path'', ''/w/a'')]\<rparr>"

lemma demo_normalize:
  "normalize_call demo_os (ex_registry (demo_state w guard lg)) (demo_call ''a'' ''x'') = Inr demo_normalized"
proof -
  have "resolve_argument demo_os ''/w'' JNull ([(''path'', JStr ''a''), (''content'', JStr ''x'')], []) ''path''
      = Inr ([(''path'', JStr ''/w/a''), (''content'', JStr ''x'')], [(''path'', ''/w/a'')])"
    by code_simp
  then show ?thesis
    by (simp add: normalize_call_def demo_state_def demo_contract_def demo_call_def demo_normalized_def schema_properties_def
        canonical_tool_name_def TOOL_ALIASES_def)
qed

lemma demo_truncate: "truncate_output None ''done'' = ''done''"
  by (simp add: truncate_output_def MAX_LINES_def MAX_BYTES_def utf8_len_def)

lemma demo_no_error: "\<not> looks_like_tool_error ''done''"
  by code_simp

lemmas demo_run = demo_normalize demo_normalized_def demo_state_def demo_contract_def demo_call_def demo_provider_def demo_io_def
  execute_def execute_registered_def invoke_def provider_result_def finalize_result_def environment_for_def
  canonical_tool_name_def TOOL_ALIASES_def ToolRegistry_def demo_no_error demo_truncate

lemma demo_execute_read:
  "ex_invocations (snd (execute demo_digest demo_os demo_io demo_provider (demo_call ''a'' ''x'')
     (demo_state False (Some (demo_guard [] False)) None)))
   = [(''file_tool'', [(''path'', JStr ''/w/a''), (''content'', JStr ''x'')], None)]"
proof -
  let ?reg = "ex_registry (demo_state False (Some (demo_guard [] False)) None)"
  have check: "guard_check demo_os (demo_guard [] False) demo_normalized =
     Inr \<lparr>guard_allowed = True, guard_reason = [], guard_level = READ, guard_needs_confirmation = False,
          guard_approval_required = False, guard_boundary_block = False, guard_scope = None, guard_risk = ROUTINE\<rparr>"
    by code_simp
  then have "guard_backstop demo_os demo_normalized ''file_tool'' ?reg = Inr (Inr (False, None), ?reg)"
    by (simp add: guard_backstop_def demo_state_def ToolRegistry_def approval_granted_def)
  then show ?thesis
    unfolding execute_def demo_normalize by (simp add: demo_run Let_def)
qed

lemma execution_is_authorised_witness:
  "\<exists>call r. normalize_call demo_os (ex_registry (demo_state False (Some (demo_guard [] False)) None)) (demo_call ''a'' ''x'') = Inr call \<and>
     guard_check demo_os (demo_guard [] False) call = Inr r"
proof -
  let ?st = "demo_state False (Some (demo_guard [] False)) None"
  have "ex_invocations (snd (execute demo_digest demo_os demo_io demo_provider (demo_call ''a'' ''x'') ?st)) \<noteq> ex_invocations ?st"
    unfolding demo_execute_read by (simp add: demo_state_def)
  moreover have "reg_guard (ex_registry ?st) = Some (demo_guard [] False)" by (simp add: demo_state_def)
  ultimately show ?thesis
    using execution_is_authorised [of demo_digest demo_os demo_io demo_provider "demo_call ''a'' ''x''" ?st, OF surjective_pairing]
    by blast
qed

lemma demo_execute_write:
  "ex_invocations (snd (execute demo_digest demo_os demo_io demo_provider (demo_call ''a'' ''x'')
     (demo_state True None (Some (ToolExecutionLedger ''r'' False)))))
   = [(''file_tool'', [(''path'', JStr ''/w/a''), (''content'', JStr ''x'')], None)]"
  unfolding execute_def demo_normalize
  by (simp add: demo_run guard_backstop_def execution_key_def idempotency_key_for_def ToolExecutionLedger_def
      ledger_begin_def CLAIMED_def case_prod_beta Let_def)

lemma side_effect_runs_under_claim_witness:
  "\<exists>key. fst (ledger_begin True ''r'' ''t1'' ''c'' ''file_tool'' key False []) = Inr CLAIMED"
proof -
  let ?lg = "ToolExecutionLedger ''r'' False"
  let ?st = "demo_state True None (Some ?lg)"
  have "ex_invocations (snd (execute demo_digest demo_os demo_io demo_provider (demo_call ''a'' ''x'') ?st)) \<noteq> ex_invocations ?st"
    unfolding demo_execute_write by (simp add: demo_state_def)
  moreover have "reg_ledger (ex_registry ?st) = Some ?lg" by (simp add: demo_state_def)
  ultimately obtain call defn func where
    call: "normalize_call demo_os (ex_registry ?st) (demo_call ''a'' ''x'') = Inr call"
    and entry: "map_of (reg_tools (ex_registry ?st)) (canonical_tool_name (call_name call)) = Some (defn, func)"
    and claim: "contract_side_effect defn \<noteq> ''none'' \<longrightarrow>
       (\<exists>key lg'. execution_key demo_digest demo_io call (canonical_tool_name (call_name call)) (ex_table ?st) ?lg = Some (key, lg') \<and>
          fst (ledger_begin True (ledger_run_id ?lg) (io_begin_at demo_io) (call_id call) (canonical_tool_name (call_name call)) key
             (contract_idempotent defn) (ex_table ?st)) = Inr CLAIMED)"
    using side_effect_runs_under_claim [of demo_digest demo_os demo_io demo_provider "demo_call ''a'' ''x''" ?st, OF surjective_pairing]
    by blast
  from call have "call = demo_normalized" unfolding demo_normalize by simp
  then have "call_name call = ''file_tool''" "call_id call = ''c''"
    by (simp_all add: demo_normalized_def demo_call_def)
  moreover have "canonical_tool_name ''file_tool'' = ''file_tool''" by code_simp
  ultimately show ?thesis using entry claim
    by (auto simp: demo_state_def demo_contract_def ToolExecutionLedger_def demo_io_def)
qed

lemma scoped_view_narrows_witness:
  "set (scoped_get_schemas None False (scoped_to [JStr ''file_tool''] (ex_registry (demo_state False None None))))
     \<subseteq> set (get_schemas None False (ex_registry (demo_state False None None)))
   \<and> within_view [''file_tool''] (ex_registry (demo_state False None None)) ''file_tool''"
proof -
  let ?reg = "ex_registry (demo_state False None None)"
  have parent: "scoped_parent (scoped_to [JStr ''file_tool''] ?reg) = ?reg"
    and allowed_names: "scoped_allowed (scoped_to [JStr ''file_tool''] ?reg) = [''file_tool'']"
    and got: "scoped_get ''file_tool'' (scoped_to [JStr ''file_tool''] ?reg) = Some (demo_contract False)"
    and name: "canonical_tool_name ''file_tool'' = ''file_tool''"
    by code_simp+
  from scoped_view_narrows [of None False "scoped_to [JStr ''file_tool''] ?reg"] got
  show ?thesis unfolding parent allowed_names name by (metis allowed_names name parent)
qed

definition tidy_os :: os_view where
  "tidy_os = demo_os\<lparr>os_resolve := (\<lambda>p. if is_absolute p \<and> path_text p = p then Inr p else Inl PathOSError)\<rparr>"

lemma normalize_call_idempotent_witness:
  "normalize_call tidy_os (ex_registry (demo_state False None None)) ((demo_call ''/w/a'' ''x'')\<lparr>call_declared_paths := [(''path'', ''/w/a'')]\<rparr>)
   = Inr ((demo_call ''/w/a'' ''x'')\<lparr>call_declared_paths := [(''path'', ''/w/a'')]\<rparr>)"
proof (rule normalize_call_idempotent)
  show "resolves_canonically tidy_os"
    by (auto simp: resolves_canonically_def tidy_os_def split: if_splits)
  show "\<forall>wd. reg_working_dir (ex_registry (demo_state False None None)) = Some wd \<longrightarrow> wd \<noteq> []"
    by (simp add: demo_state_def)
  show "normalize_call tidy_os (ex_registry (demo_state False None None)) (demo_call ''a'' ''x'')
     = Inr ((demo_call ''/w/a'' ''x'')\<lparr>call_declared_paths := [(''path'', ''/w/a'')]\<rparr>)"
    by code_simp
qed

definition demo_meta :: tool_meta where
  "demo_meta = \<lparr>meta_name = ''file_tool'', meta_description = JNull, meta_parameters = JNull, meta_hidden = JBool False,
     meta_opaque_command = JBool False, meta_network_access = JBool False, meta_path_args = [''path''],
     meta_list_path_args = [], meta_is_write_tool = True, meta_permission_level = ''write'',
     meta_approval_policy = JStr ''never'', meta_read_actions = [], meta_timeout_seconds = JNull,
     meta_retryable = JBool False, meta_side_effect = JNull, meta_idempotent = JBool False,
     meta_concurrency = JStr ''safe'', meta_execution_environment = JStr ''host''\<rparr>"

lemma registered_writers_need_approval_witness:
  "\<exists>g r. reg_guard (foldl registry_step (ToolRegistry False) [EvRegister demo_meta demo_handler, EvGuard (Some (demo_guard [] True))]) = Some g
     \<and> guard_check demo_os g (demo_call ''/w/a'' ''x'') = Inr r \<and> guard_approval_required r"
proof -
  let ?reg = "foldl registry_step (ToolRegistry False) [EvRegister demo_meta demo_handler, EvGuard (Some (demo_guard [] True))]"
  let ?g = "(demo_guard [] True)\<lparr>guard_contracts := definitions ?reg\<rparr>"
  have g: "reg_guard ?reg = Some ?g" by (simp add: bind_tool_guard_def rebind_guard_def bind_definitions_def definitions_def)
  obtain r where r: "guard_check demo_os ?g (demo_call ''/w/a'' ''x'') = Inr r" "guard_allowed r"
  proof -
    have "case guard_check demo_os ?g (demo_call ''/w/a'' ''x'') of Inl e \<Rightarrow> False | Inr r \<Rightarrow> guard_allowed r" by code_simp
    then show thesis using that by (auto split: sum.splits)
  qed
  have entry: "(case map_of (reg_tools ?reg) ''file_tool'' of None \<Rightarrow> False
      | Some (d, f) \<Rightarrow> contract_side_effect d \<noteq> ''none'' \<and> tool_read_actions d = [])" by code_simp
  then obtain d func where d: "map_of (reg_tools ?reg) (call_name (demo_call ''/w/a'' ''x'')) = Some (d, func)"
    "contract_side_effect d \<noteq> ''none''" "tool_read_actions d = []"
    by (auto simp: demo_call_def split: option.splits)
  have "guard_approval_required r"
    using registered_writers_need_approval [OF refl g d(1,2) r] d(3) by simp
  with g r show ?thesis by blast
qed

subsection \<open>A timeout without a limit\<close>

text \<open>
  A provider of a side-effecting tool that raises a \<^verbatim>\<open>TimeoutError\<close> of its own, where the
  tool declares no limit, makes the execution raise instead of returning an error result: the
  formatting of the absent limit fails.  The claim is never settled, so every later attempt on
  the key is refused, even for an idempotent tool.
\<close>

theorem untimed_timeout_leaves_claim_open:
  assumes tool: "contract_side_effect defn \<noteq> ''none''" "contract_timeout_seconds defn = JNull"
    and ledger: "reg_ledger (ex_registry st) = Some lg" "execution_key H io call tool_name (ex_table st) lg = Some (key, lg')"
    and claim: "fst (ledger_begin True (ledger_run_id lg) (io_begin_at io) (call_id call) tool_name key
      (contract_idempotent defn) (ex_table st)) = Inr CLAIMED" "io_begin_ok io"
    and timeout: "\<And>arguments injected. provider func arguments injected = TimedOut_after limit"
    and run: "execute_registered H io provider call tool_name defn func env st = (answer, st')"
  shows "answer = Inl ExecTypeError \<and>
    (\<forall>now c tool idem. \<exists>row. ledger_begin True (ledger_run_id lg) now c tool key idem (ex_table st')
       = (Inr \<lparr>claimed = False, dec_result = Some (uncertain_result c tool row)\<rparr>, ex_table st'))"
proof -
  let ?opening = "ledger_begin True (ledger_run_id lg) (io_begin_at io) (call_id call) tool_name key
      (contract_idempotent defn) (ex_table st)"
  obtain tbl where begin_eq: "?opening = (Inr CLAIMED, tbl)" using claim(1) by (cases ?opening) auto
  obtain row where row: "map_of tbl (ledger_run_id lg, key) = Some row" "row_status row = ''running''"
    by (rule begin_claimed_row [OF claim(1)]) (simp add: begin_eq)
  have "answer = Inl ExecTypeError" "ex_table st' = tbl"
    using run tool ledger claim(2) begin_eq
    by (auto simp: execute_registered_def invoke_def provider_result_def timeout CLAIMED_def Let_def split: if_splits)
  moreover have "ledger_begin True (ledger_run_id lg) now c tool key idem tbl
       = (Inr \<lparr>claimed = False, dec_result = Some (uncertain_result c tool row)\<rparr>, tbl)" for now c tool idem
    using begin_refused [OF row(1), of idem now c tool] row(2) by simp
  ultimately show ?thesis by blast
qed

definition stalling_provider :: provider where
  "stalling_provider func arguments injected = TimedOut_after ''5''"

lemma untimed_timeout_leaves_claim_open_witness:
  "fst (execute_registered demo_digest demo_io stalling_provider ((demo_call ''/w/a'' ''x'')\<lparr>call_idempotency_key := Some ''k''\<rparr>) ''file_tool''
     (demo_contract True) demo_handler LOCAL_ENVIRONMENT (demo_state True None (Some (ToolExecutionLedger ''r'' False))))
   = Inl ExecTypeError"
proof -
  let ?call = "(demo_call ''/w/a'' ''x'')\<lparr>call_idempotency_key := Some ''k''\<rparr>" and ?lg = "ToolExecutionLedger ''r'' False"
  let ?st = "demo_state True None (Some ?lg)"
  have "contract_side_effect (demo_contract True) \<noteq> ''none''" "contract_timeout_seconds (demo_contract True) = JNull"
    "reg_ledger (ex_registry ?st) = Some ?lg"
    "execution_key demo_digest demo_io ?call ''file_tool'' (ex_table ?st) ?lg = Some (''k'', ?lg)"
    "fst (ledger_begin True (ledger_run_id ?lg) (io_begin_at demo_io) (call_id ?call) ''file_tool'' ''k''
       (contract_idempotent (demo_contract True)) (ex_table ?st)) = Inr CLAIMED" "io_begin_ok demo_io"
    "\<And>arguments injected. stalling_provider demo_handler arguments injected = TimedOut_after ''5''"
    by (simp_all add: demo_contract_def demo_state_def execution_key_def demo_call_def ledger_begin_def stalling_provider_def demo_io_def)
  from untimed_timeout_leaves_claim_open [where provider = stalling_provider and func = demo_handler, OF this surjective_pairing] show ?thesis by blast
qed

end
