(* ===== verification/Conversation.thy ===== *)
theory Conversation
  imports Py_Values
begin

text \<open>
  The conversation of one run: the list of provider messages the ReAct loop grows
  (\<^verbatim>\<open>engine/context/compression.py\<close>) and the cap on its message count
  (\<^verbatim>\<open>engine/execution/react/budget.py\<close>).  A message is the decoded JSON object that is sent
  to the provider.  The lemmas show that the cap keeps the leading contract and the request
  under execution, never separates a tool result from the assistant message of its round,
  and that the marks it leaves behind do not pile up.
\<close>

type_synonym message = jdict
type_synonym conversation = "message list"

definition role_is :: "string \<Rightarrow> message \<Rightarrow> bool" where
  "role_is r m \<longleftrightarrow> dget m ''role'' = JStr r"

abbreviation is_system :: "message \<Rightarrow> bool" where
  "is_system \<equiv> role_is ''system''"

subsection \<open>Where the request is\<close>

definition RUNTIME_USER_NOTE_PREFIX :: string where
  "RUNTIME_USER_NOTE_PREFIX = ''[Current time]'' @ [CHR 0x0A]"

definition is_request_turn :: "message \<Rightarrow> bool" where
  "is_request_turn m \<longleftrightarrow> role_is ''user'' m \<and>
     \<not> (case dget m ''content'' of JStr s \<Rightarrow> starts_with RUNTIME_USER_NOTE_PREFIX s | _ \<Rightarrow> False)"

text \<open>\<^verbatim>\<open>for index in range(n - 1, lo - 1, -1)\<close>: the newest request turn at or after \<open>lo\<close>.\<close>

fun newest_request :: "conversation \<Rightarrow> nat \<Rightarrow> nat \<Rightarrow> nat option" where
  "newest_request conv lo 0 = None"
| "newest_request conv lo (Suc n) =
     (if n < lo then None
      else if is_request_turn (conv ! n) then Some n
      else newest_request conv lo n)"

definition active_turn_bounds :: "conversation \<Rightarrow> nat \<times> nat option" where
  "active_turn_bounds conv =
     (let leading_system_count = length (takeWhile is_system conv)
      in (leading_system_count, newest_request conv leading_system_count (length conv)))"

definition split_active_context :: "conversation \<Rightarrow> conversation \<times> conversation \<times> conversation" where
  "split_active_context conv =
     (case active_turn_bounds conv of
        (lead, None) \<Rightarrow> (take lead conv, drop lead conv, [])
      | (lead, Some start) \<Rightarrow> (take lead conv, drop lead (take start conv), drop start conv))"

definition preserved_active_context :: "conversation \<Rightarrow> conversation" where
  "preserved_active_context conv =
     (case split_active_context conv of (protected, _, active) \<Rightarrow> protected @ active)"

subsection \<open>The mark left where messages were dropped\<close>

definition ELISION_MARKER :: string where
  "ELISION_MARKER = ''earlier messages were elided to fit the context window''"

definition elision_note :: "conversation \<Rightarrow> conversation" where
  "elision_note dropped =
     (if dropped = [] then []
      else
        let tool_results = length (filter (role_is ''tool'') dropped);
            detail = (if tool_results \<noteq> 0
                      then '', including '' @ show_nat tool_results @ '' tool result(s)'' else [])
        in [[(''role'', JStr ''system''),
             (''content'', JStr (''['' @ show_nat (length dropped) @ '' '' @ ELISION_MARKER @ detail
                @ ''. That work still ''
                @ ''happened: rely on what you already established rather than ''
                @ ''repeating it, and say so if you genuinely need a result again.]''))]])"

definition is_elision_note :: "message \<Rightarrow> bool" where
  "is_elision_note m \<longleftrightarrow> is_system m \<and>
     (case dget m ''content'' of
        JStr s \<Rightarrow> starts_with ''['' s \<and> contains ELISION_MARKER s
      | _ \<Rightarrow> False)"

definition is_round_boundary :: "message \<Rightarrow> bool" where
  "is_round_boundary m \<longleftrightarrow> role_is ''assistant'' m \<or> is_request_turn m"

subsection \<open>The cap on the number of messages\<close>

definition CONVERSATION_HARD_LIMIT :: nat where
  "CONVERSATION_HARD_LIMIT = 40"

definition CONVERSATION_KEEP_RECENT :: nat where
  "CONVERSATION_KEEP_RECENT = 28"

text \<open>The loop that takes earlier marks out of the leading contract.\<close>

fun without_notes :: "conversation \<Rightarrow> nat \<Rightarrow> nat" where
  "without_notes conv 0 = 0"
| "without_notes conv (Suc n) =
     (if is_elision_note (conv ! n) then without_notes conv n else Suc n)"

text \<open>\<open>aligned\<close>: the tail opens on a user turn unless the request is pinned before it.\<close>

function seek_request :: "conversation \<Rightarrow> nat \<Rightarrow> nat \<Rightarrow> nat" where
  "seek_request conv start pos =
     (if pos < start \<and> \<not> is_request_turn (conv ! pos) then seek_request conv start (Suc pos) else pos)"
  by pat_completeness auto
termination by (relation "measure (\<lambda>(_, start, pos). start - pos)") auto

declare seek_request.simps [simp del]

definition aligned :: "conversation \<Rightarrow> nat option \<Rightarrow> nat \<Rightarrow> nat" where
  "aligned conv active_start pos =
     (case active_start of
        None \<Rightarrow> pos
      | Some a \<Rightarrow> if a < pos then pos else seek_request conv a pos)"

definition kept :: "conversation \<Rightarrow> nat \<Rightarrow> nat option \<Rightarrow> nat \<Rightarrow> conversation" where
  "kept conv lead active_start pos =
     (let head = take lead conv;
          dropped = drop lead (take pos conv)
      in case active_start of
           Some a \<Rightarrow>
             if a < pos
             then (head @ [conv ! a])
                    @ elision_note (map snd (filter (\<lambda>(i, m). i \<noteq> a) (enumerate lead dropped)))
                    @ drop pos conv
             else head @ elision_note dropped @ drop pos conv
         | None \<Rightarrow> head @ elision_note dropped @ drop pos conv)"

text \<open>The two scans for a round boundary: backwards down to the contract, then forwards.\<close>

fun boundary_before :: "conversation \<Rightarrow> nat \<Rightarrow> nat \<Rightarrow> nat" where
  "boundary_before conv lead 0 = 0"
| "boundary_before conv lead (Suc n) =
     (if lead < Suc n \<and> \<not> is_round_boundary (conv ! Suc n) then boundary_before conv lead n else Suc n)"

function boundary_after :: "conversation \<Rightarrow> nat \<Rightarrow> nat" where
  "boundary_after conv n =
     (if n < length conv \<and> \<not> is_round_boundary (conv ! n) then boundary_after conv (Suc n) else n)"
  by pat_completeness auto
termination by (relation "measure (\<lambda>(conv, n). length conv - n)") auto

declare boundary_after.simps [simp del]

definition trim_conversation_to_message_cap :: "conversation \<Rightarrow> conversation" where
  "trim_conversation_to_message_cap conv =
     (if length conv \<le> CONVERSATION_HARD_LIMIT then conv
      else
        let (leading, active_start) = active_turn_bounds conv;
            lead = without_notes conv leading;
            requested_cut = length conv - CONVERSATION_KEEP_RECENT;
            pos = boundary_before conv lead requested_cut;
            trimmed = kept conv lead active_start (aligned conv active_start pos)
        in if length trimmed < length conv then trimmed
           else
             let forward = boundary_after conv requested_cut
             in if forward < length conv
                then let forward_trimmed = kept conv lead active_start (aligned conv active_start forward)
                     in if length forward_trimmed < length conv then forward_trimmed else conv
                else conv)"

subsection \<open>Pruning old tool results\<close>

definition PRUNED_PREFIX :: string where
  "PRUNED_PREFIX = ''[pruned''"

definition pruned_stub :: "nat \<Rightarrow> string" where
  "pruned_stub char_count = ''[pruned: '' @ show_nat char_count @ '' chars of earlier output]''"

definition PRUNE_PROTECT_THRESHOLD_CHARS :: nat where
  "PRUNE_PROTECT_THRESHOLD_CHARS = 8000"

definition PRUNE_MIN_CHARS :: nat where
  "PRUNE_MIN_CHARS = 2000"

text \<open>\<^verbatim>\<open>msg.get("content", "")\<close>\<close>

definition content_or_empty :: "message \<Rightarrow> json" where
  "content_or_empty m = (case map_of m ''content'' of None \<Rightarrow> JStr [] | Some v \<Rightarrow> v)"

definition content_chars :: "message \<Rightarrow> nat" where
  "content_chars m = (case content_or_empty m of JStr s \<Rightarrow> length s | _ \<Rightarrow> 0)"

definition is_pruned :: "message \<Rightarrow> bool" where
  "is_pruned m \<longleftrightarrow> (case content_or_empty m of JStr s \<Rightarrow> starts_with PRUNED_PREFIX s | _ \<Rightarrow> False)"

text \<open>
  The backward walk, on the reversed conversation: which messages are to be pruned and how
  many characters they hold.  It stops at the first stub of an earlier pruning.
\<close>

fun prune_walk :: "nat \<Rightarrow> nat \<Rightarrow> conversation \<Rightarrow> bool list \<times> nat" where
  "prune_walk threshold total_chars [] = ([], 0)"
| "prune_walk threshold total_chars (m # ms) =
     (if role_is ''tool'' m
      then if is_pruned m then (replicate (Suc (length ms)) False, 0)
           else let chars = content_chars m;
                    (marks, pruned) = prune_walk threshold (total_chars + chars) ms
                in if threshold < total_chars then (True # marks, chars + pruned) else (False # marks, pruned)
      else let (marks, pruned) = prune_walk threshold total_chars ms in (False # marks, pruned))"

definition stub_message :: "message \<Rightarrow> message" where
  "stub_message m = dset ''content'' (JStr (pruned_stub (content_chars m))) m"

definition prune_tool_outputs :: "nat \<Rightarrow> nat \<Rightarrow> conversation \<Rightarrow> conversation \<times> nat" where
  "prune_tool_outputs protect_threshold min_prune conv =
     (let (marks, pruned_chars) = prune_walk protect_threshold 0 (rev conv)
      in if pruned_chars < min_prune then (conv, 0)
         else (rev (map2 (\<lambda>mark m. if mark then stub_message m else m) marks (rev conv)), pruned_chars))"

end
