(* ===== verification/Conversation_Safety.thy ===== *)
theory Conversation_Safety
  imports Conversation
begin

text \<open>
  What the cap on the message count guarantees: the contract and the request survive, tool
  results stay in the rounds they belong to, and the marks of earlier caps are replaced.
\<close>

subsection \<open>Roles\<close>

lemma role_is_other: "role_is r m \<Longrightarrow> r \<noteq> r' \<Longrightarrow> \<not> role_is r' m"
  by (simp add: role_is_def)

lemma request_role: "is_request_turn m \<Longrightarrow> role_is ''user'' m"
  by (simp add: is_request_turn_def)

lemma system_not_request: "is_system m \<Longrightarrow> \<not> is_request_turn m"
  by (auto simp: is_request_turn_def role_is_def)

lemma request_not_system: "is_request_turn m \<Longrightarrow> \<not> is_system m"
  using system_not_request by blast

lemma boundary_not_system: "is_round_boundary m \<Longrightarrow> \<not> is_system m"
  by (auto simp: is_round_boundary_def is_request_turn_def role_is_def)

lemma boundary_not_tool: "is_round_boundary m \<Longrightarrow> \<not> role_is ''tool'' m"
  by (auto simp: is_round_boundary_def is_request_turn_def role_is_def)

lemma note_system: "is_elision_note m \<Longrightarrow> is_system m"
  by (simp add: is_elision_note_def)

lemma contains_appendI: "contains p (p @ s)"
  by (cases "p @ s") (metis append_is_Nil_conv contains.simps(1), metis contains.simps(2) starts_with_append)

lemma contains_prependI: "contains p s \<Longrightarrow> contains p (t @ s)"
  by (induction t) auto

lemma elision_note_cases:
  "dropped = [] \<and> elision_note dropped = []
   \<or> dropped \<noteq> [] \<and> (\<exists>n. elision_note dropped = [n] \<and> is_elision_note n)"
proof (cases "dropped = []")
  case False
  have "contains ELISION_MARKER (a @ ELISION_MARKER @ b)" for a b
    by (intro contains_prependI contains_appendI)
  from this [of "''['' @ x @ '' ''" for x] have
    "contains ELISION_MARKER (CHR ''['' # x @ CHR '' '' # ELISION_MARKER @ b)" for x b
    by simp
  then have "is_elision_note (hd (elision_note dropped))" "length (elision_note dropped) = 1"
    using False
    by (simp_all add: elision_note_def Let_def is_elision_note_def role_is_def dget_def starts_with_def)
  with False show ?thesis by (cases "elision_note dropped") auto
qed (simp add: elision_note_def)

lemma elision_note_system: "n \<in> set (elision_note dropped) \<Longrightarrow> is_system n \<and> is_elision_note n"
  using elision_note_cases [of dropped] by (auto dest: note_system)

subsection \<open>The request under execution\<close>

text \<open>The message the newest request turn holds.\<close>

definition active_request :: "conversation \<Rightarrow> message option" where
  "active_request conv = map_option ((!) conv) (snd (active_turn_bounds conv))"

lemma newest_request_Some:
  "newest_request conv lo n = Some a \<Longrightarrow>
     lo \<le> a \<and> a < n \<and> is_request_turn (conv ! a) \<and> (\<forall>i. a < i \<and> i < n \<longrightarrow> \<not> is_request_turn (conv ! i))"
  by (induction conv lo n rule: newest_request.induct) (auto split: if_splits simp: less_Suc_eq)

lemma newest_request_None:
  "newest_request conv lo n = None \<longleftrightarrow> (\<forall>i. lo \<le> i \<and> i < n \<longrightarrow> \<not> is_request_turn (conv ! i))"
  by (induction conv lo n rule: newest_request.induct) (auto simp: less_Suc_eq intro: leI)

lemma leading_system: "i < length (takeWhile is_system conv) \<Longrightarrow> is_system (conv ! i)"
  using nth_mem set_takeWhileD takeWhile_nth by metis

lemma active_bounds_Some:
  assumes "active_turn_bounds conv = (lead, Some a)"
  shows "lead = length (takeWhile is_system conv)" "lead \<le> a" "a < length conv"
    "is_request_turn (conv ! a)" "\<forall>i. a < i \<and> i < length conv \<longrightarrow> \<not> is_request_turn (conv ! i)"
  using assms newest_request_Some [of conv lead "length conv" a]
  by (auto simp: active_turn_bounds_def Let_def)

lemma active_bounds_None:
  assumes "active_turn_bounds conv = (lead, None)"
  shows "lead = length (takeWhile is_system conv)" "\<forall>m \<in> set conv. \<not> is_request_turn m"
proof -
  show l: "lead = length (takeWhile is_system conv)"
    using assms by (simp add: active_turn_bounds_def Let_def)
  have "\<not> is_request_turn (conv ! i)" if "i < length conv" for i
  proof (cases "i < lead")
    case True
    then show ?thesis using l leading_system system_not_request by blast
  next
    case False
    then show ?thesis
      using assms that newest_request_None [of conv lead "length conv"]
      by (auto simp: active_turn_bounds_def Let_def)
  qed
  then show "\<forall>m \<in> set conv. \<not> is_request_turn m" by (metis in_set_conv_nth)
qed

text \<open>It is the last of the request turns.\<close>

lemma active_request_last:
  "active_request conv =
     (if filter is_request_turn conv = [] then None else Some (last (filter is_request_turn conv)))"
proof (cases "active_turn_bounds conv")
  case (Pair lead act)
  show ?thesis
  proof (cases act)
    case None
    then show ?thesis
      using active_bounds_None(2) Pair by (auto simp: active_request_def filter_empty_conv)
  next
    case (Some a)
    note b = active_bounds_Some [OF Pair [unfolded Some]]
    have rest: "filter is_request_turn (drop (Suc a) conv) = []"
      using b(5) by (auto simp: filter_empty_conv in_set_conv_nth)
    have "filter is_request_turn conv =
        filter is_request_turn (take a conv @ conv ! a # drop (Suc a) conv)"
      by (rule arg_cong [OF id_take_nth_drop [OF b(3)]])
    also have "\<dots> = filter is_request_turn (take a conv) @ [conv ! a]"
      using b(4) rest by simp
    finally have "filter is_request_turn conv = filter is_request_turn (take a conv) @ [conv ! a]" .
    then show ?thesis using Pair Some by (simp add: active_request_def)
  qed
qed

lemma split_active_append:
  "split_active_context conv = (p, h, a) \<Longrightarrow> conv = p @ h @ a"
proof (cases "active_turn_bounds conv")
  case (Pair lead act)
  assume s: "split_active_context conv = (p, h, a)"
  show ?thesis
  proof (cases act)
    case None
    with s Pair show ?thesis by (auto simp: split_active_context_def)
  next
    case (Some st)
    note b = active_bounds_Some [OF Pair [unfolded Some]]
    have "take lead conv = take lead (take st conv)" using b(2) by (simp add: min_absorb1)
    then have "take lead conv @ drop lead (take st conv) = take st conv"
      using append_take_drop_id [of lead "take st conv"] by simp
    then have "take lead conv @ drop lead (take st conv) @ drop st conv = conv"
      by (metis append_assoc append_take_drop_id)
    with s Pair Some show ?thesis by (auto simp: split_active_context_def)
  qed
qed

subsection \<open>The scans for a cut\<close>

lemma without_notes_le: "without_notes conv n \<le> n"
  by (induction conv n rule: without_notes.induct) auto

lemma without_notes_strip: "without_notes conv n \<le> i \<Longrightarrow> i < n \<Longrightarrow> is_elision_note (conv ! i)"
  by (induction conv n rule: without_notes.induct) (auto split: if_splits simp: less_Suc_eq)

lemma without_notes_last:
  "without_notes conv n = Suc k \<Longrightarrow> \<not> is_elision_note (conv ! k)"
  by (induction conv n rule: without_notes.induct) (auto split: if_splits)

lemma boundary_before_ok:
  "boundary_before conv lead n \<le> n \<and>
   (boundary_before conv lead n \<le> lead \<or> is_round_boundary (conv ! boundary_before conv lead n))"
  by (induction conv lead n rule: boundary_before.induct) auto

lemma boundary_after_ok:
  "boundary_after conv n < length conv \<Longrightarrow> is_round_boundary (conv ! boundary_after conv n)"
proof (induction conv n rule: boundary_after.induct)
  case (1 conv n)
  then show ?case
    by (cases "n < length conv \<and> \<not> is_round_boundary (conv ! n)")
      (auto simp: boundary_after.simps [of conv n])
qed

lemma seek_request_ok:
  "pos \<le> start \<Longrightarrow>
     pos \<le> seek_request conv start pos \<and> seek_request conv start pos \<le> start
     \<and> (seek_request conv start pos = start \<or> is_request_turn (conv ! seek_request conv start pos))"
proof (induction conv start pos rule: seek_request.induct)
  case (1 conv start pos)
  show ?case
  proof (cases "pos < start \<and> \<not> is_request_turn (conv ! pos)")
    case True
    with 1 show ?thesis by (simp add: seek_request.simps [of conv start pos])
  next
    case False
    with "1.prems" show ?thesis by (auto simp: seek_request.simps [of conv start pos])
  qed
qed

text \<open>A cut the trimming may use, given the bounds of the active turn.\<close>

definition good_cut :: "conversation \<Rightarrow> nat \<Rightarrow> bool" where
  "good_cut conv pos \<longleftrightarrow>
     pos < length conv \<and> is_round_boundary (conv ! pos) \<and>
     (\<forall>a. snd (active_turn_bounds conv) = Some a \<longrightarrow> a < pos \<or> is_request_turn (conv ! pos))"

lemma aligned_good_cut:
  assumes b: "active_turn_bounds conv = (leading, act)"
    and pos: "pos < length conv" "lead < aligned conv act pos \<Longrightarrow> pos \<le> lead \<or> is_round_boundary (conv ! pos)"
    and lead: "lead < aligned conv act pos"
  shows "good_cut conv (aligned conv act pos)"
proof (cases act)
  case None
  with b pos lead show ?thesis by (auto simp: good_cut_def aligned_def)
next
  case (Some a)
  note a = active_bounds_Some [OF b [unfolded Some]]
  show ?thesis
  proof (cases "a < pos")
    case True
    with Some b pos lead show ?thesis by (auto simp: good_cut_def aligned_def)
  next
    case False
    then have "seek_request conv a pos \<le> a"
      "is_request_turn (conv ! seek_request conv a pos)"
      using seek_request_ok [of pos a conv] a(4) by auto
    with False Some b a(3) show ?thesis by (auto simp: good_cut_def aligned_def is_round_boundary_def)
  qed
qed

lemma length_filter_index:
  "a \<in> {k..<k + length xs} \<Longrightarrow>
   Suc (length (filter (\<lambda>(i, m). i \<noteq> a) (enumerate k xs))) = length xs"
proof (induction xs arbitrary: k)
  case (Cons x xs)
  show ?case
  proof (cases "a = k")
    case True
    have "filter (\<lambda>(i, m). i \<noteq> k) (enumerate (Suc k) xs) = enumerate (Suc k) xs"
      by (rule filter_True) (auto simp: in_set_enumerate_eq)
    with True show ?thesis by simp
  next
    case False
    with Cons.prems have "a \<in> {Suc k..<Suc k + length xs}" by auto
    with False Cons.IH [of "Suc k"] show ?thesis by simp
  qed
qed simp

text \<open>
  What a shortened conversation looks like: the contract, the request when it was among the
  dropped messages, one mark, and the tail from a good cut.
\<close>

definition pinned :: "conversation \<Rightarrow> nat \<Rightarrow> conversation" where
  "pinned conv pos = (case snd (active_turn_bounds conv) of
      Some a \<Rightarrow> if a < pos then [conv ! a] else [] | None \<Rightarrow> [])"

definition contract_length :: "conversation \<Rightarrow> nat" where
  "contract_length conv = without_notes conv (fst (active_turn_bounds conv))"

abbreviation kept_at :: "conversation \<Rightarrow> nat \<Rightarrow> conversation" where
  "kept_at conv pos \<equiv> kept conv (contract_length conv) (snd (active_turn_bounds conv)) pos"

lemma contract_length_le: "contract_length conv \<le> fst (active_turn_bounds conv)"
  by (simp add: contract_length_def without_notes_le)

lemma contract_active:
  "snd (active_turn_bounds conv) = Some a \<Longrightarrow> contract_length conv \<le> a"
  using active_bounds_Some(2) [of conv "fst (active_turn_bounds conv)" a] contract_length_le [of conv]
  by (metis le_trans prod.collapse)

lemma kept_shape:
  assumes "contract_length conv < pos"
  shows "\<exists>dropped. kept_at conv pos =
      take (contract_length conv) conv @ pinned conv pos @ elision_note dropped @ drop pos conv
      \<and> (pos \<le> length conv \<longrightarrow> length dropped + length (pinned conv pos) = pos - contract_length conv)"
proof (cases "\<exists>a. snd (active_turn_bounds conv) = Some a \<and> a < pos")
  case True
  then obtain a where a: "snd (active_turn_bounds conv) = Some a" "a < pos" by blast
  let ?d = "drop (contract_length conv) (take pos conv)"
  have "Suc (length (filter (\<lambda>(i, m). i \<noteq> a) (enumerate (contract_length conv) ?d))) = length ?d"
    if "pos \<le> length conv"
    by (rule length_filter_index) (use that a contract_active [OF a(1)] in auto)
  with a show ?thesis
    by (intro exI [of _ "map snd (filter (\<lambda>(i, m). i \<noteq> a) (enumerate (contract_length conv) ?d))"])
      (auto simp: kept_def pinned_def)
next
  case False
  then have p: "pinned conv pos = []" by (auto simp: pinned_def split: option.splits)
  from False have "kept_at conv pos = take (contract_length conv) conv
      @ elision_note (drop (contract_length conv) (take pos conv)) @ drop pos conv"
    by (auto simp: kept_def Let_def split: option.splits)
  with p show ?thesis
    by (intro exI [of _ "drop (contract_length conv) (take pos conv)"]) auto
qed

lemma kept_no_shorter:
  assumes "pos \<le> contract_length conv"
  shows "length conv \<le> length (kept_at conv pos)"
proof -
  have "\<not> a < pos" if "snd (active_turn_bounds conv) = Some a" for a
    using contract_active [OF that] assms by simp
  then have "kept_at conv pos = take (contract_length conv) conv @ drop pos conv"
    using assms by (auto simp: kept_def Let_def elision_note_def split: option.splits)
  with assms show ?thesis by simp
qed

lemma shorter_good_cut:
  assumes b: "active_turn_bounds conv = (leading, act)"
    and pos: "pos < length conv" "pos \<le> contract_length conv \<or> is_round_boundary (conv ! pos)"
    and short: "length (kept_at conv (aligned conv act pos)) < length conv"
  shows "contract_length conv < aligned conv act pos \<and> good_cut conv (aligned conv act pos)"
proof -
  have "contract_length conv < aligned conv act pos"
    using kept_no_shorter [of "aligned conv act pos" conv] short by linarith
  with aligned_good_cut [OF b pos(1)] pos(2) show ?thesis by blast
qed

lemma trim_cases:
  obtains (same) "trim_conversation_to_message_cap conv = conv"
  | (cut) pos where "trim_conversation_to_message_cap conv = kept_at conv pos"
      "contract_length conv < pos" "good_cut conv pos" "length (kept_at conv pos) < length conv"
proof (cases "trim_conversation_to_message_cap conv = conv")
  case False
  obtain leading act where b: "active_turn_bounds conv = (leading, act)" by (cases "active_turn_bounds conv")
  let ?req = "length conv - CONVERSATION_KEEP_RECENT"
  let ?bwd = "boundary_before conv (contract_length conv) ?req"
  have long: "CONVERSATION_HARD_LIMIT < length conv"
    using False by (auto simp: trim_conversation_to_message_cap_def not_le split: if_splits)
  then have bb: "?bwd < length conv" "?bwd \<le> contract_length conv \<or> is_round_boundary (conv ! ?bwd)"
    using boundary_before_ok [of conv "contract_length conv" ?req]
    by (auto simp: CONVERSATION_HARD_LIMIT_def CONVERSATION_KEEP_RECENT_def)
  have lead: "without_notes conv leading = contract_length conv" "snd (active_turn_bounds conv) = act"
    using b by (simp_all add: contract_length_def)
  show ?thesis
  proof (cases "length (kept_at conv (aligned conv act ?bwd)) < length conv")
    case True
    then have "trim_conversation_to_message_cap conv = kept_at conv (aligned conv act ?bwd)"
      using long b lead by (simp add: trim_conversation_to_message_cap_def Let_def)
    with True shorter_good_cut [OF b bb] show ?thesis by (intro cut) auto
  next
    case f: False
    let ?fwd = "boundary_after conv ?req"
    have t: "trim_conversation_to_message_cap conv = kept_at conv (aligned conv act ?fwd)"
      "?fwd < length conv" "length (kept_at conv (aligned conv act ?fwd)) < length conv"
      using long b lead f False
      by (auto simp: trim_conversation_to_message_cap_def Let_def split: if_splits)
    with shorter_good_cut [OF b t(2)] boundary_after_ok [OF t(2)] show ?thesis by (intro cut) auto
  qed
qed (rule same)

lemma trim_shape:
  obtains (same) "trim_conversation_to_message_cap conv = conv"
  | (cut) pos n where
      "trim_conversation_to_message_cap conv =
         take (contract_length conv) conv @ pinned conv pos @ n # drop pos conv"
      "is_elision_note n" "good_cut conv pos"
      "contract_length conv + length (pinned conv pos) + 1 < pos"
proof (cases rule: trim_cases [of conv])
  case same
  then show ?thesis by (rule that(1))
next
  case (cut pos)
  then have le: "pos < length conv" by (simp add: good_cut_def)
  from kept_shape [OF cut(2)] le obtain dropped where d:
    "kept_at conv pos = take (contract_length conv) conv @ pinned conv pos @ elision_note dropped @ drop pos conv"
    "length dropped + length (pinned conv pos) = pos - contract_length conv" by auto
  have "contract_length conv < length conv" using cut(2) le by simp
  with cut(4) le have "length (pinned conv pos) + length (elision_note dropped) < pos - contract_length conv"
    unfolding d(1) by simp
  with d(2) have "length (elision_note dropped) < length dropped" by linarith
  with elision_note_cases [of dropped] obtain n where
    "elision_note dropped = [n]" "is_elision_note n" "2 \<le> length dropped" by fastforce
  with cut d show ?thesis by (intro that(2) [of pos n]) auto
qed

lemma contract_messages: "m \<in> set (take (contract_length conv) conv) \<Longrightarrow> is_system m"
proof -
  assume "m \<in> set (take (contract_length conv) conv)"
  then obtain i where "i < contract_length conv" "m = conv ! i"
    by (metis in_set_conv_nth length_take min_less_iff_conj nth_take)
  moreover have "contract_length conv \<le> length (takeWhile is_system conv)"
    using contract_length_le [of conv] by (simp add: active_turn_bounds_def Let_def)
  ultimately show ?thesis using leading_system [of i conv] by simp
qed

lemma no_requests: "\<forall>m \<in> set ms. is_system m \<Longrightarrow> filter is_request_turn ms = []"
  by (auto simp: filter_empty_conv dest: system_not_request)

lemma filter_drop_last:
  "i < length xs \<Longrightarrow> k \<le> i \<Longrightarrow> P (xs ! i) \<Longrightarrow>
   filter P (drop k xs) \<noteq> [] \<and> last (filter P (drop k xs)) = last (filter P xs)"
proof -
  assume i: "i < length xs" "k \<le> i" "P (xs ! i)"
  then have "xs ! i \<in> set (drop k xs)"
    using nth_mem [of "i - k" "drop k xs"] by simp
  with i have ne: "filter P (drop k xs) \<noteq> []" by (auto simp: filter_empty_conv)
  have "filter P xs = filter P (take k xs) @ filter P (drop k xs)"
    by (metis append_take_drop_id filter_append)
  with ne show ?thesis by simp
qed

lemma pinned_request:
  assumes g: "good_cut conv pos"
  shows "active_request conv = active_request (pinned conv pos @ drop pos conv)"
proof (cases "active_turn_bounds conv")
  case (Pair lead act)
  show ?thesis
  proof (cases act)
    case None
    with active_bounds_None(2) Pair
    have "filter is_request_turn conv = []" "filter is_request_turn (drop pos conv) = []"
      by (auto simp: filter_empty_conv dest: in_set_dropD)
    with Pair None show ?thesis by (simp add: active_request_last pinned_def)
  next
    case (Some a)
    note b = active_bounds_Some [OF Pair [unfolded Some]]
    have ac: "active_request conv = Some (conv ! a)" using Pair Some by (simp add: active_request_def)
    show ?thesis
    proof (cases "a < pos")
      case True
      then have "filter is_request_turn (drop pos conv) = []"
        using b(5) by (auto simp: filter_empty_conv in_set_conv_nth)
      with True Pair Some b(4) ac show ?thesis by (simp add: active_request_last [of "_ # _"] pinned_def)
    next
      case False
      with filter_drop_last [of a conv pos is_request_turn] b(3,4) Pair Some show ?thesis
        by (auto simp: active_request_last pinned_def filter_empty_conv)
    qed
  qed
qed

subsection \<open>What the cap keeps\<close>

lemma pinned_cases [consumes 1, case_names none pin]:
  assumes "good_cut conv pos"
  obtains (none) "pinned conv pos = []"
    "active_request conv \<noteq> None \<Longrightarrow> is_request_turn (hd (drop pos conv))"
  | (pin) a where "pinned conv pos = [conv ! a]" "contract_length conv \<le> a" "a < pos"
      "is_request_turn (conv ! a)"
proof (cases "\<exists>a. snd (active_turn_bounds conv) = Some a \<and> a < pos")
  case True
  then obtain a where a: "snd (active_turn_bounds conv) = Some a" "a < pos" by blast
  then have "is_request_turn (conv ! a)"
    using active_bounds_Some(4) [of conv "fst (active_turn_bounds conv)" a] by (metis prod.collapse)
  with a contract_active [OF a(1)] show ?thesis by (intro pin [of a]) (auto simp: pinned_def)
next
  case False
  with assms show ?thesis
    by (intro none) (auto simp: pinned_def active_request_def good_cut_def hd_drop_conv_nth split: option.splits)
qed

lemma kept_subseq:
  assumes g: "good_cut conv pos" and l: "contract_length conv < pos"
  shows "subseq (take (contract_length conv) conv @ pinned conv pos @ drop pos conv) conv"
proof -
  let ?mid = "drop (contract_length conv) (take pos conv)"
  have pos: "pos < length conv" using g by (simp add: good_cut_def)
  have "subseq (pinned conv pos) ?mid"
    using g
  proof (cases rule: pinned_cases)
    case (pin a)
    then have "conv ! a \<in> set ?mid"
      using nth_mem [of "a - contract_length conv" ?mid] pos l by simp
    with pin show ?thesis by (simp add: subseq_singleton_left)
  qed simp
  then have "subseq (take (contract_length conv) conv @ pinned conv pos @ drop pos conv)
      (take (contract_length conv) conv @ ?mid @ drop pos conv)"
    by (intro list_emb_append_mono subseq_order.refl)
  moreover have "take (contract_length conv) conv @ ?mid = take pos conv"
    using append_take_drop_id [of "contract_length conv" "take pos conv"] l by (simp add: min_absorb1)
  ultimately show ?thesis by (metis append_assoc append_take_drop_id)
qed

text \<open>
  C22. Capping the message count keeps the leading contract and the request under execution,
  adds nothing but its own mark, and either leaves the conversation alone or shortens it.
\<close>

theorem trim_keeps_contract_and_request:
  "prefix (take (contract_length conv) conv) (trim_conversation_to_message_cap conv)
   \<and> active_request (trim_conversation_to_message_cap conv) = active_request conv
   \<and> subseq (filter (\<lambda>m. \<not> is_elision_note m) (trim_conversation_to_message_cap conv)) conv
   \<and> (trim_conversation_to_message_cap conv = conv
      \<or> length (trim_conversation_to_message_cap conv) < length conv)"
proof (cases rule: trim_shape [of conv])
  case same
  then show ?thesis by (simp add: take_is_prefix)
next
  case (cut pos n)
  have f: "filter is_request_turn (take (contract_length conv) conv) = []" "\<not> is_request_turn n"
    using contract_messages no_requests cut(2) note_system system_not_request by blast+
  have "active_request (trim_conversation_to_message_cap conv) = active_request (pinned conv pos @ drop pos conv)"
    using f by (simp add: cut(1) active_request_last)
  moreover have "subseq (filter (\<lambda>m. \<not> is_elision_note m) (trim_conversation_to_message_cap conv))
      (take (contract_length conv) conv @ pinned conv pos @ drop pos conv)"
    using cut(2) by (simp add: cut(1) list_emb_append_mono)
  moreover have "length (trim_conversation_to_message_cap conv) < length conv"
    using cut(3,4) unfolding cut(1) good_cut_def length_append length_take length_drop list.size by linarith
  ultimately show ?thesis
    using pinned_request [OF cut(3)] kept_subseq [OF cut(3)] cut(4) subseq_order.trans
    by (auto simp: cut(1))
qed

text \<open>
  A round is an assistant message and what follows it up to the next assistant message or
  request.  \<open>paired False conv\<close>: every tool result lies in a round that an assistant opened.
\<close>

definition opens :: "bool \<Rightarrow> message \<Rightarrow> bool" where
  "opens in_round m = (if role_is ''assistant'' m then True
                       else if is_request_turn m then False else in_round)"

fun paired :: "bool \<Rightarrow> conversation \<Rightarrow> bool" where
  "paired in_round [] = True"
| "paired in_round (m # ms) = ((role_is ''tool'' m \<longrightarrow> in_round) \<and> paired (opens in_round m) ms)"

lemma paired_append: "paired b (xs @ ys) \<longleftrightarrow> paired b xs \<and> paired (foldl opens b xs) ys"
  by (induction xs arbitrary: b) auto

lemma opens_system: "is_system m \<Longrightarrow> opens b m = b \<and> \<not> role_is ''tool'' m"
  using system_not_request role_is_other [of "''system''"] by (auto simp: opens_def)

lemma paired_systems: "\<forall>m \<in> set ms. is_system m \<Longrightarrow> paired b ms \<and> foldl opens b ms = b"
  by (induction ms) (auto simp: opens_system)

lemma paired_boundary: "is_round_boundary m \<Longrightarrow> paired b (m # ms) = paired c (m # ms)"
  using boundary_not_tool by (auto simp: opens_def is_round_boundary_def)

lemma trim_paired:
  assumes p: "paired False conv"
  shows "paired False (trim_conversation_to_message_cap conv)"
proof (cases rule: trim_shape [of conv])
  case same
  with p show ?thesis by simp
next
  case (cut pos n)
  have "drop pos conv = conv ! pos # drop (Suc pos) conv"
    using cut(3) by (simp add: good_cut_def Cons_nth_drop_Suc)
  moreover have "paired (foldl opens False (take pos conv)) (drop pos conv)"
    using p paired_append [of False "take pos conv" "drop pos conv"] by simp
  moreover have "is_round_boundary (conv ! pos)" using cut(3) by (simp add: good_cut_def)
  ultimately have tail: "paired b (drop pos conv)" for b using paired_boundary by metis
  have "paired b (pinned conv pos)" for b
    using cut(3) by (cases rule: pinned_cases) (auto dest!: request_role simp: role_is_def)
  then show ?thesis
    using tail paired_systems [of "take (contract_length conv) conv"] contract_messages
      opens_system [OF note_system [OF cut(2)]]
    by (simp add: cut(1) paired_append)
qed

lemma trim_opens_on_request:
  assumes "trim_conversation_to_message_cap conv \<noteq> conv" "active_request conv \<noteq> None"
  shows "is_request_turn (hd (dropWhile is_system (trim_conversation_to_message_cap conv)))"
proof (cases rule: trim_shape [of conv])
  case (cut pos n)
  have c: "\<forall>m \<in> set (take (contract_length conv) conv). is_system m" using contract_messages by blast
  have ne: "drop pos conv \<noteq> []" using cut(3) by (simp add: good_cut_def)
  show ?thesis
    using cut(3)
  proof (cases rule: pinned_cases)
    case none
    then have r: "is_request_turn (hd (drop pos conv))" using assms(2) by simp
    then have "dropWhile is_system (drop pos conv) = drop pos conv"
      using ne request_not_system by (cases "drop pos conv") auto
    with none c r note_system [OF cut(2)] show ?thesis by (simp add: cut(1) dropWhile_append2)
  next
    case (pin a)
    with c request_not_system [OF pin(4)] show ?thesis by (simp add: cut(1) dropWhile_append2)
  qed
qed (use assms in simp)

text \<open>
  Capping never orphans a tool result: if every tool result lies in the round of an
  assistant message, so does every tool result that is kept.  A shortened conversation with
  a request opens, after its system messages, on a request turn, as the providers demand.
\<close>

theorem trim_keeps_rounds:
  assumes "paired False conv"
  shows "paired False (trim_conversation_to_message_cap conv)
    \<and> (trim_conversation_to_message_cap conv = conv \<or> active_request conv = None
       \<or> is_request_turn (hd (dropWhile is_system (trim_conversation_to_message_cap conv))))"
  using trim_paired [OF assms] trim_opens_on_request [of conv] by blast

subsection \<open>Marks do not pile up\<close>

text \<open>
  The conversation between two provider calls: the loop appends messages and caps the
  conversation before each call.
\<close>

datatype conv_event = Append message | Cap

fun conv_step :: "conversation \<Rightarrow> conv_event \<Rightarrow> conversation" where
  "conv_step conv (Append m) = conv @ [m]"
| "conv_step conv Cap = trim_conversation_to_message_cap conv"

fun adds_no_mark :: "conv_event \<Rightarrow> bool" where
  "adds_no_mark (Append m) = (\<not> is_elision_note m)"
| "adds_no_mark Cap = True"

definition unmarked :: "conversation \<Rightarrow> bool" where
  "unmarked ms \<longleftrightarrow> (\<forall>m \<in> set ms. \<not> is_elision_note m)"

definition one_mark :: "conversation \<Rightarrow> bool" where
  "one_mark conv \<longleftrightarrow> unmarked conv \<or>
     (\<exists>h pin n q r. conv = h @ pin @ n # q # r \<and> (\<forall>m \<in> set h. is_system m) \<and> unmarked h
        \<and> (pin = [] \<and> \<not> is_system q \<or> (\<exists>p. pin = [p] \<and> \<not> is_system p))
        \<and> is_elision_note n \<and> unmarked pin \<and> unmarked (q # r))"

lemma one_markI:
  "\<forall>m \<in> set h. is_system m \<Longrightarrow> unmarked h
   \<Longrightarrow> pin = [] \<and> \<not> is_system q \<or> (\<exists>p. pin = [p] \<and> \<not> is_system p)
   \<Longrightarrow> is_elision_note n \<Longrightarrow> unmarked pin \<Longrightarrow> unmarked (q # r) \<Longrightarrow> one_mark (h @ pin @ n # q # r)"
  unfolding one_mark_def by blast

lemma one_markE:
  assumes "one_mark conv" "\<not> unmarked conv"
  obtains h pin n q r where "conv = h @ pin @ n # q # r" "\<forall>m \<in> set h. is_system m" "unmarked h"
    "pin = [] \<and> \<not> is_system q \<or> (\<exists>p. pin = [p] \<and> \<not> is_system p)"
    "is_elision_note n" "unmarked pin" "unmarked (q # r)"
  using assms unfolding one_mark_def by blast

lemma unmarked_simps [simp]:
  "unmarked []" "unmarked (m # ms) \<longleftrightarrow> \<not> is_elision_note m \<and> unmarked ms"
  "unmarked (xs @ ys) \<longleftrightarrow> unmarked xs \<and> unmarked ys"
  by (auto simp: unmarked_def)

lemma unmarked_take_drop: "unmarked ms \<Longrightarrow> unmarked (take k ms) \<and> unmarked (drop k ms)"
  by (metis append_take_drop_id unmarked_simps(3))

lemma without_notes_unmarked: "k \<le> length h \<Longrightarrow> unmarked h \<Longrightarrow> without_notes (h @ ms) k = k"
  by (cases k) (auto simp: unmarked_def nth_append)

lemma marked_contract:
  assumes h: "\<forall>m \<in> set h. is_system m" "unmarked h"
    and n: "is_elision_note n"
    and q: "pin = [] \<and> \<not> is_system q \<or> (\<exists>p. pin = [p] \<and> \<not> is_system p)"
  shows "contract_length (h @ pin @ n # q # r) = length h"
proof -
  have t: "takeWhile is_system (h @ ms) = h @ takeWhile is_system ms" for ms
    using h(1) by (simp add: takeWhile_append2)
  show ?thesis
    using q
  proof
    assume "pin = [] \<and> \<not> is_system q"
    then have "contract_length (h @ pin @ n # q # r) = without_notes (h @ n # q # r) (Suc (length h))"
      using note_system [OF n] by (simp add: contract_length_def active_turn_bounds_def Let_def t)
    also have "\<dots> = length h" using n h(2) by (simp add: without_notes_unmarked)
    finally show ?thesis .
  next
    assume "\<exists>p. pin = [p] \<and> \<not> is_system p"
    with h(2) show ?thesis
      by (auto simp: contract_length_def active_turn_bounds_def Let_def t without_notes_unmarked)
  qed
qed

lemma unmarked_around_cut:
  assumes "one_mark conv" "contract_length conv + length (pinned conv pos) + 1 < pos"
  shows "unmarked (take (contract_length conv) conv) \<and> unmarked (drop pos conv)"
proof (cases "unmarked conv")
  case True
  then show ?thesis by (simp add: unmarked_take_drop)
next
  case False
  with assms(1) show ?thesis
  proof (rule one_markE)
    fix h pin n q r
    assume c: "conv = h @ pin @ n # q # r" "\<forall>m \<in> set h. is_system m" "unmarked h"
      "pin = [] \<and> \<not> is_system q \<or> (\<exists>p. pin = [p] \<and> \<not> is_system p)"
      "is_elision_note n" "unmarked (q # r)"
    then have l: "contract_length conv = length h" using marked_contract by simp
    with assms(2) c(4) have "length (h @ pin @ [n]) \<le> pos" by auto
    moreover have "drop pos conv = drop pos ((h @ pin @ [n]) @ q # r)" using c(1) by simp
    ultimately have "drop pos conv = drop (pos - length (h @ pin @ [n])) (q # r)"
      using drop_append [of pos "h @ pin @ [n]" "q # r"] drop_all by (metis append_Nil)
    with unmarked_take_drop [OF c(6)] c(1,3) l show ?thesis by simp
  qed
qed

lemma one_mark_trim:
  assumes i: "one_mark conv"
  shows "one_mark (trim_conversation_to_message_cap conv)"
proof (cases rule: trim_shape [of conv])
  case same
  with i show ?thesis by simp
next
  case (cut pos n)
  have d: "drop pos conv = conv ! pos # drop (Suc pos) conv" "\<not> is_system (conv ! pos)"
    using cut(3) boundary_not_system by (auto simp: good_cut_def Cons_nth_drop_Suc)
  have p: "pinned conv pos = [] \<and> \<not> is_system (conv ! pos)
      \<or> (\<exists>p. pinned conv pos = [p] \<and> \<not> is_system p)" "unmarked (pinned conv pos)"
    using cut(3) d(2) by (cases rule: pinned_cases; auto dest: request_not_system note_system)+
  have u: "unmarked (take (contract_length conv) conv)" "unmarked (drop pos conv)"
    using unmarked_around_cut [OF i cut(4)] by auto
  have h: "\<forall>m \<in> set (take (contract_length conv) conv). is_system m" using contract_messages by blast
  show ?thesis
    unfolding cut(1) d(1) by (rule one_markI) (use p u h cut(2) d in simp_all)
qed

interpretation marks: step_system conv_step adds_no_mark one_mark
proof
  fix conv e
  assume i: "one_mark conv" "adds_no_mark e"
  show "one_mark (conv_step conv e)"
  proof (cases e)
    case (Append m)
    show ?thesis
    proof (cases "unmarked conv")
      case True
      with Append i(2) show ?thesis by (simp add: one_mark_def)
    next
      case False
      with i(1) show ?thesis
      proof (rule one_markE)
        fix h pin n q r
        assume c: "conv = h @ pin @ n # q # r" "\<forall>m \<in> set h. is_system m" "unmarked h"
          "pin = [] \<and> \<not> is_system q \<or> (\<exists>p. pin = [p] \<and> \<not> is_system p)"
          "is_elision_note n" "unmarked pin" "unmarked (q # r)"
        then have "one_mark (h @ pin @ n # q # (r @ [m]))"
          by (intro one_markI) (use Append i(2) in simp_all)
        with Append c(1) show ?thesis by simp
      qed
    qed
  qed (simp add: one_mark_trim [OF i(1)])
qed

lemma one_mark_count: "one_mark conv \<Longrightarrow> length (filter is_elision_note conv) \<le> 1"
proof -
  have "filter is_elision_note ms = []" if "unmarked ms" for ms
    using that by (simp add: unmarked_def filter_empty_conv)
  then show "one_mark conv \<Longrightarrow> ?thesis" unfolding one_mark_def by fastforce
qed

text \<open>
  However often the loop appends messages and caps the conversation, it carries at most
  one mark of elided messages: a later cap drops the mark of an earlier one.
\<close>

theorem elision_marks_do_not_accumulate:
  assumes "unmarked conv" "\<forall>e \<in> set es. adds_no_mark e"
  shows "length (filter is_elision_note (foldl conv_step conv es)) \<le> 1"
  using one_mark_count marks.run_inv [of conv es] assms by (simp add: one_mark_def)

definition demo_turn :: "string \<Rightarrow> string \<Rightarrow> message" where
  "demo_turn r c = [(''role'', JStr r), (''content'', JStr c)]"

definition demo_conversation :: conversation where
  "demo_conversation = [demo_turn ''system'' ''s'', demo_turn ''user'' ''do it'']
     @ concat (replicate 20 [demo_turn ''assistant'' ''a'', demo_turn ''tool'' ''r''])"

theorem trim_keeps_rounds_witness:
  "paired False demo_conversation
   \<and> length (trim_conversation_to_message_cap demo_conversation) = 31
   \<and> paired False (trim_conversation_to_message_cap demo_conversation)
   \<and> (trim_conversation_to_message_cap demo_conversation = demo_conversation
      \<or> active_request demo_conversation = None
      \<or> is_request_turn (hd (dropWhile is_system (trim_conversation_to_message_cap demo_conversation))))"
proof -
  have p: "paired False demo_conversation" by code_simp
  moreover have "length (trim_conversation_to_message_cap demo_conversation) = 31" by code_simp
  ultimately show ?thesis using trim_keeps_rounds [OF p] by blast
qed

theorem elision_marks_do_not_accumulate_witness:
  "unmarked demo_conversation
   \<and> list_all adds_no_mark [Cap, Append (demo_turn ''assistant'' ''a''), Cap]
   \<and> length (filter is_elision_note
       (foldl conv_step demo_conversation [Cap, Append (demo_turn ''assistant'' ''a''), Cap])) \<le> 1"
proof -
  have u: "unmarked demo_conversation" by code_simp
  have e: "\<forall>e \<in> set [Cap, Append (demo_turn ''assistant'' ''a''), Cap]. adds_no_mark e"
    by code_simp
  then have l: "list_all adds_no_mark [Cap, Append (demo_turn ''assistant'' ''a''), Cap]"
    by (simp only: list_all_iff)
  show ?thesis using u l elision_marks_do_not_accumulate [OF u e] by blast
qed

end
