(* ===== verification/Context_Fit_Safety.thy ===== *)
theory Context_Fit_Safety
  imports Context_Fit Conversation_Safety
begin

text \<open>
  What fitting a request guarantees: the search for the longest tail is sound and complete,
  a request that fits stays inside the window of its model and carries the contract and the
  active turn, and the one shape of request that is refused although it could be shortened.
\<close>

subsection \<open>Costs\<close>

lemma not_wide [simp]: "\<not> is_wide_char c"
proof -
  have "code c < 256" unfolding code_def using nat_of_char_less_256 by (simp add: of_char_def)
  then show ?thesis by (simp add: is_wide_char_def)
qed

lemma estimate_tokens_length: "estimate_tokens t = (length t + 2) div 3"
  by (simp add: estimate_tokens_def)

lemma estimate_messages_simps [simp]:
  "estimate_messages_tokens [] = 0"
  "estimate_messages_tokens (m # ms) = estimate_json (JObj m) + 4 + estimate_messages_tokens ms"
  "estimate_messages_tokens (xs @ ys) = estimate_messages_tokens xs + estimate_messages_tokens ys"
  by (simp_all add: estimate_messages_tokens_def)

lemma length_quote: "length (quote t) = 2 + sum_list (map (length \<circ> escape_char) t)"
  by (simp add: quote_def length_concat map_map)

lemma length_turn: "length (canonical_json (JObj (turn r t))) = length (quote r) + length (quote t) + 20"
proof -
  have "\<not> ''role'' \<le> (''content'' :: string)" "''content'' \<le> (''role'' :: string)"
    by code_simp+
  then show ?thesis by (simp add: turn_def length_quote escape_char_def code_def)
qed

lemma last_chars_append:
  assumes "k \<le> k'" obtains u where "last_chars t k' = u @ last_chars t k"
proof -
  have "(length t - k) - (length t - k') + (length t - k') = length t - k" using assms by simp
  then have "drop (length t - k) t = drop ((length t - k) - (length t - k')) (drop (length t - k') t)"
    by simp
  then have "last_chars t k' = take ((length t - k) - (length t - k')) (last_chars t k') @ last_chars t k"
    unfolding last_chars_def by (metis append_take_drop_id)
  then show ?thesis by (rule that)
qed

text \<open>Keeping more characters of a text behind the same words never costs less.\<close>

lemma turn_cost_mono:
  assumes "k \<le> k'"
  shows "estimate_json (JObj (turn r (p @ last_chars t k))) \<le> estimate_json (JObj (turn r (p @ last_chars t k')))"
proof -
  obtain u where u: "last_chars t k' = u @ last_chars t k" using last_chars_append [OF assms] .
  have "length (canonical_json (JObj (turn r (p @ last_chars t k))))
      \<le> length (canonical_json (JObj (turn r (p @ last_chars t k'))))"
    unfolding length_turn u length_quote by simp
  then show ?thesis unfolding estimate_json_def estimate_tokens_length by (intro div_le_mono) simp
qed

subsection \<open>The search for the longest tail\<close>

text \<open>
  A test on the number of characters kept, between none and \<open>n\<close> of them, that is antitone
  below \<open>m\<close>: what fits still fits when less is kept.
\<close>

locale keep_search =
  fixes within :: "nat \<Rightarrow> bool" and n m :: nat
  assumes antitone: "k \<le> k' \<Longrightarrow> k' < m \<Longrightarrow> within k' \<Longrightarrow> within k"
begin

lemma search_sound:
  "within best \<Longrightarrow> best \<le> n \<Longrightarrow> 0 \<le> low \<Longrightarrow> high \<le> int n \<Longrightarrow>
   within (search_keep within low high best) \<and> search_keep within low high best \<le> n"
proof (induction "nat (high - low + 1)" arbitrary: low high best rule: less_induct)
  case less
  let ?keep = "(low + high) div 2"
  show ?case
  proof (cases "low \<le> high")
    case True
    then have "low \<le> ?keep" "?keep \<le> high" by linarith+
    with less True show ?thesis
      by (cases "within (nat ?keep)") (auto simp: search_keep.simps [of "within" low high best] Let_def)
  next
    case False
    with less show ?thesis by (simp add: search_keep.simps [of "within" low high best])
  qed
qed

lemma search_longest:
  "0 \<le> low \<Longrightarrow> int best \<le> low \<Longrightarrow> (k \<le> best \<or> low \<le> int k \<and> int k \<le> high) \<Longrightarrow> k < m \<Longrightarrow> within k \<Longrightarrow>
   k \<le> search_keep within low high best"
proof (induction "nat (high - low + 1)" arbitrary: low high best rule: less_induct)
  case less
  let ?keep = "(low + high) div 2"
  show ?case
  proof (cases "low \<le> high")
    case True
    then have mid: "low \<le> ?keep" "?keep \<le> high" by linarith+
    show ?thesis
    proof (cases "within (nat ?keep)")
      case w: True
      have "k \<le> search_keep within (?keep + 1) high (nat ?keep)"
        by (rule less.hyps) (use mid less.prems in auto)
      with w True show ?thesis by (simp add: search_keep.simps [of "within" low high best] Let_def)
    next
      case False
      then have "int k < ?keep" using antitone [of "nat ?keep" k] less.prems by linarith
      then have "k \<le> search_keep within low (?keep - 1) best"
        by (intro less.hyps) (use mid less.prems in auto)
      with False True show ?thesis by (simp add: search_keep.simps [of "within" low high best] Let_def)
    qed
  next
    case False
    with less.prems show ?thesis by (auto simp: search_keep.simps [of "within" low high best])
  qed
qed

end

lemma strip_empty: "strip s = [] \<longleftrightarrow> list_all py_space s"
proof -
  have "rstrip u = [] \<longleftrightarrow> list_all py_space u" for u
    by (simp add: rstrip_def dropWhile_eq_Nil_conv list_all_iff)
  moreover have "list_all py_space (dropWhile py_space s) \<longleftrightarrow> list_all py_space s"
    by (induction s) auto
  ultimately show ?thesis by (simp add: strip_def lstrip_def)
qed

lemma recovered_history_nonblank [simp]: "strip (recovered_history t k) \<noteq> []"
proof -
  have "\<not> py_space CHR ''[''" by (simp add: py_space_def code_def)
  then show ?thesis by (simp add: strip_empty recovered_history_def recovery_prefix_def)
qed

lemma candidate_cost_sum:
  "candidate_cost p t a k = estimate_messages_tokens (p @ [recovery_ack] @ a)
     + estimate_messages_tokens [turn ''user'' (recovered_history t k)]"
  by (simp add: candidate_cost_def)

text \<open>The cost computed from the fixed parts is the cost of the whole candidate.\<close>

lemma candidate_cost_exact:
  "candidate_cost p t a k = estimate_messages_tokens (historical_candidate p t a k)"
  by (simp add: candidate_cost_def historical_candidate_def)

interpretation summary_search: keep_search
  "summary_fits system evidence budget" "length evidence" "Suc (length evidence)"
  for system evidence budget
proof
  fix k k'
  assume "k \<le> k'" and w: "summary_fits system evidence budget k'"
  have "estimate_messages_tokens (summary_candidate system evidence k)
      \<le> estimate_messages_tokens (summary_candidate system evidence k')"
    unfolding summary_candidate_def estimate_messages_simps
    by (intro add_mono turn_cost_mono \<open>k \<le> k'\<close>) simp_all
  with w show "summary_fits system evidence budget k" by (simp add: summary_fits_def)
qed

interpretation history_search: keep_search
  "candidate_fits protected t active budget" "length t" "length t"
  for protected t active budget
proof
  fix k k'
  assume k: "k \<le> k'" "k' < length t" and w: "candidate_fits protected t active budget k'"
  define p where "p = recovery_prefix @ ''[... earlier context truncated ...]'' @ [CHR 0x0A]"
  have r: "recovered_history t j = p @ last_chars t j" if "j < length t" for j
    using that by (simp add: recovered_history_def p_def)
  have "candidate_cost protected t active k \<le> candidate_cost protected t active k'"
    using turn_cost_mono [OF k(1), of "''user''" p t] k r [of k] r [of k']
    by (simp add: candidate_cost_sum)
  with w show "candidate_fits protected t active budget k" by (simp add: candidate_fits_def)
qed

lemma fit_summary_request_fits:
  assumes "fit_summary_request request budget \<noteq> []"
  shows "int (estimate_messages_tokens (fit_summary_request request budget)) \<le> budget
    \<and> hd (fit_summary_request request budget) = hd request"
proof -
  let ?e = "summary_evidence request"
  have "summary_fits (hd request) ?e budget 0" using assms
    by (auto simp: fit_summary_request_def Let_def split: if_splits)
  then show ?thesis
    using assms summary_search.search_sound [of "hd request" ?e budget 0 0 "int (length ?e)"]
    by (auto simp: fit_summary_request_def Let_def summary_fits_def summary_candidate_def split: if_splits)
qed

lemma longest_tail_found:
  assumes s: "split_active_context conv = (p, h, a)"
    and over: "0 < budget" "budget < int (estimate_messages_tokens conv)"
    and room: "int (estimate_messages_tokens (historical_candidate p (history_text h) a 0)) \<le> budget"
  shows "\<exists>k \<le> length (history_text h).
      trim_conversation_for_context_limit conv budget = historical_candidate p (history_text h) a k
      \<and> int (estimate_messages_tokens (trim_conversation_for_context_limit conv budget)) \<le> budget
      \<and> (\<forall>k' < length (history_text h).
           int (estimate_messages_tokens (historical_candidate p (history_text h) a k')) \<le> budget \<longrightarrow> k' \<le> k)"
proof -
  let ?t = "history_text h"
  let ?fits = "candidate_fits p ?t a budget"
  let ?k = "search_keep ?fits 0 (int (length ?t)) 0"
  have f: "?fits k \<longleftrightarrow> int (estimate_messages_tokens (historical_candidate p ?t a k)) \<le> budget" for k
    by (simp add: candidate_fits_def candidate_cost_exact)
  have t: "trim_conversation_for_context_limit conv budget = historical_candidate p ?t a ?k"
    using s over room f by (simp add: trim_conversation_for_context_limit_def Let_def)
  have k: "?fits ?k" "?k \<le> length ?t"
    using history_search.search_sound [of p ?t a budget 0 0 "int (length ?t)"] room f by auto
  moreover have "k' \<le> ?k" if "k' < length ?t" "?fits k'" for k'
    using history_search.search_longest [of 0 0 k' "int (length ?t)" ?t p a budget] that by auto
  ultimately show ?thesis using t f by (intro exI [of _ ?k]) auto
qed

lemma trim_limit_shape:
  assumes s: "split_active_context conv = (p, h, a)"
  obtains (same) "trim_conversation_for_context_limit conv budget = conv"
      "budget \<le> 0 \<or> int (estimate_messages_tokens conv) \<le> budget"
  | (bare) "trim_conversation_for_context_limit conv budget = p @ a"
      "0 < budget" "budget < int (estimate_messages_tokens conv)"
  | (tail) t where "trim_conversation_for_context_limit conv budget = p @ [turn ''user'' t, recovery_ack] @ a"
      "int (estimate_messages_tokens (trim_conversation_for_context_limit conv budget)) \<le> budget" "0 < budget"
proof -
  consider "budget \<le> 0 \<or> int (estimate_messages_tokens conv) \<le> budget"
    | "0 < budget" "budget < int (estimate_messages_tokens conv)"
        "\<not> candidate_fits p (history_text h) a budget 0"
    | "0 < budget" "budget < int (estimate_messages_tokens conv)"
        "candidate_fits p (history_text h) a budget 0"
    by linarith
  then show thesis
  proof cases
    case 1
    then show thesis by (intro same) (auto simp: trim_conversation_for_context_limit_def)
  next
    case 2
    then show thesis by (intro bare) (auto simp: trim_conversation_for_context_limit_def s Let_def)
  next
    case 3
    then have "int (estimate_messages_tokens (historical_candidate p (history_text h) a 0)) \<le> budget"
      by (simp add: candidate_fits_def candidate_cost_exact)
    with longest_tail_found [OF s 3(1,2)] 3(1) show thesis
      by (auto simp: historical_candidate_def intro: tail)
  qed
qed

text \<open>
  C23. Shortening a conversation to a token budget leaves it alone when it fits (or the budget
  is not positive).  Otherwise, when the contract, the history note without any history and the
  active work exceed the budget already, it drops the history and returns contract and active
  work, which may still exceed the budget; and else it returns the contract, as long a tail of
  the flattened history as the budget allows short of the whole text, and the active work,
  which together are within the budget.
\<close>

theorem shortening_keeps_longest_tail:
  assumes "split_active_context conv = (p, h, a)"
  shows "if budget \<le> 0 \<or> int (estimate_messages_tokens conv) \<le> budget
    then trim_conversation_for_context_limit conv budget = conv
    else if budget < int (estimate_messages_tokens (historical_candidate p (history_text h) a 0))
    then trim_conversation_for_context_limit conv budget = p @ a
    else \<exists>k \<le> length (history_text h).
      trim_conversation_for_context_limit conv budget = historical_candidate p (history_text h) a k
      \<and> int (estimate_messages_tokens (trim_conversation_for_context_limit conv budget)) \<le> budget
      \<and> (\<forall>k' < length (history_text h).
           int (estimate_messages_tokens (historical_candidate p (history_text h) a k')) \<le> budget \<longrightarrow> k' \<le> k)"
proof -
  have "trim_conversation_for_context_limit conv budget = conv"
    if "budget \<le> 0 \<or> int (estimate_messages_tokens conv) \<le> budget"
    using that by (auto simp: trim_conversation_for_context_limit_def)
  moreover have "trim_conversation_for_context_limit conv budget = p @ a"
    if "0 < budget" "budget < int (estimate_messages_tokens conv)"
      "budget < int (estimate_messages_tokens (historical_candidate p (history_text h) a 0))"
    using that assms by (simp add: trim_conversation_for_context_limit_def Let_def candidate_fits_def candidate_cost_exact)
  ultimately show ?thesis using longest_tail_found [OF assms] by simp
qed

subsection \<open>The budget\<close>

lemma budget_positive: "1 \<le> safe_input_budget (context_budget_for l)"
  unfolding context_budget_for_def Let_def by (simp only: context_budget.select_convs max.cobounded1)

lemma trigger_le_budget: "compaction_trigger (context_budget_for l) \<le> safe_input_budget (context_budget_for l)"
proof -
  have "compaction_trigger (context_budget_for l) = max 1 (safe_input_budget (context_budget_for l) * 85 div 100)"
    unfolding context_budget_for_def Let_def by (simp only: context_budget.select_convs)
  moreover have "x * 85 div 100 \<le> x" if "1 \<le> x" for x :: int using that by linarith
  ultimately show ?thesis using budget_positive [of l] by simp
qed

lemma budget_sum:
  assumes w: "2 \<le> context_window l"
  shows "safe_input_budget (context_budget_for l) + output_reserve (context_budget_for l)
      + safety_margin (context_budget_for l) = effective_context_window (context_budget_for l)
    \<and> effective_context_window (context_budget_for l) \<le> min (context_window l) 128000"
proof -
  define e where "e = effective_context_window (context_budget_for l)"
  define r where "r = output_reserve (context_budget_for l)"
  define g where "g = safety_margin (context_budget_for l)"
  have e: "e = min (max 1 (context_window l)) CONTEXT_COMPACTION_TRIGGER"
    unfolding e_def context_budget_for_def Let_def by (simp only: context_budget.select_convs)
  have r: "r = min (max 1 (max_output_tokens l)) (max (e - 1) 1)"
    unfolding r_def e context_budget_for_def Let_def by (simp only: context_budget.select_convs)
  have g: "g = min (max 256 (e div 10)) (max (e - r - 1) 0)"
    unfolding g_def r e context_budget_for_def Let_def by (simp only: context_budget.select_convs)
  have s: "safe_input_budget (context_budget_for l) = max 1 (e - r - g)"
    unfolding g r e context_budget_for_def Let_def by (simp only: context_budget.select_convs)
  have "2 \<le> e" "e \<le> min (context_window l) 128000"
    using w unfolding e CONTEXT_COMPACTION_TRIGGER_def by auto
  moreover have "r \<le> max (e - 1) 1" unfolding r by (rule min.cobounded2)
  moreover have "g \<le> max (e - r - 1) 0" unfolding g by (rule min.cobounded2)
  ultimately show ?thesis unfolding s e_def [symmetric] r_def [symmetric] g_def [symmetric] by linarith
qed

subsection \<open>Pruning changes tool results only\<close>

definition only_tools_differ :: "message \<Rightarrow> message \<Rightarrow> bool" where
  "only_tools_differ m m' \<longleftrightarrow> m' = m \<or> role_is ''tool'' m \<and> role_is ''tool'' m'"

lemma prune_walk_marks:
  "length (fst (prune_walk th tot ms)) = length ms
   \<and> list_all2 (\<lambda>mark m. mark \<longrightarrow> role_is ''tool'' m) (fst (prune_walk th tot ms)) ms"
proof (induction th tot ms rule: prune_walk.induct)
  case (2 th tot m ms)
  have "list_all2 (\<lambda>mark m. mark \<longrightarrow> role_is ''tool'' m) (replicate (length ms) False) ms"
    by (simp add: list_all2_conv_all_nth)
  with 2 show ?case by (auto simp: Let_def split: prod.splits)
qed simp

lemma stub_role: "role_is r (stub_message m) = role_is r m"
  by (simp add: role_is_def stub_message_def dget_def)

lemma stubbed_differ:
  "list_all2 (\<lambda>mark m. mark \<longrightarrow> role_is ''tool'' m) marks ms \<Longrightarrow>
   list_all2 only_tools_differ ms (map2 (\<lambda>mark m. if mark then stub_message m else m) marks ms)"
  by (induction rule: list_all2_induct) (auto simp: only_tools_differ_def stub_role)

lemma prune_only_tools: "list_all2 only_tools_differ conv (fst (prune_tool_outputs th mn conv))"
proof -
  let ?marks = "fst (prune_walk th 0 (rev conv))"
  have "list_all2 only_tools_differ (rev conv)
      (map2 (\<lambda>mark m. if mark then stub_message m else m) ?marks (rev conv))"
    using prune_walk_marks [of th 0 "rev conv"] by (intro stubbed_differ) simp
  then have "list_all2 only_tools_differ conv
      (rev (map2 (\<lambda>mark m. if mark then stub_message m else m) ?marks (rev conv)))"
    by (simp only: list_all2_rev1)
  moreover have "list_all2 only_tools_differ conv conv"
    by (simp add: list_all2_conv_all_nth only_tools_differ_def)
  ultimately show ?thesis
    by (cases "prune_walk th 0 (rev conv)") (simp add: prune_tool_outputs_def)
qed

lemma prune_zero: "snd (prune_tool_outputs th mn conv) = 0 \<Longrightarrow> 0 < mn \<Longrightarrow>
    fst (prune_tool_outputs th mn conv) = conv"
  by (auto simp: prune_tool_outputs_def split: prod.splits if_splits)

lemma differ_system: "only_tools_differ m m' \<Longrightarrow> is_system m' = is_system m \<and> (is_system m \<longrightarrow> m' = m)"
  by (auto simp: only_tools_differ_def role_is_def)

lemma differ_request:
  "only_tools_differ m m' \<Longrightarrow> is_request_turn m' = is_request_turn m \<and> (is_request_turn m \<longrightarrow> m' = m)"
  by (auto simp: only_tools_differ_def is_request_turn_def role_is_def)

lemma differ_takeWhile:
  "list_all2 only_tools_differ xs ys \<Longrightarrow> takeWhile is_system ys = takeWhile is_system xs"
  by (induction rule: list_all2_induct) (auto dest: differ_system)

lemma differ_filter:
  "list_all2 only_tools_differ xs ys \<Longrightarrow> filter is_request_turn ys = filter is_request_turn xs"
  by (induction rule: list_all2_induct) (auto dest: differ_request)

lemma differ_nonsystem:
  "list_all2 only_tools_differ xs ys \<Longrightarrow> list_ex (\<lambda>m. \<not> is_system m) ys = list_ex (\<lambda>m. \<not> is_system m) xs"
  by (induction rule: list_all2_induct) (auto dest: differ_system)

subsection \<open>Splitting around the active turn\<close>

lemma split_active_parts:
  assumes "split_active_context conv = (p, h, a)"
  shows "p = takeWhile is_system conv"
    "active_request conv = (if a = [] then None else Some (hd a))"
    "a = [] \<or> is_request_turn (hd a) \<and> filter is_request_turn (tl a) = []"
    "a = [] \<longrightarrow> filter is_request_turn conv = []"
proof -
  obtain lead act where Pair: "active_turn_bounds conv = (lead, act)" by (cases "active_turn_bounds conv")
  have "p = takeWhile is_system conv \<and> active_request conv = (if a = [] then None else Some (hd a))
     \<and> (a = [] \<or> is_request_turn (hd a) \<and> filter is_request_turn (tl a) = [])
     \<and> (a = [] \<longrightarrow> filter is_request_turn conv = [])"
  proof (cases act)
    case None
    note b = active_bounds_None [OF Pair [unfolded None]]
    have "take lead conv = takeWhile is_system conv" using b(1) by (metis takeWhile_eq_take)
    with assms Pair None b(2) show ?thesis
      by (auto simp: split_active_context_def active_request_def filter_empty_conv)
  next
    case (Some s)
    note b = active_bounds_Some [OF Pair [unfolded Some]]
    have "filter is_request_turn (tl (drop s conv)) = []"
      using b(3,5) by (auto simp: filter_empty_conv in_set_conv_nth nth_tl)
    moreover have "take lead conv = takeWhile is_system conv" using b(1) by (metis takeWhile_eq_take)
    ultimately show ?thesis using assms Pair Some b(3,4)
      by (auto simp: split_active_context_def active_request_def hd_drop_conv_nth)
  qed
  then show "p = takeWhile is_system conv" "active_request conv = (if a = [] then None else Some (hd a))"
    "a = [] \<or> is_request_turn (hd a) \<and> filter is_request_turn (tl a) = []"
    "a = [] \<longrightarrow> filter is_request_turn conv = []" by blast+
qed

lemma active_request_front:
  assumes "is_request_turn (hd a)" "a \<noteq> []" "filter is_request_turn (tl a) = []"
  shows "active_request (xs @ a) = Some (hd a)"
  using assms by (cases a) (auto simp: active_request_last)

subsection \<open>Fitting a request\<close>

lemma recover_request_fits:
  assumes "recover_request tools b conv = (RECOVERED, out)"
  shows "input_of (receipt_for out tools b) \<le> safe_input_budget b
    \<and> (\<exists>budget. out = trim_conversation_for_context_limit conv budget)"
  using assms by (auto simp: recover_request_def Let_def split: if_splits)

lemma recover_request_status:
  "recover_request tools b conv = (st, out) \<Longrightarrow> st = RECOVERED \<or> st = UNFIT_REQUEST"
  by (auto simp: recover_request_def Let_def split: if_splits)

abbreviation pruned_of :: "conversation \<Rightarrow> conversation" where
  "pruned_of conv \<equiv> fst (prune_tool_outputs PRUNE_PROTECT_THRESHOLD_CHARS PRUNE_MIN_CHARS conv)"

lemma fit_result_simps [simp]:
  "fit_status (fit_result tools key st c r acts) = st"
  "fit_messages (fit_result tools key st c r acts) = c"
  "fit_receipt (fit_result tools key st c r acts) = r"
  "fit_actions (fit_result tools key st c r acts) = acts"
  "fits (fit_result tools key st c r acts) \<longleftrightarrow> st = FIT \<or> st = COMPACTED \<or> st = RECOVERED"
  by (auto simp: fit_result_def fits_def)

text \<open>What a request that fits carries: a candidate, compacted or not, and possibly shortened.\<close>

lemma fit_candidate_fits:
  fixes summarize :: "conversation \<Rightarrow> 'e + summary_result"
  assumes f: "fits (fit_candidate summarize tools b key allow cand n)"
    and t: "compaction_trigger b \<le> safe_input_budget b"
  obtains c out where "c = cand \<or> compact_history summarize cand = Inr (Some c)"
    "fit_messages (fit_candidate summarize tools b key allow cand n) = out"
    "fit_receipt (fit_candidate summarize tools b key allow cand n) = receipt_for out tools b"
    "input_of (receipt_for out tools b) \<le> safe_input_budget b"
    "out = c \<or> (\<exists>budget. out = trim_conversation_for_context_limit c budget)"
proof (cases "safe_input_budget b < input_of (receipt_for (preserved_active_context cand) tools b)
    \<or> input_of (receipt_for cand tools b) < compaction_trigger b")
  case True
  with f t show ?thesis by (intro that [of cand cand]) (auto simp: fit_candidate_def Let_def split: if_splits)
next
  case False
  obtain co act where ca: "compact_candidate summarize allow cand = (co, act)"
    by (cases "compact_candidate summarize allow cand")
  define c where "c = (case co of None \<Rightarrow> cand | Some c \<Rightarrow> c)"
  have c: "c = cand \<or> compact_history summarize cand = Inr (Some c)"
    using ca by (auto simp: compact_candidate_def c_def split: if_splits sum.splits option.splits)
  obtain st out where rr: "recover_request tools b c = (st, out)"
    by (cases "recover_request tools b c")
  show ?thesis
  proof (cases "input_of (receipt_for c tools b) \<le> safe_input_budget b")
    case True
    with False c show ?thesis
      by (intro that [of c c]) (cases co; simp add: fit_candidate_def Let_def ca c_def)+
  next
    case large: False
    with False f rr have "st = RECOVERED"
      using recover_request_status [OF rr]
      by (cases co) (auto simp: fit_candidate_def Let_def ca c_def)
    with recover_request_fits rr False large c show ?thesis
      by (intro that [of c out]) (cases co; simp add: fit_candidate_def Let_def ca c_def)+
  qed
qed

lemma fit_request_fits:
  fixes summarize :: "conversation \<Rightarrow> 'e + summary_result"
  assumes f: "fits (fit_request summarize messages tools llm key allow)"
  obtains n where "fit_request summarize messages tools llm key allow =
      fit_candidate summarize tools (context_budget_for (model_limits_for llm)) key allow (pruned_of messages) n"
    "n = snd (prune_tool_outputs PRUNE_PROTECT_THRESHOLD_CHARS PRUNE_MIN_CHARS messages)"
    "list_ex (\<lambda>m. \<not> is_system m) messages"
  using assms by (auto simp: fit_request_def Let_def split: if_splits prod.splits)

lemma newest_request_cong:
  "(\<And>i. i < n \<Longrightarrow> is_request_turn (xs ! i) = is_request_turn (ys ! i)) \<Longrightarrow>
   newest_request xs lo n = newest_request ys lo n"
  by (induction n) auto

lemma differ_active:
  assumes d: "list_all2 only_tools_differ xs ys"
  shows "list_all2 only_tools_differ (snd (snd (split_active_context xs))) (snd (snd (split_active_context ys)))"
proof -
  have "newest_request xs lo (length xs) = newest_request ys lo (length xs)" for lo
    by (rule newest_request_cong) (use d in \<open>auto simp: list_all2_conv_all_nth dest: differ_request\<close>)
  then have "active_turn_bounds ys = active_turn_bounds xs"
    using d differ_takeWhile [OF d] list_all2_lengthD [OF d] by (simp add: active_turn_bounds_def Let_def)
  with d show ?thesis by (auto simp: split_active_context_def split: prod.splits option.splits)
qed

lemma split_rebuild:
  assumes p: "\<forall>m \<in> set p. is_system m" and m: "mid = [] \<or> \<not> is_system (hd mid)"
    and a: "a \<noteq> []" "is_request_turn (hd a)" "filter is_request_turn (tl a) = []"
  shows "split_active_context (p @ mid @ a) = (p, mid, a)"
proof -
  let ?c = "p @ mid @ a" and ?i = "length p + length mid"
  have "takeWhile is_system (mid @ a) = []"
    using m a request_not_system by (cases mid; cases a) auto
  then have t: "takeWhile is_system ?c = p" using p by (simp add: takeWhile_append2)
  have i: "?c ! ?i = hd a" "?i < length ?c" using a(1) by (simp_all add: nth_append hd_conv_nth)
  have later: "\<not> is_request_turn (?c ! j)" if j: "?i < j" "j < length ?c" for j
  proof -
    have "?c ! j = tl a ! (j - Suc ?i)" "j - Suc ?i < length (tl a)"
      using j a(1) by (auto simp: nth_append nth_tl Suc_diff_Suc)
    then show ?thesis using a(3) by (metis filter_empty_conv nth_mem)
  qed
  have "newest_request ?c (length p) (length ?c) = Some ?i"
  proof (cases "newest_request ?c (length p) (length ?c)")
    case None
    then have "\<not> is_request_turn (?c ! ?i)"
      using i(2) newest_request_None [of ?c "length p" "length ?c"] le_add1 by blast
    then show ?thesis using i(1) a(2) by simp
  next
    case (Some j)
    from newest_request_Some [OF this] later [of j] i a(2) show ?thesis
      using Some by (metis linorder_neqE_nat)
  qed
  then show ?thesis using t by (simp add: split_active_context_def active_turn_bounds_def Let_def)
qed

lemma split_systems: "split_active_context conv = (p, h, a) \<Longrightarrow> \<forall>m \<in> set p. is_system m"
  using split_active_parts(1) by (metis set_takeWhileD)

lemma split_history_head:
  assumes s: "split_active_context conv = (p, h, a)"
  shows "h = [] \<or> \<not> is_system (hd h)"
proof (cases "h = []")
  case False
  have "p @ h @ a = p @ dropWhile is_system conv"
    using split_active_append [OF s] split_active_parts(1) [OF s] by (metis takeWhile_dropWhile_id)
  then have "dropWhile is_system conv = h @ a" by simp
  then show ?thesis using False hd_dropWhile [of is_system conv] by (metis append_is_Nil_conv hd_append2)
qed simp

lemma turn_role [simp]: "role_is r (turn r' t) \<longleftrightarrow> r = r'"
  by (auto simp: role_is_def turn_def dget_def)

text \<open>Compacting and shortening keep the contract and the active work in place.\<close>

lemma compact_split:
  assumes s: "split_active_context conv = (p, h, a)" "a \<noteq> []"
    and c: "compact_history summarize conv = Inr (Some c)"
  shows "\<exists>mid. split_active_context c = (p, mid, a)"
proof -
  from c s obtain t where "c = p @ [summary_turn t, compaction_ack] @ a"
    by (auto simp: compact_history_def bind_res_Inr split: if_splits)
  with split_rebuild [of p "[summary_turn t, compaction_ack]" a] split_systems [OF s(1)]
    split_active_parts(3) [OF s(1)] s(2)
  show ?thesis by (auto simp: summary_turn_def)
qed

lemma trim_limit_frame:
  assumes s: "split_active_context conv = (p, h, a)"
  shows "\<exists>mid. trim_conversation_for_context_limit conv budget = p @ mid @ a"
  using s
proof (cases rule: trim_limit_shape [where budget = budget])
  case same
  then show ?thesis using split_active_append [OF s] by auto
next
  case bare
  then show ?thesis by (metis append_Nil)
qed auto

lemma fit_frame:
  assumes f: "fits (fit_request summarize messages tools llm key allow)"
    and q: "active_request messages = Some q"
  shows "\<exists>mid active. fit_messages (fit_request summarize messages tools llm key allow)
        = takeWhile is_system messages @ mid @ active
      \<and> list_all2 only_tools_differ (snd (snd (split_active_context messages))) active
      \<and> active_request (fit_messages (fit_request summarize messages tools llm key allow)) = Some q"
proof -
  let ?cand = "pruned_of messages"
  have d: "list_all2 only_tools_differ messages ?cand" by (rule prune_only_tools)
  obtain p h a where s: "split_active_context ?cand = (p, h, a)" by (cases "split_active_context ?cand")
  have p: "p = takeWhile is_system messages"
    using split_active_parts(1) [OF s] differ_takeWhile [OF d] by simp
  have "active_request ?cand = Some q" using q differ_filter [OF d] by (simp only: active_request_last)
  with split_active_parts(2) [OF s] have a: "a \<noteq> []" "hd a = q" by (auto split: if_splits)
  have l: "list_all2 only_tools_differ (snd (snd (split_active_context messages))) a"
    using differ_active [OF d] s by simp
  from fit_request_fits [OF f] obtain n where e: "fit_request summarize messages tools llm key allow =
      fit_candidate summarize tools (context_budget_for (model_limits_for llm)) key allow ?cand n" by metis
  from fit_candidate_fits [OF f [unfolded e] trigger_le_budget] obtain c out where
    c: "c = ?cand \<or> compact_history summarize ?cand = Inr (Some c)"
    and out: "fit_messages (fit_request summarize messages tools llm key allow) = out"
      "out = c \<or> (\<exists>budget. out = trim_conversation_for_context_limit c budget)" unfolding e by metis
  obtain h' where s': "split_active_context c = (p, h', a)"
    using c s compact_split [OF s a(1)] by blast
  obtain mid where "out = p @ mid @ a"
    using out(2) split_active_append [OF s'] trim_limit_frame [OF s'] by metis
  moreover have "active_request (p @ mid @ a) = Some q"
    using active_request_front [of a "p @ mid"] split_active_parts(3) [OF s] a by simp
  ultimately show ?thesis using p l out(1)
    by (intro exI [of _ mid] exI [of _ a]) simp
qed

text \<open>The receipt of a request that fits measures what is sent.\<close>

lemma fit_receipt_sent:
  assumes "fits (fit_request summarize messages tools llm key allow)"
  shows "fit_receipt (fit_request summarize messages tools llm key allow)
        = receipt_for (fit_messages (fit_request summarize messages tools llm key allow)) tools
            (context_budget_for (model_limits_for llm))"
    and "input_of (fit_receipt (fit_request summarize messages tools llm key allow))
        \<le> safe_input_budget (context_budget_for (model_limits_for llm))"
proof -
  from fit_request_fits [OF assms] obtain n where e: "fit_request summarize messages tools llm key allow =
      fit_candidate summarize tools (context_budget_for (model_limits_for llm)) key allow (pruned_of messages) n" by metis
  show "fit_receipt (fit_request summarize messages tools llm key allow)
        = receipt_for (fit_messages (fit_request summarize messages tools llm key allow)) tools
            (context_budget_for (model_limits_for llm))"
    "input_of (fit_receipt (fit_request summarize messages tools llm key allow))
        \<le> safe_input_budget (context_budget_for (model_limits_for llm))"
    using fit_candidate_fits [OF assms [unfolded e] trigger_le_budget] unfolding e by metis+
qed

text \<open>
  C24. A request that fits is remeasured as sent: its receipt is the measure of the returned
  messages and tools, is within the safe input budget, and together with the reserved
  output and the safety margin it stays inside the window of the model.
\<close>

theorem fit_request_within_window:
  assumes "fits (fit_request summarize messages tools llm key allow)"
  shows "fit_receipt (fit_request summarize messages tools llm key allow)
        = measure_request (fit_messages (fit_request summarize messages tools llm key allow)) tools llm
      \<and> input_of (fit_receipt (fit_request summarize messages tools llm key allow))
          \<le> safe_input_budget (context_budget_for (model_limits_for llm))
      \<and> (context_window (model_limits_for llm) < 2 \<or>
         input_of (fit_receipt (fit_request summarize messages tools llm key allow))
           + output_reserve (context_budget_for (model_limits_for llm))
           + safety_margin (context_budget_for (model_limits_for llm))
         \<le> min (context_window (model_limits_for llm)) 128000)"
  using fit_receipt_sent [OF assms] budget_sum [of "model_limits_for llm"]
  by (auto simp: measure_request_def not_less)

text \<open>
  C25. A request that fits carries the whole leading contract first and the whole active turn
  last, changed at most in the content of pruned tool results, and its request under
  execution is the one it was called with, whatever the summarizer returned.
\<close>

theorem fit_keeps_contract_and_active:
  assumes "fits (fit_request summarize messages tools llm key allow)"
    and "active_request messages = Some q"
  shows "\<exists>mid active. fit_messages (fit_request summarize messages tools llm key allow)
        = takeWhile is_system messages @ mid @ active
      \<and> list_all2 only_tools_differ (snd (snd (split_active_context messages))) active
      \<and> active_request (fit_messages (fit_request summarize messages tools llm key allow)) = Some q"
  using assms by (rule fit_frame)

subsection \<open>When a request is refused although it could be shortened\<close>

lemma estimate_positive: "conv \<noteq> [] \<Longrightarrow> 4 \<le> estimate_messages_tokens conv"
  by (cases conv) auto

text \<open>
  Recovery reserves the framing of the shortened conversation only.  It fails for a request
  whose protected part fits exactly when the conversation has more messages than that and its
  messages alone are within the message budget, so that nothing is shortened.
\<close>

lemma recovery_fails_only_in_gap:
  assumes s: "split_active_context c = (p, h, a)" and a: "a \<noteq> []"
    and fits: "input_of (receipt_for (p @ a) tools b) \<le> safe_input_budget b"
    and over: "safe_input_budget b < input_of (receipt_for c tools b)"
    and fails: "fst (recover_request tools b c) \<noteq> RECOVERED"
  shows "recover_request tools b c = (UNFIT_REQUEST, c) \<and> length (p @ a) + 2 < length c"
proof -
  define reserve where "reserve = 32 + 4 * (length (p @ a) + 2) + 8 * length (tool_list tools)"
  define mb where "mb = max 1 (safe_input_budget b - int (estimate_tool_schema_tokens tools) - int reserve)"
  let ?out = "trim_conversation_for_context_limit c mb"
  have ns: "list_ex (\<lambda>m. \<not> is_system m) (p @ mid @ a)" for mid
    using split_active_parts(3) [OF s] a by (cases a) (auto dest: request_not_system)
  have pa: "preserved_active_context c = p @ a" using s by (simp add: preserved_active_context_def)
  obtain mid where mid: "?out = p @ mid @ a" using trim_limit_frame [OF s] by blast
  then have nso: "list_ex (\<lambda>m. \<not> is_system m) ?out" using ns by metis
  have rr: "recover_request tools b c =
      (if input_of (receipt_for ?out tools b) \<le> safe_input_budget b then (RECOVERED, ?out) else (UNFIT_REQUEST, ?out))"
    unfolding recover_request_def Let_def pa reserve_def [symmetric] mb_def [symmetric] using nso by simp
  have small: "int (estimate_messages_tokens x) \<le> mb \<Longrightarrow> x \<noteq> [] \<Longrightarrow>
      int (estimate_messages_tokens x) + int (estimate_tool_schema_tokens tools) + int reserve
        \<le> safe_input_budget b" for x
    using estimate_positive [of x] unfolding mb_def by linarith
  show ?thesis
    using s
  proof (cases rule: trim_limit_shape [where budget = mb])
    case same
    then have "int (estimate_messages_tokens c) \<le> mb" by (auto simp: mb_def)
    moreover have "c \<noteq> []" using split_active_append [OF s] a by simp
    ultimately show ?thesis
      using small [of c] over same(1) rr
      by (auto simp: receipt_for_def Let_def reserve_def)
  next
    case bare
    then show ?thesis using fits fails rr by simp
  next
    case (tail t)
    then have "input_of (receipt_for ?out tools b) \<le> safe_input_budget b"
      using small [of ?out] by (simp add: receipt_for_def Let_def reserve_def)
    then show ?thesis using fails rr by simp
  qed
qed

definition gap_llm :: llm_object where
  "gap_llm = \<lparr>llm_limits = Some \<lparr>context_window = 500, context_window_declared = True,
                 max_output_tokens = 1, max_output_tokens_declared = True\<rparr>,
              llm_context_window = JNull, llm_context_window_declared = JNull,
              llm_max_output_tokens = JNull, llm_max_output_tokens_declared = JNull\<rparr>"

definition gap_messages :: conversation where
  "gap_messages = turn ''system'' ''s'' # replicate 11 (turn ''user'' ''a'')"

lemma gap_budget:
  "safe_input_budget (context_budget_for (model_limits_for gap_llm)) = 243"
  "compaction_trigger (context_budget_for (model_limits_for gap_llm)) = 206"
  by code_simp+

lemma prune_no_tools:
  "\<forall>m \<in> set conv. \<not> role_is ''tool'' m \<Longrightarrow> 0 < mn \<Longrightarrow> prune_tool_outputs th mn conv = (conv, 0)"
proof -
  have "\<forall>m \<in> set ms. \<not> role_is ''tool'' m \<Longrightarrow> snd (prune_walk th tot ms) = 0" for tot ms
    by (induction ms arbitrary: tot) (auto split: prod.splits, metis snd_conv)
  from this [of "rev conv" 0] show "\<forall>m \<in> set conv. \<not> role_is ''tool'' m \<Longrightarrow> 0 < mn \<Longrightarrow> ?thesis"
    by (auto simp: prune_tool_outputs_def split: prod.splits)
qed

lemma estimate_short_turns:
  "estimate_json (JObj (turn ''system'' ''s'')) = 11"
  "estimate_json (JObj (turn ''user'' ''a'')) = 10"
  unfolding estimate_json_def estimate_tokens_length length_turn length_quote
  by (simp_all add: escape_char_def code_def)

text \<open>
  Twelve short messages whose text is within the budget but whose framing is not are
  refused as unfit with no message dropped, although the contract and the request alone need
  69 of the 243 tokens.
\<close>

theorem framing_gap_refuses_request:
  "fit_status (fit_request summarize gap_messages None gap_llm None False) = UNFIT_REQUEST
   \<and> fit_messages (fit_request summarize gap_messages None gap_llm None False) = gap_messages
   \<and> estimated_input_tokens (measure_request (preserved_active_context gap_messages) None gap_llm) = 69
   \<and> safe_input_budget (context_budget_for (model_limits_for gap_llm)) = 243"
proof -
  have m: "takeWhile is_system gap_messages = [turn ''system'' ''s'']"
    "preserved_active_context gap_messages = [turn ''system'' ''s'', turn ''user'' ''a'']"
    "list_ex (\<lambda>m. \<not> is_system m) gap_messages"
    by code_simp+
  have e: "estimate_messages_tokens gap_messages = 169" "length gap_messages = 12"
    by (simp_all add: gap_messages_def estimate_short_turns eval_nat_numeral)
  have p: "prune_tool_outputs PRUNE_PROTECT_THRESHOLD_CHARS PRUNE_MIN_CHARS gap_messages = (gap_messages, 0)"
    by (rule prune_no_tools) (auto simp: gap_messages_def PRUNE_MIN_CHARS_def)
  have t: "trim_conversation_for_context_limit gap_messages 195 = gap_messages"
    by (simp add: trim_conversation_for_context_limit_def e)
  show ?thesis
    by (simp add: fit_request_def fit_candidate_def recover_request_def compact_candidate_def Let_def m p e t
        gap_budget receipt_for_def measure_request_def estimate_short_turns tool_list_def
        estimate_tool_schema_tokens_def)
qed

subsection \<open>Witnesses\<close>

definition small_request :: conversation where
  "small_request = [turn ''system'' ''s'', turn ''user'' ''a'']"

lemma small_request_fits: "fits (fit_request summarize small_request None gap_llm None True)"
proof -
  have m: "takeWhile is_system small_request = [turn ''system'' ''s'']"
    "preserved_active_context small_request = [turn ''system'' ''s'', turn ''user'' ''a'']"
    "list_ex (\<lambda>m. \<not> is_system m) small_request"
    by code_simp+
  have p: "prune_tool_outputs PRUNE_PROTECT_THRESHOLD_CHARS PRUNE_MIN_CHARS small_request = (small_request, 0)"
    by (rule prune_no_tools) (auto simp: small_request_def PRUNE_MIN_CHARS_def)
  have e: "estimate_messages_tokens small_request = 29" "length small_request = 2"
    by (simp_all add: small_request_def estimate_short_turns)
  show ?thesis
    by (simp add: fit_request_def fit_candidate_def Let_def m p e gap_budget receipt_for_def
        estimate_short_turns tool_list_def estimate_tool_schema_tokens_def)
qed

definition no_summary :: "conversation \<Rightarrow> string + summary_result" where
  "no_summary conv = Inl ''unavailable''"

theorem fit_request_within_window_witness:
  "fits (fit_request no_summary small_request None gap_llm None True)
   \<and> input_of (fit_receipt (fit_request no_summary small_request None gap_llm None True)) + 1 + 256 \<le> 500"
proof -
  have b: "output_reserve (context_budget_for (model_limits_for gap_llm)) = 1"
    "safety_margin (context_budget_for (model_limits_for gap_llm)) = 256"
    "context_window (model_limits_for gap_llm) = 500"
    by code_simp+
  show ?thesis
    using fit_request_within_window [OF small_request_fits [of no_summary], THEN conjunct2, THEN conjunct1]
      small_request_fits [of no_summary] b gap_budget(1) by linarith
qed

theorem fit_keeps_contract_and_active_witness:
  "fits (fit_request no_summary small_request None gap_llm None True)
   \<and> active_request small_request = Some (turn ''user'' ''a'')
   \<and> active_request (fit_messages (fit_request no_summary small_request None gap_llm None True))
       = Some (turn ''user'' ''a'')"
proof -
  have a: "active_request small_request = Some (turn ''user'' ''a'')" by code_simp
  show ?thesis
    using fit_keeps_contract_and_active [OF small_request_fits [of no_summary] a]
      small_request_fits [of no_summary] a by blast
qed

definition long_conversation :: conversation where
  "long_conversation = [turn ''system'' ''s'', turn ''user'' (replicate 600 CHR ''h''), turn ''user'' ''a'']"

lemma long_conversation_facts:
  "split_active_context long_conversation =
     ([turn ''system'' ''s''], [turn ''user'' (replicate 600 CHR ''h'')], [turn ''user'' ''a''])"
  "120 < int (estimate_messages_tokens long_conversation)"
  "int (estimate_messages_tokens (historical_candidate [turn ''system'' ''s'']
     (history_text [turn ''user'' (replicate 600 CHR ''h'')]) [turn ''user'' ''a''] 0)) \<le> 120"
proof -
  show "split_active_context long_conversation =
     ([turn ''system'' ''s''], [turn ''user'' (replicate 600 CHR ''h'')], [turn ''user'' ''a''])"
    using split_rebuild [of "[turn ''system'' ''s'']" "[turn ''user'' (replicate 600 CHR ''h'')]" "[turn ''user'' ''a'']"]
    by (simp add: long_conversation_def is_request_turn_def turn_def role_is_def dget_def
        starts_with_def RUNTIME_USER_NOTE_PREFIX_def)
  have "estimate_json (JObj (turn ''user'' (replicate 600 CHR ''h''))) = 210"
    unfolding estimate_json_def estimate_tokens_length length_turn length_quote
    by (simp add: escape_char_def code_def sum_list_replicate)
  then show "120 < int (estimate_messages_tokens long_conversation)"
    by (simp add: long_conversation_def)
  have "estimate_json (JObj recovery_ack) = 27"
    unfolding estimate_json_def recovery_ack_def estimate_tokens_length length_turn length_quote
    by (simp add: escape_char_def code_def)
  moreover have "estimate_json (JObj (turn ''user'' (recovered_history t 0))) \<le> 56" for t
    unfolding estimate_json_def recovered_history_def recovery_prefix_def last_chars_def
      estimate_tokens_length length_turn length_quote
    by (simp add: escape_char_def code_def)
  ultimately show "int (estimate_messages_tokens (historical_candidate [turn ''system'' ''s'']
     (history_text [turn ''user'' (replicate 600 CHR ''h'')]) [turn ''user'' ''a''] 0)) \<le> 120"
    by (simp add: historical_candidate_def estimate_short_turns)
qed

theorem shortening_keeps_longest_tail_witness:
  "120 < int (estimate_messages_tokens long_conversation)
   \<and> int (estimate_messages_tokens (trim_conversation_for_context_limit long_conversation 120)) \<le> 120"
proof -
  from shortening_keeps_longest_tail [OF long_conversation_facts(1), of 120] long_conversation_facts(2,3)
  show ?thesis by (auto split: if_splits)
qed

end
