(* ===== verification/Gate.thy ===== *)
theory Gate
  imports Approval
begin

text \<open>
  The gate framework of the pipelines, \<^verbatim>\<open>engine/execution/pipeline/gate.py\<close>: the result
  contract, its enforcement on whatever a content gate returns, and the gate that lets a
  language model verify an output behind a heuristic filter.  Content gates and the model are
  parameters over a world of any type \<open>'w\<close>: each takes the world and returns its answer, or
  an exception, with the next world.
\<close>

type_synonym py_exc = "string \<times> string"

datatype verdict = GPass | GFail | GRetry

fun verdict_value :: "verdict \<Rightarrow> string" where
  "verdict_value GPass = ''pass''"
| "verdict_value GFail = ''fail''"
| "verdict_value GRetry = ''retry''"

record gate_result =
  g_verdict :: verdict
  g_reason :: string
  g_retry_hint :: "string option"
  g_infra_failure :: bool

text \<open>
  What a gate may return: a \<^verbatim>\<open>GateResult\<close> whose fields nothing checks, a mapping or an object
  with the three attributes (absent ones are null).
\<close>

record gate_value =
  gv_is_result :: bool
  gv_verdict :: json
  gv_reason :: json
  gv_retry_hint :: json
  gv_infra_failure :: bool

definition coerce_gate_result :: "gate_value \<Rightarrow> py_exc + gate_result" where
  "coerce_gate_result v =
     (let infra_failure = gv_is_result v \<and> gv_infra_failure v;
          verdict = find (\<lambda>x. gv_verdict v = JStr (verdict_value x)) [GPass, GFail, GRetry]
      in case (verdict, gv_reason v) of
           (Some x, JStr reason) \<Rightarrow>
             (case gv_retry_hint v of
                JNull \<Rightarrow> Inr \<lparr>g_verdict = x, g_reason = reason, g_retry_hint = None,
                               g_infra_failure = infra_failure\<rparr>
              | JStr h \<Rightarrow> Inr \<lparr>g_verdict = x, g_reason = reason, g_retry_hint = Some h,
                                g_infra_failure = infra_failure\<rparr>
              | _ \<Rightarrow> Inl (''TypeError'', ''gate retry_hint must be a string when provided''))
         | _ \<Rightarrow> Inl (''TypeError'', ''gate must return verdict=pass|fail|retry and a string reason''))"

subsection \<open>What the model is shown\<close>

definition MAX_GATE_OUTPUT_CHARS :: nat where
  "MAX_GATE_OUTPUT_CHARS = 2000"

definition gate_output_marker :: string where
  "gate_output_marker = [CHR 0x0A] @ ''[... middle of output omitted from gate input ...]'' @ [CHR 0x0A]"

definition bounded_gate_output :: "string \<Rightarrow> string" where
  "bounded_gate_output output =
     (if length output \<le> MAX_GATE_OUTPUT_CHARS then output
      else
        let available = int MAX_GATE_OUTPUT_CHARS - int (length gate_output_marker)
        in if available \<le> 0 then take MAX_GATE_OUTPUT_CHARS output
           else
             let head = nat (available div 2); tail = nat (available - available div 2)
             in take head output @ gate_output_marker @ drop (length output - tail) output)"

text \<open>\<^verbatim>\<open>str.replace\<close> with a non-empty pattern.\<close>

function py_replace :: "string \<Rightarrow> string \<Rightarrow> string \<Rightarrow> string" where
  "py_replace old new t =
     (case t of
        [] \<Rightarrow> []
      | c # cs \<Rightarrow>
          if old \<noteq> [] \<and> starts_with old t then new @ py_replace old new (drop (length old) t)
          else c # py_replace old new cs)"
  by pat_completeness auto
termination by (relation "measure (\<lambda>(old, new, t). length t)") auto

declare py_replace.simps [simp del]

subsection \<open>Reading the reply\<close>

definition strip_chars :: "string \<Rightarrow> string \<Rightarrow> string" where
  "strip_chars cs t = rev (dropWhile (one_of cs) (rev (dropWhile (one_of cs) t)))"

definition rstrip_chars :: "string \<Rightarrow> string \<Rightarrow> string" where
  "rstrip_chars cs t = rev (dropWhile (one_of cs) (rev t))"

text \<open>
  \<^verbatim>\<open>str.upper\<close>: the sharp s becomes two letters.  The upper case of the micro sign and of the
  y with diaeresis lies outside the one-byte characters; like them it is a word character and
  no ASCII letter, so they are left alone.
\<close>

definition upper :: "string \<Rightarrow> string" where
  "upper t = concat (map (\<lambda>c. if code c = 223 then ''SS'' else [upper_char c]) t)"

text \<open>Of the punctuation that is stripped, the marks below code point 256.\<close>

definition normalized_llm_verdict :: "string \<Rightarrow> string" where
  "normalized_llm_verdict t =
     upper (rstrip_chars (''.!?:;'' @ [CHR 0x09, CHR 0x0D, CHR 0x0A]) (strip t))"

definition fail_word :: pattern where
  "fail_word = cats [WordEdge, lit ''FAIL'', WordEdge]"

definition fail_word_i :: pattern where
  "fail_word_i = cats [WordEdge, lit_i ''FAIL'', WordEdge]"

definition mentions_fail :: "string \<Rightarrow> bool" where
  "mentions_fail verdict \<longleftrightarrow> re_search fail_word verdict"

text \<open>The text after the last match of a pattern whose matches do not overlap.\<close>

fun tail_after_last :: "pattern \<Rightarrow> string \<Rightarrow> string \<Rightarrow> string option" where
  "tail_after_last p pre [] = None"
| "tail_after_last p pre (c # cs) =
     (case tail_after_last p (c # pre) cs of
        Some t \<Rightarrow> Some t
      | None \<Rightarrow> (case rmatch p pre (c # cs) of [] \<Rightarrow> None | (x, t, g) # _ \<Rightarrow> Some t))"

subsection \<open>The gate behind a language model\<close>

definition GATE_SYSTEM_PROMPT :: string where
  "GATE_SYSTEM_PROMPT = ''You are a quality gate. Evaluate the output and respond with ONLY ''
     @ [CHR 0x27] @ ''PASS'' @ [CHR 0x27] @ '' or '' @ [CHR 0x27] @ ''FAIL: <reason>'' @ [CHR 0x27]
     @ ''. Be strict.''"

type_synonym 'w gate_check = "'w \<Rightarrow> string \<Rightarrow> jdict \<Rightarrow> (py_exc + gate_value) \<times> 'w"
type_synonym 'w gate_chat = "'w \<Rightarrow> (string \<times> string) list \<Rightarrow> (py_exc + string) \<times> 'w"

definition gate_answer :: "verdict \<Rightarrow> string \<Rightarrow> string option \<Rightarrow> bool \<Rightarrow> gate_result" where
  "gate_answer v reason hint infra =
     \<lparr>g_verdict = v, g_reason = reason, g_retry_hint = hint, g_infra_failure = infra\<rparr>"

definition judge_reply :: "string \<Rightarrow> gate_result" where
  "judge_reply reply =
     (let t = strip reply; verdict = normalized_llm_verdict t
      in if mentions_fail verdict
         then
           let tail = (case tail_after_last fail_word_i [] t of None \<Rightarrow> [] | Some u \<Rightarrow> u);
               stripped = strip_chars ('':- '' @ [CHR 0x09, CHR 0x0D, CHR 0x0A]) tail;
               reason = (if stripped = [] then ''gate rejected the output'' else stripped)
           in gate_answer GFail (''LLM verification: '' @ reason) (Some reason) False
         else if starts_with ''PASS'' verdict
         then gate_answer GPass ''LLM verification passed'' None False
         else gate_answer GFail ''LLM verification returned an invalid verdict''
                (Some ''Retry the semantic verification.'') False)"

definition llm_gate_check ::
    "'w gate_check \<Rightarrow> string \<Rightarrow> 'w gate_chat option \<Rightarrow> 'w \<Rightarrow> string \<Rightarrow> jdict \<Rightarrow> (py_exc + gate_result) \<times> 'w" where
  "llm_gate_check inner prompt_template llm w output ctx =
     (let (v, w1) = inner w output ctx in
      case bind_res v coerce_gate_result of
        Inl e \<Rightarrow> (Inl e, w1)
      | Inr result \<Rightarrow>
          if g_verdict result = GFail then (Inr result, w1)
          else case llm of
            None \<Rightarrow> (Inr (gate_answer GFail ''LLM verification unavailable''
                       (Some ''Retry after the gate LLM becomes available.'') True), w1)
          | Some chat \<Rightarrow>
              let template = py_replace ''{output}'' (bounded_gate_output output) prompt_template;
                  (reply, w2) = chat w1 [(''system'', GATE_SYSTEM_PROMPT), (''user'', template)]
              in case reply of
                   Inl _ \<Rightarrow> (Inr (gate_answer GFail ''LLM verification failed''
                              (Some ''Retry after the gate LLM becomes available.'') True), w2)
                 | Inr t \<Rightarrow> (Inr (judge_reply t), w2))"

text \<open>A gate of a pipeline node: a content gate, or one wrapped for a language model.\<close>

datatype 'w gate = PlainGate "'w gate_check" | LLMGate "'w gate_check" string

text \<open>\<open>gate.check\<close> after \<open>set_llm\<close>, coerced.\<close>

definition run_gate :: "'w gate_chat \<Rightarrow> 'w gate \<Rightarrow> 'w \<Rightarrow> string \<Rightarrow> jdict \<Rightarrow> (py_exc + gate_result) \<times> 'w" where
  "run_gate chat g w output ctx =
     (case g of
        PlainGate check \<Rightarrow> (let (v, w1) = check w output ctx in (bind_res v coerce_gate_result, w1))
      | LLMGate inner prompt_template \<Rightarrow> llm_gate_check inner prompt_template (Some chat) w output ctx)"

end
