(* ===== verification/Skill_Chain.thy ===== *)
theory Skill_Chain
  imports Gate
begin

text \<open>
  The chain of a pipeline, \<^verbatim>\<open>engine/execution/pipeline/skill_chain.py\<close>: its nodes, and the
  validation that turns a decoded pipeline file into a chain.  The YAML reader is a parameter:
  a file is the value it decodes to, or nothing when it cannot be read.  The gates and the
  conditions come from the registries loaded from the content directories.
\<close>

record 'w skill_node =
  skill_name :: string
  node_gate :: "'w gate"
  node_condition :: "(jdict \<Rightarrow> py_exc + bool) option"
  node_instructions :: string
  await_user_input_marker :: "string option"
  infer_await_user_input_from_question :: bool
  allowed_tools :: "string list option"

record 'w skill_chain =
  chain_nodes :: "'w skill_node list"
  backtrack_map :: jdict
  base_gates :: "'w gate list"

text \<open>What a gate factory of the content registry makes: the check and its \<^verbatim>\<open>llm_prompt\<close>.\<close>

record 'w content_gate =
  cg_check :: "'w gate_check"
  cg_llm_prompt :: json

record 'w gate_content =
  content_gates :: "(string, 'w content_gate) dict"
  content_conditions :: "(string, jdict \<Rightarrow> py_exc + bool) dict"

datatype chain_error =
    StepNotMapping nat
  | BadSkill nat
  | BadGate nat
  | UnknownGate string
  | BadCondition nat
  | UnknownCondition string
  | BadInstructions nat
  | BadAwaitMarker nat
  | BadInferQuestion nat
  | InferNeedsMarker nat
  | BadAllowedTools nat
  | DuplicateAllowedTools nat
  | BadBaseGates
  | BadBacktrack

definition resolve_gate :: "'w gate_content \<Rightarrow> string \<Rightarrow> chain_error + 'w gate" where
  "resolve_gate content gate_key =
     (case map_of (content_gates content) gate_key of
        None \<Rightarrow> Inl (UnknownGate gate_key)
      | Some g \<Rightarrow>
          (case cg_llm_prompt g of
             JStr p \<Rightarrow> Inr (if p \<noteq> [] then LLMGate (cg_check g) p else PlainGate (cg_check g))
           | _ \<Rightarrow> Inr (PlainGate (cg_check g))))"

text \<open>The checks of one step, in the order of the code.\<close>

definition nonempty_text :: "chain_error \<Rightarrow> json \<Rightarrow> chain_error + string" where
  "nonempty_text e v = (case v of JStr s \<Rightarrow> if s = [] then Inl e else Inr s | _ \<Rightarrow> Inl e)"

definition step_condition ::
    "'w gate_content \<Rightarrow> nat \<Rightarrow> json \<Rightarrow> chain_error + (jdict \<Rightarrow> py_exc + bool) option" where
  "step_condition content index v =
     (if v = JNull then Inr None
      else bind_res (nonempty_text (BadCondition index) v) (\<lambda>key.
        case map_of (content_conditions content) key of
          None \<Rightarrow> Inl (UnknownCondition key) | Some c \<Rightarrow> Inr (Some c)))"

definition step_allowed_tools :: "nat \<Rightarrow> json \<Rightarrow> chain_error + string list option" where
  "step_allowed_tools index v =
     (if v = JNull then Inr None
      else case v of
        JArr vs \<Rightarrow>
          if \<not> list_all (\<lambda>x. case x of JStr s \<Rightarrow> s \<noteq> [] | _ \<Rightarrow> False) vs then Inl (BadAllowedTools index)
          else if \<not> distinct vs then Inl (DuplicateAllowedTools index)
          else Inr (Some (map py_str vs))
      | _ \<Rightarrow> Inl (BadAllowedTools index))"

definition parse_step :: "'w gate_content \<Rightarrow> nat \<Rightarrow> json \<Rightarrow> chain_error + 'w skill_node" where
  "parse_step content index step =
     (case step of
        JObj d \<Rightarrow>
          bind_res (nonempty_text (BadSkill index) (dget d ''skill'')) (\<lambda>skill.
          bind_res (nonempty_text (BadGate index)
              (case map_of d ''gate'' of None \<Rightarrow> JStr ''rubric'' | Some v \<Rightarrow> v)) (\<lambda>gate_key.
          bind_res (resolve_gate content gate_key) (\<lambda>gate.
          bind_res (step_condition content index (dget d ''condition'')) (\<lambda>condition.
          bind_res (case map_of d ''instructions'' of
              None \<Rightarrow> Inr [] | Some (JStr s) \<Rightarrow> Inr s | _ \<Rightarrow> Inl (BadInstructions index)) (\<lambda>instructions.
          bind_res (case dget d ''await_user_input_marker'' of
              JNull \<Rightarrow> Inr None
            | v \<Rightarrow> bind_res (nonempty_text (BadAwaitMarker index) v) (\<lambda>s. Inr (Some s))) (\<lambda>await_marker.
          bind_res (case map_of d ''infer_await_user_input_from_question'' of
              None \<Rightarrow> Inr False | Some (JBool b) \<Rightarrow> Inr b | _ \<Rightarrow> Inl (BadInferQuestion index)) (\<lambda>infer.
          if infer \<and> await_marker = None then Inl (InferNeedsMarker index)
          else bind_res (step_allowed_tools index (dget d ''allowed_tools'')) (\<lambda>tools.
            Inr \<lparr>skill_name = skill, node_gate = gate, node_condition = condition,
                 node_instructions = strip instructions, await_user_input_marker = await_marker,
                 infer_await_user_input_from_question = infer, allowed_tools = tools\<rparr>))))))))
      | _ \<Rightarrow> Inl (StepNotMapping index))"

fun parse_steps :: "'w gate_content \<Rightarrow> nat \<Rightarrow> json list \<Rightarrow> chain_error + 'w skill_node list" where
  "parse_steps content index [] = Inr []"
| "parse_steps content index (step # steps) =
     bind_res (parse_step content index step) (\<lambda>node.
       bind_res (parse_steps content (Suc index) steps) (\<lambda>nodes. Inr (node # nodes)))"

fun resolve_base_gates :: "'w gate_content \<Rightarrow> json list \<Rightarrow> chain_error + 'w gate list" where
  "resolve_base_gates content [] = Inr []"
| "resolve_base_gates content (v # vs) =
     (case v of
        JStr key \<Rightarrow>
          bind_res (resolve_gate content key) (\<lambda>g.
            bind_res (resolve_base_gates content vs) (\<lambda>gs. Inr (g # gs)))
      | _ \<Rightarrow> Inl BadBaseGates)"

definition parse_base_gates :: "'w gate_content \<Rightarrow> jdict \<Rightarrow> chain_error + 'w gate list" where
  "parse_base_gates content d =
     (case (case map_of d ''base_gates'' of Some v \<Rightarrow> v | None \<Rightarrow> dget d ''base_gate'') of
        JNull \<Rightarrow> Inr []
      | JStr s \<Rightarrow> resolve_base_gates content [JStr s]
      | JArr vs \<Rightarrow> resolve_base_gates content vs
      | _ \<Rightarrow> Inl BadBaseGates)"

text \<open>\<open>from_yaml\<close> on what the reader decoded; \<open>None\<close> is the code's \<^verbatim>\<open>None\<close>.\<close>

definition from_yaml :: "'w gate_content \<Rightarrow> json option \<Rightarrow> chain_error + 'w skill_chain option" where
  "from_yaml content doc =
     (case doc of
        Some (JObj d) \<Rightarrow>
          (case dget d ''steps'' of
             JArr (s # ss) \<Rightarrow>
               bind_res (parse_steps content 0 (s # ss)) (\<lambda>nodes.
               bind_res (parse_base_gates content d) (\<lambda>base.
               case dget d ''backtrack'' of
                 JNull \<Rightarrow> Inr (Some \<lparr>chain_nodes = nodes, backtrack_map = [], base_gates = base\<rparr>)
               | JObj b \<Rightarrow> Inr (Some \<lparr>chain_nodes = nodes, backtrack_map = b, base_gates = base\<rparr>)
               | _ \<Rightarrow> Inl BadBacktrack))
           | _ \<Rightarrow> Inr None)
      | _ \<Rightarrow> Inr None)"

definition route_of :: "string \<Rightarrow> json option \<Rightarrow> string" where
  "route_of stem doc =
     (case doc of
        Some (JObj d) \<Rightarrow>
          (case map_of d ''route'' of Some (JStr r) \<Rightarrow> if r = [] then stem else r | _ \<Rightarrow> stem)
      | _ \<Rightarrow> stem)"

text \<open>\<open>load_pipelines\<close>: the files in order, each with its stem; a later route replaces an earlier one.\<close>

fun load_pipelines_from ::
    "'w gate_content \<Rightarrow> (string, 'w skill_chain) dict \<Rightarrow> (string \<times> json option) list
     \<Rightarrow> chain_error + (string, 'w skill_chain) dict" where
  "load_pipelines_from content loaded [] = Inr loaded"
| "load_pipelines_from content loaded ((stem, doc) # files) =
     bind_res (from_yaml content doc) (\<lambda>c.
       load_pipelines_from content
         (case c of None \<Rightarrow> loaded | Some c2 \<Rightarrow> dset (route_of stem doc) c2 loaded) files)"

definition load_pipelines ::
    "'w gate_content \<Rightarrow> (string \<times> json option) list \<Rightarrow> chain_error + (string, 'w skill_chain) dict" where
  "load_pipelines content files = load_pipelines_from content [] files"

subsection \<open>Topology\<close>

datatype topology_error = DuplicateSkill string | UnknownSource string | ForwardTarget string | UnhashableTarget

fun index_nodes :: "nat \<Rightarrow> (string, nat) dict \<Rightarrow> string list \<Rightarrow> topology_error + (string, nat) dict" where
  "index_nodes index known [] = Inr known"
| "index_nodes index known (name # names) =
     (if map_of known name \<noteq> None then Inl (DuplicateSkill name)
      else index_nodes (Suc index) (dset name index known) names)"

text \<open>\<open>index_by_name.get(target)\<close>: a list or a mapping is no key.\<close>

definition target_index :: "(string, nat) dict \<Rightarrow> json \<Rightarrow> topology_error + nat option" where
  "target_index index_by_name target =
     (case target of
        JStr t \<Rightarrow> Inr (map_of index_by_name t)
      | JArr _ \<Rightarrow> Inl UnhashableTarget
      | JObj _ \<Rightarrow> Inl UnhashableTarget
      | _ \<Rightarrow> Inr None)"

fun check_backtracks :: "(string, nat) dict \<Rightarrow> jdict \<Rightarrow> topology_error + unit" where
  "check_backtracks index_by_name [] = Inr ()"
| "check_backtracks index_by_name ((source, target) # rest) =
     (case map_of index_by_name source of
        None \<Rightarrow> Inl (UnknownSource source)
      | Some source_idx \<Rightarrow>
          bind_res (target_index index_by_name target) (\<lambda>t.
            case t of
              None \<Rightarrow> check_backtracks index_by_name rest
            | Some target_idx \<Rightarrow>
                if source_idx \<le> target_idx then Inl (ForwardTarget source)
                else check_backtracks index_by_name rest))"

definition validate_chain_topology :: "'w skill_chain \<Rightarrow> topology_error + (string, nat) dict" where
  "validate_chain_topology chain =
     bind_res (index_nodes 0 [] (map skill_name (chain_nodes chain))) (\<lambda>index_by_name.
       bind_res (check_backtracks index_by_name (backtrack_map chain)) (\<lambda>_. Inr index_by_name))"

end
