(* ===== verification/Json_Pretty.thy ===== *)
theory Json_Pretty
  imports Json
begin

text \<open>
  \<^verbatim>\<open>json.dumps(value, ensure_ascii=False, indent=2)\<close>: members in insertion order, one per line.
  Reading the text gives back the very value, with the order of its members.
\<close>

definition line_break :: "nat \<Rightarrow> string" where
  "line_break level = CHR 0x0A # replicate (2 * level) CHR '' ''"

fun dumps_indent :: "nat \<Rightarrow> json \<Rightarrow> string" where
  "dumps_indent level (JArr vs) =
     (if vs = [] then ''[]''
      else ''['' @ sepby CHR '','' (map (\<lambda>v. line_break (Suc level) @ dumps_indent (Suc level) v) vs)
             @ line_break level @ '']'')"
| "dumps_indent level (JObj kvs) =
     (if kvs = [] then ''{}''
      else ''{'' @ sepby CHR '','' (map (\<lambda>(k, v). line_break (Suc level) @ quote k @ '': ''
                                          @ dumps_indent (Suc level) v) kvs)
             @ line_break level @ ''}'')"
| "dumps_indent level v = canonical_json v"

fun plain_toks :: "json \<Rightarrow> token list" where
  "plain_toks (JArr vs) = TLBrack # sepby TComma (map plain_toks vs) @ [TRBrack]"
| "plain_toks (JObj kvs) =
     TLBrace # sepby TComma (map (\<lambda>(k, v). TStr k # TColon # plain_toks v) kvs) @ [TRBrace]"
| "plain_toks v = toks v"

subsection \<open>Characters to tokens\<close>

lemma scan_skip_ws: "list_all json_ws ws \<Longrightarrow> scan LStart (ws @ rest) = scan LStart rest"
proof (induction ws)
  case (Cons c cs)
  then have "punct c = None" by (cases "punct c") (auto dest: punct_not_ws)
  with Cons show ?case by simp
qed simp

lemma line_break_ws [simp]: "list_all json_ws (line_break level)"
  by (simp add: line_break_def json_ws_def code_def list_all_length nth_Cons')

lemma delim_line_break [simp]: "delim (line_break level @ rest)"
  by (simp add: line_break_def delim_def json_ws_def code_def)

lemma reads_after_break: "reads t ts \<Longrightarrow> reads (line_break level @ t) ts"
  by (simp add: reads_def scan_skip_ws)

lemma reads_pretty_member:
  assumes "reads t ts"
  shows "reads (quote k @ '': '' @ t) (TStr k # TColon # ts)"
proof -
  have "scan LStart (CHR '' '' # t @ rest) = scan LStart (t @ rest)" for rest
    using scan_skip_ws [of "'' ''" "t @ rest"] by (simp add: json_ws_def code_def)
  with assms show ?thesis
    by (auto simp: reads_def readsD [OF reads_quote] option.map_comp comp_def)
qed

lemma reads_pretty_bracket:
  assumes "list_all2 reads xs tss"
  shows "reads (''['' @ sepby CHR '','' xs @ line_break level @ '']'') (TLBrack # sepby TComma tss @ [TRBrack])"
    and "reads (''{'' @ sepby CHR '','' xs @ line_break level @ ''}'') (TLBrace # sepby TComma tss @ [TRBrace])"
  by (auto simp: reads_def lex_sepby [OF assms] scan_skip_ws option.map_comp comp_def)

lemma reads_dumps_indent: "wf_json v \<Longrightarrow> reads (dumps_indent level v) (plain_toks v)"
proof (induction v arbitrary: level)
  case (JArr vs)
  have empty: "reads ''[]'' [TLBrack, TRBrack]"
    by (auto simp: reads_def option.map_comp comp_def)
  have "list_all2 reads (map (\<lambda>v. line_break (Suc level) @ dumps_indent (Suc level) v) vs) (map plain_toks vs)"
    using JArr by (simp add: list_all2_map1 list_all2_map2 list_all2_same reads_after_break)
  from reads_pretty_bracket(1) [OF this] empty show ?case by simp
next
  case (JObj kvs)
  have empty: "reads ''{}'' [TLBrace, TRBrace]"
    by (auto simp: reads_def option.map_comp comp_def)
  have "reads (dumps_indent (Suc level) v) (plain_toks v)" if "(k, v) \<in> set kvs" for k v
    using JObj that by fastforce
  then have "list_all2 reads (map (\<lambda>(k, v). line_break (Suc level) @ quote k @ '': '' @ dumps_indent (Suc level) v) kvs)
      (map (\<lambda>(k, v). TStr k # TColon # plain_toks v) kvs)"
    by (auto simp only: list_all2_map1 list_all2_map2 list_all2_same split_beta fst_conv snd_conv
        intro!: reads_after_break reads_pretty_member)
  from reads_pretty_bracket(2) [OF this] empty show ?case by simp
qed (simp_all only: dumps_indent.simps plain_toks.simps reads_canonical)

subsection \<open>Tokens to the value\<close>

lemma plain_toks_Cons: "\<exists>t ts. plain_toks v = t # ts \<and> t \<noteq> TRBrack"
  by (cases v) auto

lemma parse_plain_toks: "wf_json v \<Longrightarrow> parse PVal stk (plain_toks v @ ts) = parse (PHave v) stk ts"
proof (induction v arbitrary: stk ts)
  case (JArr vs)
  show ?case
  proof (cases "vs = []")
    case True
    then show ?thesis by simp
  next
    case False
    then obtain w ws where vs: "vs = w # ws" by (cases vs) auto
    have "\<exists>r. sepby TComma (map plain_toks vs) @ TRBrack # ts = plain_toks w @ r"
      unfolding vs by (cases ws) auto
    with JArr False show ?thesis
      using parse_array [of vs plain_toks "\<lambda>v. v" "[]" stk ts] parse_ValOrClose [OF plain_toks_Cons [of w]]
      by (auto simp del: parse.simps simp: parse.simps(2) [of PVal stk TLBrack])
  qed
next
  case (JObj kvs)
  have wf: "distinct (map fst kvs)" using JObj.prems by simp
  have members: "parse PVal stk (plain_toks v @ ts) = parse (PHave v) stk ts"
    if "(k, v) \<in> set kvs" for k v stk ts
    using JObj.IH [of "(k, v)" v] JObj.prems that by auto
  show ?case
  proof (cases "kvs = []")
    case False
    have "parse PVal stk (plain_toks (JObj kvs) @ ts) = parse PKeyOrClose stk
        (sepby TComma (map (\<lambda>(k, v). TStr k # TColon # plain_toks v) kvs) @ TRBrace # ts)"
      by (simp add: parse.simps(2) [of PVal] del: parse.simps)
    also have "\<dots> = parse (PHave (JObj ([] @ map (\<lambda>(k, v). (k, v)) kvs))) stk ts"
      using parse_KeyOrClose [OF False, of stk plain_toks]
        parse_object [of kvs plain_toks "\<lambda>v. v", OF members False wf, where d = "[]"] by simp
    finally show ?thesis by simp
  qed simp
qed (auto simp del: parse.simps simp: parse.simps(2) [of PVal])

theorem loads_dumps_indent: "wf_json v \<Longrightarrow> loads (dumps_indent level v) = Some v"
  using readsD [OF reads_dumps_indent [of v level], of "[]"] parse_plain_toks [of v "[]" "[]"]
  by (simp add: loads_def)

end
