(* ===== verification/Checkpoint.thy ===== *)
theory Checkpoint
  imports Run_State Json_Pretty
begin

text \<open>
  The session checkpoint of a pipeline, \<^verbatim>\<open>engine/execution/pipeline/checkpoint.py\<close>, the keys of
  the pipeline context (\<^verbatim>\<open>pipeline_context.py\<close>), and the decision to resume from a checkpoint
  (\<^verbatim>\<open>engine/execution/orchestration/agent_loop.py\<close>).  The state directory of an agent is a
  dictionary from file stems to contents; symbolic links and file modes are not modelled.  The
  fields of a checkpoint hold decoded JSON values, as a restored file may hold any.
\<close>

subsection \<open>The context keys\<close>

definition CTX_USER_MESSAGE :: string where "CTX_USER_MESSAGE = ''user_message''"
definition CTX_IDENTITY_ID :: string where "CTX_IDENTITY_ID = ''identity_id''"
definition CTX_ROUTE_ID :: string where "CTX_ROUTE_ID = ''route_id''"
definition CTX_AGENT_ID :: string where "CTX_AGENT_ID = ''agent_id''"
definition CTX_SESSION_ID :: string where "CTX_SESSION_ID = ''session_id''"
definition CTX_TASK_TYPE :: string where "CTX_TASK_TYPE = ''task_type''"
definition CTX_FORCED_SKILL :: string where "CTX_FORCED_SKILL = ''forced_skill''"
definition CTX_CHAIN_REQUEST :: string where "CTX_CHAIN_REQUEST = ''chain_request''"
definition CTX_USER_RESPONSE :: string where "CTX_USER_RESPONSE = ''user_response''"
definition CTX_STATE_DIR :: string where "CTX_STATE_DIR = ''_state_dir''"
definition CTX_WORKING_DIR :: string where "CTX_WORKING_DIR = ''_working_dir''"
definition CTX_RETRY_HINT :: string where "CTX_RETRY_HINT = ''_rubric_retry_hint''"
definition CTX_RUN_ID :: string where "CTX_RUN_ID = ''_run_id''"
definition CTX_RUBRIC_FEEDBACK :: string where "CTX_RUBRIC_FEEDBACK = ''rubric_feedback''"
definition CTX_PROVISIONAL_OUTPUTS :: string where
  "CTX_PROVISIONAL_OUTPUTS = ''_committed_provisional_output''"

lemmas ctx_keys = CTX_USER_MESSAGE_def CTX_IDENTITY_ID_def CTX_ROUTE_ID_def CTX_AGENT_ID_def
  CTX_SESSION_ID_def CTX_TASK_TYPE_def CTX_FORCED_SKILL_def CTX_CHAIN_REQUEST_def
  CTX_USER_RESPONSE_def CTX_STATE_DIR_def CTX_WORKING_DIR_def CTX_RETRY_HINT_def CTX_RUN_ID_def
  CTX_RUBRIC_FEEDBACK_def CTX_PROVISIONAL_OUTPUTS_def

definition output_key :: "string \<Rightarrow> string" where
  "output_key skill_name = skill_name @ ''_output''"

text \<open>\<^verbatim>\<open>str(context.get(key) or "")\<close>\<close>

definition ctx_str :: "jdict \<Rightarrow> string \<Rightarrow> string" where
  "ctx_str ctx key = str_or (dget ctx key) []"

subsection \<open>The checkpoint\<close>

record checkpoint =
  ck_agent_id :: json
  ck_session_id :: json
  ck_identity_id :: json
  ck_route_id :: json
  ck_skill_chain_index :: json
  ck_context :: json
  ck_timestamp :: json
  ck_working_dir :: json
  ck_run_id :: json
  ck_awaiting_user_input :: json
  ck_provisional_outputs :: json
  ck_node_skill :: json

definition ck_to_dict :: "checkpoint \<Rightarrow> jdict" where
  "ck_to_dict c =
     [(''agent_id'', ck_agent_id c), (''session_id'', ck_session_id c),
      (''identity_id'', ck_identity_id c), (''route_id'', ck_route_id c),
      (''skill_chain_index'', ck_skill_chain_index c), (''context'', ck_context c),
      (''timestamp'', ck_timestamp c), (''working_dir'', ck_working_dir c),
      (''run_id'', ck_run_id c), (''awaiting_user_input'', ck_awaiting_user_input c),
      (''provisional_outputs'', ck_provisional_outputs c), (''node_skill'', ck_node_skill c)]"

definition CK_REQUIRED :: "string list" where
  "CK_REQUIRED = [''agent_id'', ''session_id'', ''identity_id'', ''route_id'', ''skill_chain_index'',
     ''context'', ''timestamp'']"

definition CK_OPTIONAL :: "string list" where
  "CK_OPTIONAL = [''working_dir'', ''run_id'', ''awaiting_user_input'', ''provisional_outputs'',
     ''node_skill'']"

text \<open>\<^verbatim>\<open>cls(**d)\<close>: \<open>None\<close> for the \<^verbatim>\<open>TypeError\<close> of an unknown or a missing field.\<close>

definition ck_from_dict :: "jdict \<Rightarrow> checkpoint option" where
  "ck_from_dict d =
     (let opt = (\<lambda>k v. case map_of d k of None \<Rightarrow> v | Some x \<Rightarrow> x) in
      if list_ex (\<lambda>k. k \<notin> set (CK_REQUIRED @ CK_OPTIONAL)) (dkeys d)
         \<or> list_ex (\<lambda>k. k \<notin> set (dkeys d)) CK_REQUIRED
      then None
      else Some \<lparr>ck_agent_id = dget d ''agent_id'', ck_session_id = dget d ''session_id'',
        ck_identity_id = dget d ''identity_id'', ck_route_id = dget d ''route_id'',
        ck_skill_chain_index = dget d ''skill_chain_index'', ck_context = dget d ''context'',
        ck_timestamp = dget d ''timestamp'', ck_working_dir = opt ''working_dir'' (JStr []),
        ck_run_id = opt ''run_id'' (JStr []),
        ck_awaiting_user_input = opt ''awaiting_user_input'' (JBool False),
        ck_provisional_outputs = opt ''provisional_outputs'' (JObj []),
        ck_node_skill = opt ''node_skill'' (JStr [])\<rparr>)"

subsection \<open>The session state manager\<close>

datatype ck_exc = CkValueError | CkUnicodeError | CkOSError | CkTypeError | CkAttributeError

type_synonym ck_files = "(string, file_body) dict"

definition session_char :: "char \<Rightarrow> bool" where
  "session_char c \<longleftrightarrow> is_digit c \<or> (65 \<le> code c \<and> code c \<le> 90) \<or> (97 \<le> code c \<and> code c \<le> 122)
     \<or> c = CHR ''_'' \<or> c = CHR ''-''"

text \<open>
  \<open>re.match(^[A-Za-z0-9_-]{1,64}$)\<close>; the dollar sign also matches before a final newline.
\<close>

definition SESSION_ID_RE :: "string \<Rightarrow> bool" where
  "SESSION_ID_RE s \<longleftrightarrow>
     (let body = (if s \<noteq> [] \<and> last s = CHR 0x0A then butlast s else s)
      in list_all session_char body \<and> 1 \<le> length body \<and> length body \<le> 64)"

definition ck_save :: "save_answer \<Rightarrow> checkpoint \<Rightarrow> ck_files \<Rightarrow> (ck_exc + unit) \<times> ck_files" where
  "ck_save ans c fs =
     (let sid = py_str (ck_session_id c);
          fs' = dset sid (FText (dumps_indent 0 (JObj (ck_to_dict c)))) fs
      in if \<not> SESSION_ID_RE sid then (Inl CkValueError, fs)
         else case ans of
           SaveOk \<Rightarrow> (Inr (), fs')
         | SaveFails \<Rightarrow> (Inl CkOSError, fs)
         | SaveFailsAfterRename \<Rightarrow> (Inl CkOSError, fs'))"

definition ck_restore :: "string \<Rightarrow> ck_files \<Rightarrow> ck_exc + checkpoint option" where
  "ck_restore sid fs =
     (if \<not> SESSION_ID_RE sid then Inr None
      else case map_of fs sid of
        None \<Rightarrow> Inr None
      | Some FUnreadable \<Rightarrow> Inl CkOSError
      | Some FBadUtf8 \<Rightarrow> Inl CkUnicodeError
      | Some (FText t) \<Rightarrow>
          (case loads t of Some (JObj d) \<Rightarrow> Inr (ck_from_dict d) | _ \<Rightarrow> Inr None))"

definition ck_clear :: "string \<Rightarrow> ck_files \<Rightarrow> (ck_exc + unit) \<times> ck_files" where
  "ck_clear sid fs =
     (if \<not> SESSION_ID_RE sid then (Inl CkValueError, fs)
      else (Inr (), AList.delete sid fs))"

fun list_active_from :: "string list \<Rightarrow> ck_files \<Rightarrow> ck_exc + checkpoint list" where
  "list_active_from [] fs = Inr []"
| "list_active_from (stem # stems) fs =
     bind_res (ck_restore stem fs) (\<lambda>c.
       bind_res (list_active_from stems fs) (\<lambda>cs.
         Inr (case c of None \<Rightarrow> cs | Some cp \<Rightarrow> cp # cs)))"

definition list_active :: "ck_files \<Rightarrow> ck_exc + checkpoint list" where
  "list_active fs = list_active_from (dkeys fs) fs"

subsection \<open>Resuming\<close>

text \<open>Both stores lie below the same state directory.\<close>

definition checkpoint_owner_still_running :: "clock \<Rightarrow> run_store \<Rightarrow> string \<Rightarrow> string \<Rightarrow> bool" where
  "checkpoint_owner_still_running clk runs owner_run_id current_run_id =
     (if owner_run_id = [] \<or> owner_run_id = current_run_id then False
      else case get clk owner_run_id runs of
        Inl _ \<Rightarrow> True
      | Inr None \<Rightarrow> False
      | Inr (Some s) \<Rightarrow> status s \<in> {QUEUED, RUNNING, WAITING_APPROVAL})"

text \<open>An identifier that is no text makes the look-up raise, which counts as a live owner.\<close>

definition owner_live :: "clock \<Rightarrow> run_store \<Rightarrow> checkpoint \<Rightarrow> string \<Rightarrow> bool" where
  "owner_live clk runs c current_run_id =
     (case ck_run_id c of
        JStr owner \<Rightarrow> checkpoint_owner_still_running clk runs owner current_run_id
      | _ \<Rightarrow> True)"

text \<open>
  \<open>0 <= index < len(node_skills)\<close> on a decoded value; comparing a text, a list or null with a
  number raises.  A fractional index is taken to raise as well.
\<close>

definition chain_index :: "json \<Rightarrow> ck_exc + int" where
  "chain_index v = (case v of
      JInt i \<Rightarrow> Inr i
    | JBool b \<Rightarrow> Inr (if b then 1 else 0)
    | _ \<Rightarrow> Inl CkTypeError)"

definition resume_node_still_matches :: "checkpoint \<Rightarrow> string list \<Rightarrow> ck_exc + bool" where
  "resume_node_still_matches c node_skills =
     bind_res (chain_index (ck_skill_chain_index c)) (\<lambda>index.
       if \<not> (0 \<le> index \<and> index < int (length node_skills)) then Inr False
       else Inr (\<not> truthy (ck_node_skill c)
                 \<or> ck_node_skill c = JStr (node_skills ! nat index)))"

text \<open>\<open>{**a, **b}\<close>, and \<open>dict(value)\<close> of a restored value (a list of pairs is taken to raise).\<close>

definition dict_merge :: "jdict \<Rightarrow> jdict \<Rightarrow> jdict" where
  "dict_merge a b = foldl (\<lambda>d (k, v). dset k v d) a b"

definition as_dict :: "json \<Rightarrow> ck_exc + jdict" where
  "as_dict v = (case v of
      JObj d \<Rightarrow> Inr d
    | JArr [] \<Rightarrow> Inr []
    | JStr [] \<Rightarrow> Inr []
    | _ \<Rightarrow> Inl CkTypeError)"

definition ck_context_get :: "checkpoint \<Rightarrow> ck_exc + jdict" where
  "ck_context_get c = (case ck_context c of JObj d \<Rightarrow> Inr d | _ \<Rightarrow> Inl CkAttributeError)"

definition same_scope :: "jdict \<Rightarrow> string \<Rightarrow> string list \<Rightarrow> checkpoint \<Rightarrow> ck_exc + bool" where
  "same_scope ctx route_id node_skills c =
     (let agent = ctx_str ctx CTX_AGENT_ID; identity = ctx_str ctx CTX_IDENTITY_ID;
          wd = ctx_str ctx CTX_WORKING_DIR
      in if agent \<noteq> [] \<and> identity \<noteq> [] \<and> wd \<noteq> [] \<and> truthy (ck_run_id c)
            \<and> ck_agent_id c = JStr agent \<and> ck_identity_id c = JStr identity
            \<and> ck_working_dir c = JStr wd \<and> ck_route_id c = JStr route_id
         then resume_node_still_matches c node_skills else Inr False)"

definition request_of :: "jdict \<Rightarrow> json" where
  "request_of d = (case map_of d CTX_CHAIN_REQUEST of Some v \<Rightarrow> v | None \<Rightarrow> dget d CTX_USER_MESSAGE)"

text \<open>The part of \<open>_apply_session_checkpoint\<close> that may raise; \<open>None\<close> asks to start fresh.\<close>

definition resume_from ::
    "jdict \<Rightarrow> string \<Rightarrow> string \<Rightarrow> string list \<Rightarrow> checkpoint \<Rightarrow> ck_exc + (jdict \<times> nat) option" where
  "resume_from ctx route_id user_message node_skills c =
     bind_res (same_scope ctx route_id node_skills c) (\<lambda>same.
       if truthy (ck_awaiting_user_input c) \<and> same
       then bind_res (ck_context_get c) (\<lambda>d.
              bind_res (as_dict (ck_provisional_outputs c)) (\<lambda>prov.
                bind_res (chain_index (ck_skill_chain_index c)) (\<lambda>i.
                  let r1 = dict_merge d ctx;
                      r2 = dset CTX_CHAIN_REQUEST
                             (case map_of d CTX_CHAIN_REQUEST of Some v \<Rightarrow> v
                              | None \<Rightarrow> (case map_of d CTX_USER_MESSAGE of Some v \<Rightarrow> v | None \<Rightarrow> JStr [])) r1;
                      r3 = dset CTX_USER_RESPONSE (JStr user_message) r2
                  in Inr (Some (dset CTX_PROVISIONAL_OUTPUTS (JObj prov) r3, nat i)))))
       else if same
       then bind_res (ck_context_get c) (\<lambda>d.
              if request_of d = JStr user_message
              then bind_res (as_dict (ck_provisional_outputs c)) (\<lambda>prov.
                     bind_res (chain_index (ck_skill_chain_index c)) (\<lambda>i.
                       Inr (Some (dset CTX_PROVISIONAL_OUTPUTS (JObj prov) (dict_merge d ctx),
                                  nat (i + 1)))))
              else Inr None)
       else Inr None)"

definition apply_session_checkpoint ::
    "clock \<Rightarrow> run_store \<Rightarrow> ck_files \<Rightarrow> jdict \<Rightarrow> string \<Rightarrow> string \<Rightarrow> string list \<Rightarrow> (jdict \<times> nat) \<times> ck_files" where
  "apply_session_checkpoint clk runs fs ctx route_id user_message node_skills =
     (let sid = ctx_str ctx CTX_SESSION_ID in
      if sid = [] \<or> ctx_str ctx CTX_STATE_DIR = [] then ((ctx, 0), fs)
      else case ck_restore sid fs of
        Inl _ \<Rightarrow> ((ctx, 0), fs)
      | Inr None \<Rightarrow> ((ctx, 0), fs)
      | Inr (Some c) \<Rightarrow>
          if truthy (ck_run_id c) \<and> owner_live clk runs c (ctx_str ctx CTX_RUN_ID)
          then ((ctx, 0), fs)
          else case resume_from ctx route_id user_message node_skills c of
            Inl _ \<Rightarrow> ((ctx, 0), fs)
          | Inr (Some r) \<Rightarrow> (r, fs)
          | Inr None \<Rightarrow> ((ctx, 0), snd (ck_clear sid fs)))"

end
