(* ===== verification/Pipeline.thy ===== *)
theory Pipeline
  imports Skill_Chain Checkpoint
begin

text \<open>
  The pipeline executor, \<^verbatim>\<open>engine/execution/pipeline/pipeline.py\<close>, with the failure guard of
  \<^verbatim>\<open>backtrack.py\<close> and the evidence binding of \<^verbatim>\<open>engine/execution/evidence.py\<close>.  The agent that
  works on a node, the gates' model, the clock, the identifiers and the disk are parameters over
  the world \<open>'w\<close>.  One node visit is \<open>node_step\<close>; \<open>run_nodes\<close> iterates it, and its termination
  proof is the argument that the failure guard bounds every chain.
\<close>

subsection \<open>Failure guard\<close>

datatype guard_action = Retry | Switch | Blocked

definition guard_record :: "nat \<Rightarrow> nat \<Rightarrow> string \<Rightarrow> (string, nat) dict \<Rightarrow> guard_action \<times> (string, nat) dict" where
  "guard_record max_same max_attempts error_type counts =
     (let attempts = (case map_of counts error_type of None \<Rightarrow> 0 | Some n \<Rightarrow> n) + 1;
          counts' = dset error_type attempts counts
      in (if attempts < max_same then Retry else if attempts < max_attempts then Switch else Blocked,
          counts'))"

subsection \<open>Collecting the events of a node attempt\<close>

abbreviation ev :: "event_type \<Rightarrow> jdict \<Rightarrow> execution_event" where
  "ev t d \<equiv> \<lparr>ev_type = t, ev_data = d\<rparr>"

record node_result =
  nr_text :: string
  nr_was_provisional :: bool
  nr_incomplete :: "string option"
  nr_failed :: "string option"
  nr_evidence :: "json list"
  nr_evidence_hash :: "string option"

definition raw_text_delta :: "execution_event \<Rightarrow> string option" where
  "raw_text_delta e =
     (if ev_type e \<noteq> RAW_RESPONSE_EVENT then None
      else if dget (ev_data e) ''type'' \<noteq> JStr ''response.output_text.delta'' then None
      else case dget (ev_data e) ''data'' of
        JObj raw \<Rightarrow> (case dget raw ''delta'' of JStr t \<Rightarrow> if t = [] then None else Some t | _ \<Rightarrow> None)
      | _ \<Rightarrow> None)"

definition evidence_of :: "jdict \<Rightarrow> json list" where
  "evidence_of d =
     (case dget d ''result_hash'' of
        JStr h \<Rightarrow>
          if h = [] then []
          else [JObj [(''tool'', JStr (str_or (if truthy (dget d ''tool'') then dget d ''tool'' else dget d ''name'') [])),
                      (''call_id'', JStr (str_or (dget d ''id'') [])),
                      (''result_hash'', JStr h),
                      (''error'', JBool (truthy (dget d ''error'')))]]
      | _ \<Rightarrow> [])"

definition str_get :: "jdict \<Rightarrow> string \<Rightarrow> string \<Rightarrow> string" where
  "str_get d k default_text = (case map_of d k of None \<Rightarrow> default_text | Some v \<Rightarrow> py_str v)"

text \<open>One event of the stream: what is forwarded, and the running result.\<close>

definition collect_one ::
    "string \<Rightarrow> bool \<Rightarrow> execution_event \<Rightarrow> node_result \<Rightarrow> execution_event list \<times> node_result" where
  "collect_one provision_id suppress e r =
     (let d = ev_data e in
      case ev_type e of
        TEXT_DELTA \<Rightarrow> ([], r\<lparr>nr_text := nr_text r @ str_get d ''text'' []\<rparr>)
      | RAW_RESPONSE_EVENT \<Rightarrow>
          (case raw_text_delta e of
             None \<Rightarrow> ([], r)
           | Some delta \<Rightarrow>
               ([ev PROVISIONAL_TEXT_DELTA [(''text'', JStr delta), (''provision_id'', JStr provision_id)]],
                r\<lparr>nr_was_provisional := True\<rparr>))
      | TOOL_CALL_RESULT \<Rightarrow> ([e], r\<lparr>nr_evidence := nr_evidence r @ evidence_of d\<rparr>)
      | EV_INCOMPLETE \<Rightarrow>
          (if suppress then [] else [e], r\<lparr>nr_incomplete := Some (str_get d ''reason'' ''agent_incomplete'')\<rparr>)
      | EV_FAILED \<Rightarrow>
          (if suppress then [] else [e], r\<lparr>nr_failed := Some (str_get d ''reason'' ''agent_failed'')\<rparr>)
      | _ \<Rightarrow> ([e], r))"

fun collect_events ::
    "string \<Rightarrow> bool \<Rightarrow> execution_event list \<Rightarrow> node_result \<Rightarrow> execution_event list \<times> node_result" where
  "collect_events provision_id suppress [] r = ([], r)"
| "collect_events provision_id suppress (e # es) r =
     (let (out1, r1) = collect_one provision_id suppress e r;
          (out2, r2) = collect_events provision_id suppress es r1
      in (out1 @ out2, r2))"

definition evidence_hash_of :: "(string \<Rightarrow> string) \<Rightarrow> json list \<Rightarrow> string" where
  "evidence_hash_of digest evidence = digest (canonical_json (JArr evidence))"

definition empty_result :: node_result where
  "empty_result = \<lparr>nr_text = [], nr_was_provisional = False, nr_incomplete = None, nr_failed = None,
     nr_evidence = [], nr_evidence_hash = None\<rparr>"

definition collect_node_events ::
    "(string \<Rightarrow> string) \<Rightarrow> string \<Rightarrow> bool \<Rightarrow> execution_event list \<Rightarrow> execution_event list \<times> node_result" where
  "collect_node_events digest provision_id suppress es =
     (let (out, r) = collect_events provision_id suppress es empty_result
      in (out, r\<lparr>nr_evidence_hash := (if nr_evidence r = [] then None
                                      else Some (evidence_hash_of digest (nr_evidence r)))\<rparr>))"

subsection \<open>Recognising questions and notices\<close>

definition html_comment :: pattern where
  "html_comment = cats [lit ''<!--'', Many (\<lambda>c. c \<noteq> CHR ''>'') 0 None, lit ''-->'']"

definition final_question :: pattern where
  "final_question = cats [ch CHR ''?'', Many (\<lambda>c. is_space c \<or> c \<in> set ''>*_`]'') 0 None, AtEnd]"

definition ends_with_user_question :: "string \<Rightarrow> bool" where
  "ends_with_user_question output =
     re_search final_question (strip (re_sub html_comment (\<lambda>_. []) output))"

definition BUDGET_MESSAGE_SUFFIX :: string where
  "BUDGET_MESSAGE_SUFFIX = ''I stopped to avoid an infinite loop. ''
     @ ''Please retry with a narrower request or inspect the latest failed tool result.''"

definition is_budget_message :: "string \<Rightarrow> bool" where
  "is_budget_message t = ends_with BUDGET_MESSAGE_SUFFIX (strip t)"

subsection \<open>The executor's parameters and state\<close>

datatype node_request =
    RunSkill string string "string list option" jdict
  | RunFallback string string string "string list option" jdict

record 'w pipe =
  pipe_chain :: "'w skill_chain"
  pipe_skills :: "string \<Rightarrow> string option"
  pipe_disabled :: "string list"
  pipe_exec :: "'w \<Rightarrow> node_request \<Rightarrow> (execution_event list \<times> py_exc option) \<times> 'w"
  pipe_chat :: "'w gate_chat"
  pipe_uuid :: "'w \<Rightarrow> string \<times> 'w"
  pipe_utcnow :: "'w \<Rightarrow> string \<times> 'w"
  pipe_disk :: "'w \<Rightarrow> save_answer \<times> 'w"
  pipe_digest :: "string \<Rightarrow> string"
  pipe_max_same :: nat
  pipe_max_attempts :: nat

record 'w pstate =
  p_world :: 'w
  p_ctx :: jdict
  p_idx :: nat
  p_backtracks :: nat
  p_provisional :: jdict
  p_committed :: "(string, nat) dict"
  p_fallback :: "(nat, string) dict"
  p_guard :: "(string, nat) dict"
  p_files :: ck_files
  p_out :: "execution_event list"

definition BASE_GATE_MAX_RETRIES :: nat where
  "BASE_GATE_MAX_RETRIES = 3"

definition MAX_BACKTRACKS :: nat where
  "MAX_BACKTRACKS = 5"

definition emit_all :: "execution_event list \<Rightarrow> 'w pstate \<Rightarrow> 'w pstate" where
  "emit_all es st = st\<lparr>p_out := p_out st @ es\<rparr>"

definition set_fallback :: "nat \<Rightarrow> string \<Rightarrow> 'w pstate \<Rightarrow> 'w pstate" where
  "set_fallback i why st = st\<lparr>p_fallback := dset i why (p_fallback st)\<rparr>"

definition set_ctx :: "string \<Rightarrow> json \<Rightarrow> 'w pstate \<Rightarrow> 'w pstate" where
  "set_ctx k v st = st\<lparr>p_ctx := dset k v (p_ctx st)\<rparr>"

definition pop_ctx :: "string \<Rightarrow> 'w pstate \<Rightarrow> 'w pstate" where
  "pop_ctx k st = st\<lparr>p_ctx := AList.delete k (p_ctx st)\<rparr>"

definition set_hint :: "string option \<Rightarrow> 'w pstate \<Rightarrow> 'w pstate" where
  "set_hint hint st = (case hint of None \<Rightarrow> st
     | Some h \<Rightarrow> if h = [] then st else set_ctx CTX_RETRY_HINT (JStr h) st)"

subsection \<open>Checkpoints\<close>

definition checkpoint_of :: "jdict \<Rightarrow> nat \<Rightarrow> string \<Rightarrow> bool \<Rightarrow> jdict \<Rightarrow> string \<Rightarrow> checkpoint" where
  "checkpoint_of ctx node_idx node_skill awaiting provisional timestamp =
     \<lparr>ck_agent_id = JStr (ctx_str ctx CTX_AGENT_ID), ck_session_id = JStr (ctx_str ctx CTX_SESSION_ID),
      ck_identity_id = JStr (ctx_str ctx CTX_IDENTITY_ID), ck_route_id = JStr (ctx_str ctx CTX_ROUTE_ID),
      ck_skill_chain_index = JInt (int node_idx),
      ck_context = JObj (filter (\<lambda>(k, v). \<not> starts_with ''_'' k) ctx),
      ck_timestamp = JStr timestamp, ck_working_dir = JStr (ctx_str ctx CTX_WORKING_DIR),
      ck_run_id = JStr (ctx_str ctx CTX_RUN_ID), ck_awaiting_user_input = JBool awaiting,
      ck_provisional_outputs = JObj provisional, ck_node_skill = JStr node_skill\<rparr>"

definition save_checkpoint :: "'w pipe \<Rightarrow> nat \<Rightarrow> string \<Rightarrow> bool \<Rightarrow> 'w pstate \<Rightarrow> 'w pstate" where
  "save_checkpoint cfg node_idx node_skill awaiting st =
     (if ctx_str (p_ctx st) CTX_SESSION_ID = [] \<or> ctx_str (p_ctx st) CTX_STATE_DIR = [] then st
      else
        let (timestamp, w1) = pipe_utcnow cfg (p_world st);
            (ans, w2) = pipe_disk cfg w1;
            c = checkpoint_of (p_ctx st) node_idx node_skill awaiting (p_provisional st) timestamp
        in st\<lparr>p_world := w2, p_files := snd (ck_save ans c (p_files st))\<rparr>)"

definition clear_checkpoint :: "'w pstate \<Rightarrow> 'w pstate" where
  "clear_checkpoint st =
     (if ctx_str (p_ctx st) CTX_SESSION_ID = [] \<or> ctx_str (p_ctx st) CTX_STATE_DIR = [] then st
      else st\<lparr>p_files := snd (ck_clear (ctx_str (p_ctx st) CTX_SESSION_ID) (p_files st))\<rparr>)"

definition evict_outputs_at_or_after :: "nat \<Rightarrow> 'w pstate \<Rightarrow> 'w pstate" where
  "evict_outputs_at_or_after target_idx st =
     (let stale = map fst (filter (\<lambda>(k, i). target_idx \<le> i) (p_committed st));
          fresh = (\<lambda>k. k \<notin> set stale)
      in st\<lparr>p_ctx := filter (\<lambda>(k, v). fresh k) (p_ctx st),
            p_provisional := filter (\<lambda>(k, v). fresh k) (p_provisional st),
            p_committed := filter (\<lambda>(k, i). fresh k) (p_committed st)\<rparr>)"

subsection \<open>One attempt at a node\<close>

text \<open>
  How an attempt ends: try again without counting it, try again as the next attempt, go on to
  the gate of the node, leave the pipeline, or raise (with the identifier of the attempt and
  whether its provisional text has been settled).
\<close>

datatype 'w attempt_end =
    Again "'w pstate"
  | NextAttempt gate_result node_result "'w pstate"
  | Accepted node_result string bool "'w pstate"
  | Left "'w pstate"
  | Thrown py_exc string bool "'w pstate"

definition skill_events_data :: "string \<Rightarrow> string \<Rightarrow> jdict" where
  "skill_events_data skill stat = [(''skill'', JStr skill), (''status'', JStr stat)]"

definition retract :: "string \<Rightarrow> string \<Rightarrow> execution_event" where
  "retract provision_id why =
     ev PROVISIONAL_RETRACT [(''provision_id'', JStr provision_id), (''reason'', JStr why)]"

definition done_event :: execution_event where
  "done_event = ev DONE []"

definition skill_end :: "string \<Rightarrow> string \<Rightarrow> execution_event" where
  "skill_end skill stat = ev SKILL_END (skill_events_data skill stat)"

definition blocked_event :: "string \<Rightarrow> string \<Rightarrow> execution_event" where
  "blocked_event skill why = ev BLOCKED [(''skill'', JStr skill), (''reason'', JStr why)]"

definition gate_unavailable_events :: "string \<Rightarrow> string \<Rightarrow> string \<Rightarrow> execution_event list" where
  "gate_unavailable_events skill provision_id why =
     [retract provision_id ''gate_unavailable'',
      ev EV_FAILED [(''reason'', JStr ''gate_unavailable''), (''detail'', JStr why)],
      skill_end skill ''error'', done_event]"

text \<open>The reason to run the node without its skill, recorded when it is new.\<close>

definition fallback_for :: "'w pipe \<Rightarrow> 'w skill_node \<Rightarrow> 'w pstate \<Rightarrow> string option" where
  "fallback_for cfg node st =
     (case map_of (p_fallback st) (p_idx st) of
        Some why \<Rightarrow> Some why
      | None \<Rightarrow>
          if skill_name node \<in> set (pipe_disabled cfg)
          then Some (''Skill '' @ repr_str (skill_name node) @ '' is disabled for this run.'')
          else if pipe_skills cfg (skill_name node) = None
          then Some (''Skill '' @ repr_str (skill_name node) @ '' is not installed.'')
          else None)"

definition attempt_context :: "nat \<Rightarrow> jdict \<Rightarrow> jdict" where
  "attempt_context attempt ctx =
     (if attempt \<le> 1 \<and> truthy (dget ctx CTX_RETRY_HINT)
      then dset CTX_RUBRIC_FEEDBACK (dget ctx CTX_RETRY_HINT) ctx
      else if attempt = 2
      then dset CTX_RUBRIC_FEEDBACK (JStr ''Switch strategy: try a completely different approach.'') ctx
      else ctx)"

definition attempt_request :: "'w pipe \<Rightarrow> 'w skill_node \<Rightarrow> nat \<Rightarrow> string option \<Rightarrow> jdict \<Rightarrow> node_request" where
  "attempt_request cfg node attempt fallback_reason ctx =
     (case fallback_reason of
        Some why \<Rightarrow> RunFallback (skill_name node) why (node_instructions node) (allowed_tools node)
                     (attempt_context attempt ctx)
      | None \<Rightarrow>
          let content = the (pipe_skills cfg (skill_name node));
              nl = [CHR 0x0A]
          in RunSkill (skill_name node)
               (if node_instructions node = [] then content
                else rstrip content @ nl @ nl @ ''## Helve chain node contract'' @ nl @ nl
                     @ node_instructions node @ nl)
               (allowed_tools node) (attempt_context attempt ctx))"

fun check_base_gates ::
    "'w gate_chat \<Rightarrow> 'w gate list \<Rightarrow> 'w \<Rightarrow> string \<Rightarrow> jdict \<Rightarrow> (py_exc + gate_result) \<times> 'w" where
  "check_base_gates chat [] w output ctx = (Inr (gate_answer GPass ''base gates passed'' None False), w)"
| "check_base_gates chat (g # gs) w output ctx =
     (case run_gate chat g w output ctx of
        (Inl e, w1) \<Rightarrow> (Inl e, w1)
      | (Inr r, w1) \<Rightarrow> if g_verdict r \<noteq> GPass then (Inr r, w1) else check_base_gates chat gs w1 output ctx)"

definition provision_of :: "'w skill_node \<Rightarrow> nat \<Rightarrow> nat \<Rightarrow> string \<Rightarrow> string" where
  "provision_of node node_idx attempt unique =
     skill_name node @ '':'' @ show_nat node_idx @ '':'' @ show_nat attempt @ '':'' @ unique"

text \<open>The marker or, where the node opts in, a final question: the node waits for the user.\<close>

definition awaits_user :: "'w skill_node \<Rightarrow> string \<Rightarrow> string option" where
  "awaits_user node output =
     (case await_user_input_marker node of
        None \<Rightarrow> None
      | Some marker \<Rightarrow>
          if marker \<noteq> [] \<and> (contains marker output
               \<or> infer_await_user_input_from_question node \<and> ends_with_user_question output)
          then Some marker else None)"

definition pause_node :: "'w pipe \<Rightarrow> 'w skill_node \<Rightarrow> string \<Rightarrow> string \<Rightarrow> node_result \<Rightarrow> 'w pstate \<Rightarrow> 'w pstate" where
  "pause_node cfg node marker provision_id result st =
     (let output = nr_text result;
          visible = rstrip (py_replace marker [] output);
          key = output_key (skill_name node);
          st1 = emit_all [ev PROVISIONAL_COMMIT [(''provision_id'', JStr provision_id)]] st;
          st2 = (set_ctx key (JStr visible) st1)
                  \<lparr>p_provisional := dset key (JBool (nr_was_provisional result)) (p_provisional st1),
                   p_committed := dset key (p_idx st1) (p_committed st1)\<rparr>;
          st3 = save_checkpoint cfg (p_idx st) (skill_name node) True st2
      in emit_all
           [skill_end (skill_name node) ''awaiting_input'',
            ev TEXT_DELTA ([(''text'', JStr visible)]
              @ (if nr_was_provisional result then [(''already_streamed'', JBool True)] else [])),
            ev AWAITING_INPUT [(''skill'', JStr (skill_name node)),
              (''reason'', JStr (if contains marker output then ''awaiting_user_input''
                                 else ''awaiting_user_question''))],
            done_event] st3)"

text \<open>After the agent answered: the question, the evidence, and the base gates.\<close>

definition judge_attempt ::
    "'w pipe \<Rightarrow> 'w skill_node \<Rightarrow> bool \<Rightarrow> string \<Rightarrow> node_result \<Rightarrow> 'w pstate \<Rightarrow> 'w attempt_end" where
  "judge_attempt cfg node fallback provision_id result st =
     (let output = nr_text result; name = skill_name node in
      case awaits_user node output of
        Some marker \<Rightarrow> Left (pause_node cfg node marker provision_id result st)
      | None \<Rightarrow>
          let st1 = (case nr_evidence_hash result of
                None \<Rightarrow> st
              | Some h \<Rightarrow> emit_all [ev GATE_EVIDENCE [(''skill'', JStr name),
                            (''evidence'', JArr (nr_evidence result)), (''evidence_hash'', JStr h)]] st)
          in if base_gates (pipe_chain cfg) = [] then Accepted result provision_id fallback st1
             else case check_base_gates (pipe_chat cfg) (base_gates (pipe_chain cfg)) (p_world st1)
                         output (p_ctx st1) of
               (Inl e, w) \<Rightarrow> Thrown e provision_id False (st1\<lparr>p_world := w\<rparr>)
             | (Inr r, w) \<Rightarrow>
                 let st2 = st1\<lparr>p_world := w\<rparr> in
                 if g_infra_failure r
                 then Left (emit_all (gate_unavailable_events name provision_id (g_reason r)) st2)
                 else if g_verdict r = GPass then Accepted result provision_id fallback st2
                 else
                   let hint = (case g_retry_hint r of None \<Rightarrow> [] | Some h \<Rightarrow> h);
                       st3 = emit_all [retract provision_id ''rubric_retry'']
                               (set_ctx CTX_RETRY_HINT (JStr hint) st2)
                   in if \<not> fallback
                      then Again (set_fallback (p_idx st3)
                             (''Skill '' @ repr_str name @ '' failed the base gate: '' @ g_reason r @ ''.'') st3)
                      else NextAttempt r result st3)"

definition incomplete_attempt ::
    "'w skill_node \<Rightarrow> bool \<Rightarrow> string \<Rightarrow> node_result \<Rightarrow> string \<Rightarrow> 'w pstate \<Rightarrow> 'w attempt_end" where
  "incomplete_attempt node fallback provision_id result why st =
     (let name = skill_name node; st1 = emit_all [retract provision_id why] st in
      if \<not> fallback
      then Again (set_fallback (p_idx st1)
             (''Skill '' @ repr_str name @ '' did not complete: '' @ why @ ''.'') st1)
      else
        let st2 = (if nr_text result \<noteq> [] \<and> is_budget_message (nr_text result)
                   then emit_all [ev TEXT_DELTA [(''text'', JStr (nr_text result))]] st1 else st1)
        in Left (emit_all
             [skill_end name (if nr_incomplete result \<noteq> None \<and> nr_incomplete result \<noteq> Some []
                              then ''incomplete'' else ''error''),
              done_event] (clear_checkpoint st2)))"

text \<open>\<open>result.failed_reason or result.incomplete_reason\<close>, when either is a non-empty text.\<close>

definition unfinished_reason :: "node_result \<Rightarrow> string option" where
  "unfinished_reason r =
     (case nr_failed r of
        Some (c # cs) \<Rightarrow> Some (c # cs)
      | _ \<Rightarrow> (case nr_incomplete r of Some (c # cs) \<Rightarrow> Some (c # cs) | _ \<Rightarrow> None))"

definition end_attempt ::
    "'w pipe \<Rightarrow> 'w skill_node \<Rightarrow> bool \<Rightarrow> string \<Rightarrow> py_exc option \<Rightarrow> node_result \<Rightarrow> 'w pstate \<Rightarrow> 'w attempt_end" where
  "end_attempt cfg node fallback provision_id exc result st =
     (case exc of
        Some e \<Rightarrow>
          if fallback then Thrown e provision_id False st
          else Again (set_fallback (p_idx st)
                 (''Skill '' @ repr_str (skill_name node) @ '' raised '' @ fst e @ '': '' @ snd e)
                 (emit_all [retract provision_id ''execution_error''] st))
      | None \<Rightarrow>
          (case unfinished_reason result of
             Some why \<Rightarrow> incomplete_attempt node fallback provision_id result why st
           | None \<Rightarrow> judge_attempt cfg node fallback provision_id result st))"

definition attempt_once :: "'w pipe \<Rightarrow> 'w skill_node \<Rightarrow> nat \<Rightarrow> 'w pstate \<Rightarrow> 'w attempt_end" where
  "attempt_once cfg node attempt st =
     (let (unique, w1) = pipe_uuid cfg (p_world st);
          provision_id = provision_of node (p_idx st) attempt unique;
          fallback_reason = fallback_for cfg node st;
          st1 = (case fallback_reason of None \<Rightarrow> st | Some why \<Rightarrow> set_fallback (p_idx st) why st);
          ((es, exc), w2) = pipe_exec cfg w1 (attempt_request cfg node attempt fallback_reason (p_ctx st1));
          (out, result) = collect_node_events (pipe_digest cfg) provision_id (fallback_reason = None) es
      in end_attempt cfg node (fallback_reason \<noteq> None) provision_id exc result
           (emit_all out (st1\<lparr>p_world := w2\<rparr>)))"

subsection \<open>All attempts at a node\<close>

named_theorems pipe_ops \<open>the updates of the executor's state, for computing its fields\<close>

declare emit_all_def [pipe_ops] set_fallback_def [pipe_ops] set_ctx_def [pipe_ops]
  pop_ctx_def [pipe_ops]

lemma set_hint_fields [simp]:
  "p_idx (set_hint h st) = p_idx st" "p_fallback (set_hint h st) = p_fallback st"
  "p_guard (set_hint h st) = p_guard st" "p_files (set_hint h st) = p_files st"
  "p_out (set_hint h st) = p_out st" "p_committed (set_hint h st) = p_committed st"
  "p_provisional (set_hint h st) = p_provisional st" "p_backtracks (set_hint h st) = p_backtracks st"
  "p_world (set_hint h st) = p_world st"
  by (auto simp: set_hint_def set_ctx_def split: option.split)

lemma save_checkpoint_fields [simp]:
  "p_idx (save_checkpoint cfg i s a st) = p_idx st"
  "p_fallback (save_checkpoint cfg i s a st) = p_fallback st"
  "p_guard (save_checkpoint cfg i s a st) = p_guard st"
  "p_ctx (save_checkpoint cfg i s a st) = p_ctx st"
  "p_out (save_checkpoint cfg i s a st) = p_out st"
  "p_committed (save_checkpoint cfg i s a st) = p_committed st"
  "p_provisional (save_checkpoint cfg i s a st) = p_provisional st"
  "p_backtracks (save_checkpoint cfg i s a st) = p_backtracks st"
  by (simp_all add: save_checkpoint_def Let_def split: prod.split)

lemma clear_checkpoint_fields [simp]:
  "p_idx (clear_checkpoint st) = p_idx st" "p_fallback (clear_checkpoint st) = p_fallback st"
  "p_guard (clear_checkpoint st) = p_guard st" "p_ctx (clear_checkpoint st) = p_ctx st"
  "p_out (clear_checkpoint st) = p_out st" "p_committed (clear_checkpoint st) = p_committed st"
  "p_provisional (clear_checkpoint st) = p_provisional st"
  "p_backtracks (clear_checkpoint st) = p_backtracks st" "p_world (clear_checkpoint st) = p_world st"
  by (simp_all add: clear_checkpoint_def)

text \<open>
  What an attempt leaves alone: everything but the world, the trace, the retry hint and the
  fallback of the node.
\<close>

definition within_node :: "'w pstate \<Rightarrow> 'w pstate \<Rightarrow> bool" where
  "within_node st st' \<longleftrightarrow>
     p_idx st' = p_idx st \<and> p_guard st' = p_guard st \<and> p_backtracks st' = p_backtracks st
     \<and> p_committed st' = p_committed st \<and> p_provisional st' = p_provisional st
     \<and> p_files st' = p_files st
     \<and> (\<forall>k. k \<noteq> CTX_RETRY_HINT \<longrightarrow> map_of (p_ctx st') k = map_of (p_ctx st) k)
     \<and> (\<forall>i why. map_of (p_fallback st) i = Some why \<longrightarrow> map_of (p_fallback st') i = Some why)"

lemma within_node_refl [simp]: "within_node st st"
  by (simp add: within_node_def)

lemma within_node_trans: "within_node st st1 \<Longrightarrow> within_node st1 st2 \<Longrightarrow> within_node st st2"
  by (simp add: within_node_def)

definition has_fallback :: "'w pstate \<Rightarrow> bool" where
  "has_fallback st \<longleftrightarrow> map_of (p_fallback st) (p_idx st) \<noteq> None"

text \<open>The exits of an attempt that do not leave the node, and what they keep.\<close>

definition attempt_frame :: "bool \<Rightarrow> 'w pstate \<Rightarrow> 'w attempt_end \<Rightarrow> bool" where
  "attempt_frame fallback st x \<longleftrightarrow>
     (case x of
        Again st' \<Rightarrow> \<not> fallback \<and> within_node st st' \<and> has_fallback st'
      | NextAttempt r result st' \<Rightarrow> fallback \<and> within_node st st'
      | Accepted result pid fb st' \<Rightarrow> fb = fallback \<and> within_node st st' \<and> p_fallback st' = p_fallback st
      | Thrown e pid settled st' \<Rightarrow> \<not> settled \<and> within_node st st'
      | Left st' \<Rightarrow> True)"

lemma judge_attempt_frame:
  assumes "\<not> fallback \<longrightarrow> \<not> has_fallback st"
  shows "attempt_frame fallback st (judge_attempt cfg node fallback pid result st)"
  unfolding judge_attempt_def Let_def attempt_frame_def
  using assms
  by (auto simp: pipe_ops within_node_def has_fallback_def split: option.split sum.split prod.split)

lemma incomplete_attempt_frame:
  assumes "\<not> fallback \<longrightarrow> \<not> has_fallback st"
  shows "attempt_frame fallback st (incomplete_attempt node fallback pid result why st)"
  unfolding incomplete_attempt_def Let_def attempt_frame_def
  using assms by (auto simp: pipe_ops within_node_def has_fallback_def)

lemma end_attempt_frame:
  assumes "\<not> fallback \<longrightarrow> \<not> has_fallback st"
  shows "attempt_frame fallback st (end_attempt cfg node fallback pid exc result st)"
proof (cases exc)
  case None
  with assms show ?thesis
    by (simp add: end_attempt_def judge_attempt_frame incomplete_attempt_frame split: option.split)
next
  case (Some e)
  with assms show ?thesis
    by (auto simp: end_attempt_def attempt_frame_def pipe_ops within_node_def has_fallback_def)
qed

lemma attempt_onceE:
  obtains (run) unique w1 es exc w2 out result where
    "pipe_uuid cfg (p_world st) = (unique, w1)"
    "pipe_exec cfg w1 (attempt_request cfg node attempt (fallback_for cfg node st) (p_ctx st))
       = ((es, exc), w2)"
    "collect_node_events (pipe_digest cfg) (provision_of node (p_idx st) attempt unique)
       (fallback_for cfg node st = None) es = (out, result)"
    "attempt_once cfg node attempt st =
       end_attempt cfg node (fallback_for cfg node st \<noteq> None)
         (provision_of node (p_idx st) attempt unique) exc result
         (emit_all out ((case fallback_for cfg node st of None \<Rightarrow> st
            | Some why \<Rightarrow> set_fallback (p_idx st) why st)\<lparr>p_world := w2\<rparr>))"
proof -
  obtain unique w1 where u: "pipe_uuid cfg (p_world st) = (unique, w1)" by fastforce
  obtain es exc w2 where x: "pipe_exec cfg w1 (attempt_request cfg node attempt
      (fallback_for cfg node st) (p_ctx st)) = ((es, exc), w2)"
    by (metis prod.exhaust_sel)
  obtain out result where c: "collect_node_events (pipe_digest cfg)
      (provision_of node (p_idx st) attempt unique) (fallback_for cfg node st = None) es = (out, result)"
    by fastforce
  have ctx: "p_ctx (case fallback_for cfg node st of None \<Rightarrow> st
      | Some why \<Rightarrow> set_fallback (p_idx st) why st) = p_ctx st"
    by (simp add: set_fallback_def split: option.split)
  show ?thesis by (rule run [OF u x c]) (simp add: attempt_once_def u x c ctx Let_def)
qed

lemma fallback_for_None: "fallback_for cfg node st = None \<Longrightarrow> \<not> has_fallback st"
  by (simp add: fallback_for_def has_fallback_def split: option.splits if_splits)

lemma fallback_for_kept: "fallback_for cfg node st = Some why \<Longrightarrow> has_fallback st \<Longrightarrow>
    map_of (p_fallback st) (p_idx st) = Some why"
  by (auto simp: fallback_for_def has_fallback_def)

lemma attempt_once_frame:
  "case attempt_once cfg node attempt st of
     Again st' \<Rightarrow> \<not> has_fallback st \<and> within_node st st' \<and> has_fallback st'
   | NextAttempt r result st' \<Rightarrow> within_node st st' \<and> has_fallback st'
   | Accepted result pid fb st' \<Rightarrow> within_node st st' \<and> (fb \<longleftrightarrow> has_fallback st')
   | Thrown e pid settled st' \<Rightarrow> \<not> settled \<and> within_node st st'
   | Left st' \<Rightarrow> True"
proof (cases rule: attempt_onceE [of cfg st node attempt])
  case (run unique w1 es exc w2 out result)
  define st1 where "st1 = emit_all out ((case fallback_for cfg node st of None \<Rightarrow> st
      | Some why \<Rightarrow> set_fallback (p_idx st) why st)\<lparr>p_world := w2\<rparr>)"
  have w: "within_node st st1" and h: "has_fallback st1 \<longleftrightarrow> fallback_for cfg node st \<noteq> None"
    using fallback_for_None [of cfg node st] fallback_for_kept [of cfg node st]
    by (auto simp: st1_def within_node_def has_fallback_def pipe_ops split: option.split)
  have frame: "attempt_frame (fallback_for cfg node st \<noteq> None) st1 (attempt_once cfg node attempt st)"
    unfolding run(4) st1_def [symmetric] by (rule end_attempt_frame) (simp add: h)
  show ?thesis
  proof (cases "attempt_once cfg node attempt st")
    case (Again st')
    then show ?thesis using frame w h fallback_for_None [of cfg node st]
      by (auto simp: attempt_frame_def intro: within_node_trans)
  next
    case (NextAttempt r res st')
    then show ?thesis using frame w h
      by (auto simp: attempt_frame_def has_fallback_def within_node_def)
  next
    case (Accepted res pid fb st')
    then show ?thesis using frame w h
      by (auto simp: attempt_frame_def has_fallback_def within_node_def)
  qed (use frame w in \<open>auto simp: attempt_frame_def intro: within_node_trans\<close>)
qed

lemma attempt_once_Again:
  "attempt_once cfg node attempt st = Again st' \<Longrightarrow>
     \<not> has_fallback st \<and> within_node st st' \<and> has_fallback st'"
  using attempt_once_frame [where cfg = cfg and node = node and attempt = attempt and st = st] by simp

lemma attempt_once_NextAttempt:
  "attempt_once cfg node attempt st = NextAttempt r result st' \<Longrightarrow> within_node st st' \<and> has_fallback st'"
  using attempt_once_frame [where cfg = cfg and node = node and attempt = attempt and st = st] by simp

definition max_attempts_of :: "'w pipe \<Rightarrow> nat" where
  "max_attempts_of cfg = (if base_gates (pipe_chain cfg) = [] then 1 else BASE_GATE_MAX_RETRIES)"

definition fresh_at :: "'w pstate \<Rightarrow> nat" where
  "fresh_at st = (if has_fallback st then 0 else 1)"

function run_attempts :: "'w pipe \<Rightarrow> 'w skill_node \<Rightarrow> nat \<Rightarrow> 'w pstate \<Rightarrow> 'w attempt_end" where
  "run_attempts cfg node attempt st =
     (case attempt_once cfg node attempt st of
        Again st' \<Rightarrow> run_attempts cfg node attempt st'
      | NextAttempt r result st' \<Rightarrow>
          if attempt + 1 < max_attempts_of cfg then run_attempts cfg node (attempt + 1) st'
          else NextAttempt r result st'
      | Accepted result provision_id fallback st' \<Rightarrow> Accepted result provision_id fallback st'
      | Left st' \<Rightarrow> Left st'
      | Thrown e provision_id settled st' \<Rightarrow> Thrown e provision_id settled st')"
  by pat_completeness auto
termination
  by (relation "measure (\<lambda>(cfg, node, attempt, st). 2 * (max_attempts_of cfg - attempt) + fresh_at st)")
    (auto simp: fresh_at_def dest: attempt_once_Again attempt_once_NextAttempt)

declare run_attempts.simps [simp del]

subsection \<open>One visit of a node\<close>

text \<open>The loop over the nodes goes on, or returns or raises.\<close>

datatype 'w node_end = Continue "'w pstate" | Stop "py_exc option" "'w pstate"

definition hash_json :: "node_result \<Rightarrow> json" where
  "hash_json result = (case nr_evidence_hash result of None \<Rightarrow> JNull | Some h \<Rightarrow> JStr h)"

definition end_blocked :: "string \<Rightarrow> execution_event \<Rightarrow> 'w pstate \<Rightarrow> 'w pstate" where
  "end_blocked name e st = emit_all [skill_end name ''blocked'', e, done_event] (clear_checkpoint st)"

definition end_raised :: "string \<Rightarrow> py_exc \<Rightarrow> string \<Rightarrow> bool \<Rightarrow> 'w pstate \<Rightarrow> 'w node_end" where
  "end_raised name e provision_id settled st =
     Stop (Some e) (clear_checkpoint
       (emit_all ((if settled then [] else [retract provision_id ''execution_error'']) @ [skill_end name ''error'']) st))"

definition commit_node :: "'w pipe \<Rightarrow> 'w skill_node \<Rightarrow> string \<Rightarrow> node_result \<Rightarrow> 'w pstate \<Rightarrow> 'w pstate" where
  "commit_node cfg node provision_id result st =
     (let key = output_key (skill_name node);
          st1 = emit_all [ev PROVISIONAL_COMMIT [(''provision_id'', JStr provision_id)]] st;
          st2 = (set_ctx key (JStr (nr_text result)) st1)
                  \<lparr>p_fallback := AList.delete (p_idx st1) (p_fallback st1),
                   p_provisional := dset key (JBool (nr_was_provisional result)) (p_provisional st1),
                   p_committed := dset key (p_idx st1) (p_committed st1)\<rparr>;
          st3 = emit_all [skill_end (skill_name node) ''passed'']
                  (save_checkpoint cfg (p_idx st2) (skill_name node) False st2)
      in st3\<lparr>p_idx := p_idx st3 + 1\<rparr>)"

definition switch_node ::
    "'w pipe \<Rightarrow> (string, nat) dict \<Rightarrow> 'w skill_node \<Rightarrow> gate_result \<Rightarrow> 'w pstate \<Rightarrow> 'w node_end" where
  "switch_node cfg index node r st =
     (let name = skill_name node;
          st1 = st\<lparr>p_backtracks := p_backtracks st + 1\<rparr>;
          target = dget (backtrack_map (pipe_chain cfg)) name
      in if p_backtracks st1 > MAX_BACKTRACKS
         then Stop None (end_blocked name (blocked_event name ''max backtracks'') st1)
         else case target_index index target of
           Inr (Some target_idx) \<Rightarrow>
             let st2 = evict_outputs_at_or_after target_idx st1;
                 st3 = set_hint (g_retry_hint r)
                   (st2\<lparr>p_fallback := filter (\<lambda>(i, why). i < target_idx) (p_fallback st2)\<rparr>)
             in Continue ((emit_all [ev BACKTRACK [(''from'', JStr name), (''to'', target),
                                       (''reason'', JStr (g_reason r))]] st3)\<lparr>p_idx := target_idx\<rparr>)
         | _ \<Rightarrow> Stop None (end_blocked name
                 (blocked_event name (''backtrack target '' @ py_repr target @ '' not found'')) st1))"

definition reject_node ::
    "'w pipe \<Rightarrow> (string, nat) dict \<Rightarrow> 'w skill_node \<Rightarrow> bool \<Rightarrow> gate_result \<Rightarrow> 'w pstate \<Rightarrow> 'w node_end" where
  "reject_node cfg index node fallback r st =
     (let name = skill_name node in
      if \<not> fallback
      then Continue (emit_all [skill_end name ''retry'']
             (set_hint (g_retry_hint r)
               (set_fallback (p_idx st)
                 (''Skill '' @ repr_str name @ '' failed the node gate: '' @ g_reason r @ ''.'') st)))
      else
        let (action, counts) = guard_record (pipe_max_same cfg) (pipe_max_attempts cfg) name (p_guard st);
            st1 = st\<lparr>p_guard := counts\<rparr>
        in if action = Blocked
              \<or> action = Switch \<and> map_of (backtrack_map (pipe_chain cfg)) name = None
           then Stop None (end_blocked name (blocked_event name (g_reason r)) st1)
           else if action = Switch then switch_node cfg index node r st1
           else Continue (emit_all [skill_end name ''retry''] (set_hint (g_retry_hint r) st1)))"

text \<open>The gate of the node, after its base gates.\<close>

definition gate_node ::
    "'w pipe \<Rightarrow> (string, nat) dict \<Rightarrow> 'w skill_node \<Rightarrow> node_result \<Rightarrow> string \<Rightarrow> bool
     \<Rightarrow> 'w pstate \<Rightarrow> 'w node_end" where
  "gate_node cfg index node result provision_id fallback st =
     (let name = skill_name node in
      case run_gate (pipe_chat cfg) (node_gate node) (p_world st) (nr_text result) (p_ctx st) of
        (Inl e, w) \<Rightarrow> end_raised name e provision_id False (st\<lparr>p_world := w\<rparr>)
      | (Inr r, w) \<Rightarrow>
          let st1 = emit_all [ev GATE_RESULT [(''skill'', JStr name),
                      (''verdict'', JStr (verdict_value (g_verdict r))),
                      (''reason'', JStr (g_reason r)), (''evidence_hash'', hash_json result)]]
                      (st\<lparr>p_world := w\<rparr>)
          in if g_infra_failure r
             then Stop None (emit_all (gate_unavailable_events name provision_id (g_reason r)) st1)
             else if g_verdict r = GPass then Continue (commit_node cfg node provision_id result st1)
             else reject_node cfg index node fallback r
                    (emit_all [retract provision_id (g_reason r)] st1))"

definition visit_node :: "'w pipe \<Rightarrow> (string, nat) dict \<Rightarrow> 'w skill_node \<Rightarrow> 'w pstate \<Rightarrow> 'w node_end" where
  "visit_node cfg index node st =
     (let name = skill_name node;
          st1 = emit_all [ev SKILL_START [(''skill'', JStr name), (''index'', JInt (int (p_idx st)))]] st
      in case run_attempts cfg node 0 st1 of
           Left st2 \<Rightarrow> Stop None st2
         | Thrown e provision_id settled st2 \<Rightarrow> end_raised name e provision_id settled st2
         | Accepted result provision_id fallback st2 \<Rightarrow>
             gate_node cfg index node result provision_id fallback (pop_ctx CTX_RETRY_HINT st2)
         | NextAttempt r result st2 \<Rightarrow>
             Stop None (end_blocked name
               (ev BLOCKED [(''skill'', JStr name), (''reason'', JStr (g_reason r)),
                            (''evidence_hash'', hash_json result)]) (pop_ctx CTX_RETRY_HINT st2))
         | Again st2 \<Rightarrow> Stop None st2)"

definition node_step :: "'w pipe \<Rightarrow> (string, nat) dict \<Rightarrow> 'w skill_node \<Rightarrow> 'w pstate \<Rightarrow> 'w node_end" where
  "node_step cfg index node st =
     (case (case node_condition node of None \<Rightarrow> Inr True | Some condition \<Rightarrow> condition (p_ctx st)) of
        Inl e \<Rightarrow> Stop (Some e) st
      | Inr False \<Rightarrow> Continue ((pop_ctx CTX_RETRY_HINT st)\<lparr>p_idx := p_idx st + 1\<rparr>)
      | Inr True \<Rightarrow> visit_node cfg index node st)"

subsection \<open>The whole chain\<close>

lemma run_attempts_frame:
  "case run_attempts cfg node attempt st of
     Again st' \<Rightarrow> False
   | NextAttempt r result st' \<Rightarrow> within_node st st'
   | Accepted result pid fb st' \<Rightarrow> within_node st st' \<and> (fb \<longleftrightarrow> has_fallback st')
   | Thrown e pid settled st' \<Rightarrow> \<not> settled \<and> within_node st st'
   | Left st' \<Rightarrow> True"
proof (induction cfg node attempt st rule: run_attempts.induct)
  case (1 cfg node attempt st)
  show ?case
  proof (cases "attempt_once cfg node attempt st")
    case (Again st1)
    then have "within_node st st1" by (simp add: attempt_once_Again)
    with 1(1) [OF Again] show ?thesis
      by (subst run_attempts.simps)
        (auto simp: Again split: attempt_end.split intro: within_node_trans)
  next
    case (NextAttempt r res st1)
    then have "within_node st st1" by (simp add: attempt_once_NextAttempt)
    with 1(2) [OF NextAttempt] show ?thesis
      by (subst run_attempts.simps)
        (auto simp: NextAttempt split: attempt_end.split intro: within_node_trans)
  qed (use attempt_once_frame [where cfg = cfg and node = node and attempt = attempt and st = st] in
        \<open>subst run_attempts.simps, simp\<close>)+
qed

definition failures :: "'w pstate \<Rightarrow> string \<Rightarrow> nat" where
  "failures st name = (case map_of (p_guard st) name of None \<Rightarrow> 0 | Some k \<Rightarrow> k)"

text \<open>
  The measure of the loop: the failures each name has left, the nodes ahead, and whether the
  node may still be retried without its skill.
\<close>

definition failures_left :: "'w pipe \<Rightarrow> 'w pstate \<Rightarrow> nat" where
  "failures_left cfg st =
     (\<Sum>name \<in> set (map skill_name (chain_nodes (pipe_chain cfg))).
        max (pipe_max_same cfg) (pipe_max_attempts cfg) - failures st name)"

definition loop_measure :: "'w pipe \<Rightarrow> 'w pstate \<Rightarrow> nat" where
  "loop_measure cfg st =
     (let n = length (chain_nodes (pipe_chain cfg)) in
      failures_left cfg st * (2 * n + 2) + 2 * (n - p_idx st) + fresh_at st)"

lemma guard_record_goes_on:
  assumes "guard_record max_same max_attempts name counts = (action, counts')" "action \<noteq> Blocked"
  shows "(case map_of counts name of None \<Rightarrow> 0 | Some k \<Rightarrow> k) + 1 < max max_same max_attempts
    \<and> counts' = dset name ((case map_of counts name of None \<Rightarrow> 0 | Some k \<Rightarrow> k) + 1) counts"
  using assms by (auto simp: guard_record_def Let_def split: if_splits)

text \<open>A visit that goes on either advances, spends the fallback, or is charged as a failure.\<close>

definition progress :: "'w pipe \<Rightarrow> string \<Rightarrow> 'w pstate \<Rightarrow> 'w pstate \<Rightarrow> bool" where
  "progress cfg name st st' \<longleftrightarrow>
     p_guard st' = p_guard st \<and> p_idx st' = p_idx st + 1
     \<or> p_guard st' = p_guard st \<and> p_idx st' = p_idx st \<and> \<not> has_fallback st \<and> has_fallback st'
     \<or> failures st name + 1 < max (pipe_max_same cfg) (pipe_max_attempts cfg)
        \<and> p_guard st' = dset name (failures st name + 1) (p_guard st)"

lemma switch_node_guard:
  "switch_node cfg index node r st = Continue st' \<Longrightarrow> p_guard st' = p_guard st"
  by (auto simp: switch_node_def Let_def pipe_ops evict_outputs_at_or_after_def
      split: if_splits sum.splits option.splits)

lemma reject_node_progress:
  assumes "reject_node cfg index node fallback r st = Continue st'" "fallback \<longleftrightarrow> has_fallback st"
  shows "progress cfg (skill_name node) st st'"
proof (cases fallback)
  case False
  then show ?thesis using assms
    by (auto simp: reject_node_def Let_def progress_def pipe_ops has_fallback_def)
next
  case True
  obtain action counts where g: "guard_record (pipe_max_same cfg) (pipe_max_attempts cfg)
      (skill_name node) (p_guard st) = (action, counts)" by fastforce
  with assms True have "action \<noteq> Blocked"
    by (auto simp: reject_node_def Let_def)
  moreover have "p_guard st' = counts"
    using assms True g
    by (auto simp: reject_node_def Let_def pipe_ops dest: switch_node_guard split: if_splits)
  ultimately show ?thesis
    using guard_record_goes_on [OF g] by (auto simp: progress_def failures_def)
qed

lemma gate_node_progress:
  assumes "gate_node cfg index node result pid fallback st = Continue st'" "fallback \<longleftrightarrow> has_fallback st"
  shows "progress cfg (skill_name node) st st'"
proof -
  obtain x w where g: "run_gate (pipe_chat cfg) (node_gate node) (p_world st) (nr_text result) (p_ctx st) = (x, w)"
    by fastforce
  show ?thesis
  proof (cases x)
    case (Inl e)
    then show ?thesis using assms(1) g by (simp add: gate_node_def end_raised_def)
  next
    case (Inr r)
    show ?thesis
    proof (cases "g_infra_failure r \<or> g_verdict r = GPass")
      case True
      then show ?thesis using assms(1) g Inr
        by (auto simp: gate_node_def Let_def commit_node_def progress_def pipe_ops split: if_splits)
    next
      case False
      define st1 where "st1 = emit_all [retract pid (g_reason r)]
        (emit_all [ev GATE_RESULT [(''skill'', JStr (skill_name node)),
            (''verdict'', JStr (verdict_value (g_verdict r))),
            (''reason'', JStr (g_reason r)), (''evidence_hash'', hash_json result)]] (st\<lparr>p_world := w\<rparr>))"
      have "reject_node cfg index node fallback r st1 = Continue st'"
        using assms(1) g Inr False by (auto simp: gate_node_def Let_def st1_def)
      moreover have "has_fallback st1 = has_fallback st"
        by (simp add: st1_def has_fallback_def pipe_ops)
      ultimately have "progress cfg (skill_name node) st1 st'"
        using assms(2) by (auto dest: reject_node_progress)
      then show ?thesis by (simp add: st1_def progress_def failures_def has_fallback_def pipe_ops)
    qed
  qed
qed

lemma visit_node_progress:
  assumes "visit_node cfg index node st = Continue st'"
  shows "progress cfg (skill_name node) st st'"
proof -
  define st1 where "st1 = emit_all [ev SKILL_START [(''skill'', JStr (skill_name node)),
      (''index'', JInt (int (p_idx st)))]] st"
  have frame: "case run_attempts cfg node 0 st1 of
     Again st' \<Rightarrow> False
   | NextAttempt r result st' \<Rightarrow> within_node st1 st'
   | Accepted result pid fb st' \<Rightarrow> within_node st1 st' \<and> (fb \<longleftrightarrow> has_fallback st')
   | Thrown e pid settled st' \<Rightarrow> \<not> settled \<and> within_node st1 st'
   | Left st' \<Rightarrow> True" by (rule run_attempts_frame)
  obtain result pid fb st2 where a: "run_attempts cfg node 0 st1 = Accepted result pid fb st2"
      "gate_node cfg index node result pid fb (pop_ctx CTX_RETRY_HINT st2) = Continue st'"
    using assms by (auto simp: visit_node_def st1_def [symmetric] end_raised_def Let_def
        split: attempt_end.splits)
  have w: "within_node st1 st2" "fb \<longleftrightarrow> has_fallback st2" using frame a(1) by simp_all
  have "progress cfg (skill_name node) (pop_ctx CTX_RETRY_HINT st2) st'"
    using a(2) w(2) by (intro gate_node_progress) (auto simp: has_fallback_def pipe_ops)
  then show ?thesis using w
    by (auto simp: progress_def failures_def within_node_def has_fallback_def pipe_ops st1_def)
qed

lemma node_step_progress:
  "node_step cfg index node st = Continue st' \<Longrightarrow> progress cfg (skill_name node) st st'"
  by (auto simp: node_step_def progress_def [of _ _ st "_ \<lparr>p_idx := _\<rparr>"] pipe_ops
      dest: visit_node_progress split: option.splits sum.splits bool.splits)

lemma fresh_at_le: "fresh_at st \<le> 1"
  by (simp add: fresh_at_def)

lemma failures_left_decreases:
  assumes "failures st name + 1 < max (pipe_max_same cfg) (pipe_max_attempts cfg)"
    and "p_guard st' = dset name (failures st name + 1) (p_guard st)"
    and "name \<in> set (map skill_name (chain_nodes (pipe_chain cfg)))"
  shows "failures_left cfg st' < failures_left cfg st"
  unfolding failures_left_def
proof (rule sum_strict_mono_ex1)
  show "\<forall>x \<in> set (map skill_name (chain_nodes (pipe_chain cfg))).
      max (pipe_max_same cfg) (pipe_max_attempts cfg) - failures st' x
      \<le> max (pipe_max_same cfg) (pipe_max_attempts cfg) - failures st x"
    using assms(2) by (auto simp: failures_def)
  have "failures st' name = failures st name + 1" using assms(2) by (simp add: failures_def)
  then show "\<exists>a \<in> set (map skill_name (chain_nodes (pipe_chain cfg))).
      max (pipe_max_same cfg) (pipe_max_attempts cfg) - failures st' a
      < max (pipe_max_same cfg) (pipe_max_attempts cfg) - failures st a"
    using assms(1,3) by (intro bexI [of _ name]) auto
qed simp

lemma progress_measure:
  assumes p: "progress cfg name st st'" and i: "p_idx st < length (chain_nodes (pipe_chain cfg))"
    and name: "name \<in> set (map skill_name (chain_nodes (pipe_chain cfg)))"
  shows "loop_measure cfg st' < loop_measure cfg st"
proof -
  let ?n = "length (chain_nodes (pipe_chain cfg))"
  consider (next_node) "p_guard st' = p_guard st" "p_idx st' = p_idx st + 1"
    | (spent) "p_guard st' = p_guard st" "p_idx st' = p_idx st" "\<not> has_fallback st" "has_fallback st'"
    | (charged) "failures_left cfg st' < failures_left cfg st"
    using p name failures_left_decreases unfolding progress_def by blast
  then show ?thesis
  proof cases
    case next_node
    then have "failures_left cfg st' = failures_left cfg st"
      by (simp add: failures_left_def failures_def)
    with next_node i fresh_at_le [of st'] show ?thesis by (simp add: loop_measure_def Let_def)
  next
    case spent
    then have "failures_left cfg st' = failures_left cfg st"
      by (simp add: failures_left_def failures_def)
    with spent show ?thesis by (simp add: loop_measure_def Let_def fresh_at_def)
  next
    case charged
    then have "(failures_left cfg st' + 1) * (2 * ?n + 2) \<le> failures_left cfg st * (2 * ?n + 2)"
      by (intro mult_le_mono1) simp
    then have "failures_left cfg st' * (2 * ?n + 2) + (2 * ?n + 2) \<le> failures_left cfg st * (2 * ?n + 2)"
      by (simp only: add_mult_distrib mult_1)
    with fresh_at_le [of st'] show ?thesis unfolding loop_measure_def Let_def by linarith
  qed
qed

function run_nodes :: "'w pipe \<Rightarrow> (string, nat) dict \<Rightarrow> 'w pstate \<Rightarrow> 'w node_end" where
  "run_nodes cfg index st =
     (if p_idx st < length (chain_nodes (pipe_chain cfg))
      then case node_step cfg index (chain_nodes (pipe_chain cfg) ! p_idx st) st of
             Continue st' \<Rightarrow> run_nodes cfg index st'
           | Stop e st' \<Rightarrow> Stop e st'
      else Continue st)"
  by pat_completeness auto
termination
  by (relation "measure (\<lambda>(cfg, index, st). loop_measure cfg st)")
    (auto intro!: progress_measure node_step_progress)

declare run_nodes.simps [simp del]

text \<open>The reply, once every node has been visited, and the pipeline.\<close>

definition final_output :: "'w pipe \<Rightarrow> 'w pstate \<Rightarrow> (string \<times> json) option" where
  "final_output cfg st =
     (case find (\<lambda>key. map_of (p_ctx st) key \<noteq> None)
             (rev (map (output_key \<circ> skill_name) (chain_nodes (pipe_chain cfg)))) of
        None \<Rightarrow> None
      | Some key \<Rightarrow> Some (key, dget (p_ctx st) key))"

definition reply_events :: "'w pipe \<Rightarrow> 'w pstate \<Rightarrow> execution_event list" where
  "reply_events cfg st =
     (case final_output cfg st of
        None \<Rightarrow> []
      | Some (key, v) \<Rightarrow>
          [ev TEXT_DELTA ([(''text'', v)]
             @ (if truthy (dget (p_provisional st) key) then [(''already_streamed'', JBool True)] else []))])"

definition finish_chain :: "'w pipe \<Rightarrow> 'w pstate \<Rightarrow> 'w pstate" where
  "finish_chain cfg st =
     emit_all [done_event] (clear_checkpoint (emit_all (reply_events cfg st) st))"

datatype pipe_error = BadTopology topology_error | BadProvisional ck_exc | NodeRaised py_exc

definition start_state ::
    "'w pipe \<Rightarrow> nat \<Rightarrow> jdict \<Rightarrow> jdict \<Rightarrow> (string, nat) dict \<Rightarrow> ck_files \<Rightarrow> 'w \<Rightarrow> 'w pstate" where
  "start_state cfg start_node_idx ctx provisional guard fs w =
     \<lparr>p_world = w, p_ctx = AList.delete CTX_PROVISIONAL_OUTPUTS ctx, p_idx = start_node_idx,
      p_backtracks = 0, p_provisional = provisional,
      p_committed = filter (\<lambda>(key, i). map_of (AList.delete CTX_PROVISIONAL_OUTPUTS ctx) key \<noteq> None)
        (map (\<lambda>(i, node). (output_key (skill_name node), i)) (enumerate 0 (chain_nodes (pipe_chain cfg)))),
      p_fallback = [], p_guard = guard, p_files = fs, p_out = []\<rparr>"

definition run_pipeline ::
    "'w pipe \<Rightarrow> nat \<Rightarrow> jdict \<Rightarrow> (string, nat) dict \<Rightarrow> ck_files \<Rightarrow> 'w
     \<Rightarrow> pipe_error option \<times> 'w pstate" where
  "run_pipeline cfg start_node_idx ctx guard fs w =
     (case validate_chain_topology (pipe_chain cfg) of
        Inl e \<Rightarrow> (Some (BadTopology e), (start_state cfg start_node_idx ctx [] guard fs w)\<lparr>p_ctx := ctx\<rparr>)
      | Inr index \<Rightarrow>
          let ledger = dget ctx CTX_PROVISIONAL_OUTPUTS in
          case (if truthy ledger then as_dict ledger else Inr []) of
            Inl e \<Rightarrow> (Some (BadProvisional e), (start_state cfg start_node_idx ctx [] guard fs w)\<lparr>p_ctx := ctx\<rparr>)
          | Inr provisional \<Rightarrow>
              (case run_nodes cfg index (start_state cfg start_node_idx ctx provisional guard fs w) of
                 Continue st \<Rightarrow> (None, finish_chain cfg st)
               | Stop e st \<Rightarrow> (map_option NodeRaised e, st)))"

end
