(* ===== verification/Pipeline_Loop.thy ===== *)
theory Pipeline_Loop
  imports Pipeline
begin

text \<open>
  The loop over the nodes of a pipeline: its termination bound, the locale \<open>chain_invariant\<close>,
  which is the interface of an invariant of the loop, and the settlement of provisional text.
\<close>

subsection \<open>The loop over the nodes\<close>

definition loop_step :: "'w pipe \<Rightarrow> (string, nat) dict \<Rightarrow> 'w pstate \<Rightarrow> 'w pstate \<Rightarrow> bool" where
  "loop_step cfg index st st' \<longleftrightarrow>
     p_idx st < length (chain_nodes (pipe_chain cfg))
     \<and> node_step cfg index (chain_nodes (pipe_chain cfg) ! p_idx st) st = Continue st'"

lemma loop_step_measure: "loop_step cfg index st st' \<Longrightarrow> loop_measure cfg st' < loop_measure cfg st"
  by (auto simp: loop_step_def intro!: progress_measure node_step_progress)

lemma loop_steps_bounded:
  "(loop_step cfg index ^^ k) st st' \<Longrightarrow> k + loop_measure cfg st' \<le> loop_measure cfg st"
proof (induction k arbitrary: st')
  case (Suc k)
  then obtain st1 where s: "(loop_step cfg index ^^ k) st st1" "loop_step cfg index st1 st'"
    by (auto elim: relpowp_Suc_E)
  show ?case using Suc.IH [OF s(1)] loop_step_measure [OF s(2)] by simp
qed simp

definition ends_with_result :: "'w pipe \<Rightarrow> (string, nat) dict \<Rightarrow> 'w pstate \<Rightarrow> 'w node_end \<Rightarrow> bool" where
  "ends_with_result cfg index st x \<longleftrightarrow>
     (if p_idx st < length (chain_nodes (pipe_chain cfg))
      then x = node_step cfg index (chain_nodes (pipe_chain cfg) ! p_idx st) st
           \<and> (case x of Stop e st' \<Rightarrow> True | Continue st' \<Rightarrow> False)
      else x = Continue st)"

lemma run_nodes_reaches:
  "\<exists>k st'. (loop_step cfg index ^^ k) st st' \<and> ends_with_result cfg index st' (run_nodes cfg index st)"
proof (induction cfg index st rule: run_nodes.induct)
  case (1 cfg index st)
  let ?node = "chain_nodes (pipe_chain cfg) ! p_idx st"
  show ?case
  proof (cases "p_idx st < length (chain_nodes (pipe_chain cfg))")
    case False
    then show ?thesis
      by (intro exI [of _ 0] exI [of _ st]) (simp add: run_nodes.simps [of cfg index st] ends_with_result_def)
  next
    case True
    show ?thesis
    proof (cases "node_step cfg index ?node st")
      case (Continue st1)
      with 1 True obtain k st' where "(loop_step cfg index ^^ k) st1 st'"
          "ends_with_result cfg index st' (run_nodes cfg index st1)" by blast
      moreover have "loop_step cfg index st st1" using True Continue by (simp add: loop_step_def)
      moreover have "run_nodes cfg index st = run_nodes cfg index st1"
        using True Continue by (simp add: run_nodes.simps [of cfg index st])
      ultimately show ?thesis by (metis relpowp_Suc_I2)
    next
      case (Stop e st1)
      then show ?thesis using True
        by (intro exI [of _ 0] exI [of _ st]) (simp add: run_nodes.simps [of cfg index st] ends_with_result_def)
    qed
  qed
qed

text \<open>
  The interface of an invariant of the chain: what every visit that goes on keeps, and what
  every visit that stops establishes.
\<close>

locale chain_invariant =
  fixes cfg :: "'w pipe" and index :: "(string, nat) dict"
    and inv :: "'w pstate \<Rightarrow> bool" and stopped :: "py_exc option \<Rightarrow> 'w pstate \<Rightarrow> bool"
  assumes goes_on: "inv st \<Longrightarrow> i < length (chain_nodes (pipe_chain cfg)) \<Longrightarrow> p_idx st = i
      \<Longrightarrow> node_step cfg index (chain_nodes (pipe_chain cfg) ! i) st = Continue st' \<Longrightarrow> inv st'"
    and stops: "inv st \<Longrightarrow> i < length (chain_nodes (pipe_chain cfg)) \<Longrightarrow> p_idx st = i
      \<Longrightarrow> node_step cfg index (chain_nodes (pipe_chain cfg) ! i) st = Stop e st' \<Longrightarrow> stopped e st'"
begin

lemma reached: "(loop_step cfg index ^^ k) st st' \<Longrightarrow> inv st \<Longrightarrow> inv st'"
proof (induction k arbitrary: st')
  case (Suc k)
  then show ?case by (auto elim!: relpowp_Suc_E simp: loop_step_def intro: goes_on)
qed simp

lemma reached_star: "(loop_step cfg index)\<^sup>*\<^sup>* st st' \<Longrightarrow> inv st \<Longrightarrow> inv st'"
  by (auto simp: rtranclp_power intro: reached)

lemma finished:
  assumes "inv st"
  shows "run_nodes cfg index st = Continue st' \<Longrightarrow>
           inv st' \<and> length (chain_nodes (pipe_chain cfg)) \<le> p_idx st'"
    and "run_nodes cfg index st = Stop e st' \<Longrightarrow> stopped e st'"
proof -
  obtain k st1 where k: "(loop_step cfg index ^^ k) st st1"
      and e: "ends_with_result cfg index st1 (run_nodes cfg index st)"
    using run_nodes_reaches by blast
  have i: "inv st1" using reached [OF k assms] .
  show "run_nodes cfg index st = Continue st' \<Longrightarrow>
           inv st' \<and> length (chain_nodes (pipe_chain cfg)) \<le> p_idx st'"
    using e i by (simp add: ends_with_result_def split: if_splits)
  show "run_nodes cfg index st = Stop e st' \<Longrightarrow> stopped e st'"
    using e stops [OF i _ refl, of e st'] by (simp add: ends_with_result_def split: if_splits)
qed

end

lemma failures_left_bound:
  "failures_left cfg st
     \<le> length (chain_nodes (pipe_chain cfg)) * max (pipe_max_same cfg) (pipe_max_attempts cfg)"
proof -
  let ?names = "set (map skill_name (chain_nodes (pipe_chain cfg)))"
  have "failures_left cfg st \<le> card ?names * max (pipe_max_same cfg) (pipe_max_attempts cfg)"
    unfolding failures_left_def
    using sum_bounded_above [of ?names _ "max (pipe_max_same cfg) (pipe_max_attempts cfg)"] by simp
  also have "\<dots> \<le> length (chain_nodes (pipe_chain cfg)) * max (pipe_max_same cfg) (pipe_max_attempts cfg)"
    by (intro mult_le_mono1) (metis card_length length_map)
  finally show ?thesis .
qed

definition visit_bound :: "'w pipe \<Rightarrow> nat" where
  "visit_bound cfg =
     (let n = length (chain_nodes (pipe_chain cfg)) in
      n * max (pipe_max_same cfg) (pipe_max_attempts cfg) * (2 * n + 2) + 2 * n + 1)"

lemma loop_measure_bound: "loop_measure cfg st \<le> visit_bound cfg"
proof -
  let ?n = "length (chain_nodes (pipe_chain cfg))"
  have "failures_left cfg st * (2 * ?n + 2)
      \<le> ?n * max (pipe_max_same cfg) (pipe_max_attempts cfg) * (2 * ?n + 2)"
    by (rule mult_le_mono1 [OF failures_left_bound])
  moreover have "fresh_at st \<le> 1" by (rule fresh_at_le)
  ultimately show ?thesis unfolding loop_measure_def visit_bound_def Let_def by simp
qed

text \<open>
  C26. Every pipeline ends.  Whatever the agents, the gates and their model answer, and
  whatever the guard has counted before, the loop visits nodes at most
  \<^verbatim>\<open>n * L * (2n + 2) + 2n + 1\<close> times, for \<open>n\<close> nodes and \<open>L\<close> the larger limit of the failure
  guard, and then \<open>run_nodes\<close> returns what the last visit decided: the end of the chain, an
  early return, or an exception.
\<close>
theorem pipeline_terminates:
  "\<exists>k st'. k \<le> visit_bound cfg \<and> (loop_step cfg index ^^ k) st st'
     \<and> ends_with_result cfg index st' (run_nodes cfg index st)"
proof -
  obtain k st' where k: "(loop_step cfg index ^^ k) st st'"
      "ends_with_result cfg index st' (run_nodes cfg index st)"
    using run_nodes_reaches by blast
  have "k \<le> visit_bound cfg"
    using loop_steps_bounded [OF k(1)] loop_measure_bound [of cfg st] by simp
  with k show ?thesis by blast
qed

subsection \<open>Provisional text\<close>

text \<open>The attempts whose streamed text is neither committed nor retracted yet.\<close>

definition provision_of_event :: "execution_event \<Rightarrow> json" where
  "provision_of_event e = dget (ev_data e) ''provision_id''"

definition open_step :: "json list \<Rightarrow> execution_event \<Rightarrow> json list" where
  "open_step pids e =
     (case ev_type e of
        PROVISIONAL_TEXT_DELTA \<Rightarrow> provision_of_event e # pids
      | PROVISIONAL_COMMIT \<Rightarrow> removeAll (provision_of_event e) pids
      | PROVISIONAL_RETRACT \<Rightarrow> removeAll (provision_of_event e) pids
      | _ \<Rightarrow> pids)"

definition open_text :: "execution_event list \<Rightarrow> json list" where
  "open_text es = foldl open_step [] es"

definition only_open :: "json list \<Rightarrow> 'w pstate \<Rightarrow> bool" where
  "only_open pids st \<longleftrightarrow> set (open_text (p_out st)) \<subseteq> set pids"

text \<open>An agent run by the pipeline leaves the provisional events to the pipeline.\<close>

definition quiet_agent :: "'w pipe \<Rightarrow> bool" where
  "quiet_agent cfg \<longleftrightarrow>
     (\<forall>w request. list_all (\<lambda>e. ev_type e \<noteq> PROVISIONAL_TEXT_DELTA) (fst (fst (pipe_exec cfg w request))))"

lemma foldl_open_quiet:
  "list_all (\<lambda>e. ev_type e \<noteq> PROVISIONAL_TEXT_DELTA) es \<Longrightarrow> set (foldl open_step pids es) \<subseteq> set pids"
proof (induction es arbitrary: pids)
  case (Cons e es)
  then have "set (open_step pids e) \<subseteq> set pids"
    by (auto simp: open_step_def split: event_type.split)
  with Cons show ?case by fastforce
qed simp

lemma collect_one_open:
  assumes "ev_type e \<noteq> PROVISIONAL_TEXT_DELTA"
  shows "set (foldl open_step pids (fst (collect_one pid suppress e r))) \<subseteq> insert (JStr pid) (set pids)"
  using assms
  by (auto simp: collect_one_def Let_def open_step_def provision_of_event_def dget_def
      split: event_type.split option.split)

lemma collect_events_open:
  "list_all (\<lambda>e. ev_type e \<noteq> PROVISIONAL_TEXT_DELTA) es \<Longrightarrow>
     set (foldl open_step pids (fst (collect_events pid suppress es r))) \<subseteq> insert (JStr pid) (set pids)"
proof (induction es arbitrary: pids r)
  case (Cons e es)
  obtain out1 r1 where o: "collect_one pid suppress e r = (out1, r1)" by fastforce
  have "set (foldl open_step pids out1) \<subseteq> insert (JStr pid) (set pids)"
    using collect_one_open [of e pids pid suppress r] Cons.prems o by simp
  moreover have "set (foldl open_step (foldl open_step pids out1) (fst (collect_events pid suppress es r1)))
      \<subseteq> insert (JStr pid) (set (foldl open_step pids out1))"
    using Cons.IH Cons.prems by simp
  moreover have "fst (collect_events pid suppress (e # es) r)
      = out1 @ fst (collect_events pid suppress es r1)"
    using o by (simp split: prod.split)
  ultimately show ?case by (simp only: foldl_append) (blast intro: order_trans)
qed (simp add: subset_insertI)

lemma attempt_start_open:
  assumes "quiet_agent cfg" "only_open [] st"
    and "pipe_exec cfg w1 rq = ((es, exc), w2)"
    and "collect_node_events digest pid suppress es = (out, result)"
    and "p_out st1 = p_out st"
  shows "only_open [JStr pid] (emit_all out st1)"
proof -
  have "list_all (\<lambda>e. ev_type e \<noteq> PROVISIONAL_TEXT_DELTA) es"
    using assms(1,3) unfolding quiet_agent_def by (metis fst_conv)
  then have "set (foldl open_step (open_text (p_out st)) out) \<subseteq> insert (JStr pid) (set (open_text (p_out st)))"
    using collect_events_open [of es "open_text (p_out st)" pid suppress empty_result] assms(4)
    by (simp add: collect_node_events_def split: prod.splits)
  with assms(2,5) show ?thesis by (auto simp: only_open_def open_text_def emit_all_def)
qed

text \<open>How an attempt and a visit leave the provisional text.\<close>

definition attempt_open :: "string \<Rightarrow> 'w attempt_end \<Rightarrow> bool" where
  "attempt_open pid x \<longleftrightarrow>
     (case x of
        Again st \<Rightarrow> only_open [] st
      | NextAttempt r result st \<Rightarrow> only_open [] st
      | Accepted result p fb st \<Rightarrow> p = pid \<and> only_open [JStr pid] st
      | Left st \<Rightarrow> only_open [] st
      | Thrown e p settled st \<Rightarrow> p = pid \<and> only_open [JStr pid] st)"

lemmas open_eval = open_step_def open_text_def only_open_def provision_of_event_def dget_def
  retract_def done_event_def skill_end_def skill_events_data_def blocked_event_def

lemma removeAll_Nil [simp]: "removeAll x xs = [] \<longleftrightarrow> set xs \<subseteq> {x}"
  by (induction xs) auto

lemma incomplete_attempt_open:
  "only_open [JStr pid] st \<Longrightarrow> attempt_open pid (incomplete_attempt node fallback pid result why st)"
  by (simp add: incomplete_attempt_def attempt_open_def Let_def open_eval pipe_ops)

lemma pause_node_open: "only_open [JStr pid] st \<Longrightarrow> only_open [] (pause_node cfg node await_mark pid result st)"
  by (simp add: pause_node_def Let_def open_eval pipe_ops)

lemma judge_attempt_open:
  "only_open [JStr pid] st \<Longrightarrow> attempt_open pid (judge_attempt cfg node fallback pid result st)"
proof (cases "awaits_user node (nr_text result)")
  case None
  moreover assume "only_open [JStr pid] st"
  ultimately show ?thesis
    by (simp add: judge_attempt_def attempt_open_def Let_def gate_unavailable_events_def open_eval pipe_ops
        split: option.split sum.split prod.split)
next
  case (Some await_mark)
  moreover assume "only_open [JStr pid] st"
  ultimately show ?thesis by (simp add: judge_attempt_def attempt_open_def pause_node_open)
qed

lemma end_attempt_open:
  assumes "only_open [JStr pid] st"
  shows "attempt_open pid (end_attempt cfg node fallback pid exc result st)"
proof (cases exc)
  case None
  with assms show ?thesis
    by (simp add: end_attempt_def incomplete_attempt_open judge_attempt_open split: option.split)
next
  case (Some e)
  with assms show ?thesis
    by (simp add: end_attempt_def attempt_open_def Let_def open_eval pipe_ops)
qed

lemma attempt_once_open:
  assumes "quiet_agent cfg" "only_open [] st"
  shows "\<exists>pid. attempt_open pid (attempt_once cfg node attempt st)"
proof (cases rule: attempt_onceE [where cfg = cfg and st = st and node = node and attempt = attempt])
  case (run unique w1 es exc w2 out result)
  define st1 where "st1 = (case fallback_for cfg node st of None \<Rightarrow> st
      | Some why \<Rightarrow> set_fallback (p_idx st) why st)\<lparr>p_world := w2\<rparr>"
  have "p_out st1 = p_out st" by (simp add: st1_def set_fallback_def split: option.split)
  with attempt_start_open [OF assms run(2,3)]
  have "only_open [JStr (provision_of node (p_idx st) attempt unique)] (emit_all out st1)" by blast
  then show ?thesis unfolding run(4) st1_def [symmetric] by (blast intro: end_attempt_open)
qed

lemma run_attempts_open:
  "quiet_agent cfg \<Longrightarrow> only_open [] st \<Longrightarrow> \<exists>pid. attempt_open pid (run_attempts cfg node attempt st)"
proof (induction cfg node attempt st rule: run_attempts.induct)
  case (1 cfg node attempt st)
  obtain pid where a: "attempt_open pid (attempt_once cfg node attempt st)"
    using attempt_once_open 1 by blast
  show ?case
  proof (cases "attempt_once cfg node attempt st")
    case (Again st1)
    with a 1 show ?thesis
      by (simp add: run_attempts.simps [of cfg node attempt st] attempt_open_def)
  next
    case (NextAttempt r res st1)
    with a 1 show ?thesis
      by (cases "attempt + 1 < max_attempts_of cfg")
        (simp_all add: run_attempts.simps [of cfg node attempt st] attempt_open_def)
  qed (use a in \<open>auto simp: run_attempts.simps [of cfg node attempt st] attempt_open_def\<close>)
qed

lemma only_open_updates [simp]:
  "only_open pids (st\<lparr>p_world := w\<rparr>) = only_open pids st"
  "only_open pids (st\<lparr>p_ctx := d\<rparr>) = only_open pids st"
  "only_open pids (st\<lparr>p_idx := i\<rparr>) = only_open pids st"
  "only_open pids (st\<lparr>p_backtracks := i\<rparr>) = only_open pids st"
  "only_open pids (st\<lparr>p_provisional := d\<rparr>) = only_open pids st"
  "only_open pids (st\<lparr>p_committed := c\<rparr>) = only_open pids st"
  "only_open pids (st\<lparr>p_fallback := f\<rparr>) = only_open pids st"
  "only_open pids (st\<lparr>p_guard := c\<rparr>) = only_open pids st"
  "only_open pids (st\<lparr>p_files := fs\<rparr>) = only_open pids st"
  "only_open pids (clear_checkpoint st) = only_open pids st"
  "only_open pids (save_checkpoint cfg k name b st) = only_open pids st"
  "only_open pids (set_hint h st) = only_open pids st"
  "only_open pids (set_ctx key v st) = only_open pids st"
  "only_open pids (pop_ctx key st) = only_open pids st"
  "only_open pids (set_fallback i why st) = only_open pids st"
  "only_open pids (evict_outputs_at_or_after i st) = only_open pids st"
  by (simp_all add: only_open_def set_ctx_def pop_ctx_def set_fallback_def
      evict_outputs_at_or_after_def Let_def)

lemma only_open_emit:
  "only_open pids st \<Longrightarrow> list_all (\<lambda>e. ev_type e \<noteq> PROVISIONAL_TEXT_DELTA) es \<Longrightarrow> only_open pids (emit_all es st)"
  using foldl_open_quiet [of es "open_text (p_out st)"]
  by (auto simp: only_open_def open_text_def emit_all_def)

lemma only_open_settle:
  "only_open [JStr pid] st \<Longrightarrow> list_all (\<lambda>e. ev_type e \<noteq> PROVISIONAL_TEXT_DELTA) es
     \<Longrightarrow> ev_type e \<in> {PROVISIONAL_COMMIT, PROVISIONAL_RETRACT} \<Longrightarrow> provision_of_event e = JStr pid
     \<Longrightarrow> only_open [] (emit_all (e # es) st)"
proof -
  assume o: "only_open [JStr pid] st"
    and q: "list_all (\<lambda>e. ev_type e \<noteq> PROVISIONAL_TEXT_DELTA) es"
    and e: "ev_type e \<in> {PROVISIONAL_COMMIT, PROVISIONAL_RETRACT}" "provision_of_event e = JStr pid"
  have "open_step (open_text (p_out st)) e = []"
    using o e by (auto simp: open_step_def only_open_def)
  moreover have "open_text (p_out (emit_all (e # es) st)) = foldl open_step (open_step (open_text (p_out st)) e) es"
    by (simp add: open_text_def emit_all_def)
  ultimately show ?thesis using foldl_open_quiet [OF q, of "[]"] by (simp add: only_open_def)
qed

lemma retract_fields [simp]:
  "ev_type (retract pid why) = PROVISIONAL_RETRACT" "provision_of_event (retract pid why) = JStr pid"
  by (simp_all add: retract_def provision_of_event_def dget_def)

lemma plain_events [simp]:
  "ev_type (skill_end name stat) = SKILL_END" "ev_type done_event = DONE"
  "ev_type (blocked_event name why) = BLOCKED"
  by (simp_all add: skill_end_def done_event_def blocked_event_def)

lemma end_blocked_open: "only_open [] st \<Longrightarrow> ev_type e = BLOCKED \<Longrightarrow> only_open [] (end_blocked name e st)"
  unfolding end_blocked_def by (rule only_open_emit) simp_all

definition node_open :: "'w node_end \<Rightarrow> bool" where
  "node_open x = (case x of Continue st \<Rightarrow> only_open [] st | Stop e st \<Rightarrow> only_open [] st)"

lemma node_open_simps [simp]:
  "node_open (Continue st) = only_open [] st" "node_open (Stop e st) = only_open [] st"
  by (simp_all add: node_open_def)

lemma switch_node_open: "only_open [] st \<Longrightarrow> node_open (switch_node cfg index node r st)"
  by (auto simp: switch_node_def Let_def node_open_def split: sum.split option.split
      intro!: end_blocked_open only_open_emit)

lemma reject_node_open: "only_open [] st \<Longrightarrow> node_open (reject_node cfg index node fallback r st)"
proof -
  assume st: "only_open [] st"
  obtain action counts where g: "guard_record (pipe_max_same cfg) (pipe_max_attempts cfg)
      (skill_name node) (p_guard st) = (action, counts)" by fastforce
  have "node_open (switch_node cfg index node r (st\<lparr>p_guard := counts\<rparr>))"
    using st by (simp add: switch_node_open)
  moreover have "only_open [] (end_blocked (skill_name node) (blocked_event (skill_name node) (g_reason r))
      (st\<lparr>p_guard := counts\<rparr>))"
    using st by (simp add: end_blocked_open)
  moreover have "only_open [] (emit_all [skill_end (skill_name node) ''retry''] s)" if "only_open [] s" for s :: "'a pstate"
    using that by (rule only_open_emit) simp
  ultimately show ?thesis using st g
    by (simp add: reject_node_def Let_def)
qed

lemma commit_node_open: "only_open [JStr pid] st \<Longrightarrow> only_open [] (commit_node cfg node pid result st)"
  by (simp add: commit_node_def Let_def open_eval pipe_ops)

lemma end_raised_open: "only_open [JStr pid] st \<Longrightarrow> \<not> settled \<Longrightarrow> node_open (end_raised name e pid settled st)"
  by (simp add: end_raised_def node_open_def open_eval pipe_ops)

lemma gate_node_open:
  assumes "only_open [JStr pid] st"
  shows "node_open (gate_node cfg index node result pid fallback st)"
proof -
  obtain x w where g: "run_gate (pipe_chat cfg) (node_gate node) (p_world st) (nr_text result) (p_ctx st) = (x, w)"
    by fastforce
  show ?thesis
  proof (cases x)
    case (Inl e)
    with g assms show ?thesis
      by (simp add: gate_node_def end_raised_open)
  next
    case (Inr r)
    define st1 where "st1 = emit_all [ev GATE_RESULT [(''skill'', JStr (skill_name node)),
        (''verdict'', JStr (verdict_value (g_verdict r))),
        (''reason'', JStr (g_reason r)), (''evidence_hash'', hash_json result)]] (st\<lparr>p_world := w\<rparr>)"
    have s: "only_open [JStr pid] st1"
      unfolding st1_def by (rule only_open_emit) (use assms in simp_all)
    have "only_open [] (emit_all [retract pid (g_reason r)] st1)"
      using s by (rule only_open_settle) simp_all
    moreover have "only_open [] (emit_all (gate_unavailable_events (skill_name node) pid (g_reason r)) st1)"
      unfolding gate_unavailable_events_def using s by (rule only_open_settle) simp_all
    moreover have "gate_node cfg index node result pid fallback st =
        (if g_infra_failure r
         then Stop None (emit_all (gate_unavailable_events (skill_name node) pid (g_reason r)) st1)
         else if g_verdict r = GPass then Continue (commit_node cfg node pid result st1)
         else reject_node cfg index node fallback r (emit_all [retract pid (g_reason r)] st1))"
      using g Inr by (simp add: gate_node_def st1_def Let_def)
    ultimately show ?thesis using s by (simp add: reject_node_open commit_node_open)
  qed
qed

lemma visit_node_open:
  assumes "quiet_agent cfg" "only_open [] st"
  shows "node_open (visit_node cfg index node st)"
proof -
  define st1 where "st1 = emit_all [ev SKILL_START [(''skill'', JStr (skill_name node)),
      (''index'', JInt (int (p_idx st)))]] st"
  have "only_open [] st1" unfolding st1_def using assms(2) by (rule only_open_emit) simp
  then obtain pid where a: "attempt_open pid (run_attempts cfg node 0 st1)"
    using run_attempts_open [OF assms(1)] by blast
  have v: "visit_node cfg index node st = (case run_attempts cfg node 0 st1 of
           Left st2 \<Rightarrow> Stop None st2
         | Thrown e provision_id settled st2 \<Rightarrow> end_raised (skill_name node) e provision_id settled st2
         | Accepted result provision_id fallback st2 \<Rightarrow>
             gate_node cfg index node result provision_id fallback (pop_ctx CTX_RETRY_HINT st2)
         | NextAttempt r result st2 \<Rightarrow>
             Stop None (end_blocked (skill_name node)
               (ev BLOCKED [(''skill'', JStr (skill_name node)), (''reason'', JStr (g_reason r)),
                            (''evidence_hash'', hash_json result)]) (pop_ctx CTX_RETRY_HINT st2))
         | Again st2 \<Rightarrow> Stop None st2)"
    by (simp add: visit_node_def Let_def st1_def)
  show ?thesis
  proof (cases "run_attempts cfg node 0 st1")
    case (Left st2)
    with a show ?thesis by (simp add: v attempt_open_def)
  next
    case (Again st2)
    with a show ?thesis by (simp add: v attempt_open_def)
  next
    case (NextAttempt r res st2)
    with a show ?thesis by (simp add: v attempt_open_def end_blocked_open)
  next
    case (Thrown e p settled st2)
    then have "\<not> settled" using run_attempts_frame [where cfg = cfg and node = node and attempt = 0 and st = st1] by simp
    with Thrown a show ?thesis by (simp add: v attempt_open_def end_raised_open)
  qed (use a in \<open>simp_all add: v attempt_open_def gate_node_open end_blocked_open\<close>)
qed

lemma node_step_open:
  assumes "quiet_agent cfg" "only_open [] st"
  shows "node_open (node_step cfg index node st)"
  using visit_node_open [OF assms] assms(2)
  by (auto simp: node_step_def split: option.split sum.split bool.split)

lemma finish_chain_open: "only_open [] st \<Longrightarrow> only_open [] (finish_chain cfg st)"
  unfolding finish_chain_def reply_events_def
  by (rule only_open_emit) (auto intro!: only_open_emit split: option.split)

interpretation provisional: chain_invariant cfg index
    "\<lambda>st. quiet_agent cfg \<and> only_open [] st" "\<lambda>e. only_open []" for cfg index
proof unfold_locales
  fix st :: "'a pstate" and i st'
  assume "quiet_agent cfg \<and> only_open [] st"
    "node_step cfg index (chain_nodes (pipe_chain cfg) ! i) st = Continue st'"
  then show "quiet_agent cfg \<and> only_open [] st'"
    using node_step_open [of cfg st index "chain_nodes (pipe_chain cfg) ! i"] by simp
next
  fix st :: "'a pstate" and i e st'
  assume "quiet_agent cfg \<and> only_open [] st"
    "node_step cfg index (chain_nodes (pipe_chain cfg) ! i) st = Stop e st'"
  then show "only_open [] st'"
    using node_step_open [of cfg st index "chain_nodes (pipe_chain cfg) ! i"] by simp
qed

lemma start_state_open [simp]: "only_open [] (start_state cfg start ctx provisional guard fs w)"
  by (simp add: start_state_def only_open_def open_text_def)

text \<open>
  C27. Text that a pipeline streams before a gate has judged it is always settled: whenever the
  pipeline ends, by any reply, block, question, outage or exception, no attempt is left whose
  provisional text was neither committed nor retracted afterwards.
\<close>
theorem streamed_text_is_settled:
  assumes "quiet_agent cfg"
  shows "open_text (p_out (snd (run_pipeline cfg start ctx guard fs w))) = []"
proof -
  have "only_open [] (snd (run_pipeline cfg start ctx guard fs w))"
    using provisional.finished [of cfg "start_state cfg start ctx _ guard fs w"] assms
    by (auto simp: run_pipeline_def Let_def finish_chain_open split: sum.split node_end.split)
  then show ?thesis by (simp add: only_open_def)
qed

end
