(* ===== verification/Pipeline_Safety.thy ===== *)
theory Pipeline_Safety
  imports Pipeline_Loop
begin

text \<open>
  What the pipeline executor guarantees: the provenance of the reply, the eviction of superseded
  outputs, the announced end and the gates behind a language model, with an example chain.
\<close>

subsection \<open>What reaches the context\<close>

text \<open>Some call of a gate on this output passed it, and so did one of every base gate.\<close>

definition passed_by :: "'w pipe \<Rightarrow> 'w gate \<Rightarrow> string \<Rightarrow> bool" where
  "passed_by cfg g output \<longleftrightarrow>
     (\<exists>w ctx r w'. run_gate (pipe_chat cfg) g w output ctx = (Inr r, w') \<and> g_verdict r = GPass)"

definition gates_accept :: "'w pipe \<Rightarrow> 'w skill_node \<Rightarrow> string \<Rightarrow> bool" where
  "gates_accept cfg node output \<longleftrightarrow>
     list_all (\<lambda>g. passed_by cfg g output) (node_gate node # base_gates (pipe_chain cfg))"

abbreviation okey :: "'w skill_node \<Rightarrow> string" where
  "okey node \<equiv> output_key (skill_name node)"

lemma output_key_eq [simp]: "output_key a = output_key b \<longleftrightarrow> a = b"
  by (simp add: output_key_def)

lemma output_key_hint [simp]: "output_key name \<noteq> CTX_RETRY_HINT"
proof
  assume "output_key name = CTX_RETRY_HINT"
  then have "drop (length (output_key name) - 7) (output_key name) = ''ry_hint''"
    by (simp add: CTX_RETRY_HINT_def)
  then show False by (simp add: output_key_def)
qed

lemma check_base_gates_pass:
  "check_base_gates (pipe_chat cfg) gs w output ctx = (Inr r, w') \<Longrightarrow> g_verdict r = GPass
     \<Longrightarrow> list_all (\<lambda>g. passed_by cfg g output) gs"
proof (induction gs arbitrary: w)
  case (Cons g gs)
  then show ?case
    by (auto simp: passed_by_def split: prod.splits sum.splits if_splits)
qed simp

lemma attempt_once_accepted:
  assumes "attempt_once cfg node attempt st = Accepted result pid fb st'"
  shows "list_all (\<lambda>g. passed_by cfg g (nr_text result)) (base_gates (pipe_chain cfg))"
proof (cases rule: attempt_onceE [where cfg = cfg and st = st and node = node and attempt = attempt])
  case (run unique w1 es exc w2 out res)
  show ?thesis using assms unfolding run(4)
    by (auto simp: end_attempt_def judge_attempt_def incomplete_attempt_def Let_def
        split: option.splits sum.splits prod.splits if_splits dest: check_base_gates_pass)
qed

lemma run_attempts_accepted:
  "run_attempts cfg node attempt st = Accepted result pid fb st' \<Longrightarrow>
     list_all (\<lambda>g. passed_by cfg g (nr_text result)) (base_gates (pipe_chain cfg))"
proof (induction cfg node attempt st rule: run_attempts.induct)
  case (1 cfg node attempt st)
  then show ?case
    by (auto simp: run_attempts.simps [of cfg node attempt st]
        split: attempt_end.splits if_splits dest: attempt_once_accepted)
qed

lemma map_of_filter_keys [simp]:
  "map_of (filter (\<lambda>(k, v). P k) d) k = (if P k then map_of d k else None)"
  by (induction d) auto

definition stale :: "nat \<Rightarrow> (string, nat) dict \<Rightarrow> string set" where
  "stale i committed = fst ` {x \<in> set committed. i \<le> snd x}"

lemma evict_fields [simp]:
  "map_of (p_ctx (evict_outputs_at_or_after i st)) k =
     (if k \<in> stale i (p_committed st) then None else map_of (p_ctx st) k)"
  "p_committed (evict_outputs_at_or_after i st) =
     filter (\<lambda>(k, j). k \<notin> stale i (p_committed st)) (p_committed st)"
  "p_idx (evict_outputs_at_or_after i st) = p_idx st"
  "p_guard (evict_outputs_at_or_after i st) = p_guard st"
  "p_fallback (evict_outputs_at_or_after i st) = p_fallback st"
  "p_files (evict_outputs_at_or_after i st) = p_files st"
proof -
  have "fst ` {x \<in> set c. case x of (k, j) \<Rightarrow> i \<le> j} = stale i c" for c :: "(string, nat) dict"
    by (auto simp: stale_def)
  then show "map_of (p_ctx (evict_outputs_at_or_after i st)) k =
      (if k \<in> stale i (p_committed st) then None else map_of (p_ctx st) k)"
    and "p_committed (evict_outputs_at_or_after i st) =
      filter (\<lambda>(k, j). k \<notin> stale i (p_committed st)) (p_committed st)"
    by (simp_all add: evict_outputs_at_or_after_def Let_def)
qed (simp_all add: evict_outputs_at_or_after_def Let_def)

text \<open>The three ways in which a visit that goes on treats the outputs.\<close>

definition keeps_outputs :: "'w pstate \<Rightarrow> 'w pstate \<Rightarrow> bool" where
  "keeps_outputs st st' \<longleftrightarrow>
     (\<forall>k. k \<noteq> CTX_RETRY_HINT \<longrightarrow> map_of (p_ctx st') k = map_of (p_ctx st) k)
     \<and> p_committed st' = p_committed st"

definition commits :: "'w skill_node \<Rightarrow> string \<Rightarrow> 'w pstate \<Rightarrow> 'w pstate \<Rightarrow> bool" where
  "commits node output st st' \<longleftrightarrow>
     p_idx st' = p_idx st + 1 \<and> p_committed st' = dset (okey node) (p_idx st) (p_committed st)
     \<and> (\<forall>k. k \<noteq> CTX_RETRY_HINT \<longrightarrow> map_of (p_ctx st') k = ((map_of (p_ctx st))(okey node \<mapsto> JStr output)) k)"

definition outputs_step :: "'w pipe \<Rightarrow> 'w skill_node \<Rightarrow> 'w pstate \<Rightarrow> 'w pstate \<Rightarrow> bool" where
  "outputs_step cfg node st st' \<longleftrightarrow>
     keeps_outputs st st' \<and> p_idx st \<le> p_idx st'
     \<or> (\<exists>output. gates_accept cfg node output \<and> commits node output st st')
     \<or> keeps_outputs (evict_outputs_at_or_after (p_idx st') st) st'"

lemma set_hint_outputs: "k \<noteq> CTX_RETRY_HINT \<Longrightarrow> map_of (p_ctx (set_hint h st)) k = map_of (p_ctx st) k"
  by (simp add: set_hint_def set_ctx_def split: option.split)

lemma switch_node_outputs:
  "switch_node cfg index node r st = Continue st' \<Longrightarrow> keeps_outputs (evict_outputs_at_or_after (p_idx st') st) st'"
  by (auto simp: switch_node_def Let_def keeps_outputs_def pipe_ops set_hint_outputs
      split: if_splits sum.splits option.splits)

lemma reject_node_outputs:
  assumes "reject_node cfg index node fallback r st = Continue st'"
  shows "outputs_step cfg node st st'"
proof -
  obtain action counts where g: "guard_record (pipe_max_same cfg) (pipe_max_attempts cfg)
      (skill_name node) (p_guard st) = (action, counts)" by fastforce
  consider (here) "keeps_outputs st st'" "p_idx st' = p_idx st"
    | (back_to) "switch_node cfg index node r (st\<lparr>p_guard := counts\<rparr>) = Continue st'"
    using assms g
    by (auto simp: reject_node_def Let_def keeps_outputs_def pipe_ops set_hint_outputs split: if_splits)
  then show ?thesis
  proof cases
    case here
    then show ?thesis by (simp add: outputs_step_def)
  next
    case back_to
    then have "keeps_outputs (evict_outputs_at_or_after (p_idx st') st) st'"
      by (auto dest!: switch_node_outputs simp: keeps_outputs_def)
    then show ?thesis by (simp add: outputs_step_def)
  qed
qed

lemma outputs_step_frame:
  assumes "outputs_step cfg node st1 st'" "keeps_outputs st st1" "p_idx st1 = p_idx st"
  shows "outputs_step cfg node st st'"
proof -
  have "keeps_outputs (evict_outputs_at_or_after i st) (evict_outputs_at_or_after i st1)" for i
    using assms(2)
    by (auto simp: keeps_outputs_def)
  with assms show ?thesis
    by (auto simp: outputs_step_def keeps_outputs_def commits_def)
qed

lemma gate_node_outputs:
  assumes "gate_node cfg index node result pid fallback st = Continue st'"
    and "list_all (\<lambda>g. passed_by cfg g (nr_text result)) (base_gates (pipe_chain cfg))"
  shows "outputs_step cfg node st st'"
proof -
  obtain x w where g: "run_gate (pipe_chat cfg) (node_gate node) (p_world st) (nr_text result) (p_ctx st) = (x, w)"
    by fastforce
  obtain r where r: "x = Inr r" "\<not> g_infra_failure r"
    using assms(1) g by (cases x) (auto simp: gate_node_def end_raised_def Let_def split: if_splits)
  define st1 where "st1 = emit_all [ev GATE_RESULT [(''skill'', JStr (skill_name node)),
      (''verdict'', JStr (verdict_value (g_verdict r))),
      (''reason'', JStr (g_reason r)), (''evidence_hash'', hash_json result)]] (st\<lparr>p_world := w\<rparr>)"
  show ?thesis
  proof (cases "g_verdict r = GPass")
    case True
    have "gates_accept cfg node (nr_text result)"
      using g r True assms(2) by (auto simp: gates_accept_def passed_by_def)
    moreover have "commits node (nr_text result) st st'"
      using assms(1) g r True by (auto simp: gate_node_def Let_def commit_node_def commits_def pipe_ops)
    ultimately show ?thesis by (auto simp: outputs_step_def)
  next
    case False
    then have "reject_node cfg index node fallback r (emit_all [retract pid (g_reason r)] st1) = Continue st'"
      using assms(1) g r by (simp add: gate_node_def Let_def st1_def)
    then have "outputs_step cfg node (emit_all [retract pid (g_reason r)] st1) st'"
      by (rule reject_node_outputs)
    then show ?thesis
      by (rule outputs_step_frame) (simp_all add: st1_def keeps_outputs_def pipe_ops)
  qed
qed

lemma visit_node_outputs:
  assumes "visit_node cfg index node st = Continue st'"
  shows "outputs_step cfg node st st'"
proof -
  define st1 where "st1 = emit_all [ev SKILL_START [(''skill'', JStr (skill_name node)),
      (''index'', JInt (int (p_idx st)))]] st"
  obtain result pid fb st2 where a: "run_attempts cfg node 0 st1 = Accepted result pid fb st2"
      "gate_node cfg index node result pid fb (pop_ctx CTX_RETRY_HINT st2) = Continue st'"
    using assms by (auto simp: visit_node_def st1_def [symmetric] end_raised_def Let_def
        split: attempt_end.splits)
  have "within_node st1 st2"
    using run_attempts_frame [where cfg = cfg and node = node and attempt = 0 and st = st1] a(1) by simp
  then have "keeps_outputs st (pop_ctx CTX_RETRY_HINT st2)" "p_idx (pop_ctx CTX_RETRY_HINT st2) = p_idx st"
    by (simp_all add: within_node_def keeps_outputs_def st1_def pipe_ops delete_conv')
  with outputs_step_frame gate_node_outputs [OF a(2) run_attempts_accepted [OF a(1)]]
  show ?thesis by blast
qed

lemma node_step_outputs:
  "node_step cfg index node st = Continue st' \<Longrightarrow> outputs_step cfg node st st'"
  by (auto simp: node_step_def outputs_step_def [of _ _ st "_ \<lparr>p_idx := _\<rparr>"] keeps_outputs_def pipe_ops delete_conv'
      dest: visit_node_outputs split: option.splits sum.splits bool.splits)

subsection \<open>Where a visit stops\<close>

lemma emit_fields:
  "p_idx (emit_all es st) = p_idx st" "p_ctx (emit_all es st) = p_ctx st"
  "p_files (emit_all es st) = p_files st" "p_committed (emit_all es st) = p_committed st"
  "p_provisional (emit_all es st) = p_provisional st" "p_out (emit_all es st) = p_out st @ es"
  by (simp_all add: emit_all_def)

lemma end_attempt_Left: "end_attempt cfg node fallback pid exc result st = Left st' \<Longrightarrow> p_idx st' = p_idx st"
  by (auto simp: end_attempt_def incomplete_attempt_def judge_attempt_def pause_node_def Let_def pipe_ops
      split: option.splits if_splits sum.splits prod.splits)

lemma attempt_once_Left: "attempt_once cfg node attempt st = Left st' \<Longrightarrow> p_idx st' = p_idx st"
  by (cases rule: attempt_onceE [where cfg = cfg and st = st and node = node and attempt = attempt])
    (auto simp: pipe_ops dest!: end_attempt_Left split: option.splits)

lemma run_attempts_Left: "run_attempts cfg node attempt st = Left st' \<Longrightarrow> p_idx st' = p_idx st"
proof (induction cfg node attempt st rule: run_attempts.induct)
  case (1 cfg node attempt st)
  show ?case
  proof (cases "attempt_once cfg node attempt st")
    case (Again st1)
    then show ?thesis using 1 attempt_once_Again [OF Again]
      by (simp add: run_attempts.simps [of cfg node attempt st] within_node_def)
  next
    case (NextAttempt r res st1)
    then show ?thesis using 1 attempt_once_NextAttempt [OF NextAttempt]
      by (simp add: run_attempts.simps [of cfg node attempt st] within_node_def split: if_splits)
  qed (use 1(3) in \<open>simp_all add: run_attempts.simps [of cfg node attempt st] attempt_once_Left\<close>)
qed

lemma gate_node_Stop: "gate_node cfg index node result pid fallback st = Stop e st' \<Longrightarrow> p_idx st' = p_idx st"
  by (auto simp: gate_node_def end_raised_def reject_node_def switch_node_def end_blocked_def Let_def pipe_ops
      split: sum.splits prod.splits if_splits option.splits)

lemma node_step_Stop:
  assumes "node_step cfg index node st = Stop e st'"
  shows "p_idx st' = p_idx st"
proof -
  define st1 where "st1 = emit_all [ev SKILL_START [(''skill'', JStr (skill_name node)),
      (''index'', JInt (int (p_idx st)))]] st"
  have i: "p_idx st1 = p_idx st" by (simp add: st1_def pipe_ops)
  note frame = run_attempts_frame [where cfg = cfg and node = node and attempt = 0 and st = st1]
  have "p_idx st' = p_idx st" if "visit_node cfg index node st = Stop e st'"
  proof (cases "run_attempts cfg node 0 st1")
    case (Accepted result pid fb st2)
    then have "gate_node cfg index node result pid fb (pop_ctx CTX_RETRY_HINT st2) = Stop e st'"
      using that by (simp add: visit_node_def Let_def st1_def)
    from gate_node_Stop [OF this] show ?thesis
      using frame i Accepted by (simp add: within_node_def pop_ctx_def)
  next
    case (Left st2)
    then show ?thesis using that i run_attempts_Left [OF Left]
      by (simp add: visit_node_def Let_def st1_def)
  next
    case (NextAttempt r res st2)
    then have "st' = end_blocked (skill_name node) (ev BLOCKED [(''skill'', JStr (skill_name node)),
        (''reason'', JStr (g_reason r)), (''evidence_hash'', hash_json res)]) (pop_ctx CTX_RETRY_HINT st2)"
      and "p_idx st2 = p_idx st"
      using that i frame by (simp_all add: visit_node_def Let_def st1_def within_node_def)
    then show ?thesis by (simp add: end_blocked_def emit_fields pop_ctx_def)
  next
    case (Thrown e2 pid settled st2)
    then have "Stop e st' = end_raised (skill_name node) e2 pid settled st2" and "p_idx st2 = p_idx st"
      using that i frame by (simp_all add: visit_node_def Let_def st1_def [symmetric] within_node_def)
    then show ?thesis by (simp add: end_raised_def emit_fields)
  qed (use frame in simp)
  with assms show ?thesis
    by (auto simp: node_step_def split: option.splits sum.splits bool.splits)
qed

subsection \<open>The reply\<close>

lemma index_nodes_distinct:
  "index_nodes i known names = Inr index \<Longrightarrow>
     distinct names \<and> (\<forall>name \<in> set names. map_of known name = None)
     \<and> (\<forall>j < length names. map_of index (names ! j) = Some (i + j))
     \<and> (\<forall>name. map_of known name \<noteq> None \<longrightarrow> map_of index name = map_of known name)"
proof (induction names arbitrary: i known)
  case (Cons name names)
  then have n: "map_of known name = None" "index_nodes (Suc i) (dset name i known) names = Inr index"
    by (auto split: if_splits)
  from Cons.IH [OF n(2)] n(1) show ?case
    by (auto simp: nth_Cons' split: if_splits)
qed simp

lemma topology_distinct:
  "validate_chain_topology chain = Inr index \<Longrightarrow> distinct (map skill_name (chain_nodes chain))"
  by (auto simp: validate_chain_topology_def bind_res_Inr dest: index_nodes_distinct)

lemma same_name_same_node:
  "distinct (map skill_name nodes) \<Longrightarrow> node \<in> set nodes \<Longrightarrow> node' \<in> set nodes
     \<Longrightarrow> skill_name node = skill_name node' \<Longrightarrow> node = node'"
  by (metis distinct_map inj_on_def)

text \<open>An output that stood in the context at the start, or one that the gates of its node passed.\<close>

definition trusted :: "'w pipe \<Rightarrow> jdict \<Rightarrow> 'w skill_node \<Rightarrow> json \<Rightarrow> bool" where
  "trusted cfg ctx node v \<longleftrightarrow>
     map_of ctx (okey node) = Some v \<or> (case v of JStr output \<Rightarrow> gates_accept cfg node output | _ \<Rightarrow> False)"

definition trusted_outputs :: "'w pipe \<Rightarrow> jdict \<Rightarrow> 'w pstate \<Rightarrow> bool" where
  "trusted_outputs cfg ctx st \<longleftrightarrow>
     list_all (\<lambda>node. case map_of (p_ctx st) (okey node) of None \<Rightarrow> True | Some v \<Rightarrow> trusted cfg ctx node v)
       (chain_nodes (pipe_chain cfg))"

lemma outputs_step_trusted:
  assumes d: "distinct (map skill_name (chain_nodes (pipe_chain cfg)))"
    and node: "node \<in> set (chain_nodes (pipe_chain cfg))"
    and t: "trusted_outputs cfg ctx st" and s: "outputs_step cfg node st st'"
  shows "trusted_outputs cfg ctx st'"
proof -
  have "case map_of (p_ctx st') (okey x) of None \<Rightarrow> True | Some v \<Rightarrow> trusted cfg ctx x v"
    if x: "x \<in> set (chain_nodes (pipe_chain cfg))" for x
  proof -
    have old: "case map_of (p_ctx st) (okey x) of None \<Rightarrow> True | Some v \<Rightarrow> trusted cfg ctx x v"
      using t x by (simp add: trusted_outputs_def list_all_iff)
    consider "map_of (p_ctx st') (okey x) = map_of (p_ctx st) (okey x)"
      | "map_of (p_ctx st') (okey x) = None"
      | (commit) answer where "gates_accept cfg node answer" "commits node answer st st'"
      using s unfolding outputs_step_def keeps_outputs_def evict_fields
      by (metis (no_types, lifting) output_key_hint)
    then show ?thesis
    proof cases
      case 1
      then show ?thesis using old by simp
    next
      case 2
      then show ?thesis by simp
    next
      case commit
      show ?thesis
      proof (cases "skill_name x = skill_name node")
        case True
        then have "x = node" using same_name_same_node [OF d x node] by simp
        with commit show ?thesis by (simp add: commits_def trusted_def)
      next
        case False
        with commit old show ?thesis by (simp add: commits_def)
      qed
    qed
  qed
  then show ?thesis by (simp add: trusted_outputs_def list_all_iff)
qed

interpretation accepted: chain_invariant cfg index
    "\<lambda>st. distinct (map skill_name (chain_nodes (pipe_chain cfg))) \<and> trusted_outputs cfg ctx st"
    "\<lambda>e st. p_idx st < length (chain_nodes (pipe_chain cfg))" for cfg index ctx
proof unfold_locales
  fix st :: "'a pstate" and i st'
  assume "distinct (map skill_name (chain_nodes (pipe_chain cfg))) \<and> trusted_outputs cfg ctx st"
    "i < length (chain_nodes (pipe_chain cfg))"
    "node_step cfg index (chain_nodes (pipe_chain cfg) ! i) st = Continue st'"
  then show "distinct (map skill_name (chain_nodes (pipe_chain cfg))) \<and> trusted_outputs cfg ctx st'"
    using outputs_step_trusted node_step_outputs nth_mem by blast
next
  fix st :: "'a pstate" and i e st'
  assume "i < length (chain_nodes (pipe_chain cfg))" "p_idx st = i"
    "node_step cfg index (chain_nodes (pipe_chain cfg) ! i) st = Stop e st'"
  then show "p_idx st' < length (chain_nodes (pipe_chain cfg))"
    using node_step_Stop by metis
qed

lemma final_output_node:
  assumes "final_output cfg st = Some (key, v)"
  shows "\<exists>node \<in> set (chain_nodes (pipe_chain cfg)). key = okey node \<and> map_of (p_ctx st) key = Some v"
proof -
  have f: "find (\<lambda>key. map_of (p_ctx st) key \<noteq> None)
      (rev (map (output_key \<circ> skill_name) (chain_nodes (pipe_chain cfg)))) = Some key" "v = dget (p_ctx st) key"
    using assms by (simp_all add: final_output_def split: option.splits)
  from find_SomeD [OF f(1)] f(2) show ?thesis by (auto simp: dget_def)
qed

lemma trusted_final_output:
  "trusted_outputs cfg ctx st \<Longrightarrow>
     case final_output cfg st of None \<Rightarrow> True
     | Some (key, v) \<Rightarrow> list_ex (\<lambda>node. key = okey node \<and> trusted cfg ctx node v) (chain_nodes (pipe_chain cfg))"
proof (cases "final_output cfg st")
  case (Some kv)
  moreover obtain key v where kv: "kv = (key, v)" by fastforce
  ultimately obtain node where n: "node \<in> set (chain_nodes (pipe_chain cfg))" "key = okey node"
      "map_of (p_ctx st) key = Some v" using final_output_node by blast
  assume "trusted_outputs cfg ctx st"
  then have "case map_of (p_ctx st) (okey node) of None \<Rightarrow> True | Some v \<Rightarrow> trusted cfg ctx node v"
    using n(1) by (simp add: trusted_outputs_def list_all_iff)
  then have "trusted cfg ctx node v" using n by simp
  then have "list_ex (\<lambda>node. key = okey node \<and> trusted cfg ctx node v) (chain_nodes (pipe_chain cfg))"
    using n(1,2) by (auto simp: list_ex_iff)
  then show ?thesis by (simp only: Some kv option.case prod.case)
qed simp

lemma reply_events_frame:
  assumes "p_ctx st = p_ctx st'" "p_provisional st = p_provisional st'"
  shows "reply_events cfg st = reply_events cfg st'"
  unfolding reply_events_def final_output_def assms ..

text \<open>
  C28. The reply of a pipeline is an output its gates passed.  When the chain runs to its end,
  every node output in the context is one that stood there at the start (a resumed run) or one
  that the node's own gate and every base gate passed, and the trace ends with the reply, which
  is such an output of the last node that has one, and \<^verbatim>\<open>DONE\<close>.
\<close>
theorem reply_is_gated:
  assumes "run_pipeline cfg start ctx guard fs w = (None, st)"
    and "length (chain_nodes (pipe_chain cfg)) \<le> p_idx st"
  shows "trusted_outputs cfg ctx st
    \<and> (case final_output cfg st of None \<Rightarrow> True
       | Some (key, v) \<Rightarrow> list_ex (\<lambda>node. key = okey node \<and> trusted cfg ctx node v) (chain_nodes (pipe_chain cfg)))
    \<and> (\<exists>earlier. p_out st = earlier @ reply_events cfg st @ [done_event])"
proof -
  obtain index provisional where v: "validate_chain_topology (pipe_chain cfg) = Inr index"
      and r: "(case run_nodes cfg index (start_state cfg start ctx provisional guard fs w) of
                 Continue st \<Rightarrow> (None, finish_chain cfg st)
               | Stop e st \<Rightarrow> (map_option NodeRaised e, st)) = (None, st)"
    using assms(1) by (auto simp: run_pipeline_def Let_def split: sum.splits if_splits)
  let ?st0 = "start_state cfg start ctx provisional guard fs w"
  have i: "distinct (map skill_name (chain_nodes (pipe_chain cfg))) \<and> trusted_outputs cfg ctx ?st0"
    using topology_distinct [OF v]
    by (auto simp: start_state_def trusted_outputs_def list_all_iff trusted_def delete_conv' split: option.split)
  show ?thesis
  proof (cases "run_nodes cfg index ?st0")
    case (Continue st1)
    then have f: "st = finish_chain cfg st1" using r by simp
    have "trusted_outputs cfg ctx st1" using accepted.finished(1) [OF i Continue] by simp
    then have t: "trusted_outputs cfg ctx st" by (simp add: trusted_outputs_def f finish_chain_def emit_all_def)
    have "reply_events cfg st = reply_events cfg st1"
      by (rule reply_events_frame) (simp_all add: f finish_chain_def emit_all_def)
    then have "p_out st = p_out st1 @ reply_events cfg st @ [done_event]"
      by (simp add: f finish_chain_def emit_all_def)
    with t trusted_final_output [OF t] show ?thesis by blast
  next
    case (Stop e st1)
    then have "p_idx st < length (chain_nodes (pipe_chain cfg))"
      using accepted.finished(2) [OF i Stop] r by simp
    with assms(2) show ?thesis by simp
  qed
qed

subsection \<open>Backtracking\<close>

definition no_later_outputs :: "'w pipe \<Rightarrow> nat \<Rightarrow> jdict \<Rightarrow> bool" where
  "no_later_outputs cfg i ctx \<longleftrightarrow>
     list_all (\<lambda>node. map_of ctx (okey node) = None) (drop i (chain_nodes (pipe_chain cfg)))"

text \<open>Every output in the context is recorded with the index of its node.\<close>

definition outputs_indexed :: "'w pipe \<Rightarrow> 'w pstate \<Rightarrow> bool" where
  "outputs_indexed cfg st \<longleftrightarrow>
     (\<forall>i < length (chain_nodes (pipe_chain cfg)). \<forall>v.
        map_of (p_ctx st) (okey (chain_nodes (pipe_chain cfg) ! i)) = Some v \<longrightarrow>
        map_of (p_committed st) (okey (chain_nodes (pipe_chain cfg) ! i)) = Some i)"

lemma no_later_outputs_iff:
  "no_later_outputs cfg i ctx \<longleftrightarrow>
     (\<forall>j < length (chain_nodes (pipe_chain cfg)). i \<le> j \<longrightarrow>
        map_of ctx (okey (chain_nodes (pipe_chain cfg) ! j)) = None)"
proof
  assume a: "no_later_outputs cfg i ctx"
  show "\<forall>j < length (chain_nodes (pipe_chain cfg)). i \<le> j \<longrightarrow>
      map_of ctx (okey (chain_nodes (pipe_chain cfg) ! j)) = None"
  proof (intro allI impI)
    fix j assume "j < length (chain_nodes (pipe_chain cfg))" "i \<le> j"
    then show "map_of ctx (okey (chain_nodes (pipe_chain cfg) ! j)) = None"
      using a unfolding no_later_outputs_def list_all_length by (auto dest!: spec [of _ "j - i"])
  qed
qed (simp add: no_later_outputs_def list_all_length)

lemma names_differ:
  "distinct (map skill_name nodes) \<Longrightarrow> i < length nodes \<Longrightarrow> j < length nodes
     \<Longrightarrow> skill_name (nodes ! i) = skill_name (nodes ! j) \<longleftrightarrow> i = j"
  by (metis length_map nth_eq_iff_index_eq nth_map)

text \<open>
  Only the node a run is resumed at, which may have paused for an answer of the user, may find
  its own output, the one it paused with.
\<close>

definition fresh_outputs :: "'w pipe \<Rightarrow> nat \<Rightarrow> jdict \<Rightarrow> nat \<Rightarrow> jdict \<Rightarrow> bool" where
  "fresh_outputs cfg start ctx0 i ctx \<longleftrightarrow>
     no_later_outputs cfg (Suc i) ctx \<and>
     (i < length (chain_nodes (pipe_chain cfg)) \<longrightarrow>
        map_of ctx (okey (chain_nodes (pipe_chain cfg) ! i)) = None \<or>
        i = start \<and> map_of ctx (okey (chain_nodes (pipe_chain cfg) ! i)) = map_of ctx0 (okey (chain_nodes (pipe_chain cfg) ! i)))"

lemma fresh_outputs_none: "no_later_outputs cfg i ctx \<Longrightarrow> fresh_outputs cfg start ctx0 i ctx"
  by (simp add: fresh_outputs_def no_later_outputs_iff)

lemma fresh_outputs_later: "fresh_outputs cfg start ctx0 i ctx \<Longrightarrow> i < j \<Longrightarrow> no_later_outputs cfg j ctx"
  by (simp add: fresh_outputs_def no_later_outputs_iff)

lemma outputs_step_indexed:
  assumes d: "distinct (map skill_name (chain_nodes (pipe_chain cfg)))"
    and i: "i < length (chain_nodes (pipe_chain cfg))" "p_idx st = i"
    and s: "outputs_step cfg (chain_nodes (pipe_chain cfg) ! i) st st'"
    and o1: "outputs_indexed cfg st" and o2: "fresh_outputs cfg start ctx0 (p_idx st) (p_ctx st)"
  shows "outputs_indexed cfg st' \<and> fresh_outputs cfg start ctx0 (p_idx st') (p_ctx st')"
  using s unfolding outputs_step_def
proof (elim disjE exE conjE)
  assume k: "keeps_outputs st st'" "p_idx st \<le> p_idx st'"
  then have "outputs_indexed cfg st'" and same: "no_later_outputs cfg j (p_ctx st') \<longleftrightarrow> no_later_outputs cfg j (p_ctx st)"
    and here: "fresh_outputs cfg start ctx0 j (p_ctx st') \<longleftrightarrow> fresh_outputs cfg start ctx0 j (p_ctx st)" for j
    using o1 by (simp_all add: keeps_outputs_def outputs_indexed_def no_later_outputs_iff fresh_outputs_def)
  moreover have "fresh_outputs cfg start ctx0 (p_idx st') (p_ctx st)"
    using k(2) o2 fresh_outputs_later [OF o2, of "p_idx st'"] fresh_outputs_none
    by (cases "p_idx st' = p_idx st") auto
  ultimately show ?thesis by simp
next
  fix answer assume c: "commits (chain_nodes (pipe_chain cfg) ! i) answer st st'"
  have "map_of (p_ctx st') (okey (chain_nodes (pipe_chain cfg) ! j)) =
        (if j = i then Some (JStr answer) else map_of (p_ctx st) (okey (chain_nodes (pipe_chain cfg) ! j)))"
    and "map_of (p_committed st') (okey (chain_nodes (pipe_chain cfg) ! j)) =
        (if j = i then Some i else map_of (p_committed st) (okey (chain_nodes (pipe_chain cfg) ! j)))"
    if "j < length (chain_nodes (pipe_chain cfg))" for j
    using c i that names_differ [OF d that i(1)] by (auto simp: commits_def)
  then have "outputs_indexed cfg st' \<and> no_later_outputs cfg (p_idx st') (p_ctx st')"
    using c o1 fresh_outputs_later [OF o2, of "Suc i"] i
    by (simp add: outputs_indexed_def no_later_outputs_iff commits_def)
  then show ?thesis using fresh_outputs_none by blast
next
  assume e: "keeps_outputs (evict_outputs_at_or_after (p_idx st') st) st'"
  let ?nodes = "chain_nodes (pipe_chain cfg)"
  have c: "map_of (p_ctx st') (okey (?nodes ! j)) =
      (if okey (?nodes ! j) \<in> stale (p_idx st') (p_committed st) then None
       else map_of (p_ctx st) (okey (?nodes ! j)))" for j
    using e by (simp add: keeps_outputs_def)
  have m: "map_of (p_committed st') (okey (?nodes ! j)) =
      (if okey (?nodes ! j) \<in> stale (p_idx st') (p_committed st) then None
       else map_of (p_committed st) (okey (?nodes ! j)))" for j
    using e by (simp add: keeps_outputs_def)
  have "map_of (p_ctx st') (okey (?nodes ! j)) = None" if j: "j < length ?nodes" "p_idx st' \<le> j" for j
  proof (cases "map_of (p_ctx st) (okey (?nodes ! j))")
    case (Some v)
    then have "map_of (p_committed st) (okey (?nodes ! j)) = Some j"
      using o1 j by (simp add: outputs_indexed_def)
    then have "okey (?nodes ! j) \<in> stale (p_idx st') (p_committed st)"
      using j by (force simp: stale_def dest: map_of_SomeD)
    then show ?thesis by (simp add: c)
  qed (simp add: c)
  then have "outputs_indexed cfg st' \<and> no_later_outputs cfg (p_idx st') (p_ctx st')"
    using o1 by (simp add: no_later_outputs_iff outputs_indexed_def c m)
  then show ?thesis using fresh_outputs_none by blast
qed

interpretation fresh: chain_invariant cfg index
    "\<lambda>st. distinct (map skill_name (chain_nodes (pipe_chain cfg))) \<and> outputs_indexed cfg st
          \<and> fresh_outputs cfg start ctx0 (p_idx st) (p_ctx st)"
    "\<lambda>e st. True" for cfg index start ctx0
proof unfold_locales
  fix st :: "'a pstate" and i st'
  assume "distinct (map skill_name (chain_nodes (pipe_chain cfg))) \<and> outputs_indexed cfg st
      \<and> fresh_outputs cfg start ctx0 (p_idx st) (p_ctx st)"
    "i < length (chain_nodes (pipe_chain cfg))" "p_idx st = i"
    "node_step cfg index (chain_nodes (pipe_chain cfg) ! i) st = Continue st'"
  then show "distinct (map skill_name (chain_nodes (pipe_chain cfg))) \<and> outputs_indexed cfg st'
      \<and> fresh_outputs cfg start ctx0 (p_idx st') (p_ctx st')"
    using outputs_step_indexed node_step_outputs by blast
qed simp

lemma start_state_indexed:
  assumes d: "distinct (map skill_name (chain_nodes (pipe_chain cfg)))"
  shows "outputs_indexed cfg (start_state cfg start ctx provisional guard fs w)"
proof -
  let ?nodes = "chain_nodes (pipe_chain cfg)"
  let ?all = "map (\<lambda>(i, node). (okey node, i)) (enumerate 0 ?nodes)"
  have "map fst ?all = map (output_key \<circ> skill_name) ?nodes"
    by (rule nth_equalityI) (simp_all add: nth_enumerate_eq)
  moreover have "distinct (map (output_key \<circ> skill_name) ?nodes)"
    using d by (auto simp: distinct_map inj_on_def)
  ultimately have k: "distinct (map fst ?all)" by simp
  have "map_of ?all (okey (?nodes ! i)) = Some i" if "i < length ?nodes" for i
    using that by (intro map_of_is_SomeI [OF k]) (force simp: in_set_enumerate_eq)
  moreover have "map_of (filter (\<lambda>(key, i). map_of d key \<noteq> None) ?all) k =
      (if map_of d k \<noteq> None then map_of ?all k else None)" for d :: jdict and k
    by (rule map_of_filter_keys)
  ultimately show ?thesis
    by (simp only: outputs_indexed_def start_state_def pstate.select_convs) simp
qed

text \<open>
  C29. A node never sees an output of a later node, and its own only when the run was resumed at
  it.  In a chain of valid topology started where no output behind the first node to run is
  present, at every visit, however often the chain has backtracked before, the context holds no
  output of a node behind the one about to run, and none of that node itself, unless it is the
  node the run started at and the output is the one it started with (that of a pause for the
  user): what a backtrack jumps over is evicted.
\<close>
theorem superseded_outputs_absent:
  assumes "validate_chain_topology (pipe_chain cfg) = Inr index"
    and "no_later_outputs cfg (Suc start) ctx"
    and "(loop_step cfg index)\<^sup>*\<^sup>* (start_state cfg start ctx provisional guard fs w) st"
  shows "fresh_outputs cfg start ctx (p_idx st) (p_ctx st)"
proof -
  have d: "distinct (map skill_name (chain_nodes (pipe_chain cfg)))"
    using assms(1) by (rule topology_distinct)
  have "fresh_outputs cfg start ctx start (AList.delete CTX_PROVISIONAL_OUTPUTS ctx)"
    using assms(2) by (simp add: fresh_outputs_def no_later_outputs_iff delete_conv')
  with d start_state_indexed [OF d] show ?thesis
    using fresh.reached_star [OF assms(3)] by (simp add: start_state_def)
qed

subsection \<open>The end of the trace\<close>

definition announces_end :: "'w pstate \<Rightarrow> bool" where
  "announces_end st \<longleftrightarrow> p_out st \<noteq> [] \<and> last (p_out st) = done_event"

lemma announces_emit: "announces_end (emit_all (es @ [done_event]) st)"
  by (simp add: announces_end_def emit_all_def)

lemma announces_blocked [simp]: "announces_end (end_blocked name e st)"
  unfolding end_blocked_def using announces_emit [of "[skill_end name ''blocked'', e]"] by simp

lemma announces_unavailable [simp]: "announces_end (emit_all (gate_unavailable_events name pid why) st)"
  by (simp add: announces_end_def emit_all_def gate_unavailable_events_def)

lemma end_attempt_announces:
  "end_attempt cfg node fallback pid exc result st = Left st' \<Longrightarrow> announces_end st'"
  by (auto simp: end_attempt_def incomplete_attempt_def judge_attempt_def Let_def
      pause_node_def announces_end_def emit_fields gate_unavailable_events_def
      split: option.splits if_splits sum.splits prod.splits)

lemma run_attempts_announces: "run_attempts cfg node attempt st = Left st' \<Longrightarrow> announces_end st'"
proof (induction cfg node attempt st rule: run_attempts.induct)
  case (1 cfg node attempt st)
  have once: "announces_end s" if "attempt_once cfg node attempt st = Left s" for s
    using that
    by (cases rule: attempt_onceE [where cfg = cfg and st = st and node = node and attempt = attempt])
      (auto dest: end_attempt_announces)
  show ?case
  proof (cases "attempt_once cfg node attempt st")
    case (Again st1)
    then show ?thesis using 1 by (simp add: run_attempts.simps [of cfg node attempt st])
  next
    case (NextAttempt r res st1)
    then show ?thesis using 1 by (simp add: run_attempts.simps [of cfg node attempt st] split: if_splits)
  qed (use 1(3) once in \<open>simp_all add: run_attempts.simps [of cfg node attempt st]\<close>)
qed

lemma gate_node_announces:
  "gate_node cfg index node result pid fallback st = Stop None st' \<Longrightarrow> announces_end st'"
  by (auto simp: gate_node_def end_raised_def reject_node_def switch_node_def Let_def
      split: sum.splits prod.splits if_splits option.splits)

lemma node_step_announces:
  assumes "node_step cfg index node st = Stop None st'"
  shows "announces_end st'"
proof -
  have "announces_end st'" if "visit_node cfg index node st = Stop None st'"
    using that run_attempts_frame [where cfg = cfg and node = node and attempt = 0 and st =
        "emit_all [ev SKILL_START [(''skill'', JStr (skill_name node)), (''index'', JInt (int (p_idx st)))]] st"]
    by (auto simp: visit_node_def Let_def end_raised_def dest: run_attempts_announces gate_node_announces
        split: attempt_end.splits)
  with assms show ?thesis
    by (auto simp: node_step_def split: option.splits sum.splits bool.splits)
qed

interpretation announced: chain_invariant cfg index "\<lambda>st. True" "\<lambda>e st. e = None \<longrightarrow> announces_end st" for cfg index
  by unfold_locales (auto dest: node_step_announces)

text \<open>
  Every run of a pipeline that returns tells its consumer so: unless it raises, whatever
  ended it, \<^verbatim>\<open>DONE\<close> is the last event of the trace.
\<close>
theorem returning_run_announces_end:
  assumes "run_pipeline cfg start ctx guard fs w = (None, st)"
  shows "p_out st \<noteq> [] \<and> last (p_out st) = done_event"
proof -
  have "announces_end st"
    using assms
    by (auto simp: run_pipeline_def Let_def finish_chain_def announces_emit [of "[]", simplified]
        dest: announced.finished(2) [OF TrueI] split: sum.splits if_splits node_end.splits)
  then show ?thesis by (simp add: announces_end_def)
qed

subsection \<open>Gates behind a language model\<close>

text \<open>A word in a text: it stands between characters that are no word characters.\<close>

definition has_word :: "string \<Rightarrow> string \<Rightarrow> bool" where
  "has_word w t \<longleftrightarrow> (\<exists>pre post. t = pre @ w @ post \<and> \<not> edge_word (rev pre) \<and> \<not> edge_word post)"

lemma rmatch_lit: "rmatch (lit w) pre s = (if starts_with w s then [(w, drop (length w) s, [])] else [])"
  unfolding lit_def
proof (induction w arbitrary: pre s rule: induct_list012)
  case (3 c d w)
  show ?case
  proof (cases s)
    case (Cons x s')
    with 3(2) [of "x # pre" s'] show ?thesis by (auto simp: ch_def starts_with_def)
  qed (simp add: ch_def starts_with_def)
qed (auto simp: ch_def starts_with_def split: list.split)

lemma search_from_iff: "search_from p pre s \<longleftrightarrow> (\<exists>a b. s = a @ b \<and> rmatch p (rev a @ pre) b \<noteq> [])"
proof (induction p pre s rule: search_from.induct)
  case (2 p pre c cs)
  have "(\<exists>a b. c # cs = a @ b \<and> rmatch p (rev a @ pre) b \<noteq> [])
      \<longleftrightarrow> rmatch p pre (c # cs) \<noteq> [] \<or> (\<exists>a b. cs = a @ b \<and> rmatch p (rev a @ c # pre) b \<noteq> [])"
    (is "?l \<longleftrightarrow> ?r")
  proof
    assume ?l
    then obtain a b where ab: "c # cs = a @ b" "rmatch p (rev a @ pre) b \<noteq> []" by blast
    then show ?r by (cases a) auto
  next
    assume ?r
    then show ?l
    proof (elim disjE exE conjE)
      assume "rmatch p pre (c # cs) \<noteq> []"
      then show ?l by (intro exI [of _ "[]"] exI [of _ "c # cs"]) simp
    next
      fix a b assume "cs = a @ b" "rmatch p (rev a @ c # pre) b \<noteq> []"
      then show ?l by (intro exI [of _ "c # a"] exI [of _ b]) simp
    qed
  qed
  with 2 show ?case by simp
qed simp

lemma search_word:
  assumes "w \<noteq> []" "list_all is_word w"
  shows "re_search (cats [WordEdge, lit w, WordEdge]) s \<longleftrightarrow> has_word w s"
proof -
  have w: "edge_word (w @ post)" for post
    using assms by (cases w) (simp_all add: edge_word_def)
  have w': "edge_word (rev w @ pre)" for pre
    using assms by (cases w rule: rev_cases) (simp_all add: edge_word_def)
  have "rmatch (cats [WordEdge, lit w, WordEdge]) pre b \<noteq> []
      \<longleftrightarrow> (\<exists>post. b = w @ post \<and> \<not> edge_word pre \<and> \<not> edge_word post)" for pre b
    using w w' by (auto simp: rmatch_lit starts_with_iff)
  then show ?thesis
    unfolding re_search_def search_from_iff has_word_def by (metis append_Nil2)
qed

lemma has_word_Cons:
  assumes "w \<noteq> []" "list_all is_word w" "\<not> is_word c"
  shows "has_word w (c # t) \<longleftrightarrow> has_word w t"
proof
  assume "has_word w (c # t)"
  then obtain pre post where p: "c # t = pre @ w @ post" "\<not> edge_word (rev pre)" "\<not> edge_word post"
    unfolding has_word_def by blast
  with assms obtain pre' where pre': "pre = c # pre'" by (cases pre; cases w) auto
  have "\<not> edge_word (rev pre')" using p(2) pre' by (cases "rev pre'") (auto simp: edge_word_def)
  with p pre' show "has_word w t" unfolding has_word_def by auto
next
  assume "has_word w t"
  then obtain pre post where p: "t = pre @ w @ post" "\<not> edge_word (rev pre)" "\<not> edge_word post"
    unfolding has_word_def by blast
  have "\<not> edge_word (rev (c # pre))" using p(2) assms(3) by (cases "rev pre") (auto simp: edge_word_def)
  with p show "has_word w (c # t)" unfolding has_word_def by (intro exI [of _ "c # pre"] exI [of _ post]) simp
qed

lemma has_word_rev: "has_word (rev w) (rev t) \<longleftrightarrow> has_word w t"
proof -
  have "has_word w t \<Longrightarrow> has_word (rev w) (rev t)" for w t
    unfolding has_word_def by (metis append.assoc rev_append rev_rev_ident)
  from this [of w t] this [of "rev w" "rev t"] show ?thesis by auto
qed

lemma has_word_around:
  assumes w: "w \<noteq> []" "list_all is_word w" and o: "list_all (\<lambda>c. \<not> is_word c) lead" "list_all (\<lambda>c. \<not> is_word c) trail"
  shows "has_word w (lead @ t @ trail) \<longleftrightarrow> has_word w t"
proof -
  have lead: "has_word w (l @ t) \<longleftrightarrow> has_word w t" if "list_all (\<lambda>c. \<not> is_word c) l" "w \<noteq> []" "list_all is_word w" for w l t
    using that by (induction l) (simp_all add: has_word_Cons)
  have "has_word w (t @ trail) \<longleftrightarrow> has_word (rev w) (rev trail @ rev t)"
    using has_word_rev [of w "t @ trail"] by simp
  also have "\<dots> \<longleftrightarrow> has_word w t" using lead [of "rev trail" "rev w" "rev t"] w o has_word_rev by simp
  finally show ?thesis using lead [OF o(1) w] by simp
qed

text \<open>What surrounds the verdict: blanks before it, blanks and punctuation behind it.\<close>

definition frames_verdict :: "char \<Rightarrow> bool" where
  "frames_verdict c \<longleftrightarrow> py_space c \<or> c \<in> set (''.!?:;'' @ [CHR 0x09, CHR 0x0D, CHR 0x0A])"

lemma frames_verdict_upper:
  assumes "frames_verdict c"
  shows "\<not> is_word c \<and> code c \<noteq> 223 \<and> upper_char c = c"
proof -
  have "c \<in> set (''.!?:;'' @ [CHR 0x09, CHR 0x0D, CHR 0x0A]) \<Longrightarrow> code c \<in> {9, 10, 13, 33, 46, 58, 59, 63}"
    by (auto simp: code_def)
  then have n: "code c \<in> {9, 10, 11, 12, 13, 28, 29, 30, 31, 32, 33, 46, 58, 59, 63, 133, 160}"
    using assms unfolding frames_verdict_def py_space_def by blast
  then have "c \<noteq> CHR ''_''" by (auto simp: code_def)
  with n show ?thesis
    by (simp add: is_word_def is_alnum_def is_alpha_def is_lower_def is_upper_def is_digit_def upper_char_def)
      (elim disjE; simp)
qed

lemma upper_append: "upper (s @ t) = upper s @ upper t"
  by (simp add: upper_def)

lemma upper_frame: "list_all frames_verdict s \<Longrightarrow> upper s = s \<and> list_all (\<lambda>c. \<not> is_word c) s"
  by (induction s) (auto simp: upper_def dest: frames_verdict_upper)

lemma dropWhile_split: "\<exists>a. s = a @ dropWhile P s \<and> list_all P a"
  by (metis list_all_iff set_takeWhileD takeWhile_dropWhile_id)

lemma rev_dropWhile_split: "\<exists>b. s = rev (dropWhile P (rev s)) @ b \<and> list_all P b"
proof -
  have "rev s = takeWhile P (rev s) @ dropWhile P (rev s)" by simp
  then have "s = rev (dropWhile P (rev s)) @ rev (takeWhile P (rev s))" by (metis rev_append rev_rev_ident)
  then show ?thesis by (metis list_all_iff set_rev set_takeWhileD)
qed

lemma lstrip_around:
  assumes "list_all py_space lead" "core = [] \<or> \<not> py_space (hd core)" "list_all frames_verdict trail"
  shows "\<exists>t. lstrip (lead @ core @ trail) = core @ t \<and> list_all frames_verdict t"
proof (cases core)
  case Nil
  have "lstrip (lead @ trail) = dropWhile py_space trail"
    using assms(1) by (simp add: lstrip_def list_all_iff dropWhile_append2)
  with Nil assms(3) show ?thesis by (auto simp: list_all_iff dest: set_dropWhileD)
next
  case (Cons c cs)
  with assms show ?thesis by (simp add: lstrip_def list_all_iff dropWhile_append2)
qed

lemma verdict_core:
  obtains lead core trail t where "reply = lead @ core @ trail" "lstrip reply = core @ t"
    "normalized_llm_verdict (strip reply) = upper core"
    "list_all frames_verdict lead" "list_all frames_verdict trail" "list_all frames_verdict t"
proof -
  let ?cs = "''.!?:;'' @ [CHR 0x09, CHR 0x0D, CHR 0x0A]"
  define core where "core = rstrip_chars ?cs (strip (strip reply))"
  have frames: "list_all frames_verdict x" if "list_all py_space x \<or> list_all (one_of ?cs) x" for x
    using that by (auto simp: list_all_iff frames_verdict_def)
  have strip: "\<exists>a b. x = a @ strip x @ b \<and> list_all py_space a \<and> list_all py_space b
      \<and> (strip x = [] \<or> \<not> py_space (hd (strip x)))" for x
  proof -
    obtain a where a: "x = a @ lstrip x" "list_all py_space a"
      unfolding lstrip_def using dropWhile_split by blast
    obtain b where b: "lstrip x = strip x @ b" "list_all py_space b"
      unfolding strip_def rstrip_def using rev_dropWhile_split by blast
    have "strip x = [] \<or> hd (strip x) = hd (lstrip x)" using b(1) by (metis hd_append2)
    moreover have "lstrip x = [] \<or> \<not> py_space (hd (lstrip x))" unfolding lstrip_def using hd_dropWhile by blast
    ultimately have "strip x = [] \<or> \<not> py_space (hd (strip x))" using b(1) by (metis Nil_is_append_conv)
    with a b show ?thesis by (metis append.assoc)
  qed
  obtain a b where ab: "reply = a @ strip reply @ b" "list_all py_space a" "list_all py_space b"
    using strip by blast
  obtain c d where cd: "strip reply = c @ strip (strip reply) @ d" "list_all py_space c" "list_all py_space d"
      "strip (strip reply) = [] \<or> \<not> py_space (hd (strip (strip reply)))"
    using strip by blast
  obtain e where e: "strip (strip reply) = core @ e" "list_all (one_of ?cs) e"
    unfolding core_def rstrip_chars_def using rev_dropWhile_split by blast
  have reply: "reply = (a @ c) @ core @ (e @ d @ b)" using ab(1) cd(1) e(1) by (metis append.assoc)
  have lead: "list_all py_space (a @ c)" using ab(2) cd(2) by simp
  have trail: "list_all frames_verdict (e @ d @ b)" using frames [of e] frames [of d] frames [of b] ab(3) cd(3) e(2) by simp
  have "core = [] \<or> \<not> py_space (hd core)" using cd(4) e(1) by (metis Nil_is_append_conv hd_append2)
  from lstrip_around [OF lead this trail] reply obtain t where "lstrip reply = core @ t" "list_all frames_verdict t"
    by metis
  then show ?thesis
    using that [OF reply _ _ frames trail] lead by (simp add: normalized_llm_verdict_def core_def)
qed

lemma starts_with_outside:
  assumes "set p \<inter> set y = {}"
  shows "starts_with p (x @ y) \<longleftrightarrow> starts_with p x"
proof
  assume s: "starts_with p (x @ y)"
  show "starts_with p x"
  proof (cases "length p \<le> length x")
    case False
    then have p: "p = x @ take (length p - length x) y" using s by (simp add: starts_with_def)
    moreover have "set (take (length p - length x) y) \<subseteq> set p \<inter> set y"
      by (subst (2) p) (auto dest: in_set_takeD)
    ultimately have "take (length p - length x) y = []" using assms by auto
    with p show ?thesis by (simp add: starts_with_def)
  qed (use s in \<open>simp add: starts_with_def\<close>)
qed (auto simp: starts_with_iff)

lemma judge_reply_passes:
  "g_verdict (judge_reply reply) = GPass \<longleftrightarrow>
     starts_with ''PASS'' (upper (lstrip reply)) \<and> \<not> has_word ''FAIL'' (upper reply)"
proof -
  obtain lead core trail t where c: "reply = lead @ core @ trail" "lstrip reply = core @ t"
    "normalized_llm_verdict (strip reply) = upper core"
    and f: "list_all frames_verdict lead" "list_all frames_verdict trail" "list_all frames_verdict t"
    by (rule verdict_core)
  have words: "list_all is_word ''PASS''" "list_all is_word ''FAIL''" by code_simp+
  have "has_word ''FAIL'' (upper reply) \<longleftrightarrow> has_word ''FAIL'' (upper core)"
    using has_word_around [of "''FAIL''" lead trail "upper core"] words upper_frame [OF f(1)] upper_frame [OF f(2)]
    by (simp add: c(1) upper_append)
  moreover have "starts_with ''PASS'' (upper (lstrip reply)) \<longleftrightarrow> starts_with ''PASS'' (upper core)"
    using starts_with_outside [of "''PASS''" t "upper core"] words upper_frame [OF f(3)]
    by (auto simp: c(2) upper_append list_all_iff)
  moreover have "mentions_fail v \<longleftrightarrow> has_word ''FAIL'' v" for v
    using search_word [OF _ words(2)] by (simp add: mentions_fail_def fail_word_def)
  ultimately show ?thesis by (simp add: judge_reply_def gate_answer_def Let_def c(3))
qed

text \<open>
  C32. The model's gate fails closed.  It passes exactly when its filter returns a well-formed
  result other than a failure, the model answers, and the answer begins with \<^verbatim>\<open>PASS\<close> behind
  leading blanks and contains \<^verbatim>\<open>FAIL\<close> as a whole word nowhere, both in any letter case; an
  absent or failing model never passes.  (A longer word such as \<^verbatim>\<open>FAILED\<close> does not count as
  \<^verbatim>\<open>FAIL\<close>, see \<open>objection_counted_as_pass\<close>.)
\<close>
theorem llm_gate_fails_closed:
  "(\<exists>r w'. llm_gate_check inner prompt_template llm w output_text ctx = (Inr r, w') \<and> g_verdict r = GPass)
   \<longleftrightarrow> (\<exists>v w1 result chat reply w2.
        inner w output_text ctx = (Inr v, w1) \<and> coerce_gate_result v = Inr result \<and> g_verdict result \<noteq> GFail
      \<and> llm = Some chat
      \<and> chat w1 [(''system'', GATE_SYSTEM_PROMPT),
          (''user'', py_replace ''{output}'' (bounded_gate_output output_text) prompt_template)] = (Inr reply, w2)
      \<and> starts_with ''PASS'' (upper (lstrip reply)) \<and> \<not> has_word ''FAIL'' (upper reply))"
  unfolding judge_reply_passes [symmetric]
  by (auto simp: llm_gate_check_def gate_answer_def Let_def bind_res_Inr
      split: prod.split sum.split option.split if_splits)

text \<open>
  C33. An outage of the gate's model costs nothing but the round.  Where the node's gate waits
  for the model and the model cannot be reached, the visit ends the run as failed without an
  exception, nothing is written to the context or charged to the failure guard, and the
  checkpoint of the last accepted node is kept.
\<close>
theorem gate_outage_keeps_checkpoint:
  assumes "node_gate node = LLMGate inner prompt_template"
    and "\<And>w messages. \<exists>e w'. pipe_chat cfg w messages = (Inl e, w')"
    and "fst (inner (p_world st) (nr_text result) (p_ctx st)) = Inr v"
    and "coerce_gate_result v = Inr filtered" "g_verdict filtered \<noteq> GFail"
  shows "\<exists>st'. gate_node cfg index node result pid fallback st = Stop None st'
    \<and> p_files st' = p_files st \<and> p_ctx st' = p_ctx st \<and> p_guard st' = p_guard st \<and> p_committed st' = p_committed st
    \<and> (\<exists>earlier. p_out st' = earlier @ gate_unavailable_events (skill_name node) pid ''LLM verification failed'')"
proof -
  obtain w1 where i: "inner (p_world st) (nr_text result) (p_ctx st) = (Inr v, w1)"
    using assms(3) by (metis prod.collapse)
  obtain e w2 where "pipe_chat cfg w1 [(''system'', GATE_SYSTEM_PROMPT),
      (''user'', py_replace ''{output}'' (bounded_gate_output (nr_text result)) prompt_template)] = (Inl e, w2)"
    using assms(2) by blast
  then have "run_gate (pipe_chat cfg) (node_gate node) (p_world st) (nr_text result) (p_ctx st)
      = (Inr (gate_answer GFail ''LLM verification failed'' (Some ''Retry after the gate LLM becomes available.'') True), w2)"
    using assms(1,4,5) i by (simp add: run_gate_def llm_gate_check_def Let_def)
  then show ?thesis
    by (simp add: gate_node_def Let_def gate_answer_def emit_all_def)
qed

text \<open>
  The model's gate reads \<^verbatim>\<open>PASS\<close> without a word boundary: an answer that objects to the
  output in a sentence that starts with a longer word, and reports the failure in a longer word than
  \<^verbatim>\<open>FAIL\<close>, passes it.
\<close>
theorem objection_counted_as_pass:
  "g_verdict (judge_reply ''Passing this is impossible: the build FAILED.'') = GPass"
  by code_simp

subsection \<open>Witnesses\<close>

text \<open>
  A chain of two nodes.  The agent streams its text; the gate of the second node accepts it
  from the sixth call of the agent on, so the run falls back, fails, backtracks and ends.
\<close>

definition demo_verdict :: "verdict \<Rightarrow> gate_value" where
  "demo_verdict v = \<lparr>gv_is_result = True, gv_verdict = JStr (verdict_value v), gv_reason = JStr ''r'',
     gv_retry_hint = JNull, gv_infra_failure = False\<rparr>"

definition demo_gate :: "nat \<Rightarrow> nat gate" where
  "demo_gate calls = PlainGate (\<lambda>w output ctx. (Inr (demo_verdict (if calls \<le> w then GPass else GFail)), w))"

definition demo_node :: "string \<Rightarrow> nat gate \<Rightarrow> nat skill_node" where
  "demo_node name g = \<lparr>skill_name = name, node_gate = g, node_condition = None, node_instructions = [],
     await_user_input_marker = None, infer_await_user_input_from_question = False, allowed_tools = None\<rparr>"

definition demo_pipe :: "nat pipe" where
  "demo_pipe = \<lparr>
     pipe_chain = \<lparr>chain_nodes = [demo_node ''a'' (demo_gate 0), demo_node ''b'' (demo_gate 6)],
                   backtrack_map = [(''b'', JStr ''a'')], base_gates = []\<rparr>,
     pipe_skills = (\<lambda>name. Some ''skill''), pipe_disabled = [],
     pipe_exec = (\<lambda>w request. (([
        ev RAW_RESPONSE_EVENT [(''type'', JStr ''response.output_text.delta''), (''data'', JObj [(''delta'', JStr ''t'')])],
        ev TEXT_DELTA [(''text'', JStr ''t'')]], None), w + 1)),
     pipe_chat = (\<lambda>w messages. (Inl (''TimeoutError'', ''t''), w)), pipe_uuid = (\<lambda>w. (''u'', w)),
     pipe_utcnow = (\<lambda>w. (''now'', w)), pipe_disk = (\<lambda>w. (SaveOk, w)), pipe_digest = (\<lambda>t. t),
     pipe_max_same = 2, pipe_max_attempts = 3\<rparr>"

definition demo_index :: "(string, nat) dict" where
  "demo_index = [(''a'', 0), (''b'', 1)]"

lemma demo_quiet: "quiet_agent demo_pipe"
  by (simp add: quiet_agent_def demo_pipe_def)

lemma demo_outcome:
  "(case run_pipeline demo_pipe 0 [] [] [] 0 of (e, st) \<Rightarrow> (e, p_idx st)) = (None, 2)"
  by code_simp

lemma demo_returns:
  "fst (run_pipeline demo_pipe 0 [] [] [] 0) = None"
  "length (chain_nodes (pipe_chain demo_pipe)) \<le> p_idx (snd (run_pipeline demo_pipe 0 [] [] [] 0))"
  using demo_outcome by (auto simp: demo_pipe_def split: prod.splits)

lemma demo_run_pair: "run_pipeline demo_pipe 0 [] [] [] 0 = (None, snd (run_pipeline demo_pipe 0 [] [] [] 0))"
  using demo_returns(1) by (metis prod.collapse)

lemma streamed_text_is_settled_witness:
  "quiet_agent demo_pipe \<and> open_text (p_out (snd (run_pipeline demo_pipe 0 [] [] [] 0))) = []"
  using demo_quiet streamed_text_is_settled [OF demo_quiet, of 0 "[]" "[]" "[]" 0] by simp

lemma reply_is_gated_witness:
  "trusted_outputs demo_pipe [] (snd (run_pipeline demo_pipe 0 [] [] [] 0))"
  using reply_is_gated [OF demo_run_pair demo_returns(2)] by blast

lemma returning_run_announces_end_witness:
  "last (p_out (snd (run_pipeline demo_pipe 0 [] [] [] 0))) = done_event"
  using returning_run_announces_end [OF demo_run_pair] by blast

text \<open>A number of visits, where each goes on.\<close>

primrec visits :: "'w pipe \<Rightarrow> (string, nat) dict \<Rightarrow> nat \<Rightarrow> 'w pstate \<Rightarrow> 'w pstate option" where
  "visits cfg index 0 st = Some st"
| "visits cfg index (Suc k) st =
     (if p_idx st < length (chain_nodes (pipe_chain cfg))
      then case node_step cfg index (chain_nodes (pipe_chain cfg) ! p_idx st) st of
             Continue st' \<Rightarrow> visits cfg index k st'
           | Stop e st' \<Rightarrow> None
      else None)"

lemma visits_reach: "visits cfg index k st = Some st' \<Longrightarrow> (loop_step cfg index)\<^sup>*\<^sup>* st st'"
proof (induction k arbitrary: st)
  case (Suc k)
  then obtain st1 where "loop_step cfg index st st1" "visits cfg index k st1 = Some st'"
    by (auto simp: loop_step_def split: if_splits node_end.splits)
  with Suc.IH show ?case by (meson converse_rtranclp_into_rtranclp)
qed simp

abbreviation demo_start :: "nat pstate" where
  "demo_start \<equiv> start_state demo_pipe 0 [] [] [] [] 0"

lemma demo_walk: "map_option (\<lambda>st. (p_idx st, p_backtracks st)) (visits demo_pipe demo_index 4 demo_start) = Some (0, 1)"
  by code_simp

lemma superseded_outputs_absent_witness:
  "case visits demo_pipe demo_index 4 demo_start of
     None \<Rightarrow> False
   | Some st \<Rightarrow> p_idx st = 0 \<and> p_backtracks st = 1 \<and> no_later_outputs demo_pipe (p_idx st) (p_ctx st)"
proof -
  obtain st where st: "visits demo_pipe demo_index 4 demo_start = Some st" "p_idx st = 0" "p_backtracks st = 1"
    using demo_walk by auto
  have "fresh_outputs demo_pipe 0 [] (p_idx st) (p_ctx st)"
  proof (rule superseded_outputs_absent [OF _ _ visits_reach [OF st(1)]])
    show "validate_chain_topology (pipe_chain demo_pipe) = Inr demo_index" by code_simp
    show "no_later_outputs demo_pipe (Suc 0) []" by (simp add: no_later_outputs_def list_all_iff)
  qed
  then have "no_later_outputs demo_pipe (p_idx st) (p_ctx st)"
    by (fastforce simp: fresh_outputs_def no_later_outputs_iff le_eq_less_or_eq Suc_le_eq)
  with st show ?thesis by simp
qed

lemma gate_outage_keeps_checkpoint_witness:
  "\<exists>st'. gate_node demo_pipe demo_index
       (demo_node ''c'' (LLMGate (\<lambda>w output ctx. (Inr (demo_verdict GPass), w)) ''check {output}''))
       empty_result ''p'' False (demo_start) = Stop None st'
     \<and> p_files st' = p_files (demo_start) \<and> p_ctx st' = p_ctx (demo_start)"
proof -
  have "coerce_gate_result (demo_verdict GPass) = Inr (gate_answer GPass ''r'' None False)"
    by code_simp
  from gate_outage_keeps_checkpoint [OF _ _ _ this, where cfg = demo_pipe and index = demo_index
      and inner = "\<lambda>w output ctx. (Inr (demo_verdict GPass), w)" and prompt_template = "''check {output}''"
      and node = "demo_node ''c'' (LLMGate (\<lambda>w output ctx. (Inr (demo_verdict GPass), w)) ''check {output}'')"
      and st = "demo_start" and result = empty_result and pid = "''p''" and fallback = False]
  show ?thesis by (auto simp: demo_node_def demo_pipe_def gate_answer_def)
qed

end
