(* ===== verification/Agent_Dispatch.thy ===== *)
theory Agent_Dispatch
  imports Pipeline
begin

text \<open>
  The dispatch of one run, \<^verbatim>\<open>engine/execution/orchestration/agent_loop.py\<close>: a forced skill, the
  loop without a chain, or a pipeline that may resume from its checkpoint.  The agent's answers
  (the loop, a forced skill) are parameters; a stream of events is the list of what it yields,
  with the exception that ends it, if any.
\<close>

record 'w agent_setup =
  as_pipe :: "'w pipe"
  as_skill_names :: "string list"
  as_react :: "'w \<Rightarrow> (execution_event list \<times> py_exc option) \<times> 'w"
  as_skill :: "'w \<Rightarrow> string \<Rightarrow> jdict \<Rightarrow> (execution_event list \<times> py_exc option) \<times> 'w"

record route_decision =
  rt_identity_id :: string
  rt_identity_name :: string
  rt_route_id :: string
  rt_pipeline_id :: "string option"
  rt_score :: int

definition opt_str :: "string option \<Rightarrow> json" where
  "opt_str v = (case v of None \<Rightarrow> JNull | Some s \<Rightarrow> JStr s)"

definition to_event_data :: "route_decision \<Rightarrow> jdict" where
  "to_event_data r =
     [(''identity_id'', JStr (rt_identity_id r)), (''identity_name'', JStr (rt_identity_name r)),
      (''route_id'', JStr (rt_route_id r)), (''pipeline_id'', opt_str (rt_pipeline_id r)),
      (''score'', JInt (rt_score r))]"

subsection \<open>A forced skill\<close>

record forced_result =
  fr_parts :: "string list"
  fr_streamed :: bool
  fr_terminal :: "execution_event option"

definition forced_one :: "execution_event \<Rightarrow> forced_result \<Rightarrow> execution_event list \<times> forced_result" where
  "forced_one e r =
     (case ev_type e of
        TEXT_DELTA \<Rightarrow>
          ([], r\<lparr>fr_parts := fr_parts r @ [str_get (ev_data e) ''text'' []],
                 fr_streamed := fr_streamed r \<or> truthy (dget (ev_data e) ''already_streamed'')\<rparr>)
      | EV_INCOMPLETE \<Rightarrow> ([], r\<lparr>fr_terminal := Some e\<rparr>)
      | EV_FAILED \<Rightarrow> ([], r\<lparr>fr_terminal := Some e\<rparr>)
      | _ \<Rightarrow> ([e], r))"

fun forced_events :: "execution_event list \<Rightarrow> forced_result \<Rightarrow> execution_event list \<times> forced_result" where
  "forced_events [] r = ([], r)"
| "forced_events (e # es) r =
     (let (out1, r1) = forced_one e r; (out2, r2) = forced_events es r1 in (out1 @ out2, r2))"

definition forced_text :: "forced_result \<Rightarrow> execution_event list" where
  "forced_text r =
     (if fr_parts r = [] then []
      else [ev TEXT_DELTA ([(''text'', JStr (concat (fr_parts r)))]
              @ (if fr_streamed r then [(''already_streamed'', JBool True)] else []))])"

definition forced_end :: "string \<Rightarrow> forced_result \<Rightarrow> execution_event list" where
  "forced_end skill r =
     (case fr_terminal r of
        None \<Rightarrow> [skill_end skill ''passed''] @ forced_text r @ [done_event]
      | Some e \<Rightarrow> forced_text r @ [e, skill_end skill
          (if ev_type e = EV_INCOMPLETE then ''incomplete'' else ''failed''), done_event])"

definition missing_skill_message :: "string list \<Rightarrow> string \<Rightarrow> string" where
  "missing_skill_message names wanted =
     (let quote = [CHR 0x27]; available = join '', '' (sort names) in
      ''Skill '' @ quote @ wanted @ quote @
      (if available = [] then '' not found. No skills are currently available.''
       else '' not found. Available skills: '' @ available))"

definition with_execution_context :: "jdict \<Rightarrow> jdict \<Rightarrow> jdict" where
  "with_execution_context ctx extra = dict_merge ctx (filter (\<lambda>(k, v). v \<noteq> JNull) extra)"

definition forced_skill_stream ::
    "'w agent_setup \<Rightarrow> string \<Rightarrow> string \<Rightarrow> jdict \<Rightarrow> 'w \<Rightarrow> (execution_event list \<times> py_exc option) \<times> 'w" where
  "forced_skill_stream setup user_message wanted extra w =
     (let decided = ev ROUTE_DECIDED [(''type'', JStr ''skill''), (''skill'', JStr wanted)] in
      case pipe_skills (as_pipe setup) wanted of
        None \<Rightarrow>
          let message = missing_skill_message (as_skill_names setup) wanted
          in (([decided, blocked_event wanted message,
                ev TEXT_DELTA [(''text'', JStr message)], done_event], None), w)
      | Some content \<Rightarrow>
          let ctx = with_execution_context
                [(CTX_USER_MESSAGE, JStr user_message), (CTX_TASK_TYPE, JStr ''skill''),
                 (CTX_FORCED_SKILL, JStr wanted)] extra;
              ((es, exc), w1) = as_skill setup w content ctx;
              (out, r) = forced_events es \<lparr>fr_parts = [], fr_streamed = False, fr_terminal = None\<rparr>;
              start = [decided, ev SKILL_START [(''skill'', JStr wanted), (''index'', JInt 0)]]
          in (case exc of
                Some e \<Rightarrow> ((start @ out, Some e), w1)
              | None \<Rightarrow> ((start @ out @ forced_end wanted r, None), w1)))"

subsection \<open>The dispatch\<close>

definition grill_me_chain_entry :: "string \<Rightarrow> route_decision \<Rightarrow> 'w skill_chain option \<Rightarrow> bool" where
  "grill_me_chain_entry wanted route chain \<longleftrightarrow>
     wanted = ''grill-me'' \<and> rt_route_id route = ''requirements-research''
     \<and> rt_pipeline_id route = Some ''requirements-research'' \<and> chain \<noteq> None"

definition pipeline_context :: "route_decision \<Rightarrow> string \<Rightarrow> jdict \<Rightarrow> jdict" where
  "pipeline_context route user_message extra =
     with_execution_context
       [(CTX_USER_MESSAGE, JStr user_message), (CTX_CHAIN_REQUEST, JStr user_message),
        (CTX_IDENTITY_ID, JStr (rt_identity_id route)), (CTX_ROUTE_ID, JStr (rt_route_id route))] extra"

definition run_agent_stream ::
    "'w agent_setup \<Rightarrow> clock \<Rightarrow> run_store \<Rightarrow> route_decision \<Rightarrow> 'w skill_chain option \<Rightarrow> string
     \<Rightarrow> string option \<Rightarrow> jdict \<Rightarrow> (string, nat) dict \<Rightarrow> ck_files \<Rightarrow> 'w
     \<Rightarrow> execution_event list \<times> pipe_error option \<times> ck_files \<times> 'w" where
  "run_agent_stream setup clk runs route chain user_message forced extra guard fs w =
     (case (case forced of
              Some skill \<Rightarrow> if skill \<noteq> [] \<and> \<not> grill_me_chain_entry skill route chain then Some skill else None
            | None \<Rightarrow> None) of
        Some skill \<Rightarrow>
          let ((es, exc), w1) = forced_skill_stream setup user_message skill extra w
          in (es, map_option NodeRaised exc, fs, w1)
      | None \<Rightarrow>
          let decided = ev ROUTE_DECIDED (to_event_data route) in
          (case (rt_pipeline_id route, chain) of
             (Some _, Some c) \<Rightarrow>
               let ((ctx, start), fs1) = apply_session_checkpoint clk runs fs
                     (pipeline_context route user_message extra) (rt_route_id route) user_message
                     (map skill_name (chain_nodes c));
                   (exc, st) = run_pipeline ((as_pipe setup)\<lparr>pipe_chain := c\<rparr>) start ctx guard fs1 w
               in (decided # p_out st, exc, p_files st, p_world st)
           | _ \<Rightarrow>
               let ((es, exc), w1) = as_react setup w
               in (case exc of
                     Some e \<Rightarrow> (decided # es, Some (NodeRaised e), fs, w1)
                   | None \<Rightarrow> (decided # es @ [done_event], None, fs, w1))))"

end
