(* ===== verification/Resume_Safety.thy ===== *)
theory Resume_Safety
  imports Pipeline_Safety Agent_Dispatch
begin

text \<open>
  Checkpoints and the decision to resume: what was saved is restored, a run resumes within its
  own scope only, and never from the checkpoint of a live run.
\<close>

subsection \<open>Checkpoints\<close>

lemma ck_from_to [simp]: "ck_from_dict (ck_to_dict c) = Some c"
  by (simp add: ck_from_dict_def ck_to_dict_def CK_REQUIRED_def CK_OPTIONAL_def dget_def Let_def)

lemma ck_save_restore:
  assumes "SESSION_ID_RE sid" "ck_session_id c = JStr sid" "wf_json (JObj (ck_to_dict c))"
  shows "ck_restore sid (snd (ck_save SaveOk c fs)) = Inr (Some c)"
  using assms loads_dumps_indent [OF assms(3), of 0] by (simp add: ck_save_def ck_restore_def Let_def)

lemma wf_ck_to_dict:
  "wf_json (JObj (ck_to_dict c)) \<longleftrightarrow>
     wf_json (ck_agent_id c) \<and> wf_json (ck_session_id c) \<and> wf_json (ck_identity_id c) \<and> wf_json (ck_route_id c)
     \<and> wf_json (ck_skill_chain_index c) \<and> wf_json (ck_context c) \<and> wf_json (ck_timestamp c)
     \<and> wf_json (ck_working_dir c) \<and> wf_json (ck_run_id c) \<and> wf_json (ck_awaiting_user_input c)
     \<and> wf_json (ck_provisional_outputs c) \<and> wf_json (ck_node_skill c)"
  by (simp add: ck_to_dict_def)

lemma wf_filter_obj: "wf_json (JObj d) \<Longrightarrow> wf_json (JObj (filter P d))"
  by (auto simp: distinct_map_filter)

lemma map_of_dict_merge: "map_of (dict_merge a b) k = (case map_of (rev b) k of Some v \<Rightarrow> Some v | None \<Rightarrow> map_of a k)"
  unfolding dict_merge_def
  by (induction b rule: rev_induct) (auto split: option.split)

lemma map_of_dict_merge_distinct:
  "distinct (map fst b) \<Longrightarrow> map_of (dict_merge a b) k = (case map_of b k of Some v \<Rightarrow> Some v | None \<Rightarrow> map_of a k)"
proof -
  assume "distinct (map fst b)"
  then have "map_of (rev b) = map_of b"
    by (subst map_of_inject_set) (simp_all add: rev_map [symmetric])
  then show ?thesis by (simp add: map_of_dict_merge)
qed

lemma checkpoint_of_wf:
  "wf_json (JObj ctx) \<Longrightarrow> wf_json (JObj provisional) \<Longrightarrow>
     wf_json (JObj (ck_to_dict (checkpoint_of ctx i name awaiting provisional timestamp)))"
  unfolding wf_ck_to_dict by (simp add: checkpoint_of_def wf_filter_obj del: wf_json.simps(3))

text \<open>The scope of a session, as the context of a run carries it.\<close>

definition in_session :: "string \<Rightarrow> string \<Rightarrow> string \<Rightarrow> string \<Rightarrow> jdict \<Rightarrow> bool" where
  "in_session sid agent identity wd ctx \<longleftrightarrow>
     sid \<noteq> [] \<and> agent \<noteq> [] \<and> identity \<noteq> [] \<and> wd \<noteq> [] \<and> ctx_str ctx CTX_STATE_DIR \<noteq> []
     \<and> ctx_str ctx CTX_SESSION_ID = sid \<and> ctx_str ctx CTX_AGENT_ID = agent
     \<and> ctx_str ctx CTX_IDENTITY_ID = identity \<and> ctx_str ctx CTX_WORKING_DIR = wd"

lemma resume_after_save:
  assumes scope: "in_session sid agent identity wd ctx0" "in_session sid agent identity wd ctx" "SESSION_ID_RE sid"
    and run: "ctx_str ctx0 CTX_RUN_ID \<noteq> []"
      "\<not> checkpoint_owner_still_running clk runs (ctx_str ctx0 CTX_RUN_ID) (ctx_str ctx CTX_RUN_ID)"
    and request: "map_of ctx0 CTX_CHAIN_REQUEST = Some (JStr message)"
    and node: "i < length names" "names ! i = name"
    and wf: "wf_json (JObj ctx0)" "wf_json (JObj provisional)" "distinct (map fst ctx)"
    and fs: "fs = snd (ck_save SaveOk (checkpoint_of ctx0 i name False provisional timestamp) fs0)"
  shows "\<exists>r. apply_session_checkpoint clk runs fs ctx (ctx_str ctx0 CTX_ROUTE_ID) message names
           = ((r, i + 1), fs)
         \<and> (\<forall>k. map_of r k =
              (if k = CTX_PROVISIONAL_OUTPUTS then Some (JObj provisional)
               else case map_of ctx k of Some v \<Rightarrow> Some v
                  | None \<Rightarrow> if starts_with ''_'' k then None else map_of ctx0 k))"
proof -
  let ?c = "checkpoint_of ctx0 i name False provisional timestamp"
  let ?d = "filter (\<lambda>(k, v). \<not> starts_with ''_'' k) ctx0"
  have restore: "ck_restore sid fs = Inr (Some ?c)"
    unfolding fs using scope(1,3) wf
    by (intro ck_save_restore checkpoint_of_wf) (simp_all add: checkpoint_of_def in_session_def del: wf_json.simps)
  have d: "map_of ?d k = (if \<not> starts_with ''_'' k then map_of ctx0 k else None)" for k
    by (rule map_of_filter_keys)
  have same: "same_scope ctx (ctx_str ctx0 CTX_ROUTE_ID) names ?c = Inr True"
    using scope run node
    by (simp add: same_scope_def checkpoint_of_def in_session_def resume_node_still_matches_def chain_index_def Let_def)
  have req: "request_of ?d = JStr message"
    using request d [of CTX_CHAIN_REQUEST]
    by (simp add: request_of_def ctx_keys starts_with_def)
  let ?r = "dset CTX_PROVISIONAL_OUTPUTS (JObj provisional) (dict_merge ?d ctx)"
  have resume: "resume_from ctx (ctx_str ctx0 CTX_ROUTE_ID) message names ?c = Inr (Some (?r, i + 1))"
    using same req
    by (simp add: resume_from_def checkpoint_of_def ck_context_get_def as_dict_def chain_index_def nat_add_distrib)
  have live: "\<not> owner_live clk runs ?c (ctx_str ctx CTX_RUN_ID)"
    using run by (simp add: owner_live_def checkpoint_of_def)
  have "apply_session_checkpoint clk runs fs ctx (ctx_str ctx0 CTX_ROUTE_ID) message names = ((?r, i + 1), fs)"
    using scope(2) restore resume live
    by (simp add: apply_session_checkpoint_def in_session_def Let_def)
  moreover have "map_of ?r k =
      (if k = CTX_PROVISIONAL_OUTPUTS then Some (JObj provisional)
       else case map_of ctx k of Some v \<Rightarrow> Some v
          | None \<Rightarrow> if starts_with ''_'' k then None else map_of ctx0 k)" for k
    using d [of k] by (simp add: map_of_dict_merge_distinct [OF wf(3)] split: option.split)
  ultimately show ?thesis by blast
qed

lemma commit_node_saved:
  assumes "\<And>w. fst (pipe_disk cfg w) = SaveOk"
    and "st' = commit_node cfg node pid result st"
    and "ctx_str (p_ctx st') CTX_SESSION_ID \<noteq> []" "ctx_str (p_ctx st') CTX_STATE_DIR \<noteq> []"
  shows "p_idx st' = p_idx st + 1"
    and "\<exists>timestamp. p_files st' = snd (ck_save SaveOk
       (checkpoint_of (p_ctx st') (p_idx st) (skill_name node) False (p_provisional st') timestamp) (p_files st))"
proof -
  define st2 where "st2 = (set_ctx (okey node) (JStr (nr_text result))
        (emit_all [ev PROVISIONAL_COMMIT [(''provision_id'', JStr pid)]] st))
      \<lparr>p_fallback := AList.delete (p_idx st) (p_fallback st),
       p_provisional := dset (okey node) (JBool (nr_was_provisional result)) (p_provisional st),
       p_committed := dset (okey node) (p_idx st) (p_committed st)\<rparr>"
  have st': "st' = (emit_all [skill_end (skill_name node) ''passed'']
      (save_checkpoint cfg (p_idx st) (skill_name node) False st2))\<lparr>p_idx := p_idx st + 1\<rparr>"
    using assms(2) by (simp add: commit_node_def Let_def st2_def pipe_ops)
  then show "p_idx st' = p_idx st + 1" by simp
  have ctx: "p_ctx st' = p_ctx st2" "p_provisional st' = p_provisional st2" "p_files st2 = p_files st"
    by (simp_all add: st' emit_fields) (simp add: st2_def pipe_ops)
  obtain ts w1 where t: "pipe_utcnow cfg (p_world st2) = (ts, w1)" by fastforce
  obtain w2 where d: "pipe_disk cfg w1 = (SaveOk, w2)" using assms(1) [of w1] by (metis prod.collapse)
  have "p_files st' = snd (ck_save SaveOk
      (checkpoint_of (p_ctx st2) (p_idx st) (skill_name node) False (p_provisional st2) ts) (p_files st))"
    using assms(3,4) t d ctx by (simp add: st' emit_fields save_checkpoint_def Let_def)
  then show "\<exists>timestamp. p_files st' = snd (ck_save SaveOk
      (checkpoint_of (p_ctx st') (p_idx st) (skill_name node) False (p_provisional st') timestamp) (p_files st))"
    using ctx by auto
qed

text \<open>A checkpoint of the run's scope that belongs to another request is cleared.\<close>

lemma other_request_starts_afresh:
  assumes "ck_restore (ctx_str ctx CTX_SESSION_ID) fs = Inr (Some c)"
    and "ctx_str ctx CTX_SESSION_ID \<noteq> []" "ctx_str ctx CTX_STATE_DIR \<noteq> []"
    and "\<not> owner_live clk runs c (ctx_str ctx CTX_RUN_ID)" "same_scope ctx route names c = Inr same"
    and "\<not> truthy (ck_awaiting_user_input c)" "ck_context c = JObj d" "request_of d \<noteq> JStr message"
  shows "apply_session_checkpoint clk runs fs ctx route message names
    = ((ctx, 0), snd (ck_clear (ctx_str ctx CTX_SESSION_ID) fs))"
  using assms by (simp add: apply_session_checkpoint_def resume_from_def ck_context_get_def Let_def)

text \<open>
  C30. A crash after a node loses nothing that was accepted, for the same request.  When a node
  has passed and its checkpoint was written, a later run of the same session and of the same
  chain, with the same request text, agent, identity, working directory and route, whose
  predecessor is no longer live, starts behind that node.  It has every public entry of the
  context it does not set itself, every accepted output among them (what it sets itself wins),
  and the ledger of what the user has already seen; deciding so leaves the checkpoint where it
  is.  Another request text starts afresh (\<open>other_request_starts_afresh\<close>).
\<close>
theorem crash_resume_restores_progress:
  assumes disk: "\<And>w. fst (pipe_disk cfg w) = SaveOk"
    and passed: "st' = commit_node cfg node pid result st"
    and node: "p_idx st < length (chain_nodes (pipe_chain cfg))" "chain_nodes (pipe_chain cfg) ! p_idx st = node"
    and scope: "in_session sid agent identity wd (p_ctx st')" "in_session sid agent identity wd ctx" "SESSION_ID_RE sid"
    and run: "ctx_str (p_ctx st') CTX_RUN_ID \<noteq> []"
      "\<not> checkpoint_owner_still_running clk runs (ctx_str (p_ctx st') CTX_RUN_ID) (ctx_str ctx CTX_RUN_ID)"
    and request: "map_of (p_ctx st') CTX_CHAIN_REQUEST = Some (JStr message)"
    and wf: "wf_json (JObj (p_ctx st'))" "wf_json (JObj (p_provisional st'))" "distinct (map fst ctx)"
  shows "\<exists>r. apply_session_checkpoint clk runs (p_files st') ctx (ctx_str (p_ctx st') CTX_ROUTE_ID) message
               (map skill_name (chain_nodes (pipe_chain cfg)))
           = ((r, p_idx st'), p_files st')
         \<and> (\<forall>k. map_of r k =
              (if k = CTX_PROVISIONAL_OUTPUTS then Some (JObj (p_provisional st'))
               else case map_of ctx k of Some v \<Rightarrow> Some v
                  | None \<Rightarrow> if starts_with ''_'' k then None else map_of (p_ctx st') k))"
proof -
  have "ctx_str (p_ctx st') CTX_SESSION_ID \<noteq> []" "ctx_str (p_ctx st') CTX_STATE_DIR \<noteq> []"
    using scope(1) by (simp_all add: in_session_def)
  from commit_node_saved [OF disk passed this] obtain ts where
    saved: "p_idx st' = p_idx st + 1"
      "p_files st' = snd (ck_save SaveOk (checkpoint_of (p_ctx st') (p_idx st) (skill_name node) False
         (p_provisional st') ts) (p_files st))" by blast
  have names: "p_idx st < length (map skill_name (chain_nodes (pipe_chain cfg)))"
      "map skill_name (chain_nodes (pipe_chain cfg)) ! p_idx st = skill_name node"
    using node by simp_all
  show ?thesis unfolding saved(1)
    by (rule resume_after_save [OF scope run request names wf saved(2)])
qed

text \<open>
  C31. The decision to resume (\<^verbatim>\<open>_apply_session_checkpoint\<close>) adopts only a checkpoint of the
  run's own scope, and never that of a run that is still live.  While the run that wrote the
  checkpoint is live, or cannot be inspected, it decides for a fresh start and leaves the
  checkpoint alone.  When it decides to resume, the checkpoint carries the run's agent, identity,
  working directory and route, names the node at the recorded index, and is not removed; it
  is either the pending question of a node, which any message answers, or belongs to the very
  same request.  What the nodes of the run later save or clear is not part of the decision.
\<close>
theorem resume_within_own_scope:
  assumes "ck_restore (ctx_str ctx CTX_SESSION_ID) fs = Inr (Some c)"
    and "apply_session_checkpoint clk runs fs ctx route message names = ((r, start), fs')"
  shows "(truthy (ck_run_id c) \<and> owner_live clk runs c (ctx_str ctx CTX_RUN_ID)
            \<longrightarrow> r = ctx \<and> start = 0 \<and> fs' = fs)
    \<and> ((r, start) \<noteq> (ctx, 0) \<longrightarrow>
         fs' = fs \<and> truthy (ck_run_id c) \<and> \<not> owner_live clk runs c (ctx_str ctx CTX_RUN_ID)
         \<and> ck_agent_id c = JStr (ctx_str ctx CTX_AGENT_ID)
         \<and> ck_identity_id c = JStr (ctx_str ctx CTX_IDENTITY_ID)
         \<and> ck_working_dir c = JStr (ctx_str ctx CTX_WORKING_DIR)
         \<and> ck_route_id c = JStr route
         \<and> resume_node_still_matches c names = Inr True
         \<and> (truthy (ck_awaiting_user_input c)
            \<or> (case ck_context c of JObj d \<Rightarrow> request_of d = JStr message | _ \<Rightarrow> False)))"
proof -
  have scope: "same_scope ctx route names c = Inr True
      \<and> (truthy (ck_awaiting_user_input c)
         \<or> (case ck_context c of JObj d \<Rightarrow> request_of d = JStr message | _ \<Rightarrow> False))"
    if "resume_from ctx route message names c = Inr (Some x)" for x
    using that
    by (auto simp: resume_from_def bind_res_Inr ck_context_get_def split: if_splits json.splits)
  have fields: "truthy (ck_run_id c) \<and> ck_agent_id c = JStr (ctx_str ctx CTX_AGENT_ID)
         \<and> ck_identity_id c = JStr (ctx_str ctx CTX_IDENTITY_ID)
         \<and> ck_working_dir c = JStr (ctx_str ctx CTX_WORKING_DIR)
         \<and> ck_route_id c = JStr route \<and> resume_node_still_matches c names = Inr True"
    if "same_scope ctx route names c = Inr True"
    using that by (auto simp: same_scope_def Let_def split: if_splits)
  consider (fresh) "r = ctx" "start = 0" "truthy (ck_run_id c) \<and> owner_live clk runs c (ctx_str ctx CTX_RUN_ID) \<longrightarrow> fs' = fs"
    | (resumed) "\<not> (truthy (ck_run_id c) \<and> owner_live clk runs c (ctx_str ctx CTX_RUN_ID))"
        "resume_from ctx route message names c = Inr (Some (r, start))" "fs' = fs"
    using assms
    by (auto simp: apply_session_checkpoint_def Let_def split: if_splits sum.splits option.splits)
  then show ?thesis
  proof cases
    case fresh
    then show ?thesis by simp
  next
    case resumed
    with scope [OF resumed(2)] fields show ?thesis by auto
  qed
qed

subsection \<open>Witnesses for resumption\<close>

definition demo_ctx :: "string \<Rightarrow> jdict" where
  "demo_ctx run = [(CTX_SESSION_ID, JStr ''s''), (CTX_AGENT_ID, JStr ''a''), (CTX_IDENTITY_ID, JStr ''i''),
     (CTX_ROUTE_ID, JStr ''r''), (CTX_CHAIN_REQUEST, JStr ''m''), (CTX_WORKING_DIR, JStr ''w''),
     (CTX_STATE_DIR, JStr ''d''), (CTX_RUN_ID, JStr run)]"

definition no_runs :: run_store where
  "no_runs = \<lparr>files = [], deferred = []\<rparr>"

text \<open>The state after the first node of a run has passed, and the context of its successor.\<close>

definition demo_passed :: "nat pstate" where
  "demo_passed = commit_node demo_pipe (demo_node ''a'' (demo_gate 0)) ''p''
     (empty_result\<lparr>nr_text := ''t''\<rparr>) (start_state demo_pipe 0 (demo_ctx ''run-1'') [] [] [] 0)"

lemma demo_passed_fields:
  "p_ctx demo_passed = dset ''a_output'' (JStr ''t'') (demo_ctx ''run-1'')"
  "p_provisional demo_passed = [(''a_output'', JBool False)]" "p_idx demo_passed = 1"
  by code_simp+

lemma demo_scope:
  "in_session ''s'' ''a'' ''i'' ''w'' (p_ctx demo_passed)" "in_session ''s'' ''a'' ''i'' ''w'' (demo_ctx ''run-2'')"
  "SESSION_ID_RE ''s''" "ctx_str (p_ctx demo_passed) CTX_RUN_ID = ''run-1''"
  "ctx_str (demo_ctx ''run-2'') CTX_RUN_ID = ''run-2''"
  "map_of (p_ctx demo_passed) CTX_CHAIN_REQUEST = Some (JStr ''m'')"
  "ctx_str (p_ctx demo_passed) CTX_ROUTE_ID = ''r''"
  unfolding demo_passed_fields by code_simp+

lemma demo_owner_gone: "\<not> checkpoint_owner_still_running clk no_runs ''run-1'' ''run-2''"
  by (simp add: checkpoint_owner_still_running_def no_runs_def get_def validate_run_id_def bind_res_def
      RUN_ID_RE_def id_char_def code_def)

lemma demo_ctx_wf:
  "wf_json (JObj (p_ctx demo_passed))" "wf_json (JObj (p_provisional demo_passed))"
  "distinct (map fst (demo_ctx ''run-2''))"
  unfolding demo_passed_fields by code_simp+

lemma crash_resume_restores_progress_witness:
  "\<exists>r. apply_session_checkpoint (\<lambda>_. ''now'') no_runs (p_files demo_passed) (demo_ctx ''run-2'') ''r'' ''m'' [''a'', ''b'']
       = ((r, 1), p_files demo_passed)
     \<and> map_of r ''a_output'' = Some (JStr ''t'')"
proof -
  have disk: "fst (pipe_disk demo_pipe w) = SaveOk" for w by (simp add: demo_pipe_def)
  have node: "p_idx (start_state demo_pipe 0 (demo_ctx ''run-1'') [] [] [] 0) < length (chain_nodes (pipe_chain demo_pipe))"
    "chain_nodes (pipe_chain demo_pipe) ! p_idx (start_state demo_pipe 0 (demo_ctx ''run-1'') [] [] [] 0)
       = demo_node ''a'' (demo_gate 0)"
    by (simp_all add: start_state_def demo_pipe_def)
  have names: "map skill_name (chain_nodes (pipe_chain demo_pipe)) = [''a'', ''b'']"
    by (simp add: demo_pipe_def demo_node_def)
  have live: "\<not> checkpoint_owner_still_running (\<lambda>_. ''now'') no_runs (ctx_str (p_ctx demo_passed) CTX_RUN_ID)
      (ctx_str (demo_ctx ''run-2'') CTX_RUN_ID)"
    unfolding demo_scope(4,5) by (rule demo_owner_gone)
  have run: "ctx_str (p_ctx demo_passed) CTX_RUN_ID \<noteq> []" unfolding demo_scope(4) by simp
  obtain r where r: "apply_session_checkpoint (\<lambda>_. ''now'') no_runs (p_files demo_passed) (demo_ctx ''run-2'') ''r'' ''m'' [''a'', ''b'']
       = ((r, p_idx demo_passed), p_files demo_passed)"
    "map_of r ''a_output'' =
       (if ''a_output'' = CTX_PROVISIONAL_OUTPUTS then Some (JObj (p_provisional demo_passed))
        else case map_of (demo_ctx ''run-2'') ''a_output'' of Some v \<Rightarrow> Some v
           | None \<Rightarrow> if starts_with ''_'' ''a_output'' then None else map_of (p_ctx demo_passed) ''a_output'')"
    using crash_resume_restores_progress [OF disk demo_passed_def node demo_scope(1-3) run live demo_scope(6) demo_ctx_wf]
    unfolding names demo_scope(7) by blast
  have "map_of r ''a_output'' = Some (JStr ''t'')"
    unfolding r(2) demo_passed_fields by code_simp
  with r(1) show ?thesis unfolding demo_passed_fields by blast
qed

definition demo_checkpoint :: checkpoint where
  "demo_checkpoint = checkpoint_of (p_ctx demo_passed) 0 ''a'' False [] ''now''"

lemma demo_restored:
  "ck_restore ''s'' (snd (ck_save SaveOk demo_checkpoint [])) = Inr (Some demo_checkpoint)"
  unfolding demo_checkpoint_def
  by (rule ck_save_restore [OF demo_scope(3) _ checkpoint_of_wf [OF demo_ctx_wf(1)]])
    (use demo_scope(1) in \<open>simp_all add: checkpoint_of_def in_session_def\<close>)

lemma resume_within_own_scope_witness:
  "ck_working_dir demo_checkpoint = JStr ''w''
   \<and> snd (fst (apply_session_checkpoint (\<lambda>_. ''now'') no_runs (snd (ck_save SaveOk demo_checkpoint []))
        (demo_ctx ''run-2'') ''r'' ''m'' [''a'', ''b''])) = 1"
proof -
  have names: "0 < length [''a'', ''b'']" "[''a'', ''b''] ! 0 = ''a''" by simp_all
  have run: "ctx_str (p_ctx demo_passed) CTX_RUN_ID \<noteq> []"
    "\<not> checkpoint_owner_still_running (\<lambda>_. ''now'') no_runs (ctx_str (p_ctx demo_passed) CTX_RUN_ID)
      (ctx_str (demo_ctx ''run-2'') CTX_RUN_ID)"
    unfolding demo_scope(4,5) by (simp_all add: demo_owner_gone)
  have wf: "wf_json (JObj [])" by simp
  obtain r where r: "apply_session_checkpoint (\<lambda>_. ''now'') no_runs (snd (ck_save SaveOk demo_checkpoint []))
      (demo_ctx ''run-2'') ''r'' ''m'' [''a'', ''b''] = ((r, 0 + 1), snd (ck_save SaveOk demo_checkpoint []))"
    using resume_after_save [OF demo_scope(1-3) run demo_scope(6) names demo_ctx_wf(1) wf demo_ctx_wf(3)]
    unfolding demo_checkpoint_def demo_scope(7) by blast
  have "ctx_str (demo_ctx ''run-2'') CTX_SESSION_ID = ''s''" by code_simp
  then have "ck_working_dir demo_checkpoint = JStr (ctx_str (demo_ctx ''run-2'') CTX_WORKING_DIR)"
    using resume_within_own_scope [OF _ r] demo_restored by simp
  moreover have "ctx_str (demo_ctx ''run-2'') CTX_WORKING_DIR = ''w''" by code_simp
  ultimately show ?thesis using r by simp
qed

end
