(* ===== verification/Llm.thy ===== *)
theory Llm
  imports Py_Values
begin

text \<open>
  The values every model client speaks in (\<^verbatim>\<open>engine/llm/contracts.py\<close>,
  \<^verbatim>\<open>engine/llm/events.py\<close>), and the normalization of the usage a provider reports
  (\<^verbatim>\<open>engine/llm/usage.py\<close>).  The exceptions are one datatype; those that are subclasses of
  \<^verbatim>\<open>LLMResponseError\<close> are told apart by \<open>is_response_error\<close>.
\<close>

subsection \<open>Exceptions, requests and responses\<close>

datatype llm_exc =
    ResponseError string
  | ContextLengthError string int "string option"
  | StreamProviderError string bool
  | StreamTruncatedError string
  | LoopRuntimeError string
  | UsageError int_exc
  | UndecodableBody
  | OtherFailure string

definition is_response_error :: "llm_exc \<Rightarrow> bool" where
  "is_response_error e = (case e of
       ResponseError _ \<Rightarrow> True | ContextLengthError _ _ _ \<Rightarrow> True | StreamProviderError _ _ \<Rightarrow> True
     | StreamTruncatedError _ \<Rightarrow> True | _ \<Rightarrow> False)"

definition exc_text :: "llm_exc \<Rightarrow> string" where
  "exc_text e = (case e of
       ResponseError s \<Rightarrow> s | ContextLengthError s _ _ \<Rightarrow> s | StreamProviderError s _ \<Rightarrow> s
     | StreamTruncatedError s \<Rightarrow> s | LoopRuntimeError s \<Rightarrow> s | OtherFailure s \<Rightarrow> s | _ \<Rightarrow> [])"

record tool_call_data =
  tcd_id :: string
  tcd_name :: string
  tcd_arguments :: jdict

record chat_response =
  rs_text :: string
  rs_reasoning :: string
  rs_tool_calls :: "tool_call_data list"
  rs_usage :: "jdict option"
  rs_finish_reason :: "string option"
  rs_raw_finish_reason :: "string option"
  rs_model :: string

record capabilities =
  cap_streaming :: bool
  cap_tool_calls :: bool
  cap_prefix_cache_key :: bool

subsection \<open>Provider events\<close>

datatype provider_event_type =
    ResponseCreated | OutputTextDelta | ReasoningDelta | FunctionCallArgumentsDelta
  | UsageReported | ResponseCompleted

record provider_event =
  pe_type :: provider_event_type
  pe_data :: jdict

definition finish_aliases :: "(string, string) dict" where
  "finish_aliases =
     [(''stop'', ''stop''), (''end_turn'', ''stop''), (''stop_sequence'', ''stop''),
      (''length'', ''length''), (''max_tokens'', ''length''),
      (''tool_calls'', ''tool_calls''), (''function_call'', ''tool_calls''), (''tool_use'', ''tool_calls''),
      (''content_filter'', ''content_filter''), (''content-filter'', ''content_filter''),
      (''refusal'', ''content_filter''), (''error'', ''error'')]"

definition normalize_finish_reason :: "json \<Rightarrow> string option" where
  "normalize_finish_reason v =
     (case v of
        JStr s \<Rightarrow>
          (let raw = lower (strip s) in
           if raw = [] then None
           else Some (case map_of finish_aliases raw of Some a \<Rightarrow> a | None \<Rightarrow> ''other''))
      | _ \<Rightarrow> None)"

definition str_of :: "json \<Rightarrow> string option" where
  "str_of v = (case v of JStr s \<Rightarrow> Some s | _ \<Rightarrow> None)"

text \<open>\<^verbatim>\<open>isinstance(v, str) and v\<close>: the text, when it is one and not empty.\<close>

definition nonempty_str :: "json \<Rightarrow> string option" where
  "nonempty_str v = (case v of JStr s \<Rightarrow> if s = [] then None else Some s | _ \<Rightarrow> None)"

text \<open>\<^verbatim>\<open>isinstance(v, int)\<close>, true of booleans as well, with the number it stands for.\<close>

definition is_int_value :: "json \<Rightarrow> bool" where
  "is_int_value v = (case v of JInt _ \<Rightarrow> True | JBool _ \<Rightarrow> True | _ \<Rightarrow> False)"

definition int_value :: "json \<Rightarrow> int" where
  "int_value v = (case v of JInt i \<Rightarrow> i | JBool b \<Rightarrow> (if b then 1 else 0) | _ \<Rightarrow> 0)"

definition obj_of :: "json \<Rightarrow> jdict option" where
  "obj_of v = (case v of JObj d \<Rightarrow> Some d | _ \<Rightarrow> None)"

lemma str_of_simps [simp]: "str_of (JStr s) = Some s" "str_of JNull = None" "str_of (JObj d) = None"
  by (simp_all add: str_of_def)

lemma str_of_jopt [simp]: "str_of (jopt x) = x"
  by (cases x) simp_all

lemma obj_of_simps [simp]: "obj_of (JObj d) = Some d" "obj_of JNull = None"
  by (simp_all add: obj_of_def)

lemma nonempty_str_simps [simp]: "nonempty_str (JStr s) = (if s = [] then None else Some s)" "nonempty_str JNull = None"
  by (simp_all add: nonempty_str_def)

subsection \<open>Usage\<close>

definition USAGE_KEYS :: "string list" where
  "USAGE_KEYS = [''input_tokens'', ''output_tokens'', ''total_tokens'', ''cache_read_tokens'',
                 ''cache_write_tokens'', ''reasoning_tokens'']"

definition USAGE_REPORTED_KEY :: string where "USAGE_REPORTED_KEY = ''usage_reported''"

text \<open>
  \<^verbatim>\<open>_number\<close>.  A float is below zero when its text has a sign and is not a zero; \<^verbatim>\<open>int\<close> raises
  on the not-a-number and infinite floats that \<^verbatim>\<open>json.loads\<close> accepts.
\<close>

definition usage_number :: "json \<Rightarrow> int_exc + int option" where
  "usage_number v =
     (case v of
        JInt i \<Rightarrow> Inr (if i < 0 then None else Some i)
      | JFloat t \<Rightarrow>
          if starts_with ''-'' t \<and> \<not> float_zero t then Inr None
          else bind_res (py_int v) (\<lambda>i. Inr (Some i))
      | _ \<Rightarrow> Inr None)"

fun path_value :: "json \<Rightarrow> string list \<Rightarrow> json" where
  "path_value v [] = v"
| "path_value v (k # ks) = (case v of JObj d \<Rightarrow> path_value (dget d k) ks | _ \<Rightarrow> JNull)"

fun usage_first :: "jdict \<Rightarrow> string list list \<Rightarrow> int_exc + int" where
  "usage_first raw [] = Inr 0"
| "usage_first raw (p # ps) =
     bind_res (usage_number (path_value (JObj raw) p))
       (\<lambda>n. case n of Some i \<Rightarrow> Inr i | None \<Rightarrow> usage_first raw ps)"

definition normalize_usage :: "json \<Rightarrow> int_exc + (string, int) dict" where
  "normalize_usage v =
     (case v of
        JObj raw \<Rightarrow>
          if raw = [] then Inr (map (\<lambda>k. (k, 0)) USAGE_KEYS @ [(USAGE_REPORTED_KEY, 0)])
          else
            bind_res (usage_first raw [[''prompt_tokens''], [''input_tokens'']]) (\<lambda>input_tokens.
            bind_res (usage_first raw [[''completion_tokens''], [''output_tokens'']]) (\<lambda>output_tokens.
            bind_res (usage_first raw [[''total_tokens'']]) (\<lambda>reported_total.
            bind_res (usage_first raw [[''prompt_tokens_details'', ''cached_tokens''],
                                       [''prompt_cache_hit_tokens''], [''cache_read_input_tokens'']]) (\<lambda>cache_read.
            bind_res (usage_first raw [[''cache_creation_input_tokens'']]) (\<lambda>cache_write.
            bind_res (usage_first raw [[''completion_tokens_details'', ''reasoning_tokens'']]) (\<lambda>reasoning.
              Inr [(''input_tokens'', input_tokens), (''output_tokens'', output_tokens),
                   (''total_tokens'', if reported_total = 0 then input_tokens + output_tokens else reported_total),
                   (''cache_read_tokens'', cache_read), (''cache_write_tokens'', cache_write),
                   (''reasoning_tokens'', reasoning), (USAGE_REPORTED_KEY, 1)]))))))
      | _ \<Rightarrow> Inr (map (\<lambda>k. (k, 0)) USAGE_KEYS @ [(USAGE_REPORTED_KEY, 0)]))"

text \<open>The counts a provider may report without an exception: every float is a finite number.\<close>

fun finite_numbers :: "json \<Rightarrow> bool" where
  "finite_numbers (JFloat t) = (case py_int (JFloat t) of Inr _ \<Rightarrow> True | Inl _ \<Rightarrow> False)"
| "finite_numbers (JArr vs) = list_all finite_numbers vs"
| "finite_numbers (JObj d) = list_all (finite_numbers \<circ> snd) d"
| "finite_numbers _ = True"

end
