(* ===== verification/Llm_Http.thy ===== *)
theory Llm_Http
  imports Llm Approval Registry
begin

text \<open>
  The HTTP side shared by the provider adapters (\<^verbatim>\<open>engine/llm/adapters/_http.py\<close> and
  \<^verbatim>\<open>_retry.py\<close>): the classification of refusals, bounded reading, the limits of a stream, the
  retry loop of plain requests and the retry loop of streams.  What the network answers to each
  attempt is an argument; \<^verbatim>\<open>httpx\<close> splits bodies into chunks and lines.  A line comes with the
  outcome of the comparison of the clock with the duration limit at that line.
\<close>

subsection \<open>Replies and failures of one attempt\<close>

record http_reply =
  hr_status :: int
  hr_retry_after :: "string option"
  hr_chunks :: "string list"
  hr_lines :: "(string \<times> bool) list"
  hr_broken :: "string option"

datatype http_answer = NoAnswer string | Answer http_reply

datatype attempt_exc = HttpStatus int "string option" | Transport string | Excepted llm_exc

datatype delay = HeaderDelay string | Backoff nat

text \<open>The bytes of a body, as \<^verbatim>\<open>json.loads\<close> reads them.\<close>

datatype body_read = BodyJson json | BodyInvalid | BodyUndecodable

definition MAX_RETRIES :: nat where "MAX_RETRIES = 3"
definition MAX_RESPONSE_BYTES :: nat where "MAX_RESPONSE_BYTES = 20 * 1024 * 1024"
definition MAX_STREAM_TOTAL_BYTES :: nat where "MAX_STREAM_TOTAL_BYTES = 20 * 1024 * 1024"
definition MAX_STREAM_EVENT_BYTES :: nat where "MAX_STREAM_EVENT_BYTES = 1 * 1024 * 1024"
definition MAX_STREAM_EVENTS :: int where "MAX_STREAM_EVENTS = 10000"
definition MAX_ERROR_BODY_BYTES :: nat where "MAX_ERROR_BODY_BYTES = 64 * 1024"

definition is_retryable_status :: "int \<Rightarrow> bool" where
  "is_retryable_status status_code \<longleftrightarrow> status_code = 429 \<or> 500 \<le> status_code"

definition retry_delay :: "nat \<Rightarrow> string option \<Rightarrow> delay" where
  "retry_delay attempt retry_after =
     (case retry_after of Some d \<Rightarrow> HeaderDelay d | None \<Rightarrow> Backoff (2 ^ attempt))"

subsection \<open>Refusals\<close>

definition context_limit_markers :: "string list" where
  "context_limit_markers =
     [''context_length_exceeded'', ''context length'', ''context limit'', ''maximum context'',
      ''max context'', ''input length'', ''prompt is too long'', ''input is too long'', ''too many tokens'']"

text \<open>\<^verbatim>\<open>str.casefold\<close> below code point 256: the sharp s becomes two letters.\<close>

definition fold_case :: "string \<Rightarrow> string" where
  "fold_case s = concat (map (\<lambda>c. if code c = 223 then ''ss'' else [lower_char c]) s)"

definition mentions_context_limit :: "string \<Rightarrow> bool" where
  "mentions_context_limit s \<longleftrightarrow> (let folded = fold_case s in list_ex (\<lambda>m. contains m folded) context_limit_markers)"

definition refusal_code :: "string \<Rightarrow> string option" where
  "refusal_code detail =
     (case loads detail of
        Some (JObj payload) \<Rightarrow>
          (case dget payload ''error'' of
             JObj err \<Rightarrow>
               map_option (take 100)
                 (nonempty_str (if truthy (dget err ''code'') then dget err ''code'' else dget err ''type''))
           | _ \<Rightarrow> None)
      | _ \<Rightarrow> None)"

definition context_length_error :: "string \<Rightarrow> int \<Rightarrow> string \<Rightarrow> llm_exc option" where
  "context_length_error label status_code detail =
     (if status_code \<notin> {400, 413, 422} then None
      else if \<not> mentions_context_limit detail then None
      else Some (ContextLengthError
        (label @ '' request exceeds the selected model context window (HTTP '' @ show_int status_code @ '').'')
        status_code (refusal_code detail)))"

text \<open>\<^verbatim>\<open>_read_error_text\<close>: a failure while reading gives no detail at all.\<close>

fun read_error_chunks :: "nat \<Rightarrow> string list \<Rightarrow> bool \<Rightarrow> string option" where
  "read_error_chunks seen [] broken = (if broken then None else Some [])"
| "read_error_chunks seen (c # cs) broken =
     (let remaining = MAX_ERROR_BODY_BYTES - seen in
      if remaining = 0 then Some []
      else if remaining < length c then Some (take remaining c)
      else map_option (\<lambda>r. c @ r) (read_error_chunks (seen + length c) cs broken))"

definition read_error_text :: "(string \<Rightarrow> string) \<Rightarrow> http_reply \<Rightarrow> string" where
  "read_error_text decode reply =
     (case read_error_chunks 0 (hr_chunks reply) (hr_broken reply \<noteq> None) of
        None \<Rightarrow> [] | Some bytes \<Rightarrow> squeeze (decode bytes))"

definition raise_for_status :: "(string \<Rightarrow> string) \<Rightarrow> string \<Rightarrow> http_reply \<Rightarrow> attempt_exc option" where
  "raise_for_status decode label reply =
     (if 200 \<le> hr_status reply \<and> hr_status reply \<le> 299 then None
      else case context_length_error label (hr_status reply) (read_error_text decode reply) of
        Some e \<Rightarrow> Some (Excepted e)
      | None \<Rightarrow> Some (HttpStatus (hr_status reply) (hr_retry_after reply)))"

subsection \<open>Plain requests\<close>

fun read_chunks :: "nat \<Rightarrow> string list \<Rightarrow> string option \<Rightarrow> attempt_exc + string" where
  "read_chunks seen [] broken = (case broken of Some m \<Rightarrow> Inl (Transport m) | None \<Rightarrow> Inr [])"
| "read_chunks seen (c # cs) broken =
     (let seen' = seen + length c in
      if MAX_RESPONSE_BYTES < seen'
      then Inl (Excepted (ResponseError (''Provider response exceeds '' @ show_nat MAX_RESPONSE_BYTES @ '' byte limit.'')))
      else bind_res (read_chunks seen' cs broken) (\<lambda>r. Inr (c @ r)))"

definition read_bounded :: "(string \<Rightarrow> string) \<Rightarrow> string \<Rightarrow> http_answer \<Rightarrow> attempt_exc + string" where
  "read_bounded decode label answer =
     (case answer of
        NoAnswer m \<Rightarrow> Inl (Transport m)
      | Answer reply \<Rightarrow>
          (case raise_for_status decode label reply of
             Some e \<Rightarrow> Inl e
           | None \<Rightarrow> read_chunks 0 (hr_chunks reply) (hr_broken reply)))"

definition request_once ::
    "(string \<Rightarrow> string) \<Rightarrow> (string \<Rightarrow> body_read) \<Rightarrow> string \<Rightarrow> http_answer \<Rightarrow> attempt_exc + jdict" where
  "request_once decode body_loads label answer =
     bind_res (read_bounded decode label answer) (\<lambda>raw.
       case body_loads raw of
         BodyInvalid \<Rightarrow> Inl (Excepted (ResponseError (label @ '' response contains invalid JSON.'')))
       | BodyUndecodable \<Rightarrow> Inl (Excepted UndecodableBody)
       | BodyJson (JObj payload) \<Rightarrow> Inr payload
       | BodyJson _ \<Rightarrow> Inl (Excepted (ResponseError (label @ '' response must be a JSON object.''))))"

text \<open>
  \<^verbatim>\<open>_request\<close> with \<open>left\<close> attempts after this one; the delays waited are part of the result.
\<close>

fun request_from ::
    "(http_answer \<Rightarrow> attempt_exc + jdict) \<Rightarrow> string \<Rightarrow> (nat \<Rightarrow> http_answer) \<Rightarrow> nat \<Rightarrow> (llm_exc + jdict) \<times> delay list" where
  "request_from once label answers left =
     (let attempt = MAX_RETRIES - 1 - left in
      case once (answers attempt) of
        Inr payload \<Rightarrow> (Inr payload, [])
      | Inl (Excepted e) \<Rightarrow> (Inl e, [])
      | Inl (HttpStatus status_code retry_after) \<Rightarrow>
          (case left of
             Suc left' \<Rightarrow>
               if is_retryable_status status_code
               then (let (r, ds) = request_from once label answers left' in (r, retry_delay attempt retry_after # ds))
               else (Inl (ResponseError (label @ '' request failed (HTTP '' @ show_int status_code @ '') after ''
                       @ show_nat (attempt + 1) @ '' attempt(s).'')), [])
           | 0 \<Rightarrow> (Inl (ResponseError (label @ '' request failed (HTTP '' @ show_int status_code @ '') after ''
                       @ show_nat (attempt + 1) @ '' attempt(s).'')), []))
      | Inl (Transport m) \<Rightarrow>
          (case left of
             Suc left' \<Rightarrow> (let (r, ds) = request_from once label answers left' in (r, retry_delay attempt None # ds))
           | 0 \<Rightarrow> (Inl (ResponseError (label @ '' request failed after '' @ show_nat MAX_RETRIES @ '' attempts: '' @ m)), [])))"

declare request_from.simps [simp del]

definition http_request ::
    "(string \<Rightarrow> string) \<Rightarrow> (string \<Rightarrow> body_read) \<Rightarrow> string \<Rightarrow> (nat \<Rightarrow> http_answer) \<Rightarrow> (llm_exc + jdict) \<times> delay list" where
  "http_request decode body_loads label answers =
     request_from (request_once decode body_loads label) label answers (MAX_RETRIES - 1)"

subsection \<open>The limits of a stream\<close>

record sse_limiter =
  lim_max_events :: int
  lim_total_bytes :: nat
  lim_event_bytes :: nat
  lim_events :: nat

definition stream_event_budget :: "int option \<Rightarrow> int" where
  "stream_event_budget max_output_tokens =
     (case max_output_tokens of
        None \<Rightarrow> MAX_STREAM_EVENTS
      | Some n \<Rightarrow> if n \<le> 0 then MAX_STREAM_EVENTS else max MAX_STREAM_EVENTS (n * 2))"

definition new_limiter :: "int option \<Rightarrow> sse_limiter" where
  "new_limiter max_output_tokens =
     \<lparr>lim_max_events = stream_event_budget max_output_tokens, lim_total_bytes = 0, lim_event_bytes = 0, lim_events = 0\<rparr>"

definition consume_line :: "sse_limiter \<Rightarrow> string \<times> bool \<Rightarrow> llm_exc + sse_limiter" where
  "consume_line lim l =
     (let n = utf8_len (fst l);
          lim = lim\<lparr>lim_total_bytes := lim_total_bytes lim + n, lim_event_bytes := lim_event_bytes lim + n\<rparr>
      in if MAX_STREAM_TOTAL_BYTES < lim_total_bytes lim
         then Inl (ResponseError ''Provider stream exceeds the total byte limit.'')
         else if MAX_STREAM_EVENT_BYTES < lim_event_bytes lim
         then Inl (ResponseError ''Provider stream event exceeds the byte limit.'')
         else if snd l then Inl (ResponseError ''Provider stream exceeds the duration limit.'')
         else Inr lim)"

definition finish_event :: "sse_limiter \<Rightarrow> llm_exc + sse_limiter" where
  "finish_event lim =
     (let lim = lim\<lparr>lim_events := lim_events lim + 1\<rparr>
      in if lim_max_events lim < int (lim_events lim)
         then Inl (ResponseError ''Provider stream exceeds the event limit.'')
         else Inr (lim\<lparr>lim_event_bytes := 0\<rparr>))"

text \<open>\<^verbatim>\<open>line.partition(":")\<close>: what stands before the first colon, whether there is one, and the rest.\<close>

definition colon_partition :: "string \<Rightarrow> string \<times> bool \<times> string" where
  "colon_partition s =
     (takeWhile (\<lambda>c. c \<noteq> CHR '':'') s, CHR '':'' \<in> set s, drop 1 (dropWhile (\<lambda>c. c \<noteq> CHR '':'') s))"

end
