(* ===== verification/Llm_Stream.thy ===== *)
theory Llm_Stream
  imports Llm_Http
begin

text \<open>
  One streamed response and its retries, as far as the two adapters share them: what an attempt
  keeps, how it commits to the consumer, the verdict on a failed attempt, and the loop over the
  attempts.  The locale \<open>stream_adapter\<close> states what an adapter must promise of one payload;
  from it follow the shape of every stream the consumer sees and that a retry never repeats
  anything.  Both adapters interpret it.
\<close>

subsection \<open>One attempt\<close>

record stream_state =
  ss_created :: bool
  ss_pending :: "provider_event list"
  ss_saw_content :: bool
  ss_raw_finish :: "string option"
  ss_served_model :: "string option"
  ss_usage :: jdict
  ss_emitted_usage :: bool
  ss_out :: "provider_event list"

datatype stream_progress = Go | Ended | Fail attempt_exc

definition fresh_attempt :: stream_state where
  "fresh_attempt = \<lparr>ss_created = False, ss_pending = [], ss_saw_content = False, ss_raw_finish = None,
     ss_served_model = None, ss_usage = [], ss_emitted_usage = False, ss_out = []\<rparr>"

definition created_event :: "string \<Rightarrow> provider_event" where
  "created_event model = \<lparr>pe_type = ResponseCreated, pe_data = [(''model'', JStr model)]\<rparr>"

definition text_event :: "string \<Rightarrow> provider_event" where
  "text_event t = \<lparr>pe_type = OutputTextDelta, pe_data = [(''delta'', JStr t)]\<rparr>"

definition reasoning_event :: "string \<Rightarrow> provider_event" where
  "reasoning_event t = \<lparr>pe_type = ReasoningDelta, pe_data = [(''delta'', JStr t)]\<rparr>"

definition call_event :: "jdict \<Rightarrow> provider_event" where
  "call_event d = \<lparr>pe_type = FunctionCallArgumentsDelta, pe_data = d\<rparr>"

definition usage_event :: "jdict \<Rightarrow> provider_event" where
  "usage_event u = \<lparr>pe_type = UsageReported, pe_data = [(''usage'', JObj u)]\<rparr>"

definition completed_event :: "string option \<Rightarrow> string option \<Rightarrow> string \<Rightarrow> provider_event" where
  "completed_event finish raw model =
     \<lparr>pe_type = ResponseCompleted,
      pe_data = [(''finish_reason'', jopt finish), (''raw_finish_reason'', jopt raw), (''model'', JStr model)]\<rparr>"

text \<open>\<^verbatim>\<open>commit_attempt\<close>, and the two ways in which an event reaches the consumer.\<close>

definition commit_attempt :: "string \<Rightarrow> stream_state \<Rightarrow> stream_state" where
  "commit_attempt model st =
     (if ss_created st then st
      else st\<lparr>ss_created := True, ss_out := ss_out st @ created_event model # ss_pending st, ss_pending := []\<rparr>)"

definition emit_content :: "string \<Rightarrow> provider_event \<Rightarrow> stream_state \<Rightarrow> stream_state" where
  "emit_content model e st =
     (let st = commit_attempt model st in st\<lparr>ss_saw_content := True, ss_out := ss_out st @ [e]\<rparr>)"

definition emit_usage :: "jdict \<Rightarrow> stream_state \<Rightarrow> stream_state" where
  "emit_usage u st =
     (if ss_created st then st\<lparr>ss_out := ss_out st @ [usage_event u]\<rparr>
      else st\<lparr>ss_pending := ss_pending st @ [usage_event u]\<rparr>)"

text \<open>What follows the loop over the payloads: truncation, or the closing events.\<close>

definition close_attempt :: "string \<Rightarrow> bool \<Rightarrow> stream_state \<Rightarrow> stream_state" where
  "close_attempt model late_usage st =
     (let st = commit_attempt model st;
          st = (if late_usage \<and> ss_usage st \<noteq> [] \<and> \<not> ss_emitted_usage st
                then st\<lparr>ss_out := ss_out st @ [usage_event (ss_usage st)]\<rparr> else st)
      in st\<lparr>ss_out := ss_out st @
              [completed_event (normalize_finish_reason (jopt (ss_raw_finish st))) (ss_raw_finish st)
                 (case ss_served_model st of Some m \<Rightarrow> m | None \<Rightarrow> model)]\<rparr>)"

definition finish_attempt :: "string \<Rightarrow> bool \<Rightarrow> string \<Rightarrow> stream_state \<times> stream_progress \<Rightarrow> stream_state \<times> attempt_exc option" where
  "finish_attempt model late_usage truncated r =
     (case r of
        (st, Fail e) \<Rightarrow> (st, Some e)
      | (st, Go) \<Rightarrow> (st, Some (Excepted (StreamTruncatedError truncated)))
      | (st, Ended) \<Rightarrow> (close_attempt model late_usage st, None))"

definition stream_attempt ::
    "(string \<Rightarrow> string) \<Rightarrow> string \<Rightarrow> (http_reply \<Rightarrow> stream_state \<times> stream_progress) \<Rightarrow> string \<Rightarrow> bool \<Rightarrow> string
       \<Rightarrow> http_answer \<Rightarrow> stream_state \<times> attempt_exc option" where
  "stream_attempt decode label read_reply model late_usage truncated answer =
     (case answer of
        NoAnswer m \<Rightarrow> (fresh_attempt, Some (Transport m))
      | Answer reply \<Rightarrow>
          (case raise_for_status decode label reply of
             Some e \<Rightarrow> (fresh_attempt, Some e)
           | None \<Rightarrow> finish_attempt model late_usage truncated (read_reply reply)))"

subsection \<open>Retries\<close>

definition retry_verdict :: "string \<Rightarrow> nat \<Rightarrow> bool \<Rightarrow> attempt_exc \<Rightarrow> llm_exc + delay" where
  "retry_verdict label attempt saw_content e =
     (let last_one = MAX_RETRIES - 1 \<le> attempt in
      case e of
        HttpStatus status_code retry_after \<Rightarrow>
          if saw_content \<or> \<not> is_retryable_status status_code \<or> last_one
          then Inl (ResponseError (label @ '' stream failed (HTTP '' @ show_int status_code @ '') after ''
                 @ show_nat (attempt + 1) @ '' attempt(s)''))
          else Inr (retry_delay attempt retry_after)
      | Transport m \<Rightarrow>
          if saw_content \<or> last_one
          then Inl (ResponseError (label @ '' stream failed after '' @ show_nat (attempt + 1) @ '' attempt(s): '' @ m))
          else Inr (retry_delay attempt None)
      | Excepted (StreamProviderError m retryable) \<Rightarrow>
          if saw_content \<or> \<not> retryable \<or> last_one then Inl (StreamProviderError m retryable)
          else Inr (retry_delay attempt None)
      | Excepted (StreamTruncatedError m) \<Rightarrow>
          if saw_content \<or> last_one then Inl (StreamTruncatedError m) else Inr (retry_delay attempt None)
      | Excepted x \<Rightarrow> Inl x)"

record stream_result =
  sr_events :: "provider_event list"
  sr_error :: "llm_exc option"
  sr_waits :: "delay list"

text \<open>The loop \<^verbatim>\<open>for attempt in range(MAX_RETRIES)\<close>, with \<open>left\<close> attempts after this one.\<close>

fun stream_from ::
    "string \<Rightarrow> (http_answer \<Rightarrow> stream_state \<times> attempt_exc option) \<Rightarrow> (nat \<Rightarrow> http_answer) \<Rightarrow> nat \<Rightarrow> stream_result" where
  "stream_from label attempt_on answers left =
     (let attempt = MAX_RETRIES - 1 - left; r = attempt_on (answers attempt); st = fst r in
      case snd r of
        None \<Rightarrow> \<lparr>sr_events = ss_out st, sr_error = None, sr_waits = []\<rparr>
      | Some e \<Rightarrow>
          (case retry_verdict label attempt (ss_saw_content st) e of
             Inl x \<Rightarrow> \<lparr>sr_events = ss_out st, sr_error = Some x, sr_waits = []\<rparr>
           | Inr d \<Rightarrow>
               (case left of
                  0 \<Rightarrow> \<lparr>sr_events = ss_out st, sr_error = None, sr_waits = [d]\<rparr>
                | Suc left' \<Rightarrow>
                    (let more = stream_from label attempt_on answers left' in
                     \<lparr>sr_events = ss_out st @ sr_events more, sr_error = sr_error more, sr_waits = d # sr_waits more\<rparr>))))"

declare stream_from.simps [simp del]

lemma last_attempt_decides: "retry_verdict label (MAX_RETRIES - 1) saw_content e \<noteq> Inr d"
  by (auto simp: retry_verdict_def Let_def split: attempt_exc.splits llm_exc.splits)

lemma content_forbids_retry: "retry_verdict label attempt True e \<noteq> Inr d"
  by (auto simp: retry_verdict_def Let_def split: attempt_exc.splits llm_exc.splits)

subsection \<open>What every adapter keeps\<close>

text \<open>
  Before the commit nothing has been shown and only usage is held back; after it the first event
  announces the response, later ones are neither announcements nor completions, and some content
  has been seen.
\<close>

definition middle_event :: "provider_event \<Rightarrow> bool" where
  "middle_event e \<longleftrightarrow> pe_type e \<noteq> ResponseCreated \<and> pe_type e \<noteq> ResponseCompleted"

definition attempt_ok :: "string \<Rightarrow> stream_state \<Rightarrow> bool" where
  "attempt_ok model st \<longleftrightarrow>
     list_all middle_event (ss_pending st) \<and>
     (if ss_created st
      then ss_saw_content st \<and> (\<exists>es. ss_out st = created_event model # es \<and> list_all middle_event es)
      else \<not> ss_saw_content st \<and> ss_out st = [])"

lemma attempt_ok_fresh [simp]: "attempt_ok model fresh_attempt"
  by (simp add: attempt_ok_def fresh_attempt_def)

lemma middle_events [simp]:
  "middle_event (text_event t)" "middle_event (reasoning_event t)" "middle_event (call_event d)"
  "middle_event (usage_event u)" "\<not> middle_event (completed_event f r m)" "\<not> middle_event (created_event m)"
  by (simp_all add: middle_event_def text_event_def reasoning_event_def call_event_def usage_event_def
      completed_event_def created_event_def)

lemma attempt_ok_emit_content [intro, simp]:
  assumes "attempt_ok model st" "middle_event e"
  shows "attempt_ok model (emit_content model e st)"
  using assms by (auto simp: attempt_ok_def emit_content_def commit_attempt_def Let_def)

lemma attempt_ok_emit_usage [intro, simp]:
  assumes "attempt_ok model st"
  shows "attempt_ok model (emit_usage u st)"
  using assms by (auto simp: attempt_ok_def emit_usage_def)

lemma attempt_ok_updates [simp]:
  "attempt_ok model (st\<lparr>ss_raw_finish := f\<rparr>) = attempt_ok model st"
  "attempt_ok model (st\<lparr>ss_served_model := m\<rparr>) = attempt_ok model st"
  "attempt_ok model (st\<lparr>ss_usage := u\<rparr>) = attempt_ok model st"
  "attempt_ok model (st\<lparr>ss_emitted_usage := b\<rparr>) = attempt_ok model st"
  by (simp_all add: attempt_ok_def)

definition stream_shape :: "string \<Rightarrow> provider_event list \<Rightarrow> bool \<Rightarrow> bool" where
  "stream_shape model es completed \<longleftrightarrow>
     (if completed
      then \<exists>mid f r m. es = created_event model # mid @ [completed_event f r m] \<and> list_all middle_event mid
      else es = [] \<or> (\<exists>mid. es = created_event model # mid \<and> list_all middle_event mid))"

lemma close_attempt_shape:
  assumes "attempt_ok model st"
  shows "stream_shape model (ss_out (close_attempt model late_usage st)) True"
proof -
  define st' where "st' = commit_attempt model st"
  obtain es where es: "ss_out st' = created_event model # es" "list_all middle_event es"
    using assms unfolding st'_def attempt_ok_def commit_attempt_def by (auto split: if_splits)
  then show ?thesis
    unfolding stream_shape_def close_attempt_def st'_def [symmetric] Let_def by auto
qed

text \<open>
  The interface of an adapter: reading a reply keeps the attempt in order.
\<close>

locale stream_adapter =
  fixes model :: string
    and read_reply :: "http_reply \<Rightarrow> stream_state \<times> stream_progress"
    and label :: string
    and late_usage :: bool
    and truncated :: string
  assumes read_ok: "attempt_ok model (fst (read_reply reply))"
begin

lemma attempt_shape:
  assumes "stream_attempt decode label read_reply model late_usage truncated answer = (st, r)"
  shows "r = None \<Longrightarrow> stream_shape model (ss_out st) True"
    and "r \<noteq> None \<Longrightarrow> attempt_ok model st"
proof -
  show "stream_shape model (ss_out st) True" if "r = None"
  proof (cases answer)
    case (NoAnswer m)
    with assms that show ?thesis by (simp add: stream_attempt_def)
  next
    case (Answer reply)
    obtain s p where "read_reply reply = (s, p)" by (cases "read_reply reply")
    then show ?thesis
      using assms that read_ok [of reply] Answer close_attempt_shape [of model s late_usage]
      by (cases p) (auto simp: stream_attempt_def finish_attempt_def split: option.splits)
  qed
  show "attempt_ok model st" if "r \<noteq> None"
  proof (cases answer)
    case (NoAnswer m)
    with assms that show ?thesis by (auto simp: stream_attempt_def)
  next
    case (Answer reply)
    obtain s p where "read_reply reply = (s, p)" by (cases "read_reply reply")
    then show ?thesis
      using assms that read_ok [of reply] Answer
      by (cases p) (auto simp: stream_attempt_def finish_attempt_def split: option.splits)
  qed
qed

lemma retried_attempt_is_silent:
  assumes "stream_attempt decode label read_reply model late_usage truncated answer = (st, Some e)"
    and "retry_verdict label attempt (ss_saw_content st) e = Inr d"
  shows "ss_out st = []"
  using assms attempt_shape(2) [OF assms(1)] content_forbids_retry [of label attempt e d]
  by (cases "ss_saw_content st") (auto simp: attempt_ok_def split: if_splits)

text \<open>Every event the consumer sees belongs to the last attempt that was made.\<close>

lemma loop_shows_last_attempt:
  assumes "left < MAX_RETRIES"
  shows "let r = stream_from label (stream_attempt decode label read_reply model late_usage truncated) answers left
         in sr_events r = ss_out (fst (stream_attempt decode label read_reply model late_usage truncated
              (answers (MAX_RETRIES - 1 - left + length (sr_waits r))))) \<and>
            length (sr_waits r) \<le> left \<and> stream_shape model (sr_events r) (sr_error r = None)"
  using assms
proof (induction left)
  case 0
  obtain st r where a: "stream_attempt decode label read_reply model late_usage truncated (answers (MAX_RETRIES - 1)) = (st, r)"
    by (cases "stream_attempt decode label read_reply model late_usage truncated (answers (MAX_RETRIES - 1))")
  show ?case
  proof (cases r)
    case None
    with a attempt_shape(1) [OF a] show ?thesis by (simp add: stream_from.simps [of _ _ _ 0] Let_def)
  next
    case (Some e)
    then obtain x where "retry_verdict label (MAX_RETRIES - 1) (ss_saw_content st) e = Inl x"
      using last_attempt_decides by (cases "retry_verdict label (MAX_RETRIES - 1) (ss_saw_content st) e") blast+
    with a Some attempt_shape(2) [OF a] show ?thesis
      by (auto simp: stream_from.simps [of _ _ _ 0] Let_def stream_shape_def attempt_ok_def split: if_splits)
  qed
next
  case (Suc left)
  define n where "n = MAX_RETRIES - 1 - Suc left"
  have next_n: "MAX_RETRIES - 1 - left = Suc n" using Suc.prems by (simp add: n_def)
  obtain st r where a: "stream_attempt decode label read_reply model late_usage truncated (answers n) = (st, r)"
    by (cases "stream_attempt decode label read_reply model late_usage truncated (answers n)")
  have n: "MAX_RETRIES - Suc (Suc left) = n" by (simp add: n_def)
  have next_n': "MAX_RETRIES - Suc left = Suc n" using next_n by simp
  note unfold_loop = stream_from.simps [of _ _ _ "Suc left"] n next_n'
  show ?case
  proof (cases r)
    case None
    with a attempt_shape(1) [OF a] show ?thesis by (simp add: unfold_loop Let_def)
  next
    case (Some e)
    show ?thesis
    proof (cases "retry_verdict label n (ss_saw_content st) e")
      case (Inl x)
      with a Some attempt_shape(2) [OF a] show ?thesis
        by (auto simp: unfold_loop Let_def stream_shape_def attempt_ok_def split: if_splits)
    next
      case (Inr d)
      with a Some have "ss_out st = []" by (simp add: retried_attempt_is_silent)
      with Inr a Some Suc.IH Suc.prems next_n show ?thesis
        by (auto simp: unfold_loop Let_def)
    qed
  qed
qed

end

end
