(* ===== verification/OpenAI.thy ===== *)
theory OpenAI
  imports Llm_Stream
begin

text \<open>
  The adapter of the Chat Completions protocol (\<^verbatim>\<open>engine/llm/adapters/openai.py\<close>): the request
  body, the reading of a plain response, and one streamed attempt as a fold over the lines of the
  reply.
\<close>

subsection \<open>The request body\<close>

definition openai_body :: "string \<Rightarrow> int \<Rightarrow> json list \<Rightarrow> json list \<Rightarrow> string option \<Rightarrow> bool \<Rightarrow> jdict" where
  "openai_body model max_output_tokens messages tools prefix_key stream =
     [(''model'', JStr model), (''messages'', JArr messages), (''stream'', JBool stream)]
     @ (if tools = [] then [] else [(''tools'', JArr tools)])
     @ [(''max_tokens'', JInt max_output_tokens)]
     @ (if stream then [(''stream_options'', JObj [(''include_usage'', JBool True)])] else [])
     @ (case prefix_key of Some k \<Rightarrow> if k = [] then [] else [(''prefix_cache_key'', JStr k)] | None \<Rightarrow> [])"

subsection \<open>A plain response\<close>

definition first_message_choice :: "jdict \<Rightarrow> llm_exc + jdict \<times> jdict" where
  "first_message_choice data =
     (case dget data ''choices'' of
        JArr (JObj choice_data # _) \<Rightarrow>
          (case dget choice_data ''message'' of
             JObj choice \<Rightarrow> Inr (choice_data, choice)
           | _ \<Rightarrow> Inl (ResponseError ''LLM response choice is missing a message object.''))
      | _ \<Rightarrow> Inl (ResponseError ''LLM response is missing a valid first choice.''))"

definition read_arguments :: "json \<Rightarrow> llm_exc + json" where
  "read_arguments raw =
     (case raw of
        JNull \<Rightarrow> Inr (JObj [])
      | JStr s \<Rightarrow>
          if strip s = [] then Inr (JObj [])
          else (case loads s of
                  None \<Rightarrow> Inl (ResponseError ''LLM response contains invalid JSON tool-call arguments.'')
                | Some v \<Rightarrow> Inr v)
      | v \<Rightarrow> Inr v)"

definition parse_tool_call :: "json \<Rightarrow> llm_exc + tool_call_data" where
  "parse_tool_call v =
     (case v of
        JObj tool_call \<Rightarrow>
          (case (dget tool_call ''id'', dget tool_call ''function'') of
             (JStr tool_id, JObj fn) \<Rightarrow>
               (case dget fn ''name'' of
                  JStr name \<Rightarrow>
                    bind_res (read_arguments (case map_of fn ''arguments'' of None \<Rightarrow> JStr ''{}'' | Some a \<Rightarrow> a))
                      (\<lambda>arguments. case arguments of
                         JObj d \<Rightarrow> Inr \<lparr>tcd_id = tool_id, tcd_name = name, tcd_arguments = d\<rparr>
                       | _ \<Rightarrow> Inl (ResponseError ''LLM response tool-call arguments must be an object.''))
                | _ \<Rightarrow> Inl (ResponseError ''LLM response tool call is missing a function name.''))
           | _ \<Rightarrow> Inl (ResponseError ''LLM response contains an invalid tool call.''))
      | _ \<Rightarrow> Inl (ResponseError ''LLM response contains an invalid tool call.''))"

fun parse_tool_calls :: "json list \<Rightarrow> llm_exc + tool_call_data list" where
  "parse_tool_calls [] = Inr []"
| "parse_tool_calls (v # vs) =
     bind_res (parse_tool_call v) (\<lambda>c. bind_res (parse_tool_calls vs) (\<lambda>cs. Inr (c # cs)))"

text \<open>
  What \<^verbatim>\<open>for tool_call in choice.get("tool_calls") or []\<close> runs over: nothing for a false value,
  the keys of an object, the characters of a text; a number is not iterable.
\<close>

definition tool_call_values :: "json \<Rightarrow> llm_exc + json list" where
  "tool_call_values v =
     (if \<not> truthy v then Inr []
      else case v of
        JArr vs \<Rightarrow> Inr vs
      | JObj d \<Rightarrow> Inr (map (JStr \<circ> fst) d)
      | JStr s \<Rightarrow> Inr (map (\<lambda>c. JStr [c]) s)
      | _ \<Rightarrow> Inl (OtherFailure ''TypeError''))"

definition message_reasoning :: "jdict \<Rightarrow> string" where
  "message_reasoning choice =
     (case str_of (dget choice ''reasoning_content'') of
        Some s \<Rightarrow> s
      | None \<Rightarrow> (case str_of (dget choice ''reasoning'') of Some s \<Rightarrow> s | None \<Rightarrow> []))"

definition openai_parse :: "jdict \<Rightarrow> llm_exc + chat_response" where
  "openai_parse data =
     bind_res (first_message_choice data) (\<lambda>(choice_data, choice).
     bind_res (tool_call_values (dget choice ''tool_calls'')) (\<lambda>vs.
     bind_res (parse_tool_calls vs) (\<lambda>tool_calls.
       let content = dget choice ''content''; raw = dget choice_data ''finish_reason'' in
       if content \<noteq> JNull \<and> str_of content = None
       then Inl (ResponseError ''LLM response content must be a string or null.'')
       else Inr \<lparr>rs_text = (case str_of content of Some s \<Rightarrow> s | None \<Rightarrow> []),
                 rs_reasoning = message_reasoning choice,
                 rs_tool_calls = tool_calls,
                 rs_usage = obj_of (dget data ''usage''),
                 rs_finish_reason = normalize_finish_reason raw,
                 rs_raw_finish_reason = str_of raw,
                 rs_model = (case str_of (dget data ''model'') of Some s \<Rightarrow> s | None \<Rightarrow> [])\<rparr>)))"

definition openai_complete ::
    "(string \<Rightarrow> string) \<Rightarrow> (string \<Rightarrow> body_read) \<Rightarrow> (nat \<Rightarrow> http_answer) \<Rightarrow> (llm_exc + chat_response) \<times> delay list" where
  "openai_complete decode body_loads answers =
     (let (r, waits) = http_request decode body_loads ''LLM'' answers in (bind_res r openai_parse, waits))"

subsection \<open>Errors inside a stream\<close>

definition has_provider_error :: "jdict \<Rightarrow> bool" where
  "has_provider_error chunk =
     (case dget chunk ''error'' of JStr s \<Rightarrow> strip s \<noteq> [] | JObj _ \<Rightarrow> True | _ \<Rightarrow> False)"

definition retryable_stream_markers :: "string list" where
  "retryable_stream_markers =
     [''ratelimit'', ''overloaded'', ''servererror'', ''serviceunavailable'', ''internalerror'', ''apierror'']"

definition retryable_stream_status :: "string list" where
  "retryable_stream_status = [''429'', ''500'', ''502'', ''503'', ''504'']"

definition alnum_only :: "string \<Rightarrow> string" where
  "alnum_only s = filter (\<lambda>c. is_digit c \<or> (97 \<le> code c \<and> code c \<le> 122)) s"

definition retryable_label :: "json \<Rightarrow> bool" where
  "retryable_label v =
     (case (case v of JInt i \<Rightarrow> Some (show_int i) | JStr s \<Rightarrow> Some s | _ \<Rightarrow> None) of
        None \<Rightarrow> False
      | Some s \<Rightarrow>
          (let folded = alnum_only (fold_case s) in
           folded \<in> set retryable_stream_status \<or> list_ex (\<lambda>m. contains m folded) retryable_stream_markers))"

definition stream_error_is_retryable :: "jdict \<Rightarrow> bool" where
  "stream_error_is_retryable chunk =
     (case dget chunk ''error'' of
        JObj err \<Rightarrow> retryable_label (dget err ''type'') \<or> retryable_label (dget err ''code'')
      | _ \<Rightarrow> False)"

subsection \<open>One payload of a stream\<close>

definition openai_call_data :: "jdict \<Rightarrow> jdict" where
  "openai_call_data tool_call =
     (let fn = (case dget tool_call ''function'' of JObj d \<Rightarrow> d | _ \<Rightarrow> []);
          index = dget tool_call ''index'' in
      [(''index'', if is_int_value index then index else JInt 0)]
      @ (case str_of (dget tool_call ''id'') of Some s \<Rightarrow> [(''id'', JStr s)] | None \<Rightarrow> [])
      @ (case str_of (dget fn ''name'') of Some s \<Rightarrow> [(''name'', JStr s)] | None \<Rightarrow> [])
      @ (case str_of (dget fn ''arguments'') of Some s \<Rightarrow> [(''arguments_delta'', JStr s)] | None \<Rightarrow> []))"

fun openai_tool_calls :: "string \<Rightarrow> json list \<Rightarrow> stream_state \<Rightarrow> stream_state" where
  "openai_tool_calls model [] st = st"
| "openai_tool_calls model (v # vs) st =
     openai_tool_calls model vs
       (case v of
          JObj tool_call \<Rightarrow>
            (let d = openai_call_data tool_call in
             if 1 < length d then emit_content model (call_event d) st else st)
        | _ \<Rightarrow> st)"

definition emit_text :: "string \<Rightarrow> (string \<Rightarrow> provider_event) \<Rightarrow> json \<Rightarrow> stream_state \<Rightarrow> stream_state" where
  "emit_text model event_of v st =
     (case nonempty_str v of Some s \<Rightarrow> emit_content model (event_of s) st | None \<Rightarrow> st)"

definition openai_delta :: "string \<Rightarrow> jdict \<Rightarrow> stream_state \<Rightarrow> stream_state" where
  "openai_delta model delta st =
     (let st = emit_text model text_event (dget delta ''content'') st;
          reasoning = (if truthy (dget delta ''reasoning_content'') then dget delta ''reasoning_content''
                       else dget delta ''reasoning'');
          st = emit_text model reasoning_event reasoning st
      in openai_tool_calls model (case dget delta ''tool_calls'' of JArr vs \<Rightarrow> vs | _ \<Rightarrow> []) st)"

definition openai_choice :: "string \<Rightarrow> jdict \<Rightarrow> stream_state \<Rightarrow> stream_state \<times> stream_progress" where
  "openai_choice model choice st =
     (case (case dget choice ''delta'' of JNull \<Rightarrow> Some [] | v \<Rightarrow> obj_of v) of
        None \<Rightarrow> (st, Fail (Excepted (ResponseError ''Provider stream choice delta must be an object.'')))
      | Some delta \<Rightarrow>
          (let st = openai_delta model delta st in
           (case str_of (dget choice ''finish_reason'') of Some f \<Rightarrow> st\<lparr>ss_raw_finish := Some f\<rparr> | None \<Rightarrow> st, Go)))"

definition note_model :: "jdict \<Rightarrow> stream_state \<Rightarrow> stream_state" where
  "note_model chunk st =
     (case (ss_served_model st, nonempty_str (dget chunk ''model'')) of
        (None, Some m) \<Rightarrow> st\<lparr>ss_served_model := Some m\<rparr>
      | _ \<Rightarrow> st)"

definition openai_chunk :: "string \<Rightarrow> jdict \<Rightarrow> stream_state \<Rightarrow> stream_state \<times> stream_progress" where
  "openai_chunk model chunk st =
     (let st = note_model chunk st;
          st = (case dget chunk ''usage'' of JObj u \<Rightarrow> emit_usage u st | _ \<Rightarrow> st)
      in if has_provider_error chunk
         then (st, Fail (Excepted (StreamProviderError ''Provider stream error.'' (stream_error_is_retryable chunk))))
         else case dget chunk ''choices'' of
           JArr (JObj choice # _) \<Rightarrow> openai_choice model choice st
         | _ \<Rightarrow> (st, Go))"

definition openai_payload :: "string \<Rightarrow> string \<Rightarrow> stream_state \<Rightarrow> stream_state \<times> stream_progress" where
  "openai_payload model payload st =
     (if strip payload = ''[DONE]'' then (st, Ended)
      else case loads payload of
        None \<Rightarrow> (st, Fail (Excepted (ResponseError ''Provider stream contains invalid JSON.'')))
      | Some (JObj chunk) \<Rightarrow> openai_chunk model chunk st
      | Some _ \<Rightarrow> (st, Fail (Excepted (ResponseError ''Provider stream event must be a JSON object.''))))"

subsection \<open>The lines of a stream\<close>

definition data_line :: "string \<Rightarrow> string option" where
  "data_line line =
     (let (field, has_colon, rest) = colon_partition line in
      if field \<noteq> ''data'' then None
      else Some (if has_colon \<and> starts_with '' '' rest then drop 1 rest else rest))"

text \<open>
  \<^verbatim>\<open>_iter_sse_payloads\<close> joined with the loop that consumes it: \<open>data\<close> and \<open>has_fields\<close> are the
  generator's variables, \<open>st\<close> is the attempt.
\<close>

fun openai_lines ::
    "string \<Rightarrow> sse_limiter \<Rightarrow> string list \<Rightarrow> bool \<Rightarrow> stream_state \<Rightarrow> (string \<times> bool) list \<Rightarrow> string option
       \<Rightarrow> stream_state \<times> stream_progress" where
  "openai_lines model lim data has_fields st [] broken =
     (case broken of
        Some m \<Rightarrow> (st, Fail (Transport m))
      | None \<Rightarrow>
          if has_fields
          then (case finish_event lim of
                  Inl e \<Rightarrow> (st, Fail (Excepted e))
                | Inr _ \<Rightarrow> if data = [] then (st, Go) else openai_payload model (join [CHR 0x0A] data) st)
          else (st, Go))"
| "openai_lines model lim data has_fields st (l # ls) broken =
     (case consume_line lim l of
        Inl e \<Rightarrow> (st, Fail (Excepted e))
      | Inr lim' \<Rightarrow>
          if fst l = [] then
            (if \<not> has_fields then openai_lines model lim' data has_fields st ls broken
             else case finish_event lim' of
                 Inl e \<Rightarrow> (st, Fail (Excepted e))
               | Inr lim'' \<Rightarrow>
                   (if data = [] then openai_lines model lim'' [] False st ls broken
                    else case openai_payload model (join [CHR 0x0A] data) st of
                        (st', Go) \<Rightarrow> openai_lines model lim'' [] False st' ls broken
                      | r \<Rightarrow> r))
          else openai_lines model lim'
                 (case data_line (fst l) of Some v \<Rightarrow> data @ [v] | None \<Rightarrow> data) True st ls broken)"

definition openai_read :: "string \<Rightarrow> int \<Rightarrow> http_reply \<Rightarrow> stream_state \<times> stream_progress" where
  "openai_read model max_output_tokens reply =
     openai_lines model (new_limiter (Some max_output_tokens)) [] False fresh_attempt (hr_lines reply) (hr_broken reply)"

definition openai_stream ::
    "(string \<Rightarrow> string) \<Rightarrow> string \<Rightarrow> int \<Rightarrow> (nat \<Rightarrow> http_answer) \<Rightarrow> stream_result" where
  "openai_stream decode model max_output_tokens answers =
     stream_from ''LLM''
       (stream_attempt decode ''LLM'' (openai_read model max_output_tokens) model False
          ''Provider stream ended before the [DONE] sentinel.'')
       answers (MAX_RETRIES - 1)"

subsection \<open>The adapter keeps the stream in order\<close>

lemma openai_tool_calls_ok: "attempt_ok model st \<Longrightarrow> attempt_ok model (openai_tool_calls model vs st)"
  by (induction vs arbitrary: st) (auto simp: Let_def split: json.splits)

lemma emit_text_ok:
  "attempt_ok model st \<Longrightarrow> (\<And>s. middle_event (event_of s)) \<Longrightarrow> attempt_ok model (emit_text model event_of v st)"
  by (auto simp: emit_text_def split: option.splits)

lemma openai_delta_ok: "attempt_ok model st \<Longrightarrow> attempt_ok model (openai_delta model delta st)"
  unfolding openai_delta_def Let_def by (intro openai_tool_calls_ok emit_text_ok) simp_all

lemma openai_chunk_ok:
  assumes "attempt_ok model st"
  shows "attempt_ok model (fst (openai_chunk model chunk st))"
proof -
  have choice: "attempt_ok model (fst (openai_choice model c s))" if "attempt_ok model s" for c s
    using openai_delta_ok [OF that] that
    by (auto simp: openai_choice_def Let_def split: option.splits)
  have noted: "attempt_ok model (note_model chunk st)"
    using assms by (auto simp: note_model_def split: option.splits)
  have "attempt_ok model (case dget chunk ''usage'' of JObj u \<Rightarrow> emit_usage u (note_model chunk st) | _ \<Rightarrow> note_model chunk st)"
    using noted by (auto split: json.splits)
  then show ?thesis
    unfolding openai_chunk_def Let_def by (auto intro: choice split: json.splits list.splits)
qed

lemma openai_payload_ok: "attempt_ok model st \<Longrightarrow> attempt_ok model (fst (openai_payload model payload st))"
  by (auto simp: openai_payload_def intro: openai_chunk_ok split: option.splits json.splits)

lemma openai_lines_ok:
  "attempt_ok model st \<Longrightarrow> attempt_ok model (fst (openai_lines model lim data has_fields st ls broken))"
proof (induction ls arbitrary: lim data has_fields st)
  case Nil
  then show ?case by (auto intro: openai_payload_ok split: option.splits sum.splits)
next
  case (Cons l ls)
  obtain st' p where p: "openai_payload model (join [CHR 0x0A] data) st = (st', p)"
    by (cases "openai_payload model (join [CHR 0x0A] data) st")
  with openai_payload_ok [OF Cons.prems, of "join [CHR 0x0A] data"] have "attempt_ok model st'" by simp
  with Cons p show ?case
    by (cases p) (auto split: sum.splits option.splits)
qed

interpretation openai: stream_adapter model "openai_read model max_output_tokens" "''LLM''" False
    "''Provider stream ended before the [DONE] sentinel.''"
  for model max_output_tokens
  by unfold_locales (simp add: openai_read_def openai_lines_ok)

end
