(* ===== verification/Llm_Client.thy ===== *)
theory Llm_Client
  imports OpenAI Json_Pretty
begin

text \<open>
  The client facade over an adapter (\<^verbatim>\<open>engine/llm/client.py\<close>), which also gives a plain
  completion the form of a stream, and the accumulator that makes one response of a stream
  (\<^verbatim>\<open>_ProviderResponseAccumulator\<close> of \<^verbatim>\<open>engine/execution/react/react_loop.py\<close>).  The main fact
  is that the accumulator rebuilds the very response that the facade turned into events.
\<close>

subsection \<open>ASCII printing\<close>

text \<open>\<^verbatim>\<open>json.dumps(value, separators=(",", ":"))\<close>: everything outside printable ASCII is escaped.\<close>

definition escape_ascii :: "char \<Rightarrow> string" where
  "escape_ascii c =
     (if 126 < code c
      then [CHR 0x5C, CHR ''u'', CHR ''0'', CHR ''0'', hex_digit (code c div 16), hex_digit (code c mod 16)]
      else escape_char c)"

definition quote_ascii :: "string \<Rightarrow> string" where
  "quote_ascii s = [CHR 0x22] @ concat (map escape_ascii s) @ [CHR 0x22]"

fun dumps_ascii :: "json \<Rightarrow> string" where
  "dumps_ascii (JStr s) = quote_ascii s"
| "dumps_ascii (JArr vs) = ''['' @ sepby CHR '','' (map dumps_ascii vs) @ '']''"
| "dumps_ascii (JObj kvs) =
     ''{'' @ sepby CHR '','' (map (\<lambda>(k, v). quote_ascii k @ CHR '':'' # dumps_ascii v) kvs) @ ''}''"
| "dumps_ascii v = canonical_json v"

lemma scan_hex_pair:
  assumes "hex_val a = Some x" "hex_val b = Some y" "16 * x + y < 256"
  shows "scan (LStr acc) ([CHR 0x5C, CHR ''u'', CHR ''0'', CHR ''0'', a, b] @ rest)
    = scan (LStr (char_of (16 * x + y) # acc)) rest"
proof -
  have zero: "hex_val CHR ''0'' = Some 0" by (simp add: hex_val_def is_digit_def code_def)
  show ?thesis using assms by (simp add: zero numeral_eq_Suc)
qed

lemma lex_escape_ascii: "scan (LStr acc) (escape_ascii c @ rest) = scan (LStr (c # acc)) rest"
proof (cases "126 < code c")
  case True
  have small: "code c < 256" by (simp add: code_def)
  have "16 * (code c div 16) + code c mod 16 = code c" by simp
  moreover have "char_of (code c) = c" by (simp add: code_def)
  ultimately show ?thesis
    using True small
      scan_hex_pair [of "hex_digit (code c div 16)" "code c div 16" "hex_digit (code c mod 16)" "code c mod 16" acc rest]
    by (simp add: escape_ascii_def hex_val_hex_digit)
qed (simp add: escape_ascii_def lex_escape)

lemma reads_quote_ascii: "reads (quote_ascii s) [TStr s]"
proof -
  have "scan (LStr acc) (concat (map escape_ascii s) @ rest) = scan (LStr (rev s @ acc)) rest" for acc rest
    by (induction s arbitrary: acc) (simp_all add: lex_escape_ascii)
  then show ?thesis by (auto simp: reads_def quote_ascii_def code_def punct_def json_ws_def)
qed

lemma reads_ascii_member: "reads t ts \<Longrightarrow> reads (quote_ascii k @ CHR '':'' # t) (TStr k # TColon # ts)"
  by (auto simp: reads_def readsD [OF reads_quote_ascii] option.map_comp comp_def)

lemma reads_dumps_ascii: "wf_json v \<Longrightarrow> reads (dumps_ascii v) (plain_toks v)"
proof (induction v)
  case (JArr vs)
  then have "list_all2 reads (map dumps_ascii vs) (map plain_toks vs)"
    by (simp add: list_all2_map1 list_all2_map2 list_all2_same)
  then show ?case using reads_bracket by simp
next
  case (JObj kvs)
  have "reads (dumps_ascii v) (plain_toks v)" if "(k, v) \<in> set kvs" for k v
    using JObj that by fastforce
  then have "list_all2 reads (map (\<lambda>(k, v). quote_ascii k @ CHR '':'' # dumps_ascii v) kvs)
      (map (\<lambda>(k, v). TStr k # TColon # plain_toks v) kvs)"
    by (auto simp only: list_all2_map1 list_all2_map2 list_all2_same split_beta fst_conv snd_conv
        intro!: reads_ascii_member)
  then show ?case using reads_bracket by simp
next
  case (JStr s)
  show ?case by (simp add: reads_quote_ascii)
qed (simp_all only: dumps_ascii.simps plain_toks.simps reads_canonical)

lemma loads_dumps_ascii: "wf_json v \<Longrightarrow> loads (dumps_ascii v) = Some v"
  using readsD [OF reads_dumps_ascii [of v], of "[]"] parse_plain_toks [of v "[]" "[]"]
  by (simp add: loads_def)

subsection \<open>The facade\<close>

record llm_client =
  lc_provider :: string
  lc_model :: string
  lc_stream :: bool
  lc_capabilities :: capabilities

definition validate_requested_capabilities :: "llm_client \<Rightarrow> json list \<Rightarrow> string option \<Rightarrow> llm_exc option" where
  "validate_requested_capabilities client tools prefix_key =
     (if tools \<noteq> [] \<and> \<not> cap_tool_calls (lc_capabilities client)
      then Some (ResponseError (''Provider '' @ lc_provider client @ '' does not support tool calls.''))
      else if (case prefix_key of Some k \<Rightarrow> k \<noteq> [] | None \<Rightarrow> False) \<and> \<not> cap_prefix_cache_key (lc_capabilities client)
      then Some (ResponseError (''Provider '' @ lc_provider client @ '' does not support a prefix cache key.''))
      else None)"

subsection \<open>Accounting\<close>

text \<open>
  \<^verbatim>\<open>engine/llm/observability.py\<close>.  A sink gets the record of a call and may change its own
  state \<open>'s\<close> before it returns or raises.  The context of a call holds the sinks (the one of the
  scope and the process-wide one), the attribution, and what the clock and \<^verbatim>\<open>uuid4\<close> answer.
\<close>

record generation_record =
  gr_provider :: string
  gr_model :: string
  gr_purpose :: string
  gr_usage :: "(string, int) dict"
  gr_ttft_ms :: "int option"
  gr_total_ms :: int
  gr_stream :: bool
  gr_ok :: bool
  gr_run_id :: "string option"
  gr_session_id :: "string option"
  gr_occurred_at :: string
  gr_source_key :: string

type_synonym 's generation_sink = "generation_record \<Rightarrow> 's \<Rightarrow> (llm_exc + unit) \<times> 's"

record 's observability =
  ob_sink :: "'s generation_sink option"
  ob_default_sink :: "'s generation_sink option"
  ob_purpose :: string
  ob_run_id :: "string option"
  ob_session_id :: "string option"
  ob_first_content_ms :: int
  ob_elapsed_ms :: int
  ob_occurred_at :: string
  ob_source_key :: string

definition active_sink :: "'s observability \<Rightarrow> 's generation_sink option" where
  "active_sink ob = (case ob_sink ob of Some sink \<Rightarrow> Some sink | None \<Rightarrow> ob_default_sink ob)"

definition emit_generation :: "'s observability \<Rightarrow> generation_record \<Rightarrow> 's \<Rightarrow> (llm_exc + unit) \<times> 's" where
  "emit_generation ob g s =
     (case active_sink ob of
        None \<Rightarrow> (Inr (), s)
      | Some sink \<Rightarrow>
          (case sink g s of
             (Inr _, s') \<Rightarrow> (Inr (), s')
           | (Inl _, s') \<Rightarrow> (Inr (), s')))"

text \<open>The arguments of \<^verbatim>\<open>GenerationRecord\<close> in \<^verbatim>\<open>_emit_generation\<close>: normalizing the usage may raise.\<close>

definition generation ::
    "'s observability \<Rightarrow> llm_client \<Rightarrow> json \<Rightarrow> string \<Rightarrow> bool \<Rightarrow> bool \<Rightarrow> bool \<Rightarrow> llm_exc + generation_record" where
  "generation ob client usage_raw served saw_content stream succeeded =
     (case normalize_usage usage_raw of
        Inl e \<Rightarrow> Inl (UsageError e)
      | Inr u \<Rightarrow> Inr \<lparr>gr_provider = lc_provider client,
                    gr_model = (if served = [] then lc_model client else served),
                    gr_purpose = ob_purpose ob, gr_usage = u,
                    gr_ttft_ms = (if saw_content then Some (max 0 (ob_first_content_ms ob)) else None),
                    gr_total_ms = max 0 (ob_elapsed_ms ob), gr_stream = stream, gr_ok = succeeded,
                    gr_run_id = ob_run_id ob, gr_session_id = ob_session_id ob,
                    gr_occurred_at = ob_occurred_at ob, gr_source_key = ob_source_key ob\<rparr>)"

definition client_emit_generation ::
    "'s observability \<Rightarrow> llm_client \<Rightarrow> json \<Rightarrow> string \<Rightarrow> bool \<Rightarrow> bool \<Rightarrow> bool \<Rightarrow> 's \<Rightarrow> (llm_exc + unit) \<times> 's" where
  "client_emit_generation ob client usage_raw served saw_content stream succeeded s =
     (case generation ob client usage_raw served saw_content stream succeeded of
        Inl e \<Rightarrow> (Inl e, s)
      | Inr g \<Rightarrow> emit_generation ob g s)"

text \<open>The accounting runs in a \<^verbatim>\<open>finally\<close> block: an exception it raises replaces the outcome of the call.\<close>

definition client_chat ::
    "'s observability \<Rightarrow> llm_client \<Rightarrow> json list \<Rightarrow> string option \<Rightarrow> llm_exc + chat_response \<Rightarrow> 's
       \<Rightarrow> (llm_exc + chat_response) \<times> 's" where
  "client_chat ob client tools prefix_key answer s =
     (case validate_requested_capabilities client tools prefix_key of
        Some e \<Rightarrow> (Inl e, s)
      | None \<Rightarrow>
          (case (case answer of
                   Inl _ \<Rightarrow> client_emit_generation ob client JNull [] False False False s
                 | Inr r \<Rightarrow> client_emit_generation ob client
                     (case rs_usage r of Some u \<Rightarrow> JObj u | None \<Rightarrow> JNull) (rs_model r) False False True s) of
             (Inl e, s') \<Rightarrow> (Inl e, s')
           | (Inr _, s') \<Rightarrow> (answer, s')))"

definition completed_call_event :: "nat \<Rightarrow> tool_call_data \<Rightarrow> provider_event" where
  "completed_call_event i c =
     call_event [(''index'', JInt (int i)), (''id'', JStr (tcd_id c)), (''name'', JStr (tcd_name c)),
                 (''arguments_delta'', JStr (dumps_ascii (JObj (tcd_arguments c))))]"

definition complete_as_events :: "string \<Rightarrow> chat_response \<Rightarrow> provider_event list" where
  "complete_as_events model r =
     [created_event model]
     @ (if rs_reasoning r = [] then [] else [reasoning_event (rs_reasoning r)])
     @ (if rs_text r = [] then [] else [text_event (rs_text r)])
     @ map (\<lambda>(i, c). completed_call_event i c) (enumerate 0 (rs_tool_calls r))
     @ (case rs_usage r of Some u \<Rightarrow> [usage_event u] | None \<Rightarrow> [])
     @ [completed_event (rs_finish_reason r) (rs_raw_finish_reason r) (if rs_model r = [] then model else rs_model r)]"

text \<open>\<^verbatim>\<open>_observed_stream\<close>: what it remembers of the events, and the record at the end.\<close>

definition observed_usage :: "provider_event list \<Rightarrow> json" where
  "observed_usage es =
     (case filter (\<lambda>e. pe_type e = UsageReported \<and> obj_of (dget (pe_data e) ''usage'') \<noteq> None) es of
        [] \<Rightarrow> JNull | us \<Rightarrow> dget (pe_data (last us)) ''usage'')"

definition observed_model :: "provider_event list \<Rightarrow> string" where
  "observed_model es =
     (case filter (\<lambda>e. pe_type e = ResponseCompleted \<and> nonempty_str (dget (pe_data e) ''model'') \<noteq> None) es of
        [] \<Rightarrow> [] | cs \<Rightarrow> the (nonempty_str (dget (pe_data (last cs)) ''model'')))"

definition is_content_event :: "provider_event \<Rightarrow> bool" where
  "is_content_event e \<longleftrightarrow> pe_type e \<in> {OutputTextDelta, ReasoningDelta, FunctionCallArgumentsDelta}"

text \<open>
  The events that reach the consumer, the exception the stream ends with and the state of the sink.
  A consumer that closes the stream after some events is the stream of these events alone.
\<close>

definition observed_stream ::
    "'s observability \<Rightarrow> llm_client \<Rightarrow> stream_result \<Rightarrow> 's \<Rightarrow> provider_event list \<times> llm_exc option \<times> 's" where
  "observed_stream ob client r s =
     (case client_emit_generation ob client (observed_usage (sr_events r)) (observed_model (sr_events r))
             (list_ex is_content_event (sr_events r)) True
             (list_ex (\<lambda>e. pe_type e = ResponseCompleted) (sr_events r)) s of
        (Inl e, s') \<Rightarrow> (sr_events r, Some e, s')
      | (Inr _, s') \<Rightarrow> (sr_events r, sr_error r, s'))"

definition client_chat_events ::
    "'s observability \<Rightarrow> llm_client \<Rightarrow> json list \<Rightarrow> string option \<Rightarrow> llm_exc + chat_response \<Rightarrow> stream_result \<Rightarrow> 's
       \<Rightarrow> provider_event list \<times> llm_exc option \<times> 's" where
  "client_chat_events ob client tools prefix_key plain_answer streamed s =
     (case validate_requested_capabilities client tools prefix_key of
        Some e \<Rightarrow> ([], Some e, s)
      | None \<Rightarrow>
          if \<not> lc_stream client then
            (case client_chat ob client tools prefix_key plain_answer s of
               (Inl e, s') \<Rightarrow> ([], Some e, s')
             | (Inr r, s') \<Rightarrow> (complete_as_events (lc_model client) r, None, s'))
          else if \<not> cap_streaming (lc_capabilities client)
          then ([], Some (ResponseError (''Provider '' @ lc_provider client @ '' does not support streaming.'')), s)
          else observed_stream ob client streamed s)"

subsection \<open>The accumulator\<close>

record streamed_call =
  sc_id :: "string option"
  sc_name :: "string option"
  sc_parts :: "string list"

record accumulator =
  ac_text :: "string list"
  ac_reasoning :: "string list"
  ac_calls :: "(json \<times> streamed_call) list"
  ac_usage :: "jdict option"
  ac_finish :: "string option"
  ac_raw_finish :: "string option"
  ac_streamed_text :: bool
  ac_model :: string

definition new_accumulator :: accumulator where
  "new_accumulator = \<lparr>ac_text = [], ac_reasoning = [], ac_calls = [], ac_usage = None, ac_finish = None,
     ac_raw_finish = None, ac_streamed_text = False, ac_model = []\<rparr>"

text \<open>
  \<^verbatim>\<open>self.tool_calls.setdefault(index, _StreamedToolCall())\<close> with the update that follows.  The
  keys of the dictionary are the indices as the provider wrote them; a boolean is the same key
  as the number it equals.
\<close>

fun update_call :: "json \<Rightarrow> (streamed_call \<Rightarrow> streamed_call) \<Rightarrow> (json \<times> streamed_call) list \<Rightarrow> (json \<times> streamed_call) list" where
  "update_call index f [] = [(index, f \<lparr>sc_id = None, sc_name = None, sc_parts = []\<rparr>)]"
| "update_call index f ((k, c) # cs) =
     (if int_value k = int_value index then (k, f c) # cs else (k, c) # update_call index f cs)"

definition extend_call :: "jdict \<Rightarrow> streamed_call \<Rightarrow> streamed_call" where
  "extend_call d c =
     (let c = (case nonempty_str (dget d ''id'') of Some i \<Rightarrow> c\<lparr>sc_id := Some i\<rparr> | None \<Rightarrow> c);
          c = (case nonempty_str (dget d ''name'') of Some n \<Rightarrow> c\<lparr>sc_name := Some n\<rparr> | None \<Rightarrow> c)
      in case str_of (dget d ''arguments_delta'') of Some a \<Rightarrow> c\<lparr>sc_parts := sc_parts c @ [a]\<rparr> | None \<Rightarrow> c)"

definition accumulate :: "accumulator \<Rightarrow> provider_event \<Rightarrow> accumulator" where
  "accumulate ac e =
     (case pe_type e of
        OutputTextDelta \<Rightarrow>
          (case nonempty_str (dget (pe_data e) ''delta'') of
             Some t \<Rightarrow> ac\<lparr>ac_text := ac_text ac @ [t], ac_streamed_text := True\<rparr> | None \<Rightarrow> ac)
      | ReasoningDelta \<Rightarrow>
          (case nonempty_str (dget (pe_data e) ''delta'') of
             Some t \<Rightarrow> ac\<lparr>ac_reasoning := ac_reasoning ac @ [t]\<rparr> | None \<Rightarrow> ac)
      | FunctionCallArgumentsDelta \<Rightarrow>
          (let index = dget (pe_data e) ''index'' in
           ac\<lparr>ac_calls := update_call (if is_int_value index then index else JInt 0) (extend_call (pe_data e)) (ac_calls ac)\<rparr>)
      | UsageReported \<Rightarrow>
          (case dget (pe_data e) ''usage'' of JObj u \<Rightarrow> ac\<lparr>ac_usage := Some u\<rparr> | _ \<Rightarrow> ac)
      | ResponseCompleted \<Rightarrow>
          (let ac = ac\<lparr>ac_finish := str_of (dget (pe_data e) ''finish_reason''),
                       ac_raw_finish := str_of (dget (pe_data e) ''raw_finish_reason'')\<rparr>
           in case nonempty_str (dget (pe_data e) ''model'') of Some m \<Rightarrow> ac\<lparr>ac_model := m\<rparr> | None \<Rightarrow> ac)
      | ResponseCreated \<Rightarrow> ac)"

definition build_call :: "bool \<Rightarrow> json \<times> streamed_call \<Rightarrow> llm_exc + tool_call_data" where
  "build_call cut_off kc =
     (let c = snd kc;
          call_id = (case sc_id c of Some i \<Rightarrow> i | None \<Rightarrow> []);
          name = (case sc_name c of Some n \<Rightarrow> n | None \<Rightarrow> []) in
      if cut_off then
        Inr \<lparr>tcd_id = (if call_id = [] then ''partial-call-'' @ py_str (fst kc) else call_id),
             tcd_name = (if name = [] then ''__incomplete_tool_call__'' else name), tcd_arguments = []\<rparr>
      else if call_id = [] \<or> name = []
      then Inl (LoopRuntimeError ''Provider stream ended with incomplete tool-call metadata.'')
      else
        (let arguments_json = (if concat (sc_parts c) = [] then ''{}'' else concat (sc_parts c)) in
         case loads arguments_json of
           None \<Rightarrow> Inl (LoopRuntimeError ''Provider stream ended with invalid tool-call arguments.'')
         | Some (JObj d) \<Rightarrow> Inr \<lparr>tcd_id = call_id, tcd_name = name, tcd_arguments = d\<rparr>
         | Some _ \<Rightarrow> Inl (LoopRuntimeError ''Provider stream returned non-object tool-call arguments.'')))"

fun build_calls :: "bool \<Rightarrow> (json \<times> streamed_call) list \<Rightarrow> llm_exc + tool_call_data list" where
  "build_calls cut_off [] = Inr []"
| "build_calls cut_off (kc # kcs) =
     bind_res (build_call cut_off kc) (\<lambda>c. bind_res (build_calls cut_off kcs) (\<lambda>cs. Inr (c # cs)))"

definition build_response :: "accumulator \<Rightarrow> llm_exc + chat_response" where
  "build_response ac =
     bind_res (build_calls (ac_finish ac = Some ''length'') (sort_key (int_value \<circ> fst) (ac_calls ac))) (\<lambda>calls.
       Inr \<lparr>rs_text = concat (ac_text ac), rs_reasoning = concat (ac_reasoning ac), rs_tool_calls = calls,
            rs_usage = ac_usage ac, rs_finish_reason = ac_finish ac, rs_raw_finish_reason = ac_raw_finish ac,
            rs_model = ac_model ac\<rparr>)"

subsection \<open>A response survives the form of a stream\<close>

definition streamable_call :: "tool_call_data \<Rightarrow> bool" where
  "streamable_call c \<longleftrightarrow> tcd_id c \<noteq> [] \<and> tcd_name c \<noteq> [] \<and> wf_json (JObj (tcd_arguments c))"

definition indexed_call :: "nat \<Rightarrow> tool_call_data \<Rightarrow> json \<times> streamed_call" where
  "indexed_call i c = (JInt (int i), \<lparr>sc_id = Some (tcd_id c), sc_name = Some (tcd_name c),
     sc_parts = [dumps_ascii (JObj (tcd_arguments c))]\<rparr>)"

lemma update_call_new:
  "list_all (\<lambda>kc. int_value (fst kc) \<noteq> int_value index) cs \<Longrightarrow>
     update_call index f cs = cs @ [(index, f \<lparr>sc_id = None, sc_name = None, sc_parts = []\<rparr>)]"
  by (induction cs) auto

lemma accumulate_calls:
  assumes "list_all streamable_call calls" "list_all (\<lambda>kc. int_value (fst kc) < int n) (ac_calls ac)"
  shows "foldl accumulate ac (map (\<lambda>(i, c). completed_call_event i c) (enumerate n calls))
    = ac\<lparr>ac_calls := ac_calls ac @ map (\<lambda>(i, c). indexed_call i c) (enumerate n calls)\<rparr>"
  using assms
proof (induction calls arbitrary: n ac)
  case (Cons c calls)
  have step: "accumulate ac (completed_call_event n c) = ac\<lparr>ac_calls := ac_calls ac @ [indexed_call n c]\<rparr>"
    using Cons.prems update_call_new [of "JInt (int n)" "ac_calls ac" "extend_call (pe_data (completed_call_event n c))"]
    by (auto simp: accumulate_def completed_call_event_def call_event_def dget_def is_int_value_def int_value_def
        extend_call_def indexed_call_def streamable_call_def list_all_iff less_le)
  have "list_all (\<lambda>kc. int_value (fst kc) < int (Suc n)) (ac_calls (ac\<lparr>ac_calls := ac_calls ac @ [indexed_call n c]\<rparr>))"
    using Cons.prems(2) by (auto simp: list_all_iff indexed_call_def int_value_def)
  with Cons.IH [of "Suc n" "ac\<lparr>ac_calls := ac_calls ac @ [indexed_call n c]\<rparr>"] Cons.prems(1) step
  show ?case by simp
qed simp

lemma sorted_indexed: "sorted (map (int_value \<circ> fst) (map (\<lambda>(i, c). indexed_call i c) (enumerate n calls)))"
  by (induction calls arbitrary: n) (auto simp: indexed_call_def int_value_def in_set_enumerate_eq)

lemma build_indexed:
  "list_all streamable_call calls \<Longrightarrow> build_calls False (map (\<lambda>(i, c). indexed_call i c) (enumerate n calls)) = Inr calls"
proof (induction calls arbitrary: n)
  case (Cons c calls)
  have "loads (dumps_ascii (JObj (tcd_arguments c))) = Some (JObj (tcd_arguments c))"
    using Cons.prems by (intro loads_dumps_ascii) (simp add: streamable_call_def)
  moreover have "dumps_ascii (JObj (tcd_arguments c)) \<noteq> []" by simp
  ultimately show ?case
    using Cons by (simp add: build_call_def indexed_call_def streamable_call_def del: dumps_ascii.simps)
qed simp

lemma rebuild_events:
  assumes "list_all streamable_call (rs_tool_calls r)" "rs_finish_reason r \<noteq> Some ''length''"
  shows "build_response (foldl accumulate new_accumulator (complete_as_events model r))
    = Inr (r\<lparr>rs_model := if rs_model r = [] then model else rs_model r\<rparr>)"
proof -
  define ac where "ac = new_accumulator\<lparr>ac_text := (if rs_text r = [] then [] else [rs_text r]),
    ac_streamed_text := rs_text r \<noteq> [], ac_reasoning := (if rs_reasoning r = [] then [] else [rs_reasoning r])\<rparr>"
  define ics where "ics = map (\<lambda>(i, c). indexed_call i c) (enumerate 0 (rs_tool_calls r))"
  have head: "foldl accumulate new_accumulator
      ([created_event model]
       @ (if rs_reasoning r = [] then [] else [reasoning_event (rs_reasoning r)])
       @ (if rs_text r = [] then [] else [text_event (rs_text r)])) = ac"
    by (simp add: ac_def new_accumulator_def accumulate_def created_event_def reasoning_event_def text_event_def dget_def)
  have calls: "foldl accumulate ac (map (\<lambda>(i, c). completed_call_event i c) (enumerate 0 (rs_tool_calls r)))
      = ac\<lparr>ac_calls := ics\<rparr>"
    using accumulate_calls [OF assms(1), of 0 ac] by (simp add: ics_def ac_def new_accumulator_def)
  have "sort_key (int_value \<circ> fst) ics = ics"
    using sorted_indexed [of 0 "rs_tool_calls r"] by (simp add: ics_def sort_key_id_if_sorted)
  moreover have "build_calls False ics = Inr (rs_tool_calls r)"
    using build_indexed [OF assms(1)] by (simp add: ics_def)
  moreover have "foldl accumulate new_accumulator (complete_as_events model r)
      = foldl accumulate (ac\<lparr>ac_calls := ics\<rparr>)
          ((case rs_usage r of Some u \<Rightarrow> [usage_event u] | None \<Rightarrow> [])
           @ [completed_event (rs_finish_reason r) (rs_raw_finish_reason r) (if rs_model r = [] then model else rs_model r)])"
    unfolding complete_as_events_def append_assoc [symmetric] foldl_append [of accumulate new_accumulator]
    by (simp only: foldl_append [symmetric] append_assoc) (simp only: foldl_append head [simplified foldl_append] calls)
  ultimately show ?thesis
    using assms(2)
    by (cases "rs_usage r") (simp_all add: accumulate_def usage_event_def completed_event_def dget_def build_response_def
        ac_def new_accumulator_def)
qed

end
