(* ===== verification/Anthropic.thy ===== *)
theory Anthropic
  imports Llm_Stream
begin

text \<open>
  The adapter of the Messages protocol (\<^verbatim>\<open>engine/llm/adapters/anthropic.py\<close>): the translation of
  the conversation into alternating turns of content blocks, the request body, the reading of a
  plain response, and one streamed attempt.
\<close>

subsection \<open>Content blocks\<close>

datatype content = CText string | CBlocks "jdict list"

type_synonym wire_turn = "string \<times> content"

definition text_block :: "string \<Rightarrow> jdict" where
  "text_block s = [(''type'', JStr ''text''), (''text'', JStr s)]"

fun copy_blocks :: "json list \<Rightarrow> llm_exc + jdict list" where
  "copy_blocks [] = Inr []"
| "copy_blocks (v # vs) =
     (case v of
        JObj d \<Rightarrow> bind_res (copy_blocks vs) (\<lambda>ds. Inr (d # ds))
      | _ \<Rightarrow> Inl (ResponseError ''Message content blocks must be objects.''))"

definition content_blocks :: "json \<Rightarrow> llm_exc + jdict list" where
  "content_blocks v =
     (case v of
        JNull \<Rightarrow> Inr []
      | JStr s \<Rightarrow> Inr (if s = [] then [] else [text_block s])
      | JArr vs \<Rightarrow> copy_blocks vs
      | _ \<Rightarrow> Inr [text_block (py_str v)])"

definition copy_content :: "json \<Rightarrow> llm_exc + content" where
  "copy_content v = (case v of JStr s \<Rightarrow> Inr (CText s) | _ \<Rightarrow> bind_res (content_blocks v) (\<lambda>bs. Inr (CBlocks bs)))"

text \<open>\<^verbatim>\<open>_content_blocks\<close> of content that is already translated.\<close>

definition blocks_of :: "content \<Rightarrow> jdict list" where
  "blocks_of c = (case c of CText s \<Rightarrow> (if s = [] then [] else [text_block s]) | CBlocks bs \<Rightarrow> bs)"

definition is_block :: "string \<Rightarrow> jdict \<Rightarrow> bool" where
  "is_block kind b \<longleftrightarrow> dget b ''type'' = JStr kind"

definition text_content :: "json \<Rightarrow> string" where
  "text_content v =
     (case v of
        JNull \<Rightarrow> []
      | JStr s \<Rightarrow> s
      | JArr vs \<Rightarrow>
          concat (map (\<lambda>b. case b of
              JObj d \<Rightarrow> if is_block ''text'' d then (case map_of d ''text'' of None \<Rightarrow> [] | Some t \<Rightarrow> py_str t) else []
            | _ \<Rightarrow> []) vs)
      | _ \<Rightarrow> py_str v)"

definition order_user_blocks :: "jdict list \<Rightarrow> jdict list" where
  "order_user_blocks bs = filter (is_block ''tool_result'') bs @ filter (\<lambda>b. \<not> is_block ''tool_result'' b) bs"

definition append_message :: "wire_turn list \<Rightarrow> string \<Rightarrow> content \<Rightarrow> wire_turn list" where
  "append_message turns role c =
     (if turns \<noteq> [] \<and> fst (last turns) = role
      then (let merged = blocks_of (snd (last turns)) @ blocks_of c
            in butlast turns @ [(role, CBlocks (if role = ''user'' then order_user_blocks merged else merged))])
      else turns @ [(role, c)])"

subsection \<open>The conversation\<close>

definition tool_use_input :: "jdict \<Rightarrow> llm_exc + json" where
  "tool_use_input fn =
     (case (case map_of fn ''arguments'' of None \<Rightarrow> JStr ''{}'' | Some a \<Rightarrow> a) of
        JStr s \<Rightarrow> (case loads s of
            None \<Rightarrow> Inl (ResponseError ''Assistant tool call contains invalid JSON arguments.'')
          | Some a \<Rightarrow> Inr a)
      | a \<Rightarrow> Inr a)"

definition tool_use_block :: "json \<Rightarrow> llm_exc + jdict" where
  "tool_use_block v =
     (case v of
        JObj tool_call \<Rightarrow>
          (case dget tool_call ''function'' of
             JObj fn \<Rightarrow>
               (case (dget tool_call ''id'', dget fn ''name'') of
                  (JStr tool_id, JStr name) \<Rightarrow>
                    bind_res (tool_use_input fn)
                      (\<lambda>arguments. case arguments of
                         JObj d \<Rightarrow> Inr [(''type'', JStr ''tool_use''), (''id'', JStr tool_id), (''name'', JStr name),
                                       (''input'', JObj d)]
                       | _ \<Rightarrow> Inl (ResponseError ''Assistant tool call arguments must be an object.''))
                | _ \<Rightarrow> Inl (ResponseError ''Assistant tool call is missing id or name.''))
           | _ \<Rightarrow> Inl (ResponseError ''Assistant tool call is missing function data.''))
      | _ \<Rightarrow> Inl (ResponseError ''Assistant tool call must be an object.''))"

fun tool_use_blocks :: "json list \<Rightarrow> llm_exc + jdict list" where
  "tool_use_blocks [] = Inr []"
| "tool_use_blocks (v # vs) =
     bind_res (tool_use_block v) (\<lambda>b. bind_res (tool_use_blocks vs) (\<lambda>bs. Inr (b # bs)))"

definition assistant_content :: "jdict \<Rightarrow> llm_exc + content" where
  "assistant_content m =
     (let calls = (if truthy (dget m ''tool_calls'') then dget m ''tool_calls'' else JArr []) in
      case calls of
        JArr vs \<Rightarrow>
          if vs = [] then copy_content (dget m ''content'')
          else bind_res (content_blocks (dget m ''content'')) (\<lambda>bs.
               bind_res (tool_use_blocks vs) (\<lambda>us. Inr (CBlocks (bs @ us))))
      | _ \<Rightarrow> Inl (ResponseError ''Assistant tool_calls must be a list.''))"

definition tool_result_block :: "string \<Rightarrow> string \<Rightarrow> jdict" where
  "tool_result_block tool_call_id t =
     [(''type'', JStr ''tool_result''), (''tool_use_id'', JStr tool_call_id), (''content'', JStr t)]"

record translation =
  tr_system :: "string list"
  tr_turns :: "wire_turn list"
  tr_saw_non_system :: bool

definition translate_message :: "json \<Rightarrow> translation \<Rightarrow> llm_exc + translation" where
  "translate_message v tr =
     (case v of
        JObj m \<Rightarrow>
          (case dget m ''role'' of
             JStr role \<Rightarrow>
               if role = ''system'' then
                 (let t = text_content (dget m ''content'') in
                  Inr (if t = [] then tr
                       else if \<not> tr_saw_non_system tr then tr\<lparr>tr_system := tr_system tr @ [t]\<rparr>
                       else tr\<lparr>tr_turns := append_message (tr_turns tr) ''user'' (CText t)\<rparr>))
               else
                 (let tr = tr\<lparr>tr_saw_non_system := True\<rparr> in
                  if role = ''tool'' then
                    (case nonempty_str (dget m ''tool_call_id'') of
                       None \<Rightarrow> Inl (ResponseError ''Tool result is missing tool_call_id.'')
                     | Some i \<Rightarrow>
                         Inr (tr\<lparr>tr_turns := append_message (tr_turns tr) ''user''
                                   (CBlocks [tool_result_block i (text_content (dget m ''content''))])\<rparr>))
                  else if role = ''assistant'' then
                    bind_res (assistant_content m) (\<lambda>c. Inr (tr\<lparr>tr_turns := append_message (tr_turns tr) role c\<rparr>))
                  else if role = ''user'' then
                    bind_res (copy_content (dget m ''content'')) (\<lambda>c. Inr (tr\<lparr>tr_turns := append_message (tr_turns tr) role c\<rparr>))
                  else Inl (ResponseError (''Unsupported message role for Anthropic: '' @ repr_str role @ ''.'')))
           | _ \<Rightarrow> Inl (ResponseError ''LLM request message is missing a role.''))
      | _ \<Rightarrow> Inl (ResponseError ''LLM request messages must be objects.''))"

fun translate_from :: "translation \<Rightarrow> json list \<Rightarrow> llm_exc + translation" where
  "translate_from tr [] = Inr tr"
| "translate_from tr (v # vs) = bind_res (translate_message v tr) (\<lambda>tr'. translate_from tr' vs)"

definition translate_messages :: "json list \<Rightarrow> llm_exc + string \<times> wire_turn list" where
  "translate_messages messages =
     bind_res (translate_from \<lparr>tr_system = [], tr_turns = [], tr_saw_non_system = False\<rparr> messages) (\<lambda>tr.
       if tr_turns tr = [] then Inl (ResponseError ''Anthropic requires at least one non-system message.'')
       else if fst (hd (tr_turns tr)) \<noteq> ''user''
       then Inl (ResponseError ''Anthropic conversations must begin with a user message.'')
       else Inr (join [CHR 0x0A, CHR 0x0A] (tr_system tr), tr_turns tr))"

subsection \<open>The request body\<close>

definition cache_mark :: json where "cache_mark = JObj [(''type'', JStr ''ephemeral'')]"

definition with_cache_breakpoint :: "wire_turn list \<Rightarrow> wire_turn list" where
  "with_cache_breakpoint turns =
     (if turns = [] then turns
      else let bs = blocks_of (snd (last turns)) in
        if bs = [] then turns
        else butlast turns @ [(fst (last turns), CBlocks (butlast bs @ [dset ''cache_control'' cache_mark (last bs)]))])"

definition turn_json :: "wire_turn \<Rightarrow> json" where
  "turn_json t = JObj [(''role'', JStr (fst t)),
     (''content'', case snd t of CText s \<Rightarrow> JStr s | CBlocks bs \<Rightarrow> JArr (map JObj bs))]"

definition translate_tool :: "json \<Rightarrow> llm_exc + json" where
  "translate_tool v =
     (case v of
        JObj tool \<Rightarrow>
          (case dget tool ''function'' of
             JObj fn \<Rightarrow>
               (case nonempty_str (dget fn ''name'') of
                  None \<Rightarrow> Inl (ResponseError ''Tool schema is missing a function name.'')
                | Some name \<Rightarrow>
                    (case (case dget fn ''parameters'' of
                             JNull \<Rightarrow> JObj [(''type'', JStr ''object''), (''properties'', JObj [])]
                           | v \<Rightarrow> v) of
                       JObj schema \<Rightarrow>
                         Inr (JObj ([(''name'', JStr name), (''input_schema'', JObj schema)]
                           @ (case nonempty_str (dget fn ''description'') of
                                Some d \<Rightarrow> [(''description'', JStr d)] | None \<Rightarrow> [])))
                     | _ \<Rightarrow> Inl (ResponseError ''Tool function parameters must be a JSON object schema.'')))
           | _ \<Rightarrow> Inl (ResponseError ''Only function tool schemas are supported by Anthropic.''))
      | _ \<Rightarrow> Inl (ResponseError ''Tool schema must be an object.''))"

fun translate_tools :: "json list \<Rightarrow> llm_exc + json list" where
  "translate_tools [] = Inr []"
| "translate_tools (v # vs) = bind_res (translate_tool v) (\<lambda>t. bind_res (translate_tools vs) (\<lambda>ts. Inr (t # ts)))"

definition anthropic_body ::
    "string \<Rightarrow> int \<Rightarrow> bool \<Rightarrow> json list \<Rightarrow> json list \<Rightarrow> bool \<Rightarrow> llm_exc + jdict" where
  "anthropic_body model max_output_tokens thinking messages tools stream =
     bind_res (translate_messages messages) (\<lambda>(system, turns).
     bind_res (translate_tools tools) (\<lambda>wire_tools.
       Inr ([(''model'', JStr model), (''max_tokens'', JInt max_output_tokens),
             (''messages'', JArr (map turn_json (with_cache_breakpoint turns)))]
            @ (if system = [] then []
               else [(''system'', JArr [JObj (text_block system @ [(''cache_control'', cache_mark)])])])
            @ (if thinking then [(''thinking'', JObj [(''type'', JStr ''adaptive'')])] else [])
            @ (if tools = [] then [] else [(''tools'', JArr wire_tools)])
            @ (if stream then [(''stream'', JBool True)] else []))))"

subsection \<open>A plain response\<close>

record parsed_blocks =
  pb_text :: "string list"
  pb_reasoning :: "string list"
  pb_calls :: "tool_call_data list"

definition parse_block :: "json \<Rightarrow> parsed_blocks \<Rightarrow> llm_exc + parsed_blocks" where
  "parse_block v p =
     (case v of
        JObj b \<Rightarrow>
          if is_block ''text'' b then
            Inr (case str_of (dget b ''text'') of Some s \<Rightarrow> p\<lparr>pb_text := pb_text p @ [s]\<rparr> | None \<Rightarrow> p)
          else if is_block ''thinking'' b then
            Inr (case str_of (dget b ''thinking'') of Some s \<Rightarrow> p\<lparr>pb_reasoning := pb_reasoning p @ [s]\<rparr> | None \<Rightarrow> p)
          else if is_block ''tool_use'' b then
            (case (dget b ''id'', dget b ''name'', dget b ''input'') of
               (JStr tool_id, JStr name, JObj arguments) \<Rightarrow>
                 Inr (p\<lparr>pb_calls := pb_calls p @ [\<lparr>tcd_id = tool_id, tcd_name = name, tcd_arguments = arguments\<rparr>]\<rparr>)
             | _ \<Rightarrow> Inl (ResponseError ''Anthropic tool_use block is malformed.''))
          else Inr p
      | _ \<Rightarrow> Inl (ResponseError ''Anthropic response content block must be an object.''))"

fun parse_blocks :: "json list \<Rightarrow> parsed_blocks \<Rightarrow> llm_exc + parsed_blocks" where
  "parse_blocks [] p = Inr p"
| "parse_blocks (v # vs) p = bind_res (parse_block v p) (parse_blocks vs)"

definition anthropic_parse :: "jdict \<Rightarrow> llm_exc + chat_response" where
  "anthropic_parse payload =
     (case dget payload ''content'' of
        JArr vs \<Rightarrow>
          bind_res (parse_blocks vs \<lparr>pb_text = [], pb_reasoning = [], pb_calls = []\<rparr>) (\<lambda>p.
            Inr \<lparr>rs_text = concat (pb_text p), rs_reasoning = concat (pb_reasoning p), rs_tool_calls = pb_calls p,
                 rs_usage = obj_of (dget payload ''usage''),
                 rs_finish_reason = normalize_finish_reason (dget payload ''stop_reason''),
                 rs_raw_finish_reason = str_of (dget payload ''stop_reason''),
                 rs_model = (case str_of (dget payload ''model'') of Some s \<Rightarrow> s | None \<Rightarrow> [])\<rparr>)
      | _ \<Rightarrow> Inl (ResponseError ''Anthropic response is missing content blocks.''))"

definition anthropic_complete ::
    "(string \<Rightarrow> string) \<Rightarrow> (string \<Rightarrow> body_read) \<Rightarrow> (nat \<Rightarrow> http_answer) \<Rightarrow> (llm_exc + chat_response) \<times> delay list" where
  "anthropic_complete decode body_loads answers =
     (let (r, waits) = http_request decode body_loads ''Anthropic'' answers in (bind_res r anthropic_parse, waits))"

end
