(* ===== verification/Anthropic_Stream.thy ===== *)
theory Anthropic_Stream
  imports Anthropic
begin

text \<open>
  One streamed attempt of the Messages protocol: named events, the usage merged from several of
  them, and the lines they arrive on (\<^verbatim>\<open>AnthropicAdapter._stream_response\<close> and \<^verbatim>\<open>_iter_sse\<close>).
\<close>

subsection \<open>One event\<close>

definition retryable_error_types :: "string list" where
  "retryable_error_types = [''api_error'', ''overloaded_error'', ''rate_limit_error'']"

definition merge_usage :: "json \<Rightarrow> stream_state \<Rightarrow> stream_state" where
  "merge_usage v st =
     (case v of JObj u \<Rightarrow> st\<lparr>ss_usage := foldl (\<lambda>d (k, x). dset k x d) (ss_usage st) u\<rparr> | _ \<Rightarrow> st)"

definition event_index :: "jdict \<Rightarrow> json" where
  "event_index event = (if is_int_value (dget event ''index'') then dget event ''index'' else JInt 0)"

definition on_message_start :: "jdict \<Rightarrow> stream_state \<Rightarrow> stream_state" where
  "on_message_start event st =
     (case dget event ''message'' of
        JObj message \<Rightarrow>
          (let st = merge_usage (dget message ''usage'') st in
           case nonempty_str (dget message ''model'') of
             Some m \<Rightarrow> st\<lparr>ss_served_model := Some m\<rparr> | None \<Rightarrow> st)
      | _ \<Rightarrow> st)"

definition on_block_start :: "string \<Rightarrow> jdict \<Rightarrow> stream_state \<Rightarrow> stream_state \<times> stream_progress" where
  "on_block_start model event st =
     (case dget event ''content_block'' of
        JObj b \<Rightarrow>
          if \<not> is_block ''tool_use'' b then (st, Go)
          else (case (dget b ''id'', dget b ''name'') of
              (JStr tool_id, JStr name) \<Rightarrow>
                (emit_content model
                   (call_event [(''index'', event_index event), (''id'', JStr tool_id), (''name'', JStr name)]) st, Go)
            | _ \<Rightarrow> (st, Fail (Excepted (ResponseError ''Anthropic stream tool_use block is missing id or name.''))))
      | _ \<Rightarrow> (st, Go))"

definition on_block_delta :: "string \<Rightarrow> jdict \<Rightarrow> stream_state \<Rightarrow> stream_state \<times> stream_progress" where
  "on_block_delta model event st =
     (case dget event ''delta'' of
        JNull \<Rightarrow> (st, Go)
      | JObj delta \<Rightarrow>
          (if is_block ''text_delta'' delta then
             (case nonempty_str (dget delta ''text'') of
                Some s \<Rightarrow> emit_content model (text_event s) st | None \<Rightarrow> st)
           else if is_block ''thinking_delta'' delta then
             (case nonempty_str (dget delta ''thinking'') of
                Some s \<Rightarrow> emit_content model (reasoning_event s) st | None \<Rightarrow> st)
           else if is_block ''input_json_delta'' delta then
             (case str_of (dget delta ''partial_json'') of
                Some s \<Rightarrow> emit_content model
                  (call_event [(''index'', event_index event), (''arguments_delta'', JStr s)]) st
              | None \<Rightarrow> st)
           else st, Go)
      | _ \<Rightarrow> (st, Fail (Excepted (ResponseError ''Anthropic stream content_block_delta must be an object.''))))"

definition on_message_delta :: "jdict \<Rightarrow> stream_state \<Rightarrow> stream_state" where
  "on_message_delta event st =
     (let st = (case dget event ''delta'' of
                  JObj delta \<Rightarrow> (case str_of (dget delta ''stop_reason'') of
                      Some s \<Rightarrow> st\<lparr>ss_raw_finish := Some s\<rparr> | None \<Rightarrow> st)
                | _ \<Rightarrow> st);
          st = merge_usage (dget event ''usage'') st
      in if ss_usage st = [] then st else emit_usage (ss_usage st) (st\<lparr>ss_emitted_usage := True\<rparr>))"

definition stream_error :: "jdict \<Rightarrow> llm_exc" where
  "stream_error event =
     (let error_type = (case dget event ''error'' of JObj err \<Rightarrow> str_of (dget err ''type'') | _ \<Rightarrow> None) in
      StreamProviderError
        (''Anthropic stream error: ''
           @ (case error_type of Some t \<Rightarrow> (if t = [] then ''unknown provider error'' else t)
              | None \<Rightarrow> ''unknown provider error''))
        (case error_type of Some t \<Rightarrow> t \<in> set retryable_error_types | None \<Rightarrow> False))"

definition anthropic_event :: "string \<Rightarrow> string \<Rightarrow> jdict \<Rightarrow> stream_state \<Rightarrow> stream_state \<times> stream_progress" where
  "anthropic_event model event_type event st =
     (if event_type = ''message_start'' then (on_message_start event st, Go)
      else if event_type = ''content_block_start'' then on_block_start model event st
      else if event_type = ''content_block_delta'' then on_block_delta model event st
      else if event_type = ''message_delta'' then (on_message_delta event st, Go)
      else if event_type = ''error'' then (st, Fail (Excepted (stream_error event)))
      else if event_type = ''message_stop'' then (st, Ended)
      else (st, Go))"

definition anthropic_payload ::
    "string \<Rightarrow> string option \<Rightarrow> string \<Rightarrow> stream_state \<Rightarrow> stream_state \<times> stream_progress" where
  "anthropic_payload model event_name payload st =
     (case loads payload of
        None \<Rightarrow> (st, Fail (Excepted (ResponseError ''Anthropic stream contains invalid JSON.'')))
      | Some (JObj event) \<Rightarrow>
          (let event_type = (case event_name of
                 Some n \<Rightarrow> (if n = [] then str_of (dget event ''type'') else Some n)
               | None \<Rightarrow> str_of (dget event ''type'')) in
           case event_type of
             None \<Rightarrow> (st, Go)
           | Some t \<Rightarrow> anthropic_event model t event st)
      | Some _ \<Rightarrow> (st, Fail (Excepted (ResponseError ''Anthropic stream event must be a JSON object.''))))"

subsection \<open>The lines of a stream\<close>

text \<open>The generator counts an event only after the consumer is done with it.\<close>

fun anthropic_lines ::
    "string \<Rightarrow> sse_limiter \<Rightarrow> string option \<Rightarrow> string list \<Rightarrow> stream_state \<Rightarrow> (string \<times> bool) list
       \<Rightarrow> string option \<Rightarrow> stream_state \<times> stream_progress" where
  "anthropic_lines model lim event_name data st [] broken =
     (case broken of
        Some m \<Rightarrow> (st, Fail (Transport m))
      | None \<Rightarrow> if data = [] then (st, Go) else anthropic_payload model event_name (join [CHR 0x0A] data) st)"
| "anthropic_lines model lim event_name data st (l # ls) broken =
     (case consume_line lim l of
        Inl e \<Rightarrow> (st, Fail (Excepted e))
      | Inr lim' \<Rightarrow>
          if fst l = [] then
            (if data = [] then anthropic_lines model lim' None [] st ls broken
             else case anthropic_payload model event_name (join [CHR 0x0A] data) st of
                 (st', Go) \<Rightarrow>
                   (case finish_event lim' of
                      Inl e \<Rightarrow> (st', Fail (Excepted e))
                    | Inr lim'' \<Rightarrow> anthropic_lines model lim'' None [] st' ls broken)
               | r \<Rightarrow> r)
          else if starts_with '':'' (fst l) then anthropic_lines model lim' event_name data st ls broken
          else
            (let (field, has_colon, rest) = colon_partition (fst l);
                 v = dropWhile (\<lambda>c. c = CHR '' '') rest in
             if \<not> has_colon then anthropic_lines model lim' event_name data st ls broken
             else if field = ''event'' then anthropic_lines model lim' (Some v) data st ls broken
             else if field = ''data'' then anthropic_lines model lim' event_name (data @ [v]) st ls broken
             else anthropic_lines model lim' event_name data st ls broken))"

definition anthropic_read :: "string \<Rightarrow> int \<Rightarrow> http_reply \<Rightarrow> stream_state \<times> stream_progress" where
  "anthropic_read model max_output_tokens reply =
     anthropic_lines model (new_limiter (Some max_output_tokens)) None [] fresh_attempt (hr_lines reply) (hr_broken reply)"

definition anthropic_stream ::
    "(string \<Rightarrow> string) \<Rightarrow> string \<Rightarrow> int \<Rightarrow> (nat \<Rightarrow> http_answer) \<Rightarrow> stream_result" where
  "anthropic_stream decode model max_output_tokens answers =
     stream_from ''Anthropic''
       (stream_attempt decode ''Anthropic'' (anthropic_read model max_output_tokens) model True
          ''Anthropic stream ended before message_stop.'')
       answers (MAX_RETRIES - 1)"

subsection \<open>The adapter keeps the stream in order\<close>

lemma merge_usage_ok [simp]: "attempt_ok model (merge_usage v st) = attempt_ok model st"
  by (simp add: merge_usage_def split: json.splits)

lemma on_message_start_ok: "attempt_ok model st \<Longrightarrow> attempt_ok model (on_message_start event st)"
  by (auto simp: on_message_start_def Let_def split: json.splits option.splits)

lemma on_block_start_ok: "attempt_ok model st \<Longrightarrow> attempt_ok model (fst (on_block_start model event st))"
  by (auto simp: on_block_start_def split: json.splits prod.splits)

lemma on_block_delta_ok: "attempt_ok model st \<Longrightarrow> attempt_ok model (fst (on_block_delta model event st))"
  by (auto simp: on_block_delta_def split: json.splits option.splits)

lemma on_message_delta_ok:
  assumes "attempt_ok model st"
  shows "attempt_ok model (on_message_delta event st)"
proof -
  have "attempt_ok model (case dget event ''delta'' of
      JObj delta \<Rightarrow> (case str_of (dget delta ''stop_reason'') of Some s \<Rightarrow> st\<lparr>ss_raw_finish := Some s\<rparr> | None \<Rightarrow> st)
    | _ \<Rightarrow> st)"
    using assms by (auto split: json.splits option.splits)
  then show ?thesis by (auto simp: on_message_delta_def Let_def)
qed

lemma anthropic_payload_ok:
  assumes "attempt_ok model st"
  shows "attempt_ok model (fst (anthropic_payload model event_name payload st))"
proof -
  have "attempt_ok model (fst (anthropic_event model t event st))" for t event
    using assms on_message_start_ok on_block_start_ok on_block_delta_ok on_message_delta_ok
    by (simp add: anthropic_event_def)
  then show ?thesis
    using assms by (auto simp: anthropic_payload_def Let_def split: option.splits json.splits)
qed

lemma anthropic_lines_ok:
  "attempt_ok model st \<Longrightarrow> attempt_ok model (fst (anthropic_lines model lim event_name data st ls broken))"
proof (induction ls arbitrary: lim event_name data st)
  case Nil
  then show ?case by (auto intro: anthropic_payload_ok split: option.splits)
next
  case (Cons l ls)
  obtain st' p where p: "anthropic_payload model event_name (join [CHR 0x0A] data) st = (st', p)"
    by (cases "anthropic_payload model event_name (join [CHR 0x0A] data) st")
  with anthropic_payload_ok [OF Cons.prems, of event_name "join [CHR 0x0A] data"] have "attempt_ok model st'" by simp
  with Cons p show ?case
    by (cases p) (auto simp: Let_def split: sum.splits option.splits prod.splits)
qed

interpretation anthropic: stream_adapter model "anthropic_read model max_output_tokens" "''Anthropic''" True
    "''Anthropic stream ended before message_stop.''"
  for model max_output_tokens
  by unfold_locales (simp add: anthropic_read_def anthropic_lines_ok)

end
