(* ===== verification/Anthropic_Turns.thy ===== *)
theory Anthropic_Turns
  imports Anthropic
begin

text \<open>
  What the translation of a conversation guarantees to the Messages protocol: roles alternate,
  the tool results of a turn precede its other blocks, and, when the conversation answers every
  tool call before the next assistant message, the turn after an assistant turn carries exactly
  the results of its calls, in their order, whatever stood between them.
\<close>

subsection \<open>The discipline of the conversation and of the wire\<close>

definition message_role :: "json \<Rightarrow> string" where
  "message_role v = (case v of JObj m \<Rightarrow> (case dget m ''role'' of JStr r \<Rightarrow> r | _ \<Rightarrow> []) | _ \<Rightarrow> [])"

text \<open>Content in list form that brings no blocks of the tool protocol of its own.\<close>

definition plain_content :: "json \<Rightarrow> bool" where
  "plain_content v =
     (case v of
        JArr vs \<Rightarrow> list_all (\<lambda>b. case b of
            JObj d \<Rightarrow> \<not> is_block ''tool_result'' d \<and> \<not> is_block ''tool_use'' d | _ \<Rightarrow> True) vs
      | _ \<Rightarrow> True)"

definition engine_message :: "json \<Rightarrow> bool" where
  "engine_message v = (case v of JObj m \<Rightarrow> plain_content (dget m ''content'') | _ \<Rightarrow> True)"

definition asked_ids :: "json \<Rightarrow> json list" where
  "asked_ids v =
     (case v of
        JObj m \<Rightarrow> (case dget m ''tool_calls'' of
            JArr cs \<Rightarrow> map (\<lambda>c. case c of JObj d \<Rightarrow> dget d ''id'' | _ \<Rightarrow> JNull) cs | _ \<Rightarrow> [])
      | _ \<Rightarrow> [])"

definition answered_id :: "json \<Rightarrow> json" where
  "answered_id v = (case v of JObj m \<Rightarrow> dget m ''tool_call_id'' | _ \<Rightarrow> JNull)"

fun answered :: "json list \<Rightarrow> json list \<Rightarrow> bool" where
  "answered pending [] = (pending = [])"
| "answered pending (v # vs) =
     (if message_role v = ''assistant'' then pending = [] \<and> answered (asked_ids v) vs
      else if message_role v = ''tool'' then
        (case pending of [] \<Rightarrow> False | i # is \<Rightarrow> answered_id v = i \<and> answered is vs)
      else answered pending vs)"

definition use_ids :: "content \<Rightarrow> json list" where
  "use_ids c = map (\<lambda>b. dget b ''id'') (filter (is_block ''tool_use'') (blocks_of c))"

definition result_ids :: "content \<Rightarrow> json list" where
  "result_ids c = map (\<lambda>b. dget b ''tool_use_id'') (filter (is_block ''tool_result'') (blocks_of c))"

definition results_lead :: "content \<Rightarrow> bool" where
  "results_lead c \<longleftrightarrow> order_user_blocks (blocks_of c) = blocks_of c"

fun turns_paired :: "wire_turn list \<Rightarrow> bool" where
  "turns_paired [] = True"
| "turns_paired [(role, c)] = (role = ''user'' \<and> results_lead c \<or> role = ''assistant'' \<and> use_ids c = [])"
| "turns_paired ((role, c) # (role', c') # ts) =
     ((role = ''user'' \<and> results_lead c \<and> role' = ''assistant''
        \<or> role = ''assistant'' \<and> role' = ''user'' \<and> result_ids c' = use_ids c)
      \<and> turns_paired ((role', c') # ts))"

subsection \<open>Turns read one after the other\<close>

text \<open>The calls still unanswered after some turns; \<open>None\<close> when the order is broken.\<close>

fun wire_left :: "json list \<Rightarrow> wire_turn list \<Rightarrow> json list option" where
  "wire_left pending [] = Some pending"
| "wire_left pending ((role, c) # ts) =
     (if role = ''assistant'' then (if pending = [] then wire_left (use_ids c) ts else None)
      else if role = ''user'' \<and> results_lead c \<and> prefix (result_ids c) pending
      then wire_left (drop (length (result_ids c)) pending) ts
      else None)"

lemma wire_left_append: "wire_left p (xs @ ys) = Option.bind (wire_left p xs) (\<lambda>q. wire_left q ys)"
  by (induction p xs rule: wire_left.induct) auto

lemma wire_left_Cons:
  "wire_left p ((role, c) # ts) = Some q \<longleftrightarrow>
     (if role = ''assistant'' then p = [] \<and> wire_left (use_ids c) ts = Some q
      else role = ''user'' \<and> results_lead c \<and> prefix (result_ids c) p
        \<and> wire_left (drop (length (result_ids c)) p) ts = Some q)"
  by (auto split: if_split_asm)

lemma wire_left_paired:
  assumes "wire_left p ts = Some []" "successively (\<noteq>) (map fst ts)"
  shows "turns_paired ts" and "\<And>c ts'. ts = (''user'', c) # ts' \<Longrightarrow> result_ids c = p"
proof -
  have "turns_paired ts \<and> (\<forall>c ts'. ts = (''user'', c) # ts' \<longrightarrow> result_ids c = p)"
    using assms
  proof (induction ts arbitrary: p rule: turns_paired.induct)
    case (2 role c)
    then show ?case by (auto split: if_splits simp: prefix_def)
  next
    case (3 role c role' c' ts)
    have rest: "successively (\<noteq>) (map fst ((role', c') # ts))" "role \<noteq> role'" using "3.prems"(2) by simp_all
    show ?case
    proof (cases "role = ''assistant''")
      case True
      with "3.prems"(1) have left: "p = []" "wire_left (use_ids c) ((role', c') # ts) = Some []"
        unfolding wire_left_Cons [of p role] by simp_all
      with True rest have user: "role' = ''user''" by (simp split: if_splits)
      from "3.IH" [OF left(2) rest(1)] user True show ?thesis by simp
    next
      case False
      then have user: "role = ''user''" "results_lead c" "prefix (result_ids c) p"
        "wire_left (drop (length (result_ids c)) p) ((role', c') # ts) = Some []"
        using "3.prems"(1) unfolding wire_left_Cons [of p role] by simp_all
      with False rest have assistant: "role' = ''assistant''" by (simp split: if_splits)
      with user(4) have "drop (length (result_ids c)) p = []" by (simp split: if_splits)
      with user(3) have "result_ids c = p" by (auto simp: prefix_def)
      with "3.IH" [OF user(4) rest(1)] user assistant show ?thesis by simp
    qed
  qed simp
  then show "turns_paired ts" and "\<And>c ts'. ts = (''user'', c) # ts' \<Longrightarrow> result_ids c = p" by blast+
qed

lemma is_block_simps [simp]:
  "is_block k (text_block s) = (k = ''text'')"
  "is_block k (tool_result_block i t) = (k = ''tool_result'')"
  by (auto simp: is_block_def text_block_def tool_result_block_def dget_def)

lemma order_user_blocks_idem [simp]: "order_user_blocks (order_user_blocks bs) = order_user_blocks bs"
  by (simp add: order_user_blocks_def filter_empty_conv)

lemma result_ids_append: "result_ids (CBlocks (blocks_of a @ blocks_of b)) = result_ids a @ result_ids b"
  by (simp add: result_ids_def blocks_of_def)

lemma result_ids_order [simp]: "result_ids (CBlocks (order_user_blocks bs)) = result_ids (CBlocks bs)"
proof -
  have "filter (is_block ''tool_result'') (order_user_blocks bs) = filter (is_block ''tool_result'') bs"
    by (simp add: order_user_blocks_def filter_empty_conv)
  then show ?thesis by (simp add: result_ids_def blocks_of_def)
qed

lemma use_ids_append: "use_ids (CBlocks (blocks_of a @ blocks_of b)) = use_ids a @ use_ids b"
  by (simp add: use_ids_def blocks_of_def)

lemma last_split: "ts \<noteq> [] \<Longrightarrow> ts = butlast ts @ [last ts]"
  by simp

lemma wire_left_user:
  assumes "wire_left p ts = Some q" "result_ids c = is" "q = is @ q'" "results_lead c"
  shows "wire_left p (append_message ts ''user'' c) = Some q'"
proof (cases "ts \<noteq> [] \<and> fst (last ts) = ''user''")
  case True
  then obtain us u where ts: "ts = us @ [(''user'', u)]"
    by (metis last_split prod.collapse)
  obtain r where r: "wire_left p us = Some r" "results_lead u" "r = result_ids u @ q"
    using assms(1) unfolding ts wire_left_append
    by (auto split: Option.bind_splits if_splits simp: prefix_def)
  have "results_lead (CBlocks (order_user_blocks bs))" for bs
    by (simp add: results_lead_def blocks_of_def)
  with r assms show ?thesis
    by (simp add: append_message_def ts wire_left_append Let_def result_ids_append)
next
  case False
  with assms show ?thesis by (auto simp: append_message_def wire_left_append)
qed

lemma wire_left_assistant:
  assumes "wire_left p ts = Some []"
  shows "wire_left p (append_message ts ''assistant'' c) = Some (use_ids c)"
proof (cases "ts \<noteq> [] \<and> fst (last ts) = ''assistant''")
  case True
  then obtain us u where ts: "ts = us @ [(''assistant'', u)]"
    by (metis last_split prod.collapse)
  obtain r where "wire_left p us = Some r" "r = []" "use_ids u = []"
    using assms unfolding ts wire_left_append by (auto split: Option.bind_splits if_splits)
  then show ?thesis
    by (simp add: append_message_def ts wire_left_append Let_def use_ids_append)
next
  case False
  with assms show ?thesis by (auto simp: append_message_def wire_left_append)
qed

lemma append_message_alternates:
  assumes "successively (\<noteq>) (map fst ts)"
  shows "successively (\<noteq>) (map fst (append_message ts role c))"
proof (cases "ts \<noteq> [] \<and> fst (last ts) = role")
  case True
  then obtain us u where ts: "ts = us @ [(role, u)]"
    by (metis last_split prod.collapse)
  with assms show ?thesis by (simp add: append_message_def Let_def)
next
  case False
  with assms show ?thesis
    by (auto simp: append_message_def successively_append_iff last_map)
qed

subsection \<open>One message\<close>

lemma copy_blocks_set: "copy_blocks vs = Inr ds \<Longrightarrow> vs = map JObj ds"
proof (induction vs arbitrary: ds)
  case (Cons v vs)
  then show ?case by (cases v) (auto simp: bind_res_Inr)
qed simp

lemma content_blocks_plain:
  assumes "content_blocks v = Inr bs" "plain_content v"
  shows "filter (is_block ''tool_result'') bs = []" "filter (is_block ''tool_use'') bs = []"
proof -
  have "filter (is_block ''tool_result'') bs = [] \<and> filter (is_block ''tool_use'') bs = []"
  proof (cases v)
    case (JArr vs)
    with assms copy_blocks_set [of vs bs] show ?thesis
      by (auto simp: content_blocks_def plain_content_def filter_empty_conv list_all_iff)
  qed (use assms in \<open>auto simp: content_blocks_def\<close>)
  then show "filter (is_block ''tool_result'') bs = []" "filter (is_block ''tool_use'') bs = []" by auto
qed

lemma copy_content_plain:
  assumes "copy_content v = Inr c" "plain_content v"
  shows "result_ids c = []" "use_ids c = []" "results_lead c"
  using assms content_blocks_plain [of v]
  by (auto simp: copy_content_def result_ids_def use_ids_def results_lead_def order_user_blocks_def blocks_of_def
      bind_res_Inr filter_empty_conv split: json.splits if_splits)

lemma tool_use_block_id:
  assumes "tool_use_block v = Inr b"
  shows "is_block ''tool_use'' b \<and> dget b ''id'' = (case v of JObj d \<Rightarrow> dget d ''id'' | _ \<Rightarrow> JNull)"
proof -
  obtain d fn i n where v: "v = JObj d" "dget d ''function'' = JObj fn" "dget d ''id'' = JStr i" "dget fn ''name'' = JStr n"
    using assms by (auto simp: tool_use_block_def split: json.split_asm)
  then obtain x where "tool_use_input fn = Inr x"
    using assms by (auto simp: tool_use_block_def bind_res_Inr)
  with assms v show ?thesis
    by (cases x) (auto simp: tool_use_block_def is_block_def dget_def [of "_ # _"])
qed

lemma tool_use_blocks_ids:
  "tool_use_blocks vs = Inr bs \<Longrightarrow> filter (is_block ''tool_use'') bs = bs
     \<and> map (\<lambda>b. dget b ''id'') bs = map (\<lambda>c. case c of JObj d \<Rightarrow> dget d ''id'' | _ \<Rightarrow> JNull) vs"
proof (induction vs arbitrary: bs)
  case (Cons v vs)
  then show ?case using tool_use_block_id by (fastforce simp: bind_res_Inr)
qed simp

lemma assistant_content_ids:
  assumes "assistant_content m = Inr c" "plain_content (dget m ''content'')"
  shows "use_ids c = asked_ids (JObj m)"
proof (cases "dget m ''tool_calls'' \<noteq> JArr [] \<and> truthy (dget m ''tool_calls'')")
  case True
  then obtain vs bs us where "dget m ''tool_calls'' = JArr vs" "content_blocks (dget m ''content'') = Inr bs"
    "tool_use_blocks vs = Inr us" "c = CBlocks (bs @ us)"
    using assms(1) by (auto simp: assistant_content_def Let_def bind_res_Inr split: json.splits if_splits)
  with content_blocks_plain(2) [of "dget m ''content''" bs] assms(2) tool_use_blocks_ids [of vs us] show ?thesis
    by (simp add: use_ids_def blocks_of_def asked_ids_def)
next
  case False
  then have "copy_content (dget m ''content'') = Inr c"
    using assms(1) by (auto simp: assistant_content_def Let_def split: json.splits if_splits)
  with False copy_content_plain(2) [OF _ assms(2)] show ?thesis
    by (auto simp: asked_ids_def split: json.splits)
qed

lemma text_and_results_lead [simp]:
  "results_lead (CText s)" "results_lead (CBlocks [tool_result_block i t])"
  "result_ids (CText s) = []" "result_ids (CBlocks [tool_result_block i t]) = [JStr i]"
proof -
  have "dget (tool_result_block i t) ''tool_use_id'' = JStr i" by (simp add: tool_result_block_def dget_def)
  then show "results_lead (CText s)" "results_lead (CBlocks [tool_result_block i t])"
    "result_ids (CText s) = []" "result_ids (CBlocks [tool_result_block i t]) = [JStr i]"
    by (simp_all add: results_lead_def order_user_blocks_def blocks_of_def result_ids_def)
qed

lemma translate_message_keeps:
  assumes "translate_message v tr = Inr tr'" "engine_message v" "answered pending (v # vs)"
    and "wire_left [] (tr_turns tr) = Some pending" "successively (\<noteq>) (map fst (tr_turns tr))"
  shows "\<exists>pending'. answered pending' vs \<and> wire_left [] (tr_turns tr') = Some pending'
    \<and> successively (\<noteq>) (map fst (tr_turns tr'))"
proof -
  obtain m role where v: "v = JObj m" "dget m ''role'' = JStr role" "message_role v = role"
    using assms(1) by (auto simp: translate_message_def message_role_def split: json.splits)
  have plain: "plain_content (dget m ''content'')" using assms(2) v by (simp add: engine_message_def)
  consider "role = ''system''" | "role = ''tool''" | "role = ''assistant''" | "role = ''user''"
    using assms(1) v by (auto simp: translate_message_def Let_def simp del: One_nat_def split: if_split_asm)
  then show ?thesis
  proof cases
    case 1
    then have turns: "tr_turns tr' = tr_turns tr \<or> (\<exists>t. tr_turns tr' = append_message (tr_turns tr) ''user'' (CText t))"
      using assms(1) v by (auto simp: translate_message_def Let_def split: if_splits)
    with 1 v assms wire_left_user [of "[]" "tr_turns tr" pending "CText t" "[]" pending for t]
    show ?thesis by (auto simp: append_message_alternates)
  next
    case 2
    then obtain i t where turns: "dget m ''tool_call_id'' = JStr i"
      "tr_turns tr' = append_message (tr_turns tr) ''user'' (CBlocks [tool_result_block i t])"
      using assms(1) v by (auto simp: translate_message_def Let_def nonempty_str_def split: option.splits json.splits if_splits)
    with 2 v assms(3) obtain pending' where "pending = JStr i # pending'" "answered pending' vs"
      by (auto simp: answered_id_def split: list.splits)
    with turns assms wire_left_user [of "[]" "tr_turns tr" pending "CBlocks [tool_result_block i t]" "[JStr i]" pending']
    show ?thesis by (auto simp: append_message_alternates)
  next
    case 3
    then obtain c where turns: "assistant_content m = Inr c" "tr_turns tr' = append_message (tr_turns tr) ''assistant'' c"
      using assms(1) v by (auto simp: translate_message_def Let_def bind_res_Inr)
    have "pending = []" "answered (asked_ids v) vs" using 3 v assms(3) by auto
    with turns assms wire_left_assistant [of "[]" "tr_turns tr" c] assistant_content_ids [OF turns(1) plain] v
    show ?thesis by (auto simp: append_message_alternates)
  next
    case 4
    then obtain c where turns: "copy_content (dget m ''content'') = Inr c"
      "tr_turns tr' = append_message (tr_turns tr) ''user'' c"
      using assms(1) v by (auto simp: translate_message_def Let_def bind_res_Inr)
    with 4 v assms copy_content_plain [OF turns(1) plain] wire_left_user [of "[]" "tr_turns tr" pending c "[]" pending]
    show ?thesis by (auto simp: append_message_alternates)
  qed
qed

lemma translate_from_keeps:
  assumes "translate_from tr vs = Inr tr'" "list_all engine_message vs" "answered pending vs"
    and "wire_left [] (tr_turns tr) = Some pending" "successively (\<noteq>) (map fst (tr_turns tr))"
  shows "wire_left [] (tr_turns tr') = Some [] \<and> successively (\<noteq>) (map fst (tr_turns tr'))"
  using assms
proof (induction vs arbitrary: tr pending)
  case (Cons v vs)
  then obtain tr1 where one: "translate_message v tr = Inr tr1" "translate_from tr1 vs = Inr tr'"
    by (auto simp: bind_res_Inr)
  from Cons.prems one(1) obtain pending' where "answered pending' vs" "wire_left [] (tr_turns tr1) = Some pending'"
    "successively (\<noteq>) (map fst (tr_turns tr1))"
    using translate_message_keeps [of v tr tr1 pending vs] by auto
  with Cons.IH [OF one(2)] Cons.prems(2) show ?case by simp
qed simp

end
