(* ===== verification/Llm_Safety.thy ===== *)
theory Llm_Safety
  imports Llm_Client Anthropic_Stream Anthropic_Turns
begin

text \<open>
  What the model clients guarantee to the execution layer: one attempt is shown, in order; the
  text of a provider's refusal stays inside the client; a plain completion and its streamed form
  are the same response; a conversation that answers its calls is a valid one on the wire; and
  accounting changes the outcome of a call only through numbers that are not finite.
\<close>

subsection \<open>Streams and retries\<close>

definition openai_attempt :: "(string \<Rightarrow> string) \<Rightarrow> string \<Rightarrow> int \<Rightarrow> http_answer \<Rightarrow> stream_state \<times> attempt_exc option" where
  "openai_attempt decode model max_output_tokens =
     stream_attempt decode ''LLM'' (openai_read model max_output_tokens) model False
       ''Provider stream ended before the [DONE] sentinel.''"

definition anthropic_attempt :: "(string \<Rightarrow> string) \<Rightarrow> string \<Rightarrow> int \<Rightarrow> http_answer \<Rightarrow> stream_state \<times> attempt_exc option" where
  "anthropic_attempt decode model max_output_tokens =
     stream_attempt decode ''Anthropic'' (anthropic_read model max_output_tokens) model True
       ''Anthropic stream ended before message_stop.''"

lemma openai_loop:
  "let r = openai_stream decode model max_output_tokens answers
   in sr_events r = ss_out (fst (openai_attempt decode model max_output_tokens (answers (length (sr_waits r))))) \<and>
      length (sr_waits r) \<le> 2 \<and> stream_shape model (sr_events r) (sr_error r = None)"
  using openai.loop_shows_last_attempt [of "MAX_RETRIES - 1" decode model max_output_tokens answers]
  by (auto simp: openai_stream_def openai_attempt_def MAX_RETRIES_def Let_def)

lemma anthropic_loop:
  "let r = anthropic_stream decode model max_output_tokens answers
   in sr_events r = ss_out (fst (anthropic_attempt decode model max_output_tokens (answers (length (sr_waits r))))) \<and>
      length (sr_waits r) \<le> 2 \<and> stream_shape model (sr_events r) (sr_error r = None)"
  using anthropic.loop_shows_last_attempt [of "MAX_RETRIES - 1" decode model max_output_tokens answers]
  by (auto simp: anthropic_stream_def anthropic_attempt_def MAX_RETRIES_def Let_def)

text \<open>
  C34. Retries of a stream never repeat or mix anything.  Whatever the network answers, the
  consumer sees exactly what the last attempt emitted, at most two retries happen, every stream
  begins with its announcement and ends with its completion exactly when no exception is raised,
  and neither occurs anywhere else.
\<close>

theorem stream_shows_one_attempt:
  "(let r = openai_stream decode model max_output_tokens answers
    in sr_events r = ss_out (fst (openai_attempt decode model max_output_tokens (answers (length (sr_waits r)))))
       \<and> length (sr_waits r) \<le> 2 \<and> stream_shape model (sr_events r) (sr_error r = None))
   \<and> (let r = anthropic_stream decode model max_output_tokens answers
    in sr_events r = ss_out (fst (anthropic_attempt decode model max_output_tokens (answers (length (sr_waits r)))))
       \<and> length (sr_waits r) \<le> 2 \<and> stream_shape model (sr_events r) (sr_error r = None))"
  using openai_loop anthropic_loop by blast

subsection \<open>Refusals\<close>

text \<open>
  Two answers that differ at most in the body of a refusal; whether the body speaks of the
  context limit is what the classification may see.
\<close>

definition same_but_body :: "(string \<Rightarrow> string) \<Rightarrow> http_answer \<Rightarrow> http_answer \<Rightarrow> bool" where
  "same_but_body decode a b =
     (case (a, b) of
        (Answer r, Answer s) \<Rightarrow>
          r = s \<or>
          (hr_status r = hr_status s \<and> hr_retry_after r = hr_retry_after s
             \<and> (hr_status r < 200 \<or> 299 < hr_status r)
             \<and> mentions_context_limit (read_error_text decode r) = mentions_context_limit (read_error_text decode s))
      | _ \<Rightarrow> a = b)"

text \<open>An exception without the short code the provider gave.\<close>

definition without_code :: "llm_exc \<Rightarrow> llm_exc" where
  "without_code e = (case e of ContextLengthError m s _ \<Rightarrow> ContextLengthError m s None | _ \<Rightarrow> e)"

definition attempt_without_code :: "attempt_exc \<Rightarrow> attempt_exc" where
  "attempt_without_code e = (case e of Excepted x \<Rightarrow> Excepted (without_code x) | _ \<Rightarrow> e)"

lemma raise_for_status_body:
  assumes "same_but_body decode (Answer r) (Answer s)"
  shows "map_option attempt_without_code (raise_for_status decode label r)
    = map_option attempt_without_code (raise_for_status decode label s)"
    and "raise_for_status decode label r = None \<Longrightarrow> r = s"
  using assms
  by (auto simp: same_but_body_def raise_for_status_def context_length_error_def attempt_without_code_def without_code_def
      split: option.splits)

lemma verdict_without_code:
  assumes "attempt_without_code d = attempt_without_code e"
  shows "map_sum without_code id (retry_verdict label n saw_content d) = map_sum without_code id (retry_verdict label n saw_content e)"
  using assms
  by (auto simp: attempt_without_code_def without_code_def retry_verdict_def Let_def
      split: attempt_exc.splits llm_exc.splits)

lemma stream_attempt_body:
  assumes "same_but_body decode a b"
  shows "fst (stream_attempt decode label read model late truncated a) = fst (stream_attempt decode label read model late truncated b)"
    and "map_option attempt_without_code (snd (stream_attempt decode label read model late truncated a))
      = map_option attempt_without_code (snd (stream_attempt decode label read model late truncated b))"
proof -
  have "fst (stream_attempt decode label read model late truncated a) = fst (stream_attempt decode label read model late truncated b)
    \<and> map_option attempt_without_code (snd (stream_attempt decode label read model late truncated a))
      = map_option attempt_without_code (snd (stream_attempt decode label read model late truncated b))"
  proof (cases "\<exists>r s. a = Answer r \<and> b = Answer s")
    case True
    then obtain r s where rs: "a = Answer r" "b = Answer s" by blast
    with assms raise_for_status_body [of decode r s label] show ?thesis
      by (auto simp: stream_attempt_def split: option.splits)
  next
    case False
    with assms have "a = b" by (auto simp: same_but_body_def split: http_answer.splits)
    then show ?thesis by simp
  qed
  then show "fst (stream_attempt decode label read model late truncated a) = fst (stream_attempt decode label read model late truncated b)"
    "map_option attempt_without_code (snd (stream_attempt decode label read model late truncated a))
      = map_option attempt_without_code (snd (stream_attempt decode label read model late truncated b))" by auto
qed

definition results_agree :: "stream_result \<Rightarrow> stream_result \<Rightarrow> bool" where
  "results_agree r s \<longleftrightarrow>
     sr_events r = sr_events s \<and> sr_waits r = sr_waits s
     \<and> map_option without_code (sr_error r) = map_option without_code (sr_error s)"

lemma stream_from_step:
  assumes "\<And>i. same_but_body decode (a i) (b i)" "f = stream_attempt decode label read model late truncated"
    and "\<And>m. n = Suc m \<Longrightarrow> results_agree (stream_from label f a m) (stream_from label f b m)"
  shows "results_agree (stream_from label f a n) (stream_from label f b n)"
proof -
  define k where "k = MAX_RETRIES - 1 - n"
  note body = stream_attempt_body [OF assms(1) [of k], of label read model late truncated, folded assms(2)]
  note loop = stream_from.simps [of label f _ n, folded k_def] results_agree_def Let_def
  show ?thesis
  proof (cases "snd (f (a k))")
    case None
    with body have "snd (f (b k)) = None" by simp
    with body None show ?thesis by (simp only: loop option.case fst_conv snd_conv stream_result.simps)
  next
    case (Some d)
    with body obtain e where e: "snd (f (b k)) = Some e" "attempt_without_code d = attempt_without_code e"
      by (cases "snd (f (b k))") auto
    have "map_sum without_code id (retry_verdict label k (ss_saw_content (fst (f (a k)))) d)
        = map_sum without_code id (retry_verdict label k (ss_saw_content (fst (f (b k)))) e)"
      using verdict_without_code [OF e(2)] body(1) by simp
    then consider (failed) x y where "retry_verdict label k (ss_saw_content (fst (f (a k)))) d = Inl x"
        "retry_verdict label k (ss_saw_content (fst (f (b k)))) e = Inl y" "without_code x = without_code y"
      | (retried) w where "retry_verdict label k (ss_saw_content (fst (f (a k)))) d = Inr w"
        "retry_verdict label k (ss_saw_content (fst (f (b k)))) e = Inr w"
      by (cases "retry_verdict label k (ss_saw_content (fst (f (a k)))) d";
          cases "retry_verdict label k (ss_saw_content (fst (f (b k)))) e") auto
    then show ?thesis
    proof cases
      case failed
      with body(1) Some e show ?thesis by (simp add: loop)
    next
      case retried
      with body(1) Some e assms(3) show ?thesis by (simp add: loop split: nat.split)
    qed
  qed
qed

lemma stream_from_body:
  assumes "\<And>i. same_but_body decode (a i) (b i)"
  shows "results_agree (stream_from label (stream_attempt decode label read model late truncated) a left)
    (stream_from label (stream_attempt decode label read model late truncated) b left)"
  by (induction left) (rule stream_from_step [OF assms refl]; simp)+

text \<open>The same for the plain path.\<close>

lemma request_once_body:
  assumes "same_but_body decode a b"
  shows "map_sum attempt_without_code id (request_once decode body_loads label a)
    = map_sum attempt_without_code id (request_once decode body_loads label b)"
proof (cases "\<exists>r s. a = Answer r \<and> b = Answer s")
  case True
  then obtain r s where rs: "a = Answer r" "b = Answer s" by blast
  show ?thesis
  proof (cases "raise_for_status decode label r")
    case None
    with raise_for_status_body(2) [of decode r s label] assms rs show ?thesis by simp
  next
    case (Some d)
    with raise_for_status_body(1) [of decode r s label] assms rs obtain e
      where "raise_for_status decode label s = Some e" "attempt_without_code d = attempt_without_code e"
      by (cases "raise_for_status decode label s") auto
    with Some rs show ?thesis by (simp add: request_once_def read_bounded_def bind_res_def)
  qed
next
  case False
  with assms have "a = b" by (auto simp: same_but_body_def split: http_answer.splits)
  then show ?thesis by simp
qed

definition replies_agree :: "(llm_exc + 'a) \<times> delay list \<Rightarrow> (llm_exc + 'a) \<times> delay list \<Rightarrow> bool" where
  "replies_agree x y \<longleftrightarrow> map_sum without_code id (fst x) = map_sum without_code id (fst y) \<and> snd x = snd y"

lemma request_from_step:
  assumes "\<And>i. map_sum attempt_without_code id (once (a i)) = map_sum attempt_without_code id (once (b i))"
    and "\<And>m. n = Suc m \<Longrightarrow> replies_agree (request_from once label a m) (request_from once label b m)"
  shows "replies_agree (request_from once label a n) (request_from once label b n)"
proof -
  define k where "k = MAX_RETRIES - 1 - n"
  note same = assms(1) [of k]
  note loop = request_from.simps [of once label _ n, folded k_def] replies_agree_def Let_def
  consider (failed) e f where "once (a k) = Inl (Excepted e)" "once (b k) = Inl (Excepted f)" "without_code e = without_code f"
    | (equal) "once (a k) = once (b k)"
  proof (cases "once (a k)")
    case (Inl d)
    with same obtain d' where d': "once (b k) = Inl d'" "attempt_without_code d = attempt_without_code d'"
      by (cases "once (b k)") auto
    show ?thesis
    proof (cases d)
      case (Excepted e)
      with d'(2) obtain f where "d' = Excepted f" "without_code e = without_code f"
        by (auto simp: attempt_without_code_def split: attempt_exc.splits)
      with Inl Excepted d'(1) failed show ?thesis by simp
    qed (use Inl d' equal in \<open>auto simp: attempt_without_code_def split: attempt_exc.splits\<close>)
  next
    case (Inr p)
    with same equal show ?thesis by (cases "once (b k)") auto
  qed
  then show ?thesis
  proof cases
    case failed
    then show ?thesis by (simp add: loop)
  next
    case equal
    with assms(2) show ?thesis by (simp add: loop split_beta split: sum.split attempt_exc.split nat.split)
  qed
qed

lemma request_from_body:
  assumes "\<And>i. map_sum attempt_without_code id (once (a i)) = map_sum attempt_without_code id (once (b i))"
  shows "replies_agree (request_from once label a left) (request_from once label b left)"
  by (induction left) (rule request_from_step [OF assms]; simp)+

lemma http_request_body:
  "(\<And>i. same_but_body decode (a i) (b i)) \<Longrightarrow>
     replies_agree (http_request decode body_loads label a) (http_request decode body_loads label b)"
  unfolding http_request_def by (intro request_from_body request_once_body)

lemma parsed_replies_agree:
  "replies_agree x y \<Longrightarrow> replies_agree (bind_res (fst x) f, snd x) (bind_res (fst y) f, snd y)"
  by (auto simp: replies_agree_def bind_res_def split: sum.splits)

text \<open>
  C35. The body of a refusal does not surface.  If the answers to the attempts differ only in the
  bodies of refusals, and not in whether these mention the context limit, then both adapters
  agree on the plain path and on the streamed path: the response, or the same events, the same
  waits and the same exception, up to the short code that the exception for an exceeded context
  window carries.
\<close>

theorem refusal_bodies_do_not_surface:
  assumes "\<And>i. same_but_body decode (a i) (b i)"
  shows "results_agree (openai_stream decode model max_output_tokens a) (openai_stream decode model max_output_tokens b)
    \<and> results_agree (anthropic_stream decode model max_output_tokens a) (anthropic_stream decode model max_output_tokens b)
    \<and> replies_agree (openai_complete decode body_loads a) (openai_complete decode body_loads b)
    \<and> replies_agree (anthropic_complete decode body_loads a) (anthropic_complete decode body_loads b)"
proof (intro conjI)
  show "results_agree (openai_stream decode model max_output_tokens a) (openai_stream decode model max_output_tokens b)"
    "results_agree (anthropic_stream decode model max_output_tokens a) (anthropic_stream decode model max_output_tokens b)"
    using stream_from_body [OF assms] by (simp_all add: openai_stream_def anthropic_stream_def)
  show "replies_agree (openai_complete decode body_loads a) (openai_complete decode body_loads b)"
    "replies_agree (anthropic_complete decode body_loads a) (anthropic_complete decode body_loads b)"
    using parsed_replies_agree [OF http_request_body [OF assms]]
    by (simp_all add: openai_complete_def anthropic_complete_def split_beta)
qed

definition refused_reply :: "string \<Rightarrow> http_reply" where
  "refused_reply body = \<lparr>hr_status = 400, hr_retry_after = None, hr_chunks = [body], hr_lines = [], hr_broken = None\<rparr>"

lemma refused_text: "length body < MAX_ERROR_BODY_BYTES \<Longrightarrow> read_error_text id (refused_reply body) = squeeze body"
  by (simp add: read_error_text_def refused_reply_def MAX_ERROR_BODY_BYTES_def)

theorem refusal_bodies_do_not_surface_witness:
  "results_agree
     (openai_stream id ''m'' 4096 (\<lambda>_. Answer (refused_reply ''context limit: tell me about Bob'')))
     (openai_stream id ''m'' 4096 (\<lambda>_. Answer (refused_reply ''context limit: tell me about Eve'')))
   \<and> results_agree
     (anthropic_stream id ''m'' 4096 (\<lambda>_. Answer (refused_reply ''context limit: tell me about Bob'')))
     (anthropic_stream id ''m'' 4096 (\<lambda>_. Answer (refused_reply ''context limit: tell me about Eve'')))
   \<and> replies_agree
     (openai_complete id (\<lambda>_. BodyInvalid) (\<lambda>_. Answer (refused_reply ''context limit: tell me about Bob'')))
     (openai_complete id (\<lambda>_. BodyInvalid) (\<lambda>_. Answer (refused_reply ''context limit: tell me about Eve'')))
   \<and> replies_agree
     (anthropic_complete id (\<lambda>_. BodyInvalid) (\<lambda>_. Answer (refused_reply ''context limit: tell me about Bob'')))
     (anthropic_complete id (\<lambda>_. BodyInvalid) (\<lambda>_. Answer (refused_reply ''context limit: tell me about Eve'')))"
proof (rule refusal_bodies_do_not_surface)
  show "same_but_body id (Answer (refused_reply ''context limit: tell me about Bob''))
    (Answer (refused_reply ''context limit: tell me about Eve''))"
  proof -
    have "mentions_context_limit (squeeze ''context limit: tell me about Bob'')
      = mentions_context_limit (squeeze ''context limit: tell me about Eve'')" by code_simp
    then show ?thesis
      by (simp add: same_but_body_def refused_text MAX_ERROR_BODY_BYTES_def) (simp add: refused_reply_def)
  qed
qed

subsection \<open>Plain completions as streams\<close>

text \<open>
  C36. A plain completion that was not cut off (its finish reason is not the length limit) and whose
  calls have an id, a name and well-formed arguments survives being presented as a stream: what
  the accumulator of the loop builds from the facade's events is the response itself, with the
  configured model where the provider named none.  (A call without an id or name makes the
  accumulator raise, and a response cut off loses the arguments of its calls.)
\<close>

theorem plain_reply_survives_stream_form:
  assumes "\<not> lc_stream client" "client_chat_events ob client tools prefix_key (Inr r) streamed s = (es, None, s')"
    and "list_all streamable_call (rs_tool_calls r)" "rs_finish_reason r \<noteq> Some ''length''"
  shows "build_response (foldl accumulate new_accumulator es)
    = Inr (r\<lparr>rs_model := if rs_model r = [] then lc_model client else rs_model r\<rparr>)"
proof -
  have "es = complete_as_events (lc_model client) r"
    using assms(1,2) by (auto simp: client_chat_events_def client_chat_def split: option.splits sum.splits prod.splits)
  with rebuild_events [OF assms(3,4)] show ?thesis by simp
qed

definition demo_client :: llm_client where
  "demo_client = \<lparr>lc_provider = ''openai'', lc_model = ''m'', lc_stream = False,
     lc_capabilities = \<lparr>cap_streaming = True, cap_tool_calls = True, cap_prefix_cache_key = True\<rparr>\<rparr>"

definition demo_response :: chat_response where
  "demo_response = \<lparr>rs_text = ''ok'', rs_reasoning = ''r'',
     rs_tool_calls = [\<lparr>tcd_id = ''c1'', tcd_name = ''read'', tcd_arguments = [(''path'', JStr ''a'')]\<rparr>],
     rs_usage = Some [(''prompt_tokens'', JInt 7)], rs_finish_reason = Some ''tool_calls'',
     rs_raw_finish_reason = Some ''tool_calls'', rs_model = []\<rparr>"

definition no_stream :: stream_result where
  "no_stream = \<lparr>sr_events = [], sr_error = None, sr_waits = []\<rparr>"

text \<open>A sink that notes whether the call succeeded and then raises.\<close>

definition failing_sink :: "bool list generation_sink" where
  "failing_sink g s = (Inl (OtherFailure ''disk full''), gr_ok g # s)"

definition demo_observability :: "bool list observability" where
  "demo_observability = \<lparr>ob_sink = None, ob_default_sink = Some failing_sink, ob_purpose = ''other'',
     ob_run_id = Some ''r1'', ob_session_id = None, ob_first_content_ms = 3, ob_elapsed_ms = 9,
     ob_occurred_at = ''t'', ob_source_key = ''k''\<rparr>"

theorem plain_reply_survives_stream_form_witness:
  "build_response (foldl accumulate new_accumulator (complete_as_events ''m'' demo_response))
    = Inr (demo_response\<lparr>rs_model := ''m''\<rparr>)"
proof -
  have "client_chat_events demo_observability demo_client [] None (Inr demo_response) no_stream []
      = (complete_as_events ''m'' demo_response, None, [True])" by code_simp
  from plain_reply_survives_stream_form [OF _ this] show ?thesis
    by (simp add: demo_client_def demo_response_def streamable_call_def)
qed

subsection \<open>The conversation on the wire\<close>

text \<open>
  C37. When a conversation answers every tool call before the next assistant message, its
  translation for the Messages protocol alternates between user and assistant turns,
  and the turn after an assistant turn brings exactly the results of its calls,
  in their order and before any other block, however many hints stood between them.
\<close>

theorem answered_calls_stay_paired:
  assumes "translate_messages ms = Inr (system, turns)" "list_all engine_message ms" "answered [] ms"
  shows "turns_paired turns"
proof -
  obtain tr where tr: "translate_from \<lparr>tr_system = [], tr_turns = [], tr_saw_non_system = False\<rparr> ms = Inr tr"
    "tr_turns tr = turns"
    using assms(1) by (auto simp: translate_messages_def bind_res_Inr split: if_splits)
  have "wire_left [] turns = Some [] \<and> successively (\<noteq>) (map fst turns)"
    using translate_from_keeps [OF tr(1) assms(2,3)] tr(2) by simp
  then show ?thesis using wire_left_paired(1) by blast
qed

definition wire_conversation :: "json list" where
  "wire_conversation =
     [JObj [(''role'', JStr ''system''), (''content'', JStr ''S'')],
      JObj [(''role'', JStr ''user''), (''content'', JStr ''q'')],
      JObj [(''role'', JStr ''assistant''), (''content'', JStr []),
            (''tool_calls'', JArr [
               JObj [(''id'', JStr ''a''), (''function'', JObj [(''name'', JStr ''f''), (''arguments'', JStr ''{}'')])],
               JObj [(''id'', JStr ''b''), (''function'', JObj [(''name'', JStr ''g''), (''arguments'', JStr ''{}'')])]])],
      JObj [(''role'', JStr ''tool''), (''tool_call_id'', JStr ''a''), (''content'', JStr ''1'')],
      JObj [(''role'', JStr ''system''), (''content'', JStr ''hint'')],
      JObj [(''role'', JStr ''tool''), (''tool_call_id'', JStr ''b''), (''content'', JStr ''2'')]]"

definition demo_turns :: "wire_turn list" where
  "demo_turns =
     [(''user'', CText ''q''),
      (''assistant'', CBlocks [
         [(''type'', JStr ''tool_use''), (''id'', JStr ''a''), (''name'', JStr ''f''), (''input'', JObj [])],
         [(''type'', JStr ''tool_use''), (''id'', JStr ''b''), (''name'', JStr ''g''), (''input'', JObj [])]]),
      (''user'', CBlocks [tool_result_block ''a'' ''1'', tool_result_block ''b'' ''2'', text_block ''hint''])]"

theorem answered_calls_stay_paired_witness: "turns_paired demo_turns"
proof (rule answered_calls_stay_paired)
  show "translate_messages wire_conversation = Inr (''S'', demo_turns)" by code_simp
  show "list_all engine_message wire_conversation" by code_simp
  show "answered [] wire_conversation" by code_simp
qed

subsection \<open>Records of calls\<close>

lemma path_value_finite:
  "finite_numbers v \<Longrightarrow> finite_numbers (path_value v p)"
proof (induction v p rule: path_value.induct)
  case (2 v k ks)
  show ?case
  proof (cases v)
    case (JObj d)
    with "2.prems" have "finite_numbers (dget d k)"
      by (auto simp: dget_def list_all_iff split: option.splits dest!: map_of_SomeD)
    with "2.IH" JObj show ?thesis by simp
  qed simp_all
qed simp

lemma usage_first_finite:
  assumes "finite_numbers (JObj raw)"
  shows "\<exists>n. usage_first raw ps = Inr n"
proof (induction ps)
  case (Cons p ps)
  have "finite_numbers (path_value (JObj raw) p)" by (rule path_value_finite [OF assms])
  then have "\<exists>x. usage_number (path_value (JObj raw) p) = Inr x"
    by (auto simp: usage_number_def split: json.splits sum.splits)
  with Cons show ?case by (auto split: option.splits)
qed simp

lemma finite_usage_normalizes:
  assumes "finite_numbers v"
  shows "\<exists>u. normalize_usage v = Inr u"
proof (cases v)
  case (JObj raw)
  then have "\<exists>n. usage_first raw ps = Inr n" for ps
    using usage_first_finite assms by simp
  then obtain f where "usage_first raw ps = Inr (f ps)" for ps by metis
  with JObj show ?thesis by (simp add: normalize_usage_def del: usage_first.simps)
qed (simp_all add: normalize_usage_def)

text \<open>The record a plain call and a stream are accounted with, and a sink's state after it.\<close>

definition served_usage :: "llm_exc + chat_response \<Rightarrow> json" where
  "served_usage answer =
     (case answer of Inr r \<Rightarrow> (case rs_usage r of Some u \<Rightarrow> JObj u | None \<Rightarrow> JNull) | Inl _ \<Rightarrow> JNull)"

definition accounts_for :: "'s observability \<Rightarrow> llm_client \<Rightarrow> json \<Rightarrow> string \<Rightarrow> generation_record \<Rightarrow> bool" where
  "accounts_for ob client usage served g \<longleftrightarrow>
     gr_provider g = lc_provider client \<and> gr_model g = (if served = [] then lc_model client else served)
     \<and> Inr (gr_usage g) = normalize_usage usage \<and> gr_purpose g = ob_purpose ob
     \<and> gr_run_id g = ob_run_id ob \<and> gr_session_id g = ob_session_id ob"

definition plain_record :: "'s observability \<Rightarrow> llm_client \<Rightarrow> llm_exc + chat_response \<Rightarrow> generation_record \<Rightarrow> bool" where
  "plain_record ob client answer g \<longleftrightarrow>
     accounts_for ob client (served_usage answer) (case answer of Inr r \<Rightarrow> rs_model r | Inl _ \<Rightarrow> []) g
     \<and> \<not> gr_stream g \<and> (gr_ok g \<longleftrightarrow> (\<exists>r. answer = Inr r)) \<and> gr_ttft_ms g = None"

definition stream_record :: "'s observability \<Rightarrow> llm_client \<Rightarrow> provider_event list \<Rightarrow> generation_record \<Rightarrow> bool" where
  "stream_record ob client es g \<longleftrightarrow>
     accounts_for ob client (observed_usage es) (observed_model es) g
     \<and> gr_stream g \<and> (gr_ok g \<longleftrightarrow> (\<exists>e \<in> set es. pe_type e = ResponseCompleted))
     \<and> (gr_ttft_ms g = None \<longleftrightarrow> \<not> list_ex is_content_event es)"

definition told_once :: "'s observability \<Rightarrow> generation_record \<Rightarrow> 's \<Rightarrow> 's" where
  "told_once ob g s = (case active_sink ob of None \<Rightarrow> s | Some sink \<Rightarrow> snd (sink g s))"

lemma emit_generation_told: "emit_generation ob g s = (Inr (), told_once ob g s)"
  by (auto simp: emit_generation_def told_once_def split: option.split prod.split sum.split)

lemma generation_finite:
  assumes "finite_numbers u"
  obtains g where "generation ob client u m c st done_ok = Inr g" "accounts_for ob client u m g"
    "gr_stream g = st" "gr_ok g = done_ok" "gr_ttft_ms g = None \<longleftrightarrow> \<not> c"
  using finite_usage_normalizes [OF assms] that by (auto simp: generation_def accounts_for_def)

lemma client_emit_told:
  "generation ob client u m c st done_ok = Inr g \<Longrightarrow>
     client_emit_generation ob client u m c st done_ok s = (Inr (), told_once ob g s)"
  by (simp add: client_emit_generation_def emit_generation_told)

lemma accounted_chat:
  assumes "validate_requested_capabilities client tools prefix_key = None" "finite_numbers (served_usage answer)"
  obtains g where "plain_record ob client answer g"
    "\<And>s. client_chat ob client tools prefix_key answer s = (answer, told_once ob g s)"
proof (cases answer)
  case (Inl e)
  obtain g where g: "generation ob client JNull [] False False False = Inr g" "accounts_for ob client JNull [] g"
    "gr_stream g = False" "gr_ok g = False" "gr_ttft_ms g = None \<longleftrightarrow> \<not> False"
    by (rule generation_finite [of JNull]) simp
  then have "plain_record ob client answer g" by (simp add: plain_record_def served_usage_def Inl)
  moreover have "client_chat ob client tools prefix_key answer s = (answer, told_once ob g s)" for s
    using assms(1) client_emit_told [OF g(1)] by (simp add: client_chat_def Inl)
  ultimately show ?thesis by (rule that)
next
  case (Inr r)
  obtain g where g: "generation ob client (served_usage answer) (rs_model r) False False True = Inr g"
    "accounts_for ob client (served_usage answer) (rs_model r) g"
    "gr_stream g = False" "gr_ok g = True" "gr_ttft_ms g = None \<longleftrightarrow> \<not> False"
    by (rule generation_finite [OF assms(2)])
  then have "plain_record ob client answer g" by (simp add: plain_record_def Inr)
  moreover have "client_chat ob client tools prefix_key answer s = (answer, told_once ob g s)" for s
    using assms(1) client_emit_told [OF g(1)] by (simp add: client_chat_def served_usage_def Inr)
  ultimately show ?thesis by (rule that)
qed

lemma accounted_stream:
  assumes "finite_numbers (observed_usage (sr_events streamed))"
  obtains h where "stream_record ob client (sr_events streamed) h"
    "\<And>s. observed_stream ob client streamed s = (sr_events streamed, sr_error streamed, told_once ob h s)"
proof -
  let ?done = "list_ex (\<lambda>e. pe_type e = ResponseCompleted) (sr_events streamed)"
  obtain h where h: "generation ob client (observed_usage (sr_events streamed)) (observed_model (sr_events streamed))
      (list_ex is_content_event (sr_events streamed)) True ?done = Inr h"
    "accounts_for ob client (observed_usage (sr_events streamed)) (observed_model (sr_events streamed)) h"
    "gr_stream h = True" "gr_ok h = ?done" "gr_ttft_ms h = None \<longleftrightarrow> \<not> list_ex is_content_event (sr_events streamed)"
    by (rule generation_finite [OF assms])
  show ?thesis
    by (rule that [of h]) (use h client_emit_told [OF h(1)] in \<open>simp_all add: stream_record_def observed_stream_def list_ex_iff\<close>)
qed

text \<open>What a call may do before it reaches the adapter.\<close>

definition lacks_capability :: "llm_client \<Rightarrow> json list \<Rightarrow> string option \<Rightarrow> bool" where
  "lacks_capability client tools prefix_key \<longleftrightarrow>
     (tools \<noteq> [] \<and> \<not> cap_tool_calls (lc_capabilities client))
     \<or> (prefix_key \<notin> {None, Some []} \<and> \<not> cap_prefix_cache_key (lc_capabilities client))"

lemma lacks_capability_validation: "lacks_capability client tools prefix_key \<longleftrightarrow> validate_requested_capabilities client tools prefix_key \<noteq> None"
  by (auto simp: lacks_capability_def validate_requested_capabilities_def split: option.splits)

text \<open>
  C38. Accounting is transparent.  When the numbers of the reported usage are finite, then
  whatever the active sink does, raising included, a permitted call has the adapter's own outcome:
  the response or exception of a plain call, the events and exception of a stream.  The active
  sink is told exactly once, with the record of that call, also when the plain call is presented
  as a stream.  A call that asks for a capability the client lacks fails and tells the sink nothing.
\<close>

theorem finite_accounting_is_transparent:
  assumes "finite_numbers (served_usage answer)" "finite_numbers (observed_usage (sr_events streamed))"
  shows
    "if lacks_capability client tools prefix_key
     then (\<exists>e. client_chat ob client tools prefix_key answer s = (Inl e, s)
             \<and> client_chat_events ob client tools prefix_key answer streamed s = ([], Some e, s))
     else (\<exists>g h. plain_record ob client answer g \<and> stream_record ob client (sr_events streamed) h
       \<and> client_chat ob client tools prefix_key answer s = (answer, told_once ob g s)
       \<and> (\<not> lc_stream client \<longrightarrow> client_chat_events ob client tools prefix_key answer streamed s =
            (case answer of
               Inl e \<Rightarrow> ([], Some e, told_once ob g s)
             | Inr r \<Rightarrow> (complete_as_events (lc_model client) r, None, told_once ob g s)))
       \<and> (lc_stream client \<and> cap_streaming (lc_capabilities client) \<longrightarrow>
            client_chat_events ob client tools prefix_key answer streamed s =
              (sr_events streamed, sr_error streamed, told_once ob h s)))"
proof (cases "validate_requested_capabilities client tools prefix_key")
  case (Some e)
  then have "lacks_capability client tools prefix_key" by (simp add: lacks_capability_validation)
  with Some show ?thesis by (simp add: client_chat_def client_chat_events_def)
next
  case None
  obtain g where g: "plain_record ob client answer g"
    "\<And>s. client_chat ob client tools prefix_key answer s = (answer, told_once ob g s)"
    using accounted_chat [OF None assms(1)] by blast
  obtain h where h: "stream_record ob client (sr_events streamed) h"
    "\<And>s. observed_stream ob client streamed s = (sr_events streamed, sr_error streamed, told_once ob h s)"
    using accounted_stream [OF assms(2)] by blast
  have "\<not> lacks_capability client tools prefix_key" using None by (simp add: lacks_capability_validation)
  moreover have "client_chat_events ob client tools prefix_key answer streamed s =
      (if \<not> lc_stream client then (case answer of
           Inl e \<Rightarrow> ([], Some e, told_once ob g s)
         | Inr r \<Rightarrow> (complete_as_events (lc_model client) r, None, told_once ob g s))
       else (sr_events streamed, sr_error streamed, told_once ob h s))"
    if "lc_stream client \<longrightarrow> cap_streaming (lc_capabilities client)"
    using that None by (simp add: client_chat_events_def g(2) h(2) split: sum.split)
  ultimately show ?thesis
    by (simp only: if_False) (rule exI [of _ g], rule exI [of _ h], use g h(1) in simp)
qed

theorem finite_accounting_is_transparent_witness:
  "\<not> lacks_capability demo_client [] None
    \<and> client_chat demo_observability demo_client [] None (Inr demo_response) [] = (Inr demo_response, [True])"
proof -
  have finite: "finite_numbers (served_usage (Inr demo_response))" "finite_numbers (observed_usage (sr_events no_stream))"
    and permitted: "\<not> lacks_capability demo_client [] None"
    by code_simp+
  from finite_accounting_is_transparent [OF finite, of demo_client "[]" None demo_observability "[]"] permitted
  obtain g where "plain_record demo_observability demo_client (Inr demo_response) g"
    and "client_chat demo_observability demo_client [] None (Inr demo_response) []
      = (Inr demo_response, told_once demo_observability g [])"
    by auto
  with permitted show ?thesis
    by (simp add: plain_record_def told_once_def active_sink_def demo_observability_def failing_sink_def)
qed

text \<open>
  The count that is not a number, which \<^verbatim>\<open>json.loads\<close> accepts, turns a completed call into a
  failure, although recording is meant never to affect the call.
\<close>

lemma nan_usage_fails_completed_call:
  "client_chat demo_observability demo_client [] None
     (Inr (demo_response\<lparr>rs_usage := Some [(''prompt_tokens'', JFloat ''NaN'')]\<rparr>)) []
   = (Inl (UsageError IntValueError), [])"
  by code_simp

subsection \<open>Differences between the plain and the streamed path\<close>

text \<open>
  An empty \<^verbatim>\<open>reasoning_content\<close> hides \<^verbatim>\<open>reasoning\<close> on the plain path but not on the streamed one.
\<close>

lemma empty_reasoning_content_hides_reasoning:
  "message_reasoning [(''reasoning_content'', JStr []), (''reasoning'', JStr ''because'')] = []
   \<and> ss_out (openai_delta ''m'' [(''reasoning_content'', JStr []), (''reasoning'', JStr ''because'')] fresh_attempt)
     = [created_event ''m'', reasoning_event ''because'']"
  by code_simp

text \<open>Blank arguments are an empty object on the plain path and an exception on the streamed one.\<close>

lemma blank_arguments_differ:
  "read_arguments (JStr '' '') = Inr (JObj [])
   \<and> build_response (foldl accumulate new_accumulator
       [call_event [(''index'', JInt 0), (''id'', JStr ''c''), (''name'', JStr ''f''), (''arguments_delta'', JStr '' '')]])
     = Inl (LoopRuntimeError ''Provider stream ended with invalid tool-call arguments.'')"
  by code_simp

end
