(* ===== verification/Smith_UI.thy ===== *)
theory Smith_UI
  imports File_Guard Json_Pretty
begin

text \<open>
  The validation of declarative interface payloads (\<^verbatim>\<open>engine/execution/react/smith_ui.py\<close>).  An
  exception that leaves the validator is an outcome of its own, since the loop does not catch it.
\<close>

datatype 'a ui_outcome = UiOk 'a | UiReject string | UiRaises guard_exc

definition ui_bind :: "'a ui_outcome \<Rightarrow> ('a \<Rightarrow> 'b ui_outcome) \<Rightarrow> 'b ui_outcome" where
  "ui_bind r f = (case r of UiOk x \<Rightarrow> f x | UiReject m \<Rightarrow> UiReject m | UiRaises e \<Rightarrow> UiRaises e)"

lemma ui_bind_simps [simp]:
  "ui_bind (UiOk x) f = f x" "ui_bind (UiReject m) f = UiReject m" "ui_bind (UiRaises e) f = UiRaises e"
  by (simp_all add: ui_bind_def)

lemma ui_bind_UiOk: "ui_bind r f = UiOk y \<longleftrightarrow> (\<exists>x. r = UiOk x \<and> f x = UiOk y)"
  by (cases r) auto

subsection \<open>Bounds\<close>

definition UI_COMPONENTS :: "string list" where
  "UI_COMPONENTS =
     [''Box'', ''Text'', ''Newline'', ''Spacer'', ''Heading'', ''Divider'', ''Badge'', ''ProgressBar'',
      ''Sparkline'', ''BarChart'', ''Table'', ''List'', ''ListItem'', ''Card'', ''KeyValue'', ''StatusLine'',
      ''Metric'', ''Callout'']"

definition IMAGE_EXTENSIONS :: "string list" where
  "IMAGE_EXTENSIONS = [''.png'', ''.jpg'', ''.jpeg'', ''.gif'', ''.webp'']"

definition UI_MAX_ELEMENTS :: nat where "UI_MAX_ELEMENTS = 64"
definition UI_MAX_DEPTH :: nat where "UI_MAX_DEPTH = 8"
definition UI_MAX_IMAGES :: nat where "UI_MAX_IMAGES = 4"
definition UI_MAX_STRING_LENGTH :: nat where "UI_MAX_STRING_LENGTH = 12000"
definition UI_MAX_FALLBACK_STRING_LENGTH :: nat where "UI_MAX_FALLBACK_STRING_LENGTH = 2000"
definition UI_MAX_FALLBACK_CODE_LENGTH :: nat where "UI_MAX_FALLBACK_CODE_LENGTH = 16000"

definition ascii_letter :: "char \<Rightarrow> bool" where
  "ascii_letter c \<longleftrightarrow> (65 \<le> code c \<and> code c \<le> 90) \<or> (97 \<le> code c \<and> code c \<le> 122)"

text \<open>\<^verbatim>\<open>_ELEMENT_ID.fullmatch\<close>.\<close>

definition element_id :: "string \<Rightarrow> bool" where
  "element_id s \<longleftrightarrow>
     (case s of [] \<Rightarrow> False
      | c # cs \<Rightarrow> ascii_letter c \<and> length cs \<le> 63
          \<and> list_all (\<lambda>d. ascii_letter d \<or> is_digit d \<or> d = CHR ''_'' \<or> d = CHR ''-'') cs)"

subsection \<open>The fallback\<close>

definition finite_float :: "string \<Rightarrow> bool" where
  "finite_float t = (case py_int (JFloat t) of Inr _ \<Rightarrow> True | Inl _ \<Rightarrow> False)"

text \<open>Keys of a decoded object are texts; two that agree up to 128 characters become one.\<close>

fun fallback_value :: "nat \<Rightarrow> json \<Rightarrow> json" where
  "fallback_value depth v =
     (if UI_MAX_DEPTH < depth then JStr ''[truncated: nesting limit]''
      else case v of
        JFloat t \<Rightarrow> if finite_float t then JFloat t else JStr ''[non-finite number]''
      | JStr s \<Rightarrow> JStr (take UI_MAX_FALLBACK_STRING_LENGTH s)
      | JArr vs \<Rightarrow> JArr (take UI_MAX_ELEMENTS (map (fallback_value (Suc depth)) vs))
      | JObj d \<Rightarrow> JObj (foldl (\<lambda>acc (k, x). dset (take 128 k) x acc) []
                    (take UI_MAX_ELEMENTS (map (\<lambda>(k, x). (k, fallback_value (Suc depth) x)) d)))
      | _ \<Rightarrow> v)"

declare fallback_value.simps [simp del]

definition smith_ui_fallback :: "jdict \<Rightarrow> string \<Rightarrow> jdict" where
  "smith_ui_fallback arguments message =
     [(''reason'', JStr message),
      (''code'', JStr (take UI_MAX_FALLBACK_CODE_LENGTH (dumps_indent 0 (canon (fallback_value 0 (JObj arguments))))))]"

subsection \<open>Bounded values\<close>

text \<open>An integer is finite when it still rounds to a float.\<close>

fun is_json_value :: "nat \<Rightarrow> json \<Rightarrow> bool" where
  "is_json_value depth v \<longleftrightarrow>
     depth \<le> UI_MAX_DEPTH \<and>
     (case v of
        JStr s \<Rightarrow> length s \<le> UI_MAX_STRING_LENGTH
      | JInt i \<Rightarrow> \<bar>i\<bar> < 2 ^ 1024 - 2 ^ 970
      | JFloat t \<Rightarrow> finite_float t
      | JArr vs \<Rightarrow> length vs \<le> UI_MAX_ELEMENTS \<and> list_all (is_json_value (Suc depth)) vs
      | JObj d \<Rightarrow> length d \<le> UI_MAX_ELEMENTS \<and>
          list_all (\<lambda>(k, x). \<not> starts_with ''$'' k \<and> is_json_value (Suc depth) x) d
      | _ \<Rightarrow> True)"

declare is_json_value.simps [simp del]

subsection \<open>Elements\<close>

record ui_element =
  ue_type :: string
  ue_props :: jdict
  ue_children :: "string list"

type_synonym ui_elements = "(string, ui_element) dict"

fun child_ids :: "json list \<Rightarrow> string list option" where
  "child_ids [] = Some []"
| "child_ids (v # vs) =
     (case v of
        JStr s \<Rightarrow> if element_id s then map_option ((#) s) (child_ids vs) else None
      | _ \<Rightarrow> None)"

text \<open>Membership of a type in the frozen set raises when the type is a list or an object.\<close>

definition component_type :: "json \<Rightarrow> string ui_outcome" where
  "component_type v =
     (case v of
        JStr s \<Rightarrow> if s \<in> set UI_COMPONENTS then UiOk s
                  else UiReject (''smith-ui component '' @ py_repr v @ '' is not permitted'')
      | JArr _ \<Rightarrow> UiRaises GuardTypeError
      | JObj _ \<Rightarrow> UiRaises GuardTypeError
      | _ \<Rightarrow> UiReject (''smith-ui component '' @ py_repr v @ '' is not permitted''))"

definition validate_element :: "string \<Rightarrow> json \<Rightarrow> ui_element ui_outcome" where
  "validate_element eid raw =
     (if \<not> element_id eid then UiReject ''smith-ui element ids must be simple identifiers''
      else case raw of
        JObj d \<Rightarrow>
          if set (dkeys d) \<noteq> {''type'', ''props'', ''children''}
          then UiReject ''smith-ui elements must contain only type, props, and children''
          else ui_bind (component_type (dget d ''type'')) (\<lambda>t.
            case dget d ''props'' of
              JObj props \<Rightarrow>
                if \<not> is_json_value 0 (JObj props)
                then UiReject ''smith-ui props must be bounded JSON without dynamic expressions''
                else (case dget d ''children'' of
                    JArr vs \<Rightarrow>
                      if UI_MAX_ELEMENTS < length vs then UiReject ''smith-ui children must be a bounded list''
                      else (case child_ids vs of
                          None \<Rightarrow> UiReject ''smith-ui children must be valid element ids''
                        | Some cs \<Rightarrow>
                            if distinct cs then UiOk \<lparr>ue_type = t, ue_props = props, ue_children = cs\<rparr>
                            else UiReject ''smith-ui children must not repeat an element'')
                  | _ \<Rightarrow> UiReject ''smith-ui children must be a bounded list'')
            | _ \<Rightarrow> UiReject ''smith-ui props must be bounded JSON without dynamic expressions'')
      | _ \<Rightarrow> UiReject ''smith-ui elements must contain only type, props, and children'')"

fun validate_elements :: "jdict \<Rightarrow> ui_elements ui_outcome" where
  "validate_elements [] = UiOk []"
| "validate_elements ((eid, raw) # rest) =
     ui_bind (validate_element eid raw) (\<lambda>e. ui_bind (validate_elements rest) (\<lambda>es. UiOk ((eid, e) # es)))"

definition children_of :: "ui_elements \<Rightarrow> string \<Rightarrow> string list" where
  "children_of els eid = (case map_of els eid of Some e \<Rightarrow> ue_children e | None \<Rightarrow> [])"

subsection \<open>The walk over the elements\<close>

text \<open>
  \<^verbatim>\<open>visit\<close> and the loop over its children.  \<open>visiting\<close> is the path from the root, \<open>visited\<close> the
  elements already done, the newest first.
\<close>

function visit :: "ui_elements \<Rightarrow> string \<Rightarrow> nat \<Rightarrow> string list \<Rightarrow> string list \<Rightarrow> string + string list"
  and visit_all :: "ui_elements \<Rightarrow> string list \<Rightarrow> nat \<Rightarrow> string list \<Rightarrow> string list \<Rightarrow> string + string list" where
  "visit els eid depth visiting visited =
     (if UI_MAX_DEPTH < depth then Inl ''smith-ui nesting exceeds the depth limit''
      else if eid \<in> set visiting then Inl ''smith-ui must not contain cycles''
      else if eid \<in> set visited then Inr visited
      else bind_res (visit_all els (children_of els eid) (Suc depth) (eid # visiting) visited)
             (\<lambda>done. Inr (eid # done)))"
| "visit_all els [] depth visiting visited = Inr visited"
| "visit_all els (c # cs) depth visiting visited =
     bind_res (visit els c depth visiting visited) (\<lambda>done. visit_all els cs depth visiting done)"
  by pat_completeness auto

termination
  by (relation "measures [\<lambda>x. case x of Inl (els, eid, depth, _) \<Rightarrow> UI_MAX_DEPTH + 2 - depth | Inr (els, cs, depth, _) \<Rightarrow> UI_MAX_DEPTH + 2 - depth,
                          \<lambda>x. case x of Inl _ \<Rightarrow> 0 | Inr (els, cs, _) \<Rightarrow> Suc (length cs)]") auto

declare visit.simps [simp del]

definition connect_elements :: "string \<Rightarrow> ui_elements \<Rightarrow> (string \<times> ui_elements) ui_outcome" where
  "connect_elements root els =
     (if \<not> list_all (\<lambda>(i, e). list_all (\<lambda>c. c \<in> set (dkeys els)) (ue_children e)) els
      then UiReject ''smith-ui children must reference existing elements''
      else case visit els root 0 [] [] of
        Inl m \<Rightarrow> UiReject m
      | Inr visited \<Rightarrow>
          if length visited \<noteq> length els then UiReject ''smith-ui must not contain orphaned elements''
          else UiOk (root, els))"

definition check_elements :: "string \<Rightarrow> json \<Rightarrow> (string \<times> ui_elements) ui_outcome" where
  "check_elements root v =
     (case v of
        JObj raw \<Rightarrow>
          if raw = [] \<or> UI_MAX_ELEMENTS < length raw then UiReject ''smith-ui must contain between 1 and 64 elements''
          else if root \<notin> set (dkeys raw) then UiReject ''smith-ui root must reference an existing element''
          else ui_bind (validate_elements raw) (connect_elements root)
      | _ \<Rightarrow> UiReject ''smith-ui must contain between 1 and 64 elements'')"

definition validate_spec :: "json \<Rightarrow> (string \<times> ui_elements) ui_outcome" where
  "validate_spec v =
     (case v of
        JObj spec \<Rightarrow>
          if set (dkeys spec) \<noteq> {''root'', ''elements''}
          then UiReject ''smith-ui spec must contain only root and elements''
          else (case dget spec ''root'' of
              JStr root \<Rightarrow>
                if \<not> element_id root then UiReject ''smith-ui root must be a valid element id''
                else check_elements root (dget spec ''elements'')
            | _ \<Rightarrow> UiReject ''smith-ui root must be a valid element id'')
      | _ \<Rightarrow> UiReject ''smith-ui spec must contain only root and elements'')"

subsection \<open>Images\<close>

definition path_suffix :: "string \<Rightarrow> string" where
  "path_suffix p =
     (let name = (if path_parts p = [] then [] else last (path_parts p));
          tail = takeWhile (\<lambda>c. c \<noteq> CHR ''.'') (rev name);
          stem = drop (Suc (length tail)) (rev name)
      in if tail = [] \<or> stem = [] then [] else CHR ''.'' # rev tail)"

definition image_dimension :: "jdict \<Rightarrow> string \<Rightarrow> jdict ui_outcome" where
  "image_dimension raw k =
     (case dget raw k of
        JNull \<Rightarrow> UiOk []
      | JInt i \<Rightarrow> if 1 \<le> i \<and> i \<le> 120 then UiOk [(k, JInt i)]
                  else UiReject (''smith-ui image '' @ k @ '' must be an integer between 1 and 120'')
      | _ \<Rightarrow> UiReject (''smith-ui image '' @ k @ '' must be an integer between 1 and 120''))"

definition locate_image :: "os_view \<Rightarrow> string \<Rightarrow> string \<Rightarrow> string ui_outcome" where
  "locate_image os root p =
     (case expand os p of
        Inl e \<Rightarrow> UiRaises e
      | Inr candidate \<Rightarrow>
          (case os_resolve os (if is_absolute candidate then candidate else path_join root candidate) of
             Inl _ \<Rightarrow> UiReject ''smith-ui image path is invalid''
           | Inr r \<Rightarrow> UiOk r))"

definition validate_image :: "os_view \<Rightarrow> string \<Rightarrow> json \<Rightarrow> jdict ui_outcome" where
  "validate_image os root v =
     (case v of
        JObj raw \<Rightarrow>
          if \<not> set (dkeys raw) \<subseteq> {''path'', ''alt'', ''width'', ''height''}
          then UiReject ''smith-ui image attachments contain unsupported fields''
          else (case dget raw ''path'' of
              JStr p \<Rightarrow>
                if p = [] \<or> contains ''://'' p \<or> starts_with ''file:'' p
                then UiReject ''smith-ui images must use local file paths''
                else (case dget raw ''alt'' of
                    JStr alt \<Rightarrow>
                      if alt = [] \<or> 500 < length alt
                      then UiReject ''smith-ui image attachments require bounded alt text''
                      else ui_bind (locate_image os root p) (\<lambda>resolved.
                        if \<not> is_relative_to resolved root
                        then UiReject ''smith-ui image must stay inside the working directory''
                        else if \<not> os_is_file os resolved \<or> lower (path_suffix resolved) \<notin> set IMAGE_EXTENSIONS
                        then UiReject ''smith-ui image must be an existing supported image file''
                        else ui_bind (image_dimension raw ''width'') (\<lambda>w.
                             ui_bind (image_dimension raw ''height'') (\<lambda>h.
                               UiOk ([(''path'', JStr resolved), (''alt'', JStr alt)] @ w @ h))))
                  | _ \<Rightarrow> UiReject ''smith-ui image attachments require bounded alt text'')
            | _ \<Rightarrow> UiReject ''smith-ui images must use local file paths'')
      | _ \<Rightarrow> UiReject ''smith-ui image attachments contain unsupported fields'')"

fun validate_image_list :: "os_view \<Rightarrow> string \<Rightarrow> json list \<Rightarrow> jdict list ui_outcome" where
  "validate_image_list os root [] = UiOk []"
| "validate_image_list os root (v # vs) =
     ui_bind (validate_image os root v) (\<lambda>i. ui_bind (validate_image_list os root vs) (\<lambda>is. UiOk (i # is)))"

text \<open>The working directory is resolved outside the \<^verbatim>\<open>try\<close> of the images.\<close>

definition validate_images :: "os_view \<Rightarrow> string option \<Rightarrow> json \<Rightarrow> jdict list ui_outcome" where
  "validate_images os working_dir raw =
     (case raw of
        JNull \<Rightarrow> UiOk []
      | JArr vs \<Rightarrow>
          if UI_MAX_IMAGES < length vs
          then UiReject ''smith-ui images must be a list of at most four attachments''
          else (case working_dir of
              None \<Rightarrow> if vs = [] then UiOk []
                       else UiReject ''smith-ui images require a local working directory''
            | Some wd \<Rightarrow>
                (case os_resolve os (path_text wd) of
                   Inl PathOSError \<Rightarrow> UiRaises GuardOSError
                 | Inl PathValueError \<Rightarrow> UiRaises GuardValueError
                 | Inr root \<Rightarrow> validate_image_list os root vs))
      | _ \<Rightarrow> UiReject ''smith-ui images must be a list of at most four attachments'')"

definition element_json :: "ui_element \<Rightarrow> json" where
  "element_json e = JObj [(''type'', JStr (ue_type e)), (''props'', JObj (ue_props e)),
                          (''children'', JArr (map JStr (ue_children e)))]"

definition validate_smith_ui_call :: "os_view \<Rightarrow> string option \<Rightarrow> jdict \<Rightarrow> jdict ui_outcome" where
  "validate_smith_ui_call os working_dir arguments =
     (if \<not> set (dkeys arguments) \<subseteq> {''spec'', ''images''} \<or> ''spec'' \<notin> set (dkeys arguments)
      then UiReject ''render_ui accepts only spec and optional images''
      else ui_bind (validate_spec (dget arguments ''spec'')) (\<lambda>(root, els).
           ui_bind (validate_images os working_dir (dget arguments ''images'')) (\<lambda>images.
             UiOk [(''version'', JInt 1),
                   (''spec'', JObj [(''root'', JStr root),
                                    (''elements'', JObj (map (\<lambda>(i, e). (i, element_json e)) els))]),
                   (''images'', JArr (map JObj images))])))"

end
