(* ===== verification/Smith_UI_Safety.thy ===== *)
theory Smith_UI_Safety
  imports Smith_UI
begin

text \<open>
  What acceptance by the interface validator means: the elements form a graph without cycles in
  which the root reaches every element.  It does not bound the depth: an element that was already
  visited ends the walk, however deep the second path to it is.
\<close>

definition child_rel :: "ui_elements \<Rightarrow> (string \<times> string) set" where
  "child_rel els = {(a, b). b \<in> set (children_of els a)}"

text \<open>Elements in the order in which they were finished, the newest first.\<close>

fun finished_order :: "ui_elements \<Rightarrow> string list \<Rightarrow> bool" where
  "finished_order els [] = True"
| "finished_order els (v # vs) \<longleftrightarrow> v \<notin> set vs \<and> set (children_of els v) \<subseteq> set vs \<and> finished_order els vs"

lemma visit_spec:
  "visit els eid depth visiting visited = Inr done \<Longrightarrow> finished_order els visited \<Longrightarrow>
     finished_order els done \<and> eid \<in> set done \<and> set visited \<subseteq> set done
     \<and> (set done - set visited) \<inter> set visiting = {}
     \<and> (\<forall>x \<in> set done - set visited. (eid, x) \<in> (child_rel els)\<^sup>*)"
  "visit_all els cs depth visiting visited = Inr done \<Longrightarrow> finished_order els visited \<Longrightarrow>
     finished_order els done \<and> set cs \<subseteq> set done \<and> set visited \<subseteq> set done
     \<and> (set done - set visited) \<inter> set visiting = {}
     \<and> (\<forall>x \<in> set done - set visited. \<exists>c \<in> set cs. (c, x) \<in> (child_rel els)\<^sup>*)"
proof (induction els eid depth visiting visited and els cs depth visiting visited
    arbitrary: "done" and "done" rule: visit_visit_all.induct)
  case (1 els eid depth visiting visited)
  show ?case
  proof (cases "eid \<in> set visited")
    case True
    with "1.prems" show ?thesis by (auto simp: visit.simps [of els eid] split: if_splits)
  next
    case False
    with "1.prems"(1) obtain mid where mid: "\<not> UI_MAX_DEPTH < depth" "eid \<notin> set visiting" "done = eid # mid"
      "visit_all els (children_of els eid) (Suc depth) (eid # visiting) visited = Inr mid"
      by (auto simp: visit.simps [of els eid] bind_res_Inr split: if_splits)
    note ih = "1.IH" [OF mid(1,2) False mid(4) "1.prems"(2)]
    have step: "(eid, c) \<in> child_rel els" if "c \<in> set (children_of els eid)" for c
      using that by (simp add: child_rel_def)
    have "eid \<notin> set mid" using ih False by auto
    moreover have "\<forall>x \<in> set mid - set visited. (eid, x) \<in> (child_rel els)\<^sup>*"
      using ih step by (meson converse_rtrancl_into_rtrancl)
    ultimately show ?thesis using ih mid(2,3) by auto
  qed
next
  case (2 els depth visiting visited)
  then show ?case by simp
next
  case (3 els c cs depth visiting visited)
  from "3.prems"(1) obtain mid where mid: "visit els c depth visiting visited = Inr mid"
    "visit_all els cs depth visiting mid = Inr done"
    by (auto simp: bind_res_Inr)
  note first = "3.IH"(1) [OF mid(1) "3.prems"(2)]
  then have "finished_order els mid" by blast
  from first "3.IH"(2) [OF mid(2) this] show ?case by (auto; blast)
qed

lemma finished_order_acyclic:
  assumes "finished_order els vs" "(a, b) \<in> (child_rel els)\<^sup>+" "a \<in> set vs"
  shows "b \<in> set vs \<and> a \<noteq> b"
  using assms
proof (induction vs arbitrary: a b)
  case (Cons v vs)
  have closed: "y \<in> set vs" if "(x, y) \<in> (child_rel els)\<^sup>+" "x \<in> set vs" for x y
    using Cons.IH [OF _ that] Cons.prems(1) by simp
  show ?case
  proof (cases "a = v")
    case True
    from Cons.prems(2) obtain c where "(a, c) \<in> child_rel els" "(c, b) \<in> (child_rel els)\<^sup>*"
      by (meson tranclD)
    then have c: "c \<in> set vs" "c = b \<or> (c, b) \<in> (child_rel els)\<^sup>+"
      using True Cons.prems(1) by (auto simp: child_rel_def dest: rtranclD)
    with closed have "b \<in> set vs" by blast
    with True Cons.prems(1) show ?thesis by auto
  next
    case False
    with Cons.prems have "a \<in> set vs" by simp
    from Cons.IH [OF _ Cons.prems(2) this] Cons.prems(1) show ?thesis by simp
  qed
qed simp

lemma validate_elements_keys: "validate_elements d = UiOk els \<Longrightarrow> map fst els = map fst d"
  by (induction d arbitrary: els) (auto simp: ui_bind_UiOk)

text \<open>What an accepted specification consists of.\<close>

lemma validate_spec_UiOk:
  assumes "validate_spec v = UiOk (root, els)"
  shows "\<exists>raw visited. map fst els = map fst raw \<and> length raw \<le> UI_MAX_ELEMENTS
    \<and> root \<in> set (map fst els) \<and> visit els root 0 [] [] = Inr visited \<and> length visited = length els
    \<and> (\<forall>a. set (children_of els a) \<subseteq> set (map fst els))
    \<and> (\<exists>spec. v = JObj spec \<and> dget spec ''elements'' = JObj raw)"
proof -
  obtain spec where spec: "v = JObj spec" "check_elements root (dget spec ''elements'') = UiOk (root, els)"
    using assms
    by (auto simp: validate_spec_def check_elements_def connect_elements_def ui_bind_UiOk
        split: json.split_asm if_split_asm sum.split_asm)
  then obtain raw where raw: "dget spec ''elements'' = JObj raw" "length raw \<le> UI_MAX_ELEMENTS" "root \<in> set (map fst raw)"
    "validate_elements raw = UiOk els" "connect_elements root els = UiOk (root, els)"
    by (auto simp: check_elements_def ui_bind_UiOk connect_elements_def split: json.split_asm if_split_asm sum.split_asm)
  from raw(5) obtain visited where visited: "visit els root 0 [] [] = Inr visited" "length visited = length els"
    "list_all (\<lambda>(i, e). list_all (\<lambda>c. c \<in> set (dkeys els)) (ue_children e)) els"
    by (auto simp: connect_elements_def split: if_split_asm sum.split_asm)
  have "set (children_of els a) \<subseteq> set (map fst els)" for a
  proof (cases "map_of els a")
    case (Some e)
    then have "(a, e) \<in> set els" by (rule map_of_SomeD)
    with visited(3) Some show ?thesis by (fastforce simp: children_of_def list_all_iff)
  qed (simp add: children_of_def)
  with visited raw spec(1) validate_elements_keys [OF raw(4)] show ?thesis by auto
qed

text \<open>
  C39. An accepted interface is a finite graph without cycles in which the root reaches every
  element, every child is an element, and at most 64 elements occur.
\<close>

theorem accepted_ui_is_rooted_dag:
  assumes "wf_json v" "validate_spec v = UiOk (root, els)"
  shows "length els \<le> UI_MAX_ELEMENTS \<and> acyclic (child_rel els)
    \<and> (\<forall>e \<in> set (map fst els). (root, e) \<in> (child_rel els)\<^sup>* \<and> set (children_of els e) \<subseteq> set (map fst els))"
proof -
  obtain raw visited where r: "map fst els = map fst raw" "length raw \<le> UI_MAX_ELEMENTS"
    "root \<in> set (map fst els)" "visit els root 0 [] [] = Inr visited" "length visited = length els"
    "\<And>a. set (children_of els a) \<subseteq> set (map fst els)" "\<exists>spec. v = JObj spec \<and> dget spec ''elements'' = JObj raw"
    using validate_spec_UiOk [OF assms(2)] by blast
  have "wf_json (JObj raw)"
    using r(7) assms(1) by (force simp: dget_def split: option.split_asm dest: map_of_SomeD)
  then have keys: "distinct (map fst els)" using r(1) by simp
  have walk: "finished_order els visited" "\<And>x. x \<in> set visited \<Longrightarrow> (root, x) \<in> (child_rel els)\<^sup>*"
    using visit_spec(1) [OF r(4)] by auto
  have "distinct visited" using walk(1) by (induction visited) auto
  moreover have "set visited \<subseteq> set (map fst els)"
  proof
    fix x assume "x \<in> set visited"
    from walk(2) [OF this] r(3,6) show "x \<in> set (map fst els)"
      by (cases rule: rtranclE) (auto simp: child_rel_def)
  qed
  ultimately have all_seen: "set visited = set (map fst els)"
    using r(5) keys by (metis card_subset_eq distinct_card finite_set length_map)
  have "acyclic (child_rel els)"
  proof (rule acyclicI, intro allI notI)
    fix a assume loop: "(a, a) \<in> (child_rel els)\<^sup>+"
    then obtain b where "(a, b) \<in> child_rel els" by (meson tranclD)
    then have "a \<in> set (map fst els)"
      by (cases "map_of els a") (force simp: child_rel_def children_of_def dest: map_of_SomeD)+
    with finished_order_acyclic [OF walk(1) loop] all_seen show False by simp
  qed
  moreover have "length els \<le> UI_MAX_ELEMENTS" using r(1,2) by (metis length_map)
  ultimately show ?thesis using walk(2) all_seen r(6) by blast
qed

text \<open>Two paths to one element; a chain below it.\<close>

definition ui_node :: "string \<Rightarrow> string list \<Rightarrow> string \<times> json" where
  "ui_node i cs = (i, JObj [(''type'', JStr ''Box''), (''props'', JObj []), (''children'', JArr (map JStr cs))])"

definition two_paths :: json where
  "two_paths = JObj [(''root'', JStr ''r''), (''elements'', JObj
     [ui_node ''r'' [''a'', ''p''], ui_node ''a'' [''b''], ui_node ''b'' [''c''], ui_node ''c'' [''d''],
      ui_node ''d'' [''e''], ui_node ''e'' [''f''], ui_node ''f'' [],
      ui_node ''p'' [''q''], ui_node ''q'' [''s''], ui_node ''s'' [''t''], ui_node ''t'' [''a'']])]"

definition two_paths_elements :: ui_elements where
  "two_paths_elements = map (\<lambda>(i, cs). (i, \<lparr>ue_type = ''Box'', ue_props = [], ue_children = cs\<rparr>))
     [(''r'', [''a'', ''p'']), (''a'', [''b'']), (''b'', [''c'']), (''c'', [''d'']), (''d'', [''e'']), (''e'', [''f'']),
      (''f'', []), (''p'', [''q'']), (''q'', [''s'']), (''s'', [''t'']), (''t'', [''a''])]"

lemma two_paths_accepted: "validate_spec two_paths = UiOk (''r'', two_paths_elements)"
  by code_simp

theorem accepted_ui_is_rooted_dag_witness:
  "acyclic (child_rel two_paths_elements) \<and> (''r'', ''f'') \<in> (child_rel two_paths_elements)\<^sup>*"
proof -
  have "wf_json two_paths" by (simp add: two_paths_def ui_node_def)
  from accepted_ui_is_rooted_dag [OF this two_paths_accepted] show ?thesis
    by (simp add: two_paths_elements_def)
qed

text \<open>
  The depth limit is 8, and yet a path of ten steps leads from the root of an accepted
  interface: the walk does not enter an element it has seen on a shorter path.
\<close>

fun is_path :: "ui_elements \<Rightarrow> string list \<Rightarrow> bool" where
  "is_path els (a # b # ps) = (b \<in> set (children_of els a) \<and> is_path els (b # ps))"
| "is_path els _ = True"

text \<open>
  The depth limit of interfaces is not enforced: a payload is accepted although it nests
  eleven elements, its root included, two more than the limit admits.
\<close>

theorem shared_child_evades_depth_limit:
  "\<exists>v root els path. validate_spec v = UiOk (root, els) \<and> is_path els (root # path) \<and> UI_MAX_DEPTH < length path"
proof (intro exI conjI)
  show "validate_spec two_paths = UiOk (''r'', two_paths_elements)" by (rule two_paths_accepted)
  show "is_path two_paths_elements (''r'' # [''p'', ''q'', ''s'', ''t'', ''a'', ''b'', ''c'', ''d'', ''e'', ''f''])"
    by code_simp
  show "UI_MAX_DEPTH < length [''p'', ''q'', ''s'', ''t'', ''a'', ''b'', ''c'', ''d'', ''e'', ''f'']"
    by (simp add: UI_MAX_DEPTH_def)
qed

text \<open>Exceptions that leave the validator although it is meant to answer every payload.\<close>

lemma unhashable_type_raises:
  "validate_element ''a'' (JObj [(''type'', JArr []), (''props'', JObj []), (''children'', JArr [])]) = UiRaises GuardTypeError"
  by code_simp

lemma unknown_home_raises:
  assumes "os_home_of os ''~nobody'' = None"
  shows "locate_image os root ''~nobody/a.png'' = UiRaises GuardRuntimeError"
proof -
  have "expand os ''~nobody/a.png'' = Inl GuardRuntimeError"
  proof -
    have "path_parts ''~nobody/a.png'' = [''~nobody'', ''a.png''] \<and> root_slashes ''~nobody/a.png'' = []
      \<and> starts_with ''~'' ''~nobody''" by code_simp
    with assms show ?thesis by (simp add: expand_def expanduser_def)
  qed
  then show ?thesis by (simp add: locate_image_def)
qed

end
