(* ===== verification/Hooks.thy ===== *)
theory Hooks
  imports Ledger File_Guard
begin

text \<open>
  Hooks: the registry of tool-lifecycle hooks (\<^verbatim>\<open>engine/execution/hooks/tool/manager.py\<close>), the
  loader of its configuration (\<^verbatim>\<open>loader.py\<close>), the built-in configuration protection
  (\<^verbatim>\<open>agents/smith/hooks/config_protection.py\<close>) and the dispatcher of engine extensions
  (\<^verbatim>\<open>engine/execution/hooks/extension/manager.py\<close>).  The check of a hook is a function that reads
  the world \<open>'w\<close> of the run; an exception of it is an answer of its own.
\<close>

subsection \<open>Hooks and their registry\<close>

datatype check_answer = CheckAllows | CheckDenies "string option" | CheckRaises

datatype warn_answer = Warns "string list" | WarnsNone | WarnRaises

record 'w pre_hook =
  ph_id :: string
  ph_priority :: int
  ph_enabled :: bool
  ph_check :: "string \<Rightarrow> jdict \<Rightarrow> 'w \<Rightarrow> check_answer"

record 'w post_hook =
  po_id :: string
  po_enabled :: bool
  po_async :: bool
  po_check :: "string \<Rightarrow> jdict \<Rightarrow> tool_result \<Rightarrow> 'w \<Rightarrow> warn_answer"

record stop_hook =
  st_id :: string
  st_enabled :: bool
  st_async :: bool

record 'w hook_registry =
  hr_pre :: "(string, 'w pre_hook) dict"
  hr_post :: "(string, 'w post_hook) dict"
  hr_stop :: "(string, stop_hook) dict"

definition new_hook_registry :: "'w hook_registry" where
  "new_hook_registry = \<lparr>hr_pre = [], hr_post = [], hr_stop = []\<rparr>"

definition register_pre_hook :: "'w pre_hook \<Rightarrow> 'w hook_registry \<Rightarrow> 'w hook_registry" where
  "register_pre_hook h reg = reg\<lparr>hr_pre := dset (ph_id h) h (hr_pre reg)\<rparr>"

definition register_post_hook :: "'w post_hook \<Rightarrow> 'w hook_registry \<Rightarrow> 'w hook_registry" where
  "register_post_hook h reg = reg\<lparr>hr_post := dset (po_id h) h (hr_post reg)\<rparr>"

definition register_stop_hook :: "stop_hook \<Rightarrow> 'w hook_registry \<Rightarrow> 'w hook_registry" where
  "register_stop_hook h reg = reg\<lparr>hr_stop := dset (st_id h) h (hr_stop reg)\<rparr>"

definition get_pre_hook :: "'w hook_registry \<Rightarrow> string \<Rightarrow> 'w pre_hook option" where
  "get_pre_hook reg i = map_of (hr_pre reg) i"

definition get_post_hook :: "'w hook_registry \<Rightarrow> string \<Rightarrow> 'w post_hook option" where
  "get_post_hook reg i = map_of (hr_post reg) i"

definition get_stop_hook :: "'w hook_registry \<Rightarrow> string \<Rightarrow> stop_hook option" where
  "get_stop_hook reg i = map_of (hr_stop reg) i"

definition list_registered_hooks :: "'w hook_registry \<Rightarrow> (string, string list) dict" where
  "list_registered_hooks reg =
     [(''pre'', dkeys (hr_pre reg)), (''post'', dkeys (hr_post reg)), (''stop'', dkeys (hr_stop reg))]"

text \<open>The hooks of a table that are enabled, all of them or those with the given ids.\<close>

definition selected_hooks :: "('h \<Rightarrow> bool) \<Rightarrow> (string, 'h) dict \<Rightarrow> string list option \<Rightarrow> 'h list" where
  "selected_hooks enabled tbl ids =
     (case ids of
        None \<Rightarrow> filter enabled (map snd tbl)
      | Some is \<Rightarrow> filter enabled (List.map_filter (map_of tbl) is))"

subsection \<open>Hooks around a tool call\<close>

text \<open>A hook that raises is skipped; the first denial ends the walk.\<close>

fun ask_pre_hooks :: "'w pre_hook list \<Rightarrow> string \<Rightarrow> jdict \<Rightarrow> 'w \<Rightarrow> string option" where
  "ask_pre_hooks [] tool args w = None"
| "ask_pre_hooks (h # hs) tool args w =
     (case ph_check h tool args w of
        CheckDenies why \<Rightarrow> Some (''['' @ ph_id h @ ''] '' @ (case why of None \<Rightarrow> ''None'' | Some t \<Rightarrow> t))
      | _ \<Rightarrow> ask_pre_hooks hs tool args w)"

definition run_pre_hooks :: "'w hook_registry \<Rightarrow> string \<Rightarrow> jdict \<Rightarrow> string list option \<Rightarrow> 'w \<Rightarrow> bool \<times> string option" where
  "run_pre_hooks reg tool args ids w =
     (let denial = ask_pre_hooks (sort_key ph_priority (selected_hooks ph_enabled (hr_pre reg) ids)) tool args w
      in (denial = None, denial))"

definition warnings_of :: "warn_answer \<Rightarrow> string list" where
  "warnings_of a = (case a of Warns ws \<Rightarrow> ws | _ \<Rightarrow> [])"

text \<open>Synchronous hooks report at once, the tasks of the others are awaited at the end.\<close>

definition run_post_hooks ::
    "'w hook_registry \<Rightarrow> string \<Rightarrow> jdict \<Rightarrow> tool_result \<Rightarrow> string list option \<Rightarrow> 'w \<Rightarrow> string list" where
  "run_post_hooks reg tool args result ids w =
     (let hooks = selected_hooks po_enabled (hr_post reg) ids;
          answer = (\<lambda>h. warnings_of (po_check h tool args result w))
      in concat (map answer (filter (\<lambda>h. \<not> po_async h) hooks)) @ concat (map answer (filter po_async hooks)))"

subsection \<open>Loading a configuration\<close>

record 'w pre_class =
  pc_id :: string
  pc_enabled :: bool
  pc_priority_override :: "int option"
  pc_check :: "string \<Rightarrow> jdict \<Rightarrow> 'w \<Rightarrow> check_answer"

datatype 'w hook_class =
    PreClass "'w pre_class"
  | PostClass "'w post_hook"
  | StopClass stop_hook
  | OtherClass

text \<open>
  The class a module holds under a name, None when importing it fails or the name is missing: a
  parameter, since the module is code the configuration names.
\<close>

record 'w hook_modules =
  hm_project_root :: string
  hm_config_dir :: string
  hm_exists :: "string \<Rightarrow> bool"
  hm_class :: "string \<Rightarrow> string \<Rightarrow> 'w hook_class option"

definition module_file :: "'w hook_modules \<Rightarrow> string \<Rightarrow> string" where
  "module_file ms p =
     (if is_absolute p then path_text p
      else let resolved = path_join (hm_project_root ms) p
           in if hm_exists ms resolved then resolved else path_join (hm_config_dir ms) p)"

definition load_hook_class :: "'w hook_modules \<Rightarrow> string \<Rightarrow> string \<Rightarrow> 'w hook_class option" where
  "load_hook_class ms p cls =
     (let f = module_file ms p in if hm_exists ms f then hm_class ms f cls else None)"

definition class_of_definition :: "'w hook_modules \<Rightarrow> jdict \<Rightarrow> 'w hook_class option" where
  "class_of_definition ms d =
     (case (dget d ''module'', dget d ''class'') of
        (JStr p, JStr cls) \<Rightarrow> if p = [] \<or> cls = [] then None else load_hook_class ms p cls
      | _ \<Rightarrow> None)"

definition configured_priority :: "jdict \<Rightarrow> int option" where
  "configured_priority d = (case dget d ''priority'' of JInt i \<Rightarrow> Some i | _ \<Rightarrow> None)"

text \<open>The property \<^verbatim>\<open>priority\<close> of an instance; a class may override it.\<close>

definition instance_priority :: "int option \<Rightarrow> int option \<Rightarrow> int" where
  "instance_priority override configured =
     (case override of Some p \<Rightarrow> p | None \<Rightarrow> (case configured of Some p \<Rightarrow> p | None \<Rightarrow> 100))"

definition load_pre_hook :: "'w hook_modules \<Rightarrow> jdict \<Rightarrow> 'w pre_hook option" where
  "load_pre_hook ms d =
     (case class_of_definition ms d of
        Some (PreClass c) \<Rightarrow> Some \<lparr>ph_id = pc_id c,
          ph_priority = instance_priority (pc_priority_override c) (configured_priority d),
          ph_enabled = pc_enabled c, ph_check = pc_check c\<rparr>
      | _ \<Rightarrow> None)"

definition load_post_hook :: "'w hook_modules \<Rightarrow> jdict \<Rightarrow> 'w post_hook option" where
  "load_post_hook ms d = (case class_of_definition ms d of Some (PostClass h) \<Rightarrow> Some h | _ \<Rightarrow> None)"

definition load_stop_hook :: "'w hook_modules \<Rightarrow> jdict \<Rightarrow> stop_hook option" where
  "load_stop_hook ms d = (case class_of_definition ms d of Some (StopClass h) \<Rightarrow> Some h | _ \<Rightarrow> None)"

text \<open>\<^verbatim>\<open>key in v\<close>, \<^verbatim>\<open>v[key]\<close> and the elements of \<^verbatim>\<open>for x in v\<close>; None is a TypeError.\<close>

definition key_in :: "string \<Rightarrow> json \<Rightarrow> bool option" where
  "key_in k v =
     (case v of
        JObj d \<Rightarrow> Some (k \<in> set (dkeys d))
      | JArr vs \<Rightarrow> Some (JStr k \<in> set vs)
      | JStr s \<Rightarrow> Some (contains k s)
      | _ \<Rightarrow> None)"

definition subscript :: "string \<Rightarrow> json \<Rightarrow> json option" where
  "subscript k v = (case v of JObj d \<Rightarrow> Some (dget d k) | _ \<Rightarrow> None)"

definition elements_of :: "json \<Rightarrow> json list option" where
  "elements_of v =
     (case v of
        JObj d \<Rightarrow> Some (map JStr (dkeys d))
      | JArr vs \<Rightarrow> Some vs
      | JStr s \<Rightarrow> Some (map (\<lambda>c. JStr [c]) s)
      | _ \<Rightarrow> None)"

definition definition_enabled :: "jdict \<Rightarrow> bool" where
  "definition_enabled d = (case map_of d ''enabled'' of None \<Rightarrow> True | Some v \<Rightarrow> truthy v)"

fun load_definitions :: "(jdict \<Rightarrow> 'r \<Rightarrow> 'r) \<Rightarrow> json list \<Rightarrow> 'r \<Rightarrow> 'r" where
  "load_definitions add [] reg = reg"
| "load_definitions add (v # vs) reg =
     load_definitions add vs
       (case v of JObj d \<Rightarrow> if definition_enabled d then add d reg else reg | _ \<Rightarrow> reg)"

definition add_loaded :: "(jdict \<Rightarrow> 'h option) \<Rightarrow> ('h \<Rightarrow> 'r \<Rightarrow> 'r) \<Rightarrow> jdict \<Rightarrow> 'r \<Rightarrow> 'r" where
  "add_loaded load register d reg = (case load d of None \<Rightarrow> reg | Some h \<Rightarrow> register h reg)"

text \<open>One section; the flag says that a TypeError left the loader.\<close>

definition load_section :: "string \<Rightarrow> (jdict \<Rightarrow> 'r \<Rightarrow> 'r) \<Rightarrow> json \<Rightarrow> bool \<times> 'r \<Rightarrow> bool \<times> 'r" where
  "load_section name add hooks st =
     (if fst st then st
      else case key_in name hooks of
        None \<Rightarrow> (True, snd st)
      | Some False \<Rightarrow> st
      | Some True \<Rightarrow>
          (case Option.bind (subscript name hooks) elements_of of
             None \<Rightarrow> (True, snd st)
           | Some defs \<Rightarrow> (False, load_definitions add defs (snd st))))"

definition load_sections :: "'w hook_modules \<Rightarrow> json \<Rightarrow> 'w hook_registry \<Rightarrow> bool \<times> 'w hook_registry" where
  "load_sections ms hooks reg =
     load_section ''stop'' (add_loaded (load_stop_hook ms) register_stop_hook) hooks
       (load_section ''post'' (add_loaded (load_post_hook ms) register_post_hook) hooks
         (load_section ''pre'' (add_loaded (load_pre_hook ms) register_pre_hook) hooks (False, reg)))"

text \<open>\<open>config\<close> is None when the file is missing or cannot be read or parsed.\<close>

definition load_hooks_from_config :: "'w hook_modules \<Rightarrow> json option \<Rightarrow> 'w hook_registry \<Rightarrow> bool \<times> 'w hook_registry" where
  "load_hooks_from_config ms config reg =
     (case config of
        None \<Rightarrow> (False, reg)
      | Some v \<Rightarrow>
          if \<not> truthy v then (False, reg)
          else (case key_in ''hooks'' v of
              None \<Rightarrow> (True, reg)
            | Some False \<Rightarrow> (False, reg)
            | Some True \<Rightarrow>
                (case subscript ''hooks'' v of None \<Rightarrow> (True, reg) | Some hooks \<Rightarrow> load_sections ms hooks reg)))"

subsection \<open>Configuration protection\<close>

definition PROTECTED_CONFIG_PATTERNS :: "string list" where
  "PROTECTED_CONFIG_PATTERNS =
     [''.eslintrc'', ''eslint.config'', ''.prettierrc'', ''prettier.config'', ''tsconfig.json'', ''.flake8'',
      ''ruff.toml'', ''.pylintrc'', ''pylint.rc'', ''pyproject.toml'', ''mypy.ini'', ''.mypy.ini'',
      ''.golangci.yml'', ''.golangci.yaml'', ''clippy.toml'', ''.clippy.toml'', ''.editorconfig'']"

definition config_denial :: "string \<Rightarrow> string" where
  "config_denial p =
     join [CHR 0x0A]
       [''Config file modification blocked: '' @ p, [],
        ''This file appears to be a linter/formatter/type-checker config.'',
        ''Instead of modifying the config to pass checks, please fix the code.'', [],
        ''If you genuinely need to update the config, ask the user first.'']"

definition config_protection_check :: "string \<Rightarrow> jdict \<Rightarrow> 'w \<Rightarrow> check_answer" where
  "config_protection_check tool args w =
     (if tool \<notin> {''edit_file'', ''write_file''} then CheckAllows
      else case map_of args ''path'' of
        None \<Rightarrow> CheckAllows
      | Some v \<Rightarrow>
          if \<not> truthy v then CheckAllows
          else (case v of
              JStr p \<Rightarrow>
                if list_ex (\<lambda>q. contains (lower q) (lower p)) PROTECTED_CONFIG_PATTERNS
                then CheckDenies (Some (config_denial p)) else CheckAllows
            | _ \<Rightarrow> CheckRaises))"

definition config_protection_class :: "'w pre_class" where
  "config_protection_class = \<lparr>pc_id = ''config-protection'', pc_enabled = True, pc_priority_override = Some 1,
     pc_check = config_protection_check\<rparr>"

subsection \<open>Engine extensions\<close>

datatype hook_type = HFirst | HSeries | HSeriesMerge | HSeriesLast | HParallel

text \<open>A method answers with a value or raises, which a timeout does too.\<close>

record ext_handler =
  eh_key :: nat
  eh_enforce :: string
  eh_method :: "string \<Rightarrow> (json list \<Rightarrow> json option) option"

definition enforce_rank :: "ext_handler \<Rightarrow> nat" where
  "enforce_rank h = (if eh_enforce h = ''pre'' then 0 else if eh_enforce h = ''post'' then 2 else 1)"

definition register_handler :: "ext_handler \<Rightarrow> ext_handler list \<Rightarrow> ext_handler list" where
  "register_handler h hs = sort_key enforce_rank (hs @ [h])"

fun unregister_handler :: "ext_handler \<Rightarrow> ext_handler list \<Rightarrow> ext_handler list" where
  "unregister_handler h [] = []"
| "unregister_handler h (x # xs) = (if eh_key x = eh_key h then xs else x # unregister_handler h xs)"

definition is_registered :: "ext_handler \<Rightarrow> ext_handler list \<Rightarrow> bool" where
  "is_registered h hs \<longleftrightarrow> eh_key h \<in> set (map eh_key hs)"

definition handlers_for :: "ext_handler list \<Rightarrow> string \<Rightarrow> (json list \<Rightarrow> json option) list" where
  "handlers_for hs hook = List.map_filter (\<lambda>h. eh_method h hook) hs"

fun apply_first :: "(json list \<Rightarrow> json option) list \<Rightarrow> json list \<Rightarrow> json" where
  "apply_first [] args = JNull"
| "apply_first (f # fs) args =
     (case f args of Some v \<Rightarrow> if v = JNull then apply_first fs args else v | None \<Rightarrow> apply_first fs args)"

definition apply_last :: "(json list \<Rightarrow> json option) list \<Rightarrow> json list \<Rightarrow> json \<Rightarrow> json" where
  "apply_last fs args initial =
     foldl (\<lambda>acc f. case f (acc # args) of Some v \<Rightarrow> v | None \<Rightarrow> acc) initial fs"

definition merge_partial :: "json \<Rightarrow> json \<Rightarrow> json" where
  "merge_partial acc0 partial =
     (if partial = JNull then acc0
      else let acc = (if acc0 = JNull then (case partial of JArr _ \<Rightarrow> JArr [] | _ \<Rightarrow> JObj []) else acc0)
           in case acc of
             JArr xs \<Rightarrow> JArr (xs @ (case partial of JArr ys \<Rightarrow> ys | _ \<Rightarrow> [partial]))
           | JObj d \<Rightarrow> (case partial of JObj e \<Rightarrow> JObj (foldl (\<lambda>acc (k, v). dset k v acc) d e) | _ \<Rightarrow> JObj d)
           | _ \<Rightarrow> acc)"

definition apply_merge :: "(json list \<Rightarrow> json option) list \<Rightarrow> json list \<Rightarrow> json \<Rightarrow> json" where
  "apply_merge fs args initial =
     foldl (\<lambda>acc f. case f args of Some v \<Rightarrow> merge_partial acc v | None \<Rightarrow> acc) initial fs"

definition apply_parallel :: "(json list \<Rightarrow> json option) list \<Rightarrow> json list \<Rightarrow> bool \<Rightarrow> json list" where
  "apply_parallel fs args include_failures =
     concat (map (\<lambda>f. case f args of
        None \<Rightarrow> if include_failures then [JBool False] else []
      | Some v \<Rightarrow> if v = JNull then [] else [v]) fs)"

definition apply_hook ::
    "ext_handler list \<Rightarrow> string \<Rightarrow> hook_type \<Rightarrow> json list \<Rightarrow> json \<Rightarrow> bool \<Rightarrow> json" where
  "apply_hook hs hook ty args initial include_failures =
     (case handlers_for hs hook of
        [] \<Rightarrow> initial
      | f # fs \<Rightarrow>
          (case ty of
             HFirst \<Rightarrow> apply_first (f # fs) args
           | HSeries \<Rightarrow> JNull
           | HSeriesLast \<Rightarrow> apply_last (f # fs) args initial
           | HSeriesMerge \<Rightarrow> apply_merge (f # fs) args initial
           | HParallel \<Rightarrow> JArr (apply_parallel (f # fs) args include_failures)))"

end
