(* ===== verification/Hooks_Safety.thy ===== *)
theory Hooks_Safety
  imports Hooks
begin

text \<open>
  What the hooks guarantee: a call passes exactly when no selected hook denies it, hooks that raise
  change nothing, and the shipped configuration blocks edits of the protected files until a hook of
  the same id replaces it.
\<close>

definition hook_denies :: "string \<Rightarrow> jdict \<Rightarrow> 'w \<Rightarrow> 'w pre_hook \<Rightarrow> bool" where
  "hook_denies tool args w h = (case ph_check h tool args w of CheckDenies _ \<Rightarrow> True | _ \<Rightarrow> False)"

lemma ask_pre_hooks_None: "ask_pre_hooks hs tool args w = None \<longleftrightarrow> \<not> list_ex (hook_denies tool args w) hs"
  by (induction hs) (auto simp: hook_denies_def split: check_answer.splits)

lemma ask_pre_hooks_Some:
  "ask_pre_hooks hs tool args w = Some r \<Longrightarrow>
     \<exists>earlier h later why. hs = earlier @ h # later \<and> ph_check h tool args w = CheckDenies why
       \<and> \<not> list_ex (hook_denies tool args w) earlier \<and> r = ''['' @ ph_id h @ ''] '' @ (case why of None \<Rightarrow> ''None'' | Some t \<Rightarrow> t)"
proof (induction hs)
  case (Cons h hs)
  show ?case
  proof (cases "hook_denies tool args w h")
    case True
    then obtain why where "ph_check h tool args w = CheckDenies why"
      by (auto simp: hook_denies_def split: check_answer.splits)
    with Cons.prems show ?thesis by (intro exI [of _ "[]"] exI [of _ h] exI [of _ hs]) auto
  next
    case False
    with Cons.prems have "ask_pre_hooks hs tool args w = Some r"
      by (auto simp: hook_denies_def split: check_answer.split_asm)
    from Cons.IH [OF this] obtain earlier g later why where g: "hs = earlier @ g # later"
      "ph_check g tool args w = CheckDenies why" "\<not> list_ex (hook_denies tool args w) earlier"
      "r = ''['' @ ph_id g @ ''] '' @ (case why of None \<Rightarrow> ''None'' | Some t \<Rightarrow> t)"
      by blast
    with False show ?thesis by (intro exI [of _ "h # earlier"] exI [of _ g] exI [of _ later]) auto
  qed
qed simp

lemma ask_pre_hooks_skip:
  "ask_pre_hooks (filter (hook_denies tool args w) hs) tool args w = ask_pre_hooks hs tool args w"
  by (induction hs) (auto simp: hook_denies_def split: check_answer.splits)

lemma run_pre_hooks_allows:
  "fst (run_pre_hooks reg tool args ids w) \<longleftrightarrow>
     (\<forall>h \<in> set (selected_hooks ph_enabled (hr_pre reg) ids). \<not> hook_denies tool args w h)"
  by (simp add: run_pre_hooks_def Let_def ask_pre_hooks_None list_ex_iff)

text \<open>
  A denial names the denying hook of least priority value, whatever hooks that raise or allow
  are registered beside it; without a denying hook the call passes.
\<close>

theorem least_priority_denial_decides:
  assumes "run_pre_hooks reg tool args ids w = (passes, denial)"
  shows "(passes \<longleftrightarrow> denial = None)
    \<and> (passes \<longleftrightarrow> \<not> list_ex (hook_denies tool args w) (selected_hooks ph_enabled (hr_pre reg) ids))
    \<and> (\<forall>r. denial = Some r \<longrightarrow> (\<exists>h \<in> set (selected_hooks ph_enabled (hr_pre reg) ids). \<exists>why.
         ph_check h tool args w = CheckDenies why \<and> prefix (''['' @ ph_id h @ '']'') r
         \<and> (\<forall>g \<in> set (selected_hooks ph_enabled (hr_pre reg) ids). hook_denies tool args w g \<longrightarrow> ph_priority h \<le> ph_priority g)))"
proof (intro conjI allI impI)
  let ?hs = "selected_hooks ph_enabled (hr_pre reg) ids"
  show "passes \<longleftrightarrow> denial = None" using assms by (auto simp: run_pre_hooks_def Let_def)
  show "passes \<longleftrightarrow> \<not> list_ex (hook_denies tool args w) ?hs"
    using run_pre_hooks_allows [of reg tool args ids w] assms by (simp add: list_ex_iff)
  fix r assume "denial = Some r"
  with assms have "ask_pre_hooks (sort_key ph_priority ?hs) tool args w = Some r"
    by (simp add: run_pre_hooks_def Let_def)
  from ask_pre_hooks_Some [OF this] obtain earlier h later why
    where h: "sort_key ph_priority ?hs = earlier @ h # later" "ph_check h tool args w = CheckDenies why"
      "\<not> list_ex (hook_denies tool args w) earlier" "r = ''['' @ ph_id h @ ''] '' @ (case why of None \<Rightarrow> ''None'' | Some t \<Rightarrow> t)"
    by blast
  have members: "set ?hs = set (earlier @ h # later)" using h(1) by (metis set_sort)
  have "sorted (map ph_priority (earlier @ h # later))" using h(1) by (metis sorted_sort_key)
  then have "ph_priority h \<le> ph_priority g" if "g \<in> set ?hs" "hook_denies tool args w g" for g
    using that h(3) members by (auto simp: list_ex_iff sorted_append)
  with h(2,4) members show "\<exists>h \<in> set ?hs. \<exists>why. ph_check h tool args w = CheckDenies why
      \<and> prefix (''['' @ ph_id h @ '']'') r \<and> (\<forall>g \<in> set ?hs. hook_denies tool args w g \<longrightarrow> ph_priority h \<le> ph_priority g)"
    by (intro bexI [of _ h] exI [of _ why]) auto
qed

subsection \<open>The shipped configuration\<close>

text \<open>\<^verbatim>\<open>agents/smith/hooks.yaml\<close> as the YAML parser returns it.\<close>

definition shipped_hooks :: json where
  "shipped_hooks = JObj [(''hooks'', JObj
     [(''pre'', JArr [JObj
        [(''id'', JStr ''config-protection''), (''enabled'', JBool True),
         (''module'', JStr ''agents/smith/hooks/config_protection.py''), (''class'', JStr ''ConfigProtectionHook''),
         (''priority'', JInt 1),
         (''description'', JStr ''Block modifications to linter/formatter/type-checker config files'')]]),
      (''post'', JArr
        [JObj
           [(''id'', JStr ''console-warn''), (''enabled'', JBool True),
            (''module'', JStr ''agents/smith/hooks/console_warn.py''), (''class'', JStr ''ConsoleWarnHook''),
            (''description'', JStr ''Warn about debug statements (console.log, print, etc.)'')],
         JObj
           [(''id'', JStr ''quality-gate''), (''enabled'', JBool True),
            (''module'', JStr ''agents/smith/hooks/quality_gate.py''), (''class'', JStr ''QualityGateHook''),
            (''description'', JStr ''Run format and lint checks after file edits'')]]),
      (''stop'', JArr [JObj
        [(''id'', JStr ''cost-tracker''), (''enabled'', JBool True),
         (''module'', JStr ''agents/smith/hooks/cost_tracker.py''), (''class'', JStr ''CostTrackerHook''),
         (''description'', JStr ''Track token usage and costs per session'')]])])]"

lemma load_definitions_keep:
  assumes "\<And>d r. f (add d r) = f r"
  shows "f (load_definitions add vs reg) = f reg"
  by (induction vs arbitrary: reg) (auto simp: assms split: json.splits)

lemma load_section_keeps:
  assumes "\<And>d r. f (add d r) = f r"
  shows "f (snd (load_section name add hooks st)) = f (snd st)"
  by (auto simp: load_section_def load_definitions_keep [where f = f and add = add, OF assms]
      split: option.splits bool.splits)

text \<open>What the later sections name can neither stop the loading nor touch the hooks before tools.\<close>

lemma later_sections_keep_pre:
  "hr_pre (snd (load_section name (add_loaded (load_post_hook ms) register_post_hook) hooks st)) = hr_pre (snd st)"
  "hr_pre (snd (load_section name (add_loaded (load_stop_hook ms) register_stop_hook) hooks st)) = hr_pre (snd st)"
  by (rule load_section_keeps; simp add: add_loaded_def register_post_hook_def register_stop_hook_def split: option.split)+

lemma shipped_hooks_load:
  assumes "hm_exists ms (module_file ms ''agents/smith/hooks/config_protection.py'')"
    and "hm_class ms (module_file ms ''agents/smith/hooks/config_protection.py'') ''ConfigProtectionHook''
           = Some (PreClass config_protection_class)"
  shows "\<not> fst (load_hooks_from_config ms (Some shipped_hooks) new_hook_registry)"
    and "hr_pre (snd (load_hooks_from_config ms (Some shipped_hooks) new_hook_registry)) =
      hr_pre (register_pre_hook \<lparr>ph_id = ''config-protection'', ph_priority = 1, ph_enabled = True,
              ph_check = config_protection_check\<rparr> new_hook_registry)"
proof -
  obtain hooks where hooks: "shipped_hooks = JObj [(''hooks'', hooks)]" by (simp add: shipped_hooks_def)
  note shape = hooks [unfolded shipped_hooks_def, simplified, symmetric]
  have load: "load_hooks_from_config ms (Some shipped_hooks) new_hook_registry = load_sections ms hooks new_hook_registry"
    by (simp add: load_hooks_from_config_def key_in_def hooks subscript_def dget_def)
  have pre: "load_section ''pre'' (add_loaded (load_pre_hook ms) register_pre_hook) hooks (False, new_hook_registry)
    = (False, register_pre_hook \<lparr>ph_id = ''config-protection'', ph_priority = 1, ph_enabled = True,
              ph_check = config_protection_check\<rparr> new_hook_registry)"
    using assms
    by (simp add: shape key_in_def subscript_def dget_def
        load_section_def elements_of_def definition_enabled_def add_loaded_def load_pre_hook_def class_of_definition_def
        load_hook_class_def config_protection_class_def instance_priority_def)
  show "hr_pre (snd (load_hooks_from_config ms (Some shipped_hooks) new_hook_registry)) =
      hr_pre (register_pre_hook \<lparr>ph_id = ''config-protection'', ph_priority = 1, ph_enabled = True,
              ph_check = config_protection_check\<rparr> new_hook_registry)"
    by (simp add: load load_sections_def later_sections_keep_pre pre)
  show "\<not> fst (load_hooks_from_config ms (Some shipped_hooks) new_hook_registry)"
    by (simp only: load load_sections_def pre)
      (simp add: shape load_section_def key_in_def subscript_def dget_def elements_of_def)
qed

lemma registered_pre_hooks:
  "map_of (hr_pre (foldr register_pre_hook hs reg)) i =
     (case find (\<lambda>h. ph_id h = i) hs of Some h \<Rightarrow> Some h | None \<Rightarrow> map_of (hr_pre reg) i)"
  by (induction hs) (auto simp: register_pre_hook_def)

lemma protected_edit_denied:
  "tool \<in> {''edit_file'', ''write_file''} \<Longrightarrow> map_of args ''path'' = Some (JStr p) \<Longrightarrow>
   q \<in> set PROTECTED_CONFIG_PATTERNS \<Longrightarrow> contains (lower q) (lower p) \<Longrightarrow>
     config_protection_check tool args w = CheckDenies (Some (config_denial p))"
  by (cases "p = []") (auto simp: config_protection_check_def list_ex_iff PROTECTED_CONFIG_PATTERNS_def lower_def)

text \<open>
  C40. Loading the shipped configuration, with its hooks before, after and at the end of tool
  calls, succeeds and leaves an edit of a protected file blocked, whatever the other modules it
  names hold and whatever further hooks of other ids are registered, whether or not they answer;
  the module of the protection itself must be there and hold its class.
\<close>

theorem shipped_hooks_protect_config:
  assumes "hm_exists ms (module_file ms ''agents/smith/hooks/config_protection.py'')"
    and "hm_class ms (module_file ms ''agents/smith/hooks/config_protection.py'') ''ConfigProtectionHook''
           = Some (PreClass config_protection_class)"
    and "load_hooks_from_config ms (Some shipped_hooks) new_hook_registry = (failed, reg)"
    and "\<forall>h \<in> set others. ph_id h \<noteq> ''config-protection''"
    and "tool \<in> {''edit_file'', ''write_file''}" "map_of args ''path'' = Some (JStr p)"
    and "q \<in> set PROTECTED_CONFIG_PATTERNS" "contains (lower q) (lower p)"
  shows "\<not> failed \<and> \<not> fst (run_pre_hooks (foldr register_pre_hook others reg) tool args None w)"
proof -
  let ?h = "\<lparr>ph_id = ''config-protection'', ph_priority = 1, ph_enabled = True, ph_check = config_protection_check\<rparr>"
  have loaded: "\<not> failed" "hr_pre reg = hr_pre (register_pre_hook ?h new_hook_registry)"
    using shipped_hooks_load [OF assms(1,2)] assms(3) by simp_all
  have "find (\<lambda>h. ph_id h = ''config-protection'') others = None"
    using assms(4) by (simp add: find_None_iff)
  with loaded(2) have "map_of (hr_pre (foldr register_pre_hook others reg)) ''config-protection'' = Some ?h"
    by (simp add: registered_pre_hooks register_pre_hook_def)
  then have "?h \<in> set (selected_hooks ph_enabled (hr_pre (foldr register_pre_hook others reg)) None)"
    by (force simp: selected_hooks_def dest: map_of_SomeD)
  moreover have "hook_denies tool args w ?h"
    using protected_edit_denied [OF assms(5-8), of w] by (simp add: hook_denies_def)
  ultimately show ?thesis using loaded(1) unfolding run_pre_hooks_allows by blast
qed

definition sample_modules :: "unit hook_modules" where
  "sample_modules = \<lparr>hm_project_root = ''/h'', hm_config_dir = ''/h/agents/smith'', hm_exists = (\<lambda>_. True),
     hm_class = (\<lambda>_ cls. if cls = ''ConfigProtectionHook'' then Some (PreClass config_protection_class) else None)\<rparr>"

definition raising_hook :: "unit pre_hook" where
  "raising_hook = \<lparr>ph_id = ''x'', ph_priority = 0, ph_enabled = True, ph_check = (\<lambda>_ _ _. CheckRaises)\<rparr>"

theorem shipped_hooks_protect_config_witness:
  "\<not> fst (load_hooks_from_config sample_modules (Some shipped_hooks) new_hook_registry)
   \<and> \<not> fst (run_pre_hooks (foldr register_pre_hook [raising_hook]
       (snd (load_hooks_from_config sample_modules (Some shipped_hooks) new_hook_registry)))
       ''edit_file'' [(''path'', JStr ''/p/PyProject.toml'')] None ())"
proof (rule shipped_hooks_protect_config
    [where ms = sample_modules and q = "''pyproject.toml''" and p = "''/p/PyProject.toml''"
      and failed = "fst (load_hooks_from_config sample_modules (Some shipped_hooks) new_hook_registry)"])
  show "contains (lower ''pyproject.toml'') (lower ''/p/PyProject.toml'')" by code_simp
qed (simp_all add: sample_modules_def raising_hook_def PROTECTED_CONFIG_PATTERNS_def)

theorem least_priority_denial_decides_witness:
  "list_ex (hook_denies ''edit_file'' [(''path'', JStr ''/p/mypy.ini'')] ()) (selected_hooks ph_enabled (hr_pre
       (foldr register_pre_hook [raising_hook]
         (snd (load_hooks_from_config sample_modules (Some shipped_hooks) new_hook_registry)))) None)"
proof -
  let ?reg = "foldr register_pre_hook [raising_hook]
    (snd (load_hooks_from_config sample_modules (Some shipped_hooks) new_hook_registry))"
  have run: "run_pre_hooks ?reg ''edit_file'' [(''path'', JStr ''/p/mypy.ini'')] None () =
      (False, Some (''[config-protection] '' @ config_denial ''/p/mypy.ini''))"
    by code_simp
  from least_priority_denial_decides [OF run] show ?thesis by simp
qed

text \<open>A hook of the same id replaces the protection: ids are the keys of the registry.\<close>

lemma same_id_replaces_protection:
  "ph_id h = ph_id g \<Longrightarrow> register_pre_hook h (register_pre_hook g reg) = register_pre_hook h reg"
  by (simp add: register_pre_hook_def)

text \<open>
  The class fixes its priority, so the configured one has no effect, and files that its description
  lists are not protected.
\<close>

lemma configured_priority_ignored:
  assumes "class_of_definition ms d = Some (PreClass config_protection_class)"
  shows "map_option ph_priority (load_pre_hook ms d) = Some 1"
  using assms by (simp add: load_pre_hook_def config_protection_class_def instance_priority_def)

lemma documented_files_unprotected:
  "list_all (\<lambda>p. config_protection_check ''edit_file'' [(''path'', JStr p)] () = CheckAllows)
     [''golangci.yml'', ''.black'', ''.gofmt'']"
  by code_simp

subsection \<open>Engine extensions\<close>

text \<open>Handlers keep the order pre, default, post, and the order of registration within each rank.\<close>

lemma handlers_stay_ordered: "sorted (map enforce_rank (foldr register_handler hs []))"
  by (cases hs) (simp_all add: register_handler_def)

lemma handlers_of_rank_in_order:
  "filter (\<lambda>h. enforce_rank h = r) (foldr register_handler hs []) = filter (\<lambda>h. enforce_rank h = r) (rev hs)"
  by (induction hs) (simp_all add: register_handler_def sort_key_stable)

text \<open>A merge of lists concatenates the answers of the handlers that returned.\<close>

lemma merge_of_lists:
  "apply_merge fs args (JArr xs) =
     JArr (xs @ concat (map (\<lambda>f. case f args of
        None \<Rightarrow> [] | Some v \<Rightarrow> (case v of JNull \<Rightarrow> [] | JArr ys \<Rightarrow> ys | _ \<Rightarrow> [v])) fs))"
  by (induction fs arbitrary: xs)
    (auto simp: apply_merge_def merge_partial_def split: option.splits json.splits)

end
