(* ===== verification/React.thy ===== *)
theory React
  imports Hooks Smith_UI Context_Fit Pipeline Llm_Client Registry
begin

text \<open>
  The state of the model loop (\<^verbatim>\<open>react_event_loop\<close> in \<^verbatim>\<open>engine/execution/react/react_loop.py\<close>), its
  budgets (\<^verbatim>\<open>budget.py\<close>), the prompts it inserts (\<^verbatim>\<open>engine/execution/runtime_control.py\<close>) and the first
  part of an iteration: fitting the request.  What the loop calls of the model, the registry, the
  policy and the approval broker is an interface over a world \<open>'w\<close>.
\<close>

subsection \<open>Budgets and prompts\<close>

definition DEFAULT_MAX_REACT_ITERS :: nat where "DEFAULT_MAX_REACT_ITERS = 60"
definition MAX_FAILED_TOOL_RECOVERY_ITERS :: nat where "MAX_FAILED_TOOL_RECOVERY_ITERS = 20"
definition MAX_PREFLIGHT_CHALLENGE_ITERS :: nat where "MAX_PREFLIGHT_CHALLENGE_ITERS = 20"
definition MAX_INCOMPLETE_FINAL_REPAIRS :: nat where "MAX_INCOMPLETE_FINAL_REPAIRS = 2"
definition INCOMPLETE_FINAL_MAX_CHARS :: nat where "INCOMPLETE_FINAL_MAX_CHARS = 400"
definition MAX_LENGTH_CONTINUATIONS :: nat where "MAX_LENGTH_CONTINUATIONS = 2"
definition MAX_IDENTICAL_TOOL_ERRORS :: nat where "MAX_IDENTICAL_TOOL_ERRORS = 6"
definition MAX_COMPACTION_FAILURES :: nat where "MAX_COMPACTION_FAILURES = 2"
definition REPEATED_SUCCESS_WARN_THRESHOLD :: nat where "REPEATED_SUCCESS_WARN_THRESHOLD = 3"

definition tool_blocked_prompt :: string where
  "tool_blocked_prompt = ''The engine blocked the requested operation. Do not attempt to bypass the block ''
     @ ''or repeat the same side-effecting request. Use a safe alternative, or explain the ''
     @ ''limitation to the user.''"

definition TOOL_FAILURE_HINT :: string where
  "TOOL_FAILURE_HINT = ''Multiple tool calls have failed consecutively. Change your approach - ''
     @ ''try a different tool, simplify the command, or explain what you need without using tools.''"

definition INCOMPLETE_FINAL_AFTER_TOOL_HINT :: string where
  "INCOMPLETE_FINAL_AFTER_TOOL_HINT =
     ''Your last message described a next action instead of completing the user's request. ''
     @ ''Continue now: call the appropriate tool if more evidence is still needed, or provide ''
     @ ''a complete final answer. Do not only say what you will do next.''"

definition CONTINUE_AFTER_LENGTH_HINT :: string where
  "CONTINUE_AFTER_LENGTH_HINT =
     ''Your previous response was cut off by the model output limit. Continue exactly ''
     @ ''from where it stopped. Do not repeat prior text, restart the answer, or mention ''
     @ ''this instruction.''"

definition repeated_success_prompt :: "string \<Rightarrow> nat \<Rightarrow> string" where
  "repeated_success_prompt tool_name calls =
     ''You have already called `'' @ tool_name @ ''` '' @ show_nat calls @ '' times with identical arguments, ''
     @ ''and each call succeeded. An earlier result may have been replaced by a ''
     @ ''`[pruned: ...]` placeholder to save context, but the call did happen. ''
     @ ''Use what you already established instead of repeating it, and only call it ''
     @ ''again if you specifically need to observe a change.''"

definition TOOL_FAILURE_BUDGET_MESSAGE :: string where
  "TOOL_FAILURE_BUDGET_MESSAGE = ''Tool failure recovery budget reached before a final answer.''"

definition PREFLIGHT_BUDGET_MESSAGE :: string where
  "PREFLIGHT_BUDGET_MESSAGE = ''Tool preflight challenge budget reached before an operation could run.''"

definition TOOL_CALL_BUDGET_MESSAGE :: string where
  "TOOL_CALL_BUDGET_MESSAGE = ''Tool-call budget reached before a final answer.''"

definition budget_exhausted_message :: "string \<Rightarrow> string" where
  "budget_exhausted_message why = why @ '' '' @ BUDGET_MESSAGE_SUFFIX"

text \<open>
  The promise of a next action in English; the pattern for Chinese text lies outside the one-byte
  characters of the model.
\<close>

definition incomplete_final_pattern :: pattern where
  "incomplete_final_pattern = cats
     [alts [lit ''let me'', lit ''i'll'', lit ''i will'', lit ''i need to'', lit ''next,'', lit ''next'', lit ''going to''],
      Many (\<lambda>c. c \<noteq> CHR 0x0A) 0 (Some 48),
      alts [lit ''search'', lit ''fetch'', lit ''check'', lit ''open'', lit ''browse'', lit ''look up'', lit ''verify'']]"

definition looks_like_incomplete_final_after_tool :: "string \<Rightarrow> bool" where
  "looks_like_incomplete_final_after_tool t =
     (let normalized = lower (squeeze t)
      in normalized \<noteq> [] \<and> length normalized \<le> INCOMPLETE_FINAL_MAX_CHARS
         \<and> re_search incomplete_final_pattern normalized)"

subsection \<open>The interface of the loop\<close>

datatype loop_exc = LoopLlm llm_exc | LoopGuard guard_exc | LoopExec exec_exc | LoopBroker broker_exc

text \<open>What \<^verbatim>\<open>broker.wait\<close> comes to: the decision, a timeout, or another exception.\<close>

datatype wait_answer = Decided bool | WaitTimeout | WaitRaises loop_exc

text \<open>
  \<open>rc_chat_events\<close> gives the events of the stream and the exception that ended it; an empty
  prefix key is the same as none.  \<open>rc_after_fit\<close> is what the summary call did to the world.
\<close>

record 'w react_env =
  rc_llm :: llm_object
  rc_streams :: bool
  rc_prefix_capable :: bool
  rc_chat :: "conversation \<Rightarrow> jdict list option \<Rightarrow> string option \<Rightarrow> 'w \<Rightarrow> (llm_exc + chat_response) \<times> 'w"
  rc_chat_events :: "conversation \<Rightarrow> jdict list option \<Rightarrow> string option \<Rightarrow> 'w
                     \<Rightarrow> (provider_event list \<times> llm_exc option) \<times> 'w"
  rc_summarize :: "'w \<Rightarrow> conversation \<Rightarrow> llm_exc + summary_result"
  rc_after_fit :: "conversation \<Rightarrow> jdict list option \<Rightarrow> bool \<Rightarrow> 'w \<Rightarrow> 'w"
  rc_uuid :: "'w \<Rightarrow> string \<times> 'w"
  rc_digest :: "string \<Rightarrow> string"
  rc_percent :: "int \<Rightarrow> int \<Rightarrow> int"
  rc_max_iters :: nat
  rc_provisional :: bool
  rc_prefix_key :: "string option"
  rc_lazy :: bool
  rc_schemas :: "string list option \<Rightarrow> 'w \<Rightarrow> jdict list"
  rc_has_tools :: "'w \<Rightarrow> bool"
  rc_unavailable :: "(string \<Rightarrow> 'w \<Rightarrow> string) option"
  rc_normalize :: "full_call \<Rightarrow> 'w \<Rightarrow> loop_exc + full_call"
  rc_description :: "string \<Rightarrow> 'w \<Rightarrow> string"
  rc_execute :: "full_call \<Rightarrow> string option \<Rightarrow> approval_scope option \<Rightarrow> 'w \<Rightarrow> (loop_exc + tool_result) \<times> 'w"
  rc_os :: os_view
  rc_working_dir :: "string option"
  rc_begin_round :: "'w \<Rightarrow> 'w"
  rc_evaluate :: "full_call \<Rightarrow> 'w \<Rightarrow> (loop_exc + decision) \<times> 'w"
  rc_run_id :: "string option"
  rc_open :: "approval_request \<Rightarrow> 'w \<Rightarrow> (loop_exc + approval_request) \<times> 'w"
  rc_wait :: "approval_request \<Rightarrow> 'w \<Rightarrow> wait_answer \<times> 'w"
  rc_hooks :: "'w hook_registry option"

subsection \<open>The state of the loop\<close>

record 'w rstate =
  lp_world :: 'w
  lp_conv :: conversation
  lp_tools :: "jdict list option"
  lp_visible :: "string list"
  lp_errors :: nat
  lp_productive :: nat
  lp_recovery :: nat
  lp_preflight :: nat
  lp_had_tool :: bool
  lp_repairs :: nat
  lp_continuations :: nat
  lp_parts :: "(string \<times> bool) list"
  lp_active :: "string list"
  lp_last_key :: "string option"
  lp_same :: nat
  lp_repeats :: "(string, nat) dict"
  lp_warned :: "string list"
  lp_recoveries :: nat
  lp_compaction_ok :: bool
  lp_compaction_failures :: nat
  lp_round_success :: bool
  lp_round_failure :: bool
  lp_round_preflight :: bool
  lp_out :: "execution_event list"

text \<open>How an iteration ends: with the next one, by returning, or by an exception that leaves the loop.\<close>

datatype 'w step_end = Next "'w rstate" | Return "'w rstate" | Raise loop_exc "'w rstate"

text \<open>A part of an iteration goes on with a value or ends the iteration.\<close>

datatype ('a, 'w) phase = Proceed 'a "'w rstate" | Leave "'w step_end"

definition then_do :: "('a, 'w) phase \<Rightarrow> ('a \<Rightarrow> 'w rstate \<Rightarrow> ('b, 'w) phase) \<Rightarrow> ('b, 'w) phase" where
  "then_do p f = (case p of Proceed x st \<Rightarrow> f x st | Leave s \<Rightarrow> Leave s)"

lemma then_do_simps [simp]:
  "then_do (Proceed x st) f = f x st" "then_do (Leave s) f = Leave s"
  by (simp_all add: then_do_def)

definition finish_with :: "('a, 'w) phase \<Rightarrow> ('a \<Rightarrow> 'w rstate \<Rightarrow> 'w step_end) \<Rightarrow> 'w step_end" where
  "finish_with p f = (case p of Proceed x st \<Rightarrow> f x st | Leave s \<Rightarrow> s)"

lemma finish_with_simps [simp]:
  "finish_with (Proceed x st) f = f x st" "finish_with (Leave s) f = s"
  by (simp_all add: finish_with_def)

definition yield_events :: "execution_event list \<Rightarrow> 'w rstate \<Rightarrow> 'w rstate" where
  "yield_events es st = st\<lparr>lp_out := lp_out st @ es\<rparr>"

definition say :: "message list \<Rightarrow> 'w rstate \<Rightarrow> 'w rstate" where
  "say ms st = st\<lparr>lp_conv := lp_conv st @ ms\<rparr>"

definition system_turn :: "string \<Rightarrow> message" where
  "system_turn t = [(''role'', JStr ''system''), (''content'', JStr t)]"

definition tool_turn :: "string \<Rightarrow> string \<Rightarrow> message" where
  "tool_turn i t = [(''role'', JStr ''tool''), (''tool_call_id'', JStr i), (''content'', JStr t)]"

definition retract_all :: "string \<Rightarrow> 'w rstate \<Rightarrow> 'w rstate" where
  "retract_all why st = (yield_events (map (\<lambda>p. retract p why) (lp_active st)) st)\<lparr>lp_active := []\<rparr>"

definition incomplete :: "jdict \<Rightarrow> execution_event" where
  "incomplete d = ev EV_INCOMPLETE d"

definition answer_text_event :: "string \<Rightarrow> bool \<Rightarrow> execution_event" where
  "answer_text_event t already_streamed =
     ev TEXT_DELTA ((''text'', JStr t) # (if already_streamed then [(''already_streamed'', JBool True)] else []))"

definition budget_text :: "string \<Rightarrow> execution_event" where
  "budget_text why = ev TEXT_DELTA [(''text'', JStr (budget_exhausted_message why))]"

definition repeats_of :: "string \<Rightarrow> 'w rstate \<Rightarrow> nat \<times> 'w rstate" where
  "repeats_of key st =
     (let n = (if lp_last_key st = Some key then lp_same st + 1 else 1)
      in (n, st\<lparr>lp_last_key := Some key, lp_same := n\<rparr>))"

subsection \<open>The tool schemas of a run\<close>

definition TOOL_SCHEMA_LOADER :: string where "TOOL_SCHEMA_LOADER = ''get_tool_schema''"
definition CURRENT_TIME_TOOL :: string where "CURRENT_TIME_TOOL = ''get_current_time''"
definition CURRENT_TIME_TOOL_ACK :: string where
  "CURRENT_TIME_TOOL_ACK = ''Time data was added to the user context.''"

definition tool_schema_loader_definition :: jdict where
  "tool_schema_loader_definition =
     [(''type'', JStr ''function''),
      (''function'', JObj
        [(''name'', JStr TOOL_SCHEMA_LOADER),
         (''description'', JStr (''Load the complete input schema for an available tool before using it. ''
            @ ''Pass the exact tool name from the Available Tools list.'')),
         (''parameters'', JObj
           [(''type'', JStr ''object''),
            (''properties'', JObj [(''name'', JObj
               [(''type'', JStr ''string''), (''description'', JStr ''Exact name of the tool whose schema is needed.'')])]),
            (''required'', JArr [JStr ''name'']),
            (''additionalProperties'', JBool False)])])]"

definition schema_name :: "jdict \<Rightarrow> string option" where
  "schema_name s =
     (case dget s ''function'' of
        JObj f \<Rightarrow> (case dget f ''name'' of JStr n \<Rightarrow> Some n | _ \<Rightarrow> None)
      | _ \<Rightarrow> None)"

definition requested_tool_schema :: "'w react_env \<Rightarrow> jdict \<Rightarrow> 'w \<Rightarrow> string + string \<times> jdict" where
  "requested_tool_schema env arguments w =
     (case dget arguments ''name'' of
        JStr n \<Rightarrow>
          if strip n = [] then Inl ''`name` must be a non-empty tool name.''
          else (case rc_schemas env (Some [strip n]) w of
              [schema] \<Rightarrow>
                (case schema_name schema of
                   Some canonical \<Rightarrow> Inr (canonical, schema)
                 | None \<Rightarrow> Inl (''Tool unavailable: '' @ strip n))
            | _ \<Rightarrow> Inl (''Tool unavailable: '' @ strip n))
      | _ \<Rightarrow> Inl ''`name` must be a non-empty tool name.'')"

definition initial_tools :: "'w react_env \<Rightarrow> 'w \<Rightarrow> jdict list option" where
  "initial_tools env w =
     (if rc_lazy env then (if rc_has_tools env w then Some [tool_schema_loader_definition] else None)
      else (case rc_schemas env None w of [] \<Rightarrow> None | ts \<Rightarrow> Some ts))"

definition react_start :: "'w react_env \<Rightarrow> conversation \<Rightarrow> 'w \<Rightarrow> 'w rstate" where
  "react_start env messages w =
     (let tools = initial_tools env w in
      \<lparr>lp_world = w, lp_conv = messages, lp_tools = tools,
       lp_visible = remdups (List.map_filter schema_name (tool_list tools)),
       lp_errors = 0, lp_productive = 0, lp_recovery = 0, lp_preflight = 0, lp_had_tool = False, lp_repairs = 0,
       lp_continuations = 0, lp_parts = [], lp_active = [], lp_last_key = None, lp_same = 0, lp_repeats = [],
       lp_warned = [], lp_recoveries = 0, lp_compaction_ok = True, lp_compaction_failures = 0,
       lp_round_success = False, lp_round_failure = False, lp_round_preflight = False, lp_out = []\<rparr>)"

subsection \<open>Fitting the request\<close>

fun fit_status_value :: "fit_status \<Rightarrow> string" where
  "fit_status_value FIT = ''fit''"
| "fit_status_value COMPACTED = ''compacted''"
| "fit_status_value RECOVERED = ''recovered''"
| "fit_status_value UNFIT_REQUEST = ''unfit_request''"
| "fit_status_value UNFIT_STATIC_PROMPT = ''unfit_static_prompt''"
| "fit_status_value UNFIT_TOOL_SCHEMAS = ''unfit_tool_schemas''"

text \<open>The percentage is a rounded float, so a function of the two numbers it divides.\<close>

definition context_usage_event ::
    "'w react_env \<Rightarrow> context_receipt \<Rightarrow> int option \<Rightarrow> fit_status \<Rightarrow> string list \<Rightarrow> execution_event" where
  "context_usage_event env receipt input_tokens fitted actions =
     (let estimated = (case input_tokens of None \<Rightarrow> True | Some n \<Rightarrow> n \<le> 0);
          budget = receipt_budget receipt;
          context_tokens = (case input_tokens of Some n \<Rightarrow> if estimated then input_of receipt else n | None \<Rightarrow> input_of receipt)
      in ev CONTEXT_USAGE
        [(''context_tokens'', JInt context_tokens), (''context_window'', JInt (model_context_window budget)),
         (''context_percent'', JInt (rc_percent env (min context_tokens (safe_input_budget budget)) (safe_input_budget budget))),
         (''estimated'', JBool estimated), (''message_tokens'', JInt (int (message_tokens receipt))),
         (''tool_schema_tokens'', JInt (int (tool_schema_tokens receipt))),
         (''protocol_tokens'', JInt (int (protocol_tokens receipt))),
         (''effective_context_window'', JInt (effective_context_window budget)),
         (''safe_input_budget'', JInt (safe_input_budget budget)), (''output_reserve'', JInt (output_reserve budget)),
         (''safety_margin'', JInt (safety_margin budget)), (''window_declared'', JBool (window_declared budget)),
         (''output_limit_declared'', JBool (output_limit_declared budget)),
         (''fit_status'', JStr (fit_status_value fitted)), (''actions'', JArr (map JStr actions))])"

text \<open>Two failed compactions disable the next ones.\<close>

definition count_compaction :: "string list \<Rightarrow> 'w rstate \<Rightarrow> 'w rstate" where
  "count_compaction actions st =
     (if list_ex (\<lambda>a. a \<in> {''compaction_failed'', ''compaction_rejected''}) actions
      then st\<lparr>lp_compaction_failures := lp_compaction_failures st + 1,
              lp_compaction_ok := lp_compaction_failures st + 1 < MAX_COMPACTION_FAILURES\<rparr>
      else st)"

definition capacity_exhausted :: "context_fit_result \<Rightarrow> execution_event" where
  "capacity_exhausted fit =
     (let budget = receipt_budget (fit_receipt fit) in
      incomplete [(''reason'', JStr ''context_capacity_exhausted''), (''fit_status'', JStr (fit_status_value (fit_status fit))),
        (''estimated_input_tokens'', JInt (input_of (fit_receipt fit))), (''safe_input_budget'', JInt (safe_input_budget budget)),
        (''model_context_window'', JInt (model_context_window budget)), (''output_reserve'', JInt (output_reserve budget)),
        (''actions'', JArr (map JStr (fit_actions fit)))])"

definition compression_start :: execution_event where "compression_start = ev CONTEXT_COMPRESSION_START []"
definition compression_end :: execution_event where "compression_end = ev CONTEXT_COMPRESSION_END []"

definition fit_step :: "'w react_env \<Rightarrow> 'w rstate \<Rightarrow> context_fit_result \<times> 'w rstate" where
  "fit_step env st0 =
     (let st = st0\<lparr>lp_conv := trim_conversation_to_message_cap (lp_conv st0)\<rparr>;
          pre = measure_request (lp_conv st) (lp_tools st) (rc_llm env);
          started = compaction_trigger (receipt_budget pre) \<le> int (message_tokens pre);
          fit = fit_request (rc_summarize env (lp_world st)) (lp_conv st) (lp_tools st) (rc_llm env)
                  (rc_prefix_key env) (lp_compaction_ok st);
          changed = (fit_messages fit \<noteq> lp_conv st);
          st1 = count_compaction (fit_actions fit)
                  (st\<lparr>lp_world := rc_after_fit env (lp_conv st) (lp_tools st) (lp_compaction_ok st) (lp_world st),
                     lp_conv := fit_messages fit, lp_tools := fit_tools fit\<rparr>)
      in (fit, yield_events ((if started \<or> changed then [compression_start, compression_end] else [])
                     @ [context_usage_event env (fit_receipt fit) None (fit_status fit) (fit_actions fit)]) st1))"

definition prepare_request :: "'w react_env \<Rightarrow> 'w rstate \<Rightarrow> (context_fit_result, 'w) phase" where
  "prepare_request env st0 =
     (case fit_step env st0 of (fit, st) \<Rightarrow>
        if \<not> fits fit
        then Leave (Return (yield_events [capacity_exhausted fit] (retract_all ''context_capacity_exhausted'' st)))
        else Proceed fit (yield_events [ev THINKING []] st))"

definition provider_prefix_key :: "'w react_env \<Rightarrow> context_fit_result \<Rightarrow> string option" where
  "provider_prefix_key env fit =
     (if rc_prefix_capable env
      then (case fit_prefix_cache_key fit of Some (c # cs) \<Rightarrow> Some (c # cs) | _ \<Rightarrow> None) else None)"

end
