(* ===== verification/React_Reply.thy ===== *)
theory React_Reply
  imports React
begin

text \<open>
  One reply of the model in \<^verbatim>\<open>react_event_loop\<close>: the streamed and the plain request with the recovery
  from a refused context, the accounting events, and the end of a turn without tool calls.
\<close>

subsection \<open>A refused context\<close>

definition is_context_limit_error :: "llm_exc \<Rightarrow> bool" where
  "is_context_limit_error e \<longleftrightarrow>
     (case e of ContextLengthError _ _ _ \<Rightarrow> True | _ \<Rightarrow> is_response_error e \<and> mentions_context_limit (exc_text e))"

text \<open>\<^verbatim>\<open>int(input_budget * 0.65)\<close> for the budgets that occur, which are below \<open>2 ^ 17\<close>.\<close>

definition recover_context :: "'w react_env \<Rightarrow> conversation \<Rightarrow> conversation" where
  "recover_context env conv =
     trim_conversation_for_context_limit conv
       (max 1 (safe_input_budget (context_budget_for (model_limits_for (rc_llm env))) * 13 div 20))"

text \<open>The first refusal shortens the conversation, the second ends the run.\<close>

definition context_refused :: "'w react_env \<Rightarrow> 'w rstate \<Rightarrow> 'w step_end" where
  "context_refused env st =
     (if 1 \<le> lp_recoveries st
      then Return (yield_events [incomplete [(''reason'', JStr ''context_limit''), (''recoveries'', JInt (int (lp_recoveries st)))]] st)
      else Next (yield_events [compression_start, compression_end]
                  (st\<lparr>lp_recoveries := lp_recoveries st + 1, lp_conv := recover_context env (lp_conv st)\<rparr>)))"

subsection \<open>The plain request\<close>

definition ask_plain :: "'w react_env \<Rightarrow> string option \<Rightarrow> 'w rstate \<Rightarrow> (chat_response \<times> bool, 'w) phase" where
  "ask_plain env key st0 =
     (case rc_chat env (lp_conv st0) (lp_tools st0) key (lp_world st0) of (answer, w) \<Rightarrow>
        let st = st0\<lparr>lp_world := w\<rparr> in
        case answer of
          Inr r \<Rightarrow> Proceed (r, False) st
        | Inl e \<Rightarrow> Leave (if is_context_limit_error e then context_refused env st else Raise (LoopLlm e) st))"

subsection \<open>The streamed request\<close>

fun provider_event_value :: "provider_event_type \<Rightarrow> string" where
  "provider_event_value ResponseCreated = ''response.created''"
| "provider_event_value OutputTextDelta = ''response.output_text.delta''"
| "provider_event_value ReasoningDelta = ''response.reasoning.delta''"
| "provider_event_value FunctionCallArgumentsDelta = ''response.function_call_arguments.delta''"
| "provider_event_value UsageReported = ''response.usage''"
| "provider_event_value ResponseCompleted = ''response.completed''"

definition raw_response_event :: "provider_event \<Rightarrow> string option \<Rightarrow> execution_event" where
  "raw_response_event e pid =
     ev RAW_RESPONSE_EVENT
       ([(''type'', JStr (provider_event_value (pe_type e))), (''data'', JObj (pe_data e))]
        @ (case pid of Some (c # cs) \<Rightarrow> [(''provision_id'', JStr (c # cs))] | _ \<Rightarrow> []))"

definition provisional_text :: "string \<Rightarrow> string \<Rightarrow> execution_event" where
  "provisional_text pid t = ev PROVISIONAL_TEXT_DELTA [(''provision_id'', JStr pid), (''text'', JStr t)]"

definition show_draft :: "string \<Rightarrow> string \<Rightarrow> 'w rstate \<Rightarrow> 'w rstate" where
  "show_draft pid t st =
     yield_events [provisional_text pid t]
       (st\<lparr>lp_active := (if pid \<in> set (lp_active st) then lp_active st else lp_active st @ [pid])\<rparr>)"

definition shown_delta :: "string option \<Rightarrow> provider_event \<Rightarrow> (string \<times> string) option" where
  "shown_delta pid e =
     (case (pid, pe_type e, nonempty_str (dget (pe_data e) ''delta'')) of
        (Some (c # cs), OutputTextDelta, Some t) \<Rightarrow> Some (c # cs, t) | _ \<Rightarrow> None)"

definition semantic_delta :: "provider_event \<Rightarrow> bool" where
  "semantic_delta e \<longleftrightarrow> pe_type e \<in> {OutputTextDelta, ReasoningDelta, FunctionCallArgumentsDelta}"

definition stream_event :: "string option \<Rightarrow> provider_event \<Rightarrow> 'w rstate \<Rightarrow> 'w rstate" where
  "stream_event pid e st0 =
     (let st = yield_events [raw_response_event e (if pe_type e = OutputTextDelta then pid else None)] st0
      in case shown_delta pid e of Some (p, t) \<Rightarrow> show_draft p t st | None \<Rightarrow> st)"

definition stream_events :: "string option \<Rightarrow> provider_event list \<Rightarrow> 'w rstate \<Rightarrow> 'w rstate" where
  "stream_events pid es st = foldl (\<lambda>st e. stream_event pid e st) st es"

text \<open>An exception of the stream: recovery, a raise once something was shown, or the plain request.\<close>

definition stream_failed ::
    "'w react_env \<Rightarrow> string option \<Rightarrow> llm_exc \<Rightarrow> bool \<Rightarrow> 'w rstate \<Rightarrow> (chat_response \<times> bool, 'w) phase" where
  "stream_failed env key e saw_content st =
     (if is_context_limit_error e then Leave (context_refused env (retract_all ''context_limit'' st))
      else if saw_content \<or> lp_active st \<noteq> [] then Leave (Raise (LoopLlm e) (retract_all ''stream_error'' st))
      else ask_plain env key st)"

definition ask_stream :: "'w react_env \<Rightarrow> string option \<Rightarrow> 'w rstate \<Rightarrow> (chat_response \<times> bool, 'w) phase" where
  "ask_stream env key st0 =
     (let (pid, w1) = (if rc_provisional env then map_prod Some id (rc_uuid env (lp_world st0)) else (None, lp_world st0));
          ((es, failure), w2) = rc_chat_events env (lp_conv st0) (lp_tools st0) key w1;
          st = stream_events pid es (st0\<lparr>lp_world := w2\<rparr>);
          ac = foldl accumulate new_accumulator es
      in case failure of
        Some e \<Rightarrow> stream_failed env key e (list_ex semantic_delta es) st
      | None \<Rightarrow>
          (case build_response ac of
             Inl e \<Rightarrow> Leave (Raise (LoopLlm e) (retract_all ''stream_error'' st))
           | Inr r \<Rightarrow> Proceed (r, ac_streamed_text ac) st))"

definition ask_model :: "'w react_env \<Rightarrow> context_fit_result \<Rightarrow> 'w rstate \<Rightarrow> (chat_response \<times> bool, 'w) phase" where
  "ask_model env fit st =
     (let key = provider_prefix_key env fit
      in if rc_streams env then ask_stream env key st else ask_plain env key st)"

subsection \<open>Accounting\<close>

text \<open>Zero counts are left out but for the three totals; a usage without any number counts as absent.\<close>

definition usage_event_data :: "jdict option \<Rightarrow> int_exc + (string, int) dict option" where
  "usage_event_data usage =
     bind_res (normalize_usage (case usage of None \<Rightarrow> JNull | Some u \<Rightarrow> JObj u)) (\<lambda>normalized.
       Inr (if \<not> list_ex (\<lambda>(k, v). v \<noteq> 0) normalized then None
            else Some (filter (\<lambda>(k, v). v \<noteq> 0 \<or> k \<in> {''input_tokens'', ''output_tokens'', ''total_tokens''}) normalized)))"

definition estimated_usage :: "context_receipt \<Rightarrow> chat_response \<Rightarrow> (string, json) dict" where
  "estimated_usage receipt r =
     (let output_text = rs_text r @ rs_reasoning r
            @ concat (map (\<lambda>c. dumps_default (JObj (tcd_arguments c))) (rs_tool_calls r));
          output_tokens = int (estimate_tokens output_text)
      in [(''input_tokens'', JInt (input_of receipt)), (''output_tokens'', JInt output_tokens),
          (''total_tokens'', JInt (input_of receipt + output_tokens)), (USAGE_REPORTED_KEY, JInt 0),
          (''estimated'', JBool True)])"

text \<open>The reported number of input tokens, if the provider gave one.\<close>

definition reported_input :: "(string, int) dict option \<Rightarrow> int option" where
  "reported_input usage =
     (case usage of
        None \<Rightarrow> None
      | Some u \<Rightarrow> (case map_of u USAGE_REPORTED_KEY of
                     None \<Rightarrow> None | Some n \<Rightarrow> if n = 0 then None else map_of u ''input_tokens''))"

definition thought_of :: "chat_response \<Rightarrow> string" where
  "thought_of r =
     strip (if rs_reasoning r \<noteq> [] then rs_reasoning r else if rs_tool_calls r \<noteq> [] then rs_text r else [])"

definition report :: "'w react_env \<Rightarrow> context_fit_result \<Rightarrow> chat_response \<Rightarrow> 'w rstate \<Rightarrow> (unit, 'w) phase" where
  "report env fit r st =
     (case usage_event_data (rs_usage r) of
        Inl e \<Rightarrow> Leave (Raise (LoopLlm (UsageError e)) st)
      | Inr usage \<Rightarrow>
          Proceed () (yield_events
            ([ev TOKEN_USAGE (case usage of
                 Some u \<Rightarrow> map (\<lambda>(k, v). (k, JInt v)) u | None \<Rightarrow> estimated_usage (fit_receipt fit) r),
              context_usage_event env (fit_receipt fit) (reported_input usage) (fit_status fit) (fit_actions fit)]
             @ (if thought_of r = [] then []
                else [ev THINKING [(''text'', JStr (thought_of r)), (''done'', JBool True)]])) st))"

subsection \<open>The text of a turn\<close>

definition assistant_turn :: "string \<Rightarrow> string \<Rightarrow> message" where
  "assistant_turn t reasoning =
     [(''role'', JStr ''assistant''), (''content'', JStr t)]
     @ (if reasoning = [] then [] else [(''reasoning_content'', JStr reasoning)])"

definition final_text_delivery :: "(string \<times> bool) list \<Rightarrow> string \<times> bool" where
  "final_text_delivery fragments = (concat (map fst fragments), fragments \<noteq> [] \<and> list_all snd fragments)"

definition commit_draft :: "string \<Rightarrow> execution_event" where
  "commit_draft pid = ev PROVISIONAL_COMMIT [(''provision_id'', JStr pid)]"

definition final_text_events :: "string \<Rightarrow> bool \<Rightarrow> string list \<Rightarrow> execution_event list" where
  "final_text_events final_text streamed pids =
     map (\<lambda>p. if streamed then commit_draft p else retract p ''unstreamed_fragment_pending'') pids
     @ [answer_text_event final_text streamed]"

definition deliver_text :: "'w rstate \<Rightarrow> 'w rstate" where
  "deliver_text st =
     (case final_text_delivery (lp_parts st) of (t, streamed) \<Rightarrow>
        if t = [] then st else (yield_events (final_text_events t streamed (lp_active st)) st)\<lparr>lp_active := []\<rparr>)"

text \<open>A refused or unknown end: the drafts are taken back, or text that was never a draft is sent.\<close>

definition withdraw_text :: "string \<Rightarrow> 'w rstate \<Rightarrow> 'w rstate" where
  "withdraw_text why st =
     (if lp_active st \<noteq> [] then retract_all why st
      else case final_text_delivery (lp_parts st) of (t, streamed) \<Rightarrow>
        if t = [] then st else yield_events [answer_text_event t streamed] st)"

definition unknown_finish :: "chat_response \<Rightarrow> execution_event" where
  "unknown_finish r = incomplete [(''reason'', JStr ''unknown_provider_finish_reason''),
                                  (''raw_finish_reason'', jopt (rs_raw_finish_reason r))]"

definition provider_failed :: execution_event where
  "provider_failed = ev EV_FAILED [(''reason'', JStr ''provider_finish_error'')]"

definition output_limit :: "nat \<Rightarrow> bool \<Rightarrow> execution_event" where
  "output_limit continuations in_call =
     incomplete ((''reason'', JStr ''model_output_limit'')
       # (if in_call then [(''phase'', JStr ''tool_call'')] else [])
       @ [(''continuations'', JInt (int continuations))])"

definition should_repair :: "string \<Rightarrow> 'w rstate \<Rightarrow> bool" where
  "should_repair t st \<longleftrightarrow>
     lp_had_tool st \<and> lp_repairs st < MAX_INCOMPLETE_FINAL_REPAIRS \<and> looks_like_incomplete_final_after_tool t"

definition length_limited :: "chat_response \<Rightarrow> 'w rstate \<Rightarrow> 'w step_end" where
  "length_limited r st =
     (if lp_continuations st < MAX_LENGTH_CONTINUATIONS
      then Next (say [assistant_turn (rs_text r) (rs_reasoning r), system_turn CONTINUE_AFTER_LENGTH_HINT]
                  (st\<lparr>lp_continuations := lp_continuations st + 1\<rparr>))
      else Return (yield_events [output_limit (lp_continuations st) False] (deliver_text st)))"

definition complete_text :: "chat_response \<Rightarrow> 'w rstate \<Rightarrow> 'w step_end" where
  "complete_text r st =
     (let t = fst (final_text_delivery (lp_parts st)) in
      if should_repair t st
      then Next (say [assistant_turn (rs_text r) (rs_reasoning r), system_turn INCOMPLETE_FINAL_AFTER_TOOL_HINT]
                  ((retract_all ''incomplete_final_repair'' st)\<lparr>lp_repairs := lp_repairs st + 1, lp_parts := []\<rparr>))
      else if t \<noteq> [] then Return (deliver_text st)
      else Return (yield_events [incomplete [(''reason'', JStr ''empty_model_response'')]] st))"

definition finish_text :: "chat_response \<Rightarrow> bool \<Rightarrow> 'w rstate \<Rightarrow> 'w step_end" where
  "finish_text r streamed st0 =
     (let st = (if rs_text r = [] then st0 else st0\<lparr>lp_parts := lp_parts st0 @ [(rs_text r, streamed)]\<rparr>);
          finish = rs_finish_reason r
      in if finish = Some ''length'' then length_limited r st
         else if finish = Some ''content_filter''
         then Return (yield_events [incomplete [(''reason'', JStr ''content_filter'')]] (withdraw_text ''content_filter'' st))
         else if finish = Some ''error''
         then Return (yield_events [provider_failed] (retract_all ''provider_finish_error'' st))
         else if finish = Some ''other''
         then Return (yield_events [unknown_finish r] (withdraw_text ''unknown_provider_finish_reason'' st))
         else complete_text r st)"

text \<open>A reply with tool calls takes back the drafts; one that did not end well runs none of them.\<close>

definition drop_drafts :: "'w rstate \<Rightarrow> 'w rstate" where
  "drop_drafts st = (retract_all ''tool_call_pending'' st)\<lparr>lp_parts := []\<rparr>"

definition cut_calls :: "chat_response \<Rightarrow> 'w rstate \<Rightarrow> 'w step_end option" where
  "cut_calls r st =
     (let told = (if rs_text r = [] then st else yield_events [answer_text_event (rs_text r) False] st);
          finish = rs_finish_reason r
      in if finish = Some ''length'' then Some (Return (yield_events [output_limit (lp_continuations st) True] told))
         else if finish = Some ''error'' then Some (Return (yield_events [provider_failed] told))
         else if finish = Some ''content_filter''
         then Some (Return (yield_events [incomplete [(''reason'', JStr ''content_filter''),
                                              (''raw_finish_reason'', jopt (rs_raw_finish_reason r))]] told))
         else if finish = Some ''other'' then Some (Return (yield_events [unknown_finish r] told))
         else None)"

end
