(* ===== verification/React_Tools.thy ===== *)
theory React_Tools
  imports React_Reply
begin

text \<open>
  The tool calls of one reply in \<^verbatim>\<open>react_event_loop\<close>: loading a schema, rendering an interface, the
  refusals, approval, hooks, execution, and the accounting of the round.  A stage answers with the
  permit to go on or with none, when the call has been answered and the next one is due.
\<close>

definition call_start :: "string \<Rightarrow> string \<Rightarrow> jdict \<Rightarrow> execution_event" where
  "call_start name i arguments =
     ev TOOL_CALL_START [(''name'', JStr name), (''id'', JStr i), (''arguments'', JObj arguments)]"

definition result_flags :: "string \<Rightarrow> bool \<Rightarrow> bool \<Rightarrow> bool \<Rightarrow> jdict" where
  "result_flags i failed withheld preflight =
     [(''id'', JStr i), (''error'', JBool failed), (''blocked'', JBool withheld), (''preflight'', JBool preflight)]"

definition note_failure :: "'w rstate \<Rightarrow> 'w rstate" where
  "note_failure st = st\<lparr>lp_round_failure := True, lp_errors := lp_errors st + 1\<rparr>"

text \<open>Six rounds that end in the same refusal end the run.\<close>

definition breaker :: "string \<Rightarrow> 'w rstate \<Rightarrow> (unit, 'w) phase" where
  "breaker key st0 =
     (case repeats_of key st0 of (n, st) \<Rightarrow>
        if MAX_IDENTICAL_TOOL_ERRORS \<le> n
        then Leave (Return (yield_events [budget_text TOOL_FAILURE_BUDGET_MESSAGE,
                                  incomplete [(''reason'', JStr ''identical_tool_error_loop'')]] st))
        else Proceed () st)"

definition failure_hint :: "'w rstate \<Rightarrow> 'w rstate" where
  "failure_hint st =
     (if 3 \<le> lp_errors st then (say [system_turn TOOL_FAILURE_HINT] st)\<lparr>lp_errors := 0\<rparr> else st)"

subsection \<open>Loading a schema\<close>

definition unexecuted_fields :: "string \<Rightarrow> string option \<Rightarrow> jdict" where
  "unexecuted_fields content kind =
     [(''content'', JStr (take 200 content)), (''error_kind'', jopt kind), (''retryable'', JBool False),
      (''timed_out'', JBool False), (''side_effect_status'', JStr ''none''), (''metadata'', JObj [])]"

definition show_tool :: "string \<Rightarrow> 'w rstate \<Rightarrow> 'w rstate" where
  "show_tool n st = st\<lparr>lp_visible := List.insert n (lp_visible st)\<rparr>"

definition add_schema :: "string \<Rightarrow> jdict \<Rightarrow> 'w rstate \<Rightarrow> 'w rstate" where
  "add_schema n schema st =
     st\<lparr>lp_tools := (case lp_tools st of
        None \<Rightarrow> Some [tool_schema_loader_definition, schema]
      | Some ts \<Rightarrow> Some (if list_ex (\<lambda>t. schema_name t = Some n) ts then ts else ts @ [schema]))\<rparr>"

definition load_schema :: "'w react_env \<Rightarrow> tool_call_data \<Rightarrow> 'w rstate \<Rightarrow> 'w rstate" where
  "load_schema env tc st =
     (let answer = requested_tool_schema env (tcd_arguments tc) (lp_world st);
          content = (case answer of Inl e \<Rightarrow> ''Error: '' @ e | Inr (n, schema) \<Rightarrow> dumps_default (canon (JObj schema)));
          failed = (case answer of Inl _ \<Rightarrow> True | Inr _ \<Rightarrow> False);
          st1 = yield_events [call_start (tcd_name tc) (tcd_id tc) (tcd_arguments tc),
                      ev TOOL_CALL_RESULT ([(''id'', JStr (tcd_id tc)), (''name'', JStr (tcd_name tc)), (''error'', JBool failed),
                         (''blocked'', JBool False), (''preflight'', JBool False)]
                         @ unexecuted_fields content (if failed then Some ''tool_unavailable'' else None))]
                  (say [tool_turn (tcd_id tc) content] st)
      in case answer of
           Inl _ \<Rightarrow> note_failure st1
         | Inr (n, schema) \<Rightarrow> (add_schema n schema (show_tool n st1))\<lparr>lp_round_success := True, lp_errors := 0\<rparr>)"

text \<open>A call of a tool whose schema was not loaded loads it on the way.\<close>

definition complete_handshake :: "'w react_env \<Rightarrow> full_call \<Rightarrow> 'w rstate \<Rightarrow> 'w rstate" where
  "complete_handshake env call st =
     (if rc_lazy env \<and> call_name call \<notin> set (lp_visible st)
      then (case requested_tool_schema env [(''name'', JStr (call_name call))] (lp_world st) of
          Inl _ \<Rightarrow> st
        | Inr (n, schema) \<Rightarrow> (show_tool n st)\<lparr>lp_tools := Some (tool_list (lp_tools st) @ [schema])\<rparr>)
      else st)"

subsection \<open>Rendering an interface\<close>

definition ui_disabled :: "tool_call_data \<Rightarrow> full_call \<Rightarrow> 'w rstate \<Rightarrow> 'w rstate" where
  "ui_disabled tc call st =
     note_failure (yield_events [call_start (call_name call) (tcd_id tc) (call_arguments call),
       ev TOOL_CALL_RESULT (result_flags (tcd_id tc) True False False
         @ [(''content'', JStr ''render_ui is disabled for this agent'')])]
       (say [tool_turn (call_id call) ''Error: render_ui is disabled for this agent''] st))"

definition ui_refused :: "tool_call_data \<Rightarrow> full_call \<Rightarrow> decision \<Rightarrow> 'w rstate \<Rightarrow> 'w rstate" where
  "ui_refused tc call d st =
     note_failure (yield_events [call_start (call_name call) (tcd_id tc) (call_arguments call),
       ev TOOL_CALL_RESULT (result_flags (tcd_id tc) False True False @ [(''reason'', JStr (dec_reason d))])]
       (say [tool_turn (call_id call) (observation d)] st))"

definition ui_invalid :: "full_call \<Rightarrow> string \<Rightarrow> 'w rstate \<Rightarrow> 'w rstate" where
  "ui_invalid call why st =
     note_failure (yield_events [ev SMITH_UI_FALLBACK (smith_ui_fallback (call_arguments call) why)]
       (say [tool_turn (call_id call) (''Error: '' @ why)] st))"

definition forget_failures :: "'w rstate \<Rightarrow> 'w rstate" where
  "forget_failures st =
     st\<lparr>lp_round_success := True, lp_had_tool := True, lp_errors := 0, lp_last_key := None, lp_same := 0\<rparr>"

definition ui_rendered :: "full_call \<Rightarrow> jdict \<Rightarrow> 'w rstate \<Rightarrow> 'w rstate" where
  "ui_rendered call payload st =
     forget_failures (yield_events [ev SMITH_UI payload]
       (say [tool_turn (call_id call) ''Smith UI rendered successfully. Do not repeat its contents as raw JSON.''] st))"

definition render_ui :: "'w react_env \<Rightarrow> tool_call_data \<Rightarrow> full_call \<Rightarrow> 'w rstate \<Rightarrow> (unit, 'w) phase" where
  "render_ui env tc call st0 =
     (if call_name call \<notin> set (lp_visible st0) then Proceed () (ui_disabled tc call st0)
      else case rc_evaluate env call (lp_world st0) of (answer, w) \<Rightarrow>
        let st = st0\<lparr>lp_world := w\<rparr> in
        case answer of
          Inl e \<Rightarrow> Leave (Raise e st)
        | Inr d \<Rightarrow>
            if \<not> allowed d then Proceed () (ui_refused tc call d st)
            else (case validate_smith_ui_call (rc_os env) (rc_working_dir env) (call_arguments call) of
                UiRaises e \<Rightarrow> Leave (Raise (LoopGuard e) st)
              | UiReject why \<Rightarrow> Proceed () (ui_invalid call (if why = [] then ''Invalid smith-ui payload'' else why) st)
              | UiOk payload \<Rightarrow> Proceed () (ui_rendered call payload st)))"

subsection \<open>Tools that are not available\<close>

definition refuse_unavailable :: "'w react_env \<Rightarrow> tool_call_data \<Rightarrow> full_call \<Rightarrow> 'w rstate \<Rightarrow> (unit, 'w) phase" where
  "refuse_unavailable env tc call st =
     (let content = (case rc_unavailable env of
            Some f \<Rightarrow> f (call_name call) (lp_world st) | None \<Rightarrow> ''Tool disabled: '' @ call_name call);
          st1 = note_failure (yield_events [call_start (tcd_name tc) (tcd_id tc) (call_arguments call),
                  ev TOOL_CALL_RESULT (result_flags (tcd_id tc) True False False
                    @ unexecuted_fields content (Some ''tool_disabled''))]
                  (say [tool_turn (call_id call) content] st))
      in then_do (breaker (tcd_name tc @ '':'' @ take 120 content) st1) (\<lambda>_ st. Proceed () (failure_hint st)))"

subsection \<open>Policy and approval\<close>

type_synonym call_permit = "string option \<times> approval_scope option"

definition challenge_call :: "tool_call_data \<Rightarrow> full_call \<Rightarrow> decision \<Rightarrow> 'w rstate \<Rightarrow> 'w rstate" where
  "challenge_call tc call d st =
     (yield_events [ev TOOL_CALL_RESULT (result_flags (tcd_id tc) False False True
              @ [(''reason'', JStr (dec_reason d)), (''level'', JStr (level_value (dec_level d)))])]
       (say [tool_turn (call_id call) (observation d)] st))\<lparr>lp_round_preflight := True\<rparr>"

definition block_call :: "tool_call_data \<Rightarrow> full_call \<Rightarrow> decision \<Rightarrow> 'w rstate \<Rightarrow> 'w rstate" where
  "block_call tc call d st =
     failure_hint (note_failure
       (yield_events [ev TOOL_CALL_RESULT (result_flags (tcd_id tc) False True False
                @ [(''reason'', JStr (dec_reason d)), (''level'', JStr (level_value (dec_level d))),
                   (''needs_confirmation'', JBool (needs_confirmation d)), (''risk'', JStr (risk_value (dec_risk d)))])]
         (say [tool_turn (call_id call) (observation d), system_turn tool_blocked_prompt] st)))"

text \<open>Without a broker a call that needs approval is blocked, and the failure hint is not considered.\<close>

definition block_unapproved :: "tool_call_data \<Rightarrow> full_call \<Rightarrow> decision \<Rightarrow> 'w rstate \<Rightarrow> 'w rstate" where
  "block_unapproved tc call d st =
     note_failure
       (yield_events [ev TOOL_CALL_RESULT (result_flags (tcd_id tc) False True False
                @ [(''reason'', JStr ''Approval broker unavailable''), (''level'', JStr (level_value (dec_level d))),
                   (''needs_confirmation'', JBool True), (''risk'', JStr (risk_value (dec_risk d)))])]
         (say [tool_turn (call_id call) (observation d), system_turn tool_blocked_prompt] st))"

definition approval_request_for ::
    "'w react_env \<Rightarrow> string \<Rightarrow> string \<Rightarrow> full_call \<Rightarrow> decision \<Rightarrow> 'w \<Rightarrow> approval_request" where
  "approval_request_for env rid aid call d w =
     (let args_summary = summarize_arguments (call_arguments call) in
      \<lparr>req_approval_id = aid, req_run_id = rid, req_tool_name = call_name call,
       req_level = level_value (dec_level d), req_reason = dec_reason d, req_arguments = args_summary,
       req_scope = dec_scope d,
       req_presentation = Some (build_approval_presentation (call_name call) (dec_reason d) args_summary
                                  (rc_description env (call_name call) w) (dec_scope d)),
       req_risk = Some (dec_risk d)\<rparr>)"

definition approval_event :: "tool_call_data \<Rightarrow> approval_presentation option \<Rightarrow> approval_request \<Rightarrow> execution_event" where
  "approval_event tc presented q =
     ev TOOL_CALL_RESULT (result_flags (tcd_id tc) False True False
       @ [(''reason'', JStr (req_reason q)), (''level'', JStr (req_level q)), (''needs_confirmation'', JBool True),
          (''approval_required'', JBool True), (''approval_id'', JStr (req_approval_id q)),
          (''tool'', JStr (req_tool_name q)), (''arguments'', JObj (req_arguments q)),
          (''risk'', jopt (map_option risk_value (req_risk q))),
          (''presentation'', case presented of None \<Rightarrow> JNull | Some p \<Rightarrow> JObj (presentation_to_dict p)),
          (''scope'', case req_scope q of None \<Rightarrow> JNull | Some s \<Rightarrow> JObj (scope_to_dict s))])"

definition approval_refused ::
    "tool_call_data \<Rightarrow> full_call \<Rightarrow> decision \<Rightarrow> approval_request \<Rightarrow> string \<Rightarrow> string \<Rightarrow> 'w rstate
     \<Rightarrow> (call_permit option, 'w) phase" where
  "approval_refused tc call d q denial outcome st =
     (let st1 = note_failure
        (yield_events [ev TOOL_CALL_RESULT (result_flags (tcd_id tc) False True False
                 @ [(''reason'', JStr denial), (''level'', JStr (level_value (dec_level d))),
                    (''needs_confirmation'', JBool False), (''approval_id'', JStr (req_approval_id q)),
                    (''approval_outcome'', JStr outcome), (''risk'', JStr (risk_value (dec_risk d)))])]
          (say [tool_turn (call_id call) (''[BLOCKED] '' @ denial), system_turn tool_blocked_prompt] st))
      in then_do (breaker (tcd_name tc @ '':'' @ take 120 denial) st1) (\<lambda>_ st. Proceed None st))"

definition await_approval ::
    "'w react_env \<Rightarrow> tool_call_data \<Rightarrow> full_call \<Rightarrow> decision \<Rightarrow> approval_request \<Rightarrow> 'w rstate
     \<Rightarrow> (call_permit option, 'w) phase" where
  "await_approval env tc call d q st0 =
     (case rc_wait env q (lp_world st0) of (answer, w) \<Rightarrow>
        let st = st0\<lparr>lp_world := w\<rparr> in
        case answer of
          WaitRaises e \<Rightarrow> Leave (Raise e st)
        | WaitTimeout \<Rightarrow> approval_refused tc call d q ''Approval timed out'' ''timed_out'' st
        | Decided False \<Rightarrow> approval_refused tc call d q ''User denied approval'' ''denied'' st
        | Decided True \<Rightarrow> Proceed (Some (Some (req_approval_id q), dec_scope d)) st)"

definition ask_approval ::
    "'w react_env \<Rightarrow> string \<Rightarrow> tool_call_data \<Rightarrow> full_call \<Rightarrow> decision \<Rightarrow> 'w rstate \<Rightarrow> (call_permit option, 'w) phase" where
  "ask_approval env rid tc call d st0 =
     (let (aid, w1) = rc_uuid env (lp_world st0);
          (answer, w2) = rc_open env (approval_request_for env rid aid call d (lp_world st0)) w1;
          st = st0\<lparr>lp_world := w2\<rparr>
      in case answer of
        Inl e \<Rightarrow> Leave (Raise e st)
      | Inr q \<Rightarrow> await_approval env tc call d q
          (yield_events [approval_event tc (req_presentation (approval_request_for env rid aid call d (lp_world st0))) q] st))"

definition judge_call ::
    "'w react_env \<Rightarrow> tool_call_data \<Rightarrow> full_call \<Rightarrow> decision \<Rightarrow> 'w rstate \<Rightarrow> (call_permit option, 'w) phase" where
  "judge_call env tc call d st =
     (if allowed d then Proceed (Some (None, dec_scope d)) st
      else if challenged d then Proceed None (challenge_call tc call d st)
      else if approval_required d
      then (case rc_run_id env of
          Some rid \<Rightarrow> ask_approval env rid tc call d st
        | None \<Rightarrow> Proceed None (block_unapproved tc call d st))
      else Proceed None (block_call tc call d st))"

definition vet_call :: "'w react_env \<Rightarrow> tool_call_data \<Rightarrow> full_call \<Rightarrow> 'w rstate \<Rightarrow> (call_permit option, 'w) phase" where
  "vet_call env tc call st0 =
     (case rc_evaluate env call (lp_world st0) of (answer, w) \<Rightarrow>
        let st = yield_events [call_start (tcd_name tc) (tcd_id tc) (call_arguments call)] (st0\<lparr>lp_world := w\<rparr>) in
        case answer of Inl e \<Rightarrow> Leave (Raise e st) | Inr d \<Rightarrow> judge_call env tc call d st)"

subsection \<open>Hooks and execution\<close>

definition permit_fields :: "string option \<Rightarrow> jdict" where
  "permit_fields approval = (case approval of None \<Rightarrow> [] | Some a \<Rightarrow>
     [(''approval_id'', JStr a), (''approval_outcome'', JStr ''granted'')])"

definition hook_denied :: "tool_call_data \<Rightarrow> full_call \<Rightarrow> call_permit \<Rightarrow> string \<Rightarrow> 'w rstate \<Rightarrow> (call_permit option, 'w) phase" where
  "hook_denied tc call p denial st =
     (let st1 = note_failure
        (yield_events [ev TOOL_CALL_RESULT (result_flags (tcd_id tc) True True False @ [(''reason'', JStr denial)] @ permit_fields (fst p))]
          (say [tool_turn (call_id call) (''[BLOCKED] '' @ denial), system_turn tool_blocked_prompt] st))
      in then_do (breaker (tcd_name tc @ '':'' @ take 120 denial) st1) (\<lambda>_ st. Proceed None (failure_hint st)))"

definition ask_hooks :: "'w react_env \<Rightarrow> tool_call_data \<Rightarrow> full_call \<Rightarrow> call_permit \<Rightarrow> 'w rstate \<Rightarrow> (call_permit option, 'w) phase" where
  "ask_hooks env tc call p st =
     (case rc_hooks env of
        None \<Rightarrow> Proceed (Some p) st
      | Some reg \<Rightarrow>
          (case run_pre_hooks reg (call_name call) (call_arguments call) None (lp_world st) of (passes, denial) \<Rightarrow>
             if passes then Proceed (Some p) st
             else hook_denied tc call p
                    (case denial of None \<Rightarrow> ''Blocked by pre-tool hook'' | Some t \<Rightarrow> or_text t ''Blocked by pre-tool hook'') st))"

definition tool_result_messages :: "string \<Rightarrow> string \<Rightarrow> string \<Rightarrow> bool \<Rightarrow> message list" where
  "tool_result_messages tool_name i content is_error =
     (if tool_name = CURRENT_TIME_TOOL \<and> \<not> is_error
      then [tool_turn i CURRENT_TIME_TOOL_ACK, turn ''user'' (RUNTIME_USER_NOTE_PREFIX @ content)]
      else [tool_turn i content])"

definition hook_warnings :: "'w react_env \<Rightarrow> full_call \<Rightarrow> tool_result \<Rightarrow> 'w \<Rightarrow> string list" where
  "hook_warnings env call result w =
     (case rc_hooks env of None \<Rightarrow> []
      | Some reg \<Rightarrow> run_post_hooks reg (call_name call) (call_arguments call) result None w)"

definition tool_result_hash :: "'w react_env \<Rightarrow> full_call \<Rightarrow> tool_result \<Rightarrow> string" where
  "tool_result_hash env call result =
     rc_digest env (canonical_json (JObj
       [(''tool'', JStr (call_name call)), (''call_id'', JStr (res_call_id result)),
        (''arguments'', JObj (call_arguments call)), (''content'', JStr (res_content result)),
        (''is_error'', JBool (res_is_error result))]))"

definition executed_event :: "'w react_env \<Rightarrow> tool_call_data \<Rightarrow> full_call \<Rightarrow> string option \<Rightarrow> tool_result \<Rightarrow> execution_event" where
  "executed_event env tc call approval result =
     ev TOOL_CALL_RESULT
       ([(''id'', JStr (tcd_id tc)), (''name'', JStr (call_name call)), (''error'', JBool (res_is_error result)),
         (''blocked'', JBool False), (''preflight'', JBool False),
         (''result_hash'', JStr (tool_result_hash env call result)),
         (''content'', JStr (take 200 (res_content result))), (''error_kind'', jopt (res_error_kind result)),
         (''retryable'', JBool (res_retryable result)), (''timed_out'', JBool (res_timed_out result)),
         (''side_effect_status'', JStr (res_side_effect_status result)), (''metadata'', JObj (res_metadata result))]
        @ (case approval of None \<Rightarrow> [] | Some a \<Rightarrow>
             [(''approval_outcome'', JStr ''granted''), (''approval_id'', JStr a)]))"

definition repeat_key :: "'w react_env \<Rightarrow> string \<Rightarrow> jdict \<Rightarrow> string" where
  "repeat_key env tool_name arguments =
     tool_name @ '':'' @ take 16 (rc_digest env (dumps_default (canon (JObj arguments))))"

definition count_repeat :: "'w react_env \<Rightarrow> tool_call_data \<Rightarrow> full_call \<Rightarrow> 'w rstate \<Rightarrow> 'w rstate" where
  "count_repeat env tc call st =
     (let key = repeat_key env (tcd_name tc) (call_arguments call);
          n = (case map_of (lp_repeats st) key of None \<Rightarrow> 0 | Some k \<Rightarrow> k) + 1;
          st1 = st\<lparr>lp_repeats := dset key n (lp_repeats st)\<rparr>
      in if REPEATED_SUCCESS_WARN_THRESHOLD \<le> n \<and> key \<notin> set (lp_warned st)
         then say [system_turn (repeated_success_prompt (tcd_name tc) n)] (st1\<lparr>lp_warned := key # lp_warned st\<rparr>)
         else st1)"

definition settle_result ::
    "'w react_env \<Rightarrow> tool_call_data \<Rightarrow> full_call \<Rightarrow> tool_result \<Rightarrow> 'w rstate \<Rightarrow> (unit, 'w) phase" where
  "settle_result env tc call result st =
     (if res_is_error result
      then then_do (breaker (tcd_name tc @ '':'' @ take 120 (res_content result)) (note_failure st))
             (\<lambda>_ st. Proceed () (failure_hint st))
      else Proceed () (count_repeat env tc call (forget_failures st)))"

definition execute_call ::
    "'w react_env \<Rightarrow> tool_call_data \<Rightarrow> full_call \<Rightarrow> call_permit \<Rightarrow> 'w rstate \<Rightarrow> (unit, 'w) phase" where
  "execute_call env tc call p st0 =
     (case rc_execute env call (fst p) (snd p) (lp_world st0) of (answer, w) \<Rightarrow>
        let st = st0\<lparr>lp_world := w\<rparr> in
        case answer of
          Inl e \<Rightarrow> Leave (Raise e st)
        | Inr result \<Rightarrow>
            let warnings = hook_warnings env call result w;
                advice = (if warnings = [] then [] else [system_turn (join [CHR 0x0A, CHR 0x0A] warnings)])
            in settle_result env tc call result
                 (yield_events [executed_event env tc call (fst p) result]
                   (say (advice @ tool_result_messages (call_name call) (res_call_id result) (res_content result)
                                    (res_is_error result)) st)))"

text \<open>A stage that yields no permit has answered the call.\<close>

definition with_permit ::
    "(call_permit option, 'w) phase \<Rightarrow> (call_permit \<Rightarrow> 'w rstate \<Rightarrow> (unit, 'w) phase) \<Rightarrow> (unit, 'w) phase" where
  "with_permit ph f = then_do ph (\<lambda>p st. case p of None \<Rightarrow> Proceed () st | Some permit \<Rightarrow> f permit st)"

definition run_tool_call :: "'w react_env \<Rightarrow> tool_call_data \<Rightarrow> full_call \<Rightarrow> 'w rstate \<Rightarrow> (unit, 'w) phase" where
  "run_tool_call env tc call st =
     with_permit (then_do (vet_call env tc call st)
        (\<lambda>p st. case p of None \<Rightarrow> Proceed None st | Some permit \<Rightarrow> ask_hooks env tc call permit st))
       (execute_call env tc call)"

definition raw_call :: "tool_call_data \<Rightarrow> full_call" where
  "raw_call tc = \<lparr>call_id = tcd_id tc, call_name = tcd_name tc, call_arguments = tcd_arguments tc,
     call_idempotency_key = None, call_declared_paths = []\<rparr>"

definition handle_call :: "'w react_env \<Rightarrow> tool_call_data \<Rightarrow> 'w rstate \<Rightarrow> (unit, 'w) phase" where
  "handle_call env tc st0 =
     (if rc_lazy env \<and> tcd_name tc = TOOL_SCHEMA_LOADER then Proceed () (load_schema env tc st0)
      else case rc_normalize env (raw_call tc) (lp_world st0) of
        Inl e \<Rightarrow> Leave (Raise e st0)
      | Inr call \<Rightarrow>
          (let st = complete_handshake env call st0 in
           if call_name call = ''render_ui'' then render_ui env tc call st
           else if call_name call \<notin> set (lp_visible st) then refuse_unavailable env tc call st
           else run_tool_call env tc call st))"

fun handle_calls :: "'w react_env \<Rightarrow> tool_call_data list \<Rightarrow> 'w rstate \<Rightarrow> (unit, 'w) phase" where
  "handle_calls env [] st = Proceed () st"
| "handle_calls env (tc # tcs) st = then_do (handle_call env tc st) (\<lambda>_ st. handle_calls env tcs st)"

subsection \<open>The round\<close>

definition wire_call :: "tool_call_data \<Rightarrow> json" where
  "wire_call c =
     JObj [(''id'', JStr (tcd_id c)), (''type'', JStr ''function''),
           (''function'', JObj [(''name'', JStr (tcd_name c)),
                                (''arguments'', JStr (dumps_default (JObj (tcd_arguments c))))])]"

definition calls_turn :: "chat_response \<Rightarrow> message" where
  "calls_turn r =
     assistant_turn (rs_text r) (rs_reasoning r) @ [(''tool_calls'', JArr (map wire_call (rs_tool_calls r)))]"

definition open_round :: "'w react_env \<Rightarrow> chat_response \<Rightarrow> 'w rstate \<Rightarrow> 'w rstate" where
  "open_round env r st =
     say [calls_turn r]
       (st\<lparr>lp_world := rc_begin_round env (lp_world st), lp_round_success := False, lp_round_failure := False,
          lp_round_preflight := False\<rparr>)"

text \<open>The budgets of challenged, productive and failed rounds.\<close>

definition close_failed :: "'w rstate \<Rightarrow> 'w step_end" where
  "close_failed st0 =
     (if lp_round_success st0 then Next (st0\<lparr>lp_productive := lp_productive st0 + 1\<rparr>)
      else if lp_round_failure st0 then
        (let st = st0\<lparr>lp_recovery := lp_recovery st0 + 1\<rparr> in
         if MAX_FAILED_TOOL_RECOVERY_ITERS \<le> lp_recovery st
         then Return (yield_events [budget_text TOOL_FAILURE_BUDGET_MESSAGE, incomplete [(''reason'', JStr ''tool_failure_budget'')]] st)
         else Next st)
      else Next st0)"

definition close_round :: "'w rstate \<Rightarrow> 'w step_end" where
  "close_round st0 =
     (if lp_round_preflight st0 then
        (let st = st0\<lparr>lp_preflight := lp_preflight st0 + 1\<rparr> in
         if MAX_PREFLIGHT_CHALLENGE_ITERS \<le> lp_preflight st
         then Return (yield_events [budget_text PREFLIGHT_BUDGET_MESSAGE, incomplete [(''reason'', JStr ''preflight_budget'')]] st)
         else close_failed st)
      else close_failed st0)"

definition tool_round :: "'w react_env \<Rightarrow> chat_response \<Rightarrow> 'w rstate \<Rightarrow> 'w step_end" where
  "tool_round env r st =
     finish_with (handle_calls env (rs_tool_calls r) (open_round env r st)) (\<lambda>_ st. close_round st)"

subsection \<open>One iteration\<close>

definition reply_step :: "'w react_env \<Rightarrow> chat_response \<Rightarrow> bool \<Rightarrow> 'w rstate \<Rightarrow> 'w step_end" where
  "reply_step env r streamed st0 =
     (if rs_tool_calls r = [] then finish_text r streamed st0
      else let st = drop_drafts st0 in
        case cut_calls r st of Some s \<Rightarrow> s | None \<Rightarrow> tool_round env r st)"

definition react_step :: "'w react_env \<Rightarrow> 'w rstate \<Rightarrow> 'w step_end" where
  "react_step env st0 =
     finish_with
       (then_do (prepare_request env st0) (\<lambda>fit st.
          then_do (ask_model env fit st) (\<lambda>reply st.
            then_do (report env fit (fst reply) st) (\<lambda>_ st. Proceed reply st))))
       (\<lambda>reply st. reply_step env (fst reply) (snd reply) st)"

definition budget_spent :: "'w rstate \<Rightarrow> 'w rstate" where
  "budget_spent st =
     yield_events (map (\<lambda>p. retract p ''tool_call_budget'') (lp_active st)
           @ [budget_text TOOL_CALL_BUDGET_MESSAGE, incomplete [(''reason'', JStr ''tool_call_budget'')]]) st"

end
