(* ===== verification/React_Loop.thy ===== *)
theory React_Loop
  imports React_Tools
begin

text \<open>
  The loop of \<^verbatim>\<open>react_event_loop\<close> and its termination: every iteration that goes on spends one of the
  six budgets, the last of which is that a reply with tool calls marks its round.
\<close>

text \<open>What holds of a phase: of the state it proceeds with, or of the end of the iteration.\<close>

definition phase_post :: "('a \<Rightarrow> 'w rstate \<Rightarrow> bool) \<Rightarrow> ('w step_end \<Rightarrow> bool) \<Rightarrow> ('a, 'w) phase \<Rightarrow> bool" where
  "phase_post Q R p = (case p of Proceed x st \<Rightarrow> Q x st | Leave s \<Rightarrow> R s)"

lemma phase_post_simps [simp]:
  "phase_post Q R (Proceed x st) = Q x st" "phase_post Q R (Leave s) = R s"
  by (simp_all add: phase_post_def)

lemma phase_post_then_do:
  "phase_post Q' R p \<Longrightarrow> (\<And>x st. Q' x st \<Longrightarrow> phase_post Q R (f x st)) \<Longrightarrow> phase_post Q R (then_do p f)"
  by (cases p) auto

lemma phase_post_finish_with:
  "phase_post Q R p \<Longrightarrow> (\<And>x st. Q x st \<Longrightarrow> R (f x st)) \<Longrightarrow> R (finish_with p f)"
  by (cases p) auto

lemma phase_post_mono:
  "phase_post Q R p \<Longrightarrow> (\<And>x st. Q x st \<Longrightarrow> Q' x st) \<Longrightarrow> (\<And>s. R s \<Longrightarrow> R' s) \<Longrightarrow> phase_post Q' R' p"
  by (cases p) auto

lemma phase_post_with_permit:
  "phase_post (\<lambda>p st. case p of None \<Rightarrow> Q () st | Some permit \<Rightarrow> Q' permit st) R ph \<Longrightarrow>
   (\<And>permit st. Q' permit st \<Longrightarrow> phase_post Q R (f permit st)) \<Longrightarrow> phase_post Q R (with_permit ph f)"
  unfolding with_permit_def by (erule phase_post_then_do) (auto split: option.splits)

subsection \<open>The budgets\<close>

definition counters :: "'w rstate \<Rightarrow> nat \<times> nat \<times> nat \<times> nat \<times> nat \<times> nat" where
  "counters st = (lp_productive st, lp_recovery st, lp_preflight st, lp_recoveries st, lp_continuations st, lp_repairs st)"

definition marked :: "'w rstate \<Rightarrow> bool" where
  "marked st \<longleftrightarrow> lp_round_success st \<or> lp_round_failure st \<or> lp_round_preflight st"

definition ends :: "'w step_end \<Rightarrow> bool" where
  "ends s \<longleftrightarrow> (case s of Next _ \<Rightarrow> False | _ \<Rightarrow> True)"

lemma ends_simps [simp]: "\<not> ends (Next st)" "ends (Return st)" "ends (Raise e st)"
  by (simp_all add: ends_def)

text \<open>A call keeps the budgets and marks the round, or ends the run.\<close>

definition answers :: "'w rstate \<Rightarrow> (unit, 'w) phase \<Rightarrow> bool" where
  "answers st p \<longleftrightarrow> phase_post (\<lambda>_ st'. counters st' = counters st \<and> marked st') ends p"

named_theorems react_state

lemmas [react_state] = yield_events_def say_def retract_all_def note_failure_def forget_failures_def
  show_tool_def add_schema_def counters_def marked_def

lemma failure_hint_frame [simp]:
  "counters (failure_hint st) = counters st" "marked (failure_hint st) = marked st"
  by (simp_all add: failure_hint_def react_state)

lemma breaker_post: "phase_post (\<lambda>_ st'. counters st' = counters st \<and> marked st' = marked st) ends (breaker key st)"
  by (simp add: breaker_def repeats_of_def Let_def react_state)

lemma load_schema_frame: "counters (load_schema env tc st) = counters st \<and> marked (load_schema env tc st)"
  by (simp add: load_schema_def Let_def react_state split: sum.split)

lemma complete_handshake_frame [simp]: "counters (complete_handshake env call st) = counters st"
  by (simp add: complete_handshake_def react_state split: sum.split)

lemma render_ui_answers: "answers st (render_ui env tc call st)"
  by (auto simp: answers_def render_ui_def ui_disabled_def ui_refused_def ui_invalid_def ui_rendered_def Let_def react_state
      split: prod.split sum.split ui_outcome.split)

lemma refuse_unavailable_answers: "answers st (refuse_unavailable env tc call st)"
  unfolding answers_def refuse_unavailable_def Let_def
  by (rule phase_post_then_do [OF breaker_post]) (auto simp: react_state failure_hint_def)

text \<open>A stage of a call keeps the budgets; where it yields no permit it has marked the round.\<close>

definition vets :: "'w rstate \<Rightarrow> (call_permit option, 'w) phase \<Rightarrow> bool" where
  "vets st p \<longleftrightarrow> phase_post (\<lambda>x st'. counters st' = counters st \<and> (x = None \<longrightarrow> marked st')) ends p"

lemma approval_refused_vets: "vets st (approval_refused tc call d q denial outcome st)"
  unfolding vets_def approval_refused_def Let_def
  by (rule phase_post_then_do [OF breaker_post]) (auto simp: react_state)

lemma vets_cong: "counters st = counters st' \<Longrightarrow> vets st p = vets st' p"
  by (simp add: vets_def)

lemma answers_cong: "counters st = counters st' \<Longrightarrow> answers st p = answers st' p"
  by (simp add: answers_def)

lemma vets_world: "vets (st\<lparr>lp_world := w\<rparr>) p = vets st p"
  by (simp add: vets_def counters_def)

lemma vets_emit: "vets (yield_events es st) p = vets st p"
  by (simp add: vets_def react_state)

lemma await_approval_vets: "vets st (await_approval env tc call d q st)"
  using approval_refused_vets [of "st\<lparr>lp_world := snd (rc_wait env q (lp_world st))\<rparr>" tc call d q]
  by (auto simp: await_approval_def vets_world Let_def vets_def counters_def split: prod.splits wait_answer.split bool.split)

lemma ask_approval_vets: "vets st (ask_approval env rid tc call d st)"
proof -
  obtain aid w1 where aid: "rc_uuid env (lp_world st) = (aid, w1)" by fastforce
  obtain answer w2 where opened: "rc_open env (approval_request_for env rid aid call d (lp_world st)) w1 = (answer, w2)"
    by fastforce
  show ?thesis
  proof (cases answer)
    case (Inl e)
    then show ?thesis by (simp add: ask_approval_def aid opened vets_def)
  next
    case (Inr q)
    have "vets st (await_approval env tc call d q (yield_events es (st\<lparr>lp_world := w2\<rparr>)))" for es
      using await_approval_vets by (metis vets_emit vets_world)
    with Inr show ?thesis by (simp add: ask_approval_def aid opened)
  qed
qed

lemma judge_call_vets: "vets st (judge_call env tc call d st)"
proof (cases "allowed d \<or> challenged d \<or> \<not> approval_required d \<or> rc_run_id env = None")
  case True
  then show ?thesis
    by (auto simp: judge_call_def vets_def challenge_call_def block_call_def block_unapproved_def react_state failure_hint_def)
next
  case False
  then show ?thesis by (auto simp: judge_call_def ask_approval_vets)
qed

lemma vet_call_vets: "vets st (vet_call env tc call st)"
proof -
  obtain answer w where answer: "rc_evaluate env call (lp_world st) = (answer, w)" by fastforce
  show ?thesis
  proof (cases answer)
    case (Inl e)
    with answer show ?thesis by (simp add: vet_call_def vets_def)
  next
    case (Inr d)
    have "vets st (judge_call env tc call d (yield_events es (st\<lparr>lp_world := w\<rparr>)))" for es
      using judge_call_vets by (metis vets_emit vets_world)
    with answer Inr show ?thesis by (simp add: vet_call_def)
  qed
qed

lemma hook_denied_vets: "vets st (hook_denied tc call p denial st)"
  unfolding vets_def hook_denied_def Let_def
  by (rule phase_post_then_do [OF breaker_post]) (auto simp: react_state failure_hint_def)

lemma ask_hooks_vets: "vets st (ask_hooks env tc call p st)"
  using hook_denied_vets [of st tc call p]
  by (cases "rc_hooks env") (simp_all add: ask_hooks_def vets_def split: option.split prod.split)

lemma settle_result_answers: "answers st (settle_result env tc call result st)"
proof (cases "res_is_error result")
  case True
  then show ?thesis
    unfolding settle_result_def answers_def
    by (simp, intro phase_post_then_do [OF breaker_post]) (auto simp: react_state failure_hint_def)
qed (simp add: settle_result_def answers_def count_repeat_def Let_def react_state)

lemma answers_frame [simp]:
  "answers (st\<lparr>lp_world := w\<rparr>) p = answers st p" "answers (yield_events es st) p = answers st p" "answers (say ms st) p = answers st p"
  by (simp_all add: answers_def react_state)

lemma execute_call_answers: "answers st (execute_call env tc call p st)"
proof -
  obtain answer w where answer: "rc_execute env call (fst p) (snd p) (lp_world st) = (answer, w)" by fastforce
  show ?thesis
  proof (cases answer)
    case (Inl e)
    with answer show ?thesis by (simp add: execute_call_def answers_def)
  next
    case (Inr result)
    have "answers st (settle_result env tc call result (yield_events es (say ms (st\<lparr>lp_world := w\<rparr>))))" for es ms
      using settle_result_answers [of "yield_events es (say ms (st\<lparr>lp_world := w\<rparr>))"] by simp
    with answer Inr show ?thesis by (simp add: execute_call_def Let_def)
  qed
qed

lemma run_call_answers: "answers st (run_tool_call env tc call st)"
proof -
  have hooks: "vets st (case p of None \<Rightarrow> Proceed None st' | Some permit \<Rightarrow> ask_hooks env tc call permit st')"
    if "counters st' = counters st \<and> (p = None \<longrightarrow> marked st')" for p st'
    using that ask_hooks_vets [of st' env tc call] vets_cong [of st' st]
    by (cases p) (simp_all add: vets_def)
  have vetted: "vets st (then_do (vet_call env tc call st)
      (\<lambda>p st. case p of None \<Rightarrow> Proceed None st | Some permit \<Rightarrow> ask_hooks env tc call permit st))"
    using vet_call_vets [of st env tc call] hooks unfolding vets_def by (rule phase_post_then_do)
  have executed: "phase_post (\<lambda>_ st'. counters st' = counters st \<and> marked st') ends (execute_call env tc call p st')"
    if "counters st' = counters st" for p st'
    using that execute_call_answers [of st' env tc call p] by (simp add: answers_def)
  show ?thesis
    unfolding run_tool_call_def answers_def
    by (rule phase_post_with_permit [where Q' = "\<lambda>_ st'. counters st' = counters st", OF _ executed],
        rule phase_post_mono [OF vetted [unfolded vets_def]]) (auto split: option.split)
qed

lemma handle_call_answers: "answers st (handle_call env tc st)"
proof -
  have "answers st (run_tool_call env tc call (complete_handshake env call st))"
    "answers st (render_ui env tc call (complete_handshake env call st))"
    "answers st (refuse_unavailable env tc call (complete_handshake env call st))" for call
    using run_call_answers [of "complete_handshake env call st"] render_ui_answers [of "complete_handshake env call st"]
      refuse_unavailable_answers [of "complete_handshake env call st"] by (simp_all add: answers_def)
  then show ?thesis
    using load_schema_frame [of env tc st]
    by (auto simp: handle_call_def Let_def answers_def split: sum.split)
qed

lemma handle_calls_post:
  "phase_post (\<lambda>_ st'. counters st' = counters st \<and> (tcs \<noteq> [] \<or> marked st \<longrightarrow> marked st')) ends (handle_calls env tcs st)"
proof (induction tcs arbitrary: st)
  case (Cons tc tcs)
  show ?case
    unfolding handle_calls.simps
    by (rule phase_post_then_do [OF handle_call_answers [unfolded answers_def]], rule phase_post_mono [OF Cons.IH]) auto
qed simp

subsection \<open>The iteration spends a budget\<close>

definition spare :: "nat \<Rightarrow> nat \<Rightarrow> nat" where
  "spare limit used = limit - used"

lemma spare_Suc [simp]: "used < limit \<Longrightarrow> spare limit (Suc used) < spare limit used"
  by (simp add: spare_def)

lemma spare_le [simp]: "spare limit (Suc used) \<le> spare limit used"
  by (simp add: spare_def)

definition budget_left :: "'w react_env \<Rightarrow> 'w rstate \<Rightarrow> nat" where
  "budget_left env st =
     spare (rc_max_iters env) (lp_productive st) + spare MAX_FAILED_TOOL_RECOVERY_ITERS (lp_recovery st)
     + spare MAX_PREFLIGHT_CHALLENGE_ITERS (lp_preflight st) + spare 1 (lp_recoveries st)
     + spare MAX_LENGTH_CONTINUATIONS (lp_continuations st) + spare MAX_INCOMPLETE_FINAL_REPAIRS (lp_repairs st)"

definition spends :: "'w react_env \<Rightarrow> 'w rstate \<Rightarrow> 'w step_end \<Rightarrow> bool" where
  "spends env st s \<longleftrightarrow> (\<forall>st'. s = Next st' \<longrightarrow> budget_left env st' < budget_left env st)"

lemma ends_spends: "ends s \<Longrightarrow> spends env st s"
  by (auto simp: spends_def)

lemma spends_simps [simp]: "spends env st (Return st')" "spends env st (Raise e st')"
  by (simp_all add: spends_def)

lemma budget_left_cong: "counters st = counters st' \<Longrightarrow> budget_left env st = budget_left env st'"
  by (simp add: budget_left_def counters_def)

lemma spends_cong: "counters st = counters st' \<Longrightarrow> spends env st s = spends env st' s"
  by (simp add: spends_def budget_left_cong [of st st'])

lemma fit_step_counters: "counters (snd (fit_step env st)) = counters st"
  by (simp add: fit_step_def Let_def count_compaction_def react_state)

lemma prepare_request_spends:
  "phase_post (\<lambda>_ st'. counters st' = counters st) (spends env st) (prepare_request env st)"
  using fit_step_counters [of env st]
  by (auto simp: prepare_request_def spends_def react_state split: prod.splits)

lemma context_refused_spends:
  assumes "counters st = counters st0"
  shows "spends env st0 (context_refused env st)"
proof (cases "lp_recoveries st0 = 0")
  case True
  with assms spare_Suc [of 0 1] show ?thesis by (simp add: context_refused_def spends_def budget_left_def react_state)
next
  case False
  with assms show ?thesis by (simp add: context_refused_def counters_def)
qed

lemma ask_plain_spends:
  "counters st = counters st0 \<Longrightarrow> phase_post (\<lambda>_ st'. counters st' = counters st0) (spends env st0) (ask_plain env key st)"
  using context_refused_spends [of "st\<lparr>lp_world := snd (rc_chat env (lp_conv st) (lp_tools st) key (lp_world st))\<rparr>" st0 env]
  by (auto simp: ask_plain_def Let_def counters_def split: prod.split sum.split)

lemma stream_event_counters [simp]: "counters (stream_event pid e st) = counters st"
  by (auto simp: stream_event_def Let_def show_draft_def react_state split: option.split)

lemma stream_events_counters [simp]: "counters (stream_events pid es st) = counters st"
  unfolding stream_events_def by (induction es arbitrary: st) simp_all

lemma retract_all_counters [simp]: "counters (retract_all why st) = counters st"
  by (simp add: react_state)

lemma world_counters [simp]: "counters (st\<lparr>lp_world := w\<rparr>) = counters st"
  by (simp add: counters_def)

lemma stream_failed_spends:
  "counters st = counters st0 \<Longrightarrow>
     phase_post (\<lambda>_ st'. counters st' = counters st0) (spends env st0) (stream_failed env key e saw st)"
  by (simp add: stream_failed_def ask_plain_spends context_refused_spends)

lemma ask_stream_spends:
  "counters st = counters st0 \<Longrightarrow> phase_post (\<lambda>_ st'. counters st' = counters st0) (spends env st0) (ask_stream env key st)"
  by (auto simp: ask_stream_def Let_def intro!: stream_failed_spends split: prod.split option.split sum.split)

lemma ask_model_spends:
  "counters st = counters st0 \<Longrightarrow> phase_post (\<lambda>_ st'. counters st' = counters st0) (spends env st0) (ask_model env fit st)"
  by (simp add: ask_model_def Let_def ask_plain_spends ask_stream_spends)

lemma report_spends:
  "counters st = counters st0 \<Longrightarrow> phase_post (\<lambda>_ st'. counters st' = counters st0) (spends env st0) (report env fit r st)"
  by (auto simp: report_def react_state split: sum.split)

lemma budget_left_continuation:
  "lp_continuations st < MAX_LENGTH_CONTINUATIONS \<Longrightarrow>
     budget_left env (st\<lparr>lp_continuations := Suc (lp_continuations st)\<rparr>) < budget_left env st"
  by (simp add: budget_left_def)

lemma budget_left_repair:
  "lp_repairs st < MAX_INCOMPLETE_FINAL_REPAIRS \<Longrightarrow>
     budget_left env (st\<lparr>lp_repairs := Suc (lp_repairs st)\<rparr>) < budget_left env st"
  by (simp add: budget_left_def)

lemma length_limited_spends: "spends env st (length_limited r st)"
proof -
  have "budget_left env (say ms (st\<lparr>lp_continuations := Suc (lp_continuations st)\<rparr>))
      = budget_left env (st\<lparr>lp_continuations := Suc (lp_continuations st)\<rparr>)" for ms
    by (rule budget_left_cong) (simp add: react_state)
  then show ?thesis using budget_left_continuation [of st env] by (simp add: length_limited_def spends_def)
qed

lemma complete_text_spends: "spends env st (complete_text r st)"
proof -
  have "budget_left env (say ms ((retract_all why st)\<lparr>lp_repairs := Suc (lp_repairs st), lp_parts := []\<rparr>))
      = budget_left env (st\<lparr>lp_repairs := Suc (lp_repairs st)\<rparr>)" for ms why
    by (rule budget_left_cong) (simp add: react_state)
  then show ?thesis
    using budget_left_repair [of st env] by (simp add: complete_text_def Let_def spends_def should_repair_def)
qed

lemma finish_text_spends: "spends env st (finish_text r streamed st)"
proof -
  have parts: "spends env (st\<lparr>lp_parts := ps\<rparr>) s = spends env st s" for s ps
    by (simp add: spends_def budget_left_def)
  show ?thesis
    using length_limited_spends [of env st r] complete_text_spends [of env st r]
      length_limited_spends [of env "st\<lparr>lp_parts := lp_parts st @ [(rs_text r, streamed)]\<rparr>" r]
      complete_text_spends [of env "st\<lparr>lp_parts := lp_parts st @ [(rs_text r, streamed)]\<rparr>" r]
    by (simp add: finish_text_def Let_def parts)
qed

lemma budget_left_productive:
  "lp_productive st < rc_max_iters env \<Longrightarrow>
     budget_left env (st\<lparr>lp_productive := Suc (lp_productive st)\<rparr>) < budget_left env st"
  by (simp add: budget_left_def)

lemma budget_left_recovery:
  "lp_recovery st < MAX_FAILED_TOOL_RECOVERY_ITERS \<Longrightarrow>
     budget_left env (st\<lparr>lp_recovery := Suc (lp_recovery st)\<rparr>) < budget_left env st"
  by (simp add: budget_left_def)

lemma budget_left_preflight:
  "lp_preflight st < MAX_PREFLIGHT_CHALLENGE_ITERS \<Longrightarrow>
     budget_left env (st\<lparr>lp_preflight := Suc (lp_preflight st)\<rparr>) < budget_left env st"
  by (simp add: budget_left_def)

lemma close_failed_spends:
  "lp_round_success st \<or> lp_round_failure st \<Longrightarrow> lp_productive st < rc_max_iters env \<Longrightarrow> spends env st (close_failed st)"
  using budget_left_productive [of st env] budget_left_recovery [of st env]
  by (auto simp: close_failed_def Let_def spends_def)

lemma close_round_spends:
  assumes "marked st" "lp_productive st < rc_max_iters env"
  shows "spends env st (close_round st)"
proof (cases "lp_round_preflight st")
  case False
  with assms show ?thesis by (simp add: close_round_def marked_def close_failed_spends)
next
  case True
  let ?st = "st\<lparr>lp_preflight := Suc (lp_preflight st)\<rparr>"
  have spent: "budget_left env ?st < budget_left env st" if "lp_preflight st < MAX_PREFLIGHT_CHALLENGE_ITERS"
    using that by (rule budget_left_preflight)
  show ?thesis
  proof (cases "lp_round_success st \<or> lp_round_failure st")
    case False
    with True spent show ?thesis by (simp add: close_round_def close_failed_def spends_def Let_def)
  next
    case some: True
    have "spends env ?st (close_failed ?st)" using some assms(2) by (intro close_failed_spends) simp_all
    with True spent show ?thesis
      by (cases "close_failed ?st") (fastforce simp: close_round_def spends_def Let_def)+
  qed
qed

lemma cut_calls_ends: "cut_calls r st = Some s \<Longrightarrow> ends s"
  by (auto simp: cut_calls_def Let_def split: if_split_asm)

lemma tool_round_spends:
  fixes st :: "'a rstate"
  assumes "rs_tool_calls r \<noteq> []" "lp_productive st < rc_max_iters env"
  shows "spends env st (tool_round env r st)"
  unfolding tool_round_def
proof (rule phase_post_finish_with)
  have opened: "counters (open_round env r st) = counters st"
    by (simp add: open_round_def react_state)
  show "phase_post (\<lambda>_ st'. counters st' = counters st \<and> marked st') (spends env st)
     (handle_calls env (rs_tool_calls r) (open_round env r st))"
    using assms(1) opened by (intro phase_post_mono [OF handle_calls_post]) (auto intro: ends_spends)
  fix x and st' :: "'a rstate" assume st': "counters st' = counters st \<and> marked st'"
  then have "lp_productive st' < rc_max_iters env" using assms(2) by (simp add: counters_def)
  with st' show "spends env st (close_round st')"
    using close_round_spends [of st' env] spends_cong [of st' st] by blast
qed

lemma reply_step_spends:
  assumes "lp_productive st < rc_max_iters env"
  shows "spends env st (reply_step env r streamed st)"
proof (cases "rs_tool_calls r = []")
  case True
  then show ?thesis by (simp add: reply_step_def finish_text_spends)
next
  case False
  have same: "counters (drop_drafts st) = counters st" by (simp add: drop_drafts_def react_state)
  then have "lp_productive (drop_drafts st) < rc_max_iters env" using assms by (simp add: counters_def)
  with False have "spends env st (tool_round env r (drop_drafts st))"
    using tool_round_spends [of r "drop_drafts st" env] spends_cong [OF same] by simp
  with False show ?thesis
    by (auto simp: reply_step_def Let_def split: option.split dest!: cut_calls_ends intro: ends_spends)
qed

lemma react_step_spends:
  fixes st :: "'a rstate"
  assumes "lp_productive st < rc_max_iters env"
  shows "spends env st (react_step env st)"
  unfolding react_step_def
proof (rule phase_post_finish_with)
  let ?Q = "\<lambda>_ st'. counters st' = counters st"
  show "phase_post ?Q (spends env st)
    (then_do (prepare_request env st) (\<lambda>fit st. then_do (ask_model env fit st)
       (\<lambda>reply st. then_do (report env fit (fst reply) st) (\<lambda>_ st. Proceed reply st))))"
    by (intro phase_post_then_do [OF prepare_request_spends] phase_post_then_do [OF ask_model_spends]
        phase_post_then_do [OF report_spends]) simp_all
  fix x :: "chat_response \<times> bool" and st' :: "'a rstate" assume same: "counters st' = counters st"
  then have "lp_productive st' < rc_max_iters env" using assms by (simp add: counters_def)
  from reply_step_spends [OF this] show "spends env st (reply_step env (fst x) (snd x) st')"
    using spends_cong [OF same] by blast
qed

lemma react_step_decreases:
  "lp_productive st < rc_max_iters env \<Longrightarrow> react_step env st = Next st' \<Longrightarrow> budget_left env st' < budget_left env st"
  using react_step_spends [of st env] by (simp add: spends_def)

subsection \<open>The loop\<close>

function react_loop :: "'w react_env \<Rightarrow> 'w rstate \<Rightarrow> 'w step_end" where
  "react_loop env st =
     (if lp_productive st < rc_max_iters env
      then (case react_step env st of Next st' \<Rightarrow> react_loop env st' | s \<Rightarrow> s)
      else Return (budget_spent st))"
  by pat_completeness auto

termination
  by (relation "measure (\<lambda>(env, st). budget_left env st)")
    (simp_all add: react_step_decreases)

declare react_loop.simps [simp del]

text \<open>The number of iterations of a run.\<close>

function react_iterations :: "'w react_env \<Rightarrow> 'w rstate \<Rightarrow> nat" where
  "react_iterations env st =
     (if lp_productive st < rc_max_iters env
      then Suc (case react_step env st of Next st' \<Rightarrow> react_iterations env st' | _ \<Rightarrow> 0)
      else 0)"
  by pat_completeness auto

termination
  by (relation "measure (\<lambda>(env, st). budget_left env st)")
    (simp_all add: react_step_decreases)

declare react_iterations.simps [simp del]

definition react_event_loop :: "'w react_env \<Rightarrow> conversation \<Rightarrow> 'w \<Rightarrow> 'w step_end" where
  "react_event_loop env messages w = react_loop env (react_start env messages w)"

lemma react_loop_ends: "ends (react_loop env st)"
proof (induction env st rule: react_loop.induct)
  case (1 env st)
  then show ?case by (subst react_loop.simps) (auto split: step_end.split)
qed

lemma react_iterations_bound: "react_iterations env st \<le> Suc (budget_left env st)"
proof (induction env st rule: react_iterations.induct)
  case (1 env st)
  show ?case
  proof (cases "lp_productive st < rc_max_iters env")
    case True
    show ?thesis
    proof (cases "react_step env st")
      case (Next st')
      then have "budget_left env st' < budget_left env st" by (rule react_step_decreases [OF True])
      with 1 [OF True Next] True Next show ?thesis by (subst react_iterations.simps) simp
    qed (use True in \<open>subst react_iterations.simps, simp\<close>)+
  qed (subst react_iterations.simps, simp)
qed

text \<open>
  C20. The loop ends: it returns or raises after at most 46 iterations more than its limit of
  productive ones, whatever the model, the tools, the policy and the user answer.
\<close>

theorem react_loop_is_bounded:
  "ends (react_event_loop env messages w)
   \<and> react_iterations env (react_start env messages w) \<le> rc_max_iters env + 46"
proof
  show "ends (react_event_loop env messages w)"
    unfolding react_event_loop_def by (rule react_loop_ends)
  have "budget_left env (react_start env messages w) = rc_max_iters env + 45"
    by (simp add: budget_left_def spare_def react_start_def Let_def MAX_FAILED_TOOL_RECOVERY_ITERS_def
        MAX_PREFLIGHT_CHALLENGE_ITERS_def MAX_LENGTH_CONTINUATIONS_def MAX_INCOMPLETE_FINAL_REPAIRS_def)
  then show "react_iterations env (react_start env messages w) \<le> rc_max_iters env + 46"
    using react_iterations_bound [of env "react_start env messages w"] by simp
qed

end
