(* ===== verification/React_Rounds.thy ===== *)
theory React_Rounds
  imports React_Loop Context_Fit_Safety Anthropic_Turns Pipeline_Loop
begin

text \<open>
  What the tool calls of a round add: to the conversation one answer for every call, in order, and
  to the events nothing that opens or closes a draft.  A conversation in which every round is
  answered stays one under the cap, the fitting of the request and the recovery.
\<close>

subsection \<open>Conversations whose rounds are answered\<close>

text \<open>
  The calls still unanswered after some messages; None when an answer is out of order or when an
  assistant message or a request comes before the answers are complete.
\<close>

fun calls_left :: "json list \<Rightarrow> conversation \<Rightarrow> json list option" where
  "calls_left pending [] = Some pending"
| "calls_left pending (m # ms) =
     (if role_is ''assistant'' m then (if pending = [] then calls_left (asked_ids (JObj m)) ms else None)
      else if role_is ''tool'' m then
        (case pending of [] \<Rightarrow> None
         | i # is \<Rightarrow> if dget m ''tool_call_id'' = i then calls_left is ms else None)
      else if is_request_turn m then (if pending = [] then calls_left [] ms else None)
      else calls_left pending ms)"

definition complete_rounds :: "conversation \<Rightarrow> bool" where
  "complete_rounds conv \<longleftrightarrow> calls_left [] conv = Some []"

lemma calls_left_append: "calls_left p (xs @ ys) = Option.bind (calls_left p xs) (\<lambda>q. calls_left q ys)"
  by (induction p xs rule: calls_left.induct) (auto split: list.splits)

lemma complete_rounds_append:
  "complete_rounds xs \<Longrightarrow> complete_rounds ys \<Longrightarrow> complete_rounds (xs @ ys)"
  by (simp add: complete_rounds_def calls_left_append)

lemma complete_rounds_Nil [simp]: "complete_rounds []"
  by (simp add: complete_rounds_def)

lemma calls_left_systems: "\<forall>m \<in> set ms. is_system m \<Longrightarrow> calls_left p ms = Some p"
proof (induction ms)
  case (Cons m ms)
  then have "is_system m" by simp
  then have "\<not> role_is ''assistant'' m" "\<not> role_is ''tool'' m" "\<not> is_request_turn m"
    using system_not_request by (auto simp: role_is_def)
  with Cons show ?case by simp
qed simp

lemma complete_systems: "\<forall>m \<in> set ms. is_system m \<Longrightarrow> complete_rounds ms"
  by (simp add: complete_rounds_def calls_left_systems)

lemma complete_single_request: "is_request_turn m \<Longrightarrow> complete_rounds [m]"
  using request_role [of m] by (auto simp: complete_rounds_def role_is_def)

text \<open>At a boundary nothing is pending, so a conversation may be cut there.\<close>

lemma complete_rounds_cut:
  assumes "complete_rounds (xs @ m # ys)" "is_round_boundary m"
  shows "complete_rounds (m # ys)"
proof -
  from assms(1) obtain q where q: "calls_left [] xs = Some q" "calls_left q (m # ys) = Some []"
    by (auto simp: complete_rounds_def calls_left_append bind_eq_Some_conv)
  from assms(2) boundary_not_tool [OF assms(2)] have "role_is ''assistant'' m \<or> is_request_turn m \<and> \<not> role_is ''tool'' m"
    by (auto simp: is_round_boundary_def)
  with q(2) have "q = []" by (auto split: if_split_asm)
  with q(2) show ?thesis by (simp add: complete_rounds_def)
qed

lemma complete_rounds_drop:
  assumes "complete_rounds conv" "pos < length conv" "is_round_boundary (conv ! pos)"
  shows "complete_rounds (drop pos conv)"
  using complete_rounds_cut [of "take pos conv" "conv ! pos" "drop (Suc pos) conv"] assms
  by (simp add: id_take_nth_drop [symmetric] Cons_nth_drop_Suc)

lemma trim_keeps_complete:
  assumes "complete_rounds conv"
  shows "complete_rounds (trim_conversation_to_message_cap conv)"
proof (cases rule: trim_shape [of conv])
  case same
  with assms show ?thesis by simp
next
  case (cut pos n)
  have head: "complete_rounds (take (contract_length conv) conv)"
    using contract_messages by (intro complete_systems) blast
  have tail: "complete_rounds (drop pos conv)"
    using cut(3) by (intro complete_rounds_drop assms) (simp_all add: good_cut_def)
  have "complete_rounds [n]"
    using note_system [OF cut(2)] by (intro complete_systems) simp
  then have "complete_rounds (n # drop pos conv)"
    using complete_rounds_append [of "[n]" "drop pos conv"] tail by simp
  moreover have "complete_rounds (pinned conv pos)"
    using cut(3) by (cases rule: pinned_cases) (auto intro: complete_single_request)
  ultimately show ?thesis unfolding cut(1) by (intro complete_rounds_append head)
qed

text \<open>Pruning changes the content of answers only.\<close>

definition stubbed :: "message \<Rightarrow> message \<Rightarrow> bool" where
  "stubbed m m' \<longleftrightarrow> m' = m \<or> role_is ''tool'' m \<and> m' = stub_message m"

lemma calls_left_stubbed: "list_all2 stubbed ms ms' \<Longrightarrow> calls_left p ms' = calls_left p ms"
proof (induction p ms arbitrary: ms' rule: calls_left.induct)
  case (2 p m ms)
  then obtain m' ms'' where ms': "ms' = m' # ms''" "stubbed m m'" "list_all2 stubbed ms ms''"
    by (auto simp: list_all2_Cons1)
  show ?case
  proof (cases "role_is ''tool'' m")
    case True
    have same: "dget (stub_message m) ''tool_call_id'' = dget m ''tool_call_id''"
      by (simp add: stub_message_def dget_def)
    have "role_is ''tool'' m'" "\<not> role_is ''assistant'' m'" "\<not> role_is ''assistant'' m"
      "dget m' ''tool_call_id'' = dget m ''tool_call_id''"
      using True ms'(2) role_is_other [of "''tool''" _ "''assistant''"] same by (auto simp: stubbed_def stub_role)
    with True 2(2) [OF _ _ _ _ ms'(3)] ms'(1) show ?thesis by (simp split: list.split)
  next
    case False
    then have "m' = m" using ms'(2) by (simp add: stubbed_def)
    with False 2(1) [OF _ _ ms'(3)] 2(3) [OF _ _ _ _ ms'(3)] 2(4) [OF _ _ _ ms'(3)] ms'(1)
    show ?thesis by simp
  qed
qed simp

lemma prune_stubs: "list_all2 stubbed conv (fst (prune_tool_outputs th mn conv))"
proof -
  let ?marks = "fst (prune_walk th 0 (rev conv))"
  have "list_all2 stubbed (rev conv) (map2 (\<lambda>mark m. if mark then stub_message m else m) ?marks (rev conv))"
    using conjunct2 [OF prune_walk_marks [of th 0 "rev conv"]]
    by (induction rule: list_all2_induct) (auto simp: stubbed_def)
  then have "list_all2 stubbed conv (rev (map2 (\<lambda>mark m. if mark then stub_message m else m) ?marks (rev conv)))"
    by (simp only: list_all2_rev1)
  moreover have "list_all2 stubbed conv conv"
    by (simp add: list_all2_conv_all_nth stubbed_def)
  ultimately show ?thesis by (cases "prune_walk th 0 (rev conv)") (simp add: prune_tool_outputs_def)
qed

lemma prune_keeps_complete: "complete_rounds conv \<Longrightarrow> complete_rounds (fst (prune_tool_outputs th mn conv))"
  using calls_left_stubbed [OF prune_stubs] by (simp add: complete_rounds_def)

text \<open>The active turn opens on the request, so the history before it may be replaced.\<close>

lemma active_complete:
  assumes "split_active_context conv = (p, h, a)" "complete_rounds conv"
  shows "complete_rounds p \<and> complete_rounds a"
proof
  show "complete_rounds p" by (rule complete_systems [OF split_systems [OF assms(1)]])
  show "complete_rounds a"
  proof (cases a)
    case (Cons m ms)
    then have "is_request_turn m" using split_active_parts(3) [OF assms(1)] by auto
    with Cons assms(2) split_active_append [OF assms(1)] show ?thesis
      using complete_rounds_cut [of "p @ h" m ms] by (simp add: is_round_boundary_def)
  qed simp
qed

lemma asked_ids_turn: "asked_ids (JObj (turn r t)) = []"
  by (simp add: asked_ids_def turn_def dget_def)

lemma complete_replaced:
  assumes "complete_rounds p" "complete_rounds a"
  shows "complete_rounds (p @ [turn ''user'' t, turn ''assistant'' t'] @ a)"
proof -
  have "complete_rounds [turn ''user'' t, turn ''assistant'' t']"
    by (simp add: complete_rounds_def asked_ids_turn)
  with assms show ?thesis by (intro complete_rounds_append)
qed

lemma compact_keeps_complete:
  assumes "compact_history summarize conv = Inr (Some c)" "complete_rounds conv"
  shows "complete_rounds c"
proof -
  obtain p h a where s: "split_active_context conv = (p, h, a)" by (cases "split_active_context conv")
  with assms(1) obtain t where "c = p @ [summary_turn t, compaction_ack] @ a"
    by (auto simp: compact_history_def bind_res_Inr split: if_splits)
  with complete_replaced active_complete [OF s assms(2)] show ?thesis
    unfolding summary_turn_def compaction_ack_def by blast
qed

lemma shorten_keeps_complete:
  assumes "complete_rounds conv"
  shows "complete_rounds (trim_conversation_for_context_limit conv budget)"
proof -
  obtain p h a where s: "split_active_context conv = (p, h, a)" by (cases "split_active_context conv")
  have bare: "complete_rounds (p @ a)" and full: "complete_rounds (p @ [turn ''user'' t, recovery_ack] @ a)" for t
    using active_complete [OF s assms] complete_replaced complete_rounds_append unfolding recovery_ack_def by blast+
  then show ?thesis
    using s assms by (auto simp: trim_conversation_for_context_limit_def Let_def historical_candidate_def)
qed

lemma fit_keeps_complete:
  assumes f: "fits (fit_request summarize messages tools llm key allow)" and c: "complete_rounds messages"
  shows "complete_rounds (fit_messages (fit_request summarize messages tools llm key allow))"
proof -
  from fit_request_fits [OF f] obtain n where e: "fit_request summarize messages tools llm key allow =
      fit_candidate summarize tools (context_budget_for (model_limits_for llm)) key allow (pruned_of messages) n" by metis
  from fit_candidate_fits [OF f [unfolded e] trigger_le_budget] obtain c' out where
    c': "c' = pruned_of messages \<or> compact_history summarize (pruned_of messages) = Inr (Some c')"
    and out: "fit_messages (fit_request summarize messages tools llm key allow) = out"
      "out = c' \<or> (\<exists>budget. out = trim_conversation_for_context_limit c' budget)" unfolding e by metis
  have "complete_rounds (pruned_of messages)" using c by (rule prune_keeps_complete)
  then have "complete_rounds c'" using c' compact_keeps_complete by metis
  then have "complete_rounds out" using out(2) shorten_keeps_complete by metis
  then show ?thesis unfolding out(1) .
qed

text \<open>A complete conversation is answered in the sense of the adapters.\<close>

lemma calls_left_answered:
  "calls_left pending ms = Some [] \<Longrightarrow> answered pending (map JObj ms)"
proof (induction pending ms rule: calls_left.induct)
  case (2 pending m ms)
  have role: "message_role (JObj m) = r \<longleftrightarrow> role_is r m" if "r \<noteq> []" for r
    using that by (auto simp: message_role_def role_is_def split: json.splits)
  show ?case
    using 2 role [of "''assistant''"] role [of "''tool''"]
    by (auto simp: answered_id_def split: if_split_asm list.splits)
qed simp

lemma complete_rounds_answered: "complete_rounds ms \<Longrightarrow> answered [] (map JObj ms)"
  by (simp add: complete_rounds_def calls_left_answered)

subsection \<open>What a call adds\<close>

definition quiet_event :: "execution_event \<Rightarrow> bool" where
  "quiet_event e \<longleftrightarrow> ev_type e \<notin> {PROVISIONAL_TEXT_DELTA, PROVISIONAL_COMMIT, PROVISIONAL_RETRACT}"

text \<open>Messages that answer the calls \<open>is\<close>, events that concern no draft, and no draft opened or closed.\<close>

definition keeps_drafts :: "'w rstate \<Rightarrow> 'w rstate \<Rightarrow> bool" where
  "keeps_drafts st st' \<longleftrightarrow>
     (\<exists>es. lp_out st' = lp_out st @ es \<and> list_all quiet_event es) \<and> lp_active st' = lp_active st \<and> lp_parts st' = lp_parts st"

definition adds :: "'w rstate \<Rightarrow> json list \<Rightarrow> 'w rstate \<Rightarrow> bool" where
  "adds st is st' \<longleftrightarrow>
     (\<exists>ms. lp_conv st' = lp_conv st @ ms \<and> (\<forall>p. calls_left (is @ p) ms = Some p)) \<and> keeps_drafts st st'"

definition halts :: "'w rstate \<Rightarrow> 'w step_end \<Rightarrow> bool" where
  "halts st s \<longleftrightarrow> (case s of Next _ \<Rightarrow> False | Return st' \<Rightarrow> keeps_drafts st st' | Raise _ st' \<Rightarrow> keeps_drafts st st')"

lemma halts_simps [simp]:
  "\<not> halts st (Next st')" "halts st (Return st') = keeps_drafts st st'" "halts st (Raise e st') = keeps_drafts st st'"
  by (simp_all add: halts_def)

lemma keeps_drafts_trans: "keeps_drafts st st1 \<Longrightarrow> keeps_drafts st1 st2 \<Longrightarrow> keeps_drafts st st2"
  by (auto simp: keeps_drafts_def)

lemma keeps_drafts_refl [simp]: "keeps_drafts st st"
  by (simp add: keeps_drafts_def)

lemma adds_trans:
  assumes "adds st is st1" "adds st1 js st2"
  shows "adds st (is @ js) st2"
proof -
  from assms obtain ms ms' where ms: "lp_conv st1 = lp_conv st @ ms" "\<And>p. calls_left (is @ p) ms = Some p"
    "lp_conv st2 = lp_conv st1 @ ms'" "\<And>p. calls_left (js @ p) ms' = Some p"
    by (auto simp: adds_def)
  then have "lp_conv st2 = lp_conv st @ (ms @ ms')" "calls_left ((is @ js) @ p) (ms @ ms') = Some p" for p
    by (simp_all add: calls_left_append)
  with assms keeps_drafts_trans show ?thesis unfolding adds_def by blast
qed

lemma adds_none: "adds st is st1 \<Longrightarrow> adds st1 [] st2 \<Longrightarrow> adds st is st2"
  using adds_trans [of st "is" st1 "[]" st2] by simp

lemma adds_first: "adds st [] st1 \<Longrightarrow> adds st1 is st2 \<Longrightarrow> adds st is st2"
  using adds_trans [of st "[]" st1 "is" st2] by simp

lemma adds_keeps: "adds st is st' \<Longrightarrow> keeps_drafts st st'"
  by (simp add: adds_def)

lemma halts_after: "keeps_drafts st st1 \<Longrightarrow> halts st1 s \<Longrightarrow> halts st s"
  by (cases s) (auto intro: keeps_drafts_trans)

lemma role_of_turns [simp]:
  "role_is r (tool_turn i t) \<longleftrightarrow> r = ''tool''" "role_is r (system_turn t) \<longleftrightarrow> r = ''system''"
  "dget (tool_turn i t) ''tool_call_id'' = JStr i"
  by (auto simp: role_is_def tool_turn_def system_turn_def dget_def)

lemma not_request_turns [simp]:
  "\<not> is_request_turn (tool_turn i t)" "\<not> is_request_turn (system_turn t)"
  "\<not> is_request_turn (turn ''user'' (RUNTIME_USER_NOTE_PREFIX @ t))"
  by (simp_all add: is_request_turn_def turn_def dget_def starts_with_def)

text \<open>\<open>handles st is p\<close>: the phase answers the calls \<open>is\<close>, or ends the run.\<close>

definition handles :: "'w rstate \<Rightarrow> json list \<Rightarrow> (unit, 'w) phase \<Rightarrow> bool" where
  "handles st is p \<longleftrightarrow> phase_post (\<lambda>_ st'. adds st is st') (halts st) p"

definition judges :: "'w rstate \<Rightarrow> json \<Rightarrow> (call_permit option, 'w) phase \<Rightarrow> bool" where
  "judges st i p \<longleftrightarrow> phase_post (\<lambda>x st'. adds st (if x = None then [i] else []) st') (halts st) p"

lemma handles_after: "adds st is st1 \<Longrightarrow> handles st1 js p \<Longrightarrow> handles st (is @ js) p"
  unfolding handles_def
  by (erule phase_post_mono) (auto intro: adds_trans halts_after adds_keeps)

lemma handles_first: "adds st [] st1 \<Longrightarrow> handles st1 js p \<Longrightarrow> handles st js p"
  using handles_after [of st "[]"] by simp

lemma judges_first: "adds st [] st1 \<Longrightarrow> judges st1 i p \<Longrightarrow> judges st i p"
  unfolding judges_def
  by (erule phase_post_mono) (auto intro: adds_first halts_after adds_keeps)

lemma handles_then_do:
  assumes "handles st is p" "\<And>st'. handles st' js (f () st')"
  shows "handles st (is @ js) (then_do p f)"
  using assms(1) unfolding handles_def [of st "is"]
proof (cases p)
  case (Proceed x st1)
  with assms(1) have "adds st is st1" by (simp add: handles_def)
  with assms(2) Proceed show ?thesis by (simp add: handles_after)
next
  case (Leave s)
  with assms(1) show ?thesis by (simp add: handles_def)
qed

lemmas turn_effects = adds_def keeps_drafts_def quiet_event_def answer_text_event_def budget_text_def incomplete_def

lemma failure_hint_adds [simp]: "adds st [] (failure_hint st)"
  by (auto simp: failure_hint_def say_def turn_effects)

lemma breaker_handles: "handles st [] (breaker key st)"
  by (auto simp: handles_def breaker_def repeats_of_def Let_def yield_events_def turn_effects)

lemma breaker_hint_handles: "handles st [] (then_do (breaker key st) (\<lambda>_ st. Proceed () (failure_hint st)))"
  using handles_then_do [OF breaker_handles, of "[]" "\<lambda>_ st. Proceed () (failure_hint st)"]
  by (simp add: handles_def)

lemma load_schema_adds: "adds st [JStr (tcd_id tc)] (load_schema env tc st)"
  by (auto simp: load_schema_def Let_def note_failure_def add_schema_def show_tool_def yield_events_def say_def call_start_def
      turn_effects split: sum.split)

lemma complete_handshake_adds: "adds st [] (complete_handshake env call st)"
  by (auto simp: complete_handshake_def show_tool_def turn_effects split: sum.split)

lemma world_adds [simp]: "adds st [] (st\<lparr>lp_world := w\<rparr>)"
  by (simp add: turn_effects)

lemma emit_adds [simp]: "list_all quiet_event es \<Longrightarrow> adds st [] (yield_events es st)"
  by (simp add: yield_events_def adds_def keeps_drafts_def)

lemma render_ui_handles: "handles st [JStr (call_id call)] (render_ui env tc call st)"
  by (auto simp: handles_def render_ui_def ui_disabled_def ui_refused_def ui_invalid_def ui_rendered_def Let_def
      note_failure_def forget_failures_def yield_events_def say_def call_start_def turn_effects
      split: prod.split sum.split ui_outcome.split)

lemma refuse_unavailable_handles: "handles st [JStr (call_id call)] (refuse_unavailable env tc call st)"
proof -
  have "adds st [JStr (call_id call)] (note_failure (yield_events [call_start n i a, ev TOOL_CALL_RESULT d] (say [tool_turn (call_id call) t] st)))"
    for n i a d t
    by (simp add: note_failure_def yield_events_def say_def call_start_def turn_effects)
  from handles_after [OF this breaker_hint_handles] show ?thesis
    by (simp add: refuse_unavailable_def Let_def)
qed

lemma approval_refused_judges: "judges st (JStr (call_id call)) (approval_refused tc call d q denial outcome st)"
proof -
  have "adds st [JStr (call_id call)] (note_failure (yield_events [ev TOOL_CALL_RESULT e]
      (say [tool_turn (call_id call) t, system_turn t'] st)))" for e t t'
    by (simp add: note_failure_def yield_events_def say_def turn_effects)
  from handles_after [OF this breaker_handles]
  have "handles st [JStr (call_id call)] (breaker key (note_failure (yield_events [ev TOOL_CALL_RESULT e]
      (say [tool_turn (call_id call) t, system_turn t'] st))))" for key e t t' by simp
  then show ?thesis
    unfolding judges_def handles_def approval_refused_def Let_def by (rule phase_post_then_do) simp
qed

lemma await_approval_judges: "judges st (JStr (call_id call)) (await_approval env tc call d q st)"
proof -
  obtain answer w where w: "rc_wait env q (lp_world st) = (answer, w)" by fastforce
  have "judges st (JStr (call_id call)) (approval_refused tc call d q denial outcome (st\<lparr>lp_world := w\<rparr>))" for denial outcome
    using judges_first [OF world_adds approval_refused_judges] .
  then show ?thesis
    by (simp add: await_approval_def w Let_def split: wait_answer.split bool.split)
      (simp add: judges_def turn_effects)
qed

lemma ask_approval_judges: "judges st (JStr (call_id call)) (ask_approval env rid tc call d st)"
proof -
  obtain aid w1 where aid: "rc_uuid env (lp_world st) = (aid, w1)" by fastforce
  obtain answer w2 where opened: "rc_open env (approval_request_for env rid aid call d (lp_world st)) w1 = (answer, w2)"
    by fastforce
  show ?thesis
  proof (cases answer)
    case (Inl e)
    then show ?thesis by (simp add: ask_approval_def aid opened judges_def turn_effects)
  next
    case (Inr q)
    have "adds st [] (yield_events [approval_event tc presented q] (st\<lparr>lp_world := w2\<rparr>))" for presented
      by (simp add: yield_events_def approval_event_def turn_effects)
    from judges_first [OF this await_approval_judges] Inr show ?thesis by (simp add: ask_approval_def aid opened)
  qed
qed

lemma judge_call_judges: "judges st (JStr (call_id call)) (judge_call env tc call d st)"
proof (cases "allowed d \<or> challenged d \<or> \<not> approval_required d \<or> rc_run_id env = None")
  case True
  then show ?thesis
    by (auto simp: judge_call_def judges_def challenge_call_def block_call_def block_unapproved_def note_failure_def
        failure_hint_def yield_events_def say_def turn_effects)
next
  case False
  then show ?thesis by (auto simp: judge_call_def ask_approval_judges)
qed

lemma vet_call_judges: "judges st (JStr (call_id call)) (vet_call env tc call st)"
proof -
  obtain answer w where answer: "rc_evaluate env call (lp_world st) = (answer, w)" by fastforce
  let ?st = "yield_events [call_start (tcd_name tc) (tcd_id tc) (call_arguments call)] (st\<lparr>lp_world := w\<rparr>)"
  have shown: "adds st [] ?st" by (simp add: yield_events_def call_start_def turn_effects)
  from judges_first [OF this judge_call_judges] adds_keeps [OF this] answer show ?thesis
    by (cases answer) (simp_all add: vet_call_def judges_def)
qed

lemma ask_hooks_judges: "judges st (JStr (call_id call)) (ask_hooks env tc call p st)"
proof -
  have "adds st [JStr (call_id call)] (note_failure (yield_events [ev TOOL_CALL_RESULT e]
      (say [tool_turn (call_id call) t, system_turn t'] st)))" for e t t'
    by (simp add: note_failure_def yield_events_def say_def turn_effects)
  from handles_after [OF this breaker_handles]
  have "handles st [JStr (call_id call)] (breaker key (note_failure (yield_events [ev TOOL_CALL_RESULT e]
      (say [tool_turn (call_id call) t, system_turn t'] st))))" for key e t t' by simp
  then have "judges st (JStr (call_id call)) (hook_denied tc call p denial st)" for denial
    unfolding judges_def handles_def hook_denied_def Let_def
    by (rule phase_post_then_do) (auto intro: adds_none)
  then show ?thesis
    by (auto simp: ask_hooks_def judges_def turn_effects split: option.split prod.split)
qed

lemma settle_result_handles: "handles st [] (settle_result env tc call result st)"
proof (cases "res_is_error result")
  case True
  have "adds st [] (note_failure st)" by (simp add: note_failure_def turn_effects)
  from handles_first [OF this breaker_hint_handles] True show ?thesis by (simp add: settle_result_def)
next
  case False
  then show ?thesis
    by (auto simp: settle_result_def handles_def count_repeat_def forget_failures_def Let_def say_def turn_effects)
qed

subsection \<open>The registry as the runner of tools\<close>

text \<open>What the pairing relies on: normalizing keeps the id of a call, and its result carries it.\<close>

locale tool_runner =
  fixes normalize :: "full_call \<Rightarrow> 'w \<Rightarrow> loop_exc + full_call"
    and run_tool :: "full_call \<Rightarrow> string option \<Rightarrow> approval_scope option \<Rightarrow> 'w \<Rightarrow> (loop_exc + tool_result) \<times> 'w"
  assumes normalize_id: "normalize c w = Inr c' \<Longrightarrow> call_id c' = call_id c"
    and run_id: "fst (run_tool call approval scope w) = Inr result \<Longrightarrow> res_call_id result = call_id call"

definition registry_normalize :: "os_view \<Rightarrow> full_call \<Rightarrow> exec_state \<Rightarrow> loop_exc + full_call" where
  "registry_normalize os call st = map_sum LoopGuard id (normalize_call os (ex_registry st) call)"

definition registry_execute ::
    "digest \<Rightarrow> os_view \<Rightarrow> exec_io \<Rightarrow> provider \<Rightarrow> full_call \<Rightarrow> string option \<Rightarrow> approval_scope option \<Rightarrow> exec_state
     \<Rightarrow> (loop_exc + tool_result) \<times> exec_state" where
  "registry_execute H os io provider call approval scope st =
     map_prod (map_sum LoopExec id) id (authorized_execute H os io provider call approval scope st)"

lemma normalize_call_id: "normalize_call os reg c = Inr c' \<Longrightarrow> call_id c' = call_id c"
  by (auto simp: normalize_call_def bind_res_Inr Let_def split: option.splits prod.splits)

lemma provider_result_id: "provider_result call defn outcome = Inr result \<Longrightarrow> res_call_id result = call_id call"
  by (auto simp: provider_result_def Let_def split: provider_outcome.splits if_splits)

lemma ledger_begin_id:
  "ledger_begin db_ok rid at cid tool key idem tbl = (Inr d, tbl') \<Longrightarrow> dec_result d = Some result \<Longrightarrow> res_call_id result = cid"
  by (auto simp: ledger_begin_def Let_def CLAIMED_def replayed_result_def uncertain_result_def
      split: if_splits option.splits prod.splits)

lemma execute_registered_id:
  assumes "fst (execute_registered H io provider call tool_name defn func env st) = Inr result"
  shows "res_call_id result = call_id call"
  using assms
  by (auto simp: execute_registered_def Let_def finalize_result_def
      dest!: provider_result_id dest: ledger_begin_id
      split: option.splits prod.splits sum.splits if_splits)

lemma execute_id:
  assumes "fst (execute H os io provider call st) = Inr result"
  shows "res_call_id result = call_id call"
  using assms
  by (auto simp: execute_def Let_def error_result_def blocked_result_def guard_backstop_def
      dest!: execute_registered_id dest: normalize_call_id
      split: option.splits prod.splits sum.splits if_splits)

interpretation registry_runner: tool_runner "registry_normalize os" "registry_execute H os io provider" for H os io provider
proof unfold_locales
  show "registry_normalize os c w = Inr c' \<Longrightarrow> call_id c' = call_id c" for c w c'
    by (cases "normalize_call os (ex_registry w) c") (auto simp: registry_normalize_def dest: normalize_call_id)
  show "fst (registry_execute H os io provider call approval scope w) = Inr result \<Longrightarrow> res_call_id result = call_id call"
    for call approval scope w result
  proof -
    assume "fst (registry_execute H os io provider call approval scope w) = Inr result"
    then have "fst (authorized_execute H os io provider call approval scope w) = Inr result"
      by (cases "fst (authorized_execute H os io provider call approval scope w)") (simp_all add: registry_execute_def)
    then show "res_call_id result = call_id call"
      by (auto simp: authorized_execute_def Let_def split: sum.splits prod.splits) (metis execute_id fst_conv)
  qed
qed

subsection \<open>A round over such a runner\<close>

lemma tool_result_adds:
  "adds st [JStr i] (yield_events [executed_event env tc call a result]
     (say (tool_result_messages n i content e) st))"
  "adds st [JStr i] (yield_events [executed_event env tc call a result]
     (say (system_turn t # tool_result_messages n i content e) st))"
  by (auto simp: tool_result_messages_def executed_event_def yield_events_def say_def turn_effects)

context tool_runner begin

lemma execute_call_handles:
  assumes "rc_execute env = run_tool"
  shows "handles st [JStr (call_id call)] (execute_call env tc call p st)"
proof -
  obtain answer w where answer: "run_tool call (fst p) (snd p) (lp_world st) = (answer, w)" by fastforce
  show ?thesis
  proof (cases answer)
    case (Inl e)
    with answer assms show ?thesis by (simp add: execute_call_def handles_def turn_effects)
  next
    case (Inr result)
    then have i: "res_call_id result = call_id call" using run_id [of call "fst p" "snd p" "lp_world st"] answer by simp
    let ?say = "\<lambda>ms. yield_events [executed_event env tc call (fst p) result]
        (say (ms @ tool_result_messages (call_name call) (call_id call) (res_content result) (res_is_error result))
          (st\<lparr>lp_world := w\<rparr>))"
    have settled: "handles st [JStr (call_id call)] (settle_result env tc call result st1)"
      if "adds (st\<lparr>lp_world := w\<rparr>) [JStr (call_id call)] st1" for st1
      using handles_after [OF that settle_result_handles] handles_first [OF world_adds] by fastforce
    have "adds (st\<lparr>lp_world := w\<rparr>) [JStr (call_id call)] (?say [])"
      "adds (st\<lparr>lp_world := w\<rparr>) [JStr (call_id call)] (?say [system_turn t])" for t
      using tool_result_adds [where env = env and st = "st\<lparr>lp_world := w\<rparr>" and i = "call_id call"] by simp_all
    from settled [OF this(1)] settled [OF this(2)] Inr answer i assms show ?thesis
      by (simp add: execute_call_def Let_def)
  qed
qed

lemma run_call_handles:
  assumes "rc_execute env = run_tool"
  shows "handles st [JStr (call_id call)] (run_tool_call env tc call st)"
proof -
  let ?i = "JStr (call_id call)"
  have hooked: "judges st ?i (case p of None \<Rightarrow> Proceed None st' | Some permit \<Rightarrow> ask_hooks env tc call permit st')"
    if "adds st (if p = None then [?i] else []) st'" for p st'
    using that judges_first [OF _ ask_hooks_judges] by (cases p) (simp_all add: judges_def)
  have vetted: "judges st ?i (then_do (vet_call env tc call st)
      (\<lambda>p st. case p of None \<Rightarrow> Proceed None st | Some permit \<Rightarrow> ask_hooks env tc call permit st))"
    using vet_call_judges [of st call env tc] hooked unfolding judges_def by (rule phase_post_then_do)
  show ?thesis
    unfolding run_tool_call_def with_permit_def handles_def
  proof (rule phase_post_then_do [OF vetted [unfolded judges_def]])
    fix p :: "call_permit option" and st' :: "'w rstate" assume "adds st (if p = None then [?i] else []) st'"
    then show "phase_post (\<lambda>_. adds st [?i]) (halts st)
        (case p of None \<Rightarrow> Proceed () st' | Some permit \<Rightarrow> execute_call env tc call permit st')"
      using handles_first [OF _ execute_call_handles [OF assms]]
      by (cases p) (simp_all add: handles_def)
  qed
qed

lemma handle_call_handles:
  assumes "rc_normalize env = normalize" "rc_execute env = run_tool"
  shows "handles st [JStr (tcd_id tc)] (handle_call env tc st)"
proof (cases "rc_lazy env \<and> tcd_name tc = TOOL_SCHEMA_LOADER")
  case True
  then show ?thesis by (simp add: handle_call_def handles_def load_schema_adds)
next
  case False
  show ?thesis
  proof (cases "normalize (raw_call tc) (lp_world st)")
    case (Inl e)
    with False assms show ?thesis by (auto simp: handle_call_def handles_def)
  next
    case (Inr call)
    then have i: "call_id call = tcd_id tc" using normalize_id by (fastforce simp: raw_call_def)
    note after = handles_first [OF complete_handshake_adds [of st env call]]
    show ?thesis
      using False Inr assms(1) after [OF run_call_handles [OF assms(2), of _ call tc]] after [OF render_ui_handles]
        after [OF refuse_unavailable_handles]
      by (auto simp: handle_call_def Let_def i [symmetric])
  qed
qed

lemma handle_calls_handles:
  assumes "rc_normalize env = normalize" "rc_execute env = run_tool"
  shows "handles st (map (\<lambda>c. JStr (tcd_id c)) tcs) (handle_calls env tcs st)"
proof (induction tcs arbitrary: st)
  case Nil
  show ?case by (simp add: handles_def turn_effects)
next
  case (Cons tc tcs)
  from handles_then_do [where f = "\<lambda>_ st. handle_calls env tcs st", OF handle_call_handles [OF assms] Cons.IH]
  show ?case by simp
qed

text \<open>The assistant message of a round asks exactly what its calls answer.\<close>

lemma round_complete:
  assumes "rc_normalize env = normalize" "rc_execute env = run_tool" "complete_rounds (lp_conv st)"
    and "handle_calls env (rs_tool_calls r) (open_round env r st) = Proceed u st'"
  shows "complete_rounds (lp_conv st')"
proof -
  let ?ids = "map (\<lambda>c. JStr (tcd_id c)) (rs_tool_calls r)"
  from handle_calls_handles [OF assms(1,2), of "open_round env r st" "rs_tool_calls r"] assms(4)
  obtain ms where ms: "lp_conv st' = lp_conv (open_round env r st) @ ms" "\<And>p. calls_left (?ids @ p) ms = Some p"
    by (auto simp: handles_def adds_def)
  have "role_is ''assistant'' (calls_turn r)" "asked_ids (JObj (calls_turn r)) = ?ids"
    by (auto simp: calls_turn_def assistant_turn_def role_is_def asked_ids_def dget_def wire_call_def)
  then have "complete_rounds (calls_turn r # ms)"
    using ms(2) [of "[]"] by (simp add: complete_rounds_def)
  with assms(3) ms(1) complete_rounds_append [of "lp_conv st" "calls_turn r # ms"] show ?thesis
    by (simp add: open_round_def say_def)
qed

end

end
