(* ===== verification/React_Safety.thy ===== *)
theory React_Safety
  imports React_Rounds Hooks_Safety Registry_Safety
begin

text \<open>
  What the model loop guarantees: only requests that fit the window and answer every earlier tool
  call reach the model, and a call that the policy or the hooks refuse reaches no tool.
\<close>

subsection \<open>Requests\<close>

definition proper_request :: "llm_object \<Rightarrow> conversation \<Rightarrow> jdict list option \<Rightarrow> bool" where
  "proper_request llm conv tools \<longleftrightarrow>
     complete_rounds conv
     \<and> input_of (measure_request conv tools llm) \<le> safe_input_budget (context_budget_for (model_limits_for llm))"

definition keeps_complete :: "'w step_end \<Rightarrow> bool" where
  "keeps_complete s \<longleftrightarrow> (\<forall>st. s = Next st \<longrightarrow> complete_rounds (lp_conv st))"

lemma keeps_complete_simps [simp]:
  "keeps_complete (Next st) = complete_rounds (lp_conv st)" "keeps_complete (Return st)" "keeps_complete (Raise e st)"
  by (simp_all add: keeps_complete_def)

lemma conv_frame [simp]:
  "lp_conv (yield_events es st) = lp_conv st" "lp_conv (retract_all why st) = lp_conv st"
  "lp_tools (yield_events es st) = lp_tools st" "lp_tools (retract_all why st) = lp_tools st"
  by (simp_all add: yield_events_def retract_all_def)

lemma receipt_of_tools: "tool_list tools = tool_list tools' \<Longrightarrow> receipt_for ms tools b = receipt_for ms tools' b"
  by (simp add: receipt_for_def estimate_tool_schema_tokens_def)

lemma fit_result_tools [simp]: "tool_list (fit_tools (fit_result tools key s c r al)) = tool_list tools"
  by (simp add: fit_result_def tool_list_def split: option.split)

lemma fit_request_tools [simp]:
  "tool_list (fit_tools (fit_request summarize messages tools llm key allow)) = tool_list tools"
  by (simp add: fit_request_def fit_candidate_def Let_def split: prod.split)

lemma prepare_request_proper:
  assumes "complete_rounds (lp_conv st)" "prepare_request env st = Proceed fit st'"
  shows "proper_request (rc_llm env) (lp_conv st') (lp_tools st')"
proof -
  let ?conv = "trim_conversation_to_message_cap (lp_conv st)"
  let ?fit = "fit_request (rc_summarize env (lp_world st)) ?conv (lp_tools st) (rc_llm env) (rc_prefix_key env) (lp_compaction_ok st)"
  have fit: "fits ?fit" "lp_conv st' = fit_messages ?fit" "lp_tools st' = fit_tools ?fit"
    using assms(2)
    by (auto simp: prepare_request_def fit_step_def count_compaction_def Let_def split: if_split_asm)
  have "complete_rounds (fit_messages ?fit)"
    using fit(1) trim_keeps_complete [OF assms(1)] by (rule fit_keeps_complete)
  moreover have "measure_request (fit_messages ?fit) (fit_tools ?fit) (rc_llm env) = fit_receipt ?fit"
    using fit_receipt_sent(1) [OF fit(1)] receipt_of_tools [OF fit_request_tools]
    by (simp add: measure_request_def)
  ultimately show ?thesis
    using fit_receipt_sent(2) [OF fit(1)] fit(2,3) by (simp add: proper_request_def)
qed

subsection \<open>Every iteration leaves the rounds answered\<close>

lemma context_refused_complete:
  "complete_rounds (lp_conv st) \<Longrightarrow> keeps_complete (context_refused env st)"
  by (simp add: context_refused_def recover_context_def shorten_keeps_complete)

lemma ask_plain_complete:
  "complete_rounds (lp_conv st) \<Longrightarrow>
     phase_post (\<lambda>_ st'. complete_rounds (lp_conv st')) keeps_complete (ask_plain env key st)"
  by (auto simp: ask_plain_def Let_def intro: context_refused_complete split: prod.split sum.split)

lemma stream_events_conv [simp]:
  "lp_conv (stream_events pid es st) = lp_conv st" "lp_tools (stream_events pid es st) = lp_tools st"
  unfolding stream_events_def
  by (induction es arbitrary: st) (auto simp: stream_event_def Let_def show_draft_def yield_events_def split: option.split)

lemma ask_model_complete:
  assumes "complete_rounds (lp_conv st)"
  shows "phase_post (\<lambda>_ st'. complete_rounds (lp_conv st')) keeps_complete (ask_model env fit st)"
proof -
  have "phase_post (\<lambda>_ st'. complete_rounds (lp_conv st')) keeps_complete (stream_failed env key e saw st')"
    if "lp_conv st' = lp_conv st" for key e saw st'
    using assms that by (simp add: stream_failed_def ask_plain_complete context_refused_complete)
  then show ?thesis
    using assms
    by (auto simp: ask_model_def Let_def ask_plain_complete ask_stream_def split: prod.split option.split sum.split)
qed

lemma report_conv: "phase_post (\<lambda>_ st'. lp_conv st' = lp_conv st) keeps_complete (report env fit r st)"
  by (simp add: report_def split: sum.split)

lemma finish_text_complete:
  assumes "complete_rounds (lp_conv st)"
  shows "keeps_complete (finish_text r streamed st)"
proof -
  have "asked_ids (JObj (assistant_turn t reasoning)) = []" "role_is ''assistant'' (assistant_turn t reasoning)" for t reasoning
    by (simp_all add: assistant_turn_def asked_ids_def role_is_def dget_def)
  then have "complete_rounds (lp_conv st @ [assistant_turn t reasoning, system_turn h])" for t reasoning h
    using assms by (intro complete_rounds_append) (simp_all add: complete_rounds_def)
  then show ?thesis
    by (simp add: finish_text_def length_limited_def complete_text_def Let_def say_def)
qed

lemma close_round_complete: "complete_rounds (lp_conv st) \<Longrightarrow> keeps_complete (close_round st)"
  by (simp add: close_round_def close_failed_def Let_def)

lemma reply_step_complete:
  fixes st :: "'a rstate"
  assumes "tool_runner (rc_normalize env) (rc_execute env)" "complete_rounds (lp_conv st)"
  shows "keeps_complete (reply_step env r streamed st)"
proof (cases "rs_tool_calls r = []")
  case True
  then show ?thesis using assms(2) by (simp add: reply_step_def finish_text_complete)
next
  case False
  have ended: "keeps_complete s" if "ends s" for s :: "'a step_end"
    using that by (cases s) simp_all
  have "keeps_complete s" if "cut_calls r st' = Some s" for s and st' :: "'a rstate"
    using cut_calls_ends [OF that] by (rule ended)
  moreover have "keeps_complete (tool_round env r st')" if "complete_rounds (lp_conv st')" for st'
  proof (cases "handle_calls env (rs_tool_calls r) (open_round env r st')")
    case (Proceed u st1)
    from tool_runner.round_complete [OF assms(1) refl refl that Proceed] Proceed show ?thesis
      by (simp add: tool_round_def close_round_complete)
  next
    case (Leave s)
    with handle_calls_post [of "open_round env r st'" "rs_tool_calls r" env] show ?thesis
      by (simp add: tool_round_def ended)
  qed
  ultimately show ?thesis
    using False assms(2) by (auto simp: reply_step_def Let_def drop_drafts_def split: option.split)
qed

lemma react_step_complete:
  assumes "tool_runner (rc_normalize env) (rc_execute env)" "complete_rounds (lp_conv st)"
  shows "keeps_complete (react_step env st)"
  unfolding react_step_def
proof (rule phase_post_finish_with [where Q = "\<lambda>_ st'. complete_rounds (lp_conv st')"])
  have first: "phase_post (\<lambda>_ st'. complete_rounds (lp_conv st')) keeps_complete (prepare_request env st)"
    using prepare_request_proper [OF assms(2)]
    by (cases "prepare_request env st") (auto simp: proper_request_def prepare_request_def split: prod.splits if_split_asm)
  show "phase_post (\<lambda>_ st'. complete_rounds (lp_conv st')) keeps_complete
    (then_do (prepare_request env st) (\<lambda>fit st. then_do (ask_model env fit st)
       (\<lambda>reply st. then_do (report env fit (fst reply) st) (\<lambda>_ st. Proceed reply st))))"
    by (rule phase_post_then_do [OF first], rule phase_post_then_do [OF ask_model_complete], assumption,
        rule phase_post_then_do [OF report_conv]) simp
qed (rule reply_step_complete [OF assms(1)])

subsection \<open>What does not depend on the model and the tools\<close>

text \<open>The loop over another model and other tools.\<close>

definition rewired ::
    "(conversation \<Rightarrow> jdict list option \<Rightarrow> string option \<Rightarrow> 'w \<Rightarrow> (llm_exc + chat_response) \<times> 'w)
     \<Rightarrow> (conversation \<Rightarrow> jdict list option \<Rightarrow> string option \<Rightarrow> 'w \<Rightarrow> (provider_event list \<times> llm_exc option) \<times> 'w)
     \<Rightarrow> (full_call \<Rightarrow> string option \<Rightarrow> approval_scope option \<Rightarrow> 'w \<Rightarrow> (loop_exc + tool_result) \<times> 'w)
     \<Rightarrow> 'w react_env \<Rightarrow> 'w react_env" where
  "rewired c s x env = env\<lparr>rc_chat := c, rc_chat_events := s, rc_execute := x\<rparr>"

named_theorems rewired_simps

lemma rewired_fields [rewired_simps]:
  "rc_llm (rewired c s x env) = rc_llm env"
  "rc_streams (rewired c s x env) = rc_streams env"
  "rc_prefix_capable (rewired c s x env) = rc_prefix_capable env"
  "rc_summarize (rewired c s x env) = rc_summarize env"
  "rc_after_fit (rewired c s x env) = rc_after_fit env"
  "rc_uuid (rewired c s x env) = rc_uuid env"
  "rc_digest (rewired c s x env) = rc_digest env"
  "rc_percent (rewired c s x env) = rc_percent env"
  "rc_max_iters (rewired c s x env) = rc_max_iters env"
  "rc_provisional (rewired c s x env) = rc_provisional env"
  "rc_prefix_key (rewired c s x env) = rc_prefix_key env"
  "rc_lazy (rewired c s x env) = rc_lazy env"
  "rc_schemas (rewired c s x env) = rc_schemas env"
  "rc_has_tools (rewired c s x env) = rc_has_tools env"
  "rc_unavailable (rewired c s x env) = rc_unavailable env"
  "rc_normalize (rewired c s x env) = rc_normalize env"
  "rc_description (rewired c s x env) = rc_description env"
  "rc_os (rewired c s x env) = rc_os env"
  "rc_working_dir (rewired c s x env) = rc_working_dir env"
  "rc_begin_round (rewired c s x env) = rc_begin_round env"
  "rc_evaluate (rewired c s x env) = rc_evaluate env"
  "rc_run_id (rewired c s x env) = rc_run_id env"
  "rc_open (rewired c s x env) = rc_open env"
  "rc_wait (rewired c s x env) = rc_wait env"
  "rc_hooks (rewired c s x env) = rc_hooks env"
  "rc_chat (rewired c s x env) = c"
  "rc_chat_events (rewired c s x env) = s"
  "rc_execute (rewired c s x env) = x"
  by (simp_all add: rewired_def)

lemma rewired_context_usage_event [rewired_simps]: "context_usage_event (rewired c s x env) = context_usage_event env"
  by (intro ext) (unfold context_usage_event_def rewired_simps, rule refl)

lemma rewired_fit_step [rewired_simps]: "fit_step (rewired c s x env) = fit_step env"
  by (intro ext) (unfold fit_step_def rewired_simps, rule refl)

lemma rewired_prepare_request [rewired_simps]: "prepare_request (rewired c s x env) = prepare_request env"
  by (intro ext) (unfold prepare_request_def rewired_simps, rule refl)

lemma rewired_provider_prefix_key [rewired_simps]: "provider_prefix_key (rewired c s x env) = provider_prefix_key env"
  by (intro ext) (unfold provider_prefix_key_def rewired_simps, rule refl)

lemma rewired_recover_context [rewired_simps]: "recover_context (rewired c s x env) = recover_context env"
  by (intro ext) (unfold recover_context_def rewired_simps, rule refl)

lemma rewired_context_refused [rewired_simps]: "context_refused (rewired c s x env) = context_refused env"
  by (intro ext) (unfold context_refused_def rewired_simps, rule refl)

lemma rewired_report [rewired_simps]: "report (rewired c s x env) = report env"
  by (intro ext) (unfold report_def rewired_simps, rule refl)

lemma rewired_requested_tool_schema [rewired_simps]: "requested_tool_schema (rewired c s x env) = requested_tool_schema env"
  by (intro ext) (unfold requested_tool_schema_def rewired_simps, rule refl)

lemma rewired_load_schema [rewired_simps]: "load_schema (rewired c s x env) = load_schema env"
  by (intro ext) (unfold load_schema_def rewired_simps, rule refl)

lemma rewired_complete_handshake [rewired_simps]: "complete_handshake (rewired c s x env) = complete_handshake env"
  by (intro ext) (unfold complete_handshake_def rewired_simps, rule refl)

lemma rewired_render_ui [rewired_simps]: "render_ui (rewired c s x env) = render_ui env"
  by (intro ext) (unfold render_ui_def rewired_simps, rule refl)

lemma rewired_refuse_unavailable [rewired_simps]: "refuse_unavailable (rewired c s x env) = refuse_unavailable env"
  by (intro ext) (unfold refuse_unavailable_def rewired_simps, rule refl)

lemma rewired_approval_request_for [rewired_simps]: "approval_request_for (rewired c s x env) = approval_request_for env"
  by (intro ext) (unfold approval_request_for_def rewired_simps, rule refl)

lemma rewired_await_approval [rewired_simps]: "await_approval (rewired c s x env) = await_approval env"
  by (intro ext) (unfold await_approval_def rewired_simps, rule refl)

lemma rewired_ask_approval [rewired_simps]: "ask_approval (rewired c s x env) = ask_approval env"
  by (intro ext) (unfold ask_approval_def rewired_simps, rule refl)

lemma rewired_judge_call [rewired_simps]: "judge_call (rewired c s x env) = judge_call env"
  by (intro ext) (unfold judge_call_def rewired_simps, rule refl)

lemma rewired_vet_call [rewired_simps]: "vet_call (rewired c s x env) = vet_call env"
  by (intro ext) (unfold vet_call_def rewired_simps, rule refl)

lemma rewired_ask_hooks [rewired_simps]: "ask_hooks (rewired c s x env) = ask_hooks env"
  by (intro ext) (unfold ask_hooks_def rewired_simps, rule refl)

lemma rewired_hook_warnings [rewired_simps]: "hook_warnings (rewired c s x env) = hook_warnings env"
  by (intro ext) (unfold hook_warnings_def rewired_simps, rule refl)

lemma rewired_tool_result_hash [rewired_simps]: "tool_result_hash (rewired c s x env) = tool_result_hash env"
  by (intro ext) (unfold tool_result_hash_def rewired_simps, rule refl)

lemma rewired_executed_event [rewired_simps]: "executed_event (rewired c s x env) = executed_event env"
  by (intro ext) (unfold executed_event_def rewired_simps, rule refl)

lemma rewired_repeat_key [rewired_simps]: "repeat_key (rewired c s x env) = repeat_key env"
  by (intro ext) (unfold repeat_key_def rewired_simps, rule refl)

lemma rewired_count_repeat [rewired_simps]: "count_repeat (rewired c s x env) = count_repeat env"
  by (intro ext) (unfold count_repeat_def rewired_simps, rule refl)

lemma rewired_settle_result [rewired_simps]: "settle_result (rewired c s x env) = settle_result env"
  by (intro ext) (unfold settle_result_def rewired_simps, rule refl)

lemma rewired_open_round [rewired_simps]: "open_round (rewired c s x env) = open_round env"
  by (intro ext) (unfold open_round_def rewired_simps, rule refl)

lemma rewired_initial_tools [rewired_simps]: "initial_tools (rewired c s x env) = initial_tools env"
  by (intro ext) (unfold initial_tools_def rewired_simps, rule refl)

lemma rewired_react_start [rewired_simps]: "react_start (rewired c s x env) = react_start env"
  by (intro ext) (unfold react_start_def rewired_simps, rule refl)

lemma rewired_handle_calls:
  assumes "\<And>tc st. handle_call (rewired c s x env) tc st = handle_call env tc st"
  shows "handle_calls (rewired c s x env) tcs st = handle_calls env tcs st"
proof (induction tcs arbitrary: st)
  case (Cons tc tcs)
  then have "handle_calls (rewired c s x env) tcs = handle_calls env tcs" by (intro ext)
  with assms show ?case by simp
qed simp

lemma rewired_reply_step:
  assumes "\<And>tc st. handle_call (rewired c s x env) tc st = handle_call env tc st"
  shows "reply_step (rewired c s x env) r streamed st = reply_step env r streamed st"
  unfolding reply_step_def tool_round_def rewired_simps rewired_handle_calls [OF assms] ..

lemma then_do_cong:
  assumes "\<And>x st. p = Proceed x st \<Longrightarrow> f x st = g x st"
  shows "then_do p f = then_do p g"
  using assms by (cases p) simp_all

lemma rewired_react_step:
  assumes "\<And>tc st. handle_call (rewired c s x env) tc st = handle_call env tc st"
    and "\<And>fit st'. prepare_request env st = Proceed fit st' \<Longrightarrow> ask_model (rewired c s x env) fit st' = ask_model env fit st'"
  shows "react_step (rewired c s x env) st = react_step env st"
proof -
  have "then_do (prepare_request env st) (\<lambda>fit st. then_do (ask_model (rewired c s x env) fit st) (f fit))
      = then_do (prepare_request env st) (\<lambda>fit st. then_do (ask_model env fit st) (f fit))"
    for f :: "context_fit_result \<Rightarrow> chat_response \<times> bool \<Rightarrow> 'a rstate \<Rightarrow> (chat_response \<times> bool, 'a) phase"
    using assms(2) by (intro then_do_cong) simp
  then show ?thesis
    unfolding react_step_def rewired_simps rewired_reply_step [OF assms(1)] by simp
qed

lemma rewired_react_loop:
  assumes "\<And>st. P st \<Longrightarrow> react_step (rewired c s x env) st = react_step env st"
    and "\<And>st st'. P st \<Longrightarrow> react_step env st = Next st' \<Longrightarrow> P st'"
    and "P st"
  shows "react_loop (rewired c s x env) st = react_loop env st"
  using assms(3)
proof (induction "budget_left env st" arbitrary: st rule: less_induct)
  case less
  show ?case
  proof (cases "lp_productive st < rc_max_iters env")
    case False
    then show ?thesis by (simp add: react_loop.simps rewired_simps)
  next
    case True
    have "react_loop (rewired c s x env) st' = react_loop env st'" if "react_step env st = Next st'" for st'
      using less.hyps [OF react_step_decreases [OF True that]] assms(2) [OF less.prems that] by blast
    with True assms(1) [OF less.prems] show ?thesis
      by (simp add: react_loop.simps [of "rewired c s x env" st] react_loop.simps [of env st] rewired_simps
          split: step_end.split)
  qed
qed

text \<open>Requests that are not proper may be answered in any way.\<close>

lemma ask_model_agrees:
  assumes "\<And>key w. c (lp_conv st) (lp_tools st) key w = rc_chat env (lp_conv st) (lp_tools st) key w"
    and "\<And>key w. s (lp_conv st) (lp_tools st) key w = rc_chat_events env (lp_conv st) (lp_tools st) key w"
  shows "ask_model (rewired c s x env) fit st = ask_model env fit st"
proof -
  have plain: "ask_plain (rewired c s x env) key st' = ask_plain env key st'"
    if "lp_conv st' = lp_conv st" "lp_tools st' = lp_tools st" for key st'
    unfolding ask_plain_def rewired_simps that assms(1) ..
  have failed: "stream_failed (rewired c s x env) key e saw st' = stream_failed env key e saw st'"
    if "lp_conv st' = lp_conv st" "lp_tools st' = lp_tools st" for key e saw st'
    unfolding stream_failed_def plain [OF that] rewired_simps ..
  have "ask_stream (rewired c s x env) key st = ask_stream env key st" for key
    unfolding ask_stream_def rewired_simps assms(2)
    by (simp add: Let_def failed split: prod.split option.split)
  then show ?thesis by (simp add: ask_model_def rewired_simps plain Let_def)
qed

lemma handle_call_same_tools: "handle_call (rewired c s (rc_execute env) env) tc st = handle_call env tc st"
proof -
  have "execute_call (rewired c s (rc_execute env) env) = execute_call env"
    by (intro ext) (unfold execute_call_def rewired_simps, rule refl)
  then have run: "run_tool_call (rewired c s (rc_execute env) env) = run_tool_call env"
    by (intro ext) (unfold run_tool_call_def rewired_simps, simp)
  show ?thesis unfolding handle_call_def rewired_simps run ..
qed

text \<open>
  C19. A model is only asked with a conversation that answers every earlier tool call before the
  next assistant message and with a request that fits its window: what it would say to any other
  request changes nothing in the run.
\<close>

theorem only_proper_requests_are_sent:
  assumes "tool_runner (rc_normalize env) (rc_execute env)" "complete_rounds messages"
    and "\<forall>conv tools key w. proper_request (rc_llm env) conv tools \<longrightarrow>
           chat conv tools key w = rc_chat env conv tools key w \<and> events conv tools key w = rc_chat_events env conv tools key w"
  shows "react_event_loop (env\<lparr>rc_chat := chat, rc_chat_events := events\<rparr>) messages w = react_event_loop env messages w"
proof -
  let ?env = "rewired chat events (rc_execute env) env"
  have step: "react_step ?env st = react_step env st" if "complete_rounds (lp_conv st)" for st
    using assms(3) prepare_request_proper [OF that]
    by (intro rewired_react_step handle_call_same_tools ask_model_agrees) simp_all
  have keep: "complete_rounds (lp_conv st')" if "complete_rounds (lp_conv st)" "react_step env st = Next st'" for st st'
    using react_step_complete [OF assms(1) that(1)] that(2) by (simp add: keeps_complete_def)
  have "complete_rounds (lp_conv (react_start env messages w))"
    using assms(2) by (simp add: react_start_def Let_def)
  from rewired_react_loop [where P = "\<lambda>st. complete_rounds (lp_conv st)", OF step keep this]
  have "react_event_loop ?env messages w = react_event_loop env messages w"
    by (simp add: react_event_loop_def rewired_simps)
  then show ?thesis by (simp add: rewired_def)
qed

subsection \<open>Which calls run\<close>

text \<open>
  The policy permits a call it allows, without an approval, and a call that needs one with the id
  of a request that was opened for this call and approved; in both cases with the scope it names.
\<close>

definition policy_permits :: "'w react_env \<Rightarrow> full_call \<Rightarrow> call_permit \<Rightarrow> bool" where
  "policy_permits env call p \<longleftrightarrow>
     (\<exists>w d w'. rc_evaluate env call w = (Inr d, w') \<and> snd p = dec_scope d
        \<and> (allowed d \<and> fst p = None
           \<or> \<not> allowed d \<and> \<not> challenged d \<and> approval_required d
             \<and> (\<exists>rid aid w1 w2 q w3 w4. rc_run_id env = Some rid
                  \<and> rc_open env (approval_request_for env rid aid call d w1) w2 = (Inr q, w3)
                  \<and> fst (rc_wait env q w4) = Decided True \<and> fst p = Some (req_approval_id q))))"

definition hooks_permit :: "'w react_env \<Rightarrow> full_call \<Rightarrow> bool" where
  "hooks_permit env call \<longleftrightarrow>
     (case rc_hooks env of None \<Rightarrow> True
      | Some reg \<Rightarrow> (\<exists>w. fst (run_pre_hooks reg (call_name call) (call_arguments call) None w)))"

definition call_permitted :: "'w react_env \<Rightarrow> full_call \<Rightarrow> call_permit \<Rightarrow> bool" where
  "call_permitted env call p \<longleftrightarrow> policy_permits env call p \<and> hooks_permit env call \<and> call_name call \<noteq> ''render_ui''"

definition yields_only :: "(call_permit \<Rightarrow> bool) \<Rightarrow> (call_permit option, 'w) phase \<Rightarrow> bool" where
  "yields_only P ph \<longleftrightarrow> phase_post (\<lambda>p _. \<forall>x. p = Some x \<longrightarrow> P x) (\<lambda>_. True) ph"

lemma approval_refused_yields: "yields_only P (approval_refused tc call d q denial outcome st)"
  by (simp add: yields_only_def approval_refused_def breaker_def repeats_of_def Let_def)

lemma ask_approval_yields:
  assumes "rc_evaluate env call w = (Inr d, w')" "\<not> allowed d" "\<not> challenged d" "approval_required d" "rc_run_id env = Some rid"
  shows "yields_only (policy_permits env call) (ask_approval env rid tc call d st)"
proof -
  obtain aid w1 where aid: "rc_uuid env (lp_world st) = (aid, w1)" by fastforce
  obtain answer w2 where opened: "rc_open env (approval_request_for env rid aid call d (lp_world st)) w1 = (answer, w2)"
    by fastforce
  show ?thesis
  proof (cases answer)
    case (Inl e)
    then show ?thesis by (simp add: ask_approval_def aid opened yields_only_def)
  next
    case (Inr q)
    obtain decided w3 where waited: "rc_wait env q w2 = (decided, w3)" by fastforce
    have "policy_permits env call (Some (req_approval_id q), dec_scope d)" if "decided = Decided True"
      using assms opened Inr waited that unfolding policy_permits_def by (metis fst_conv snd_conv)
    with Inr show ?thesis
      using approval_refused_yields
      by (auto simp: ask_approval_def aid opened await_approval_def yield_events_def waited Let_def yields_only_def
          split: wait_answer.split bool.split)
  qed
qed

lemma vet_call_yields: "yields_only (policy_permits env call) (vet_call env tc call st)"
proof -
  obtain answer w where answer: "rc_evaluate env call (lp_world st) = (answer, w)" by fastforce
  show ?thesis
  proof (cases answer)
    case (Inl e)
    with answer show ?thesis by (simp add: vet_call_def yields_only_def)
  next
    case (Inr d)
    with answer have evaluated: "rc_evaluate env call (lp_world st) = (Inr d, w)" by simp
    have "policy_permits env call (None, dec_scope d)" if "allowed d"
      using evaluated that unfolding policy_permits_def by fastforce
    then have "yields_only (policy_permits env call) (judge_call env tc call d st')" for st'
      using ask_approval_yields [OF evaluated] by (simp add: judge_call_def yields_only_def split: option.split)
    with answer Inr show ?thesis by (simp add: vet_call_def)
  qed
qed

lemma ask_hooks_yields: "yields_only (\<lambda>x. x = p \<and> hooks_permit env call) (ask_hooks env tc call p st)"
proof (cases "rc_hooks env")
  case None
  then show ?thesis by (simp add: ask_hooks_def yields_only_def hooks_permit_def)
next
  case (Some reg)
  obtain passes denial where hooks: "run_pre_hooks reg (call_name call) (call_arguments call) None (lp_world st) = (passes, denial)"
    by fastforce
  have "hooks_permit env call" if passes
    using Some hooks that unfolding hooks_permit_def by (auto intro: exI [of _ "lp_world st"])
  moreover have "yields_only P (hook_denied tc call p t st)" for P t
    by (simp add: yields_only_def hook_denied_def breaker_def repeats_of_def Let_def)
  ultimately show ?thesis
    by (cases passes) (simp_all add: ask_hooks_def Some hooks, simp add: yields_only_def)
qed

lemma vetted_yields:
  "yields_only (\<lambda>p. policy_permits env call p \<and> hooks_permit env call)
     (then_do (vet_call env tc call st)
        (\<lambda>p st. case p of None \<Rightarrow> Proceed None st | Some permit \<Rightarrow> ask_hooks env tc call permit st))"
proof -
  have "phase_post (\<lambda>x _. \<forall>y. x = Some y \<longrightarrow> policy_permits env call y \<and> hooks_permit env call) (\<lambda>_. True)
      (case p of None \<Rightarrow> Proceed None st' | Some permit \<Rightarrow> ask_hooks env tc call permit st')"
    if "\<forall>x. p = Some x \<longrightarrow> policy_permits env call x" for p st'
    using that ask_hooks_yields [of "the p" env call tc st']
    by (cases p) (auto simp: yields_only_def elim!: phase_post_mono)
  with vet_call_yields [of env call tc st] show ?thesis
    unfolding yields_only_def by (rule phase_post_then_do)
qed

lemma handle_call_agrees:
  assumes "\<forall>call approval scope w. call_permitted env call (approval, scope) \<longrightarrow> x call approval scope w = rc_execute env call approval scope w"
  shows "handle_call (rewired (rc_chat env) (rc_chat_events env) x env) tc st = handle_call env tc st"
proof -
  let ?env = "rewired (rc_chat env) (rc_chat_events env) x env"
  have execute: "execute_call ?env tc call p st = execute_call env tc call p st" if "call_permitted env call p" for call p st
  proof -
    have "x call (fst p) (snd p) w = rc_execute env call (fst p) (snd p) w" for w using assms that by simp
    then show ?thesis unfolding execute_call_def rewired_simps by simp
  qed
  have run: "run_tool_call ?env tc call st = run_tool_call env tc call st" if "call_name call \<noteq> ''render_ui''" for call st
    unfolding run_tool_call_def with_permit_def rewired_simps
  proof (rule then_do_cong)
    fix p st'
    assume "then_do (vet_call env tc call st)
        (\<lambda>p st. case p of None \<Rightarrow> Proceed None st | Some permit \<Rightarrow> ask_hooks env tc call permit st) = Proceed p st'"
    with vetted_yields [of env call tc st] that have "call_permitted env call y" if "p = Some y" for y
      using that by (cases y) (simp add: yields_only_def call_permitted_def)
    with execute show "(case p of None \<Rightarrow> Proceed () st' | Some permit \<Rightarrow> execute_call ?env tc call permit st')
        = (case p of None \<Rightarrow> Proceed () st' | Some permit \<Rightarrow> execute_call env tc call permit st')"
      by (simp split: option.split)
  qed
  then show ?thesis
    unfolding handle_call_def rewired_simps by (simp add: Let_def split: sum.split)
qed

text \<open>
  C18. A tool runs only with a permit: the policy allowed this very call, or the user approved a
  request that was opened for it, the scope is the one the policy named, and the hooks let it
  pass.  What the tools would do under any other permit changes nothing in the run.
\<close>

theorem only_permitted_calls_run:
  assumes "\<forall>call approval scope w. call_permitted env call (approval, scope) \<longrightarrow>
             run_tool call approval scope w = rc_execute env call approval scope w"
  shows "react_event_loop (env\<lparr>rc_execute := run_tool\<rparr>) messages w = react_event_loop env messages w"
proof -
  let ?env = "rewired (rc_chat env) (rc_chat_events env) run_tool env"
  have step: "react_step ?env st = react_step env st" for st
    using handle_call_agrees [OF assms] by (intro rewired_react_step ask_model_agrees) simp_all
  from rewired_react_loop [where P = "\<lambda>_. True", OF step]
  have "react_event_loop ?env messages w = react_event_loop env messages w"
    by (simp add: react_event_loop_def rewired_simps)
  then show ?thesis by (simp add: rewired_def)
qed

subsection \<open>Witnesses\<close>

text \<open>A model that calls the file tool once and then answers, under a policy that allows this tool only.\<close>

definition demo_reply :: "tool_call_data list \<Rightarrow> chat_response" where
  "demo_reply tcs = \<lparr>rs_text = (if tcs = [] then ''done'' else []), rs_reasoning = [], rs_tool_calls = tcs, rs_usage = None,
     rs_finish_reason = Some (if tcs = [] then ''stop'' else ''tool_calls''), rs_raw_finish_reason = None, rs_model = ''m''\<rparr>"

definition demo_chat ::
    "conversation \<Rightarrow> jdict list option \<Rightarrow> string option \<Rightarrow> exec_state \<Rightarrow> (llm_exc + chat_response) \<times> exec_state" where
  "demo_chat conv tools key st =
     (Inr (demo_reply (if ex_invocations st = []
        then [\<lparr>tcd_id = ''c'', tcd_name = ''file_tool'', tcd_arguments = [(''path'', JStr ''a'')]\<rparr>] else [])), st)"

definition demo_policy :: "full_call \<Rightarrow> exec_state \<Rightarrow> (loop_exc + decision) \<times> exec_state" where
  "demo_policy call st = (Inr (ALLOW\<lparr>allowed := call_name call = ''file_tool''\<rparr>), st)"

definition demo_loop :: "exec_state react_env" where
  "demo_loop = \<lparr>rc_llm = gap_llm, rc_streams = False, rc_prefix_capable = False, rc_chat = demo_chat,
     rc_chat_events = (\<lambda>_ _ _ st. (([], None), st)), rc_summarize = (\<lambda>_ _. Inl (OtherFailure ''x'')),
     rc_after_fit = (\<lambda>_ _ _ st. st), rc_uuid = (\<lambda>st. (''u'', st)), rc_digest = demo_digest, rc_percent = (\<lambda>_ _. 0),
     rc_max_iters = DEFAULT_MAX_REACT_ITERS, rc_provisional = False, rc_prefix_key = None, rc_lazy = False,
     rc_schemas = (\<lambda>_ _. [[(''function'', JObj [(''name'', JStr ''file_tool'')])]]), rc_has_tools = (\<lambda>_. True),
     rc_unavailable = None, rc_normalize = registry_normalize demo_os, rc_description = (\<lambda>_ _. []),
     rc_execute = registry_execute demo_digest demo_os demo_io demo_provider, rc_os = demo_os, rc_working_dir = None,
     rc_begin_round = id, rc_evaluate = demo_policy, rc_run_id = None, rc_open = (\<lambda>q st. (Inr q, st)),
     rc_wait = (\<lambda>_ st. (WaitTimeout, st)), rc_hooks = None\<rparr>"

definition demo_task :: conversation where
  "demo_task = [turn ''user'' ''do it'']"

lemma demo_runner: "tool_runner (rc_normalize demo_loop) (rc_execute demo_loop)"
  using registry_runner.tool_runner_axioms by (simp add: demo_loop_def)

lemma demo_task_complete: "complete_rounds demo_task"
  by code_simp

text \<open>A model that fails on requests that are not proper, and tools that fail but for the file tool.\<close>

definition picky_chat ::
    "conversation \<Rightarrow> jdict list option \<Rightarrow> string option \<Rightarrow> exec_state \<Rightarrow> (llm_exc + chat_response) \<times> exec_state" where
  "picky_chat conv tools key st =
     (if proper_request gap_llm conv tools then demo_chat conv tools key st else (Inl (OtherFailure ''x''), st))"

definition picky_tools ::
    "full_call \<Rightarrow> string option \<Rightarrow> approval_scope option \<Rightarrow> exec_state \<Rightarrow> (loop_exc + tool_result) \<times> exec_state" where
  "picky_tools call approval scope st =
     (if call_name call = ''file_tool'' \<and> approval = None then rc_execute demo_loop call approval scope st
      else (Inl (LoopLlm (OtherFailure ''x'')), st))"

theorem only_proper_requests_are_sent_witness:
  "react_event_loop (demo_loop\<lparr>rc_chat := picky_chat, rc_chat_events := rc_chat_events demo_loop\<rparr>) demo_task (demo_state False None None)
   = react_event_loop demo_loop demo_task (demo_state False None None)"
  by (rule only_proper_requests_are_sent [OF demo_runner demo_task_complete]) (simp add: picky_chat_def demo_loop_def)

theorem only_permitted_calls_run_witness:
  "react_event_loop (demo_loop\<lparr>rc_execute := picky_tools\<rparr>) demo_task (demo_state False None None)
   = react_event_loop demo_loop demo_task (demo_state False None None)
   \<and> \<not> call_permitted demo_loop ((demo_call ''a'' ''x'')\<lparr>call_name := ''shell''\<rparr>) (None, None)"
proof
  show "react_event_loop (demo_loop\<lparr>rc_execute := picky_tools\<rparr>) demo_task (demo_state False None None)
      = react_event_loop demo_loop demo_task (demo_state False None None)"
    by (rule only_permitted_calls_run)
      (auto simp: picky_tools_def call_permitted_def policy_permits_def demo_loop_def demo_policy_def ALLOW_def)
  show "\<not> call_permitted demo_loop ((demo_call ''a'' ''x'')\<lparr>call_name := ''shell''\<rparr>) (None, None)"
    by (auto simp: call_permitted_def policy_permits_def demo_loop_def demo_policy_def ALLOW_def)
qed

end
