(* ===== verification/React_Drafts.thy ===== *)
theory React_Drafts
  imports React_Safety
begin

text \<open>
  The drafts of the model loop: the text that a stream shows as provisional is committed or taken
  back before the run is over.
\<close>

text \<open>The drafts that the client still shows are among the active ones, and there is text behind them.\<close>

definition drafts_known :: "'w rstate \<Rightarrow> bool" where
  "drafts_known st \<longleftrightarrow> set (open_text (lp_out st)) \<subseteq> JStr ` set (lp_active st)"

definition drafts_backed :: "'w rstate \<Rightarrow> bool" where
  "drafts_backed st \<longleftrightarrow> drafts_known st \<and> (lp_active st \<noteq> [] \<longrightarrow> concat (map fst (lp_parts st)) \<noteq> [])"

text \<open>The accounting of a reply raises only for numbers that are not finite.\<close>

definition drafts_settled :: "'w step_end \<Rightarrow> bool" where
  "drafts_settled s \<longleftrightarrow>
     (case s of
        Next st \<Rightarrow> drafts_backed st
      | Return st \<Rightarrow> open_text (lp_out st) = []
      | Raise e st \<Rightarrow> (case e of LoopLlm (UsageError _) \<Rightarrow> True | _ \<Rightarrow> open_text (lp_out st) = []))"

lemma settled_simps [simp]:
  "drafts_settled (Next st) = drafts_backed st" "drafts_settled (Return st) = (open_text (lp_out st) = [])"
  "open_text (lp_out st) = [] \<Longrightarrow> drafts_settled (Raise e st)"
  by (simp_all add: drafts_settled_def split: loop_exc.split llm_exc.split)

lemma open_text_append: "open_text (es @ es') = foldl open_step (open_text es) es'"
  by (simp add: open_text_def)

lemma foldl_quiet: "list_all quiet_event es \<Longrightarrow> foldl open_step pids es = pids"
  by (induction es arbitrary: pids) (auto simp: open_step_def quiet_event_def split: event_type.splits)

lemma open_text_quiet: "list_all quiet_event es \<Longrightarrow> open_text (xs @ es) = open_text xs"
  by (simp add: open_text_append foldl_quiet)

lemma retract_step: "open_step pids (retract p why) = removeAll (JStr p) pids"
  by (simp add: open_step_def retract_def provision_of_event_def dget_def)

lemma foldl_retracts: "foldl open_step pids (map (\<lambda>p. retract p why) ps) = filter (\<lambda>i. i \<notin> JStr ` set ps) pids"
  by (induction ps arbitrary: pids)
    (auto simp: retract_step removeAll_filter_not_eq intro!: filter_cong)

lemma retract_all_settles: "drafts_known st \<Longrightarrow> open_text (lp_out (retract_all why st)) = []"
  by (auto simp: drafts_known_def retract_all_def yield_events_def open_text_append foldl_retracts filter_empty_conv)

lemma commit_step: "open_step pids (commit_draft p) = removeAll (JStr p) pids"
  by (simp add: open_step_def commit_draft_def provision_of_event_def dget_def)

lemma foldl_commits: "foldl open_step pids (map commit_draft ps) = filter (\<lambda>i. i \<notin> JStr ` set ps) pids"
  by (induction ps arbitrary: pids)
    (auto simp: commit_step removeAll_filter_not_eq intro!: filter_cong)

lemma deliver_text_settles:
  assumes "drafts_backed st"
  shows "open_text (lp_out (deliver_text st)) = [] \<and> lp_active (deliver_text st) = []"
proof (cases "concat (map fst (lp_parts st)) = []")
  case True
  with assms have "lp_active st = []" "open_text (lp_out st) = []" by (auto simp: drafts_backed_def drafts_known_def)
  with True show ?thesis by (simp add: deliver_text_def final_text_delivery_def)
next
  case False
  have "foldl open_step (open_text (lp_out st)) (final_text_events t streamed (lp_active st)) = []" for t streamed
    using assms
    by (cases streamed)
      (auto simp: drafts_backed_def drafts_known_def final_text_events_def foldl_commits foldl_retracts answer_text_event_def
        open_step_def filter_empty_conv)
  with False show ?thesis
    by (simp add: deliver_text_def final_text_delivery_def yield_events_def open_text_append del: concat_eq_Nil_conv)
qed

text \<open>The invariant of the loop; without streams there is no draft at all.\<close>

definition drafts_ok :: "'w react_env \<Rightarrow> 'w rstate \<Rightarrow> bool" where
  "drafts_ok env st \<longleftrightarrow> drafts_backed st \<and> (rc_streams env \<or> lp_active st = [])"

definition drafts_after :: "'w react_env \<Rightarrow> chat_response \<times> bool \<Rightarrow> 'w rstate \<Rightarrow> bool" where
  "drafts_after env reply st \<longleftrightarrow>
     drafts_known st \<and> (rc_streams env \<or> lp_active st = [])
     \<and> (lp_active st \<noteq> [] \<longrightarrow> concat (map fst (lp_parts st)) \<noteq> [] \<or> rs_text (fst reply) \<noteq> [])"

definition step_settles :: "'w react_env \<Rightarrow> 'w step_end \<Rightarrow> bool" where
  "step_settles env s \<longleftrightarrow> drafts_settled s \<and> (\<forall>st. s = Next st \<longrightarrow> drafts_ok env st)"

lemma settles_simps [simp]:
  "step_settles env (Next st) = drafts_ok env st" "step_settles env (Return st) = (open_text (lp_out st) = [])"
  "open_text (lp_out st) = [] \<Longrightarrow> step_settles env (Raise e st)"
  by (auto simp: step_settles_def drafts_ok_def)

lemma keeps_open: "keeps_drafts st st' \<Longrightarrow> open_text (lp_out st') = open_text (lp_out st)"
  by (auto simp: keeps_drafts_def open_text_quiet)

lemma keeps_ok: "keeps_drafts st st' \<Longrightarrow> drafts_ok env st' = drafts_ok env st"
  using keeps_open [of st st'] by (simp add: drafts_ok_def drafts_backed_def drafts_known_def keeps_drafts_def)

lemma no_drafts_open: "drafts_known st \<Longrightarrow> lp_active st = [] \<Longrightarrow> open_text (lp_out st) = []"
  by (simp add: drafts_known_def)

lemma no_drafts_ok: "open_text (lp_out st) = [] \<Longrightarrow> lp_active st = [] \<Longrightarrow> drafts_ok env st"
  by (simp add: drafts_ok_def drafts_backed_def drafts_known_def)

lemma emit_keeps [simp]: "list_all quiet_event es \<Longrightarrow> keeps_drafts st (yield_events es st)"
  by (simp add: keeps_drafts_def yield_events_def)

lemma say_keeps [simp]: "keeps_drafts st (say ms st)"
  by (simp add: keeps_drafts_def say_def)

lemma quiet_events [simp]:
  "quiet_event (incomplete d)" "quiet_event (answer_text_event t b)" "quiet_event compression_start" "quiet_event compression_end"
  "quiet_event (budget_text why)" "quiet_event provider_failed" "quiet_event (unknown_finish r)" "quiet_event (output_limit n b)"
  "quiet_event (context_usage_event env receipt i s a)" "quiet_event (capacity_exhausted fit)"
  by (simp_all add: quiet_event_def incomplete_def answer_text_event_def compression_start_def compression_end_def budget_text_def
      provider_failed_def unknown_finish_def output_limit_def context_usage_event_def capacity_exhausted_def Let_def)

lemma retract_all_ok: "drafts_known st \<Longrightarrow> drafts_ok env (retract_all why st)"
  using retract_all_settles [of st why] by (intro no_drafts_ok) (simp_all add: retract_all_def)

lemma fit_step_keeps: "keeps_drafts st (snd (fit_step env st))"
  by (simp add: fit_step_def Let_def count_compaction_def keeps_drafts_def yield_events_def)

lemma prepare_request_settles:
  assumes "drafts_ok env st"
  shows "phase_post (\<lambda>_. drafts_ok env) (step_settles env) (prepare_request env st)"
proof -
  have ok: "drafts_ok env (snd (fit_step env st))" using keeps_ok [OF fit_step_keeps] assms by metis
  then have known: "drafts_known (snd (fit_step env st))" by (simp add: drafts_ok_def drafts_backed_def)
  have "open_text (lp_out (yield_events [capacity_exhausted fit] (retract_all why (snd (fit_step env st))))) = []" for fit why
    using retract_all_settles [OF known, of why] by (simp add: yield_events_def open_text_quiet)
  moreover have "drafts_ok env (yield_events [ev THINKING []] (snd (fit_step env st)))"
    using keeps_ok [OF emit_keeps [of "[ev THINKING []]" "snd (fit_step env st)"]] ok by (simp add: quiet_event_def)
  ultimately show ?thesis by (cases "fit_step env st") (simp add: prepare_request_def)
qed

lemma context_refused_settles:
  assumes "open_text (lp_out st) = []" "lp_active st = []"
  shows "step_settles env (context_refused env st)"
proof -
  have keeps: "keeps_drafts st (yield_events [incomplete d] st)"
    "keeps_drafts st (yield_events [compression_start, compression_end] (st\<lparr>lp_recoveries := n, lp_conv := c\<rparr>))" for d n c
    by (simp_all add: keeps_drafts_def yield_events_def)
  show ?thesis
    using keeps_open [OF keeps(1)] keeps_ok [OF keeps(2)] no_drafts_ok [OF assms] assms(1)
    by (simp add: context_refused_def)
qed

lemma ask_plain_settles:
  assumes "drafts_known st" "lp_active st = []"
  shows "phase_post (drafts_after env) (step_settles env) (ask_plain env key st)"
proof -
  have "open_text (lp_out st) = []" using assms by (rule no_drafts_open)
  then have "step_settles env (context_refused env (st\<lparr>lp_world := w\<rparr>))" for w
    using assms(2) by (intro context_refused_settles) simp_all
  with assms \<open>open_text (lp_out st) = []\<close> show ?thesis
    by (auto simp: ask_plain_def Let_def drafts_after_def drafts_known_def split: prod.split sum.split)
qed

lemma stream_event_known:
  "drafts_known st \<Longrightarrow> drafts_known (stream_event pid e st)"
proof -
  assume known: "drafts_known st"
  have raw: "quiet_event (raw_response_event e q)" for q
    by (simp add: quiet_event_def raw_response_event_def)
  then have "drafts_known (yield_events [raw_response_event e q] st)" for q
    using known by (simp add: drafts_known_def yield_events_def open_text_quiet)
  moreover have "drafts_known (show_draft p t st')" if "drafts_known st'" for p t and st' :: "'a rstate"
    using that
    by (auto simp: drafts_known_def show_draft_def yield_events_def open_text_append open_step_def provisional_text_def
        provision_of_event_def dget_def)
  ultimately show ?thesis by (simp add: stream_event_def Let_def split: option.split)
qed

lemma accumulate_text_grows: "concat (ac_text ac) \<noteq> [] \<Longrightarrow> concat (ac_text (foldl accumulate ac es)) \<noteq> []"
proof (induction es arbitrary: ac)
  case (Cons e es)
  have "concat (ac_text (accumulate ac e)) \<noteq> []"
    using Cons.prems by (auto simp: accumulate_def Let_def split: provider_event_type.split option.split json.split)
  with Cons.IH show ?case by simp
qed simp

lemma stream_events_drafts:
  assumes "drafts_known st"
  shows "drafts_known (stream_events pid es st) \<and> lp_parts (stream_events pid es st) = lp_parts st
    \<and> (lp_active (stream_events pid es st) \<noteq> [] \<longrightarrow> lp_active st \<noteq> [] \<or> concat (ac_text (foldl accumulate ac es)) \<noteq> [])"
  using assms
proof (induction es arbitrary: st ac)
  case Nil
  then show ?case by (simp add: stream_events_def)
next
  case (Cons e es)
  let ?st = "stream_event pid e st"
  have step: "stream_events pid (e # es) st = stream_events pid es ?st" by (simp add: stream_events_def)
  have parts: "lp_parts ?st = lp_parts st"
    by (simp add: stream_event_def Let_def show_draft_def yield_events_def split: option.split)
  have active: "concat (ac_text (accumulate ac e)) \<noteq> []" if "lp_active ?st \<noteq> []" "lp_active st = []"
  proof -
    from that obtain p t where "shown_delta pid e = Some (p, t)"
      by (auto simp: stream_event_def Let_def yield_events_def split: option.splits)
    then have "pe_type e = OutputTextDelta" "nonempty_str (dget (pe_data e) ''delta'') = Some t" "t \<noteq> []"
      by (auto simp: shown_delta_def nonempty_str_def
          split: option.splits list.splits provider_event_type.splits json.splits if_splits)
    then show ?thesis by (simp add: accumulate_def)
  qed
  from Cons.IH [OF stream_event_known [OF Cons.prems], of pid e "accumulate ac e"] parts active accumulate_text_grows [of "accumulate ac e" es]
  show ?case unfolding step by auto
qed

lemma stream_failed_settles:
  assumes "drafts_known st" "rc_streams env"
  shows "phase_post (drafts_after env) (step_settles env) (stream_failed env key e saw st)"
proof -
  have "open_text (lp_out (retract_all why st)) = []" "lp_active (retract_all why st) = []" for why
    using retract_all_settles [OF assms(1)] by (simp_all add: retract_all_def)
  with assms ask_plain_settles [OF assms(1)] show ?thesis
    by (auto simp: stream_failed_def intro: context_refused_settles)
qed

lemma ask_model_settles:
  assumes "drafts_ok env st"
  shows "phase_post (drafts_after env) (step_settles env) (ask_model env fit st)"
proof (cases "rc_streams env")
  case False
  with assms ask_plain_settles [of st env] show ?thesis
    by (simp add: ask_model_def Let_def drafts_ok_def drafts_backed_def)
next
  case True
  have known: "drafts_known st" using assms by (simp add: drafts_ok_def drafts_backed_def)
  have answered: "phase_post (drafts_after env) (step_settles env)
      (case failure of
        Some e \<Rightarrow> stream_failed env key e (list_ex semantic_delta es) (stream_events pid es (st\<lparr>lp_world := w\<rparr>))
      | None \<Rightarrow> (case build_response (foldl accumulate new_accumulator es) of
             Inl e \<Rightarrow> Leave (Raise (LoopLlm e) (retract_all ''stream_error'' (stream_events pid es (st\<lparr>lp_world := w\<rparr>))))
           | Inr r \<Rightarrow> Proceed (r, ac_streamed_text (foldl accumulate new_accumulator es)) (stream_events pid es (st\<lparr>lp_world := w\<rparr>))))"
    for failure pid es key w
  proof -
    let ?st = "stream_events pid es (st\<lparr>lp_world := w\<rparr>)"
    have after: "drafts_known ?st" "lp_parts ?st = lp_parts st"
      "lp_active ?st \<noteq> [] \<longrightarrow> lp_active st \<noteq> [] \<or> concat (ac_text (foldl accumulate new_accumulator es)) \<noteq> []"
      using stream_events_drafts [of "st\<lparr>lp_world := w\<rparr>" pid es new_accumulator] known by (simp_all add: drafts_known_def)
    have "drafts_after env (r, b) ?st" if "build_response (foldl accumulate new_accumulator es) = Inr r" for r b
    proof -
      have "rs_text r = concat (ac_text (foldl accumulate new_accumulator es))"
        using that by (auto simp: build_response_def bind_res_Inr)
      with after True assms show ?thesis
        unfolding drafts_after_def drafts_ok_def drafts_backed_def fst_conv by metis
    qed
    with stream_failed_settles [OF after(1) True] retract_all_settles [OF after(1)] show ?thesis
      by (simp split: option.split sum.split)
  qed
  then show ?thesis
    using True by (simp add: ask_model_def ask_stream_def Let_def split: prod.split)
qed


lemma report_settles:
  assumes "drafts_after env reply st"
  shows "phase_post (\<lambda>_. drafts_after env reply) (step_settles env) (report env fit r st)"
proof -
  have quiet: "drafts_after env reply (yield_events es st)" if "list_all quiet_event es" for es
    using assms that by (simp add: drafts_after_def drafts_known_def yield_events_def open_text_quiet)
  have quiets: "quiet_event (ev TOKEN_USAGE d)" "quiet_event (ev THINKING d)" for d
    by (simp_all add: quiet_event_def)
  have "drafts_after env reply (yield_events [ev TOKEN_USAGE d, context_usage_event env c i s a] st)"
    "drafts_after env reply (yield_events [ev TOKEN_USAGE d, context_usage_event env c i s a, ev THINKING d'] st)" for d c i s a d'
    by (rule quiet, simp add: quiets)+
  then show ?thesis
    by (cases "usage_event_data (rs_usage r)") (simp_all add: report_def step_settles_def drafts_settled_def)
qed

lemma length_limited_settles:
  assumes "drafts_ok env st"
  shows "step_settles env (length_limited r st)"
proof -
  have "drafts_ok env (say ms (st\<lparr>lp_continuations := n\<rparr>))" for ms n
    using assms by (simp add: drafts_ok_def drafts_backed_def drafts_known_def say_def)
  moreover have "open_text (lp_out (yield_events [output_limit n b] (deliver_text st))) = []" for n b
    using deliver_text_settles [of st] assms by (simp add: yield_events_def open_text_quiet drafts_ok_def)
  ultimately show ?thesis by (simp add: length_limited_def)
qed

lemma complete_text_settles:
  assumes "drafts_ok env st"
  shows "step_settles env (complete_text r st)"
proof -
  have backed: "drafts_backed st" and known: "drafts_known st"
    using assms by (simp_all add: drafts_ok_def drafts_backed_def)
  have "drafts_ok env (say ms ((retract_all why st)\<lparr>lp_repairs := n, lp_parts := []\<rparr>))" for ms why n
    using retract_all_settles [OF known, of why] by (intro no_drafts_ok) (simp_all add: say_def retract_all_def)
  moreover have "open_text (lp_out (yield_events [incomplete d] st)) = []" if "fst (final_text_delivery (lp_parts st)) = []" for d
  proof -
    have "lp_active st = []" using that backed by (auto simp: final_text_delivery_def drafts_backed_def)
    then show ?thesis using no_drafts_open [OF known] by (simp add: yield_events_def open_text_quiet)
  qed
  ultimately show ?thesis
    using conjunct1 [OF deliver_text_settles [OF backed]] by (auto simp: complete_text_def Let_def)
qed

lemma withdraw_text_settles:
  assumes "drafts_known st" "list_all quiet_event es"
  shows "open_text (lp_out (yield_events es (withdraw_text why st))) = []"
proof -
  have "open_text (lp_out (withdraw_text why st)) = []"
    using retract_all_settles [OF assms(1)] no_drafts_open [OF assms(1)]
    by (simp add: withdraw_text_def yield_events_def open_text_quiet split: prod.split)
  with assms(2) show ?thesis by (simp add: yield_events_def open_text_quiet)
qed

text \<open>
  The recovery from a refused context takes back the drafts but keeps their fragments, so a later
  streamed fragment is delivered as if the client still showed the earlier one.
\<close>

lemma refused_context_keeps_fragments:
  "context_refused env (retract_all why st) = Next st' \<Longrightarrow> lp_active st' = [] \<and> lp_parts st' = lp_parts st"
  by (auto simp: context_refused_def retract_all_def yield_events_def split: if_split_asm)

lemma kept_fragment_marked_streamed:
  "lp_parts st = [(t1, True), (t2, True)] \<Longrightarrow> t2 \<noteq> [] \<Longrightarrow> lp_active st = [p2] \<Longrightarrow>
     lp_out (deliver_text st) = lp_out st @ [commit_draft p2, answer_text_event (t1 @ t2) True]"
  by (simp add: deliver_text_def final_text_delivery_def final_text_events_def yield_events_def)

lemma if_holds: "P x \<Longrightarrow> P y \<Longrightarrow> P (if c then x else y)"
  by simp

lemma finish_text_settles:
  assumes "drafts_after env (r, streamed) st"
  shows "step_settles env (finish_text r streamed st)"
proof -
  define st1 where "st1 = (if rs_text r = [] then st else st\<lparr>lp_parts := lp_parts st @ [(rs_text r, streamed)]\<rparr>)"
  have ok: "drafts_ok env st1"
    using assms by (auto simp: st1_def drafts_after_def drafts_ok_def drafts_backed_def drafts_known_def)
  then have known: "drafts_known st1" by (simp add: drafts_ok_def drafts_backed_def)
  have failed: "step_settles env (Return (yield_events [provider_failed] (retract_all why st1)))" for why
    using retract_all_settles [OF known, of why] by (simp add: yield_events_def open_text_quiet)
  have withdrawn: "step_settles env (Return (yield_events [incomplete d] (withdraw_text why st1)))" for d why
    unfolding settles_simps by (rule withdraw_text_settles [OF known]) simp
  have unknown: "step_settles env (Return (yield_events [unknown_finish r] (withdraw_text why st1)))" for why
    unfolding settles_simps by (rule withdraw_text_settles [OF known]) simp
  show ?thesis
    unfolding finish_text_def Let_def st1_def [symmetric]
    by (intro if_holds [where P = "step_settles env"] length_limited_settles complete_text_settles ok failed withdrawn unknown)
qed

lemma halts_settles: "halts st s \<Longrightarrow> open_text (lp_out st) = [] \<Longrightarrow> step_settles env s"
  by (cases s) (simp_all add: keeps_open)

lemma cut_calls_halts:
  assumes "cut_calls r st = Some s"
  shows "halts st s"
proof -
  define told where "told = (if rs_text r = [] then st else yield_events [answer_text_event (rs_text r) False] st)"
  have "keeps_drafts st told" by (simp add: told_def)
  then have "keeps_drafts st (yield_events [e] told)" if "quiet_event e" for e
    using that emit_keeps [of "[e]" told] by (auto intro: keeps_drafts_trans)
  with assms show ?thesis
    unfolding cut_calls_def Let_def told_def [symmetric] by (simp split: if_split_asm) auto
qed

lemma close_round_settles:
  assumes "open_text (lp_out st) = []" "lp_active st = []"
  shows "step_settles env (close_round st)"
proof -
  have "open_text (lp_out (yield_events [budget_text why, incomplete d] st')) = []" if "lp_out st' = lp_out st" for why d and st' :: "'a rstate"
    using that assms(1) by (simp add: yield_events_def open_text_quiet)
  moreover have "drafts_ok env st'" if "lp_out st' = lp_out st" "lp_active st' = lp_active st" for st' :: "'a rstate"
    using that assms by (intro no_drafts_ok) simp_all
  ultimately show ?thesis by (simp add: close_round_def close_failed_def Let_def)
qed

lemma tool_round_settles:
  assumes "tool_runner (rc_normalize env) (rc_execute env)" "open_text (lp_out st) = []" "lp_active st = []"
  shows "step_settles env (tool_round env r st)"
proof -
  let ?st = "open_round env r st"
  have opened: "open_text (lp_out ?st) = []" "lp_active ?st = []"
    using assms(2,3) by (simp_all add: open_round_def say_def)
  note handled = tool_runner.handle_calls_handles [OF assms(1) refl refl, of ?st "rs_tool_calls r"]
  show ?thesis
  proof (cases "handle_calls env (rs_tool_calls r) ?st")
    case (Proceed u st')
    with handled have "keeps_drafts ?st st'" by (simp add: handles_def adds_keeps)
    with opened have "open_text (lp_out st') = []" "lp_active st' = []"
      using keeps_open [of ?st st'] by (simp_all add: keeps_drafts_def)
    with Proceed show ?thesis by (simp add: tool_round_def close_round_settles)
  next
    case (Leave s)
    with handled opened show ?thesis by (simp add: tool_round_def handles_def halts_settles)
  qed
qed

lemma reply_step_settles:
  assumes "tool_runner (rc_normalize env) (rc_execute env)" "drafts_after env (r, streamed) st"
  shows "step_settles env (reply_step env r streamed st)"
proof -
  have "drafts_known st" using assms(2) by (simp add: drafts_after_def)
  then have dropped: "open_text (lp_out (drop_drafts st)) = []" "lp_active (drop_drafts st) = []"
    using retract_all_settles [of st] by (simp_all add: drop_drafts_def) (simp_all add: retract_all_def)
  then show ?thesis
    using assms finish_text_settles [OF assms(2)] tool_round_settles [OF assms(1)]
    by (auto simp: reply_step_def Let_def dest: cut_calls_halts intro: halts_settles split: option.split)
qed

lemma react_step_settles:
  fixes st :: "'a rstate"
  assumes "tool_runner (rc_normalize env) (rc_execute env)" "drafts_ok env st"
  shows "step_settles env (react_step env st)"
  unfolding react_step_def
proof (rule phase_post_finish_with)
  show "phase_post (drafts_after env) (step_settles env)
    (then_do (prepare_request env st) (\<lambda>fit st. then_do (ask_model env fit st)
       (\<lambda>reply st. then_do (report env fit (fst reply) st) (\<lambda>_ st. Proceed reply st))))"
    by (intro phase_post_then_do [OF prepare_request_settles [OF assms(2)]] phase_post_then_do [OF ask_model_settles]
        phase_post_then_do [OF report_settles]) simp_all
  fix x :: "chat_response \<times> bool" and st' :: "'a rstate" assume "drafts_after env x st'"
  then show "step_settles env (reply_step env (fst x) (snd x) st')" using assms(1) by (intro reply_step_settles) simp_all
qed

lemma budget_spent_settles:
  assumes "drafts_known st"
  shows "open_text (lp_out (budget_spent st)) = []"
proof -
  have quiet: "foldl open_step pids [budget_text why, incomplete d] = pids" for pids why d
    by (intro foldl_quiet) simp
  show ?thesis
    using assms quiet
    by (auto simp: budget_spent_def yield_events_def open_text_append foldl_retracts drafts_known_def filter_empty_conv)
qed

lemma react_loop_settles:
  assumes "tool_runner (rc_normalize env) (rc_execute env)" "drafts_ok env st"
  shows "drafts_settled (react_loop env st)"
  using assms(2)
proof (induction "budget_left env st" arbitrary: st rule: less_induct)
  case less
  show ?case
  proof (cases "lp_productive st < rc_max_iters env")
    case False
    have "drafts_known st" using less.prems by (simp add: drafts_ok_def drafts_backed_def)
    with False show ?thesis by (simp add: react_loop.simps budget_spent_settles)
  next
    case True
    have step: "step_settles env (react_step env st)" by (rule react_step_settles [OF assms(1) less.prems])
    show ?thesis
    proof (cases "react_step env st")
      case (Next st')
      with step have "drafts_ok env st'" by simp
      with less.hyps [OF react_step_decreases [OF True Next]] have "drafts_settled (react_loop env st')" by simp
      with True Next show ?thesis by (simp add: react_loop.simps [of env st])
    qed (use True step in \<open>simp_all add: react_loop.simps [of env st] step_settles_def\<close>)
  qed
qed

text \<open>
  C21. When the run is over no draft is left open: every piece of text shown to the client as
  provisional has been committed or retracted.  The one exception is a usage report of the provider
  that cannot be read as numbers, which raises out of the loop before the drafts are drafts_settled.
\<close>

theorem no_draft_stays_open:
  assumes "tool_runner (rc_normalize env) (rc_execute env)"
  shows "case react_event_loop env messages w of
      Return st \<Rightarrow> open_text (lp_out st) = []
    | Raise e st \<Rightarrow> open_text (lp_out st) = [] \<or> (\<exists>x. e = LoopLlm (UsageError x))
    | Next st \<Rightarrow> False"
proof -
  have "drafts_ok env (react_start env messages w)"
    by (intro no_drafts_ok) (simp_all add: react_start_def Let_def open_text_def)
  then have "drafts_settled (react_event_loop env messages w)"
    unfolding react_event_loop_def by (rule react_loop_settles [OF assms])
  with react_loop_ends [of env "react_start env messages w"] show ?thesis
    by (auto simp: react_event_loop_def drafts_settled_def split: step_end.splits loop_exc.splits llm_exc.splits)
qed

theorem no_draft_stays_open_witness:
  "case react_event_loop demo_loop demo_task (demo_state False None None) of
      Return st \<Rightarrow> open_text (lp_out st) = []
    | Raise e st \<Rightarrow> open_text (lp_out st) = [] \<or> (\<exists>x. e = LoopLlm (UsageError x))
    | Next st \<Rightarrow> False"
  by (rule no_draft_stays_open [OF demo_runner])

end
