(* ===== verification/Spec2Isabelle.thy ===== *)
theory Spec2Isabelle
  imports Chain_Integrity Run_Properties Approval_Safety Fact_Gate_Safety Tool_Policy
    Ledger_Safety Guard_Safety Registry_Safety Conversation_Safety Context_Fit_Safety
    Pipeline_Safety Resume_Safety Llm_Safety Smith_UI_Safety Hooks_Safety React_Drafts
begin

text \<open>
  Verification of Helve, an agent runtime: a server keeps runs, a loop asks a language model
  for the next step, and every tool call the model asks for passes a chain of safety checks,
  may wait for a user's approval, runs under an idempotency ledger and is recorded in a
  hash-chained audit log.  This development models the parts of that path that keep state or
  decide.  All source paths are below \<^verbatim>\<open>src/\<close>.

  \<^bold>\<open>How the parts interact.\<close>  The registry (\<^verbatim>\<open>engine/tool/registry.py\<close>) holds the tool
  contracts and executes calls.  It asks the tool guard (\<^verbatim>\<open>engine/safety/tool_guard.py\<close>) before
  a provider runs; the policy chain (\<^verbatim>\<open>engine/safety/tool_policy.py\<close>) asks the same guard and
  the fact gate (\<^verbatim>\<open>engine/safety/fact_gate.py\<close>) before the call reaches the registry.  A
  decision that needs a user goes to the approval broker (\<^verbatim>\<open>engine/safety/approval.py\<close>); the
  permit that comes back is bound to one normalized call and one scope.  A side-effecting call
  claims its key in the ledger (\<^verbatim>\<open>engine/tool/ledger.py\<close>).  The guard appends each decision to
  the audit log (\<^verbatim>\<open>common/hash_chain.py\<close>).  The run store
  (\<^verbatim>\<open>engine/execution/orchestration/run_state.py\<close>) keeps the lifecycle of each run and is fed
  by the execution events.

  \<^bold>\<open>Theories.\<close>

    \<^item> \<open>Prelude\<close>: Python text and dictionaries (association lists in insertion order), results
      that may be an exception (\<open>Inl\<close>), and two interfaces: \<open>step_system\<close> carries an invariant
      along every sequence of operations, \<open>step_simulation\<close> adds an abstract component.
      \<open>Py_Values\<close>, \<open>Json\<close>, \<open>Py_Regex\<close>, \<open>Shlex\<close>: what the sources use of Python's values,
      \<^verbatim>\<open>json\<close>, \<^verbatim>\<open>re\<close>, \<^verbatim>\<open>shlex\<close> and \<^verbatim>\<open>pathlib\<close>, with the printing and reading of JSON proved
      inverse to each other.
    \<^item> \<open>Hash_Chain\<close>, \<open>Chain_Integrity\<close>: \<^verbatim>\<open>common/hash_chain.py\<close>.  The file system and the
      log object are records; what the operating system answers during an append is an argument,
      and a kept handle has the buffer of unflushed text that CPython gives it.
      Interleaved writers, crashes and reopenings keep the log verifying as long as no write
      through a kept handle fails; a rollback below the seal of a non-empty log and, without a
      legacy tail, any change of a recorded payload that keeps the head are detected, the
      latter up to a collision of the digest, which the theorem names.
    \<^item> \<open>Run_State\<close>, \<open>Run_Lifecycle\<close>, \<open>Run_Properties\<close>: the run store with its event
      buffer.  \<open>file_step\<close> is the step relation of one run's file; any interleaving of store
      operations by several processes moves a file along it.  Saved states read back, the
      buffered store refines the unbuffered run while its saves succeed, recovery cancels the
      live runs and leaves none, resumption and
      approval resolution are characterised, pruning spares live runs.
    \<^item> \<open>Risk\<close>, \<open>Approval\<close>, \<open>Approval_Safety\<close>: risk tiers and permission levels as linear
      orders, the redaction and the summary shown to the user, the approval card, and the broker.
      The summary does not depend on what stands under sensitive names and is bounded; a
      suspended call proceeds only after a matching resolution.
    \<^item> \<open>Fact_Gate\<close>, \<open>Fact_Gate_Safety\<close>: the read-only shell classifier over the lexer, and the
      gate that challenges the first change of each target in a turn.
    \<^item> \<open>Tool_Policy\<close>: decisions, the adapters and the gateway.  The locales \<open>policy_checker\<close>
      and \<open>policy_chain\<close> state what a checker promises and what a chain of checkers gives; both
      are interpreted on the adapters of the guard and the gate.
    \<^item> \<open>File_Guard\<close>, \<open>Tool_Guard\<close>, \<open>Guard_Safety\<close>: the path rules with their two views of
      a path, the hard-link checks, the session whitelist, the dangerous-command rules, the
      decision and the audit entry.  Allowed calls name only vetted paths (an opaque shell
      command is not parsed beyond its redirections), calls without an approval are reads, the
      declared spelling of a path only adds refusals.
    \<^item> \<open>Ledger\<close>, \<open>Ledger_Safety\<close>: the SQLite table under \<^verbatim>\<open>begin\<close> and \<^verbatim>\<open>finish\<close> transactions
      of any number of processes refines a four-state automaton for each run and key; completed
      effects are replayed, a resumed run finds its keys again, a new call always gets its claim.
    \<^item> \<open>Registry\<close>, \<open>Registry_Safety\<close>: registration, provider loading, enabled sets, scoped
      views, normalization, output truncation and execution.  Here guard, ledger and provider
      meet: a provider runs only for an authorised call and a side effect only under a claim.

    \<^item> \<open>Conversation\<close>, \<open>Conversation_Safety\<close>: the messages the loop sends and the cap on
      their number (\<^verbatim>\<open>engine/execution/react/budget.py\<close>, \<^verbatim>\<open>engine/context/compression.py\<close>).
      The cap keeps the contract and the request, never orphans a tool result, and its marks do
      not accumulate.
    \<^item> \<open>Context_Fit\<close>, \<open>Context_Fit_Safety\<close>: token costs, budgets, summaries, compaction,
      deterministic shortening and \<^verbatim>\<open>fit_request\<close> (\<^verbatim>\<open>engine/context\<close>).  The locale
      \<open>keep_search\<close> is the binary search on a test that is antitone; it is interpreted on the
      two shortening routines.  A request that fits stays in its window and keeps contract and
      active turn.

    \<^item> \<open>Gate\<close>, \<open>Skill_Chain\<close>, \<open>Checkpoint\<close>, \<open>Pipeline\<close>, \<open>Agent_Dispatch\<close>: the pipelines
      (\<^verbatim>\<open>engine/execution/pipeline\<close>) and the dispatch of a run
      (\<^verbatim>\<open>engine/execution/orchestration/agent_loop.py\<close>).  One visit of a node is \<open>node_step\<close>: its
      attempts with the base gates, its own gate, then commit, retry, backtrack or end.
      \<open>Json_Pretty\<close> is the indented printing of a checkpoint and its inverse.
    \<^item> \<open>Pipeline_Loop\<close>, \<open>Pipeline_Safety\<close>, \<open>Resume_Safety\<close>: every chain ends within a bound that
      the failure guard gives; the locale \<open>chain_invariant\<close> carries invariants along the node
      loop; provisional text is settled, the reply is gated, a backtrack evicts what it jumps
      over, the same request resumes after a crash with all that was accepted, and a run
      adopts only checkpoints of its own scope.

    \<^item> \<open>Llm\<close>, \<open>Llm_Http\<close>, \<open>Llm_Stream\<close>, \<open>OpenAI\<close>, \<open>Anthropic\<close>, \<open>Anthropic_Stream\<close>,
      \<open>Anthropic_Turns\<close>, \<open>Llm_Client\<close>, \<open>Llm_Safety\<close>: the model clients
      (\<^verbatim>\<open>engine/llm\<close>): usage accounting, the retry of a request and of a stream, the two wire
      formats with their event streams, and the client facade with its accounting: the sink
      of the records is a function on a state of any type that may raise.  The locale
      \<open>stream_adapter\<close> states what the retry relies on and is interpreted on both adapters.
      A stream shows the text of one attempt, a plain reply survives the streamed form, and
      calls that a conversation answers stay paired with their results in the wire format;
      the body of a refusal and a failing sink change no outcome.
    \<^item> \<open>React\<close>, \<open>React_Reply\<close>, \<open>React_Tools\<close>, \<open>React_Loop\<close>: the loop between model and tools
      (\<^verbatim>\<open>engine/execution/react/react_loop.py\<close>, \<^verbatim>\<open>budget.py\<close>, \<^verbatim>\<open>runtime_control.py\<close>): one model
      call with its recovery from context and length failures, one tool call from hook to
      result, one round, and the iterations.  \<open>React_Rounds\<close>, \<open>React_Safety\<close>, \<open>React_Drafts\<close>:
      the number of iterations is bounded, every call of a reply is answered before the
      next request, only permitted calls reach the registry, no draft stays open.  The locale
      \<open>tool_runner\<close> is what the loop asks of a registry, interpreted on the model's registry.
    \<^item> \<open>Hooks\<close>, \<open>Hooks_Safety\<close>: hook loading, ordering and dispatch (\<^verbatim>\<open>engine/execution/hooks\<close>)
      with the shipped configuration (\<^verbatim>\<open>agents/smith/hooks.yaml\<close>, all three sections) and the
      hook in it that protects configuration (\<^verbatim>\<open>agents/smith/hooks/config_protection.py\<close>).
    \<^item> \<open>Smith_UI\<close>, \<open>Smith_UI_Safety\<close>: the validator of interface specifications in a reply
      (\<^verbatim>\<open>engine/execution/react/smith_ui.py\<close>); what it accepts is an acyclic graph whose elements
      are all reached from the root.

  \<^bold>\<open>Parameters.\<close>  The digest is a function \<open>H\<close>, about which nothing is assumed except, where
  the ledger's keys need it, that it yields 64 lower-case hexadecimal characters.  The operating
  system is a record of answers (home directories, link resolution, inode numbers, directory
  trees, failed writes), the clock a sequence of texts, SQLite a flag that says whether a
  transaction was answered, a provider a function from its arguments to an outcome, a language
  model a function from messages to a response or an exception, a content gate and the agent at
  a pipeline node functions on a world of any type.  Gates and node conditions read the context
  and do not change it.  The network is a list with the answer to each attempt.  The loop takes
  a record with the operations it calls (model, registry, policy, broker, identifiers, digest,
  the rounding of percentages); the hooks that run after a call observe one world.  The class
  of a hook module is an argument of its loading.  The one assumption about link resolution,
  that its results are absolute and resolve to themselves, is a hypothesis of the theorem that
  needs it.

  \<^bold>\<open>Representation.\<close>  Text is a list of characters with code points below 256; the ellipsis of
  the summaries is one stand-in character, and patterns on Chinese text are arguments or left
  out; upper case turns the sharp s into two letters, as in Python.  Integers are unbounded, as in
  Python.  A float is the text \<^verbatim>\<open>json\<close> prints for it.  No
  definition needs fuel: recursion is structural or has a measure (the regular-expression
  matcher repeats single character classes only).  The loop runs at most the configured number
  of iterations and 46 more for its recoveries, which is what its measure counts.  A rule of
  the guard carries its regular expression compiled.

  \<^bold>\<open>Lemmas about defects.\<close>  Some lemmas and theorems show behaviour that the comments of the
  sources exclude: a log line ended by a lone carriage return hides the tail of the log from
  verification; a seal on a torn log lets the next append leave a sequence gap; a failed write
  through a kept handle lets the next append return a record that does not verify; a run file that
  is not UTF-8 aborts recovery; a number sign hides a command from the classifier; the second
  approval request of a chain drops the tier of the first; a dangerous-command rule turns a
  refusal that no approval should lift into a request for approval; a timeout of a provider
  without a declared limit leaves its claim open; a conversation of many short messages is
  refused as too large although shortening it would make it fit; an objection that begins with a
  longer word than \<^verbatim>\<open>PASS\<close> passes the gate of a language model; a configured hook that
  takes the name of the hook that protects configuration replaces it; a usage that is not a
  number fails the reply it belongs to; blank call arguments mean an empty object in a plain
  reply and an exception in a streamed one; the recovery from a refused context keeps the
  fragments whose drafts it retracted; an interface deeper than the limit passes when a shorter
  path reaches the same element first.

  \<^bold>\<open>Not modelled.\<close>  The server, sub-agents, the client of the MCP protocol, observability,
  the assembly of prompts, memory and the front ends.  Within the modelled files: file modes and
  connection settings, the parsing of regular-expression text, the sharing of one chain object
  per log path and the sealing at shutdown, the per-tool locks of serial tools, the context
  variables that bind objects to a request, and the request builder of summaries.
\<close>

end
